(* ===== verification/Guild_Prelude.thy ===== *)
theory Guild_Prelude
  imports Main "HOL-Library.Char_ord" "HOL-Library.List_Lexorder"
begin

text \<open>
  Shared vocabulary of the development: the exceptions the Python code raises, the result
  type of fallible code, the state-and-exception type of code that runs on a store, and the
  generic facts on strings, association lists and folds that the components share.

  Python strings are modelled as \<^typ>\<open>string\<close>: a character stands for the code point of the
  same number, so the model covers the code points 0 to 255.
\<close>

named_theorems result_simps "inversion rules of the result and state combinators"
named_theorems raise_simps "when the result and state combinators raise"
named_theorems status_simps "facts that decide run statuses"

section \<open>Exceptions and results\<close>

text \<open>
  The exception classes the modelled code raises. Callers only ever dispatch on the class,
  so the message is not kept; the message stands beside each branch as a comment where it
  tells branches apart. \<open>ValidationError\<close> is pydantic's error and a subclass of
  \<open>ValueError\<close>; \<open>DatabaseError\<close> is the sqlite3 constraint error.
\<close>

text \<open>The reason a recovery was denied is the one message that callers read.\<close>

datatype denial_reason =
    DENIED_NOT_RECOVERABLE
  | DENIED_RUN_NOT_FOUND
  | DENIED_STORAGE_CHANGED
  | DENIED_EVIDENCE_INVALID
  | DENIED_MAINTENANCE_BUSY

text \<open>The reasons of the maintenance lease and of the quarantine, which their callers dispatch on.\<close>

datatype maintenance_busy_reason = LEASE_HELD | QUARANTINE_ACTIVE

datatype maintenance_integrity_reason =
    LEASE_STATE_INVALID
  | LEASE_STATE_CHANGED
  | LOCK_INVALID
  | LOCK_CHANGED
  | QUARANTINE_FENCE_INVALID
  | LOCK_OPERATION_FAILED
  | PROCESS_CHANGED
  | LEASE_MODE_REQUIRED
  | LEASE_DESCRIPTOR_BORROWED
  | LEASE_ALREADY_ENTERED
  | LEASE_RELEASED

datatype quarantine_failure_reason =
    MAINTENANCE_DENIED
  | STORAGE_NOT_QUARANTINABLE
  | UNSUPPORTED_FINDING
  | CANDIDATE_LIMIT_EXCEEDED
  | HASH_LIMIT_EXCEEDED
  | NAMESPACE_INVALID
  | ACTIVE_INVALID
  | RECORD_INVALID
  | PLAN_CHANGED
  | LEDGER_CHANGED
  | REACHABLE_GRAPH_CHANGED
  | CANDIDATE_CHANGED
  | CANDIDATE_AMBIGUOUS
  | DESTINATION_COLLISION
  | CROSS_DEVICE
  | FINAL_AUDIT_FAILED
  | QUARANTINE_IO_ERROR

datatype exn =
    ValueError
  | ValidationError
  | TypeError
  | KeyError
  | IndexError
  | OverflowError
  | BudgetExceededError "string list"
  | ReservationExceededError
  | ReplayIntegrityError
  | StoreIntegrityError
  | DatabaseError
  | OSError
  | ArtifactCorruptionError
  | FixtureConfigurationError
  | SandboxConfigurationError
  | CampaignConfigurationError
  | CampaignEvidenceError
  | RecoveryDeniedError denial_reason
  | RecoveryPostCommitMaintenanceError
  | FixtureRunPostCommitMaintenanceError
  | MaintenanceBusyError maintenance_busy_reason
  | MaintenanceIntegrityError maintenance_integrity_reason
  | PatchValidationError
  | PatchApplyError
  | ProtocolFailure quarantine_failure_reason
  | CommittedFailure
  | QuarantineDeniedError quarantine_failure_reason
  | QuarantineIncompleteError quarantine_failure_reason "string option"
  | QuarantineFinalizationError

type_synonym 'a result = "exn + 'a"

definition rbind :: "'a result \<Rightarrow> ('a \<Rightarrow> 'b result) \<Rightarrow> 'b result" where
  "rbind m f = (case m of Inl e \<Rightarrow> Inl e | Inr x \<Rightarrow> f x)"

definition require :: "bool \<Rightarrow> exn \<Rightarrow> unit result" where
  "require b e = (if b then Inr () else Inl e)"

definition of_option :: "exn \<Rightarrow> 'a option \<Rightarrow> 'a result" where
  "of_option e m = (case m of None \<Rightarrow> Inl e | Some x \<Rightarrow> Inr x)"

text \<open>A raised exception that an \<open>except ...: raise Other\<close> clause turns into another one.\<close>

definition map_error :: "(exn \<Rightarrow> exn) \<Rightarrow> 'a result \<Rightarrow> 'a result" where
  "map_error h m = (case m of Inl e \<Rightarrow> Inl (h e) | Inr x \<Rightarrow> Inr x)"

lemma rbind_simps [simp]:
  "rbind (Inl e) f = Inl e"
  "rbind (Inr x) f = f x"
  by (simp_all add: rbind_def)

lemma require_simps [simp]:
  "require True e = Inr ()"
  "require False e = Inl e"
  by (simp_all add: require_def)

lemma of_option_simps [simp]:
  "of_option e None = Inl e"
  "of_option e (Some x) = Inr x"
  by (simp_all add: of_option_def)

lemma map_error_simps [simp]:
  "map_error h (Inl e) = Inl (h e)"
  "map_error h (Inr x) = Inr x"
  by (simp_all add: map_error_def)

lemma rbind_eq_Inr [result_simps]:
  "rbind m f = Inr y \<longleftrightarrow> (\<exists>x. m = Inr x \<and> f x = Inr y)"
  by (cases m) auto

lemma require_eq_Inr [result_simps]: "require b e = Inr u \<longleftrightarrow> b"
  by (cases b) auto

lemma of_option_eq_Inr [result_simps]: "of_option e m = Inr x \<longleftrightarrow> m = Some x"
  by (cases m) auto

lemma map_error_eq_Inr [result_simps]: "map_error h m = Inr x \<longleftrightarrow> m = Inr x"
  by (cases m) auto

lemma if_error_eq_Inr [result_simps]:
  "(if b then Inl e else m) = Inr y \<longleftrightarrow> \<not> b \<and> m = Inr y"
  by auto

lemma rbind_assoc: "rbind (rbind m f) g = rbind m (\<lambda>x. rbind (f x) g)"
  by (cases m) auto

text \<open>A loop whose body may raise: the first exception stops it.\<close>

fun rfold :: "('a \<Rightarrow> 's \<Rightarrow> 's result) \<Rightarrow> 'a list \<Rightarrow> 's \<Rightarrow> 's result" where
  "rfold f [] s = Inr s"
| "rfold f (x # xs) s = rbind (f x s) (rfold f xs)"

lemma rfold_append: "rfold f (xs @ ys) s = rbind (rfold f xs s) (rfold f ys)"
proof (induction xs arbitrary: s)
  case (Cons x xs)
  then have "rfold f (xs @ ys) = (\<lambda>u. rbind (rfold f xs u) (rfold f ys))"
    by blast
  then show ?case by (simp add: rbind_assoc)
qed simp

lemma rfold_snoc_Inr:
  "rfold f (xs @ [x]) s = Inr t \<longleftrightarrow> (\<exists>u. rfold f xs s = Inr u \<and> f x u = Inr t)"
  by (auto simp: rfold_append rbind_eq_Inr)

lemma rfold_invariant:
  assumes "rfold f xs s = Inr t" and "P s"
    and "\<And>x u v. x \<in> set xs \<Longrightarrow> P u \<Longrightarrow> f x u = Inr v \<Longrightarrow> P v"
  shows "P t"
  using assms by (induction xs arbitrary: s) (auto simp: rbind_eq_Inr)

section \<open>Code that runs on a store\<close>

text \<open>
  A method that reads and writes a store and may raise: it returns the exception or the
  value together with the store it leaves behind.
\<close>

type_synonym ('s, 'a) op = "'s \<Rightarrow> 'a result \<times> 's"

definition sreturn :: "'a \<Rightarrow> ('s, 'a) op" where
  "sreturn x s = (Inr x, s)"

definition sraise :: "exn \<Rightarrow> ('s, 'a) op" where
  "sraise e s = (Inl e, s)"

definition sbind :: "('s, 'a) op \<Rightarrow> ('a \<Rightarrow> ('s, 'b) op) \<Rightarrow> ('s, 'b) op" where
  "sbind m f s = (case m s of (Inl e, t) \<Rightarrow> (Inl e, t) | (Inr x, t) \<Rightarrow> f x t)"

definition sthen :: "('s, 'a) op \<Rightarrow> ('s, 'b) op \<Rightarrow> ('s, 'b) op" where
  "sthen m n = sbind m (\<lambda>_. n)"

definition sget :: "('s \<Rightarrow> 'a) \<Rightarrow> ('s, 'a) op" where
  "sget f s = (Inr (f s), s)"

definition smodify :: "('s \<Rightarrow> 's) \<Rightarrow> ('s, unit) op" where
  "smodify f s = (Inr (), f s)"

text \<open>A pure computation that may raise, run on a store it does not change.\<close>

definition slift :: "'a result \<Rightarrow> ('s, 'a) op" where
  "slift m s = (m, s)"

definition sread :: "('s \<Rightarrow> 'a result) \<Rightarrow> ('s, 'a) op" where
  "sread f s = (f s, s)"

definition sguard :: "bool \<Rightarrow> exn \<Rightarrow> ('s, unit) op" where
  "sguard b e = slift (require b e)"

fun sfor :: "'a list \<Rightarrow> ('a \<Rightarrow> ('s, unit) op) \<Rightarrow> ('s, unit) op" where
  "sfor [] f = sreturn ()"
| "sfor (x # xs) f = sthen (f x) (sfor xs f)"

lemma sreturn_Inr [result_simps]: "sreturn x s = (Inr y, t) \<longleftrightarrow> y = x \<and> t = s"
  by (auto simp: sreturn_def)

lemma sraise_Inr [result_simps]: "sraise e s \<noteq> (Inr y, t)"
  by (simp add: sraise_def)

lemma sbind_Inr [result_simps]:
  "sbind m f s = (Inr y, t) \<longleftrightarrow> (\<exists>x u. m s = (Inr x, u) \<and> f x u = (Inr y, t))"
  by (auto simp: sbind_def split: prod.splits sum.splits)

lemma sthen_Inr [result_simps]:
  "sthen m n s = (Inr y, t) \<longleftrightarrow> (\<exists>x u. m s = (Inr x, u) \<and> n u = (Inr y, t))"
  by (simp add: sthen_def sbind_Inr)

lemma sget_Inr [result_simps]: "sget f s = (Inr y, t) \<longleftrightarrow> y = f s \<and> t = s"
  by (auto simp: sget_def)

lemma smodify_Inr [result_simps]: "smodify f s = (Inr y, t) \<longleftrightarrow> t = f s"
  by (auto simp: smodify_def)

lemma slift_Inr [result_simps]: "slift m s = (Inr y, t) \<longleftrightarrow> m = Inr y \<and> t = s"
  by (auto simp: slift_def)

lemma sread_Inr [result_simps]: "sread f s = (Inr y, t) \<longleftrightarrow> f s = Inr y \<and> t = s"
  by (auto simp: sread_def)

lemma sguard_Inr [result_simps]: "sguard b e s = (Inr y, t) \<longleftrightarrow> b \<and> t = s"
  by (auto simp: sguard_def slift_Inr require_eq_Inr)

lemma sreturn_Inl [raise_simps]: "sreturn x s \<noteq> (Inl e, t)"
  by (simp add: sreturn_def)

lemma sraise_Inl [raise_simps]: "sraise e s = (Inl e', t) \<longleftrightarrow> e' = e \<and> t = s"
  by (auto simp: sraise_def)

lemma sbind_Inl [raise_simps]:
  "sbind m f s = (Inl e, t) \<longleftrightarrow>
     m s = (Inl e, t) \<or> (\<exists>x u. m s = (Inr x, u) \<and> f x u = (Inl e, t))"
  by (auto simp: sbind_def split: prod.splits sum.splits)

lemma sthen_Inl [raise_simps]:
  "sthen m n s = (Inl e, t) \<longleftrightarrow>
     m s = (Inl e, t) \<or> (\<exists>x u. m s = (Inr x, u) \<and> n u = (Inl e, t))"
  by (simp add: sthen_def sbind_Inl)

lemma sget_Inl [raise_simps]: "sget f s \<noteq> (Inl e, t)"
  by (simp add: sget_def)

lemma smodify_Inl [raise_simps]: "smodify f s \<noteq> (Inl e, t)"
  by (simp add: smodify_def)

lemma slift_Inl [raise_simps]: "slift m s = (Inl e, t) \<longleftrightarrow> m = Inl e \<and> t = s"
  by (auto simp: slift_def)

lemma sread_Inl [raise_simps]: "sread f s = (Inl e, t) \<longleftrightarrow> f s = Inl e \<and> t = s"
  by (auto simp: sread_def)

lemma sguard_Inl [raise_simps]: "sguard b e s = (Inl e', t) \<longleftrightarrow> \<not> b \<and> e' = e \<and> t = s"
  by (auto simp: sguard_def slift_Inl require_def)

lemma sfor_append: "sfor (xs @ ys) f = sthen (sfor xs f) (sfor ys f)"
  by (induction xs)
    (auto simp: fun_eq_iff sthen_def sbind_def sreturn_def split: prod.splits sum.splits)

section \<open>Strings\<close>

text \<open>
  \<open>str.strip()\<close> of Python removes the characters for which \<open>str.isspace()\<close> holds; below 256
  these are 9 to 13, 28 to 32, 133 and 160. The \<open>strip_whitespace\<close> constraint of pydantic
  removes the characters with Unicode's White_Space property, which lacks 28 to 31.
\<close>

definition is_py_space :: "char \<Rightarrow> bool" where
  "is_py_space c =
     (let n = (of_char c :: nat) in
      9 \<le> n \<and> n \<le> 13 \<or> 28 \<le> n \<and> n \<le> 32 \<or> n = 133 \<or> n = 160)"

definition is_white_space :: "char \<Rightarrow> bool" where
  "is_white_space c =
     (let n = (of_char c :: nat) in
      9 \<le> n \<and> n \<le> 13 \<or> n = 32 \<or> n = 133 \<or> n = 160)"

definition strip_by :: "(char \<Rightarrow> bool) \<Rightarrow> string \<Rightarrow> string" where
  "strip_by p s = rev (dropWhile p (rev (dropWhile p s)))"

abbreviation py_strip :: "string \<Rightarrow> string" where
  "py_strip \<equiv> strip_by is_py_space"

abbreviation strip_whitespace :: "string \<Rightarrow> string" where
  "strip_whitespace \<equiv> strip_by is_white_space"

lemma dropWhile_rev_dropWhile:
  "xs = [] \<or> \<not> p (hd xs) \<Longrightarrow> (let ys = rev (dropWhile p (rev xs)) in ys = [] \<or> \<not> p (hd ys))"
  by (cases xs) (auto simp: Let_def dropWhile_append)

lemma strip_by_idem [simp]: "strip_by p (strip_by p s) = strip_by p s"
proof -
  let ?t = "dropWhile p s"
  have "?t = [] \<or> \<not> p (hd ?t)"
    by (metis hd_dropWhile)
  then have h: "strip_by p s = [] \<or> \<not> p (hd (strip_by p s))"
    using dropWhile_rev_dropWhile [of ?t p] by (simp add: strip_by_def Let_def)
  then have d: "dropWhile p (strip_by p s) = strip_by p s"
    by (cases "strip_by p s") auto
  have "dropWhile p (rev (strip_by p s)) = rev (strip_by p s)"
    by (simp add: strip_by_def dropWhile_idem)
  then show ?thesis
    unfolding strip_by_def [of p "strip_by p s"] d by simp
qed

lemma strip_by_eq_Nil: "strip_by p s = [] \<longleftrightarrow> list_all p s"
proof -
  have "list_all p (dropWhile p s) \<longleftrightarrow> list_all p s"
    by (induction s) auto
  then show ?thesis
    by (simp add: strip_by_def list_all_iff)
qed

lemma white_space_py_space: "is_white_space c \<Longrightarrow> is_py_space c"
  by (auto simp: is_white_space_def is_py_space_def Let_def)

definition is_hex_digit :: "char \<Rightarrow> bool" where
  "is_hex_digit c = (c \<in> set ''0123456789abcdef'')"

text \<open>The pattern \<open>^[0-9a-f]{64}$\<close> and the hand-written checks of the same shape.\<close>

definition is_lower_sha256 :: "string \<Rightarrow> bool" where
  "is_lower_sha256 s = (length s = 64 \<and> list_all is_hex_digit s)"

definition is_sha256_digest :: "string \<Rightarrow> bool" where
  "is_sha256_digest s = (take 7 s = ''sha256:'' \<and> is_lower_sha256 (drop 7 s))"

lemma hex_digit_not_space:
  assumes "is_hex_digit c"
  shows "\<not> is_py_space c"
proof -
  have "list_all (\<lambda>c. \<not> is_py_space c) ''0123456789abcdef''"
    by (simp add: is_py_space_def Let_def)
  then have "\<forall>c \<in> set ''0123456789abcdef''. \<not> is_py_space c"
    unfolding list_all_iff .
  with assms show ?thesis unfolding is_hex_digit_def by blast
qed

lemma lower_sha256_nonblank: "is_lower_sha256 s \<Longrightarrow> py_strip s \<noteq> []"
  by (cases s) (auto simp: is_lower_sha256_def strip_by_eq_Nil hex_digit_not_space)

section \<open>Decimal numerals\<close>

text \<open>\<open>str(n)\<close> of a natural number, most significant digit first, and \<open>f"{n:08d}"\<close>.\<close>

definition digit_char :: "nat \<Rightarrow> char" where
  "digit_char d = char_of (48 + d)"

fun show_nat :: "nat \<Rightarrow> string" where
  "show_nat n = (if n < 10 then [digit_char n] else show_nat (n div 10) @ [digit_char (n mod 10)])"

declare show_nat.simps [simp del]

definition show_int :: "int \<Rightarrow> string" where
  "show_int i = (if i < 0 then CHR ''-'' # show_nat (nat (- i)) else show_nat (nat i))"

definition pad_left :: "nat \<Rightarrow> string \<Rightarrow> string" where
  "pad_left w s = replicate (w - length s) (CHR ''0'') @ s"

definition is_digit :: "char \<Rightarrow> bool" where
  "is_digit c = (48 \<le> (of_char c :: nat) \<and> (of_char c :: nat) \<le> 57)"

fun read_nat :: "nat \<Rightarrow> string \<Rightarrow> nat" where
  "read_nat acc [] = acc"
| "read_nat acc (c # cs) = read_nat (10 * acc + (of_char c - 48)) cs"

lemma read_nat_append: "read_nat acc (xs @ ys) = read_nat (read_nat acc xs) ys"
  by (induction xs arbitrary: acc) simp_all

lemma read_nat_zeros: "read_nat 0 (replicate n (CHR ''0'')) = 0"
  by (induction n) simp_all

lemma of_char_digit_char [simp]: "d < 10 \<Longrightarrow> of_char (digit_char d) = 48 + d"
  by (simp add: digit_char_def)

lemma digit_char_is_digit: "d < 10 \<Longrightarrow> is_digit (digit_char d)"
  by (simp add: is_digit_def)

lemma show_nat_digits: "c \<in> set (show_nat n) \<Longrightarrow> is_digit c"
proof (induction n rule: show_nat.induct)
  case (1 n)
  then show ?case
    by (subst (asm) (2) show_nat.simps)
      (auto simp: digit_char_is_digit split: if_splits)
qed

lemma read_show_nat [simp]: "read_nat 0 (show_nat n) = n"
proof (induction n rule: show_nat.induct)
  case (1 n)
  then show ?case
    by (subst show_nat.simps) (auto simp: read_nat_append)
qed

lemma show_nat_inject [simp]: "show_nat m = show_nat n \<longleftrightarrow> m = n"
  by (metis read_show_nat)

lemma show_nat_nonempty [simp]: "show_nat n \<noteq> []"
  by (subst show_nat.simps) simp

lemma read_pad_left [simp]: "read_nat 0 (pad_left w (show_nat n)) = n"
  by (simp add: pad_left_def read_nat_append read_nat_zeros)

lemma pad_left_inject [simp]:
  "pad_left w (show_nat m) = pad_left w (show_nat n) \<longleftrightarrow> m = n"
  by (metis read_pad_left)

lemma pad_left_digits: "c \<in> set (pad_left w (show_nat n)) \<Longrightarrow> is_digit c"
  by (auto simp: pad_left_def is_digit_def dest: show_nat_digits)

lemma show_int_inject [simp]: "show_int i = show_int j \<longleftrightarrow> i = j"
proof -
  have no_minus: "show_nat n \<noteq> CHR ''-'' # s" for n s
  proof
    assume "show_nat n = CHR ''-'' # s"
    then have "is_digit (CHR ''-'')"
      using show_nat_digits [of "CHR ''-''" n] by simp
    then show False by (simp add: is_digit_def)
  qed
  show ?thesis
    using no_minus no_minus [symmetric] by (auto simp: show_int_def)
qed

section \<open>Dictionaries\<close>

text \<open>
  A Python dictionary with string keys is an association list with strictly increasing
  keys, so that equal dictionaries are equal lists whatever order their entries were
  inserted in. \<open>dict_set\<close> is \<open>d[k] = v\<close>, \<open>map_of\<close> is \<open>d.get\<close>.
\<close>

type_synonym 'v dict = "(string \<times> 'v) list"

fun dict_set :: "string \<Rightarrow> 'v \<Rightarrow> 'v dict \<Rightarrow> 'v dict" where
  "dict_set k v [] = [(k, v)]"
| "dict_set k v ((k', v') # d) =
     (if k < k' then (k, v) # (k', v') # d
      else if k = k' then (k, v) # d
      else (k', v') # dict_set k v d)"

fun dict_del :: "string \<Rightarrow> 'v dict \<Rightarrow> 'v dict" where
  "dict_del k [] = []"
| "dict_del k ((k', v') # d) = (if k = k' then d else (k', v') # dict_del k d)"

abbreviation keys :: "'v dict \<Rightarrow> string set" where
  "keys d \<equiv> fst ` set d"

definition is_dict :: "'v dict \<Rightarrow> bool" where
  "is_dict d = sorted_wrt (<) (map fst d)"

definition dict_update :: "'v dict \<Rightarrow> 'v dict \<Rightarrow> 'v dict" where
  "dict_update d e = fold (\<lambda>(k, v). dict_set k v) e d"

lemma is_dict_Nil [simp]: "is_dict []"
  by (simp add: is_dict_def)

lemma is_dict_Cons [simp]:
  "is_dict ((k, v) # d) \<longleftrightarrow> (\<forall>k' \<in> keys d. k < k') \<and> is_dict d"
  by (auto simp: is_dict_def)

lemma map_of_dict_set [simp]: "map_of (dict_set k v d) = (map_of d)(k \<mapsto> v)"
  by (induction d) (auto simp: fun_eq_iff)

lemma keys_dict_set [simp]: "keys (dict_set k v d) = insert k (keys d)"
proof -
  have "dom (map_of (dict_set k v d)) = insert k (dom (map_of d))" by simp
  then show ?thesis by (simp only: dom_map_of_conv_image_fst)
qed

lemma is_dict_dict_set [simp]: "is_dict d \<Longrightarrow> is_dict (dict_set k v d)"
proof (induction d)
  case (Cons x d)
  obtain k' v' where x: "x = (k', v')" by (cases x)
  consider "k < k'" | "k = k'" | "k' < k" by (rule linorder_cases)
  then show ?case
    using Cons by cases (auto simp: x)
qed simp

lemma is_dict_distinct: "is_dict d \<Longrightarrow> distinct (map fst d)"
  by (simp add: is_dict_def strict_sorted_iff)

lemma map_of_dict_update [simp]: "is_dict e \<Longrightarrow> map_of (dict_update d e) = map_of d ++ map_of e"
proof (induction e arbitrary: d)
  case Nil
  then show ?case by (simp add: dict_update_def)
next
  case (Cons x e)
  obtain k v where x: "x = (k, v)" by (cases x)
  from Cons.prems have "map_of e k = None"
    by (auto simp: x map_of_eq_None_iff)
  with Cons show ?case
    by (auto simp: x dict_update_def map_add_upd_left fun_eq_iff map_add_def split: option.splits)
qed

lemma is_dict_dict_update [simp]: "is_dict d \<Longrightarrow> is_dict (dict_update d e)"
  by (induction e arbitrary: d) (auto simp: dict_update_def)

lemma dict_eqI:
  assumes "is_dict d" and "is_dict e" and "map_of d = map_of e"
  shows "d = e"
  using assms
proof (induction d arbitrary: e)
  case Nil
  then have "map_of e = Map.empty" by (simp add: fun_eq_iff)
  then show ?case by simp
next
  case (Cons x d)
  obtain k v where x: "x = (k, v)" by (cases x)
  have "map_of e k = Some v"
    using fun_cong [OF Cons.prems(3), of k] by (simp add: x)
  then obtain y e' where e: "e = y # e'"
    by (cases e) auto
  obtain k' v' where y: "y = (k', v')" by (cases y)
  have "keys ((k, v) # d) = keys ((k', v') # e')"
    using arg_cong [OF Cons.prems(3), of dom] unfolding x y e dom_map_of_conv_image_fst .
  moreover have "\<forall>a \<in> keys d. k < a" "\<forall>a \<in> keys e'. k' < a"
    using Cons.prems by (auto simp: x y e)
  ultimately have k: "k = k'"
    by (metis (no_types, lifting) fst_conv image_insert insert_iff list.simps(15) order_less_asym)
  have "v = v'"
    using fun_cong [OF Cons.prems(3), of k] by (simp add: x y e k)
  moreover have "map_of d = map_of e'"
  proof
    fix a
    show "map_of d a = map_of e' a"
    proof (cases "a = k")
      case True
      have "k \<notin> keys d" "k' \<notin> keys e'"
        using \<open>\<forall>a \<in> keys d. k < a\<close> \<open>\<forall>a \<in> keys e'. k' < a\<close> by blast+
      then have "map_of d k = None" "map_of e' k' = None"
        by (simp_all add: map_of_eq_None_iff)
      then show ?thesis by (simp add: True k)
    next
      case False
      then show ?thesis
        using fun_cong [OF Cons.prems(3), of a] by (simp add: x y e k)
    qed
  qed
  ultimately show ?case
    using Cons.IH [of e'] Cons.prems by (simp add: x y e k)
qed

end
