(* ===== verification/Py_Float.thy ===== *)
theory Py_Float
  imports Complex_Main "HOL-Library.Log_Nat" Guild_Prelude
begin

text \<open>
  Python floats. A finite float is the rational number it denotes (so the two zeros are one
  value), and an arithmetic operation computes the exact rational result and rounds it to
  IEEE binary64, to nearest with ties to even: 53 significant bits, exponents down to
  \<open>2 powi (-1074)\<close>, and an infinity from \<open>2 ^ 1024\<close> on, which is the value \<^const>\<open>None\<close>.
  The lemmas are what the budget arithmetic needs of it: rounding is monotone, fixes the
  floats, and its result is a float.
\<close>

section \<open>Rounding to binary64\<close>

definition ilog2_rat :: "rat \<Rightarrow> int" where
  "ilog2_rat q =
     (case quotient_of q of (n, d) \<Rightarrow>
        let k = bitlen n - bitlen d in if 2 powi k \<le> q then k else k - 1)"

definition round_half_even :: "rat \<Rightarrow> int" where
  "round_half_even x =
     (let f = \<lfloor>x\<rfloor>; r = x - of_int f in
      if r < 1 / 2 then f else if 1 / 2 < r then f + 1 else if even f then f else f + 1)"

definition ulp_exponent :: "rat \<Rightarrow> int" where
  "ulp_exponent q = max (ilog2_rat q - 52) (- 1074)"

definition round_pos :: "rat \<Rightarrow> rat" where
  "round_pos q =
     (let u = 2 powi ulp_exponent q in of_int (round_half_even (q / u)) * u)"

definition fl :: "rat \<Rightarrow> rat" where
  "fl q = (if q = 0 then 0 else if 0 < q then round_pos q else - round_pos (- q))"

text \<open>The finite float nearest to a rational, or \<^const>\<open>None\<close> for an infinity.\<close>

definition float_limit :: rat where
  "float_limit = 2 ^ 1024"

definition to_float :: "rat \<Rightarrow> rat option" where
  "to_float q = (let r = fl q in if \<bar>r\<bar> < float_limit then Some r else None)"

lemma float_limit_pos [simp]: "0 < float_limit"
  unfolding float_limit_def by (rule zero_less_power) simp

text \<open>The limit as a numeral, for evaluation.\<close>

lemma float_limit_code [code]:
  "float_limit = rat_of_int
    179769313486231590772930519078902473361797697894230657273430081157732675805500963132708477322407536021120113879871393357658789768814416622492847430639474124377767893424865485276302219601246094119453082952085005768838150682342462881473913110540827237163350510684586298239947245938479716304835356329624224137216"
  by (simp add: float_limit_def)

definition is_float :: "rat \<Rightarrow> bool" where
  "is_float x = (to_float x = Some x)"

definition fadd :: "rat \<Rightarrow> rat \<Rightarrow> rat option" where
  "fadd x y = to_float (x + y)"

definition fsub :: "rat \<Rightarrow> rat \<Rightarrow> rat option" where
  "fsub x y = to_float (x - y)"

definition fdiv :: "rat \<Rightarrow> rat \<Rightarrow> rat option" where
  "fdiv x y = to_float (x / y)"

section \<open>The exponent of a positive rational\<close>

lemma powi_two_le_iff: "(2 :: rat) powi a \<le> 2 powi b \<longleftrightarrow> a \<le> b"
  by (metis less_le_not_le linorder_not_le one_less_numeral_iff power_int_increasing
      power_int_strict_increasing semiring_norm(76) order_less_imp_le)

lemma powi_two_less_iff: "(2 :: rat) powi a < 2 powi b \<longleftrightarrow> a < b"
  using powi_two_le_iff [of b a] by linarith

lemma powi_two_pos [simp]: "0 < (2 :: rat) powi a"
  by simp

lemma bitlen_bounds_rat:
  assumes "0 < n"
  shows "2 powi (bitlen n - 1) \<le> (of_int n :: rat)" and "of_int n < (2 :: rat) powi bitlen n"
proof -
  have pos: "1 \<le> bitlen n"
    using assms by (simp add: bitlen_def floorlog_def)
  have b: "2 ^ nat (bitlen n - 1) \<le> n" "n < 2 ^ nat (bitlen n)"
    using bitlen_bounds [OF assms] by auto
  have "(of_int (2 ^ nat (bitlen n - 1)) :: rat) \<le> of_int n"
    using b(1) by (simp only: of_int_le_iff)
  then show "2 powi (bitlen n - 1) \<le> (of_int n :: rat)"
    using pos by (simp add: power_int_def)
  have "(of_int n :: rat) < of_int (2 ^ nat (bitlen n))"
    using b(2) by (simp only: of_int_less_iff)
  then show "of_int n < (2 :: rat) powi bitlen n"
    using pos by (simp add: power_int_def)
qed

lemma ilog2_rat_bounds:
  assumes "0 < q"
  shows "2 powi ilog2_rat q \<le> q" and "q < 2 powi (ilog2_rat q + 1)"
proof -
  obtain n d where nd: "quotient_of q = (n, d)" by (cases "quotient_of q")
  have d: "0 < d" using quotient_of_denom_pos [OF nd] .
  have q: "q = of_int n / of_int d" using quotient_of_div [OF nd] .
  have n: "0 < n" using assms d by (simp add: q zero_less_divide_iff)
  define k where "k = bitlen n - bitlen d"
  have upper: "q < 2 powi (k + 1)"
  proof -
    have "q < 2 powi bitlen n / of_int d"
      using bitlen_bounds_rat(2) [OF n] d by (simp add: q divide_strict_right_mono)
    also have "\<dots> \<le> 2 powi bitlen n / 2 powi (bitlen d - 1)"
      using bitlen_bounds_rat(1) [OF d] d by (intro divide_left_mono) auto
    also have "\<dots> = 2 powi (k + 1)"
      by (simp add: k_def power_int_diff [symmetric] algebra_simps)
    finally show ?thesis .
  qed
  have lower: "2 powi (k - 1) \<le> q"
  proof -
    have "2 powi (k - 1) = (2 :: rat) powi (bitlen n - 1) / 2 powi bitlen d"
      by (simp add: k_def power_int_diff [symmetric] algebra_simps)
    also have "\<dots> \<le> of_int n / 2 powi bitlen d"
      using bitlen_bounds_rat(1) [OF n] by (simp add: divide_right_mono)
    also have "\<dots> \<le> of_int n / of_int d"
      using bitlen_bounds_rat(2) [OF d] n d by (intro divide_left_mono) auto
    finally show ?thesis by (simp add: q)
  qed
  have e: "ilog2_rat q = (if 2 powi k \<le> q then k else k - 1)"
    by (simp add: ilog2_rat_def nd k_def Let_def)
  show "2 powi ilog2_rat q \<le> q" "q < 2 powi (ilog2_rat q + 1)"
    using lower upper by (simp_all add: e)
qed

lemma ilog2_rat_unique:
  assumes "0 < q" and "2 powi e \<le> q" and "q < 2 powi (e + 1)"
  shows "ilog2_rat q = e"
proof -
  have "(2 :: rat) powi e < 2 powi (ilog2_rat q + 1)" "(2 :: rat) powi ilog2_rat q < 2 powi (e + 1)"
    using ilog2_rat_bounds [OF assms(1)] assms by linarith+
  then show ?thesis by (simp add: powi_two_less_iff)
qed

lemma ilog2_rat_mono: "0 < p \<Longrightarrow> p \<le> q \<Longrightarrow> ilog2_rat p \<le> ilog2_rat q"
proof -
  assume "0 < p" "p \<le> q"
  then have "(2 :: rat) powi ilog2_rat p < 2 powi (ilog2_rat q + 1)"
    using ilog2_rat_bounds [of p] ilog2_rat_bounds [of q] by linarith
  then show ?thesis by (simp add: powi_two_less_iff)
qed

section \<open>Rounding to an integer\<close>

lemma round_half_even_of_int [simp]: "round_half_even (of_int i) = i"
  by (simp add: round_half_even_def)

lemma round_half_even_bounds: "\<lfloor>x\<rfloor> \<le> round_half_even x" "round_half_even x \<le> \<lfloor>x\<rfloor> + 1"
  by (simp_all add: round_half_even_def Let_def)

lemma round_half_even_mono:
  assumes "x \<le> y"
  shows "round_half_even x \<le> round_half_even y"
proof (cases "\<lfloor>x\<rfloor> = \<lfloor>y\<rfloor>")
  case True
  with assms show ?thesis by (auto simp: round_half_even_def Let_def)
next
  case False
  with floor_mono [OF assms] have "\<lfloor>x\<rfloor> + 1 \<le> \<lfloor>y\<rfloor>" by linarith
  with round_half_even_bounds(2) [of x] round_half_even_bounds(1) [of y]
  show ?thesis by linarith
qed

lemma round_half_even_le_of_int: "x \<le> of_int i \<Longrightarrow> round_half_even x \<le> i"
  using round_half_even_mono [of x "of_int i"] by simp

lemma round_half_even_ge_of_int: "of_int i \<le> x \<Longrightarrow> i \<le> round_half_even x"
  using round_half_even_mono [of "of_int i" x] by simp

section \<open>Rounding fixes the floats and is monotone\<close>

lemma powi_nat_int: "0 \<le> a \<Longrightarrow> (2 :: rat) powi a = of_int (2 ^ nat a)"
  by (simp add: power_int_def)

lemma round_pos_dyadic:
  assumes "0 < m" and "m \<le> 2 ^ 53" and "- 1074 \<le> a"
  shows "round_pos (of_int m * 2 powi a) = of_int m * 2 powi a"
proof -
  let ?x = "of_int m * 2 powi a :: rat" and ?b = "ulp_exponent (of_int m * 2 powi a)"
  have x: "0 < ?x" using assms(1) by simp
  have "\<exists>i. ?x / 2 powi ?b = of_int i"
  proof (cases "?b \<le> a")
    case True
    then have "?x / 2 powi ?b = of_int m * of_int (2 ^ nat (a - ?b))"
      by (simp only: powi_nat_int [symmetric] power_int_diff) (simp add: power_int_diff)
    then show ?thesis by (metis of_int_mult)
  next
    case False
    with assms(3) have b: "?b = ilog2_rat ?x - 52" "a + 53 \<le> ilog2_rat ?x"
      by (auto simp: ulp_exponent_def max_def split: if_splits)
    have "(2 :: rat) powi (a + 53) \<le> 2 powi ilog2_rat ?x"
      using b(2) by (simp add: powi_two_le_iff)
    also have "\<dots> \<le> ?x" by (rule ilog2_rat_bounds(1) [OF x])
    finally have "(2 :: rat) powi a * 2 ^ 53 \<le> 2 powi a * of_int m"
      by (simp add: power_int_add mult.commute)
    then have "(2 :: rat) ^ 53 \<le> of_int m" by simp
    then have "2 ^ 53 \<le> m" by (metis of_int_le_iff of_int_numeral of_int_power)
    with assms(2) have m: "m = 2 ^ 53" by simp
    have "?x = 2 powi (a + 53)" by (simp add: m power_int_add)
    then have "ilog2_rat ?x = a + 53"
      by (intro ilog2_rat_unique) (auto simp: power_int_add)
    then have "?b = a + 1" using b(1) by simp
    then have "?x / 2 powi ?b = of_int (2 ^ 52)"
      by (simp add: m power_int_add)
    then show ?thesis by blast
  qed
  then obtain i where "?x / 2 powi ?b = of_int i" ..
  moreover from this have "of_int i * 2 powi ?b = ?x"
    by (metis divide_eq_eq powi_two_pos less_irrefl)
  ultimately show ?thesis
    by (simp add: round_pos_def Let_def)
qed

lemma round_pos_form:
  assumes "0 < q"
  obtains m where "0 \<le> m" and "m \<le> 2 ^ 53" and "round_pos q = of_int m * 2 powi ulp_exponent q"
proof
  let ?u = "(2 :: rat) powi ulp_exponent q" and ?m = "round_half_even (q / 2 powi ulp_exponent q)"
  show "round_pos q = of_int ?m * ?u" by (simp add: round_pos_def Let_def)
  have "0 \<le> q / ?u" using assms by simp
  then show "0 \<le> ?m" by (intro round_half_even_ge_of_int) simp
  have "q < 2 powi (ilog2_rat q + 1)" by (rule ilog2_rat_bounds(2) [OF assms])
  also have "\<dots> \<le> 2 powi (ulp_exponent q + 53)"
    by (simp add: powi_two_le_iff ulp_exponent_def)
  finally have "q / ?u < 2 ^ 53"
    by (simp add: power_int_add divide_less_eq mult.commute)
  then show "?m \<le> 2 ^ 53" by (intro round_half_even_le_of_int) simp
qed

lemma round_pos_nonneg: "0 < q \<Longrightarrow> 0 \<le> round_pos q"
  by (erule round_pos_form) simp

lemma round_pos_mono:
  assumes "0 < p" and "p \<le> q"
  shows "round_pos p \<le> round_pos q"
proof (cases "ulp_exponent p = ulp_exponent q")
  case True
  with assms show ?thesis
    by (simp add: round_pos_def Let_def round_half_even_mono divide_right_mono)
next
  case False
  let ?e = "ilog2_rat q" and ?a = "ulp_exponent p"
  have log: "ilog2_rat p \<le> ?e" using assms by (rule ilog2_rat_mono)
  with False have b: "ulp_exponent q = ?e - 52" and pe: "ilog2_rat p < ?e" and a: "?a \<le> ?e"
    by (auto simp: ulp_exponent_def max_def split: if_splits)
  have "p \<le> 2 powi ?e"
  proof -
    have "p < 2 powi (ilog2_rat p + 1)" by (rule ilog2_rat_bounds(2) [OF assms(1)])
    also have "\<dots> \<le> 2 powi ?e" using pe by (simp add: powi_two_le_iff)
    finally show ?thesis by simp
  qed
  then have "p / 2 powi ?a \<le> 2 powi ?e / 2 powi ?a" by (simp add: divide_right_mono)
  also have "\<dots> = of_int (2 ^ nat (?e - ?a))"
    using a by (simp add: power_int_diff [symmetric] powi_nat_int)
  finally have "round_half_even (p / 2 powi ?a) \<le> 2 ^ nat (?e - ?a)"
    by (rule round_half_even_le_of_int)
  then have "of_int (round_half_even (p / 2 powi ?a)) \<le> (2 :: rat) powi (?e - ?a)"
    using a by (simp only: powi_nat_int of_int_le_iff)
  then have "round_pos p \<le> 2 powi (?e - ?a) * 2 powi ?a"
    by (simp only: round_pos_def Let_def mult_right_mono powi_two_pos less_imp_le)
  then have p: "round_pos p \<le> 2 powi ?e" by (simp add: power_int_diff)
  have "(2 :: rat) powi ?e \<le> q" using assms by (intro ilog2_rat_bounds(1)) simp
  then have "of_int (2 ^ 52) \<le> q / 2 powi (?e - 52)"
    by (simp add: power_int_diff pos_le_divide_eq mult.commute)
  then have "2 ^ 52 \<le> round_half_even (q / 2 powi (?e - 52))"
    by (rule round_half_even_ge_of_int)
  then have "of_int (2 ^ 52) \<le> (of_int (round_half_even (q / 2 powi (?e - 52))) :: rat)"
    by (simp only: of_int_le_iff)
  then have "of_int (2 ^ 52) * 2 powi (?e - 52) \<le> round_pos q"
    by (simp only: round_pos_def Let_def b mult_right_mono powi_two_pos less_imp_le)
  then have "2 powi ?e \<le> round_pos q" by (simp add: power_int_diff)
  with p show ?thesis by simp
qed

lemma fl_zero [simp]: "fl 0 = 0"
  by (simp add: fl_def)

lemma fl_nonneg: "0 \<le> q \<Longrightarrow> 0 \<le> fl q"
  by (simp add: fl_def round_pos_nonneg)

lemma fl_mono_nonneg: "0 \<le> p \<Longrightarrow> p \<le> q \<Longrightarrow> fl p \<le> fl q"
  by (auto simp: fl_def round_pos_mono round_pos_nonneg)

lemma fl_idem [simp]: "fl (fl q) = fl q"
proof -
  have pos: "fl (round_pos r) = round_pos r" if "0 < r" for r
  proof -
    from that obtain m where m: "0 \<le> m" "m \<le> 2 ^ 53" "round_pos r = of_int m * 2 powi ulp_exponent r"
      by (rule round_pos_form)
    show ?thesis
    proof (cases "m = 0")
      case False
      with m show ?thesis
        by (simp add: fl_def round_pos_dyadic ulp_exponent_def)
    qed (simp add: m)
  qed
  have neg: "fl (- x) = - fl x" for x by (simp add: fl_def)
  show ?thesis
    unfolding fl_def [of q] using pos [of q] pos [of "- q"] by (auto simp: neg)
qed

lemma to_float_mono:
  assumes "0 \<le> p" and "p \<le> q" and "to_float q = Some y"
  obtains x where "to_float p = Some x" and "0 \<le> x" and "x \<le> y"
proof -
  have "0 \<le> fl p" "fl p \<le> fl q" using assms by (simp_all add: fl_nonneg fl_mono_nonneg)
  with assms(3) that show thesis
    by (auto simp: to_float_def Let_def split: if_splits)
qed

lemma to_float_is_float: "to_float q = Some x \<Longrightarrow> is_float x"
  by (auto simp: to_float_def is_float_def Let_def split: if_splits)

lemma to_float_nonneg: "0 \<le> q \<Longrightarrow> to_float q = Some x \<Longrightarrow> 0 \<le> x"
  by (auto simp: to_float_def Let_def fl_nonneg split: if_splits)

lemma is_float_zero [simp]: "is_float 0"
  by (simp add: is_float_def to_float_def)

lemma fadd_zero [simp]: "is_float x \<Longrightarrow> fadd 0 x = Some x" "is_float x \<Longrightarrow> fadd x 0 = Some x"
  by (simp_all add: fadd_def is_float_def)

lemma fsub_self [simp]: "fsub x x = Some 0"
  by (simp add: fsub_def to_float_def)

lemma fadd_commute: "fadd x y = fadd y x"
  by (simp add: fadd_def add.commute)

lemma fadd_is_float: "fadd x y = Some z \<Longrightarrow> is_float z"
  by (auto simp: fadd_def to_float_is_float)

lemma fadd_nonneg: "0 \<le> x \<Longrightarrow> 0 \<le> y \<Longrightarrow> fadd x y = Some z \<Longrightarrow> 0 \<le> z"
  using to_float_nonneg [of "x + y" z] by (simp add: fadd_def)

text \<open>Addition of nonnegative floats is monotone, and never falls below an argument.\<close>

lemma fadd_mono:
  assumes "0 \<le> x" and "0 \<le> y" and "x \<le> x'" and "y \<le> y'" and "fadd x' y' = Some z'"
  obtains z where "fadd x y = Some z" and "z \<le> z'"
  using assms to_float_mono [of "x + y" "x' + y'" z'] unfolding fadd_def
  by (metis add_mono add_nonneg_nonneg)

lemma fadd_ge_left: "is_float x \<Longrightarrow> 0 \<le> x \<Longrightarrow> 0 \<le> y \<Longrightarrow> fadd x y = Some z \<Longrightarrow> x \<le> z"
  using fadd_mono [of x 0 x y z] by (metis fadd_zero(2) option.inject order_refl)

lemma fadd_ge_right: "is_float y \<Longrightarrow> 0 \<le> x \<Longrightarrow> 0 \<le> y \<Longrightarrow> fadd x y = Some z \<Longrightarrow> y \<le> z"
  using fadd_ge_left [of y x z] by (simp add: fadd_commute)

end
