(* ===== verification/Float_Repr.thy ===== *)
theory Float_Repr
  imports Py_Float
begin

text \<open>
  The text of a Python float. \<open>repr\<close> prints the shortest decimal that rounds back to the
  float: the search tries one to seventeen significant digits, and lays the digits out in
  positional or exponent form. The last branch of the search, the exact decimal expansion,
  exists so that the function is total; seventeen digits always identify a binary64 value.
  \<open>float_repr_inject\<close> is what the canonical JSON text needs of it: different floats have
  different texts.
\<close>

section \<open>Shortest decimals\<close>

text \<open>The position of the decimal point: the least \<open>k\<close> with \<open>q < 10 powi k\<close>.\<close>

definition decimal_point :: "rat \<Rightarrow> int" where
  "decimal_point q = (case find (\<lambda>k. q < 10 powi k) [- 323..310] of None \<Rightarrow> 0 | Some k \<Rightarrow> k)"

definition dec_value :: "nat \<Rightarrow> int \<Rightarrow> rat" where
  "dec_value d k = of_nat d * 10 powi k"

text \<open>The \<open>n\<close>-digit decimal nearest to \<open>q\<close>.\<close>

definition nearest_decimal :: "rat \<Rightarrow> nat \<Rightarrow> nat \<times> int" where
  "nearest_decimal q n =
     (let k = decimal_point q - int n in (nat (round_half_even (q / 10 powi k)), k))"

definition exact_decimal :: "rat \<Rightarrow> nat \<times> int" where
  "exact_decimal q =
     (case quotient_of q of (n, d) \<Rightarrow>
        let a = nat (bitlen d - 1) in (nat n * 5 ^ a, - int a))"

definition shortest_decimal :: "rat \<Rightarrow> nat \<times> int" where
  "shortest_decimal q =
     (case find (\<lambda>n. case nearest_decimal q n of (d, k) \<Rightarrow> fl (dec_value d k) = q) [1..<18] of
        None \<Rightarrow> exact_decimal q
      | Some n \<Rightarrow> nearest_decimal q n)"

text \<open>Trailing zeros of the digits move into the exponent.\<close>

fun drop_zeros :: "nat \<Rightarrow> int \<Rightarrow> nat \<times> int" where
  "drop_zeros d k = (if d = 0 then (0, 0) else if d mod 10 = 0 then drop_zeros (d div 10) (k + 1) else (d, k))"

declare drop_zeros.simps [simp del]

section \<open>Layout\<close>

definition format_float_short :: "string \<Rightarrow> int \<Rightarrow> string" where
  "format_float_short ds decpt =
     (if - 4 < decpt \<and> decpt \<le> 16 then
        (if decpt \<le> 0 then ''0.'' @ replicate (nat (- decpt)) (CHR ''0'') @ ds
         else if int (length ds) \<le> decpt
           then ds @ replicate (nat decpt - length ds) (CHR ''0'') @ ''.0''
         else take (nat decpt) ds @ ''.'' @ drop (nat decpt) ds)
      else
        take 1 ds @ (if 1 < length ds then ''.'' @ drop 1 ds else [])
          @ ''e'' @ (if decpt < 1 then ''-'' else ''+'') @ pad_left 2 (show_nat (nat \<bar>decpt - 1\<bar>)))"

definition float_repr_nonneg :: "rat \<Rightarrow> string" where
  "float_repr_nonneg q =
     (case shortest_decimal q of (d, k) \<Rightarrow>
      case drop_zeros d k of (d', k') \<Rightarrow>
        let ds = show_nat d' in format_float_short ds (int (length ds) + k'))"

definition float_repr :: "rat \<Rightarrow> string" where
  "float_repr q = (if q < 0 then ''-'' @ float_repr_nonneg (- q) else float_repr_nonneg q)"

section \<open>Reading the text back\<close>

definition read_exponent :: "string \<Rightarrow> int" where
  "read_exponent s =
     (case s of [] \<Rightarrow> 0
      | c # cs \<Rightarrow> if c = CHR ''-'' then - int (read_nat 0 cs) else int (read_nat 0 cs))"

definition read_decimal :: "string \<Rightarrow> rat" where
  "read_decimal s =
     (let m = takeWhile (\<lambda>c. c \<noteq> CHR ''e'') s;
          e = drop (Suc (length m)) s;
          ip = takeWhile (\<lambda>c. c \<noteq> CHR ''.'') m;
          fp = drop (Suc (length ip)) m
      in of_nat (read_nat 0 (ip @ fp)) * 10 powi (read_exponent e - int (length fp)))"

lemma digit_not_special:
  assumes "is_digit c"
  shows "c \<noteq> CHR ''e''" "c \<noteq> CHR ''.''" "c \<noteq> CHR ''-''" "c \<noteq> CHR ''+''"
  using assms by (auto simp: is_digit_def)

lemma zero_is_digit: "is_digit (CHR ''0'')"
  by (simp add: is_digit_def)

lemma read_decimal_positional:
  assumes "list_all is_digit ip" and "list_all is_digit fp"
  shows "read_decimal (ip @ ''.'' @ fp) = of_nat (read_nat 0 (ip @ fp)) * 10 powi (- int (length fp))"
proof -
  have m: "takeWhile (\<lambda>c. c \<noteq> CHR ''e'') (ip @ ''.'' @ fp) = ip @ ''.'' @ fp"
    using assms by (subst takeWhile_eq_all_conv) (auto simp: list_all_iff dest: digit_not_special)
  have i: "takeWhile (\<lambda>c. c \<noteq> CHR ''.'') (ip @ ''.'' @ fp) = ip"
    using assms(1) by (subst takeWhile_append2) (auto simp: list_all_iff dest: digit_not_special)
  show ?thesis
    unfolding read_decimal_def Let_def m i by (simp add: read_exponent_def)
qed

lemma read_decimal_exponent:
  assumes "list_all is_digit ip" and "list_all is_digit fp" and "s \<in> {CHR ''-'', CHR ''+''}"
  shows "read_decimal (ip @ (if fp \<noteq> [] then ''.'' @ fp else []) @ ''e'' @ s # pad_left 2 (show_nat n))
    = of_nat (read_nat 0 (ip @ fp)) * 10 powi ((if s = CHR ''-'' then - int n else int n) - int (length fp))"
proof -
  let ?m = "ip @ (if fp \<noteq> [] then ''.'' @ fp else [])"
  have m: "takeWhile (\<lambda>c. c \<noteq> CHR ''e'') (?m @ CHR ''e'' # s # pad_left 2 (show_nat n)) = ?m"
    using assms by (subst takeWhile_append2) (auto simp: list_all_iff dest: digit_not_special split: if_splits)
  have i: "takeWhile (\<lambda>c. c \<noteq> CHR ''.'') ?m = ip"
  proof (cases "fp = []")
    case True
    have "takeWhile (\<lambda>c. c \<noteq> CHR ''.'') ip = ip"
      using assms(1) by (subst takeWhile_eq_all_conv) (auto simp: list_all_iff dest: digit_not_special)
    with True show ?thesis by simp
  next
    case False
    then show ?thesis
      using assms(1) by simp (subst takeWhile_append2, auto simp: list_all_iff dest: digit_not_special)
  qed
  show ?thesis
    using assms(3) m i
    by (auto simp: read_decimal_def Let_def read_exponent_def simp del: takeWhile_append)
qed

lemma read_nat_scale_zeros: "read_nat a (replicate n (CHR ''0'')) = a * 10 ^ n"
  by (induction n arbitrary: a) simp_all

lemma list_all_replicate_zero: "list_all is_digit (replicate n (CHR ''0''))"
  by (simp add: list_all_iff zero_is_digit)

lemma read_format_float_short:
  assumes ds: "list_all is_digit ds" and ne: "ds \<noteq> []"
  shows "read_decimal (format_float_short ds decpt)
    = of_nat (read_nat 0 ds) * 10 powi (decpt - int (length ds))"
proof -
  consider (small) "- 4 < decpt" "decpt \<le> 0"
    | (whole) "0 < decpt" "decpt \<le> 16" "int (length ds) \<le> decpt"
    | (split) "0 < decpt" "decpt \<le> 16" "decpt < int (length ds)"
    | (exponent) "\<not> (- 4 < decpt \<and> decpt \<le> 16)"
    by linarith
  then show ?thesis
  proof cases
    case small
    let ?z = "replicate (nat (- decpt)) (CHR ''0'')"
    have "list_all is_digit ''0''" by (simp add: zero_is_digit)
    moreover have "list_all is_digit (?z @ ds)" using ds by (simp add: list_all_replicate_zero)
    ultimately have "read_decimal (''0'' @ ''.'' @ (?z @ ds))
        = of_nat (read_nat 0 (''0'' @ ?z @ ds)) * 10 powi (- int (length (?z @ ds)))"
      by (rule read_decimal_positional)
    with small show ?thesis
      by (simp add: format_float_short_def read_nat_append read_nat_zeros)
  next
    case whole
    let ?z = "replicate (nat decpt - length ds) (CHR ''0'')"
    have "read_decimal ((ds @ ?z) @ ''.'' @ ''0'')
        = of_nat (read_nat 0 ((ds @ ?z) @ ''0'')) * 10 powi (- int (length ''0''))"
      by (rule read_decimal_positional) (simp_all add: ds list_all_replicate_zero zero_is_digit)
    moreover have "(10 :: rat) ^ (nat decpt - length ds) = 10 powi (decpt - int (length ds))"
      using whole by (simp add: power_int_def nat_diff_distrib)
    ultimately show ?thesis
      using whole
      by (simp add: format_float_short_def read_nat_append read_nat_scale_zeros power_int_minus)
  next
    case split
    have "read_decimal (take (nat decpt) ds @ ''.'' @ drop (nat decpt) ds)
        = of_nat (read_nat 0 (take (nat decpt) ds @ drop (nat decpt) ds))
            * 10 powi (- int (length (drop (nat decpt) ds)))"
      by (rule read_decimal_positional) (use ds in \<open>auto simp: list_all_iff dest: in_set_takeD in_set_dropD\<close>)
    with split show ?thesis
      by (simp add: format_float_short_def of_nat_diff)
  next
    case exponent
    let ?s = "if decpt < 1 then CHR ''-'' else CHR ''+''" and ?n = "nat \<bar>decpt - 1\<bar>"
    have len: "int (length (drop 1 ds)) = int (length ds) - 1" using ne by (cases ds) auto
    have "read_decimal (take 1 ds @ (if drop 1 ds \<noteq> [] then ''.'' @ drop 1 ds else [])
            @ ''e'' @ ?s # pad_left 2 (show_nat ?n))
        = of_nat (read_nat 0 (take 1 ds @ drop 1 ds))
            * 10 powi ((if ?s = CHR ''-'' then - int ?n else int ?n) - int (length (drop 1 ds)))"
      by (rule read_decimal_exponent) (use ds in \<open>auto simp: list_all_iff dest: in_set_takeD in_set_dropD\<close>)
    moreover have "(if ?s = CHR ''-'' then - int ?n else int ?n) - int (length (drop 1 ds))
        = decpt - int (length ds)"
      unfolding len by auto
    moreover have "format_float_short ds decpt
        = take 1 ds @ (if drop 1 ds \<noteq> [] then ''.'' @ drop 1 ds else [])
            @ ''e'' @ ?s # pad_left 2 (show_nat ?n)"
      using exponent by (auto simp: format_float_short_def)
    ultimately show ?thesis by (simp only: append_take_drop_id)
  qed
qed

section \<open>Different floats have different texts\<close>

lemma dec_value_drop_zeros: "drop_zeros d k = (d', k') \<Longrightarrow> dec_value d' k' = dec_value d k"
proof (induction d k rule: drop_zeros.induct)
  case (1 d k)
  show ?case
  proof (cases "d \<noteq> 0 \<and> d mod 10 = 0")
    case True
    then have "drop_zeros (d div 10) (k + 1) = (d', k')"
      using "1.prems" by (simp add: drop_zeros.simps [of d k])
    with True have "dec_value d' k' = dec_value (d div 10) (k + 1)"
      using "1.IH" by simp
    also have "\<dots> = dec_value d k"
    proof -
      have "d = 10 * (d div 10)" using True by (simp add: mod_eq_0_iff_dvd)
      then have "(of_nat d :: rat) = 10 * of_nat (d div 10)" by (metis of_nat_mult of_nat_numeral)
      then show ?thesis by (simp add: dec_value_def power_int_add)
    qed
    finally show ?thesis .
  next
    case False
    with "1.prems" show ?thesis
      by (auto simp: drop_zeros.simps [of d k] dec_value_def split: if_splits)
  qed
qed

lemma float_dyadic:
  assumes "fl q = q" and "0 < q"
  obtains m a where "q = of_int m * 2 powi a"
  using assms round_pos_form [OF assms(2)] by (metis fl_def less_irrefl)

lemma dvd_power_of_two: "0 < (d :: int) \<Longrightarrow> d dvd 2 ^ k \<Longrightarrow> \<exists>i. d = 2 ^ i"
proof (induction k arbitrary: d)
  case 0
  then have "d = 1" by (simp add: zdvd1_eq)
  then show ?case by (intro exI [of _ 0]) simp
next
  case (Suc k)
  show ?case
  proof (cases "even d")
    case True
    then obtain e where e: "d = 2 * e" by blast
    with Suc.prems Suc.IH [of e] obtain i where "e = 2 ^ i" by auto
    then show ?thesis by (intro exI [of _ "Suc i"]) (simp add: e)
  next
    case False
    then have "coprime d (2 ^ Suc k)" by simp
    with Suc.prems have "d = 1"
      by (metis coprime_common_divisor dvd_refl zdvd1_eq abs_of_pos)
    then show ?thesis by (intro exI [of _ 0]) simp
  qed
qed

lemma float_denominator:
  assumes "fl q = q" and "0 < q" and "quotient_of q = (n, d)"
  shows "d = 2 ^ nat (bitlen d - 1)"
proof -
  from assms(1,2) obtain m a where q: "q = of_int m * 2 powi a" by (rule float_dyadic)
  have d: "0 < d" and cop: "coprime n d" and nd: "q = of_int n / of_int d"
    using assms(3) quotient_of_denom_pos quotient_of_coprime quotient_of_div by blast+
  have "d dvd 2 ^ nat (- a)"
  proof (cases "0 \<le> a")
    case True
    then have "(of_int n :: rat) = of_int (m * 2 ^ nat a * d)"
      using d nd q by (simp add: power_int_def divide_eq_eq)
    then have "n = m * 2 ^ nat a * d" by (simp only: of_int_eq_iff)
    then have "d dvd n" by simp
    with cop have "d dvd 1" by (metis coprime_common_divisor dvd_refl)
    then show ?thesis by (metis dvd_trans one_dvd)
  next
    case False
    have "(of_int n :: rat) / of_int d = of_int m * 2 powi a"
      using nd q by (rule trans [OF sym])
    also have "(2 :: rat) powi a = inverse (2 ^ nat (- a))"
      using False by (simp only: power_int_def power_inverse if_False)
    finally have "(of_int n :: rat) / of_int d = of_int m / 2 ^ nat (- a)"
      by (simp only: divide_inverse)
    then have "(of_int (n * 2 ^ nat (- a)) :: rat) = of_int (m * d)"
      using d by (simp add: frac_eq_eq)
    then have "n * 2 ^ nat (- a) = m * d" by (simp only: of_int_eq_iff)
    then have "d dvd n * 2 ^ nat (- a)" by simp
    with cop show ?thesis by (simp add: coprime_commute coprime_dvd_mult_right_iff)
  qed
  with d obtain i where di: "d = 2 ^ i"
    using dvd_power_of_two [of d "nat (- a)"] by blast
  have "bitlen (1 :: int) = 1" by (simp add: bitlen_def floorlog_def)
  then have "bitlen d = int i + 1"
    using bitlen_pow2 [of 1 i] by (simp add: di)
  then show ?thesis by (simp add: di)
qed

lemma exact_decimal_value:
  assumes "fl q = q" and "0 < q" and "exact_decimal q = (d, k)"
  shows "dec_value d k = q"
proof -
  obtain n e where ne: "quotient_of q = (n, e)" by (cases "quotient_of q")
  define a where "a = nat (bitlen e - 1)"
  have e: "e = 2 ^ a" using float_denominator [OF assms(1,2) ne] by (simp add: a_def)
  have q: "q = of_int n / of_int e" using quotient_of_div [OF ne] .
  have "0 < n" using assms(2) by (simp add: q e zero_less_divide_iff)
  have dk: "d = nat n * 5 ^ a" "k = - int a"
    using assms(3) by (auto simp: exact_decimal_def ne a_def Let_def)
  have "(10 :: rat) powi (- int a) = inverse (10 ^ a)"
    by (simp add: power_int_minus)
  then have "dec_value d k = of_int n * 5 ^ a / 10 ^ a"
    using \<open>0 < n\<close> by (simp only: dec_value_def dk divide_inverse) simp
  also have "(10 :: rat) ^ a = 2 ^ a * 5 ^ a"
    by (simp flip: power_mult_distrib)
  also have "of_int n * 5 ^ a / (2 ^ a * 5 ^ a) = (of_int n / 2 ^ a :: rat)"
    by simp
  finally show ?thesis by (simp add: q e)
qed

lemma shortest_decimal_value:
  assumes "fl q = q" and "0 \<le> q" and "shortest_decimal q = (d, k)"
  shows "fl (dec_value d k) = q"
proof (cases "find (\<lambda>n. case nearest_decimal q n of (d, k) \<Rightarrow> fl (dec_value d k) = q) [1..<18]")
  case None
  show ?thesis
  proof (cases "q = 0")
    case True
    have "quotient_of 0 = (0, 1)" by simp
    with None assms(3) True show ?thesis
      by (simp add: shortest_decimal_def exact_decimal_def dec_value_def bitlen_def floorlog_def)
  next
    case False
    with None assms show ?thesis
      using exact_decimal_value [of q d k] by (simp add: shortest_decimal_def)
  qed
next
  case (Some n)
  then have "case nearest_decimal q n of (d, k) \<Rightarrow> fl (dec_value d k) = q"
    by (auto simp only: find_Some_iff)
  moreover from Some assms(3) have "nearest_decimal q n = (d, k)"
    by (simp add: shortest_decimal_def)
  ultimately show ?thesis by simp
qed

lemma read_float_repr_nonneg:
  assumes "fl q = q" and "0 \<le> q"
  shows "fl (read_decimal (float_repr_nonneg q)) = q"
proof -
  obtain d k where dk: "shortest_decimal q = (d, k)" by (cases "shortest_decimal q")
  obtain d' k' where z: "drop_zeros d k = (d', k')" by (cases "drop_zeros d k")
  have "read_decimal (float_repr_nonneg q) = dec_value d' k'"
    by (simp add: float_repr_nonneg_def dk z Let_def read_format_float_short list_all_iff
        show_nat_digits dec_value_def)
  with shortest_decimal_value [OF assms dk] dec_value_drop_zeros [OF z] show ?thesis by simp
qed

lemma float_repr_nonneg_no_minus: "float_repr_nonneg q \<noteq> CHR ''-'' # s"
proof
  assume eq: "float_repr_nonneg q = CHR ''-'' # s"
  obtain d k where dk: "shortest_decimal q = (d, k)" by (cases "shortest_decimal q")
  obtain d' k' where z: "drop_zeros d k = (d', k')" by (cases "drop_zeros d k")
  let ?ds = "show_nat d'"
  obtain c cs where ds: "?ds = c # cs" by (cases ?ds) auto
  then have c: "c \<noteq> CHR ''-''"
    using show_nat_digits [of c d'] digit_not_special(3) [of c] by simp
  from eq have "hd (format_float_short ?ds (int (length ?ds) + k')) = CHR ''-''"
    by (simp add: float_repr_nonneg_def dk z Let_def)
  with ds c show False
    by (auto simp: format_float_short_def take_Cons' split: if_splits)
qed

lemma float_repr_inject:
  assumes "fl p = p" and "fl q = q" and "float_repr p = float_repr q"
  shows "p = q"
proof -
  have neg: "fl (- x) = - fl x" for x by (simp add: fl_def)
  have sign: "r < 0 \<longleftrightarrow> (\<exists>s. float_repr r = CHR ''-'' # s)" for r
    by (simp add: float_repr_def float_repr_nonneg_no_minus)
  have "p < 0 \<longleftrightarrow> q < 0"
    unfolding sign assms(3) ..
  then consider "p < 0" "q < 0" | "0 \<le> p" "0 \<le> q" by linarith
  then show ?thesis
  proof cases
    case 1
    then have "fl (read_decimal (float_repr_nonneg (- p))) = - p"
      "fl (read_decimal (float_repr_nonneg (- q))) = - q"
      using assms(1,2) by (auto intro!: read_float_repr_nonneg simp: neg)
    moreover have "float_repr_nonneg (- p) = float_repr_nonneg (- q)"
      using 1 assms(3) by (simp add: float_repr_def)
    ultimately have "- p = - q" by metis
    then show ?thesis by simp
  next
    case 2
    then have "float_repr_nonneg p = float_repr_nonneg q"
      using assms(3) by (simp add: float_repr_def)
    with 2 assms(1,2) read_float_repr_nonneg [of p] read_float_repr_nonneg [of q] show ?thesis
      by metis
  qed
qed

text \<open>The text of a float is told apart from the text of an integer by a point or an exponent.\<close>

lemma float_repr_marker: "\<exists>c \<in> set (float_repr q). c = CHR ''.'' \<or> c = CHR ''e''"
proof -
  have "\<exists>c \<in> set (format_float_short ds k). c = CHR ''.'' \<or> c = CHR ''e''" for ds k
    by (auto simp: format_float_short_def)
  then have "\<exists>c \<in> set (float_repr_nonneg r). c = CHR ''.'' \<or> c = CHR ''e''" for r
    unfolding float_repr_nonneg_def Let_def case_prod_unfold by blast
  then show ?thesis by (simp add: float_repr_def)
qed

definition float_char :: "char \<Rightarrow> bool" where
  "float_char c = (is_digit c \<or> c \<in> set ''.e+-'')"

lemma float_char_simps [simp]:
  "is_digit c \<Longrightarrow> float_char c"
  "float_char (CHR ''.'')" "float_char (CHR ''e'')" "float_char (CHR ''+'')" "float_char (CHR ''-'')"
  by (simp_all add: float_char_def)

lemma format_float_short_chars:
  assumes "list_all is_digit ds"
  shows "list_all float_char (format_float_short ds k)"
proof -
  have ds: "list_all float_char (take n ds)" "list_all float_char (drop n ds)" "list_all float_char ds" for n
    using assms by (auto simp: list_all_iff dest: in_set_takeD in_set_dropD)
  have pad: "list_all float_char (pad_left 2 (show_nat n))" for n
    by (auto simp: list_all_iff dest: pad_left_digits)
  have zeros: "list_all float_char (replicate n (CHR ''0''))" for n
    by (simp add: list_all_iff zero_is_digit)
  show ?thesis
    by (simp add: format_float_short_def ds pad zeros zero_is_digit del: list_all_length)
qed

lemma float_repr_chars: "list_all float_char (float_repr q)"
proof -
  have "list_all is_digit (show_nat n)" for n by (simp add: list_all_iff show_nat_digits)
  then have "list_all float_char (float_repr_nonneg r)" for r
    by (simp add: float_repr_nonneg_def Let_def format_float_short_chars split: prod.split)
  then show ?thesis by (simp add: float_repr_def)
qed

end
