(* ===== verification/Py_Datetime.thy ===== *)
theory Py_Datetime
  imports Guild_Prelude
begin

text \<open>
  Python's \<open>datetime\<close>, normalized to UTC: the number of microseconds since
  0001-01-01T00:00:00Z. The calendar of \<open>isoformat\<close> is the proleptic Gregorian one of the
  standard library, with its conversion from day ordinals to year, month and day.
  \<open>isoformat_inject\<close>: different instants have different texts.
\<close>

type_synonym datetime = int

definition us_per_day :: int where
  "us_per_day = 86400000000"

definition max_ordinal :: int where
  "max_ordinal = 3652059"

definition valid_datetime :: "datetime \<Rightarrow> bool" where
  "valid_datetime t = (0 \<le> t \<and> t < max_ordinal * us_per_day)"

section \<open>The calendar\<close>

definition is_leap :: "int \<Rightarrow> bool" where
  "is_leap y = (y mod 4 = 0 \<and> (y mod 100 \<noteq> 0 \<or> y mod 400 = 0))"

definition days_before_year :: "int \<Rightarrow> int" where
  "days_before_year y = (let z = y - 1 in z * 365 + z div 4 - z div 100 + z div 400)"

definition month_offsets :: "int list" where
  "month_offsets = [0, 0, 31, 59, 90, 120, 151, 181, 212, 243, 273, 304, 334]"

definition days_before_month :: "bool \<Rightarrow> int \<Rightarrow> int" where
  "days_before_month leap m = month_offsets ! nat m + (if 2 < m \<and> leap then 1 else 0)"

definition ymd2ord :: "int \<times> int \<times> int \<Rightarrow> int" where
  "ymd2ord = (\<lambda>(y, m, d). days_before_year y + days_before_month (is_leap y) m + d)"

text \<open>Month and day of the zero-based day of a year.\<close>

definition month_day :: "bool \<Rightarrow> int \<Rightarrow> int \<times> int" where
  "month_day leap n =
     (let m = (n + 50) div 32; m' = (if days_before_month leap m > n then m - 1 else m)
      in (m', n - days_before_month leap m' + 1))"

definition ord2ymd :: "int \<Rightarrow> int \<times> int \<times> int" where
  "ord2ymd ordinal =
     (let n = ordinal - 1;
          n400 = n div 146097; r400 = n mod 146097;
          n100 = r400 div 36524; r100 = r400 mod 36524;
          n4 = r100 div 1461; r4 = r100 mod 1461;
          n1 = r4 div 365; r1 = r4 mod 365;
          year = n400 * 400 + 1 + n100 * 100 + n4 * 4 + n1
      in if n1 = 4 \<or> n100 = 4 then (year - 1, 12, 31)
         else (year, month_day (n1 = 3 \<and> (n4 \<noteq> 24 \<or> n100 = 3)) r1))"

lemma days_before_month_bound:
  assumes "2 \<le> k" and "k \<le> 12"
  shows "days_before_month leap (k - 1) \<le> 32 * k - 50"
proof -
  have "\<forall>i \<in> set [1..11 :: int]. month_offsets ! nat i + 1 \<le> 32 * i - 18"
    by (simp add: month_offsets_def upto.simps)
  moreover have "k - 1 \<in> set [1..11]" using assms by simp
  ultimately have "month_offsets ! nat (k - 1) + 1 \<le> 32 * (k - 1) - 18" by blast
  then show ?thesis by (simp add: days_before_month_def)
qed

lemma month_day_bounds:
  assumes "0 \<le> n" and "n \<le> 365" and "month_day leap n = (m, d)"
  shows "1 \<le> m" "m \<le> 12" "1 \<le> d" "days_before_month leap m + d = n + 1"
proof -
  define k where "k = (n + 50) div 32"
  have k: "1 \<le> k" "k \<le> 12" "32 * k \<le> n + 50" using assms(1,2) by (simp_all add: k_def)
  have m: "m = (if n < days_before_month leap k then k - 1 else k)"
    and d: "d = n - days_before_month leap m + 1"
    using assms(3) by (auto simp: month_day_def k_def Let_def)
  have two: "2 \<le> k" if "n < days_before_month leap k"
  proof -
    have "k \<noteq> 1" using that assms(1) by (auto simp: days_before_month_def month_offsets_def)
    with k show ?thesis by simp
  qed
  have "days_before_month leap m \<le> n"
    using two days_before_month_bound [of k leap] k by (auto simp: m)
  then show "1 \<le> m" "m \<le> 12" "1 \<le> d" "days_before_month leap m + d = n + 1"
    using k two by (auto simp: m d)
qed

lemma days_before_year_split:
  assumes "0 \<le> a" "0 \<le> b" "b \<le> 3" "0 \<le> c" "c \<le> 24" "0 \<le> d" "d \<le> 3"
  shows "days_before_year (a * 400 + 1 + b * 100 + c * 4 + d) = a * 146097 + b * 36524 + c * 1461 + d * 365"
proof -
  let ?z = "a * 400 + b * 100 + c * 4 + d"
  have "?z div 4 = a * 100 + b * 25 + c" "?z div 100 = a * 4 + b" "?z div 400 = a"
    using assms by (auto intro!: div_pos_pos_trivial simp: int_div_pos_eq [where r = d]
        int_div_pos_eq [where r = "c * 4 + d"] int_div_pos_eq [where r = "b * 100 + c * 4 + d"])
  then show ?thesis by (simp add: days_before_year_def Let_def algebra_simps)
qed

lemma leap_split:
  assumes "0 \<le> a" "0 \<le> b" "b \<le> 3" "0 \<le> c" "c \<le> 24" "0 \<le> d" "d \<le> 3"
  shows "is_leap (a * 400 + 1 + b * 100 + c * 4 + d) \<longleftrightarrow> d = 3 \<and> (c \<noteq> 24 \<or> b = 3)"
proof -
  let ?y = "a * 400 + 1 + b * 100 + c * 4 + d"
  have "?y = (a * 100 + b * 25 + c) * 4 + (d + 1)" by simp
  then have y4: "?y mod 4 = (d + 1) mod 4" by (metis mod_mult_self3)
  have four: "?y mod 4 = 0 \<longleftrightarrow> d = 3" unfolding y4 using assms(6,7) by presburger
  moreover have "?y mod 100 = 0 \<longleftrightarrow> c = 24" if "d = 3"
  proof -
    have "?y = (a * 4 + b) * 100 + (c * 4 + 4)" using that by simp
    then have y100: "?y mod 100 = (c * 4 + 4) mod 100" by (metis mod_mult_self3)
    show ?thesis unfolding y100 using assms(4,5) by (cases "c = 24") (simp_all add: mod_pos_pos_trivial)
  qed
  moreover have "?y mod 400 = 0 \<longleftrightarrow> b = 3" if "d = 3" "c = 24"
  proof -
    have "?y = a * 400 + (b * 100 + 100)" using that by simp
    then have y400: "?y mod 400 = (b * 100 + 100) mod 400" by (metis mod_mult_self3)
    show ?thesis unfolding y400 using assms(2,3) by (cases "b = 3") (simp_all add: mod_pos_pos_trivial)
  qed
  ultimately show ?thesis unfolding is_leap_def by metis
qed

lemma ymd2ord_ord2ymd:
  assumes "1 \<le> n"
  shows "ymd2ord (ord2ymd n) = n"
    and "case ord2ymd n of (y, m, d) \<Rightarrow> 1 \<le> y \<and> 1 \<le> m \<and> m \<le> 12 \<and> 1 \<le> d"
proof -
  define a where "a = (n - 1) div 146097"
  define ra where "ra = (n - 1) mod 146097"
  define b where "b = ra div 36524"
  define rb where "rb = ra mod 36524"
  define c where "c = rb div 1461"
  define rc where "rc = rb mod 1461"
  define d where "d = rc div 365"
  define rd where "rd = rc mod 365"
  have eqs: "n - 1 = a * 146097 + ra" "ra = b * 36524 + rb" "rb = c * 1461 + rc" "rc = d * 365 + rd"
    by (simp_all add: a_def ra_def b_def rb_def c_def rc_def d_def rd_def)
  have "0 \<le> ra" "ra < 146097" "0 \<le> rb" "rb < 36524" "0 \<le> rc" "rc < 1461" "0 \<le> rd" "rd < 365"
    by (simp_all add: ra_def rb_def rc_def rd_def)
  then have bounds: "0 \<le> a" "0 \<le> b" "b \<le> 4" "0 \<le> c" "c \<le> 24" "0 \<le> d" "d \<le> 4" "0 \<le> rd" "rd < 365"
    using assms by (auto simp: a_def b_def c_def d_def)
  have last: "b = 4 \<Longrightarrow> rb = 0" "d = 4 \<Longrightarrow> rd = 0" "b = 4 \<Longrightarrow> c = 0 \<and> d = 0"
    using eqs \<open>ra < 146097\<close> \<open>rc < 1461\<close> \<open>0 \<le> rb\<close> \<open>0 \<le> rd\<close> \<open>0 \<le> rc\<close> bounds by linarith+
  define lp where "lp \<longleftrightarrow> d = 3 \<and> (c \<noteq> 24 \<or> b = 3)"
  have o: "ord2ymd n = (if d = 4 \<or> b = 4 then (a * 400 + b * 100 + c * 4 + d, 12, 31)
      else (a * 400 + 1 + b * 100 + c * 4 + d, month_day lp rd))"
    by (simp add: ord2ymd_def Let_def a_def ra_def b_def rb_def c_def rc_def d_def rd_def lp_def)
  consider (hundred) "b = 4" | (four) "b \<le> 3" "d = 4" | (normal) "b \<le> 3" "d \<le> 3"
    using bounds by linarith
  then have "ymd2ord (ord2ymd n) = n \<and> (case ord2ymd n of (y, m, d) \<Rightarrow> 1 \<le> y \<and> 1 \<le> m \<and> m \<le> 12 \<and> 1 \<le> d)"
  proof cases
    case hundred
    then have z: "c = 0" "d = 0" "rb = 0" "rc = 0" "rd = 0" using last eqs by auto
    have y: "a * 400 + 400 = a * 400 + 1 + 3 * 100 + 24 * 4 + 3" by simp
    have "days_before_year (a * 400 + 400) = a * 146097 + 3 * 36524 + 24 * 1461 + 3 * 365"
      unfolding y by (rule days_before_year_split) (use bounds in auto)
    moreover have "is_leap (a * 400 + 400)" by (simp add: is_leap_def)
    ultimately show ?thesis
      unfolding o using hundred z eqs bounds
      by (simp add: ymd2ord_def days_before_month_def month_offsets_def)
  next
    case four
    have rd: "rd = 0" using last four by simp
    have ne: "c \<noteq> 24 \<or> b = 3"
    proof (rule ccontr)
      assume "\<not> (c \<noteq> 24 \<or> b = 3)"
      then show False using eqs four \<open>rb < 36524\<close> rd by auto
    qed
    have y: "a * 400 + b * 100 + c * 4 + 4 = a * 400 + 1 + b * 100 + c * 4 + 3" by simp
    have "days_before_year (a * 400 + b * 100 + c * 4 + 4) = a * 146097 + b * 36524 + c * 1461 + 3 * 365"
      unfolding y by (rule days_before_year_split) (use bounds four in auto)
    moreover have "is_leap (a * 400 + b * 100 + c * 4 + 4)"
      unfolding y using bounds four ne by (subst leap_split) auto
    ultimately show ?thesis
      unfolding o using four rd eqs bounds
      by (simp add: ymd2ord_def days_before_month_def month_offsets_def)
  next
    case normal
    obtain m e where md: "month_day lp rd = (m, e)" by (cases "month_day lp rd")
    have mb: "1 \<le> m" "m \<le> 12" "1 \<le> e" "days_before_month lp m + e = rd + 1"
      using month_day_bounds [OF _ _ md] bounds by auto
    have "days_before_year (a * 400 + 1 + b * 100 + c * 4 + d) = a * 146097 + b * 36524 + c * 1461 + d * 365"
      by (rule days_before_year_split) (use bounds normal in auto)
    moreover have "is_leap (a * 400 + 1 + b * 100 + c * 4 + d) \<longleftrightarrow> lp"
      unfolding lp_def by (rule leap_split) (use bounds normal in auto)
    ultimately show ?thesis
      unfolding o md using normal eqs bounds mb by (simp add: ymd2ord_def)
  qed
  then show "ymd2ord (ord2ymd n) = n"
    and "case ord2ymd n of (y, m, d) \<Rightarrow> 1 \<le> y \<and> 1 \<le> m \<and> m \<le> 12 \<and> 1 \<le> d" by auto
qed

section \<open>ISO text\<close>

definition pad_int :: "nat \<Rightarrow> int \<Rightarrow> string" where
  "pad_int w i = pad_left w (show_nat (nat i))"

definition isoformat :: "datetime \<Rightarrow> string" where
  "isoformat t =
     (case ord2ymd (t div us_per_day + 1) of (y, mo, d) \<Rightarrow>
      let us = t mod us_per_day; s = us div 1000000 in
      pad_int 4 y @ ''-'' @ pad_int 2 mo @ ''-'' @ pad_int 2 d @ ''T''
        @ pad_int 2 (s div 3600) @ '':'' @ pad_int 2 (s div 60 mod 60) @ '':''
        @ pad_int 2 (s mod 60) @ ''.'' @ pad_int 6 (us mod 1000000) @ ''Z'')"

lemma digits_prefix_unique:
  assumes "list_all is_digit xs" and "list_all is_digit ys" and "\<not> is_digit c"
    and "xs @ c # r = ys @ c # s"
  shows "xs = ys \<and> r = s"
proof -
  have "takeWhile is_digit (xs @ c # r) = xs" "takeWhile is_digit (ys @ c # s) = ys"
    using assms(1-3) by (auto simp: list_all_iff takeWhile_append2)
  with assms(4) show ?thesis by (metis append_same_eq same_append_eq list.inject)
qed

lemma pad_int_prefix_unique:
  assumes "0 \<le> i" and "0 \<le> j" and "\<not> is_digit c"
    and "pad_int w i @ c # r = pad_int w j @ c # s"
  shows "i = j \<and> r = s"
proof -
  have "list_all is_digit (pad_int w k)" for k
    by (auto simp: pad_int_def list_all_iff dest: pad_left_digits)
  with assms(3,4) digits_prefix_unique have "pad_int w i = pad_int w j" "r = s" by blast+
  with assms(1,2) show ?thesis by (simp add: pad_int_def)
qed

lemma time_of_day_unique:
  assumes "s div 3600 = s' div 3600" "s div 60 mod 60 = s' div 60 mod 60" "s mod 60 = s' mod (60 :: int)"
  shows "s = s'"
proof -
  have "s = 3600 * (s div 3600) + 60 * (s div 60 mod 60) + s mod 60" for s :: int
  proof -
    have "s div 60 div 60 = s div 3600" by (simp add: zdiv_zmult2_eq [symmetric])
    then have "s div 60 = 60 * (s div 3600) + s div 60 mod 60" by (metis mult_div_mod_eq)
    moreover have "s = 60 * (s div 60) + s mod 60" by simp
    ultimately show ?thesis by linarith
  qed
  then show ?thesis using assms by metis
qed

lemma isoformat_inject:
  assumes "0 \<le> t" and "0 \<le> u" and "isoformat t = isoformat u"
  shows "t = u"
proof -
  let ?o = "\<lambda>t. t div us_per_day + 1" and ?us = "\<lambda>t. t mod us_per_day"
    and ?s = "\<lambda>t. t mod us_per_day div 1000000"
  have sep: "\<not> is_digit (CHR ''-'')" "\<not> is_digit (CHR ''T'')" "\<not> is_digit (CHR '':'')"
    "\<not> is_digit (CHR ''.'')" "\<not> is_digit (CHR ''Z'')" by (simp_all add: is_digit_def)
  have ord: "1 \<le> ?o t" "1 \<le> ?o u" using assms by (simp_all add: us_per_day_def pos_imp_zdiv_nonneg_iff)
  obtain y m d y' m' d' where yt: "ord2ymd (?o t) = (y, m, d)" and yu: "ord2ymd (?o u) = (y', m', d')"
    by (metis prod_cases3)
  have nn: "0 \<le> y" "0 \<le> m" "0 \<le> d" "0 \<le> y'" "0 \<le> m'" "0 \<le> d'"
    using ymd2ord_ord2ymd(2) [OF ord(1)] ymd2ord_ord2ymd(2) [OF ord(2)] by (auto simp: yt yu)
  have us: "0 \<le> ?us t" "0 \<le> ?us u" by (simp_all add: us_per_day_def)
  then have s: "0 \<le> ?s t" "0 \<le> ?s u" by (simp_all add: pos_imp_zdiv_nonneg_iff)
  then have h: "0 \<le> ?s t div 3600" "0 \<le> ?s u div 3600" by (simp_all add: pos_imp_zdiv_nonneg_iff)
  note unique = pad_int_prefix_unique
  note eq = assms(3) [unfolded isoformat_def yt yu Let_def split, simplified append.simps append_assoc]
  from unique [OF nn(1,4) sep(1) eq]
  have y: "y = y'" and eq: "pad_int 2 m @ CHR ''-'' # pad_int 2 d @ CHR ''T''
      # pad_int 2 (?s t div 3600) @ CHR '':'' # pad_int 2 (?s t div 60 mod 60) @ CHR '':''
      # pad_int 2 (?s t mod 60) @ CHR ''.'' # pad_int 6 (?us t mod 1000000) @ ''Z''
    = pad_int 2 m' @ CHR ''-'' # pad_int 2 d' @ CHR ''T''
      # pad_int 2 (?s u div 3600) @ CHR '':'' # pad_int 2 (?s u div 60 mod 60) @ CHR '':''
      # pad_int 2 (?s u mod 60) @ CHR ''.'' # pad_int 6 (?us u mod 1000000) @ ''Z''"
    by simp_all
  from unique [OF nn(2,5) sep(1) eq] have m: "m = m'" and eq: "pad_int 2 d @ CHR ''T''
      # pad_int 2 (?s t div 3600) @ CHR '':'' # pad_int 2 (?s t div 60 mod 60) @ CHR '':''
      # pad_int 2 (?s t mod 60) @ CHR ''.'' # pad_int 6 (?us t mod 1000000) @ ''Z''
    = pad_int 2 d' @ CHR ''T''
      # pad_int 2 (?s u div 3600) @ CHR '':'' # pad_int 2 (?s u div 60 mod 60) @ CHR '':''
      # pad_int 2 (?s u mod 60) @ CHR ''.'' # pad_int 6 (?us u mod 1000000) @ ''Z''"
    by simp_all
  from unique [OF nn(3,6) sep(2) eq] have d: "d = d'" and eq: "pad_int 2 (?s t div 3600) @ CHR '':''
      # pad_int 2 (?s t div 60 mod 60) @ CHR '':'' # pad_int 2 (?s t mod 60) @ CHR ''.''
      # pad_int 6 (?us t mod 1000000) @ ''Z''
    = pad_int 2 (?s u div 3600) @ CHR '':'' # pad_int 2 (?s u div 60 mod 60) @ CHR '':''
      # pad_int 2 (?s u mod 60) @ CHR ''.'' # pad_int 6 (?us u mod 1000000) @ ''Z''"
    by simp_all
  from unique [OF h sep(3) eq] have hh: "?s t div 3600 = ?s u div 3600"
    and eq: "pad_int 2 (?s t div 60 mod 60) @ CHR '':'' # pad_int 2 (?s t mod 60) @ CHR ''.''
      # pad_int 6 (?us t mod 1000000) @ ''Z''
    = pad_int 2 (?s u div 60 mod 60) @ CHR '':'' # pad_int 2 (?s u mod 60) @ CHR ''.''
      # pad_int 6 (?us u mod 1000000) @ ''Z''" by simp_all
  from unique [OF _ _ sep(3) eq] have mm: "?s t div 60 mod 60 = ?s u div 60 mod 60"
    and eq: "pad_int 2 (?s t mod 60) @ CHR ''.'' # pad_int 6 (?us t mod 1000000) @ ''Z''
    = pad_int 2 (?s u mod 60) @ CHR ''.'' # pad_int 6 (?us u mod 1000000) @ ''Z''" by simp_all
  from unique [OF _ _ sep(4) eq] have ss: "?s t mod 60 = ?s u mod 60"
    and eq: "pad_int 6 (?us t mod 1000000) @ ''Z'' = pad_int 6 (?us u mod 1000000) @ ''Z''" by simp_all
  from unique [OF _ _ sep(5) eq] have ff: "?us t mod 1000000 = ?us u mod 1000000" by simp
  have "?s t = ?s u" using hh mm ss by (rule time_of_day_unique)
  moreover have "r = r div 1000000 * 1000000 + r mod 1000000" for r :: int by simp
  ultimately have "?us t = ?us u" using ff by metis
  moreover have "?o t = ?o u"
    using ymd2ord_ord2ymd(1) [OF ord(1)] ymd2ord_ord2ymd(1) [OF ord(2)] by (simp add: yt yu y m d)
  then have "t div us_per_day = u div us_per_day" by simp
  ultimately show ?thesis by (metis div_mult_mod_eq)
qed

end
