(* ===== verification/Serialization.thy ===== *)
theory Serialization
  imports Float_Repr Py_Datetime
begin

text \<open>
  Model of \<open>src/src/guildmind/domain/serialization.py\<close>: the conversion of Python values to
  JSON values, the canonical text (sorted keys, no insignificant whitespace, Unicode kept)
  and the SHA-256 of its UTF-8 bytes. SHA-256 itself (\<open>hashlib\<close>) is the parameter \<open>sha\<close> of
  the definitions. \<open>dumps_inject_iff\<close> is the fact that gives content hashes their meaning: two
  different JSON values never share a canonical text.
\<close>

section \<open>JSON values and Python values\<close>

datatype json =
    JNull
  | JBool bool
  | JInt int
  | JFloat rat
  | JStr string
  | JArr "json list"
  | JObj "(string \<times> json) list"

text \<open>
  The Python values \<open>_json_compatible\<close> tells apart. A float is \<^const>\<open>None\<close> when it is an
  infinity or a NaN; a datetime without a usable time zone is \<open>PNaiveDatetime\<close>; a model is the
  dictionary \<open>model_dump\<close> makes of it; \<open>POther\<close> is any other type, bytes included.
\<close>

datatype pyval =
    PNone
  | PBool bool
  | PInt int
  | PStr string
  | PFloat "rat option"
  | PDatetime datetime
  | PNaiveDatetime
  | PEnum pyval
  | PModel "(string \<times> pyval) list"
  | PMapping "(pyval \<times> pyval) list"
  | PSequence "pyval list"
  | POther

fun json_compatible :: "pyval \<Rightarrow> json result"
  and json_compatible_list :: "pyval list \<Rightarrow> json list result"
  and json_compatible_mapping :: "(pyval \<times> pyval) list \<Rightarrow> (string \<times> json) list result"
  and json_compatible_model :: "(string \<times> pyval) list \<Rightarrow> (string \<times> json) list result" where
  "json_compatible (PModel fields) = rbind (json_compatible_model fields) (\<lambda>d. Inr (JObj d))"
| "json_compatible PNone = Inr JNull"
| "json_compatible (PBool b) = Inr (JBool b)"
| "json_compatible (PInt i) = Inr (JInt i)"
| "json_compatible (PStr s) = Inr (JStr s)"
| "json_compatible (PFloat None) = Inl ValueError"
| "json_compatible (PFloat (Some x)) = Inr (JFloat x)"
| "json_compatible PNaiveDatetime = Inl ValueError"
| "json_compatible (PDatetime t) = Inr (JStr (isoformat t))"
| "json_compatible (PEnum v) = json_compatible v"
| "json_compatible (PMapping items) = rbind (json_compatible_mapping items) (\<lambda>d. Inr (JObj d))"
| "json_compatible (PSequence vs) = rbind (json_compatible_list vs) (\<lambda>js. Inr (JArr js))"
| "json_compatible POther = Inl TypeError"
| "json_compatible_list [] = Inr []"
| "json_compatible_list (v # vs) =
     rbind (json_compatible v) (\<lambda>j. rbind (json_compatible_list vs) (\<lambda>js. Inr (j # js)))"
| "json_compatible_mapping [] = Inr []"
| "json_compatible_mapping ((k, v) # items) =
     (case k of
        PStr s \<Rightarrow>
          rbind (json_compatible v) (\<lambda>j.
          rbind (json_compatible_mapping items) (\<lambda>d. Inr ((s, j) # d)))
      | _ \<Rightarrow> Inl TypeError)"
| "json_compatible_model [] = Inr []"
| "json_compatible_model ((s, v) # fields) =
     rbind (json_compatible v) (\<lambda>j.
     rbind (json_compatible_model fields) (\<lambda>d. Inr ((s, j) # d)))"

section \<open>The text of a JSON value\<close>

definition hex_char :: "nat \<Rightarrow> char" where
  "hex_char n = (if n < 10 then char_of (48 + n) else char_of (87 + n))"

text \<open>String escapes of \<open>json.dumps\<close> with \<open>ensure_ascii=False\<close>.\<close>

definition escape_char :: "char \<Rightarrow> string" where
  "escape_char c =
     (let n = (of_char c :: nat) in
      if n = 34 then [CHR 0x5C, CHR 0x22]
      else if n = 92 then [CHR 0x5C, CHR 0x5C]
      else if n = 10 then [CHR 0x5C, CHR ''n'']
      else if n = 13 then [CHR 0x5C, CHR ''r'']
      else if n = 9 then [CHR 0x5C, CHR ''t'']
      else if n = 12 then [CHR 0x5C, CHR ''f'']
      else if n = 8 then [CHR 0x5C, CHR ''b'']
      else if n < 32 then [CHR 0x5C, CHR ''u'', CHR ''0'', CHR ''0'', hex_char (n div 16), hex_char (n mod 16)]
      else [c])"

definition quote :: "string \<Rightarrow> string" where
  "quote s = CHR 0x22 # concat (map escape_char s) @ [CHR 0x22]"

text \<open>\<open>",".join(ts)\<close>: the texts after the first, each behind its comma, then all of them.\<close>

fun commas :: "string list \<Rightarrow> string" where
  "commas [] = []"
| "commas (t # ts) = CHR '','' # t @ commas ts"

fun join_comma :: "string list \<Rightarrow> string" where
  "join_comma [] = []"
| "join_comma (t # ts) = t @ commas ts"

fun dumps :: "json \<Rightarrow> string"
  and dumps_items :: "json list \<Rightarrow> string list"
  and dumps_fields :: "(string \<times> json) list \<Rightarrow> (string \<times> string) list" where
  "dumps JNull = ''null''"
| "dumps (JBool b) = (if b then ''true'' else ''false'')"
| "dumps (JInt i) = show_int i"
| "dumps (JFloat x) = float_repr x"
| "dumps (JStr s) = quote s"
| "dumps (JArr xs) = ''['' @ join_comma (dumps_items xs) @ '']''"
| "dumps (JObj fields) =
     ''{'' @ join_comma (map (\<lambda>(k, t). quote k @ '':'' @ t) (sort_key fst (dumps_fields fields))) @ ''}''"
| "dumps_items [] = []"
| "dumps_items (x # xs) = dumps x # dumps_items xs"
| "dumps_fields [] = []"
| "dumps_fields ((k, v) # fields) = (k, dumps v) # dumps_fields fields"

definition canonical_json :: "pyval \<Rightarrow> string result" where
  "canonical_json v = rbind (json_compatible v) (\<lambda>j. Inr (dumps j))"

section \<open>Hashing\<close>

text \<open>UTF-8, as a list of byte values: code points below 256 take one or two bytes.\<close>

definition utf8_char :: "char \<Rightarrow> nat list" where
  "utf8_char c =
     (let n = of_char c in if n < 128 then [n] else [192 + n div 64, 128 + n mod 64])"

definition utf8_encode :: "string \<Rightarrow> nat list" where
  "utf8_encode s = concat (map utf8_char s)"

definition sha256_bytes :: "(nat list \<Rightarrow> string) \<Rightarrow> nat list \<Rightarrow> string" where
  "sha256_bytes sha bytes = sha bytes"

text \<open>
  The hash of a value that is already JSON-compatible, and the hash of any Python value. The
  domain records hash through the former: their dumps are JSON values.
\<close>

definition json_sha256 :: "(nat list \<Rightarrow> string) \<Rightarrow> json \<Rightarrow> string" where
  "json_sha256 sha j = sha256_bytes sha (utf8_encode (dumps j))"

definition canonical_sha256 :: "(nat list \<Rightarrow> string) \<Rightarrow> pyval \<Rightarrow> string result" where
  "canonical_sha256 sha v =
     rbind (canonical_json v) (\<lambda>s. Inr (sha256_bytes sha (utf8_encode s)))"

section \<open>Well-formed JSON values\<close>

text \<open>Object keys are distinct and in order, and numbers of float type are floats.\<close>

fun wf_json :: "json \<Rightarrow> bool"
  and wf_fields :: "(string \<times> json) list \<Rightarrow> bool" where
  "wf_json JNull = True"
| "wf_json (JBool _) = True"
| "wf_json (JInt _) = True"
| "wf_json (JFloat x) = (fl x = x)"
| "wf_json (JStr _) = True"
| "wf_json (JArr xs) = (\<forall>x \<in> set xs. wf_json x)"
| "wf_json (JObj fields) = (is_dict fields \<and> wf_fields fields)"
| "wf_fields [] = True"
| "wf_fields ((k, v) # fields) = (wf_json v \<and> wf_fields fields)"

lemma wf_fields_iff: "wf_fields fields \<longleftrightarrow> (\<forall>kv \<in> set fields. wf_json (snd kv))"
  by (induction fields) auto

lemma dumps_items_map: "dumps_items xs = map dumps xs"
  by (induction xs) simp_all

lemma dumps_fields_map: "dumps_fields fields = map (\<lambda>kv. (fst kv, dumps (snd kv))) fields"
  by (induction fields) auto

definition field_text :: "string \<times> json \<Rightarrow> string" where
  "field_text kv = quote (fst kv) @ CHR '':'' # dumps (snd kv)"

lemma dumps_JObj:
  assumes "is_dict fields"
  shows "dumps (JObj fields) = CHR ''{'' # join_comma (map field_text fields) @ ''}''"
proof -
  have "map fst (dumps_fields fields) = map fst fields" by (simp add: dumps_fields_map)
  then have "sorted (map fst (dumps_fields fields))"
    using assms by (simp add: is_dict_def strict_sorted_iff)
  then have "sort_key fst (dumps_fields fields) = dumps_fields fields"
    by (rule sort_key_id_if_sorted)
  then show ?thesis
    by (simp add: dumps_fields_map field_text_def [abs_def] comp_def)
qed

declare dumps.simps(7) [simp del]

section \<open>Canonical text is injective\<close>

definition delimited :: "string \<Rightarrow> bool" where
  "delimited r = (r = [] \<or> hd r \<in> set '',]}'')"

lemma delimited_simps [simp]:
  "delimited []" "delimited (CHR '','' # r)" "delimited (CHR '']'' # r)" "delimited (CHR ''}'' # r)"
  by (simp_all add: delimited_def)

subsection \<open>Strings\<close>

definition hex_value :: "char \<Rightarrow> nat" where
  "hex_value c = (let n = of_char c in if n < 58 then n - 48 else n - 87)"

text \<open>The inverse of \<^const>\<open>escape_char\<close> on the texts it produces.\<close>

fun unescape :: "string \<Rightarrow> (char \<times> string) option" where
  "unescape [] = None"
| "unescape (a # s) =
     (if a \<noteq> CHR 0x5C then Some (a, s)
      else case s of
        [] \<Rightarrow> None
      | b # s' \<Rightarrow>
          if b = CHR ''u'' then Some (char_of (16 * hex_value (s' ! 2) + hex_value (s' ! 3)), drop 4 s')
          else if b = CHR ''n'' then Some (char_of (10 :: nat), s')
          else if b = CHR ''r'' then Some (char_of (13 :: nat), s')
          else if b = CHR ''t'' then Some (char_of (9 :: nat), s')
          else if b = CHR ''f'' then Some (char_of (12 :: nat), s')
          else if b = CHR ''b'' then Some (char_of (8 :: nat), s')
          else Some (b, s'))"

lemma hex_value_hex_char: "n < 16 \<Longrightarrow> hex_value (hex_char n) = n"
  by (simp add: hex_value_def hex_char_def Let_def)

lemma char_of_of_char_eq: "of_char c = (n :: nat) \<Longrightarrow> char_of n = c"
  by (metis char_of_char)

lemma char_of_escapes: "char_of (34 :: nat) = CHR 0x22" "char_of (92 :: nat) = CHR 0x5C"
  by (rule char_of_of_char_eq; simp)+

lemma unescape_escape_char: "unescape (escape_char c @ r) = Some (c, r)"
proof -
  define n where "n = (of_char c :: nat)"
  have c: "c = char_of n" by (simp add: n_def)
  consider "n = 34" | "n = 92" | "n = 10" | "n = 13" | "n = 9" | "n = 12" | "n = 8"
    | "n < 32" "n \<notin> {10, 13, 9, 12, 8}" | "32 \<le> n" "n \<noteq> 34" "n \<noteq> 92" by force
  then show ?thesis
  proof cases
    case 8
    then have "16 * hex_value (hex_char (n div 16)) + hex_value (hex_char (n mod 16)) = n"
      by (simp add: hex_value_hex_char)
    with 8 show ?thesis
      unfolding escape_char_def Let_def n_def [symmetric] by (simp add: c)
  next
    case 9
    then have "c \<noteq> CHR 0x5C" using n_def by auto
    with 9 show ?thesis
      unfolding escape_char_def Let_def n_def [symmetric] by simp
  qed (simp_all add: escape_char_def Let_def flip: n_def, simp_all add: c char_of_escapes)
qed

lemma escape_char_not_quote: "escape_char c @ r \<noteq> CHR 0x22 # s"
proof -
  have "hd (escape_char c) \<noteq> CHR 0x22" "escape_char c \<noteq> []"
    by (auto simp: escape_char_def Let_def)
  then show ?thesis by (cases "escape_char c") auto
qed

lemma escaped_unique:
  "concat (map escape_char s) @ CHR 0x22 # q = concat (map escape_char t) @ CHR 0x22 # r
     \<Longrightarrow> s = t \<and> q = r"
proof (induction s arbitrary: t)
  case Nil
  then show ?case by (cases t) (auto simp: escape_char_not_quote [symmetric])
next
  case (Cons c s)
  show ?case
  proof (cases t)
    case Nil
    with Cons.prems show ?thesis by (simp add: escape_char_not_quote)
  next
    case (Cons d t')
    with Cons.prems have eq: "escape_char c @ concat (map escape_char s) @ CHR 0x22 # q
      = escape_char d @ concat (map escape_char t') @ CHR 0x22 # r" by simp
    have "c = d \<and> concat (map escape_char s) @ CHR 0x22 # q
        = concat (map escape_char t') @ CHR 0x22 # r"
      using arg_cong [OF eq, of unescape]
      by (simp only: unescape_escape_char option.inject prod.inject)
    with Cons.IH Cons show ?thesis by blast
  qed
qed

lemma quote_unique: "quote s @ q = quote t @ r \<Longrightarrow> s = t \<and> q = r"
  by (rule escaped_unique) (simp add: quote_def)

subsection \<open>Numbers\<close>

lemma show_int_chars: "list_all float_char (show_int i)"
  by (auto simp: show_int_def list_all_iff dest: show_nat_digits)

lemma show_int_not_float: "show_int i \<noteq> float_repr x"
proof -
  have "c \<noteq> CHR ''.'' \<and> c \<noteq> CHR ''e''" if "c \<in> set (show_int i)" for c
  proof -
    from that have "is_digit c \<or> c = CHR ''-''"
      by (auto simp: show_int_def dest: show_nat_digits split: if_splits)
    then show ?thesis using digit_not_special by auto
  qed
  with float_repr_marker [of x] show ?thesis by metis
qed

lemma not_float_char_delimiter: "\<not> float_char (CHR '','')" "\<not> float_char (CHR '']'')" "\<not> float_char (CHR ''}'')"
  by (simp_all add: float_char_def is_digit_def)

lemma takeWhile_number:
  "list_all float_char u \<Longrightarrow> delimited r \<Longrightarrow> takeWhile float_char (u @ r) = u"
  by (induction u) (cases r; auto simp: delimited_def not_float_char_delimiter)+

lemma number_unique:
  assumes "list_all float_char u" "list_all float_char v" "delimited q" "delimited r" "u @ q = v @ r"
  shows "u = v \<and> q = r"
  using assms by (metis same_append_eq takeWhile_number)

subsection \<open>Values\<close>

text \<open>The first character of a text tells the kind of value; it is never a delimiter.\<close>

definition kind :: "json \<Rightarrow> nat" where
  "kind j = (case j of JNull \<Rightarrow> 0 | JBool b \<Rightarrow> if b then 1 else 2 | JInt _ \<Rightarrow> 3 | JFloat _ \<Rightarrow> 3
     | JStr _ \<Rightarrow> 4 | JArr _ \<Rightarrow> 5 | JObj _ \<Rightarrow> 6)"

definition kind_of_char :: "char \<Rightarrow> nat" where
  "kind_of_char c =
     (if c = CHR ''n'' then 0 else if c = CHR ''t'' then 1 else if c = CHR ''f'' then 2
      else if c = CHR 0x22 then 4 else if c = CHR ''['' then 5 else if c = CHR ''{'' then 6
      else if float_char c then 3 else 7)"

lemma float_char_kind: "float_char c \<Longrightarrow> kind_of_char c = 3"
  by (auto simp: kind_of_char_def float_char_def is_digit_def)

lemma show_int_nonempty: "show_int i \<noteq> []"
  by (simp add: show_int_def)

lemma float_repr_nonempty: "float_repr x \<noteq> []"
  using float_repr_marker [of x] by auto

lemma dumps_nonempty: "dumps j \<noteq> []"
  by (cases j) (auto simp: quote_def dumps.simps(7) show_int_nonempty float_repr_nonempty)

lemma hd_dumps_kind: "kind_of_char (hd (dumps j)) = kind j"
proof -
  have num: "kind_of_char (hd s) = 3" if "list_all float_char s" "s \<noteq> []" for s
    using that by (cases s) (auto simp: float_char_kind)
  show ?thesis
    by (cases j)
      (simp_all add: kind_def quote_def dumps.simps(7) num show_int_chars show_int_nonempty
        float_repr_chars float_repr_nonempty, simp_all add: kind_of_char_def)
qed

lemma dumps_not_delimited: "c \<in> set '',]}'' \<Longrightarrow> dumps j @ q \<noteq> c # r"
proof
  assume c: "c \<in> set '',]}''" and eq: "dumps j @ q = c # r"
  then have "hd (dumps j) = c" by (metis dumps_nonempty hd_append2 list.sel(1))
  with hd_dumps_kind [of j] have "kind_of_char c = kind j" by simp
  moreover have "kind_of_char c = 7"
    using c by (auto simp: kind_of_char_def float_char_def is_digit_def)
  ultimately show False by (auto simp: kind_def split: json.splits if_splits)
qed

definition text_unique :: "json \<Rightarrow> bool" where
  "text_unique a = (\<forall>b q r. wf_json a \<longrightarrow> wf_json b \<longrightarrow> delimited q \<longrightarrow> delimited r \<longrightarrow>
     dumps a @ q = dumps b @ r \<longrightarrow> a = b \<and> q = r)"

lemma text_uniqueD:
  "text_unique a \<Longrightarrow> wf_json a \<Longrightarrow> wf_json b \<Longrightarrow> delimited q \<Longrightarrow> delimited r \<Longrightarrow>
     dumps a @ q = dumps b @ r \<Longrightarrow> a = b \<and> q = r"
  by (auto simp: text_unique_def)

lemma delimited_commas: "delimited (commas ts @ CHR '']'' # r)" "delimited (commas ts @ CHR ''}'' # r)"
  by (cases ts; simp)+

lemma items_unique:
  assumes "\<forall>x \<in> set xs. text_unique x \<and> wf_json x" and "\<forall>y \<in> set ys. wf_json y"
    and "commas (map dumps xs) @ CHR '']'' # q = commas (map dumps ys) @ CHR '']'' # r"
  shows "xs = ys \<and> q = r"
  using assms
proof (induction xs arbitrary: ys)
  case Nil
  then show ?case by (cases ys) auto
next
  case (Cons x xs)
  then obtain y ys' where ys: "ys = y # ys'" by (cases ys) auto
  with Cons.prems(3) have "dumps x @ commas (map dumps xs) @ CHR '']'' # q
    = dumps y @ commas (map dumps ys') @ CHR '']'' # r" by simp
  with Cons.prems(1,2) ys have "x = y \<and> commas (map dumps xs) @ CHR '']'' # q
    = commas (map dumps ys') @ CHR '']'' # r"
    by (intro text_uniqueD) (auto simp: delimited_commas)
  with Cons ys show ?case by auto
qed

lemma field_text_unique:
  assumes "text_unique (snd x)" "wf_json (snd x)" "wf_json (snd y)" "delimited q" "delimited r"
    and "field_text x @ q = field_text y @ r"
  shows "x = y \<and> q = r"
proof -
  from assms(6) have "quote (fst x) @ (CHR '':'' # dumps (snd x) @ q)
    = quote (fst y) @ (CHR '':'' # dumps (snd y) @ r)" by (simp add: field_text_def)
  then have "fst x = fst y" "dumps (snd x) @ q = dumps (snd y) @ r"
    by (auto dest: quote_unique)
  with text_uniqueD assms(1-5) show ?thesis by (metis prod_eq_iff)
qed

lemma fields_unique:
  assumes "\<forall>x \<in> set xs. text_unique (snd x) \<and> wf_json (snd x)" and "\<forall>y \<in> set ys. wf_json (snd y)"
    and "commas (map field_text xs) @ CHR ''}'' # q = commas (map field_text ys) @ CHR ''}'' # r"
  shows "xs = ys \<and> q = r"
  using assms
proof (induction xs arbitrary: ys)
  case Nil
  then show ?case by (cases ys) auto
next
  case (Cons x xs)
  then obtain y ys' where ys: "ys = y # ys'" by (cases ys) auto
  with Cons.prems(3) have "field_text x @ commas (map field_text xs) @ CHR ''}'' # q
    = field_text y @ commas (map field_text ys') @ CHR ''}'' # r" by simp
  with Cons.prems(1,2) ys have "x = y \<and> commas (map field_text xs) @ CHR ''}'' # q
    = commas (map field_text ys') @ CHR ''}'' # r"
    by (intro field_text_unique) (auto simp: delimited_commas)
  with Cons ys show ?case by auto
qed

lemma field_text_not_brace: "field_text x @ q \<noteq> CHR ''}'' # r"
  by (simp add: field_text_def quote_def)

lemma text_unique_array:
  assumes "\<And>x. x \<in> set xs \<Longrightarrow> text_unique x"
  shows "text_unique (JArr xs)"
  unfolding text_unique_def
proof (intro allI impI)
  fix b q r
  assume wf: "wf_json (JArr xs)" "wf_json b" and eq: "dumps (JArr xs) @ q = dumps b @ r"
  have "kind (JArr xs) = kind b"
    using arg_cong [OF eq, of hd] hd_dumps_kind [of b] hd_dumps_kind [of "JArr xs"]
    by (simp add: dumps_nonempty)
  then obtain ys where b: "b = JArr ys" by (cases b) (auto simp: kind_def split: if_splits)
  from eq have eq: "join_comma (map dumps xs) @ CHR '']'' # q = join_comma (map dumps ys) @ CHR '']'' # r"
    by (simp add: b dumps_items_map)
  have "xs = ys \<and> q = r"
  proof (cases "xs = [] \<or> ys = []")
    case True
    with eq show ?thesis
      by (cases xs; cases ys) (auto simp: dumps_not_delimited dumps_not_delimited [symmetric])
  next
    case False
    then have "commas (map dumps xs) @ CHR '']'' # q = commas (map dumps ys) @ CHR '']'' # r"
      using eq by (cases xs; cases ys) auto
    then show ?thesis
      using assms wf by (intro items_unique) (auto simp: b)
  qed
  then show "JArr xs = b \<and> q = r" by (simp add: b)
qed

lemma text_unique_object:
  assumes "\<And>x. x \<in> set fields \<Longrightarrow> text_unique (snd x)"
  shows "text_unique (JObj fields)"
  unfolding text_unique_def
proof (intro allI impI)
  fix b q r
  assume wf: "wf_json (JObj fields)" "wf_json b" and eq: "dumps (JObj fields) @ q = dumps b @ r"
  have "kind (JObj fields) = kind b"
    using arg_cong [OF eq, of hd] hd_dumps_kind [of b] hd_dumps_kind [of "JObj fields"]
    by (simp add: dumps_nonempty)
  then obtain ys where b: "b = JObj ys" by (cases b) (auto simp: kind_def split: if_splits)
  with wf have d: "is_dict fields" "is_dict ys" by auto
  from eq have eq: "join_comma (map field_text fields) @ CHR ''}'' # q
    = join_comma (map field_text ys) @ CHR ''}'' # r"
    by (simp add: b dumps_JObj d)
  have "fields = ys \<and> q = r"
  proof (cases "fields = [] \<or> ys = []")
    case True
    with eq show ?thesis
      by (cases fields; cases ys) (auto simp: field_text_not_brace field_text_not_brace [symmetric])
  next
    case False
    then have "commas (map field_text fields) @ CHR ''}'' # q = commas (map field_text ys) @ CHR ''}'' # r"
      using eq by (cases fields; cases ys) auto
    then show ?thesis
      using assms wf by (intro fields_unique) (auto simp: b wf_fields_iff)
  qed
  then show "JObj fields = b \<and> q = r" by (simp add: b)
qed

lemma text_unique_scalar:
  assumes "\<And>xs. a \<noteq> JArr xs" "\<And>fs. a \<noteq> JObj fs"
  shows "text_unique a"
  unfolding text_unique_def
proof (intro allI impI)
  fix b q r
  assume wf: "wf_json a" "wf_json b" "delimited q" "delimited r" and eq: "dumps a @ q = dumps b @ r"
  have kind: "kind a = kind b"
    using arg_cong [OF eq, of hd] hd_dumps_kind [of a] hd_dumps_kind [of b] by (simp add: dumps_nonempty)
  show "a = b \<and> q = r"
  proof (cases "kind a = 3")
    case True
    then have "list_all float_char (dumps a)" "list_all float_char (dumps b)"
      using kind by (auto simp: kind_def show_int_chars float_repr_chars split: json.splits if_splits)
    with eq wf have "dumps a = dumps b" "q = r" by (auto dest: number_unique)
    consider i j where "a = JInt i" "b = JInt j" | i y where "a = JInt i" "b = JFloat y"
      | x j where "a = JFloat x" "b = JInt j" | x y where "a = JFloat x" "b = JFloat y"
      using True kind by (cases a; cases b) (simp_all add: kind_def split: if_splits)
    then show ?thesis
    proof cases
      case (4 x y)
      then have "x = y"
        using wf \<open>dumps a = dumps b\<close> float_repr_inject [of x y] by simp
      with 4 \<open>q = r\<close> show ?thesis by simp
    qed (use \<open>dumps a = dumps b\<close> \<open>q = r\<close> show_int_not_float in \<open>simp_all, metis\<close>)
  next
    case False
    show ?thesis
    proof (cases a)
      case (JStr s)
      with kind obtain t where b: "b = JStr t" by (cases b) (simp_all add: kind_def split: if_splits)
      with JStr eq have "quote s @ q = quote t @ r" by simp
      with JStr b quote_unique show ?thesis by blast
    next
      case JNull
      with kind have "b = JNull" by (cases b) (simp_all add: kind_def split: if_splits)
      with JNull eq show ?thesis by simp
    next
      case (JBool x)
      with kind have "b = JBool x" by (cases b) (simp_all add: kind_def split: if_splits)
      with JBool eq show ?thesis by simp
    qed (use False assms in \<open>simp_all add: kind_def\<close>)
  qed
qed

lemma text_unique_all: "text_unique a"
proof (induction a)
  case (JArr xs)
  then show ?case by (intro text_unique_array)
next
  case (JObj fields)
  then show ?case by (intro text_unique_object) (metis prod.exhaust_sel snds.intros)
qed (auto intro: text_unique_scalar)

lemma dumps_inject_iff:
  assumes "wf_json a" and "wf_json b"
  shows "dumps a = dumps b \<longleftrightarrow> a = b"
  using text_uniqueD [OF text_unique_all assms delimited_simps(1) delimited_simps(1)] by auto

subsection \<open>UTF-8\<close>

lemma utf8_char_prefix: "utf8_char c @ q = utf8_char d @ r \<Longrightarrow> c = d \<and> q = r"
proof -
  assume eq: "utf8_char c @ q = utf8_char d @ r"
  let ?m = "of_char c :: nat" and ?n = "of_char d :: nat"
  have less: "?m < 256" "?n < 256" by simp_all
  have mod: "j div 64 = k div 64 \<Longrightarrow> j mod 64 = k mod 64 \<Longrightarrow> j = k" for j k :: nat
    by (metis div_mult_mod_eq)
  have "?m = ?n \<and> q = r"
  proof (cases "?m < 128"; cases "?n < 128")
    assume "\<not> ?m < 128" "\<not> ?n < 128"
    with eq have "?m div 64 = ?n div 64" "?m mod 64 = ?n mod 64" "q = r"
      unfolding utf8_char_def Let_def by simp_all
    with mod show ?thesis by blast
  qed (use eq less in \<open>simp_all add: utf8_char_def Let_def\<close>)
  then show ?thesis by simp
qed

lemma utf8_char_nonempty: "utf8_char c \<noteq> []"
  by (simp add: utf8_char_def Let_def)

lemma utf8_encode_inject: "utf8_encode s = utf8_encode t \<Longrightarrow> s = t"
proof (induction s arbitrary: t)
  case Nil
  then show ?case by (cases t) (auto simp: utf8_encode_def utf8_char_nonempty)
next
  case (Cons c s)
  then obtain d t' where t: "t = d # t'"
    by (cases t) (auto simp: utf8_encode_def utf8_char_nonempty)
  with Cons.prems have "c = d \<and> utf8_encode s = utf8_encode t'"
    by (intro utf8_char_prefix) (simp add: utf8_encode_def)
  with Cons.IH t show ?case by simp
qed

end
