(* ===== verification/Domain.thy ===== *)
theory Domain
  imports Serialization
begin

text \<open>
  Model of \<open>src/src/guildmind/domain/models.py\<close>: the versioned evidence records. A pydantic
  model class is a \<^theory_text>\<open>record\<close> of its fields (the constant \<open>schema_version\<close> fields
  appear in the dumps only), the constraints of its field types and its validators are an
  executable validity predicate, and constructing or validating an instance strips what
  \<open>NonEmptyStr\<close> strips and returns the instance or \<^const>\<open>ValidationError\<close>. Dumps are JSON values
  with sorted keys; for the two budget classes, which the replay reads back out of event
  payloads, the validation of a JSON object is modelled too.

  Hashes of dumps are taken by a parameter \<open>H\<close>, the function \<open>canonical_sha256\<close> on JSON values.
\<close>

section \<open>Field types\<close>

definition valid_nonempty_str :: "string \<Rightarrow> bool" where
  "valid_nonempty_str s = (s \<noteq> [] \<and> strip_whitespace s = s)"

definition valid_opt :: "('a \<Rightarrow> bool) \<Rightarrow> 'a option \<Rightarrow> bool" where
  "valid_opt p x = (case x of None \<Rightarrow> True | Some y \<Rightarrow> p y)"

definition valid_nonneg_float :: "rat \<Rightarrow> bool" where
  "valid_nonneg_float x = (is_float x \<and> 0 \<le> x)"

lemma valid_opt_simps [simp]:
  "valid_opt p None" "valid_opt p (Some x) = p x"
  by (simp_all add: valid_opt_def)

lemma valid_nonneg_float_zero [simp]: "valid_nonneg_float 0"
  by (simp add: valid_nonneg_float_def)

definition opt_json :: "('a \<Rightarrow> json) \<Rightarrow> 'a option \<Rightarrow> json" where
  "opt_json f x = (case x of None \<Rightarrow> JNull | Some y \<Rightarrow> f y)"

lemma opt_json_simps [simp]:
  "opt_json f None = JNull" "opt_json f (Some x) = f x"
  by (simp_all add: opt_json_def)

abbreviation datetime_json :: "datetime \<Rightarrow> json" where
  "datetime_json t \<equiv> JStr (isoformat t)"

abbreviation schema_version_json :: json where
  "schema_version_json \<equiv> JStr ''0.1''"

section \<open>Artifact references\<close>

record artifact_ref =
  ar_media_type :: string
  ar_size_bytes :: int
  ar_sha256 :: string
  ar_storage_ref :: string

definition valid_artifact_ref :: "artifact_ref \<Rightarrow> bool" where
  "valid_artifact_ref a =
     (valid_nonempty_str (ar_media_type a) \<and> 0 \<le> ar_size_bytes a
      \<and> is_lower_sha256 (ar_sha256 a) \<and> valid_nonempty_str (ar_storage_ref a))"

definition artifact_ref_json :: "artifact_ref \<Rightarrow> json" where
  "artifact_ref_json a =
     JObj [(''media_type'', JStr (ar_media_type a)), (''schema_version'', schema_version_json),
       (''sha256'', JStr (ar_sha256 a)), (''size_bytes'', JInt (ar_size_bytes a)),
       (''storage_ref'', JStr (ar_storage_ref a))]"

section \<open>Budgets\<close>

record budget_limits =
  max_input_tokens :: "int option"
  max_output_tokens :: "int option"
  max_total_tokens :: "int option"
  max_model_calls :: "int option"
  max_model_retries :: "int option"
  max_tool_calls :: "int option"
  max_tool_cpu_seconds :: "rat option"
  max_container_wall_seconds :: "rat option"
  max_elapsed_seconds :: "rat option"
  max_estimated_cost_usd :: "rat option"

record budget_usage =
  uncached_input_tokens :: int
  cache_read_input_tokens :: int
  cache_write_input_tokens :: int
  output_tokens :: int
  reasoning_tokens :: int
  model_calls :: int
  model_retries :: int
  tool_calls :: int
  tool_cpu_seconds :: rat
  container_wall_seconds :: rat
  elapsed_seconds :: rat
  estimated_cost_usd :: rat

definition valid_limits :: "budget_limits \<Rightarrow> bool" where
  "valid_limits l =
     (valid_opt ((\<le>) 0) (max_input_tokens l) \<and> valid_opt ((\<le>) 0) (max_output_tokens l)
      \<and> valid_opt ((\<le>) 0) (max_total_tokens l) \<and> valid_opt ((\<le>) 0) (max_model_calls l)
      \<and> valid_opt ((\<le>) 0) (max_model_retries l) \<and> valid_opt ((\<le>) 0) (max_tool_calls l)
      \<and> valid_opt valid_nonneg_float (max_tool_cpu_seconds l)
      \<and> valid_opt valid_nonneg_float (max_container_wall_seconds l)
      \<and> valid_opt valid_nonneg_float (max_elapsed_seconds l)
      \<and> valid_opt valid_nonneg_float (max_estimated_cost_usd l))"

text \<open>The field constraints, then the \<open>_reasoning_is_output_subset\<close> validator.\<close>

definition valid_usage_fields :: "budget_usage \<Rightarrow> bool" where
  "valid_usage_fields u =
     (0 \<le> uncached_input_tokens u \<and> 0 \<le> cache_read_input_tokens u
      \<and> 0 \<le> cache_write_input_tokens u \<and> 0 \<le> output_tokens u \<and> 0 \<le> reasoning_tokens u
      \<and> 0 \<le> model_calls u \<and> 0 \<le> model_retries u \<and> 0 \<le> tool_calls u
      \<and> valid_nonneg_float (tool_cpu_seconds u) \<and> valid_nonneg_float (container_wall_seconds u)
      \<and> valid_nonneg_float (elapsed_seconds u) \<and> valid_nonneg_float (estimated_cost_usd u))"

definition reasoning_is_output_subset :: "budget_usage \<Rightarrow> bool" where
  "reasoning_is_output_subset u = (reasoning_tokens u \<le> output_tokens u)"

definition valid_usage :: "budget_usage \<Rightarrow> bool" where
  "valid_usage u = (valid_usage_fields u \<and> reasoning_is_output_subset u)"

definition empty_usage :: budget_usage where
  "empty_usage =
     \<lparr>uncached_input_tokens = 0, cache_read_input_tokens = 0, cache_write_input_tokens = 0,
      output_tokens = 0, reasoning_tokens = 0, model_calls = 0, model_retries = 0,
      tool_calls = 0, tool_cpu_seconds = 0, container_wall_seconds = 0, elapsed_seconds = 0,
      estimated_cost_usd = 0\<rparr>"

definition validate_usage :: "budget_usage \<Rightarrow> budget_usage result" where
  "validate_usage u = (if valid_usage u then Inr u else Inl ValidationError)"

definition input_tokens :: "budget_usage \<Rightarrow> int" where
  "input_tokens u =
     uncached_input_tokens u + cache_read_input_tokens u + cache_write_input_tokens u"

definition total_tokens :: "budget_usage \<Rightarrow> int" where
  "total_tokens u = input_tokens u + output_tokens u"

definition cap_check :: "string \<Rightarrow> 'a::linorder \<Rightarrow> 'a option \<Rightarrow> string list" where
  "cap_check name actual limit =
     (case limit of None \<Rightarrow> [] | Some l \<Rightarrow> if l < actual then [name] else [])"

definition exceeded_limits :: "budget_usage \<Rightarrow> budget_limits \<Rightarrow> string list" where
  "exceeded_limits u l =
     cap_check ''input_tokens'' (input_tokens u) (max_input_tokens l)
     @ cap_check ''output_tokens'' (output_tokens u) (max_output_tokens l)
     @ cap_check ''total_tokens'' (total_tokens u) (max_total_tokens l)
     @ cap_check ''model_calls'' (model_calls u) (max_model_calls l)
     @ cap_check ''model_retries'' (model_retries u) (max_model_retries l)
     @ cap_check ''tool_calls'' (tool_calls u) (max_tool_calls l)
     @ cap_check ''tool_cpu_seconds'' (tool_cpu_seconds u) (max_tool_cpu_seconds l)
     @ cap_check ''container_wall_seconds'' (container_wall_seconds u) (max_container_wall_seconds l)
     @ cap_check ''elapsed_seconds'' (elapsed_seconds u) (max_elapsed_seconds l)
     @ cap_check ''estimated_cost_usd'' (estimated_cost_usd u) (max_estimated_cost_usd l)"

definition usage_dict :: "budget_usage \<Rightarrow> json dict" where
  "usage_dict u =
     [(''cache_read_input_tokens'', JInt (cache_read_input_tokens u)),
       (''cache_write_input_tokens'', JInt (cache_write_input_tokens u)),
       (''container_wall_seconds'', JFloat (container_wall_seconds u)),
       (''elapsed_seconds'', JFloat (elapsed_seconds u)),
       (''estimated_cost_usd'', JFloat (estimated_cost_usd u)),
       (''model_calls'', JInt (model_calls u)),
       (''model_retries'', JInt (model_retries u)),
       (''output_tokens'', JInt (output_tokens u)),
       (''reasoning_tokens'', JInt (reasoning_tokens u)),
       (''schema_version'', schema_version_json),
       (''tool_calls'', JInt (tool_calls u)),
       (''tool_cpu_seconds'', JFloat (tool_cpu_seconds u)),
       (''uncached_input_tokens'', JInt (uncached_input_tokens u))]"

abbreviation usage_json :: "budget_usage \<Rightarrow> json" where
  "usage_json u \<equiv> JObj (usage_dict u)"

definition limits_dict :: "budget_limits \<Rightarrow> json dict" where
  "limits_dict l =
     [(''max_container_wall_seconds'', opt_json JFloat (max_container_wall_seconds l)),
       (''max_elapsed_seconds'', opt_json JFloat (max_elapsed_seconds l)),
       (''max_estimated_cost_usd'', opt_json JFloat (max_estimated_cost_usd l)),
       (''max_input_tokens'', opt_json JInt (max_input_tokens l)),
       (''max_model_calls'', opt_json JInt (max_model_calls l)),
       (''max_model_retries'', opt_json JInt (max_model_retries l)),
       (''max_output_tokens'', opt_json JInt (max_output_tokens l)),
       (''max_tool_calls'', opt_json JInt (max_tool_calls l)),
       (''max_tool_cpu_seconds'', opt_json JFloat (max_tool_cpu_seconds l)),
       (''max_total_tokens'', opt_json JInt (max_total_tokens l)),
       (''schema_version'', schema_version_json)]"

abbreviation limits_json :: "budget_limits \<Rightarrow> json" where
  "limits_json l \<equiv> JObj (limits_dict l)"

subsection \<open>Validating JSON objects\<close>

text \<open>
  A strict integer field takes a JSON integer and no boolean; a strict float field takes a
  JSON float, or an integer, which becomes the float of that value. A missing field takes its
  default, an unknown key is refused.
\<close>

definition strict_nonneg_int :: "json \<Rightarrow> int option" where
  "strict_nonneg_int j = (case j of JInt i \<Rightarrow> if 0 \<le> i then Some i else None | _ \<Rightarrow> None)"

definition strict_nonneg_float :: "json \<Rightarrow> rat option" where
  "strict_nonneg_float j =
     (case j of
        JFloat x \<Rightarrow> if valid_nonneg_float x then Some x else None
      | JInt i \<Rightarrow> if 0 \<le> i then to_float (of_int i) else None
      | _ \<Rightarrow> None)"

definition field_or :: "'a \<Rightarrow> (json \<Rightarrow> 'a option) \<Rightarrow> json dict \<Rightarrow> string \<Rightarrow> 'a result" where
  "field_or dflt conv d k =
     (case map_of d k of None \<Rightarrow> Inr dflt | Some j \<Rightarrow> of_option ValidationError (conv j))"

definition nullable :: "(json \<Rightarrow> 'a option) \<Rightarrow> json \<Rightarrow> 'a option option" where
  "nullable conv j = (if j = JNull then Some None else map_option Some (conv j))"

definition schema_version_ok :: "json dict \<Rightarrow> bool" where
  "schema_version_ok d =
     (case map_of d ''schema_version'' of None \<Rightarrow> True | Some j \<Rightarrow> j = schema_version_json)"

definition usage_keys :: "string list" where
  "usage_keys =
     [''cache_read_input_tokens'', ''cache_write_input_tokens'', ''container_wall_seconds'',
      ''elapsed_seconds'', ''estimated_cost_usd'', ''model_calls'', ''model_retries'',
      ''output_tokens'', ''reasoning_tokens'', ''schema_version'', ''tool_calls'',
      ''tool_cpu_seconds'', ''uncached_input_tokens'']"

definition limits_keys :: "string list" where
  "limits_keys =
     [''max_container_wall_seconds'', ''max_elapsed_seconds'', ''max_estimated_cost_usd'',
      ''max_input_tokens'', ''max_model_calls'', ''max_model_retries'', ''max_output_tokens'',
      ''max_tool_calls'', ''max_tool_cpu_seconds'', ''max_total_tokens'', ''schema_version'']"

definition usage_of_dict :: "json dict \<Rightarrow> budget_usage result" where
  "usage_of_dict d =
     (let int_field = field_or 0 strict_nonneg_int d;
          float_field = field_or 0 strict_nonneg_float d in
      if \<not> list_all (\<lambda>kv. fst kv \<in> set usage_keys) d \<or> \<not> schema_version_ok d then Inl ValidationError
      else
      rbind (int_field ''uncached_input_tokens'') (\<lambda>a.
      rbind (int_field ''cache_read_input_tokens'') (\<lambda>b.
      rbind (int_field ''cache_write_input_tokens'') (\<lambda>c.
      rbind (int_field ''output_tokens'') (\<lambda>d.
      rbind (int_field ''reasoning_tokens'') (\<lambda>e.
      rbind (int_field ''model_calls'') (\<lambda>f.
      rbind (int_field ''model_retries'') (\<lambda>g.
      rbind (int_field ''tool_calls'') (\<lambda>h.
      rbind (float_field ''tool_cpu_seconds'') (\<lambda>i.
      rbind (float_field ''container_wall_seconds'') (\<lambda>j.
      rbind (float_field ''elapsed_seconds'') (\<lambda>k.
      rbind (float_field ''estimated_cost_usd'') (\<lambda>l.
      validate_usage
        \<lparr>uncached_input_tokens = a, cache_read_input_tokens = b, cache_write_input_tokens = c,
         output_tokens = d, reasoning_tokens = e, model_calls = f, model_retries = g,
         tool_calls = h, tool_cpu_seconds = i, container_wall_seconds = j, elapsed_seconds = k,
         estimated_cost_usd = l\<rparr>)))))))))))))"

definition limits_of_dict :: "json dict \<Rightarrow> budget_limits result" where
  "limits_of_dict d =
     (let int_field = field_or None (nullable strict_nonneg_int) d;
          float_field = field_or None (nullable strict_nonneg_float) d in
      if \<not> list_all (\<lambda>kv. fst kv \<in> set limits_keys) d \<or> \<not> schema_version_ok d then Inl ValidationError
      else
      rbind (int_field ''max_input_tokens'') (\<lambda>a.
      rbind (int_field ''max_output_tokens'') (\<lambda>b.
      rbind (int_field ''max_total_tokens'') (\<lambda>c.
      rbind (int_field ''max_model_calls'') (\<lambda>d.
      rbind (int_field ''max_model_retries'') (\<lambda>e.
      rbind (int_field ''max_tool_calls'') (\<lambda>f.
      rbind (float_field ''max_tool_cpu_seconds'') (\<lambda>g.
      rbind (float_field ''max_container_wall_seconds'') (\<lambda>h.
      rbind (float_field ''max_elapsed_seconds'') (\<lambda>i.
      rbind (float_field ''max_estimated_cost_usd'') (\<lambda>j.
      Inr
        \<lparr>max_input_tokens = a, max_output_tokens = b, max_total_tokens = c, max_model_calls = d,
         max_model_retries = e, max_tool_calls = f, max_tool_cpu_seconds = g,
         max_container_wall_seconds = h, max_elapsed_seconds = i,
         max_estimated_cost_usd = j\<rparr>)))))))))))"

section \<open>Tasks and experiments\<close>

record task_spec =
  ts_task_id :: string
  ts_source :: string
  ts_split :: string
  ts_repository :: string
  ts_repository_commit :: string
  ts_image_digest :: string
  ts_task_content_hash :: string
  ts_problem_statement :: artifact_ref
  ts_repository_snapshot :: artifact_ref
  ts_visible_tests :: "artifact_ref list"
  ts_metadata :: "json dict"

definition valid_task_spec :: "task_spec \<Rightarrow> bool" where
  "valid_task_spec t =
     (valid_nonempty_str (ts_task_id t) \<and> valid_nonempty_str (ts_source t)
      \<and> valid_nonempty_str (ts_split t) \<and> valid_nonempty_str (ts_repository t)
      \<and> valid_nonempty_str (ts_repository_commit t) \<and> is_sha256_digest (ts_image_digest t)
      \<and> is_lower_sha256 (ts_task_content_hash t) \<and> valid_artifact_ref (ts_problem_statement t)
      \<and> valid_artifact_ref (ts_repository_snapshot t)
      \<and> list_all valid_artifact_ref (ts_visible_tests t) \<and> wf_json (JObj (ts_metadata t)))"

record experiment_spec =
  es_experiment_id :: string
  es_hypothesis :: string
  es_candidate_ids :: "string list"
  es_task_ids :: "string list"
  es_task_split :: string
  es_repeats :: int
  es_budget_limits :: budget_limits
  es_metrics :: "string list"
  es_stopping_rule :: string
  es_retry_limit :: int
  es_seed :: int

definition require_nonempty_unique_values :: "string list \<Rightarrow> bool" where
  "require_nonempty_unique_values vs = (vs \<noteq> [] \<and> distinct vs)"

definition valid_experiment_spec :: "experiment_spec \<Rightarrow> bool" where
  "valid_experiment_spec e =
     (valid_nonempty_str (es_experiment_id e) \<and> valid_nonempty_str (es_hypothesis e)
      \<and> list_all valid_nonempty_str (es_candidate_ids e) \<and> list_all valid_nonempty_str (es_task_ids e)
      \<and> valid_nonempty_str (es_task_split e) \<and> 0 < es_repeats e \<and> valid_limits (es_budget_limits e)
      \<and> list_all valid_nonempty_str (es_metrics e) \<and> valid_nonempty_str (es_stopping_rule e)
      \<and> 0 \<le> es_retry_limit e \<and> 0 \<le> es_seed e
      \<and> require_nonempty_unique_values (es_candidate_ids e)
      \<and> require_nonempty_unique_values (es_task_ids e)
      \<and> require_nonempty_unique_values (es_metrics e))"

section \<open>Run manifests\<close>

datatype run_status =
    PENDING
  | RUNNING
  | SUCCEEDED
  | FAILED
  | CANCELLED
  | TIMED_OUT
  | BUDGET_EXHAUSTED
  | INFRASTRUCTURE_ERROR

fun status_value :: "run_status \<Rightarrow> string" where
  "status_value PENDING = ''pending''"
| "status_value RUNNING = ''running''"
| "status_value SUCCEEDED = ''succeeded''"
| "status_value FAILED = ''failed''"
| "status_value CANCELLED = ''cancelled''"
| "status_value TIMED_OUT = ''timed_out''"
| "status_value BUDGET_EXHAUSTED = ''budget_exhausted''"
| "status_value INFRASTRUCTURE_ERROR = ''infrastructure_error''"

definition all_statuses :: "run_status list" where
  "all_statuses =
     [PENDING, RUNNING, SUCCEEDED, FAILED, CANCELLED, TIMED_OUT, BUDGET_EXHAUSTED, INFRASTRUCTURE_ERROR]"

text \<open>\<open>RunStatus(raw)\<close>: the member with that value, \<open>ValueError\<close> when there is none.\<close>

definition status_of_value :: "string \<Rightarrow> run_status option" where
  "status_of_value s = find (\<lambda>st. status_value st = s) all_statuses"

definition is_terminal :: "run_status \<Rightarrow> bool" where
  "is_terminal s = (s \<notin> {PENDING, RUNNING})"

record run_manifest =
  rm_run_id :: string
  rm_experiment_id :: string
  rm_task_id :: string
  rm_candidate_id :: string
  rm_genome_hash :: "string option"
  rm_requested_model :: string
  rm_returned_model :: "string option"
  rm_model_parameters :: "json dict"
  rm_seed :: int
  rm_environment_digest :: string
  rm_code_revision :: string
  rm_budget_limits :: budget_limits
  rm_status :: run_status
  rm_created_at :: datetime
  rm_started_at :: "datetime option"
  rm_finished_at :: "datetime option"
  rm_terminal_reason :: "string option"
  rm_artifacts :: "artifact_ref dict"

definition valid_manifest_fields :: "run_manifest \<Rightarrow> bool" where
  "valid_manifest_fields m =
     (valid_nonempty_str (rm_run_id m) \<and> valid_nonempty_str (rm_experiment_id m)
      \<and> valid_nonempty_str (rm_task_id m) \<and> valid_nonempty_str (rm_candidate_id m)
      \<and> valid_opt is_lower_sha256 (rm_genome_hash m) \<and> valid_nonempty_str (rm_requested_model m)
      \<and> valid_opt valid_nonempty_str (rm_returned_model m)
      \<and> wf_json (JObj (rm_model_parameters m)) \<and> 0 \<le> rm_seed m
      \<and> is_sha256_digest (rm_environment_digest m) \<and> valid_nonempty_str (rm_code_revision m)
      \<and> valid_limits (rm_budget_limits m) \<and> valid_datetime (rm_created_at m)
      \<and> valid_opt valid_datetime (rm_started_at m) \<and> valid_opt valid_datetime (rm_finished_at m)
      \<and> valid_opt valid_nonempty_str (rm_terminal_reason m)
      \<and> is_dict (rm_artifacts m) \<and> list_all (\<lambda>kv. valid_artifact_ref (snd kv)) (rm_artifacts m))"

definition validate_lifecycle :: "run_manifest \<Rightarrow> bool" where
  "validate_lifecycle m =
     (valid_opt (\<lambda>s. rm_created_at m \<le> s) (rm_started_at m)
      \<and> valid_opt (\<lambda>f. rm_created_at m \<le> f) (rm_finished_at m)
      \<and> (case (rm_started_at m, rm_finished_at m) of
           (Some s, Some f) \<Rightarrow> s \<le> f | _ \<Rightarrow> True)
      \<and> (case rm_status m of
           PENDING \<Rightarrow> rm_started_at m = None \<and> rm_finished_at m = None \<and> rm_terminal_reason m = None
         | RUNNING \<Rightarrow> rm_started_at m \<noteq> None \<and> rm_finished_at m = None \<and> rm_terminal_reason m = None
         | SUCCEEDED \<Rightarrow> rm_started_at m \<noteq> None \<and> rm_finished_at m \<noteq> None \<and> rm_terminal_reason m = None
         | _ \<Rightarrow> rm_finished_at m \<noteq> None \<and> rm_terminal_reason m \<noteq> None))"

definition valid_manifest :: "run_manifest \<Rightarrow> bool" where
  "valid_manifest m = (valid_manifest_fields m \<and> validate_lifecycle m)"

text \<open>What validation does to the text fields before it checks them.\<close>

definition strip_manifest :: "run_manifest \<Rightarrow> run_manifest" where
  "strip_manifest m =
     m\<lparr>rm_run_id := strip_whitespace (rm_run_id m),
       rm_experiment_id := strip_whitespace (rm_experiment_id m),
       rm_task_id := strip_whitespace (rm_task_id m),
       rm_candidate_id := strip_whitespace (rm_candidate_id m),
       rm_requested_model := strip_whitespace (rm_requested_model m),
       rm_returned_model := map_option strip_whitespace (rm_returned_model m),
       rm_code_revision := strip_whitespace (rm_code_revision m),
       rm_terminal_reason := map_option strip_whitespace (rm_terminal_reason m)\<rparr>"

definition validate_manifest :: "run_manifest \<Rightarrow> run_manifest result" where
  "validate_manifest m =
     (let m' = strip_manifest m in if valid_manifest m' then Inr m' else Inl ValidationError)"

definition manifest_json :: "run_manifest \<Rightarrow> json" where
  "manifest_json m =
     JObj [(''artifacts'', JObj (map (\<lambda>(k, a). (k, artifact_ref_json a)) (rm_artifacts m))),
       (''budget_limits'', limits_json (rm_budget_limits m)),
       (''candidate_id'', JStr (rm_candidate_id m)),
       (''code_revision'', JStr (rm_code_revision m)),
       (''created_at'', datetime_json (rm_created_at m)),
       (''environment_digest'', JStr (rm_environment_digest m)),
       (''experiment_id'', JStr (rm_experiment_id m)),
       (''finished_at'', opt_json datetime_json (rm_finished_at m)),
       (''genome_hash'', opt_json JStr (rm_genome_hash m)),
       (''model_parameters'', JObj (rm_model_parameters m)),
       (''requested_model'', JStr (rm_requested_model m)),
       (''returned_model'', opt_json JStr (rm_returned_model m)),
       (''run_id'', JStr (rm_run_id m)),
       (''schema_version'', schema_version_json),
       (''seed'', JInt (rm_seed m)),
       (''started_at'', opt_json datetime_json (rm_started_at m)),
       (''status'', JStr (status_value (rm_status m))),
       (''task_id'', JStr (rm_task_id m)),
       (''terminal_reason'', opt_json JStr (rm_terminal_reason m))]"

section \<open>Events\<close>

record event_record =
  ev_event_id :: string
  ev_run_id :: string
  ev_sequence :: int
  ev_causal_parent_ids :: "string list"
  ev_event_type :: string
  ev_monotonic_ns :: int
  ev_occurred_at :: datetime
  ev_payload :: "json dict"
  ev_payload_sha256 :: string
  ev_previous_event_hash :: "string option"

definition valid_event_fields :: "event_record \<Rightarrow> bool" where
  "valid_event_fields e =
     (valid_nonempty_str (ev_event_id e) \<and> valid_nonempty_str (ev_run_id e) \<and> 0 \<le> ev_sequence e
      \<and> list_all valid_nonempty_str (ev_causal_parent_ids e) \<and> valid_nonempty_str (ev_event_type e)
      \<and> 0 \<le> ev_monotonic_ns e \<and> valid_datetime (ev_occurred_at e) \<and> wf_json (JObj (ev_payload e))
      \<and> is_lower_sha256 (ev_payload_sha256 e) \<and> valid_opt is_lower_sha256 (ev_previous_event_hash e))"

definition validate_hash_chain :: "(json \<Rightarrow> string) \<Rightarrow> event_record \<Rightarrow> bool" where
  "validate_hash_chain H e =
     ((ev_sequence e = 0 \<longrightarrow> ev_previous_event_hash e = None)
      \<and> (0 < ev_sequence e \<longrightarrow> ev_previous_event_hash e \<noteq> None)
      \<and> ev_payload_sha256 e = H (JObj (ev_payload e)))"

definition valid_event :: "(json \<Rightarrow> string) \<Rightarrow> event_record \<Rightarrow> bool" where
  "valid_event H e =
     (valid_event_fields e \<and> distinct (ev_causal_parent_ids e) \<and> validate_hash_chain H e)"

definition event_json :: "event_record \<Rightarrow> json" where
  "event_json e =
     JObj [(''causal_parent_ids'', JArr (map JStr (ev_causal_parent_ids e))),
       (''event_id'', JStr (ev_event_id e)),
       (''event_type'', JStr (ev_event_type e)),
       (''event_version'', schema_version_json),
       (''monotonic_ns'', JInt (ev_monotonic_ns e)),
       (''occurred_at'', datetime_json (ev_occurred_at e)),
       (''payload'', JObj (ev_payload e)),
       (''payload_sha256'', JStr (ev_payload_sha256 e)),
       (''previous_event_hash'', opt_json JStr (ev_previous_event_hash e)),
       (''run_id'', JStr (ev_run_id e)),
       (''schema_version'', schema_version_json),
       (''sequence'', JInt (ev_sequence e))]"

definition content_hash :: "(json \<Rightarrow> string) \<Rightarrow> event_record \<Rightarrow> string" where
  "content_hash H e = H (event_json e)"

section \<open>Evaluation results\<close>

datatype evaluation_outcome = Passed | Failed | Error | NotRun

record evaluation_result =
  er_evaluation_id :: string
  er_run_id :: string
  er_run_status :: run_status
  er_evaluator_version :: string
  er_task_hash :: string
  er_patch_hash :: "string option"
  er_outcome :: evaluation_outcome
  er_score :: "rat option"
  er_result :: "json dict"
  er_result_sha256 :: string
  er_evidence :: "artifact_ref list"
  er_evaluated_at :: datetime
  er_signature :: "string option"

fun compatible_statuses :: "evaluation_outcome \<Rightarrow> run_status set" where
  "compatible_statuses Passed = {SUCCEEDED}"
| "compatible_statuses Failed = {FAILED, TIMED_OUT}"
| "compatible_statuses Error = {INFRASTRUCTURE_ERROR}"
| "compatible_statuses NotRun = {CANCELLED, BUDGET_EXHAUSTED, INFRASTRUCTURE_ERROR}"

definition validate_result :: "(json \<Rightarrow> string) \<Rightarrow> evaluation_result \<Rightarrow> bool" where
  "validate_result H r =
     (is_terminal (er_run_status r)
      \<and> (er_outcome r = NotRun \<longrightarrow> er_patch_hash r = None)
      \<and> (er_outcome r \<noteq> NotRun \<longrightarrow> er_patch_hash r \<noteq> None)
      \<and> er_run_status r \<in> compatible_statuses (er_outcome r)
      \<and> er_result_sha256 r = H (JObj (er_result r)))"

definition valid_evaluation_result :: "(json \<Rightarrow> string) \<Rightarrow> evaluation_result \<Rightarrow> bool" where
  "valid_evaluation_result H r =
     (valid_nonempty_str (er_evaluation_id r) \<and> valid_nonempty_str (er_run_id r)
      \<and> valid_nonempty_str (er_evaluator_version r) \<and> is_lower_sha256 (er_task_hash r)
      \<and> valid_opt is_lower_sha256 (er_patch_hash r) \<and> valid_opt valid_nonneg_float (er_score r)
      \<and> wf_json (JObj (er_result r)) \<and> is_lower_sha256 (er_result_sha256 r)
      \<and> list_all valid_artifact_ref (er_evidence r) \<and> valid_datetime (er_evaluated_at r)
      \<and> valid_opt valid_nonempty_str (er_signature r)
      \<and> validate_result H r)"

section \<open>Statuses\<close>

lemma status_of_value_status_value [simp]: "status_of_value (status_value s) = Some s"
  by (cases s) (simp_all add: status_of_value_def all_statuses_def)

lemma status_value_inject [simp]: "status_value s = status_value t \<longleftrightarrow> s = t"
  by (metis option.inject status_of_value_status_value)

lemma status_of_value_Some: "status_of_value v = Some s \<Longrightarrow> v = status_value s"
  by (auto simp: status_of_value_def find_Some_iff)

lemma is_terminal_simps [simp, status_simps]:
  "\<not> is_terminal PENDING" "\<not> is_terminal RUNNING" "is_terminal SUCCEEDED" "is_terminal FAILED"
  "is_terminal CANCELLED" "is_terminal TIMED_OUT" "is_terminal BUDGET_EXHAUSTED"
  "is_terminal INFRASTRUCTURE_ERROR"
  by (simp_all add: is_terminal_def)

lemma compatible_statuses_terminal: "s \<in> compatible_statuses oc \<Longrightarrow> is_terminal s"
  by (cases oc) auto

section \<open>Budgets read back\<close>

lemma valid_empty_usage [simp]: "valid_usage empty_usage"
  by (simp add: valid_usage_def valid_usage_fields_def reasoning_is_output_subset_def empty_usage_def)

lemma validate_usage_Inr [result_simps]: "validate_usage u = Inr v \<longleftrightarrow> valid_usage u \<and> v = u"
  by (auto simp: validate_usage_def)

lemma usage_of_dict_valid: "usage_of_dict d = Inr u \<Longrightarrow> valid_usage u"
  by (auto simp: usage_of_dict_def Let_def result_simps split: if_splits)

lemma usage_roundtrip [simp]: "valid_usage u \<Longrightarrow> usage_of_dict (usage_dict u) = Inr u"
  by (simp add: usage_of_dict_def usage_dict_def Let_def field_or_def usage_keys_def
      schema_version_ok_def strict_nonneg_int_def strict_nonneg_float_def valid_usage_def
      valid_usage_fields_def validate_usage_def reasoning_is_output_subset_def)

lemma nullable_int: "valid_opt ((\<le>) 0) x \<Longrightarrow> nullable strict_nonneg_int (opt_json JInt x) = Some x"
  by (cases x) (simp_all add: nullable_def strict_nonneg_int_def)

lemma nullable_float:
  "valid_opt valid_nonneg_float x \<Longrightarrow> nullable strict_nonneg_float (opt_json JFloat x) = Some x"
  by (cases x) (simp_all add: nullable_def strict_nonneg_float_def)

lemma limits_roundtrip [simp]: "valid_limits l \<Longrightarrow> limits_of_dict (limits_dict l) = Inr l"
  by (simp add: limits_of_dict_def limits_dict_def Let_def field_or_def limits_keys_def
      schema_version_ok_def valid_limits_def nullable_int nullable_float)

lemma usage_dict_inject: "valid_usage u \<Longrightarrow> valid_usage v \<Longrightarrow> usage_dict u = usage_dict v \<Longrightarrow> u = v"
  by (metis usage_roundtrip sum.inject(2))

lemma limits_dict_inject: "valid_limits l \<Longrightarrow> valid_limits k \<Longrightarrow> limits_dict l = limits_dict k \<Longrightarrow> l = k"
  by (metis limits_roundtrip sum.inject(2))

lemma cap_check_Nil: "cap_check n a l = [] \<longleftrightarrow> (\<forall>c. l = Some c \<longrightarrow> a \<le> c)"
  by (auto simp: cap_check_def not_less split: option.splits)

text \<open>An empty list of exceeded caps means that every cap holds.\<close>

lemma exceeded_limits_Nil:
  "exceeded_limits u l = [] \<longleftrightarrow>
     (\<forall>c. max_input_tokens l = Some c \<longrightarrow> input_tokens u \<le> c)
     \<and> (\<forall>c. max_output_tokens l = Some c \<longrightarrow> output_tokens u \<le> c)
     \<and> (\<forall>c. max_total_tokens l = Some c \<longrightarrow> total_tokens u \<le> c)
     \<and> (\<forall>c. max_model_calls l = Some c \<longrightarrow> model_calls u \<le> c)
     \<and> (\<forall>c. max_model_retries l = Some c \<longrightarrow> model_retries u \<le> c)
     \<and> (\<forall>c. max_tool_calls l = Some c \<longrightarrow> tool_calls u \<le> c)
     \<and> (\<forall>c. max_tool_cpu_seconds l = Some c \<longrightarrow> tool_cpu_seconds u \<le> c)
     \<and> (\<forall>c. max_container_wall_seconds l = Some c \<longrightarrow> container_wall_seconds u \<le> c)
     \<and> (\<forall>c. max_elapsed_seconds l = Some c \<longrightarrow> elapsed_seconds u \<le> c)
     \<and> (\<forall>c. max_estimated_cost_usd l = Some c \<longrightarrow> estimated_cost_usd u \<le> c)"
  by (simp add: exceeded_limits_def cap_check_Nil)

section \<open>Dumps are well-formed and injective\<close>

lemma valid_nonneg_float_fl: "valid_nonneg_float x \<Longrightarrow> fl x = x"
  by (auto simp: valid_nonneg_float_def is_float_def to_float_def Let_def split: if_splits)

lemma wf_opt_json:
  "valid_opt p x \<Longrightarrow> (\<And>y. p y \<Longrightarrow> wf_json (f y)) \<Longrightarrow> wf_json (opt_json f x)"
  by (cases x) auto

lemma wf_opt_json_str [simp]: "wf_json (opt_json JStr x)" "wf_json (opt_json JInt i)"
  "wf_json (opt_json datetime_json t)"
  by (cases x; cases i; cases t; simp)+

lemma wf_usage_json [simp]: "valid_usage u \<Longrightarrow> wf_json (usage_json u)"
  by (simp add: usage_dict_def less_char_def valid_usage_def valid_usage_fields_def valid_nonneg_float_fl)

lemma wf_opt_float: "valid_opt valid_nonneg_float x \<Longrightarrow> wf_json (opt_json JFloat x)"
  by (cases x) (simp_all add: valid_nonneg_float_fl)

lemma wf_limits_json [simp]: "valid_limits l \<Longrightarrow> wf_json (limits_json l)"
  by (simp add: limits_dict_def less_char_def valid_limits_def wf_opt_float)

lemma wf_artifact_ref_json [simp]: "wf_json (artifact_ref_json a)"
  by (simp add: artifact_ref_json_def less_char_def)

lemma wf_artifacts_json: "is_dict d \<Longrightarrow> wf_json (JObj (map (\<lambda>(k, a). (k, artifact_ref_json a)) d))"
  by (auto simp: is_dict_def wf_fields_iff comp_def case_prod_unfold)

lemma wf_manifest_json:
  assumes "valid_manifest m"
  shows "wf_json (manifest_json m)"
proof -
  have "wf_json (JObj (map (\<lambda>(k, a). (k, artifact_ref_json a)) (rm_artifacts m)))"
    "wf_json (limits_json (rm_budget_limits m))" "wf_json (JObj (rm_model_parameters m))"
    using assms by (simp_all only: valid_manifest_def valid_manifest_fields_def wf_artifacts_json wf_limits_json)
  then show ?thesis
    by (simp add: manifest_json_def less_char_def del: wf_json.simps(7)) (simp add: less_char_def)
qed

lemma wf_event_json:
  assumes "valid_event H e"
  shows "wf_json (event_json e)"
proof -
  have "wf_json (JObj (ev_payload e))" using assms by (simp only: valid_event_def valid_event_fields_def)
  then show ?thesis
    by (simp add: event_json_def less_char_def)
qed

lemma artifact_ref_json_inject [simp]: "artifact_ref_json a = artifact_ref_json b \<longleftrightarrow> a = b"
  by (cases a; cases b) (auto simp: artifact_ref_json_def)

lemma opt_json_inject:
  assumes "opt_json f x = opt_json f y" and "\<And>z. f z \<noteq> JNull"
    and "\<And>a b. x = Some a \<Longrightarrow> y = Some b \<Longrightarrow> f a = f b \<Longrightarrow> a = b"
  shows "x = y"
proof (cases "x = None \<or> y = None")
  case True
  with assms(1,2) show ?thesis by (cases x; cases y) (simp_all, metis)
next
  case False
  with assms(1,3) show ?thesis by (cases x; cases y) simp_all
qed

lemma opt_str_inject: "opt_json JStr x = opt_json JStr y \<Longrightarrow> x = y"
  by (rule opt_json_inject [of JStr]) auto

lemma opt_datetime_inject:
  "valid_opt valid_datetime x \<Longrightarrow> valid_opt valid_datetime y \<Longrightarrow>
     opt_json datetime_json x = opt_json datetime_json y \<Longrightarrow> x = y"
  by (rule opt_json_inject [of datetime_json]) (auto simp: valid_datetime_def intro: isoformat_inject)

lemma event_json_inject:
  assumes "valid_event H e" and "valid_event H f" and "event_json e = event_json f"
  shows "e = f"
proof -
  have "0 \<le> ev_occurred_at e" "0 \<le> ev_occurred_at f"
    using assms(1,2) by (simp_all add: valid_event_def valid_event_fields_def valid_datetime_def)
  moreover have "isoformat (ev_occurred_at e) = isoformat (ev_occurred_at f)"
    "map JStr (ev_causal_parent_ids e) = map JStr (ev_causal_parent_ids f)"
    "opt_json JStr (ev_previous_event_hash e) = opt_json JStr (ev_previous_event_hash f)"
    "ev_event_id e = ev_event_id f" "ev_event_type e = ev_event_type f"
    "ev_monotonic_ns e = ev_monotonic_ns f" "ev_payload e = ev_payload f"
    "ev_payload_sha256 e = ev_payload_sha256 f" "ev_run_id e = ev_run_id f"
    "ev_sequence e = ev_sequence f"
    using assms(3) by (simp_all add: event_json_def)
  moreover have "inj JStr" by (simp add: inj_def)
  ultimately show ?thesis
    by (auto intro!: event_record.equality isoformat_inject opt_str_inject dest: map_injective)
qed

lemma artifacts_json_inject:
  "map (\<lambda>(k, a). (k, artifact_ref_json a)) d = map (\<lambda>(k, a). (k, artifact_ref_json a)) e \<Longrightarrow> d = e"
  by (rule map_injective [rotated]) (auto simp: inj_def)

lemma manifest_json_inject:
  assumes "valid_manifest m" and "valid_manifest n" and "manifest_json m = manifest_json n"
  shows "m = n"
proof -
  have v: "0 \<le> rm_created_at m" "0 \<le> rm_created_at n"
    "valid_opt valid_datetime (rm_started_at m)" "valid_opt valid_datetime (rm_started_at n)"
    "valid_opt valid_datetime (rm_finished_at m)" "valid_opt valid_datetime (rm_finished_at n)"
    "valid_limits (rm_budget_limits m)" "valid_limits (rm_budget_limits n)"
    using assms(1,2) by (simp_all add: valid_manifest_def valid_manifest_fields_def valid_datetime_def)
  have eq: "map (\<lambda>(k, a). (k, artifact_ref_json a)) (rm_artifacts m)
      = map (\<lambda>(k, a). (k, artifact_ref_json a)) (rm_artifacts n)"
    "limits_dict (rm_budget_limits m) = limits_dict (rm_budget_limits n)"
    "rm_candidate_id m = rm_candidate_id n" "rm_code_revision m = rm_code_revision n"
    "isoformat (rm_created_at m) = isoformat (rm_created_at n)"
    "rm_environment_digest m = rm_environment_digest n" "rm_experiment_id m = rm_experiment_id n"
    "opt_json datetime_json (rm_finished_at m) = opt_json datetime_json (rm_finished_at n)"
    "opt_json JStr (rm_genome_hash m) = opt_json JStr (rm_genome_hash n)"
    "rm_model_parameters m = rm_model_parameters n" "rm_requested_model m = rm_requested_model n"
    "opt_json JStr (rm_returned_model m) = opt_json JStr (rm_returned_model n)"
    "rm_run_id m = rm_run_id n" "rm_seed m = rm_seed n"
    "opt_json datetime_json (rm_started_at m) = opt_json datetime_json (rm_started_at n)"
    "rm_status m = rm_status n" "rm_task_id m = rm_task_id n"
    "opt_json JStr (rm_terminal_reason m) = opt_json JStr (rm_terminal_reason n)"
    using assms(3) by (simp_all add: manifest_json_def)
  have "rm_created_at m = rm_created_at n" using isoformat_inject v(1,2) eq(5) by blast
  moreover have "rm_started_at m = rm_started_at n" "rm_finished_at m = rm_finished_at n"
    using opt_datetime_inject v eq(8,15) by blast+
  moreover have "rm_budget_limits m = rm_budget_limits n" using limits_dict_inject v(7,8) eq(2) by blast
  moreover have "rm_genome_hash m = rm_genome_hash n" "rm_returned_model m = rm_returned_model n"
    "rm_terminal_reason m = rm_terminal_reason n"
    using opt_str_inject eq(9,12,18) by blast+
  moreover have "rm_artifacts m = rm_artifacts n" using artifacts_json_inject eq(1) by blast
  ultimately show ?thesis
    using eq by (intro run_manifest.equality) simp_all
qed

section \<open>Manifest validation\<close>

lemma valid_nonempty_strip: "valid_nonempty_str s \<Longrightarrow> strip_whitespace s = s"
  by (simp add: valid_nonempty_str_def)

lemma valid_opt_strip: "valid_opt valid_nonempty_str x \<Longrightarrow> map_option strip_whitespace x = x"
  by (cases x) (simp_all add: valid_nonempty_strip)

lemma strip_manifest_valid: "valid_manifest_fields m \<Longrightarrow> strip_manifest m = m"
  by (simp add: strip_manifest_def valid_manifest_fields_def valid_nonempty_strip valid_opt_strip)

lemma validate_manifest_valid: "valid_manifest m \<Longrightarrow> validate_manifest m = Inr m"
  by (simp add: validate_manifest_def Let_def strip_manifest_valid valid_manifest_def)

lemma validate_manifest_Inr:
  "validate_manifest m = Inr m' \<Longrightarrow> valid_manifest m' \<and> m' = strip_manifest m"
  by (auto simp: validate_manifest_def Let_def split: if_splits)

end
