(* ===== verification/Budget_Records.thy ===== *)
theory Budget_Records
  imports Domain
begin

text \<open>
  The budget records of \<open>domain/models.py\<close> as they travel through event payloads. The validation of a JSON object
  (\<open>usage_of_dict\<close>, \<open>limits_of_dict\<close>) is compared with a relation that says which objects stand for a record,
  and with the bounds of the fields written out.
\<close>

section \<open>Which objects stand for a record\<close>

text \<open>A value in an object stands for a value in a dump if it is that value, or an integer whose float it is.\<close>

definition same_number :: "json \<Rightarrow> json \<Rightarrow> bool" where
  "same_number j v =
     (case (j, v) of (JInt i, JFloat x) \<Rightarrow> 0 \<le> i \<and> to_float (of_int i) = Some x | _ \<Rightarrow> j = v)"

text \<open>An object stands for a dump if it has no other keys, each of its values stands for the value of the
  dump, and where it has no value the dump has one of the given defaults.\<close>

definition denotes :: "json list \<Rightarrow> json dict \<Rightarrow> json dict \<Rightarrow> bool" where
  "denotes defaults d full =
     (list_all (\<lambda>(k, _). k \<in> set (map fst full)) d
      \<and> list_all (\<lambda>(k, v). case map_of d k of None \<Rightarrow> v \<in> set defaults | Some j \<Rightarrow> same_number j v) full)"

definition usage_bounds :: "budget_usage \<Rightarrow> bool" where
  "usage_bounds u =
     (list_all ((\<le>) 0) [uncached_input_tokens u, cache_read_input_tokens u, cache_write_input_tokens u,
        output_tokens u, reasoning_tokens u, model_calls u, model_retries u, tool_calls u]
      \<and> list_all (\<lambda>x. 0 \<le> x \<and> to_float x = Some x)
        [tool_cpu_seconds u, container_wall_seconds u, elapsed_seconds u, estimated_cost_usd u]
      \<and> reasoning_tokens u \<le> output_tokens u)"

definition limit_bounds :: "budget_limits \<Rightarrow> bool" where
  "limit_bounds l =
     (list_all (\<lambda>x. x = None \<or> 0 \<le> the x)
        [max_input_tokens l, max_output_tokens l, max_total_tokens l, max_model_calls l, max_model_retries l, max_tool_calls l]
      \<and> list_all (\<lambda>x. x = None \<or> 0 \<le> the x \<and> to_float (the x) = x)
        [max_tool_cpu_seconds l, max_container_wall_seconds l, max_elapsed_seconds l, max_estimated_cost_usd l])"

section \<open>Fields\<close>

lemma int_to_float_nonneg: "to_float (of_int i) = Some x \<Longrightarrow> 0 \<le> i \<Longrightarrow> 0 \<le> x"
  using to_float_nonneg [of "of_int i" x] by simp

lemma int_field_reads:
  "field_or 0 strict_nonneg_int d k = Inr a \<longleftrightarrow>
     0 \<le> a \<and> (case map_of d k of None \<Rightarrow> a = 0 | Some j \<Rightarrow> same_number j (JInt a))"
  by (auto simp: field_or_def strict_nonneg_int_def same_number_def of_option_def
      split: option.splits json.splits if_splits)

lemma float_field_reads:
  "field_or 0 strict_nonneg_float d k = Inr x \<longleftrightarrow>
     valid_nonneg_float x \<and> (case map_of d k of None \<Rightarrow> x = 0 | Some j \<Rightarrow> same_number j (JFloat x))"
  by (auto simp: field_or_def strict_nonneg_float_def same_number_def of_option_def valid_nonneg_float_def
      to_float_is_float dest: int_to_float_nonneg split: option.splits json.splits if_splits)

lemma int_limit_reads:
  "field_or None (nullable strict_nonneg_int) d k = Inr a \<longleftrightarrow>
     valid_opt ((\<le>) 0) a
     \<and> (case map_of d k of None \<Rightarrow> a = None | Some j \<Rightarrow> same_number j (opt_json JInt a))"
  by (cases a) (auto simp: field_or_def nullable_def strict_nonneg_int_def same_number_def of_option_def
      split: option.splits json.splits if_splits)

lemma float_limit_reads:
  "field_or None (nullable strict_nonneg_float) d k = Inr x \<longleftrightarrow>
     valid_opt valid_nonneg_float x
     \<and> (case map_of d k of None \<Rightarrow> x = None | Some j \<Rightarrow> same_number j (opt_json JFloat x))"
  by (cases x) (auto simp: field_or_def nullable_def strict_nonneg_float_def same_number_def of_option_def
      valid_nonneg_float_def to_float_is_float dest: int_to_float_nonneg split: option.splits json.splits if_splits)

lemma schema_version_reads:
  "schema_version_ok d \<longleftrightarrow>
     (case map_of d ''schema_version'' of None \<Rightarrow> True | Some j \<Rightarrow> same_number j schema_version_json)"
  by (auto simp: schema_version_ok_def same_number_def split: option.splits json.splits)

lemma usage_of_dict_Inr:
  "usage_of_dict d = Inr u \<longleftrightarrow>
     list_all (\<lambda>(k, _). k \<in> set usage_keys) d \<and> schema_version_ok d \<and> valid_usage u
     \<and> field_or 0 strict_nonneg_int d ''uncached_input_tokens'' = Inr (uncached_input_tokens u)
     \<and> field_or 0 strict_nonneg_int d ''cache_read_input_tokens'' = Inr (cache_read_input_tokens u)
     \<and> field_or 0 strict_nonneg_int d ''cache_write_input_tokens'' = Inr (cache_write_input_tokens u)
     \<and> field_or 0 strict_nonneg_int d ''output_tokens'' = Inr (output_tokens u)
     \<and> field_or 0 strict_nonneg_int d ''reasoning_tokens'' = Inr (reasoning_tokens u)
     \<and> field_or 0 strict_nonneg_int d ''model_calls'' = Inr (model_calls u)
     \<and> field_or 0 strict_nonneg_int d ''model_retries'' = Inr (model_retries u)
     \<and> field_or 0 strict_nonneg_int d ''tool_calls'' = Inr (tool_calls u)
     \<and> field_or 0 strict_nonneg_float d ''tool_cpu_seconds'' = Inr (tool_cpu_seconds u)
     \<and> field_or 0 strict_nonneg_float d ''container_wall_seconds'' = Inr (container_wall_seconds u)
     \<and> field_or 0 strict_nonneg_float d ''elapsed_seconds'' = Inr (elapsed_seconds u)
     \<and> field_or 0 strict_nonneg_float d ''estimated_cost_usd'' = Inr (estimated_cost_usd u)"
  by (cases u) (auto simp: usage_of_dict_def Let_def result_simps case_prod_unfold)

lemma limits_of_dict_Inr:
  "limits_of_dict d = Inr l \<longleftrightarrow>
     list_all (\<lambda>(k, _). k \<in> set limits_keys) d \<and> schema_version_ok d
     \<and> field_or None (nullable strict_nonneg_int) d ''max_input_tokens'' = Inr (max_input_tokens l)
     \<and> field_or None (nullable strict_nonneg_int) d ''max_output_tokens'' = Inr (max_output_tokens l)
     \<and> field_or None (nullable strict_nonneg_int) d ''max_total_tokens'' = Inr (max_total_tokens l)
     \<and> field_or None (nullable strict_nonneg_int) d ''max_model_calls'' = Inr (max_model_calls l)
     \<and> field_or None (nullable strict_nonneg_int) d ''max_model_retries'' = Inr (max_model_retries l)
     \<and> field_or None (nullable strict_nonneg_int) d ''max_tool_calls'' = Inr (max_tool_calls l)
     \<and> field_or None (nullable strict_nonneg_float) d ''max_tool_cpu_seconds'' = Inr (max_tool_cpu_seconds l)
     \<and> field_or None (nullable strict_nonneg_float) d ''max_container_wall_seconds'' = Inr (max_container_wall_seconds l)
     \<and> field_or None (nullable strict_nonneg_float) d ''max_elapsed_seconds'' = Inr (max_elapsed_seconds l)
     \<and> field_or None (nullable strict_nonneg_float) d ''max_estimated_cost_usd'' = Inr (max_estimated_cost_usd l)"
  by (cases l) (auto simp: limits_of_dict_def Let_def result_simps case_prod_unfold)

section \<open>The validation is exact\<close>

lemma usage_bounds_valid: "usage_bounds u \<longleftrightarrow> valid_usage u"
  by (auto simp: usage_bounds_def valid_usage_def valid_usage_fields_def valid_nonneg_float_def
      reasoning_is_output_subset_def is_float_def)

lemma limit_bounds_valid: "limit_bounds l \<longleftrightarrow> valid_limits l"
  by (cases l) (auto simp: limit_bounds_def valid_limits_def valid_opt_def valid_nonneg_float_def is_float_def
      split: option.splits)

lemma usage_keys_dict: "map fst (usage_dict u) = usage_keys"
  by (simp add: usage_dict_def usage_keys_def)

lemma limits_keys_dict: "map fst (limits_dict l) = limits_keys"
  by (simp add: limits_dict_def limits_keys_def)

lemma usage_of_dict_reads:
  "usage_of_dict d = Inr u \<longleftrightarrow>
     usage_bounds u \<and> denotes [JInt 0, JFloat 0, JStr ''0.1''] d (usage_dict u)"
proof (cases "valid_usage u")
  case True
  then have b: "0 \<le> uncached_input_tokens u" "0 \<le> cache_read_input_tokens u" "0 \<le> cache_write_input_tokens u"
    "0 \<le> output_tokens u" "0 \<le> reasoning_tokens u" "0 \<le> model_calls u" "0 \<le> model_retries u" "0 \<le> tool_calls u"
    "valid_nonneg_float (tool_cpu_seconds u)" "valid_nonneg_float (container_wall_seconds u)"
    "valid_nonneg_float (elapsed_seconds u)" "valid_nonneg_float (estimated_cost_usd u)"
    by (simp_all only: valid_usage_def valid_usage_fields_def)
  show ?thesis
    unfolding usage_of_dict_Inr usage_bounds_valid denotes_def usage_keys_dict int_field_reads float_field_reads
      schema_version_reads
    by (simp add: usage_dict_def True b conj_ac cong: option.case_cong)
next
  case False
  then show ?thesis by (simp add: usage_bounds_valid usage_of_dict_Inr)
qed

lemma opt_json_default [simp]:
  "opt_json JInt x = JNull \<longleftrightarrow> x = None" "opt_json JFloat y = JNull \<longleftrightarrow> y = None"
  "opt_json JInt x \<noteq> JStr s" "opt_json JFloat y \<noteq> JStr s"
  by (simp_all add: opt_json_def split: option.split)

lemma limits_of_dict_reads:
  "limits_of_dict d = Inr l \<longleftrightarrow>
     limit_bounds l \<and> denotes [JNull, JStr ''0.1''] d (limits_dict l)"
  unfolding limits_of_dict_Inr limit_bounds_valid valid_limits_def denotes_def limits_keys_dict int_limit_reads
    float_limit_reads schema_version_reads
  by (simp add: limits_dict_def conj_ac cong: option.case_cong)

lemma same_number_refl [simp]: "same_number j j \<longleftrightarrow> True"
  by (cases j) (simp_all add: same_number_def)

lemma denotes_refl: "distinct (map fst d) \<Longrightarrow> denotes defaults d d"
  by (auto simp: denotes_def list_all_iff image_iff intro: rev_bexI)

text \<open>Whatever the object, the only error is \<^const>\<open>ValidationError\<close>.\<close>

lemma validation_rbind:
  "x \<in> insert (Inl ValidationError) (range Inr) \<Longrightarrow>
     (\<And>a. f a \<in> insert (Inl ValidationError) (range Inr)) \<Longrightarrow>
     rbind x f \<in> insert (Inl ValidationError) (range Inr)"
  by (cases x) auto

lemma validation_if:
  "x \<in> insert (Inl ValidationError) (range Inr) \<Longrightarrow>
     (if b then Inl ValidationError else x) \<in> insert (Inl ValidationError) (range Inr)"
  by simp

lemma field_or_errors: "field_or dflt conv d k \<in> insert (Inl ValidationError) (range Inr)"
  by (auto simp: field_or_def of_option_def split: option.split)

lemma validate_usage_errors: "validate_usage u \<in> insert (Inl ValidationError) (range Inr)"
  by (simp add: validate_usage_def)

lemma budget_record_errors:
  "usage_of_dict d \<in> insert (Inl ValidationError) (range Inr)"
  "limits_of_dict d \<in> insert (Inl ValidationError) (range Inr)"
  unfolding usage_of_dict_def limits_of_dict_def Let_def
  by (rule validation_if, intro validation_rbind field_or_errors validate_usage_errors insertI2 rangeI)+

text \<open>C18: the validation of a budget record in an event payload is exact. A JSON object validates as a usage, or
  as limits, if and only if the record meets the bounds of its fields (counts are nonnegative,
  amounts are nonnegative finite floats, reasoning tokens are a part of the output tokens) and the
  object stands for it: it has no unknown key, every value it has is the value of the record,
  possibly written as an integer, and what it leaves out is zero, unlimited, or the schema
  version. So exactly the records within the bounds survive the trip through a payload, and every
  other object is refused with a validation error.\<close>

theorem budget_records_exact:
  "(usage_of_dict d = Inr u \<longleftrightarrow> usage_bounds u \<and> denotes [JInt 0, JFloat 0, JStr ''0.1''] d (usage_dict u))
   \<and> (limits_of_dict d = Inr l \<longleftrightarrow> limit_bounds l \<and> denotes [JNull, JStr ''0.1''] d (limits_dict l))
   \<and> (usage_of_dict (usage_dict u) = Inr u \<longleftrightarrow> usage_bounds u)
   \<and> (limits_of_dict (limits_dict l) = Inr l \<longleftrightarrow> limit_bounds l)
   \<and> usage_of_dict d \<in> insert (Inl ValidationError) (range Inr)
   \<and> limits_of_dict d \<in> insert (Inl ValidationError) (range Inr)"
proof -
  have "denotes ds (usage_dict u) (usage_dict u)" "denotes ds (limits_dict l) (limits_dict l)" for ds
    by (simp_all add: denotes_refl usage_keys_dict limits_keys_dict usage_keys_def limits_keys_def)
  then show ?thesis
    using budget_record_errors [of d] by (simp only: usage_of_dict_reads limits_of_dict_reads simp_thms)
qed

text \<open>An integer stands for its float, and reasoning tokens may not exceed the output tokens.\<close>

theorem budget_records_exact_witness:
  "usage_of_dict [(''elapsed_seconds'', JInt 2)] = Inr (empty_usage\<lparr>elapsed_seconds := 2\<rparr>)
   \<and> usage_of_dict [(''output_tokens'', JInt 1), (''reasoning_tokens'', JInt 2)] = Inl ValidationError"
proof -
  let ?u = "empty_usage\<lparr>elapsed_seconds := 2\<rparr>" and ?d = "[(''output_tokens'', JInt 1), (''reasoning_tokens'', JInt 2)]"
  have "usage_bounds ?u" "denotes [JInt 0, JFloat 0, JStr ''0.1''] [(''elapsed_seconds'', JInt 2)] (usage_dict ?u)"
    by code_simp+
  moreover have "usage_of_dict ?d \<noteq> Inr u" for u
  proof
    assume "usage_of_dict ?d = Inr u"
    then have "usage_bounds u" "denotes [JInt 0, JFloat 0, JStr ''0.1''] ?d (usage_dict u)"
      using budget_records_exact [of ?d u] by blast+
    then show False by (simp add: usage_bounds_def denotes_def usage_dict_def same_number_def)
  qed
  ultimately show ?thesis
    using budget_records_exact [of "[(''elapsed_seconds'', JInt 2)]" ?u] budget_records_exact [of ?d] by blast
qed

end
