(* ===== verification/Usage.thy ===== *)
theory Usage
  imports Domain
begin

text \<open>
  The arithmetic on \<open>BudgetUsage\<close> values that \<open>runtime/budget.py\<close>, \<open>runtime/replay.py\<close> and
  \<open>storage/events.py\<close> share (the latter two repeat the same helper functions): field-wise sums
  over \<open>_USAGE_FIELDS\<close>, re-validated, field-wise differences and the field-wise order. Integer
  fields add exactly, float fields round; a float sum that leaves the finite range fails the
  validation.
\<close>

section \<open>Definitions\<close>

fun sum_floats :: "rat \<Rightarrow> rat list \<Rightarrow> rat option" where
  "sum_floats acc [] = Some acc"
| "sum_floats acc (x # xs) = (case fadd acc x of None \<Rightarrow> None | Some a \<Rightarrow> sum_floats a xs)"

definition sum_usage :: "budget_usage list \<Rightarrow> budget_usage result" where
  "sum_usage us =
     rbind (of_option ValidationError (sum_floats 0 (map tool_cpu_seconds us))) (\<lambda>a.
     rbind (of_option ValidationError (sum_floats 0 (map container_wall_seconds us))) (\<lambda>b.
     rbind (of_option ValidationError (sum_floats 0 (map elapsed_seconds us))) (\<lambda>c.
     rbind (of_option ValidationError (sum_floats 0 (map estimated_cost_usd us))) (\<lambda>d.
     validate_usage
       \<lparr>uncached_input_tokens = sum_list (map uncached_input_tokens us),
        cache_read_input_tokens = sum_list (map cache_read_input_tokens us),
        cache_write_input_tokens = sum_list (map cache_write_input_tokens us),
        output_tokens = sum_list (map output_tokens us),
        reasoning_tokens = sum_list (map reasoning_tokens us),
        model_calls = sum_list (map model_calls us),
        model_retries = sum_list (map model_retries us),
        tool_calls = sum_list (map tool_calls us),
        tool_cpu_seconds = a, container_wall_seconds = b, elapsed_seconds = c,
        estimated_cost_usd = d\<rparr>))))"

definition add_usage :: "budget_usage \<Rightarrow> budget_usage \<Rightarrow> budget_usage result" where
  "add_usage l r =
     rbind (of_option ValidationError (fadd (tool_cpu_seconds l) (tool_cpu_seconds r))) (\<lambda>a.
     rbind (of_option ValidationError (fadd (container_wall_seconds l) (container_wall_seconds r))) (\<lambda>b.
     rbind (of_option ValidationError (fadd (elapsed_seconds l) (elapsed_seconds r))) (\<lambda>c.
     rbind (of_option ValidationError (fadd (estimated_cost_usd l) (estimated_cost_usd r))) (\<lambda>d.
     validate_usage
       \<lparr>uncached_input_tokens = uncached_input_tokens l + uncached_input_tokens r,
        cache_read_input_tokens = cache_read_input_tokens l + cache_read_input_tokens r,
        cache_write_input_tokens = cache_write_input_tokens l + cache_write_input_tokens r,
        output_tokens = output_tokens l + output_tokens r,
        reasoning_tokens = reasoning_tokens l + reasoning_tokens r,
        model_calls = model_calls l + model_calls r,
        model_retries = model_retries l + model_retries r,
        tool_calls = tool_calls l + tool_calls r,
        tool_cpu_seconds = a, container_wall_seconds = b, elapsed_seconds = c,
        estimated_cost_usd = d\<rparr>))))"

text \<open>
  The differences. The float difference of two finite nonnegative floats is finite, so the
  missing case of \<^const>\<open>fsub\<close> never arises; a negative difference is the underflow the code
  raises \<open>integrity_error\<close> for.
\<close>

definition usage_differences :: "budget_usage \<Rightarrow> budget_usage \<Rightarrow> budget_usage option" where
  "usage_differences l r =
     (case (fsub (tool_cpu_seconds l) (tool_cpu_seconds r),
            fsub (container_wall_seconds l) (container_wall_seconds r),
            fsub (elapsed_seconds l) (elapsed_seconds r),
            fsub (estimated_cost_usd l) (estimated_cost_usd r)) of
        (Some a, Some b, Some c, Some d) \<Rightarrow> Some
          \<lparr>uncached_input_tokens = uncached_input_tokens l - uncached_input_tokens r,
           cache_read_input_tokens = cache_read_input_tokens l - cache_read_input_tokens r,
           cache_write_input_tokens = cache_write_input_tokens l - cache_write_input_tokens r,
           output_tokens = output_tokens l - output_tokens r,
           reasoning_tokens = reasoning_tokens l - reasoning_tokens r,
           model_calls = model_calls l - model_calls r,
           model_retries = model_retries l - model_retries r,
           tool_calls = tool_calls l - tool_calls r,
           tool_cpu_seconds = a, container_wall_seconds = b, elapsed_seconds = c,
           estimated_cost_usd = d\<rparr>
      | _ \<Rightarrow> None)"

definition usage_values_nonneg :: "budget_usage \<Rightarrow> bool" where
  "usage_values_nonneg u =
     (0 \<le> uncached_input_tokens u \<and> 0 \<le> cache_read_input_tokens u
      \<and> 0 \<le> cache_write_input_tokens u \<and> 0 \<le> output_tokens u \<and> 0 \<le> reasoning_tokens u
      \<and> 0 \<le> model_calls u \<and> 0 \<le> model_retries u \<and> 0 \<le> tool_calls u
      \<and> 0 \<le> tool_cpu_seconds u \<and> 0 \<le> container_wall_seconds u \<and> 0 \<le> elapsed_seconds u
      \<and> 0 \<le> estimated_cost_usd u)"

definition subtract_usage :: "exn \<Rightarrow> budget_usage \<Rightarrow> budget_usage \<Rightarrow> budget_usage result" where
  "subtract_usage integrity_error l r =
     (case usage_differences l r of
        None \<Rightarrow> Inl ValidationError
      | Some d \<Rightarrow> if \<not> usage_values_nonneg d then Inl integrity_error else validate_usage d)"

definition usage_at_most :: "budget_usage \<Rightarrow> budget_usage \<Rightarrow> bool" where
  "usage_at_most a c =
     (uncached_input_tokens a \<le> uncached_input_tokens c
      \<and> cache_read_input_tokens a \<le> cache_read_input_tokens c
      \<and> cache_write_input_tokens a \<le> cache_write_input_tokens c
      \<and> output_tokens a \<le> output_tokens c \<and> reasoning_tokens a \<le> reasoning_tokens c
      \<and> model_calls a \<le> model_calls c \<and> model_retries a \<le> model_retries c
      \<and> tool_calls a \<le> tool_calls c \<and> tool_cpu_seconds a \<le> tool_cpu_seconds c
      \<and> container_wall_seconds a \<le> container_wall_seconds c
      \<and> elapsed_seconds a \<le> elapsed_seconds c \<and> estimated_cost_usd a \<le> estimated_cost_usd c)"

section \<open>The order on usages\<close>

lemmas valid_usage_defs = valid_usage_def valid_usage_fields_def valid_nonneg_float_def reasoning_is_output_subset_def

lemma usage_at_most_refl [simp]: "usage_at_most u u"
  by (simp add: usage_at_most_def)

lemma usage_at_most_trans: "usage_at_most u v \<Longrightarrow> usage_at_most v w \<Longrightarrow> usage_at_most u w"
  by (auto simp: usage_at_most_def)

lemma usage_at_most_antisym: "usage_at_most u v \<Longrightarrow> usage_at_most v u \<Longrightarrow> u = v"
  by (auto simp: usage_at_most_def intro!: budget_usage.equality)

lemma empty_usage_least: "valid_usage u \<Longrightarrow> usage_at_most empty_usage u"
  by (simp add: usage_at_most_def empty_usage_def valid_usage_defs)

lemma cap_check_mono: "a \<le> b \<Longrightarrow> cap_check n b c = [] \<Longrightarrow> cap_check n a c = []"
  unfolding cap_check_Nil by (blast intro: order_trans)

lemma exceeded_limits_antimono:
  "usage_at_most u v \<Longrightarrow> exceeded_limits v l = [] \<Longrightarrow> exceeded_limits u l = []"
proof -
  assume le: "usage_at_most u v" and nil: "exceeded_limits v l = []"
  have "input_tokens u \<le> input_tokens v" "total_tokens u \<le> total_tokens v"
    using le unfolding input_tokens_def total_tokens_def usage_at_most_def by linarith+
  then show "exceeded_limits u l = []"
    using le nil unfolding exceeded_limits_def usage_at_most_def append_is_Nil_conv
    by (meson cap_check_mono)
qed

section \<open>Sums\<close>

lemma add_usage_valid: "add_usage l r = Inr u \<Longrightarrow> valid_usage u"
  by (auto simp: add_usage_def result_simps)

lemma add_usage_commute: "add_usage l r = add_usage r l"
  by (simp add: add_usage_def fadd_commute add.commute)

lemma add_usage_empty [simp]:
  assumes "valid_usage u"
  shows "add_usage u empty_usage = Inr u" "add_usage empty_usage u = Inr u"
proof -
  show "add_usage u empty_usage = Inr u"
    using assms by (simp add: add_usage_def empty_usage_def valid_usage_defs validate_usage_def)
  then show "add_usage empty_usage u = Inr u" by (simp add: add_usage_commute)
qed

text \<open>A sum of valid usages fails only by leaving the float range.\<close>

lemma add_usage_eq_Inr:
  assumes "valid_usage l" "valid_usage r"
  shows "add_usage l r = Inr u \<longleftrightarrow>
    fadd (tool_cpu_seconds l) (tool_cpu_seconds r) = Some (tool_cpu_seconds u)
    \<and> fadd (container_wall_seconds l) (container_wall_seconds r) = Some (container_wall_seconds u)
    \<and> fadd (elapsed_seconds l) (elapsed_seconds r) = Some (elapsed_seconds u)
    \<and> fadd (estimated_cost_usd l) (estimated_cost_usd r) = Some (estimated_cost_usd u)
    \<and> uncached_input_tokens u = uncached_input_tokens l + uncached_input_tokens r
    \<and> cache_read_input_tokens u = cache_read_input_tokens l + cache_read_input_tokens r
    \<and> cache_write_input_tokens u = cache_write_input_tokens l + cache_write_input_tokens r
    \<and> output_tokens u = output_tokens l + output_tokens r
    \<and> reasoning_tokens u = reasoning_tokens l + reasoning_tokens r
    \<and> model_calls u = model_calls l + model_calls r
    \<and> model_retries u = model_retries l + model_retries r
    \<and> tool_calls u = tool_calls l + tool_calls r"
    (is "_ \<longleftrightarrow> ?R")
proof
  assume "add_usage l r = Inr u"
  then show ?R by (auto simp: add_usage_def result_simps)
next
  assume R: ?R
  then have "valid_usage u"
    using assms fadd_is_float fadd_nonneg by (simp add: valid_usage_defs) (metis add_mono add_nonneg_nonneg)
  moreover have "add_usage l r = validate_usage u"
  proof -
    have "u = \<lparr>uncached_input_tokens = uncached_input_tokens l + uncached_input_tokens r,
        cache_read_input_tokens = cache_read_input_tokens l + cache_read_input_tokens r,
        cache_write_input_tokens = cache_write_input_tokens l + cache_write_input_tokens r,
        output_tokens = output_tokens l + output_tokens r,
        reasoning_tokens = reasoning_tokens l + reasoning_tokens r,
        model_calls = model_calls l + model_calls r,
        model_retries = model_retries l + model_retries r,
        tool_calls = tool_calls l + tool_calls r,
        tool_cpu_seconds = tool_cpu_seconds u, container_wall_seconds = container_wall_seconds u,
        elapsed_seconds = elapsed_seconds u, estimated_cost_usd = estimated_cost_usd u\<rparr>"
      using R by (intro budget_usage.equality) simp_all
    moreover from R have "fadd (tool_cpu_seconds l) (tool_cpu_seconds r) = Some (tool_cpu_seconds u)"
      "fadd (container_wall_seconds l) (container_wall_seconds r) = Some (container_wall_seconds u)"
      "fadd (elapsed_seconds l) (elapsed_seconds r) = Some (elapsed_seconds u)"
      "fadd (estimated_cost_usd l) (estimated_cost_usd r) = Some (estimated_cost_usd u)"
      by blast+
    ultimately show ?thesis by (simp add: add_usage_def)
  qed
  ultimately show "add_usage l r = Inr u"
    by (simp add: validate_usage_def)
qed

lemma add_usage_ge:
  assumes "valid_usage l" "valid_usage r" "add_usage l r = Inr u"
  shows "usage_at_most l u" "usage_at_most r u"
proof -
  have le: "usage_at_most a u" if "valid_usage a" "valid_usage b" "add_usage a b = Inr u" for a b
    using that unfolding add_usage_eq_Inr [OF that(1,2)] usage_at_most_def
    by (auto simp: valid_usage_defs intro: fadd_ge_left)
  show "usage_at_most l u" using le assms by blast
  show "usage_at_most r u" using le [of r l] assms by (simp add: add_usage_commute)
qed

lemma add_usage_mono:
  assumes v: "valid_usage a" "valid_usage b" "valid_usage a'" "valid_usage b'"
    and le: "usage_at_most a a'" "usage_at_most b b'" and sum: "add_usage a' b' = Inr c'"
  obtains c where "add_usage a b = Inr c" and "usage_at_most c c'"
proof -
  note sum' = sum [unfolded add_usage_eq_Inr [OF v(3,4)]]
  have fl: "\<exists>z. fadd (f a) (f b) = Some z \<and> z \<le> f c'"
    if "0 \<le> f a" "0 \<le> f b" "f a \<le> f a'" "f b \<le> f b'" "fadd (f a') (f b') = Some (f c')"
    for f :: "budget_usage \<Rightarrow> rat"
    using fadd_mono [OF that] by blast
  obtain w x y z where fs: "fadd (tool_cpu_seconds a) (tool_cpu_seconds b) = Some w" "w \<le> tool_cpu_seconds c'"
    "fadd (container_wall_seconds a) (container_wall_seconds b) = Some x" "x \<le> container_wall_seconds c'"
    "fadd (elapsed_seconds a) (elapsed_seconds b) = Some y" "y \<le> elapsed_seconds c'"
    "fadd (estimated_cost_usd a) (estimated_cost_usd b) = Some z" "z \<le> estimated_cost_usd c'"
    using v(1,2) le sum' fl [of tool_cpu_seconds] fl [of container_wall_seconds]
      fl [of elapsed_seconds] fl [of estimated_cost_usd]
    by (auto simp: valid_usage_defs usage_at_most_def)
  let ?c = "\<lparr>uncached_input_tokens = uncached_input_tokens a + uncached_input_tokens b,
    cache_read_input_tokens = cache_read_input_tokens a + cache_read_input_tokens b,
    cache_write_input_tokens = cache_write_input_tokens a + cache_write_input_tokens b,
    output_tokens = output_tokens a + output_tokens b,
    reasoning_tokens = reasoning_tokens a + reasoning_tokens b,
    model_calls = model_calls a + model_calls b, model_retries = model_retries a + model_retries b,
    tool_calls = tool_calls a + tool_calls b, tool_cpu_seconds = w, container_wall_seconds = x,
    elapsed_seconds = y, estimated_cost_usd = z\<rparr>"
  have "add_usage a b = Inr ?c"
    unfolding add_usage_eq_Inr [OF v(1,2)] using fs by simp
  moreover have "usage_at_most ?c c'"
    using le fs sum' by (auto simp: usage_at_most_def)
  ultimately show thesis by (rule that)
qed

text \<open>\<open>sum_usage\<close> adds the usages one after the other.\<close>

lemma sum_floats_snoc:
  "sum_floats a (xs @ [x]) = (case sum_floats a xs of None \<Rightarrow> None | Some b \<Rightarrow> fadd b x)"
  by (induction xs arbitrary: a) (auto split: option.split)

lemma sum_floats_valid:
  assumes "sum_floats a xs = Some x" "is_float a" "0 \<le> a" "\<And>y. y \<in> set xs \<Longrightarrow> is_float y \<and> 0 \<le> y"
  shows "is_float x \<and> 0 \<le> x"
  using assms
proof (induction xs arbitrary: a)
  case (Cons y xs)
  then obtain b where b: "fadd a y = Some b" "sum_floats b xs = Some x"
    by (auto split: option.splits)
  moreover have "0 \<le> y" using Cons.prems(4) by simp
  ultimately have "is_float b" "0 \<le> b"
    using fadd_is_float [OF b(1)] fadd_nonneg [OF Cons.prems(3) _ b(1)] by simp_all
  with Cons.IH [OF b(2)] Cons.prems(4) show ?case by simp
qed simp

lemma sum_usage_Nil [simp]: "sum_usage [] = Inr empty_usage"
  using valid_empty_usage by (simp add: sum_usage_def empty_usage_def validate_usage_def)

lemma sum_usage_valid: "sum_usage us = Inr u \<Longrightarrow> valid_usage u"
  by (auto simp: sum_usage_def result_simps)

lemma sum_usage_snoc:
  assumes "list_all valid_usage us" and "valid_usage u"
  shows "sum_usage (us @ [u]) = rbind (sum_usage us) (\<lambda>s. add_usage s u)"
proof (cases "sum_usage us")
  case (Inr s)
  then have "valid_usage s" by (rule sum_usage_valid)
  from Inr have "sum_floats 0 (map tool_cpu_seconds us) = Some (tool_cpu_seconds s)"
    "sum_floats 0 (map container_wall_seconds us) = Some (container_wall_seconds s)"
    "sum_floats 0 (map elapsed_seconds us) = Some (elapsed_seconds s)"
    "sum_floats 0 (map estimated_cost_usd us) = Some (estimated_cost_usd s)"
    "sum_list (map uncached_input_tokens us) = uncached_input_tokens s"
    "sum_list (map cache_read_input_tokens us) = cache_read_input_tokens s"
    "sum_list (map cache_write_input_tokens us) = cache_write_input_tokens s"
    "sum_list (map output_tokens us) = output_tokens s"
    "sum_list (map reasoning_tokens us) = reasoning_tokens s"
    "sum_list (map model_calls us) = model_calls s"
    "sum_list (map model_retries us) = model_retries s"
    "sum_list (map tool_calls us) = tool_calls s"
    by (auto simp: sum_usage_def result_simps)
  then show ?thesis
    unfolding Inr rbind_simps by (simp add: sum_usage_def add_usage_def sum_floats_snoc)
next
  case (Inl e)
  have ints: "0 \<le> sum_list (map f us)" if "\<And>v. valid_usage v \<Longrightarrow> 0 \<le> f v" for f :: "budget_usage \<Rightarrow> int"
    using assms(1) that by (intro sum_list_nonneg) (auto simp: list_all_iff)
  have floats: "is_float x \<and> 0 \<le> x"
    if "sum_floats 0 (map f us) = Some x" "\<And>v. valid_usage v \<Longrightarrow> is_float (f v) \<and> 0 \<le> f v"
    for f :: "budget_usage \<Rightarrow> rat" and x
    using sum_floats_valid [of 0 "map f us" x] that assms(1) by (auto simp: list_all_iff)
  have sub: "sum_list (map reasoning_tokens us) \<le> sum_list (map output_tokens us)"
    using assms(1) by (intro sum_list_mono) (auto simp: list_all_iff valid_usage_defs)
  have e: "e = ValidationError \<and> (sum_floats 0 (map tool_cpu_seconds us) = None
    \<or> sum_floats 0 (map container_wall_seconds us) = None
    \<or> sum_floats 0 (map elapsed_seconds us) = None \<or> sum_floats 0 (map estimated_cost_usd us) = None)"
  proof (rule ccontr)
    assume neg: "\<not> ?thesis"
    from Inl have "e = ValidationError"
      by (auto simp: sum_usage_def of_option_def validate_usage_def rbind_def split: option.splits if_splits)
    with neg obtain a b c d where some: "sum_floats 0 (map tool_cpu_seconds us) = Some a"
      "sum_floats 0 (map container_wall_seconds us) = Some b"
      "sum_floats 0 (map elapsed_seconds us) = Some c" "sum_floats 0 (map estimated_cost_usd us) = Some d"
      by auto
    have "valid_nonneg_float a" "valid_nonneg_float b" "valid_nonneg_float c" "valid_nonneg_float d"
      using floats [OF some(1)] floats [OF some(2)] floats [OF some(3)] floats [OF some(4)]
      by (simp_all add: valid_usage_defs)
    with some Inl sub show False
      by (simp add: sum_usage_def validate_usage_def valid_usage_def valid_usage_fields_def
          reasoning_is_output_subset_def ints split: if_splits)
        (auto simp: valid_usage_defs intro!: ints)
  qed
  then show ?thesis
    using Inl by (auto simp: sum_usage_def sum_floats_snoc of_option_def rbind_def split: option.splits)
qed

lemma sum_usage_two:
  assumes "valid_usage a" "valid_usage b"
  shows "sum_usage [a, b] = add_usage a b"
  using assms sum_usage_snoc [of "[a]" b] sum_usage_snoc [of "[]" a] by simp

lemma sum_usage_three:
  assumes "valid_usage a" "valid_usage b" "valid_usage c"
  shows "sum_usage [a, b, c] = rbind (add_usage a b) (\<lambda>s. add_usage s c)"
  using assms sum_usage_snoc [of "[a, b]" c] by (simp add: sum_usage_two)

section \<open>Differences\<close>

lemma subtract_usage_self [simp]: "subtract_usage e u u = Inr empty_usage"
  using valid_empty_usage
  by (simp add: subtract_usage_def usage_differences_def usage_values_nonneg_def empty_usage_def validate_usage_def)

lemma subtract_usage_valid: "subtract_usage e u v = Inr w \<Longrightarrow> valid_usage w"
  by (auto simp: subtract_usage_def result_simps split: option.splits if_splits)

end
