(* ===== verification/Budget.thy ===== *)
theory Budget
  imports Usage
begin

text \<open>
  Model of \<open>src/src/guildmind/runtime/budget.py\<close>: the budget authority that reserves a
  conservative maximum before work is dispatched and reconciles the reported usage afterwards.
  The reservations dictionary is an association list in insertion order, the order in which
  \<open>reserved\<close> sums the float fields.

  The integer dimensions share one argument, so it is a locale: a dimension of the usage that
  adds exactly, is monotone and is checked against its cap stays within the cap over every
  sequence of calls. Float dimensions round, so the same holds for them only while reservations do
  not overlap.
\<close>

section \<open>Definitions\<close>

record budget_authority =
  ba_limits :: budget_limits
  ba_used :: budget_usage
  ba_reservations :: "(string \<times> budget_usage) list"

definition BudgetAuthority :: "budget_limits \<Rightarrow> budget_authority" where
  "BudgetAuthority limits = \<lparr>ba_limits = limits, ba_used = empty_usage, ba_reservations = []\<rparr>"

definition reserved :: "budget_authority \<Rightarrow> budget_usage result" where
  "reserved a = sum_usage (map snd (ba_reservations a))"

definition reservation_ids :: "budget_authority \<Rightarrow> string list" where
  "reservation_ids a = sort (map fst (ba_reservations a))"

definition reserve :: "string \<Rightarrow> budget_usage \<Rightarrow> (budget_authority, unit) op" where
  "reserve reservation_id maximum =
     sthen (sguard (reservation_id \<noteq> []) ValueError)
     (sthen (sread (\<lambda>a. require (map_of (ba_reservations a) reservation_id = None) ValueError))
     (sbind (sread reserved) (\<lambda>res.
      sbind (sread (\<lambda>a. sum_usage [ba_used a, res, maximum])) (\<lambda>projected.
      sbind (sget (\<lambda>a. exceeded_limits projected (ba_limits a))) (\<lambda>exceeded.
      sthen (sguard (exceeded = []) (BudgetExceededError exceeded))
      (smodify (\<lambda>a. a\<lparr>ba_reservations := ba_reservations a @ [(reservation_id, maximum)]\<rparr>)))))))"

fun drop_key :: "string \<Rightarrow> (string \<times> 'a) list \<Rightarrow> (string \<times> 'a) list" where
  "drop_key k [] = []"
| "drop_key k ((k', v) # d) = (if k' = k then d else (k', v) # drop_key k d)"

definition reconcile :: "string \<Rightarrow> budget_usage \<Rightarrow> (budget_authority, unit) op" where
  "reconcile reservation_id actual =
     sbind (sread (\<lambda>a. of_option KeyError (map_of (ba_reservations a) reservation_id))) (\<lambda>maximum.
     sthen (sguard (usage_at_most actual maximum) ReservationExceededError)
     (sbind (sread (\<lambda>a. sum_usage [ba_used a, actual])) (\<lambda>used.
      smodify (\<lambda>a. a\<lparr>ba_used := used,
        ba_reservations := drop_key reservation_id (ba_reservations a)\<rparr>))))"

definition release :: "string \<Rightarrow> (budget_authority, unit) op" where
  "release reservation_id =
     sbind (sread (\<lambda>a. of_option KeyError (map_of (ba_reservations a) reservation_id))) (\<lambda>_.
     smodify (\<lambda>a. a\<lparr>ba_reservations := drop_key reservation_id (ba_reservations a)\<rparr>))"

text \<open>
  A caller's view: the public calls, and what a sequence of them leaves behind when the caller
  catches the exceptions.
\<close>

datatype budget_call =
    Reserve string budget_usage
  | Reconcile string budget_usage
  | Release string

fun perform :: "budget_call \<Rightarrow> (budget_authority, unit) op" where
  "perform (Reserve i m) = reserve i m"
| "perform (Reconcile i u) = reconcile i u"
| "perform (Release i) = release i"

fun call_valid :: "budget_call \<Rightarrow> bool" where
  "call_valid (Reserve i m) = valid_usage m"
| "call_valid (Reconcile i u) = valid_usage u"
| "call_valid (Release i) = True"

definition calls :: "budget_call list \<Rightarrow> budget_authority \<Rightarrow> budget_authority" where
  "calls cs a = fold (\<lambda>c a. snd (perform c a)) cs a"

definition authority_ok :: "budget_authority \<Rightarrow> bool" where
  "authority_ok a =
     (valid_usage (ba_used a) \<and> list_all (\<lambda>kv. valid_usage (snd kv)) (ba_reservations a)
      \<and> distinct (map fst (ba_reservations a)))"

section \<open>Single calls\<close>

lemma drop_key_subset: "set (drop_key k d) \<subseteq> set d"
  by (induction d) (auto split: if_splits)

lemma drop_key_distinct:
  "distinct (map fst d) \<Longrightarrow> distinct (map fst (drop_key k d)) \<and> k \<notin> fst ` set (drop_key k d)"
proof (induction d)
  case (Cons x d)
  have "fst ` set (drop_key k d) \<subseteq> fst ` set d" using drop_key_subset by (rule image_mono)
  with Cons show ?case by (cases x) auto
qed simp

lemma drop_key_sum:
  "map_of d k = Some v \<Longrightarrow> sum_list (map (f \<circ> snd) d) = f v + sum_list (map (f \<circ> snd) (drop_key k d))"
  for f :: "'a \<Rightarrow> int"
  by (induction d) (auto split: if_splits)

lemma drop_key_snoc: "map_of d k = None \<Longrightarrow> drop_key k (d @ [(k, v)]) = d"
  by (induction d) (auto split: if_splits)

lemma reserve_Inr:
  "reserve i m a = (Inr u, b) \<longleftrightarrow> i \<noteq> [] \<and> map_of (ba_reservations a) i = None
     \<and> (\<exists>r p. reserved a = Inr r \<and> sum_usage [ba_used a, r, m] = Inr p
          \<and> exceeded_limits p (ba_limits a) = [])
     \<and> b = a\<lparr>ba_reservations := ba_reservations a @ [(i, m)]\<rparr>"
  by (auto simp: reserve_def result_simps)

lemma reconcile_Inr:
  "reconcile i u a = (Inr v, b) \<longleftrightarrow> (\<exists>m w. map_of (ba_reservations a) i = Some m \<and> usage_at_most u m
     \<and> sum_usage [ba_used a, u] = Inr w
     \<and> b = a\<lparr>ba_used := w, ba_reservations := drop_key i (ba_reservations a)\<rparr>)"
  by (auto simp: reconcile_def result_simps)

lemma release_Inr:
  "release i a = (Inr v, b) \<longleftrightarrow> (\<exists>m. map_of (ba_reservations a) i = Some m)
     \<and> b = a\<lparr>ba_reservations := drop_key i (ba_reservations a)\<rparr>"
  by (auto simp: release_def result_simps)

lemmas perform_Inr = reserve_Inr reconcile_Inr release_Inr

lemma perform_Inl: "perform c a = (Inl e, b) \<Longrightarrow> b = a"
  by (cases c) (auto simp: reserve_def reconcile_def release_def raise_simps result_simps)

text \<open>So a call either raises and leaves the authority as it was, or has the effect above.\<close>

lemma perform_cases [case_names raises returns]:
  obtains e where "perform c a = (Inl e, a)" "snd (perform c a) = a"
  | b where "perform c a = (Inr (), b)" "snd (perform c a) = b"
proof (cases "perform c a")
  case (Pair r b)
  then show thesis
    using that perform_Inl [of c a] by (cases r) (auto simp: Pair)
qed

lemma perform_ok:
  assumes "authority_ok a" and "call_valid c"
  shows "authority_ok (snd (perform c a))"
proof (cases rule: perform_cases [of c a])
  case (returns b)
  note drop = drop_key_subset [of _ "ba_reservations a"] drop_key_distinct [of "ba_reservations a"]
  show ?thesis
  proof (cases c)
    case (Reserve i m)
    with returns(1) assms show ?thesis
      unfolding returns(2) by (auto simp: authority_ok_def perform_Inr map_of_eq_None_iff)
  next
    case (Reconcile i u)
    with returns(1) assms drop [of i] show ?thesis
      unfolding returns(2) by (auto simp: authority_ok_def perform_Inr list_all_iff sum_usage_valid)
  next
    case (Release i)
    with returns(1) assms drop [of i] show ?thesis
      unfolding returns(2) by (auto simp: authority_ok_def perform_Inr list_all_iff)
  qed
qed (use assms in simp)

lemma perform_limits: "ba_limits (snd (perform c a)) = ba_limits a"
proof (cases rule: perform_cases [of c a])
  case (returns b)
  show ?thesis unfolding returns(2) using returns(1) by (cases c) (auto simp: perform_Inr)
qed simp

lemma calls_invariant:
  assumes "P a" and "list_all call_valid cs"
    and "\<And>c b. P b \<Longrightarrow> call_valid c \<Longrightarrow> P (snd (perform c b))"
  shows "P (calls cs a)"
  using assms by (induction cs arbitrary: a) (auto simp: calls_def)

lemma calls_ok: "authority_ok a \<Longrightarrow> list_all call_valid cs \<Longrightarrow> authority_ok (calls cs a)"
  using calls_invariant [of authority_ok] perform_ok by blast

lemma BudgetAuthority_ok [simp]: "authority_ok (BudgetAuthority l)"
  by (simp add: authority_ok_def BudgetAuthority_def)

lemma reserved_valid: "reserved a = Inr r \<Longrightarrow> valid_usage r"
  by (auto simp: reserved_def sum_usage_valid)

section \<open>Exact dimensions\<close>

locale capped_dimension =
  fixes dim :: "budget_usage \<Rightarrow> int" and cap :: "budget_limits \<Rightarrow> int option"
  assumes dim_empty: "dim empty_usage = 0"
    and dim_nonneg: "valid_usage u \<Longrightarrow> 0 \<le> dim u"
    and dim_add: "add_usage u v = Inr w \<Longrightarrow> dim w = dim u + dim v"
    and dim_mono: "usage_at_most u v \<Longrightarrow> dim u \<le> dim v"
    and dim_capped: "exceeded_limits u l = [] \<Longrightarrow> cap l = Some c \<Longrightarrow> dim u \<le> c"
begin

definition committed :: "budget_authority \<Rightarrow> int" where
  "committed a = dim (ba_used a) + sum_list (map (dim \<circ> snd) (ba_reservations a))"

lemma dim_sum:
  "list_all valid_usage us \<Longrightarrow> sum_usage us = Inr s \<Longrightarrow> dim s = sum_list (map dim us)"
proof (induction us arbitrary: s rule: rev_induct)
  case (snoc u us)
  then obtain t where "sum_usage us = Inr t" "add_usage t u = Inr s"
    by (auto simp: sum_usage_snoc result_simps)
  with snoc show ?case by (simp add: dim_add)
qed (use dim_empty in auto)

lemma perform_within_cap:
  assumes ok: "authority_ok a" "call_valid c" and cap: "cap (ba_limits a) = Some k"
    and le: "committed a \<le> k"
  shows "committed (snd (perform c a)) \<le> k"
proof (cases rule: perform_cases [of c a])
  case (raises e)
  with le show ?thesis by simp
next
  case (returns b)
  have v: "list_all valid_usage (map snd (ba_reservations a))" "valid_usage (ba_used a)"
    using ok(1) by (auto simp: authority_ok_def list_all_iff)
  show ?thesis
  proof (cases c)
    case (Reserve i m)
    with returns obtain r p where r: "reserved a = Inr r" and p: "sum_usage [ba_used a, r, m] = Inr p"
      "exceeded_limits p (ba_limits a) = []"
      and b: "b = a\<lparr>ba_reservations := ba_reservations a @ [(i, m)]\<rparr>"
      by (auto simp: perform_Inr)
    have "dim r = sum_list (map (dim \<circ> snd) (ba_reservations a))"
      using dim_sum [OF v(1)] r by (simp add: reserved_def)
    moreover have "dim p = dim (ba_used a) + dim r + dim m"
      using dim_sum [OF _ p(1)] v(2) reserved_valid [OF r] ok(2) Reserve by simp
    moreover have "dim p \<le> k" using dim_capped p(2) cap by blast
    ultimately show ?thesis
      using returns b by (simp add: committed_def)
  next
    case (Reconcile i u)
    with returns obtain m w where m: "map_of (ba_reservations a) i = Some m" "usage_at_most u m"
      and w: "sum_usage [ba_used a, u] = Inr w"
      and b: "b = a\<lparr>ba_used := w, ba_reservations := drop_key i (ba_reservations a)\<rparr>"
      by (auto simp: perform_Inr)
    have "dim w = dim (ba_used a) + dim u"
      using dim_sum [OF _ w] v(2) ok(2) Reconcile by simp
    moreover have "dim u \<le> dim m" using m(2) by (rule dim_mono)
    ultimately show ?thesis
      using returns b le drop_key_sum [OF m(1), of dim] by (simp add: committed_def)
  next
    case (Release i)
    with returns obtain m where m: "map_of (ba_reservations a) i = Some m"
      and b: "b = a\<lparr>ba_reservations := drop_key i (ba_reservations a)\<rparr>"
      by (auto simp: perform_Inr)
    have "valid_usage m" using map_of_SomeD [OF m] ok(1) by (auto simp: authority_ok_def list_all_iff)
    then show ?thesis
      using returns b le drop_key_sum [OF m, of dim] dim_nonneg [of m] by (simp add: committed_def)
  qed
qed

lemma calls_within_cap:
  assumes "list_all call_valid cs" and "cap l = Some k" and "0 \<le> k"
  shows "committed (calls cs (BudgetAuthority l)) \<le> k"
proof -
  let ?P = "\<lambda>a. authority_ok a \<and> ba_limits a = l \<and> committed a \<le> k"
  have "?P (BudgetAuthority l)"
    using assms(3) by (simp add: committed_def BudgetAuthority_def authority_ok_def dim_empty)
  moreover have "?P (snd (perform c b))" if "?P b" "call_valid c" for c b
    using that perform_within_cap [of b c k] perform_ok [of b c] perform_limits [of c b] assms(2) by simp
  ultimately show ?thesis
    using calls_invariant [of ?P, OF _ assms(1)] by blast
qed

lemma used_within_cap:
  assumes "list_all call_valid cs" and "cap l = Some k" and "0 \<le> k"
  shows "dim (ba_used (calls cs (BudgetAuthority l))) \<le> k"
proof -
  let ?a = "calls cs (BudgetAuthority l)"
  have "authority_ok ?a" using assms(1) calls_ok by simp
  then have "0 \<le> sum_list (map (dim \<circ> snd) (ba_reservations ?a))"
    by (intro sum_list_nonneg) (auto simp: authority_ok_def list_all_iff dim_nonneg)
  with calls_within_cap [OF assms] show ?thesis by (simp add: committed_def)
qed

end

lemmas add_usage_fields = add_usage_def result_simps

interpretation in_tokens: capped_dimension input_tokens max_input_tokens
  by unfold_locales
    (auto simp: input_tokens_def empty_usage_def valid_usage_defs add_usage_fields usage_at_most_def exceeded_limits_Nil)

interpretation out_tokens: capped_dimension output_tokens max_output_tokens
  by unfold_locales
    (auto simp: empty_usage_def valid_usage_defs add_usage_fields usage_at_most_def exceeded_limits_Nil)

interpretation tot_tokens: capped_dimension total_tokens max_total_tokens
  by unfold_locales
    (auto simp: total_tokens_def input_tokens_def empty_usage_def valid_usage_defs add_usage_fields
      usage_at_most_def exceeded_limits_Nil)

interpretation calls_dim: capped_dimension model_calls max_model_calls
  by unfold_locales
    (auto simp: empty_usage_def valid_usage_defs add_usage_fields usage_at_most_def exceeded_limits_Nil)

interpretation retries_dim: capped_dimension model_retries max_model_retries
  by unfold_locales
    (auto simp: empty_usage_def valid_usage_defs add_usage_fields usage_at_most_def exceeded_limits_Nil)

interpretation tools_dim: capped_dimension tool_calls max_tool_calls
  by unfold_locales
    (auto simp: empty_usage_def valid_usage_defs add_usage_fields usage_at_most_def exceeded_limits_Nil)

section \<open>Reservations that do not overlap\<close>

text \<open>
  The states reached when a reservation is only asked for while none is outstanding, as the
  runner does. Then every dimension, the rounded ones included, stays within its cap.
\<close>

inductive sequential :: "budget_limits \<Rightarrow> budget_authority \<Rightarrow> bool" for l where
  start: "sequential l (BudgetAuthority l)"
| reserve: "sequential l a \<Longrightarrow> ba_reservations a = [] \<Longrightarrow> valid_usage m \<Longrightarrow> sequential l (snd (reserve i m a))"
| reconcile: "sequential l a \<Longrightarrow> valid_usage u \<Longrightarrow> sequential l (snd (reconcile i u a))"
| release: "sequential l a \<Longrightarrow> sequential l (snd (release i a))"

definition sequential_inv :: "budget_limits \<Rightarrow> budget_authority \<Rightarrow> bool" where
  "sequential_inv l a =
     (authority_ok a \<and> ba_limits a = l \<and> exceeded_limits (ba_used a) l = []
      \<and> (ba_reservations a = []
         \<or> (\<exists>i m p. ba_reservations a = [(i, m)] \<and> add_usage (ba_used a) m = Inr p
              \<and> exceeded_limits p l = [])))"

lemma sequential_reserve:
  assumes inv: "sequential_inv l a" and none: "ba_reservations a = []" and m: "valid_usage m"
  shows "sequential_inv l (snd (reserve i m a))"
proof (cases rule: perform_cases [of "Reserve i m" a])
  case (returns b)
  have "valid_usage (ba_used a)" using inv by (simp add: sequential_inv_def authority_ok_def)
  then show ?thesis
    using returns inv none m perform_ok [of a "Reserve i m"] unfolding perform.simps
    by (auto simp: sequential_inv_def perform_Inr reserved_def sum_usage_three result_simps)
qed (use inv in simp)

lemma sequential_settle:
  assumes inv: "sequential_inv l a" and c: "call_valid c" "c = Reconcile i u \<or> c = Release i"
  shows "sequential_inv l (snd (perform c a))"
proof (cases rule: perform_cases [of c a])
  case (returns b)
  have ok: "authority_ok b" using perform_ok [of a c] inv c returns by (simp add: sequential_inv_def)
  from returns c(2) obtain m where m: "map_of (ba_reservations a) i = Some m"
    by (auto simp: perform_Inr)
  with inv obtain p where a: "ba_reservations a = [(i, m)]" "add_usage (ba_used a) m = Inr p"
    "exceeded_limits p l = []"
    by (auto simp: sequential_inv_def split: if_splits)
  have v: "valid_usage (ba_used a)" "valid_usage m"
    using inv a(1) by (auto simp: sequential_inv_def authority_ok_def)
  have "exceeded_limits (ba_used b) l = []"
  proof (cases "c = Release i")
    case True
    with returns inv show ?thesis by (auto simp: perform_Inr sequential_inv_def)
  next
    case False
    with c returns have u: "valid_usage u" "usage_at_most u m" "add_usage (ba_used a) u = Inr (ba_used b)"
      using m v by (auto simp: perform_Inr sum_usage_two)
    obtain w where "add_usage (ba_used a) u = Inr w" "usage_at_most w p"
      using add_usage_mono [OF v(1) u(1) v usage_at_most_refl u(2) a(2)] by blast
    with u(3) a(3) show ?thesis using exceeded_limits_antimono by auto
  qed
  with returns c(2) ok inv a(1) show ?thesis
    by (auto simp: sequential_inv_def perform_Inr)
qed (use inv in simp)

lemma empty_usage_within: "valid_limits l \<Longrightarrow> exceeded_limits empty_usage l = []"
  by (auto simp: exceeded_limits_Nil valid_limits_def empty_usage_def input_tokens_def
      total_tokens_def valid_nonneg_float_def)

lemma sequential_invariant:
  assumes "sequential l a" and "valid_limits l"
  shows "sequential_inv l a"
  using assms
proof (induction rule: sequential.induct)
  case start
  then show ?case
    by (simp add: sequential_inv_def empty_usage_within) (simp add: BudgetAuthority_def empty_usage_within)
next
  case (reserve a m i)
  then show ?case by (simp add: sequential_reserve)
next
  case (reconcile a u i)
  then show ?case using sequential_settle [of l a "Reconcile i u" i u] by simp
next
  case (release a i)
  then show ?case using sequential_settle [of l a "Release i" i] by simp
qed

section \<open>Properties\<close>

text \<open>C19: over every sequence of \<open>reserve\<close>, \<open>reconcile\<close> and \<open>release\<close> calls with valid usages, raising
  or not, what was used plus what is reserved stays within each integer cap, however the
  reservations overlap; the token caps bound the sums of their fields.\<close>

theorem integer_budgets_hold:
  assumes "valid_limits l" and "list_all call_valid cs"
  shows "let a = calls cs (BudgetAuthority l); held = \<lambda>dim. sum_list (map (dim \<circ> snd) (ba_reservations a)) in
    (\<forall>c. max_input_tokens l = Some c \<longrightarrow> input_tokens (ba_used a) + held input_tokens \<le> c)
    \<and> (\<forall>c. max_output_tokens l = Some c \<longrightarrow> output_tokens (ba_used a) + held output_tokens \<le> c)
    \<and> (\<forall>c. max_total_tokens l = Some c \<longrightarrow> total_tokens (ba_used a) + held total_tokens \<le> c)
    \<and> (\<forall>c. max_model_calls l = Some c \<longrightarrow> model_calls (ba_used a) + held model_calls \<le> c)
    \<and> (\<forall>c. max_model_retries l = Some c \<longrightarrow> model_retries (ba_used a) + held model_retries \<le> c)
    \<and> (\<forall>c. max_tool_calls l = Some c \<longrightarrow> tool_calls (ba_used a) + held tool_calls \<le> c)"
proof -
  have nonneg: "max_input_tokens l = Some c \<or> max_output_tokens l = Some c \<or> max_total_tokens l = Some c
      \<or> max_model_calls l = Some c \<or> max_model_retries l = Some c \<or> max_tool_calls l = Some c \<Longrightarrow> 0 \<le> c" for c
    using assms(1) by (auto simp: valid_limits_def)
  show ?thesis
    unfolding Let_def
    using in_tokens.calls_within_cap [OF assms(2)] out_tokens.calls_within_cap [OF assms(2)]
      tot_tokens.calls_within_cap [OF assms(2)] calls_dim.calls_within_cap [OF assms(2)]
      retries_dim.calls_within_cap [OF assms(2)] tools_dim.calls_within_cap [OF assms(2)] nonneg
    unfolding in_tokens.committed_def out_tokens.committed_def tot_tokens.committed_def
      calls_dim.committed_def retries_dim.committed_def tools_dim.committed_def
    by blast
qed

definition two_call_limits :: budget_limits where
  "two_call_limits =
     \<lparr>max_input_tokens = None, max_output_tokens = None, max_total_tokens = None,
      max_model_calls = Some 2, max_model_retries = None, max_tool_calls = None,
      max_tool_cpu_seconds = None, max_container_wall_seconds = None,
      max_elapsed_seconds = None, max_estimated_cost_usd = None\<rparr>"

definition one_call :: budget_usage where
  "one_call = empty_usage\<lparr>model_calls := 1\<rparr>"

theorem integer_budgets_hold_witness:
  "let cs = [Reserve ''a'' one_call, Reserve ''b'' one_call, Reserve ''c'' one_call, Reconcile ''a'' one_call];
       a = calls cs (BudgetAuthority two_call_limits) in
   valid_limits two_call_limits \<and> list_all call_valid cs \<and> reservation_ids a = [''b'']
   \<and> model_calls (ba_used a) + sum_list (map (model_calls \<circ> snd) (ba_reservations a)) \<le> 2"
proof -
  let ?cs = "[Reserve ''a'' one_call, Reserve ''b'' one_call, Reserve ''c'' one_call, Reconcile ''a'' one_call]"
  have h: "valid_limits two_call_limits" "list_all call_valid ?cs"
    "reservation_ids (calls ?cs (BudgetAuthority two_call_limits)) = [''b'']"
    "max_model_calls two_call_limits = Some 2"
    by code_simp+
  with integer_budgets_hold [OF h(1,2)] show ?thesis by (simp only: Let_def)
qed

text \<open>C20: while a reservation is only asked for when none is outstanding, the recorded usage never
  exceeds any cap, the float dimensions included, and an outstanding reservation can be charged
  in full without exceeding one.\<close>

theorem sequential_budget_holds:
  assumes "valid_limits l" and "sequential l a"
  shows "exceeded_limits (ba_used a) l = []
    \<and> (ba_reservations a = [] \<or> (\<exists>i m p. ba_reservations a = [(i, m)]
         \<and> add_usage (ba_used a) m = Inr p \<and> exceeded_limits p l = []))"
  using sequential_invariant [OF assms(2,1)] by (simp add: sequential_inv_def)

theorem sequential_budget_holds_witness:
  "\<exists>a. sequential two_call_limits a \<and> reservation_ids a = [''a'']
     \<and> exceeded_limits (ba_used a) two_call_limits = []"
proof -
  have v: "valid_limits two_call_limits" "valid_usage one_call" by code_simp+
  have "sequential two_call_limits (snd (reserve ''a'' one_call (BudgetAuthority two_call_limits)))"
    using v(2) by (intro sequential.intros) (simp_all add: BudgetAuthority_def)
  moreover have "reservation_ids (snd (reserve ''a'' one_call (BudgetAuthority two_call_limits))) = [''a'']"
    by code_simp
  ultimately show ?thesis using sequential_budget_holds [OF v(1)] by blast
qed

definition cpu_limits :: "rat \<Rightarrow> budget_limits" where
  "cpu_limits c = two_call_limits\<lparr>max_model_calls := None, max_tool_cpu_seconds := Some c\<rparr>"

definition cpu :: "rat \<Rightarrow> budget_usage" where
  "cpu x = empty_usage\<lparr>tool_cpu_seconds := fl x\<rparr>"

text \<open>Overlapping reservations can push a float dimension over its cap. Three reservations of 0.2,
  0.3 and 0.1 CPU seconds fit a cap of 0.6 in the order they are summed when reserved; reconciled
  in full in another order, the rounded sum exceeds the cap.\<close>

theorem overlapping_float_reservations_exceed:
  "let l = cpu_limits (fl (6 / 10));
       cs = [Reserve ''a'' (cpu (2 / 10)), Reserve ''b'' (cpu (3 / 10)), Reserve ''c'' (cpu (1 / 10)),
             Reconcile ''c'' (cpu (1 / 10)), Reconcile ''a'' (cpu (2 / 10)), Reconcile ''b'' (cpu (3 / 10))];
       a = calls cs (BudgetAuthority l) in
   valid_limits l \<and> list_all call_valid cs
   \<and> exceeded_limits (ba_used a) l = [''tool_cpu_seconds'']"
  by code_simp

text \<open>A call that raises leaves the authority unchanged, and releasing a reservation undoes the call
  that made it.\<close>

theorem budget_calls_atomic:
  "(perform c a = (Inl e, b) \<longrightarrow> b = a)
   \<and> (reserve i m a = (Inr (), a') \<longrightarrow> release i a' = (Inr (), a))"
proof -
  have "release i a' = (Inr (), a)" if r: "reserve i m a = (Inr (), a')"
  proof -
    have none: "map_of (ba_reservations a) i = None"
      and a': "a' = a\<lparr>ba_reservations := ba_reservations a @ [(i, m)]\<rparr>"
      using r by (simp_all add: reserve_Inr)
    then have "map_of (ba_reservations a') i = Some m"
      by (simp add: map_add_def)
    then show ?thesis
      by (simp add: release_Inr) (simp add: a' drop_key_snoc [OF none])
  qed
  then show ?thesis using perform_Inl by blast
qed

theorem budget_calls_atomic_witness:
  "\<exists>a'. reserve ''a'' one_call (BudgetAuthority two_call_limits) = (Inr (), a')
     \<and> release ''a'' a' = (Inr (), BudgetAuthority two_call_limits)
     \<and> perform (Release ''b'') (BudgetAuthority two_call_limits) = (Inl KeyError, BudgetAuthority two_call_limits)"
proof -
  let ?a = "BudgetAuthority two_call_limits"
  have "fst (reserve ''a'' one_call ?a) = Inr ()" "fst (perform (Release ''b'') ?a) = Inl KeyError"
    by code_simp+
  then obtain a' b where "reserve ''a'' one_call ?a = (Inr (), a')" "perform (Release ''b'') ?a = (Inl KeyError, b)"
    by (metis prod.collapse)
  with budget_calls_atomic [of "Release ''b''" ?a KeyError b "''a''" one_call a'] show ?thesis by simp
qed

end
