(* ===== verification/Clock.thy ===== *)
theory Clock
  imports Domain
begin

text \<open>
  Model of \<open>src/src/guildmind/runtime/clock.py\<close>. A clock hands out stamps, one per observed
  event. The event store only ever calls \<open>stamp()\<close>, so it sees a clock as the sequence of the
  stamps it returns; the locale \<open>ordered_clock\<close> states what a well-behaved clock promises and
  is interpreted on \<open>DeterministicClock\<close>. The readings of \<open>SystemClock\<close> come from the machine
  and may be any sequence.
\<close>

section \<open>Definitions\<close>

record clock_stamp =
  occurred_at :: datetime
  monotonic_ns :: int

text \<open>A datetime argument: without a time zone, or with one, given by the UTC instant it denotes.\<close>

datatype datetime_arg = Naive datetime | Aware datetime

record deterministic_clock =
  dc_started_at :: datetime
  dc_step :: int
  dc_index :: nat

definition default_started_at :: datetime_arg where
  "default_started_at = Aware ((ymd2ord (2026, 1, 1) - 1) * us_per_day)"

definition default_step :: int where
  "default_step = 1000"

definition DeterministicClock :: "datetime_arg \<Rightarrow> int \<Rightarrow> deterministic_clock result" where
  "DeterministicClock started_at step =
     (case started_at of
        Naive _ \<Rightarrow> Inl ValueError
      | Aware t \<Rightarrow>
          if step \<le> 0 then Inl ValueError
          else if \<not> valid_datetime t then Inl OverflowError
          else Inr \<lparr>dc_started_at = t, dc_step = step, dc_index = 0\<rparr>)"

text \<open>
  \<open>timedelta.total_seconds()\<close> divides the microseconds by a million, rounding once; the
  product with a billion rounds again and \<open>int\<close> truncates. Both operands are far below the
  largest float, so neither operation overflows.
\<close>

definition elapsed_ns :: "int \<Rightarrow> int" where
  "elapsed_ns us = \<lfloor>fl (fl (of_int us / 1000000) * 1000000000)\<rfloor>"

definition stamp_at :: "datetime \<Rightarrow> int \<Rightarrow> nat \<Rightarrow> clock_stamp result" where
  "stamp_at started_at step index =
     (let elapsed = step * int index in
      if valid_datetime (started_at + elapsed)
      then Inr \<lparr>occurred_at = started_at + elapsed, monotonic_ns = elapsed_ns elapsed\<rparr>
      else Inl OverflowError)"

text \<open>The index advances under the lock before the arithmetic that may overflow.\<close>

definition stamp :: "(deterministic_clock, clock_stamp) op" where
  "stamp c =
     (let index = dc_index c in
      (stamp_at (dc_started_at c) (dc_step c) index, c\<lparr>dc_index := index + 1\<rparr>))"

text \<open>What successive calls of \<open>stamp\<close> return.\<close>

fun stamps :: "nat \<Rightarrow> deterministic_clock \<Rightarrow> clock_stamp result list" where
  "stamps 0 c = []"
| "stamps (Suc n) c = (case stamp c of (r, c') \<Rightarrow> r # stamps n c')"

definition clock_of :: "deterministic_clock \<Rightarrow> nat \<Rightarrow> clock_stamp result" where
  "clock_of c n = stamp_at (dc_started_at c) (dc_step c) (dc_index c + n)"

definition valid_stamp :: "clock_stamp \<Rightarrow> bool" where
  "valid_stamp st = (valid_datetime (occurred_at st) \<and> 0 \<le> monotonic_ns st)"

text \<open>The stamps among the first \<open>n\<close> readings; a reading that raised gives none.\<close>

definition readings :: "(nat \<Rightarrow> clock_stamp result) \<Rightarrow> nat \<Rightarrow> clock_stamp list" where
  "readings clock n =
     concat (map (\<lambda>i. case clock i of Inl _ \<Rightarrow> [] | Inr st \<Rightarrow> [st]) [0..<n])"

section \<open>The interface\<close>

locale ordered_clock =
  fixes clock :: "nat \<Rightarrow> clock_stamp result"
  assumes clock_valid: "clock n = Inr st \<Longrightarrow> valid_stamp st"
    and clock_ordered: "m \<le> n \<Longrightarrow> clock m = Inr a \<Longrightarrow> clock n = Inr b \<Longrightarrow>
      occurred_at a \<le> occurred_at b \<and> monotonic_ns a \<le> monotonic_ns b"
begin

lemma readings_sorted:
  "sorted (map occurred_at (readings clock n)) \<and> sorted (map monotonic_ns (readings clock n))"
proof (induction n)
  case (Suc n)
  have "occurred_at a \<le> occurred_at b \<and> monotonic_ns a \<le> monotonic_ns b"
    if "a \<in> set (readings clock n)" and "clock n = Inr b" for a b
  proof -
    from that(1) obtain i where "i < n" "clock i = Inr a"
      by (auto simp: readings_def split: sum.splits)
    with that(2) show ?thesis using clock_ordered [of i n a b] by simp
  qed
  with Suc show ?case
    by (cases "clock n") (auto simp: readings_def sorted_append)
qed (simp add: readings_def)

end

section \<open>The deterministic clock\<close>

lemma fl_mono_floor: "0 \<le> x \<Longrightarrow> x \<le> y \<Longrightarrow> \<lfloor>fl x\<rfloor> \<le> \<lfloor>fl y\<rfloor>"
  by (intro floor_mono fl_mono_nonneg)

lemma elapsed_ns_mono:
  assumes "0 \<le> a" and "a \<le> b"
  shows "elapsed_ns a \<le> elapsed_ns b"
proof -
  have "(0 :: rat) \<le> of_int a / 1000000" "(of_int a :: rat) / 1000000 \<le> of_int b / 1000000"
    using assms by (simp_all add: divide_right_mono)
  then have "0 \<le> fl (of_int a / 1000000)" "fl (of_int a / 1000000) \<le> fl (of_int b / 1000000)"
    by (simp_all add: fl_nonneg fl_mono_nonneg)
  then show ?thesis
    unfolding elapsed_ns_def by (intro fl_mono_floor) simp_all
qed

lemma elapsed_ns_nonneg: "0 \<le> a \<Longrightarrow> 0 \<le> elapsed_ns a"
  using elapsed_ns_mono [of 0 a] by (simp add: elapsed_ns_def)

lemma stamp_at_Inr [result_simps]:
  "stamp_at t d i = Inr st \<longleftrightarrow> valid_datetime (t + d * int i) \<and> occurred_at st = t + d * int i
     \<and> monotonic_ns st = elapsed_ns (d * int i)"
  by (auto simp: stamp_at_def Let_def)

lemma stamps_clock_of: "stamps n c = map (clock_of c) [0..<n]"
proof (induction n arbitrary: c)
  case (Suc n)
  have "map (clock_of c) [0..<Suc n] = clock_of c 0 # map (\<lambda>i. clock_of c (Suc i)) [0..<n]"
    unfolding map_upt_Suc by simp
  then show ?case
    unfolding stamps.simps by (simp add: Suc stamp_def Let_def clock_of_def [abs_def] del: upt_Suc)
qed simp

lemma DeterministicClock_Inr [result_simps]:
  "DeterministicClock s d = Inr c \<longleftrightarrow> (\<exists>t. s = Aware t \<and> 0 < d \<and> valid_datetime t
     \<and> c = \<lparr>dc_started_at = t, dc_step = d, dc_index = 0\<rparr>)"
  by (auto simp: DeterministicClock_def split: datetime_arg.splits)

lemma stamp_at_ordered_clock:
  assumes "0 < d"
  shows "ordered_clock (stamp_at t d)"
proof
  show "valid_stamp st" if "stamp_at t d n = Inr st" for n st
    using that assms by (simp add: valid_stamp_def elapsed_ns_nonneg result_simps)
  show "occurred_at a \<le> occurred_at b \<and> monotonic_ns a \<le> monotonic_ns b"
    if "m \<le> n" "stamp_at t d m = Inr a" "stamp_at t d n = Inr b" for m n a b
    using that assms by (simp add: result_simps mult_left_mono elapsed_ns_mono)
qed

text \<open>Every clock the constructor accepts, and the one its defaults build.\<close>

lemma deterministic_clock_ordered:
  "DeterministicClock s d = Inr c \<Longrightarrow> ordered_clock (clock_of c)"
  using stamp_at_ordered_clock by (auto simp: result_simps clock_of_def [abs_def])

definition default_clock :: deterministic_clock where
  "default_clock =
     \<lparr>dc_started_at = (ymd2ord (2026, 1, 1) - 1) * us_per_day, dc_step = default_step, dc_index = 0\<rparr>"

interpretation default_clock: ordered_clock "clock_of default_clock"
  by (rule deterministic_clock_ordered [of default_started_at default_step])
    (simp add: result_simps default_clock_def default_started_at_def default_step_def
      valid_datetime_def us_per_day_def max_ordinal_def ymd2ord_def days_before_year_def
      days_before_month_def is_leap_def month_offsets_def Let_def)

section \<open>Properties\<close>

text \<open>A deterministic clock that was constructed hands out stamps whose wall time strictly
  increases from call to call and whose monotonic nanoseconds never decrease, although the latter
  go through two float roundings.\<close>

theorem stamps_increasing:
  assumes "DeterministicClock started_at step = Inr c" and "i < j" and "j < n"
    and "stamps n c ! i = Inr a" and "stamps n c ! j = Inr b"
  shows "occurred_at a < occurred_at b \<and> monotonic_ns a \<le> monotonic_ns b"
proof
  have c: "clock_of c i = Inr a" "clock_of c j = Inr b"
    using assms by (simp_all add: stamps_clock_of)
  then show "occurred_at a < occurred_at b"
    using assms(1,2) by (auto simp: clock_of_def result_simps)
  show "monotonic_ns a \<le> monotonic_ns b"
    using ordered_clock.clock_ordered [OF deterministic_clock_ordered [OF assms(1)] _ c] assms(2) by simp
qed

theorem stamps_increasing_witness:
  "\<exists>c. DeterministicClock (Aware 0) 500000 = Inr c
    \<and> stamps 3 c ! 0 = Inr \<lparr>occurred_at = 0, monotonic_ns = 0\<rparr>
    \<and> stamps 3 c ! 2 = Inr \<lparr>occurred_at = 1000000, monotonic_ns = 1000000000\<rparr>
    \<and> occurred_at \<lparr>occurred_at = 0, monotonic_ns = 0\<rparr>
      < occurred_at \<lparr>occurred_at = 1000000, monotonic_ns = 1000000000\<rparr>"
proof -
  define c where "c = \<lparr>dc_started_at = 0, dc_step = 500000, dc_index = 0\<rparr>"
  have "DeterministicClock (Aware 0) 500000 = Inr c"
    and "stamps 3 c ! 0 = Inr \<lparr>occurred_at = 0, monotonic_ns = 0\<rparr>"
    and "stamps 3 c ! 2 = Inr \<lparr>occurred_at = 1000000, monotonic_ns = 1000000000\<rparr>"
    unfolding c_def by code_simp+
  then show ?thesis
    using stamps_increasing [of "Aware 0" 500000 c 0 2 3] by auto
qed

text \<open>The monotonic reading is not the exact nanosecond count of the elapsed time: one
  second and one millisecond after the start it is one nanosecond short.\<close>

theorem monotonic_ns_truncates: "elapsed_ns 1001000 = 1000999999"
  by code_simp

end
