(* ===== verification/Replay.thy ===== *)
theory Replay
  imports Usage
begin

text \<open>
  Model of \<open>src/src/guildmind/runtime/replay.py\<close>: verification of the hash chain of one run and
  deterministic replay of its events. \<open>replay_events\<close> is a state machine: the loop variables
  (state, \<open>created\<close>, \<open>pending_budget\<close>) are one record, each event type is one handler, and the
  first exception ends the replay. The hash of a JSON value is the parameter \<open>H\<close>.

  The proofs rest on one invariant of the loop, \<open>replay_inv\<close>, which every handler preserves.
\<close>

section \<open>Definitions\<close>

definition EXPECTED_ARTIFACT_NAMES :: "string list" where
  "EXPECTED_ARTIFACT_NAMES =
     [''evaluation'', ''evaluation_stderr'', ''evaluation_stdout'', ''patch'', ''task_spec'']"

definition OPTIONAL_EVALUATION_ARTIFACT_NAMES :: "string list" where
  "OPTIONAL_EVALUATION_ARTIFACT_NAMES = [''evaluation_candidate_stdout'', ''evaluation_scorer_stdout'']"

datatype model_request_state = NotStarted | Started | Completed | Ambiguous

record replay_state =
  rs_run_id :: string
  rs_status :: run_status
  rs_budget_used :: budget_usage
  rs_budget_reserved :: budget_usage
  rs_artifacts :: "string dict"
  rs_absent_artifacts :: "string dict"
  rs_evaluation_outcome :: "string option"
  rs_requested_model :: "string option"
  rs_model_request_id :: "string option"
  rs_model_request_state :: model_request_state
  rs_model_request_maximum :: "budget_usage option"
  rs_returned_model :: "string option"
  rs_terminal_reason :: "string option"
  rs_event_count :: nat

definition ReplayState :: "string \<Rightarrow> replay_state" where
  "ReplayState run_id =
     \<lparr>rs_run_id = run_id, rs_status = PENDING, rs_budget_used = empty_usage,
      rs_budget_reserved = empty_usage, rs_artifacts = [], rs_absent_artifacts = [],
      rs_evaluation_outcome = None, rs_requested_model = None, rs_model_request_id = None,
      rs_model_request_state = NotStarted, rs_model_request_maximum = None,
      rs_returned_model = None, rs_terminal_reason = None, rs_event_count = 0\<rparr>"

datatype transition_kind = KReserve | KReconcile | KAmbiguous

record budget_transition =
  bt_kind :: transition_kind
  bt_used_before :: budget_usage
  bt_reserved_before :: budget_usage
  bt_amount :: budget_usage

subsection \<open>The hash chain\<close>

text \<open>The loop of \<open>verify_event_chain\<close>: the expected sequence, the previous event, the IDs seen.\<close>

fun verify_chain_from ::
  "(json \<Rightarrow> string) \<Rightarrow> nat \<Rightarrow> event_record option \<Rightarrow> string list \<Rightarrow> event_record list \<Rightarrow> unit result" where
  "verify_chain_from H expected prev seen [] = Inr ()"
| "verify_chain_from H expected prev seen (e # es) =
     (if ev_sequence e \<noteq> int expected then Inl ReplayIntegrityError
      else if ev_event_id e \<in> set seen then Inl ReplayIntegrityError
      else
        rbind (case prev of
            None \<Rightarrow>
              if ev_previous_event_hash e \<noteq> None then Inl ReplayIntegrityError
              else if ev_causal_parent_ids e \<noteq> [] then Inl ReplayIntegrityError
              else Inr ()
          | Some p \<Rightarrow>
              if ev_previous_event_hash e \<noteq> Some (content_hash H p) then Inl ReplayIntegrityError
              else if ev_causal_parent_ids e \<noteq> [ev_event_id p] then Inl ReplayIntegrityError
              else Inr ())
          (\<lambda>_. verify_chain_from H (Suc expected) (Some e) (ev_event_id e # seen) es))"

definition verify_event_chain :: "(json \<Rightarrow> string) \<Rightarrow> event_record list \<Rightarrow> unit result" where
  "verify_event_chain H events = verify_chain_from H 0 None [] events"

subsection \<open>Reading payloads\<close>

definition usage_from_payload :: "json dict \<Rightarrow> string \<Rightarrow> budget_usage result" where
  "usage_from_payload payload key =
     (case map_of payload key of
        Some (JObj d) \<Rightarrow> map_error (\<lambda>_. ReplayIntegrityError) (usage_of_dict d)
      | _ \<Rightarrow> Inl ReplayIntegrityError)"

definition require_nonempty_string :: "json dict \<Rightarrow> string \<Rightarrow> string result" where
  "require_nonempty_string payload key =
     (case map_of payload key of
        Some (JStr s) \<Rightarrow> if py_strip s = [] then Inl ReplayIntegrityError else Inr s
      | _ \<Rightarrow> Inl ReplayIntegrityError)"

definition require_sha256 :: "json dict \<Rightarrow> string \<Rightarrow> string result" where
  "require_sha256 payload key =
     rbind (require_nonempty_string payload key) (\<lambda>digest.
     if is_lower_sha256 digest then Inr digest else Inl ReplayIntegrityError)"

definition require_artifact_digest :: "json dict \<Rightarrow> string result" where
  "require_artifact_digest payload = require_sha256 payload ''sha256''"

text \<open>\<open>ArtifactRef.model_validate\<close> of the four entries; an absent entry is \<open>None\<close> and invalid.\<close>

definition nonempty_str_field :: "json option \<Rightarrow> string option" where
  "nonempty_str_field v =
     (case v of
        Some (JStr s) \<Rightarrow> let t = strip_whitespace s in if t = [] then None else Some t
      | _ \<Rightarrow> None)"

definition artifact_ref_of_payload :: "json dict \<Rightarrow> artifact_ref option" where
  "artifact_ref_of_payload payload =
     (case (nonempty_str_field (map_of payload ''media_type''), map_of payload ''sha256'',
            map_of payload ''size_bytes'', nonempty_str_field (map_of payload ''storage_ref'')) of
        (Some m, Some (JStr h), Some (JInt n), Some r) \<Rightarrow>
          if is_lower_sha256 h \<and> 0 \<le> n
          then Some \<lparr>ar_media_type = m, ar_size_bytes = n, ar_sha256 = h, ar_storage_ref = r\<rparr>
          else None
      | _ \<Rightarrow> None)"

definition storage_ref_of :: "string \<Rightarrow> string" where
  "storage_ref_of sha = ''sha256/'' @ take 2 sha @ ''/'' @ sha"

definition validate_artifact_payload :: "json dict \<Rightarrow> unit result" where
  "validate_artifact_payload payload =
     rbind (of_option ReplayIntegrityError (artifact_ref_of_payload payload)) (\<lambda>reference.
     require (ar_storage_ref reference = storage_ref_of (ar_sha256 reference)) ReplayIntegrityError)"

definition valid_genome_hash :: "json option \<Rightarrow> bool" where
  "valid_genome_hash v =
     (case v of None \<Rightarrow> True | Some JNull \<Rightarrow> True | Some (JStr s) \<Rightarrow> is_lower_sha256 s | _ \<Rightarrow> False)"

definition validate_creation_payload :: "json dict \<Rightarrow> unit result" where
  "validate_creation_payload payload =
     rbind (rfold (\<lambda>key _. rbind (require_nonempty_string payload key) (\<lambda>_. Inr ()))
       [''candidate_id'', ''code_revision'', ''experiment_id'', ''requested_model'', ''task_id''] ()) (\<lambda>_.
     rbind (require_nonempty_string payload ''environment_digest'') (\<lambda>environment_digest.
     rbind (require (take 7 environment_digest = ''sha256:'') ReplayIntegrityError) (\<lambda>_.
     rbind (require (is_lower_sha256 (drop 7 environment_digest)) ReplayIntegrityError) (\<lambda>_.
     rbind (require (valid_genome_hash (map_of payload ''genome_hash'')) ReplayIntegrityError) (\<lambda>_.
     rbind (require (case map_of payload ''seed'' of Some (JInt n) \<Rightarrow> 0 \<le> n | _ \<Rightarrow> False)
       ReplayIntegrityError) (\<lambda>_.
     rbind (require (case map_of payload ''model_parameters'' of Some (JObj _) \<Rightarrow> True | _ \<Rightarrow> False)
       ReplayIntegrityError) (\<lambda>_.
     case map_of payload ''budget_limits'' of
       Some (JObj raw_limits) \<Rightarrow>
         rbind (map_error (\<lambda>_. ReplayIntegrityError) (limits_of_dict raw_limits)) (\<lambda>_. Inr ())
     | _ \<Rightarrow> Inl ReplayIntegrityError)))))))"

subsection \<open>Budget snapshots\<close>

definition apply_budget_snapshot ::
  "replay_state \<Rightarrow> json dict \<Rightarrow> budget_transition option \<Rightarrow> replay_state result" where
  "apply_budget_snapshot state payload transition =
     rbind (usage_from_payload payload ''used'') (\<lambda>used.
     rbind (usage_from_payload payload ''reserved'') (\<lambda>reserved.
     rbind (require (usage_at_most (rs_budget_used state) used) ReplayIntegrityError) (\<lambda>_.
     rbind (case transition of
         None \<Rightarrow>
           require (used = rs_budget_used state \<and> reserved = rs_budget_reserved state) ReplayIntegrityError
       | Some t \<Rightarrow>
           (case bt_kind t of
              KReserve \<Rightarrow>
                rbind (add_usage (bt_reserved_before t) (bt_amount t)) (\<lambda>expected_reserved.
                require (used = bt_used_before t \<and> reserved = expected_reserved) ReplayIntegrityError)
            | KReconcile \<Rightarrow>
                rbind (add_usage (bt_used_before t) (bt_amount t)) (\<lambda>expected_used.
                rbind (of_option ReplayIntegrityError (rs_model_request_maximum state)) (\<lambda>maximum.
                rbind (subtract_usage ReplayIntegrityError (bt_reserved_before t) maximum) (\<lambda>expected_reserved.
                require (used = expected_used \<and> reserved = expected_reserved) ReplayIntegrityError)))
            | KAmbiguous \<Rightarrow>
                rbind (add_usage (bt_used_before t) (bt_reserved_before t)) (\<lambda>expected_used.
                require (used = expected_used \<and> reserved = empty_usage) ReplayIntegrityError)))
       (\<lambda>_. Inr (state\<lparr>rs_budget_used := used, rs_budget_reserved := reserved\<rparr>)))))"

subsection \<open>Artifact phases and terminal statuses\<close>

definition terminal_status_matches_outcome :: "run_status \<Rightarrow> string option \<Rightarrow> bool" where
  "terminal_status_matches_outcome status outcome =
     (case outcome of
        None \<Rightarrow> status \<in> {CANCELLED, BUDGET_EXHAUSTED, INFRASTRUCTURE_ERROR}
      | Some oc \<Rightarrow>
          if oc = ''passed'' then status = SUCCEEDED
          else if oc = ''failed'' then status \<in> {FAILED, TIMED_OUT}
          else if oc = ''error'' then status = INFRASTRUCTURE_ERROR
          else False)"

definition evaluation_evidence_predecessors :: "string list" where
  "evaluation_evidence_predecessors = [''evaluation_stderr'', ''evaluation_stdout'', ''patch'', ''task_spec'']"

definition expected_predecessors :: "string \<Rightarrow> string list option" where
  "expected_predecessors name =
     map_of [(''task_spec'', []), (''patch'', [''task_spec'']),
       (''evaluation_stdout'', [''patch'', ''task_spec'']),
       (''evaluation_stderr'', [''evaluation_stdout'', ''patch'', ''task_spec''])] name"

definition correctly_positioned :: "string set \<Rightarrow> string \<Rightarrow> bool result" where
  "correctly_positioned recorded name =
     (case expected_predecessors name of
        Some ps \<Rightarrow> Inr (recorded = set ps)
      | None \<Rightarrow>
          if name = ''evaluation_candidate_stdout'' then
            Inr (recorded = set evaluation_evidence_predecessors)
          else if name = ''evaluation_scorer_stdout'' then
            Inr (recorded = insert ''evaluation_candidate_stdout'' (set evaluation_evidence_predecessors))
          else if name = ''evaluation'' then
            Inr (set evaluation_evidence_predecessors \<subseteq> recorded
              \<and> recorded - set evaluation_evidence_predecessors \<subseteq> set OPTIONAL_EVALUATION_ARTIFACT_NAMES)
          else Inl ReplayIntegrityError)"

definition validate_artifact_position :: "replay_state \<Rightarrow> string \<Rightarrow> unit result" where
  "validate_artifact_position state name =
     rbind (correctly_positioned (keys (rs_artifacts state)) name) (\<lambda>ok.
     rbind (require ok ReplayIntegrityError) (\<lambda>_.
     rbind (require (\<not> (name = ''task_spec'' \<and> rs_model_request_state state \<noteq> NotStarted))
       ReplayIntegrityError) (\<lambda>_.
     require (\<not> (name \<noteq> ''task_spec'' \<and> rs_model_request_state state \<noteq> Completed)) ReplayIntegrityError)))"

subsection \<open>One handler per event type\<close>

text \<open>
  Each handler returns the new state and the budget transition it leaves pending. Exceptions
  end the replay, so what the code already assigned before raising is not observable.
\<close>

type_synonym handler = "event_record \<Rightarrow> replay_state \<Rightarrow> (replay_state \<times> budget_transition option) result"

definition apply_run_created :: "bool \<Rightarrow> handler" where
  "apply_run_created created event state =
     rbind (require (\<not> created \<and> ev_sequence event = 0) ReplayIntegrityError) (\<lambda>_.
     rbind (require (map_of (ev_payload event) ''status'' = Some (JStr (status_value PENDING)))
       ReplayIntegrityError) (\<lambda>_.
     rbind (validate_creation_payload (ev_payload event)) (\<lambda>_.
     rbind (require_nonempty_string (ev_payload event) ''requested_model'') (\<lambda>requested_model.
     Inr (state\<lparr>rs_requested_model := Some requested_model\<rparr>, None)))))"

definition apply_run_started :: handler where
  "apply_run_started event state =
     rbind (require (rs_status state = PENDING) ReplayIntegrityError) (\<lambda>_.
     rbind (require_nonempty_string (ev_payload event) ''requested_model'') (\<lambda>requested_model.
     rbind (require (Some requested_model = rs_requested_model state) ReplayIntegrityError) (\<lambda>_.
     Inr (state\<lparr>rs_status := RUNNING\<rparr>, None))))"

definition apply_request_started :: handler where
  "apply_request_started event state =
     rbind (require (rs_status state = RUNNING) ReplayIntegrityError) (\<lambda>_.
     rbind (require (rs_model_request_state state = NotStarted) ReplayIntegrityError) (\<lambda>_.
     rbind (require (keys (rs_artifacts state) = {''task_spec''}) ReplayIntegrityError) (\<lambda>_.
     rbind (require_nonempty_string (ev_payload event) ''request_id'') (\<lambda>request_id.
     rbind (usage_from_payload (ev_payload event) ''maximum'') (\<lambda>maximum.
     rbind (require (model_calls maximum = 1) ReplayIntegrityError) (\<lambda>_.
     Inr (state\<lparr>rs_model_request_id := Some request_id, rs_model_request_maximum := Some maximum,
            rs_model_request_state := Started\<rparr>,
          Some \<lparr>bt_kind = KReserve, bt_used_before = rs_budget_used state,
            bt_reserved_before = rs_budget_reserved state, bt_amount = maximum\<rparr>)))))))"

definition apply_response_completed :: handler where
  "apply_response_completed event state =
     rbind (require (rs_status state = RUNNING) ReplayIntegrityError) (\<lambda>_.
     rbind (require (rs_model_request_state state = Started) ReplayIntegrityError) (\<lambda>_.
     rbind (require_nonempty_string (ev_payload event) ''request_id'') (\<lambda>request_id.
     rbind (require (Some request_id = rs_model_request_id state) ReplayIntegrityError) (\<lambda>_.
     rbind (usage_from_payload (ev_payload event) ''actual'') (\<lambda>actual.
     rbind (require (model_calls actual = 1) ReplayIntegrityError) (\<lambda>_.
     rbind (require (case rs_model_request_maximum state of
         None \<Rightarrow> False | Some maximum \<Rightarrow> usage_at_most actual maximum) ReplayIntegrityError) (\<lambda>_.
     rbind (require_nonempty_string (ev_payload event) ''returned_model'') (\<lambda>returned_model.
     Inr (state\<lparr>rs_returned_model := Some returned_model, rs_model_request_state := Completed\<rparr>,
          Some \<lparr>bt_kind = KReconcile, bt_used_before = rs_budget_used state,
            bt_reserved_before = rs_budget_reserved state, bt_amount = actual\<rparr>)))))))))"

definition apply_request_ambiguous :: handler where
  "apply_request_ambiguous event state =
     rbind (require (rs_status state = RUNNING) ReplayIntegrityError) (\<lambda>_.
     rbind (require (rs_model_request_state state = Started) ReplayIntegrityError) (\<lambda>_.
     rbind (require_nonempty_string (ev_payload event) ''request_id'') (\<lambda>request_id.
     rbind (require (Some request_id = rs_model_request_id state) ReplayIntegrityError) (\<lambda>_.
     Inr (state\<lparr>rs_model_request_state := Ambiguous\<rparr>,
          Some \<lparr>bt_kind = KAmbiguous, bt_used_before = rs_budget_used state,
            bt_reserved_before = rs_budget_reserved state,
            bt_amount = rs_budget_reserved state\<rparr>)))))"

definition apply_artifact_recorded :: handler where
  "apply_artifact_recorded event state =
     rbind (require (rs_status state = RUNNING) ReplayIntegrityError) (\<lambda>_.
     rbind (require_nonempty_string (ev_payload event) ''name'') (\<lambda>name.
     rbind (require_artifact_digest (ev_payload event)) (\<lambda>digest.
     rbind (require (name \<notin> keys (rs_artifacts state) \<and> name \<notin> keys (rs_absent_artifacts state))
       ReplayIntegrityError) (\<lambda>_.
     rbind (validate_artifact_payload (ev_payload event)) (\<lambda>_.
     rbind (validate_artifact_position state name) (\<lambda>_.
     Inr (state\<lparr>rs_artifacts := dict_set name digest (rs_artifacts state)\<rparr>, None)))))))"

definition apply_artifact_not_produced :: handler where
  "apply_artifact_not_produced event state =
     rbind (require_nonempty_string (ev_payload event) ''name'') (\<lambda>name.
     rbind (require_nonempty_string (ev_payload event) ''reason'') (\<lambda>reason.
     rbind (require (name \<in> set EXPECTED_ARTIFACT_NAMES) ReplayIntegrityError) (\<lambda>_.
     rbind (require (name \<notin> keys (rs_artifacts state) \<and> name \<notin> keys (rs_absent_artifacts state))
       ReplayIntegrityError) (\<lambda>_.
     Inr (state\<lparr>rs_absent_artifacts := dict_set name reason (rs_absent_artifacts state)\<rparr>, None)))))"

definition required_evaluation_evidence :: "string list" where
  "required_evaluation_evidence = [''evaluation'', ''evaluation_stderr'', ''evaluation_stdout'', ''patch'']"

definition apply_evaluation_completed :: handler where
  "apply_evaluation_completed event state =
     rbind (require (rs_status state = RUNNING) ReplayIntegrityError) (\<lambda>_.
     rbind (require (rs_model_request_state state = Completed) ReplayIntegrityError) (\<lambda>_.
     rbind (require (rs_evaluation_outcome state = None) ReplayIntegrityError) (\<lambda>_.
     rbind (require (set required_evaluation_evidence \<subseteq> keys (rs_artifacts state)) ReplayIntegrityError) (\<lambda>_.
     rbind (require_nonempty_string (ev_payload event) ''outcome'') (\<lambda>outcome.
     rbind (require (outcome \<in> {''passed'', ''failed'', ''error''}) ReplayIntegrityError) (\<lambda>_.
     rbind (require_sha256 (ev_payload event) ''result_sha256'') (\<lambda>_.
     Inr (state\<lparr>rs_evaluation_outcome := Some outcome\<rparr>, None))))))))"

text \<open>
  \<open>payload.get(key)\<close> compared with \<open>None\<close>: an absent key and a JSON null are the same.
\<close>

definition get_nullable :: "json dict \<Rightarrow> string \<Rightarrow> json option" where
  "get_nullable payload key = (case map_of payload key of Some JNull \<Rightarrow> None | v \<Rightarrow> v)"

definition terminal_reason_field :: "json dict \<Rightarrow> string option result" where
  "terminal_reason_field payload =
     (case get_nullable payload ''terminal_reason'' of
        None \<Rightarrow> Inr None
      | Some (JStr s) \<Rightarrow> if py_strip s = [] then Inl ReplayIntegrityError else Inr (Some s)
      | Some _ \<Rightarrow> Inl ReplayIntegrityError)"

definition apply_run_terminal :: handler where
  "apply_run_terminal event state =
     rbind (require_nonempty_string (ev_payload event) ''status'') (\<lambda>raw_status.
     rbind (of_option ReplayIntegrityError (status_of_value raw_status)) (\<lambda>terminal_status.
     rbind (require (is_terminal terminal_status) ReplayIntegrityError) (\<lambda>_.
     rbind (require (rs_model_request_state state \<noteq> Started) ReplayIntegrityError) (\<lambda>_.
     rbind (require (\<not> (terminal_status \<in> {SUCCEEDED, FAILED, TIMED_OUT} \<and> rs_evaluation_outcome state = None))
       ReplayIntegrityError) (\<lambda>_.
     rbind (require (get_nullable (ev_payload event) ''evaluation_outcome''
         = map_option JStr (rs_evaluation_outcome state)) ReplayIntegrityError) (\<lambda>_.
     rbind (require (terminal_status_matches_outcome terminal_status (rs_evaluation_outcome state))
       ReplayIntegrityError) (\<lambda>_.
     rbind (terminal_reason_field (ev_payload event)) (\<lambda>terminal_reason.
     rbind (require (terminal_status = SUCCEEDED \<longleftrightarrow> terminal_reason = None) ReplayIntegrityError) (\<lambda>_.
     rbind (require (\<not> (rs_model_request_state state = Ambiguous \<and> terminal_status \<noteq> INFRASTRUCTURE_ERROR))
       ReplayIntegrityError) (\<lambda>_.
     rbind (require (\<not> (rs_model_request_state state = Ambiguous
         \<and> terminal_reason \<noteq> Some ''ambiguous_model_request'')) ReplayIntegrityError) (\<lambda>_.
     Inr (state\<lparr>rs_status := terminal_status, rs_terminal_reason := terminal_reason\<rparr>, None))))))))))))"

subsection \<open>The replay loop\<close>

record replay_loop =
  rl_state :: replay_state
  rl_created :: bool
  rl_pending :: "budget_transition option"

definition dispatch_event :: "replay_loop \<Rightarrow> handler" where
  "dispatch_event loop event state =
     (let t = ev_event_type event in
      if t = ''run.created'' then apply_run_created (rl_created loop) event state
      else if \<not> rl_created loop then Inl ReplayIntegrityError
      else if t = ''run.started'' then apply_run_started event state
      else if t = ''model.request_started'' then apply_request_started event state
      else if t = ''model.response_completed'' then apply_response_completed event state
      else if t = ''model.request_ambiguous'' then apply_request_ambiguous event state
      else if t = ''budget.snapshot'' then
        rbind (apply_budget_snapshot state (ev_payload event) (rl_pending loop)) (\<lambda>s. Inr (s, None))
      else if t = ''artifact.recorded'' then apply_artifact_recorded event state
      else if t = ''artifact.not_produced'' then apply_artifact_not_produced event state
      else if t = ''evaluation.completed'' then apply_evaluation_completed event state
      else if t = ''run.terminal'' then apply_run_terminal event state
      else Inl ReplayIntegrityError)"

definition replay_event :: "event_record \<Rightarrow> replay_loop \<Rightarrow> replay_loop result" where
  "replay_event event loop =
     (let state = rl_state loop in
      rbind (require (ev_run_id event = rs_run_id state) ReplayIntegrityError) (\<lambda>_.
      rbind (require (\<not> is_terminal (rs_status state)) ReplayIntegrityError) (\<lambda>_.
      rbind (require (rl_pending loop = None \<or> ev_event_type event = ''budget.snapshot'')
        ReplayIntegrityError) (\<lambda>_.
      rbind (dispatch_event loop event state) (\<lambda>(state', pending).
      Inr \<lparr>rl_state = state'\<lparr>rs_event_count := rs_event_count state' + 1\<rparr>, rl_created = True,
            rl_pending = pending\<rparr>)))))"

definition require_terminal_state :: "replay_loop \<Rightarrow> unit result" where
  "require_terminal_state loop =
     (let state = rl_state loop in
      rbind (require (rl_pending loop = None) ReplayIntegrityError) (\<lambda>_.
      rbind (require (is_terminal (rs_status state)) ReplayIntegrityError) (\<lambda>_.
      rbind (require (rs_budget_reserved state = empty_usage) ReplayIntegrityError) (\<lambda>_.
      rbind (require (rs_model_request_state state \<noteq> Started) ReplayIntegrityError) (\<lambda>_.
      require (set EXPECTED_ARTIFACT_NAMES
        \<subseteq> keys (rs_artifacts state) \<union> keys (rs_absent_artifacts state)) ReplayIntegrityError)))))"

definition initial_loop :: "event_record list \<Rightarrow> replay_loop" where
  "initial_loop events =
     \<lparr>rl_state = ReplayState (ev_run_id (hd events)), rl_created = False, rl_pending = None\<rparr>"

definition replay_events :: "(json \<Rightarrow> string) \<Rightarrow> bool \<Rightarrow> event_record list \<Rightarrow> replay_state result" where
  "replay_events H require_terminal events =
     (if events = [] then Inl ReplayIntegrityError
      else
        rbind (verify_event_chain H events) (\<lambda>_.
        rbind (rfold replay_event events (initial_loop events)) (\<lambda>loop.
        rbind (require (rl_created loop) ReplayIntegrityError) (\<lambda>_.
        rbind (if require_terminal then require_terminal_state loop else Inr ()) (\<lambda>_.
        Inr (rl_state loop))))))"

subsection \<open>The semantic digest\<close>

definition normalized_payload :: "event_record \<Rightarrow> json dict" where
  "normalized_payload event =
     (let payload = ev_payload event in
      if ev_event_type event = ''artifact.recorded'' \<and> map_of payload ''name'' = Some (JStr ''evaluation'')
      then dict_del ''storage_ref'' (dict_del ''size_bytes'' (dict_del ''sha256'' payload))
      else payload)"

definition normalized_event :: "event_record \<Rightarrow> json" where
  "normalized_event event =
     JObj [(''event_type'', JStr (ev_event_type event)), (''event_version'', schema_version_json),
       (''payload'', JObj (normalized_payload event))]"

definition semantic_digest :: "(json \<Rightarrow> string) \<Rightarrow> event_record list \<Rightarrow> string result" where
  "semantic_digest H events =
     rbind (replay_events H False events) (\<lambda>_. Inr (H (JArr (map normalized_event events))))"

section \<open>Inversion\<close>

lemma replay_event_Inr:
  "replay_event e l = Inr l' \<longleftrightarrow>
     ev_run_id e = rs_run_id (rl_state l) \<and> \<not> is_terminal (rs_status (rl_state l))
     \<and> (rl_pending l = None \<or> ev_event_type e = ''budget.snapshot'')
     \<and> (\<exists>s p. dispatch_event l e (rl_state l) = Inr (s, p)
          \<and> l' = \<lparr>rl_state = s\<lparr>rs_event_count := rs_event_count s + 1\<rparr>, rl_created = True, rl_pending = p\<rparr>)"
  by (auto simp: replay_event_def Let_def result_simps)

lemma dispatch_event_cases
  [consumes 1, case_names created started request response ambiguous snapshot recorded absent evaluated terminal]:
  assumes "dispatch_event l e s = Inr (s', p)"
  obtains "ev_event_type e = ''run.created''" "apply_run_created (rl_created l) e s = Inr (s', p)"
  | "ev_event_type e = ''run.started''" "rl_created l" "apply_run_started e s = Inr (s', p)"
  | "ev_event_type e = ''model.request_started''" "rl_created l" "apply_request_started e s = Inr (s', p)"
  | "ev_event_type e = ''model.response_completed''" "rl_created l" "apply_response_completed e s = Inr (s', p)"
  | "ev_event_type e = ''model.request_ambiguous''" "rl_created l" "apply_request_ambiguous e s = Inr (s', p)"
  | "ev_event_type e = ''budget.snapshot''" "rl_created l" "p = None"
      "apply_budget_snapshot s (ev_payload e) (rl_pending l) = Inr s'"
  | "ev_event_type e = ''artifact.recorded''" "rl_created l" "apply_artifact_recorded e s = Inr (s', p)"
  | "ev_event_type e = ''artifact.not_produced''" "rl_created l" "apply_artifact_not_produced e s = Inr (s', p)"
  | "ev_event_type e = ''evaluation.completed''" "rl_created l" "apply_evaluation_completed e s = Inr (s', p)"
  | "ev_event_type e = ''run.terminal''" "rl_created l" "apply_run_terminal e s = Inr (s', p)"
proof -
  show thesis
    using assms that unfolding dispatch_event_def Let_def
    by (simp split: if_split_asm add: result_simps)
qed

lemmas handler_defs = apply_run_created_def apply_run_started_def apply_request_started_def
  apply_response_completed_def apply_request_ambiguous_def apply_artifact_recorded_def
  apply_artifact_not_produced_def apply_evaluation_completed_def apply_run_terminal_def

lemma apply_run_created_Inr:
  "apply_run_created c e s = Inr (s', p) \<longleftrightarrow> \<not> c \<and> ev_sequence e = 0
     \<and> map_of (ev_payload e) ''status'' = Some (JStr (status_value PENDING))
     \<and> validate_creation_payload (ev_payload e) = Inr ()
     \<and> (\<exists>m. require_nonempty_string (ev_payload e) ''requested_model'' = Inr m
          \<and> s' = s\<lparr>rs_requested_model := Some m\<rparr>) \<and> p = None"
  by (auto simp: apply_run_created_def result_simps)

lemma apply_run_started_Inr:
  "apply_run_started e s = Inr (s', p) \<longleftrightarrow> rs_status s = PENDING
     \<and> (\<exists>m. require_nonempty_string (ev_payload e) ''requested_model'' = Inr m \<and> rs_requested_model s = Some m)
     \<and> s' = s\<lparr>rs_status := RUNNING\<rparr> \<and> p = None"
  by (auto simp: apply_run_started_def result_simps)

lemma apply_request_started_Inr:
  "apply_request_started e s = Inr (s', p) \<longleftrightarrow> rs_status s = RUNNING
     \<and> rs_model_request_state s = NotStarted \<and> keys (rs_artifacts s) = {''task_spec''}
     \<and> (\<exists>i m. require_nonempty_string (ev_payload e) ''request_id'' = Inr i
          \<and> usage_from_payload (ev_payload e) ''maximum'' = Inr m \<and> model_calls m = 1
          \<and> s' = s\<lparr>rs_model_request_id := Some i, rs_model_request_maximum := Some m,
                 rs_model_request_state := Started\<rparr>
          \<and> p = Some \<lparr>bt_kind = KReserve, bt_used_before = rs_budget_used s,
                 bt_reserved_before = rs_budget_reserved s, bt_amount = m\<rparr>)"
  by (auto simp: apply_request_started_def result_simps)

lemma apply_response_completed_Inr:
  "apply_response_completed e s = Inr (s', p) \<longleftrightarrow> rs_status s = RUNNING
     \<and> rs_model_request_state s = Started
     \<and> (\<exists>i a m r. require_nonempty_string (ev_payload e) ''request_id'' = Inr i
          \<and> rs_model_request_id s = Some i \<and> usage_from_payload (ev_payload e) ''actual'' = Inr a
          \<and> model_calls a = 1 \<and> rs_model_request_maximum s = Some m \<and> usage_at_most a m
          \<and> require_nonempty_string (ev_payload e) ''returned_model'' = Inr r
          \<and> s' = s\<lparr>rs_returned_model := Some r, rs_model_request_state := Completed\<rparr>
          \<and> p = Some \<lparr>bt_kind = KReconcile, bt_used_before = rs_budget_used s,
                 bt_reserved_before = rs_budget_reserved s, bt_amount = a\<rparr>)"
  by (auto simp: apply_response_completed_def result_simps split: option.splits)

lemma apply_request_ambiguous_Inr:
  "apply_request_ambiguous e s = Inr (s', p) \<longleftrightarrow> rs_status s = RUNNING
     \<and> rs_model_request_state s = Started
     \<and> (\<exists>i. require_nonempty_string (ev_payload e) ''request_id'' = Inr i \<and> rs_model_request_id s = Some i)
     \<and> s' = s\<lparr>rs_model_request_state := Ambiguous\<rparr>
     \<and> p = Some \<lparr>bt_kind = KAmbiguous, bt_used_before = rs_budget_used s,
            bt_reserved_before = rs_budget_reserved s, bt_amount = rs_budget_reserved s\<rparr>"
  by (auto simp: apply_request_ambiguous_def result_simps)

lemma apply_artifact_recorded_Inr:
  "apply_artifact_recorded e s = Inr (s', p) \<longleftrightarrow> rs_status s = RUNNING
     \<and> (\<exists>n d. require_nonempty_string (ev_payload e) ''name'' = Inr n
          \<and> require_artifact_digest (ev_payload e) = Inr d
          \<and> n \<notin> keys (rs_artifacts s) \<and> n \<notin> keys (rs_absent_artifacts s)
          \<and> validate_artifact_payload (ev_payload e) = Inr () \<and> validate_artifact_position s n = Inr ()
          \<and> s' = s\<lparr>rs_artifacts := dict_set n d (rs_artifacts s)\<rparr>) \<and> p = None"
  by (auto simp: apply_artifact_recorded_def result_simps)

lemma apply_artifact_not_produced_Inr:
  "apply_artifact_not_produced e s = Inr (s', p) \<longleftrightarrow>
     (\<exists>n r. require_nonempty_string (ev_payload e) ''name'' = Inr n
          \<and> require_nonempty_string (ev_payload e) ''reason'' = Inr r \<and> n \<in> set EXPECTED_ARTIFACT_NAMES
          \<and> n \<notin> keys (rs_artifacts s) \<and> n \<notin> keys (rs_absent_artifacts s)
          \<and> s' = s\<lparr>rs_absent_artifacts := dict_set n r (rs_absent_artifacts s)\<rparr>) \<and> p = None"
  by (auto simp: apply_artifact_not_produced_def result_simps)

lemma apply_evaluation_completed_Inr:
  "apply_evaluation_completed e s = Inr (s', p) \<longleftrightarrow> rs_status s = RUNNING
     \<and> rs_model_request_state s = Completed \<and> rs_evaluation_outcome s = None
     \<and> set required_evaluation_evidence \<subseteq> keys (rs_artifacts s)
     \<and> (\<exists>oc h. require_nonempty_string (ev_payload e) ''outcome'' = Inr oc
          \<and> oc \<in> {''passed'', ''failed'', ''error''} \<and> require_sha256 (ev_payload e) ''result_sha256'' = Inr h
          \<and> s' = s\<lparr>rs_evaluation_outcome := Some oc\<rparr>) \<and> p = None"
  by (auto simp: apply_evaluation_completed_def result_simps)

lemma apply_run_terminal_Inr:
  "apply_run_terminal e s = Inr (s', p) \<longleftrightarrow>
     (\<exists>raw st r. require_nonempty_string (ev_payload e) ''status'' = Inr raw
          \<and> status_of_value raw = Some st \<and> is_terminal st \<and> rs_model_request_state s \<noteq> Started
          \<and> \<not> (st \<in> {SUCCEEDED, FAILED, TIMED_OUT} \<and> rs_evaluation_outcome s = None)
          \<and> get_nullable (ev_payload e) ''evaluation_outcome'' = map_option JStr (rs_evaluation_outcome s)
          \<and> terminal_status_matches_outcome st (rs_evaluation_outcome s)
          \<and> terminal_reason_field (ev_payload e) = Inr r \<and> (st = SUCCEEDED \<longleftrightarrow> r = None)
          \<and> (rs_model_request_state s = Ambiguous \<longrightarrow> st = INFRASTRUCTURE_ERROR
               \<and> r = Some ''ambiguous_model_request'')
          \<and> s' = s\<lparr>rs_status := st, rs_terminal_reason := r\<rparr>) \<and> p = None"
  unfolding apply_run_terminal_def result_simps sum.inject prod.inject by blast

lemmas handler_Inr = apply_run_created_Inr apply_run_started_Inr apply_request_started_Inr
  apply_response_completed_Inr apply_request_ambiguous_Inr apply_artifact_recorded_Inr
  apply_artifact_not_produced_Inr apply_evaluation_completed_Inr apply_run_terminal_Inr

lemma usage_from_payload_valid: "usage_from_payload d k = Inr u \<Longrightarrow> valid_usage u"
  by (auto simp: usage_from_payload_def result_simps usage_of_dict_valid split: option.splits json.splits)

lemma replay_events_Inr:
  "replay_events H rt es = Inr s \<longleftrightarrow> es \<noteq> [] \<and> verify_event_chain H es = Inr ()
     \<and> (\<exists>l. rfold replay_event es (initial_loop es) = Inr l \<and> rl_created l \<and> s = rl_state l
          \<and> (rt \<longrightarrow> require_terminal_state l = Inr ()))"
  by (auto simp: replay_events_def result_simps)

lemma require_terminal_state_Inr [result_simps]:
  "require_terminal_state l = Inr u \<longleftrightarrow> rl_pending l = None \<and> is_terminal (rs_status (rl_state l))
     \<and> rs_budget_reserved (rl_state l) = empty_usage \<and> rs_model_request_state (rl_state l) \<noteq> Started
     \<and> set EXPECTED_ARTIFACT_NAMES
       \<subseteq> keys (rs_artifacts (rl_state l)) \<union> keys (rs_absent_artifacts (rl_state l))"
  by (auto simp: require_terminal_state_def Let_def result_simps)

section \<open>The invariant of the loop\<close>

text \<open>
  What is charged and what is held back follows from how far the one model request of the run
  has come, and from whether its budget snapshot is still due.
\<close>

definition accounting :: "replay_state \<Rightarrow> budget_transition option \<Rightarrow> bool" where
  "accounting s p =
     (case rs_model_request_state s of
        NotStarted \<Rightarrow>
          rs_model_request_maximum s = None \<and> rs_budget_used s = empty_usage
          \<and> rs_budget_reserved s = empty_usage \<and> p = None
      | Started \<Rightarrow>
          \<exists>m. rs_model_request_maximum s = Some m \<and> valid_usage m \<and> model_calls m = 1
            \<and> rs_budget_used s = empty_usage
            \<and> (p = Some \<lparr>bt_kind = KReserve, bt_used_before = empty_usage, bt_reserved_before = empty_usage,
                  bt_amount = m\<rparr> \<and> rs_budget_reserved s = empty_usage
                \<or> p = None \<and> rs_budget_reserved s = m)
      | Completed \<Rightarrow>
          \<exists>m a. rs_model_request_maximum s = Some m \<and> valid_usage m \<and> valid_usage a \<and> usage_at_most a m
            \<and> model_calls m = 1 \<and> model_calls a = 1
            \<and> (p = Some \<lparr>bt_kind = KReconcile, bt_used_before = empty_usage, bt_reserved_before = m,
                  bt_amount = a\<rparr> \<and> rs_budget_used s = empty_usage \<and> rs_budget_reserved s = m
                \<or> p = None \<and> rs_budget_used s = a \<and> rs_budget_reserved s = empty_usage)
      | Ambiguous \<Rightarrow>
          \<exists>m. rs_model_request_maximum s = Some m \<and> valid_usage m \<and> model_calls m = 1
            \<and> (p = Some \<lparr>bt_kind = KAmbiguous, bt_used_before = empty_usage, bt_reserved_before = m,
                  bt_amount = m\<rparr> \<and> rs_budget_used s = empty_usage \<and> rs_budget_reserved s = m
                \<or> p = None \<and> rs_budget_used s = m \<and> rs_budget_reserved s = empty_usage))"

text \<open>How far the lifecycle has come determines which evidence is there.\<close>

definition lifecycle :: "replay_state \<Rightarrow> bool" where
  "lifecycle s =
     (is_dict (rs_artifacts s) \<and> is_dict (rs_absent_artifacts s)
      \<and> keys (rs_artifacts s) \<inter> keys (rs_absent_artifacts s) = {}
      \<and> (rs_status s = PENDING \<longrightarrow> rs_model_request_state s = NotStarted \<and> rs_artifacts s = [])
      \<and> (rs_model_request_state s = NotStarted \<longrightarrow> keys (rs_artifacts s) \<subseteq> {''task_spec''})
      \<and> (rs_model_request_state s \<noteq> NotStarted \<longrightarrow> ''task_spec'' \<in> keys (rs_artifacts s))
      \<and> (rs_model_request_state s \<in> {Started, Ambiguous} \<longrightarrow> keys (rs_artifacts s) = {''task_spec''})
      \<and> (rs_model_request_state s = Started \<longrightarrow> rs_status s = RUNNING)
      \<and> (rs_returned_model s \<noteq> None \<longleftrightarrow> rs_model_request_state s = Completed)
      \<and> (rs_model_request_state s \<noteq> NotStarted \<longleftrightarrow> rs_model_request_id s \<noteq> None)
      \<and> (\<forall>oc. rs_evaluation_outcome s = Some oc \<longrightarrow> oc \<in> {''passed'', ''failed'', ''error''}
           \<and> set required_evaluation_evidence \<subseteq> keys (rs_artifacts s) \<and> rs_model_request_state s = Completed)
      \<and> (is_terminal (rs_status s) \<longrightarrow>
           terminal_status_matches_outcome (rs_status s) (rs_evaluation_outcome s)
           \<and> (rs_status s = SUCCEEDED \<longleftrightarrow> rs_terminal_reason s = None)
           \<and> (rs_model_request_state s = Ambiguous \<longrightarrow> rs_status s = INFRASTRUCTURE_ERROR
                \<and> rs_terminal_reason s = Some ''ambiguous_model_request''))
      \<and> (\<not> is_terminal (rs_status s) \<longrightarrow> rs_terminal_reason s = None))"

definition replay_inv :: "replay_loop \<Rightarrow> bool" where
  "replay_inv l =
     (accounting (rl_state l) (rl_pending l) \<and> lifecycle (rl_state l)
      \<and> (\<not> rl_created l \<longrightarrow> rs_status (rl_state l) = PENDING)
      \<and> (is_terminal (rs_status (rl_state l)) \<longrightarrow> rl_pending l = None))"

lemma accounting_frame [simp]:
  "accounting (s\<lparr>rs_event_count := n\<rparr>) p = accounting s p"
  "accounting (s\<lparr>rs_status := st\<rparr>) p = accounting s p"
  "accounting (s\<lparr>rs_status := st, rs_terminal_reason := tr\<rparr>) p = accounting s p"
  "accounting (s\<lparr>rs_requested_model := rm\<rparr>) p = accounting s p"
  "accounting (s\<lparr>rs_artifacts := ar\<rparr>) p = accounting s p"
  "accounting (s\<lparr>rs_absent_artifacts := ar\<rparr>) p = accounting s p"
  "accounting (s\<lparr>rs_evaluation_outcome := oc\<rparr>) p = accounting s p"
  by (cases "rs_model_request_state s"; simp add: accounting_def)+

lemma snapshot_accounting:
  assumes "apply_budget_snapshot s d p = Inr s'" and "accounting s p"
  shows "accounting s' None"
  using assms
  by (cases "rs_model_request_state s")
    (auto simp: apply_budget_snapshot_def accounting_def result_simps split: option.splits)

lemma dispatch_accounting:
  assumes "dispatch_event l e s = Inr (s', p)" and "accounting s (rl_pending l)"
    and "rl_pending l = None \<or> ev_event_type e = ''budget.snapshot''"
  shows "accounting s' p"
  using assms(1)
proof (cases rule: dispatch_event_cases)
  case snapshot
  with assms show ?thesis using snapshot_accounting by simp
next
  case request
  from request(3) obtain i m where r: "rs_model_request_state s = NotStarted"
    "usage_from_payload (ev_payload e) ''maximum'' = Inr m" "model_calls m = 1"
    "s' = s\<lparr>rs_model_request_id := Some i, rs_model_request_maximum := Some m,
       rs_model_request_state := Started\<rparr>"
    "p = Some \<lparr>bt_kind = KReserve, bt_used_before = rs_budget_used s,
      bt_reserved_before = rs_budget_reserved s, bt_amount = m\<rparr>"
    unfolding apply_request_started_Inr by blast
  moreover have "valid_usage m" using r(2) by (rule usage_from_payload_valid)
  ultimately show ?thesis using assms(2) by (simp add: accounting_def)
next
  case response
  from response(3) obtain i a m r where r: "rs_model_request_state s = Started" "rs_model_request_maximum s = Some m"
    "usage_from_payload (ev_payload e) ''actual'' = Inr a" "model_calls a = 1" "usage_at_most a m"
    "s' = s\<lparr>rs_returned_model := Some r, rs_model_request_state := Completed\<rparr>"
    "p = Some \<lparr>bt_kind = KReconcile, bt_used_before = rs_budget_used s,
      bt_reserved_before = rs_budget_reserved s, bt_amount = a\<rparr>"
    by (auto simp: apply_response_completed_def result_simps split: option.splits)
  moreover have "valid_usage a" using r(3) by (rule usage_from_payload_valid)
  moreover have "rl_pending l = None" using assms(3) response(1) by simp
  ultimately show ?thesis using assms(2) by (simp add: accounting_def)
next
  case ambiguous
  with assms show ?thesis
    by (auto simp: handler_Inr accounting_def)
qed (use assms in \<open>auto simp: handler_Inr\<close>)

lemma position_keys:
  assumes "validate_artifact_position s n = Inr ()"
  shows "n = ''task_spec'' \<and> rs_model_request_state s = NotStarted \<and> rs_artifacts s = []
    \<or> n \<noteq> ''task_spec'' \<and> rs_model_request_state s = Completed"
  using assms
  by (auto simp: validate_artifact_position_def correctly_positioned_def expected_predecessors_def result_simps)

lemma snapshot_frame:
  "apply_budget_snapshot s d p = Inr s' \<Longrightarrow> \<exists>u r. s' = s\<lparr>rs_budget_used := u, rs_budget_reserved := r\<rparr>"
  by (auto simp: apply_budget_snapshot_def result_simps)

lemma dispatch_lifecycle:
  assumes "dispatch_event l e s = Inr (s', p)" and "lifecycle s" and "\<not> is_terminal (rs_status s)"
    and "\<not> rl_created l \<longrightarrow> rs_status s = PENDING"
  shows "lifecycle s'"
  using assms(1)
proof (cases rule: dispatch_event_cases)
  case snapshot
  then obtain u r where "s' = s\<lparr>rs_budget_used := u, rs_budget_reserved := r\<rparr>"
    using snapshot_frame by blast
  with assms(2) show ?thesis by (simp add: lifecycle_def)
next
  case recorded
  then obtain n d where "validate_artifact_position s n = Inr ()" "n \<notin> keys (rs_absent_artifacts s)"
    "s' = s\<lparr>rs_artifacts := dict_set n d (rs_artifacts s)\<rparr>" "rs_status s = RUNNING"
    by (auto simp: handler_Inr)
  with assms(2) position_keys [of s n] show ?thesis
    by (auto simp: lifecycle_def)
next
  case absent
  then obtain n r where "n \<notin> keys (rs_artifacts s)"
    "s' = s\<lparr>rs_absent_artifacts := dict_set n r (rs_absent_artifacts s)\<rparr>"
    unfolding apply_artifact_not_produced_Inr by blast
  with assms(2) show ?thesis by (simp add: lifecycle_def)
next
  case terminal
  from terminal(3) obtain st r where t:
    "is_terminal st" "rs_model_request_state s \<noteq> Started"
    "terminal_status_matches_outcome st (rs_evaluation_outcome s)" "st = SUCCEEDED \<longleftrightarrow> r = None"
    "rs_model_request_state s = Ambiguous \<longrightarrow> st = INFRASTRUCTURE_ERROR \<and> r = Some ''ambiguous_model_request''"
    "s' = s\<lparr>rs_status := st, rs_terminal_reason := r\<rparr>"
    unfolding apply_run_terminal_Inr by blast
  moreover from t(1) have "st \<noteq> PENDING" by auto
  ultimately show ?thesis using assms(2) by (simp add: lifecycle_def)
next
  case created
  then obtain m where "s' = s\<lparr>rs_requested_model := Some m\<rparr>"
    unfolding apply_run_created_Inr by blast
  with assms(2) show ?thesis by (simp add: lifecycle_def)
next
  case started
  then have "rs_status s = PENDING" "s' = s\<lparr>rs_status := RUNNING\<rparr>"
    unfolding apply_run_started_Inr by blast+
  with assms(2) show ?thesis by (auto simp: lifecycle_def)
next
  case request
  then obtain i m where "rs_status s = RUNNING" "rs_model_request_state s = NotStarted"
    "keys (rs_artifacts s) = {''task_spec''}"
    "s' = s\<lparr>rs_model_request_id := Some i, rs_model_request_maximum := Some m,
       rs_model_request_state := Started\<rparr>"
    unfolding apply_request_started_Inr by blast
  with assms(2) show ?thesis by (simp add: lifecycle_def)
next
  case response
  then obtain r where "rs_status s = RUNNING" "rs_model_request_state s = Started"
    "s' = s\<lparr>rs_returned_model := Some r, rs_model_request_state := Completed\<rparr>"
    unfolding apply_response_completed_Inr by blast
  with assms(2) show ?thesis unfolding lifecycle_def by (elim conjE) simp
next
  case ambiguous
  then have "rs_status s = RUNNING" "rs_model_request_state s = Started"
    "s' = s\<lparr>rs_model_request_state := Ambiguous\<rparr>"
    unfolding apply_request_ambiguous_Inr by blast+
  with assms(2) show ?thesis unfolding lifecycle_def by (elim conjE) simp
next
  case evaluated
  then obtain oc where "oc \<in> {''passed'', ''failed'', ''error''}" "rs_status s = RUNNING"
    "set required_evaluation_evidence \<subseteq> keys (rs_artifacts s)" "rs_model_request_state s = Completed"
    "s' = s\<lparr>rs_evaluation_outcome := Some oc\<rparr>"
    unfolding apply_evaluation_completed_Inr by blast
  with assms(2) show ?thesis by (simp add: lifecycle_def)
qed

lemma dispatch_status:
  assumes "dispatch_event l e s = Inr (s', p)"
  shows "is_terminal (rs_status s') \<and> \<not> is_terminal (rs_status s) \<Longrightarrow> p = None"
  using assms
proof (cases rule: dispatch_event_cases)
  case request
  assume "is_terminal (rs_status s') \<and> \<not> is_terminal (rs_status s)"
  with request(3) show ?thesis unfolding apply_request_started_Inr by force
qed (auto simp: handler_Inr)

lemma lifecycle_count [simp]: "lifecycle (s\<lparr>rs_event_count := n\<rparr>) = lifecycle s"
  by (simp add: lifecycle_def)

lemma initial_loop_inv: "replay_inv (initial_loop es)"
  by (simp add: replay_inv_def initial_loop_def ReplayState_def accounting_def lifecycle_def)

lemma replay_event_inv:
  assumes "replay_inv l" and "replay_event e l = Inr l'"
  shows "replay_inv l'"
proof -
  from assms(2) obtain s p where d: "dispatch_event l e (rl_state l) = Inr (s, p)"
    and l': "l' = \<lparr>rl_state = s\<lparr>rs_event_count := rs_event_count s + 1\<rparr>, rl_created = True, rl_pending = p\<rparr>"
    and g: "\<not> is_terminal (rs_status (rl_state l))"
      "rl_pending l = None \<or> ev_event_type e = ''budget.snapshot''"
    by (auto simp: replay_event_Inr)
  have "accounting s p" "lifecycle s"
    using dispatch_accounting [OF d _ g(2)] dispatch_lifecycle [OF d _ g(1)] assms(1)
    by (simp_all add: replay_inv_def)
  moreover have "is_terminal (rs_status s) \<Longrightarrow> p = None"
    using dispatch_status [OF d] g(1) by simp
  ultimately show ?thesis
    by (simp add: l' replay_inv_def)
qed

lemma replay_loop_inv: "rfold replay_event es (initial_loop fs) = Inr l \<Longrightarrow> replay_inv l"
  by (rule rfold_invariant [where P = replay_inv]) (auto intro: initial_loop_inv replay_event_inv)

lemma replay_events_inv:
  assumes "replay_events H rt es = Inr s"
  obtains l where "rfold replay_event es (initial_loop es) = Inr l" and "s = rl_state l" and "replay_inv l"
    and "rt \<Longrightarrow> require_terminal_state l = Inr ()"
  using assms replay_loop_inv by (auto simp: replay_events_Inr)

end
