(* ===== verification/Replay_Properties.thy ===== *)
theory Replay_Properties
  imports Replay
begin

text \<open>
  What the replay of \<open>Replay\<close> guarantees: which streams it accepts, what an accepted stream says
  about the run, and what the hash chain makes of a changed stream.
\<close>

section \<open>Streams grow by appending\<close>

lemma verify_chain_from_append:
  "verify_chain_from H n p seen (xs @ ys) = Inr () \<Longrightarrow> verify_chain_from H n p seen xs = Inr ()"
  by (induction H n p seen xs rule: verify_chain_from.induct) (auto simp: result_simps)

definition chain_link :: "(json \<Rightarrow> string) \<Rightarrow> event_record list \<Rightarrow> event_record \<Rightarrow> bool" where
  "chain_link H xs e =
     (ev_sequence e = int (length xs) \<and> ev_event_id e \<notin> ev_event_id ` set xs
      \<and> (if xs = [] then ev_previous_event_hash e = None \<and> ev_causal_parent_ids e = []
         else ev_previous_event_hash e = Some (content_hash H (last xs))
           \<and> ev_causal_parent_ids e = [ev_event_id (last xs)]))"

lemma verify_chain_from_snoc:
  "verify_chain_from H n p seen (xs @ [e]) = Inr () \<longleftrightarrow>
     verify_chain_from H n p seen xs = Inr () \<and> ev_sequence e = int (n + length xs)
     \<and> ev_event_id e \<notin> set seen \<union> ev_event_id ` set xs
     \<and> (case (if xs = [] then p else Some (last xs)) of
          None \<Rightarrow> ev_previous_event_hash e = None \<and> ev_causal_parent_ids e = []
        | Some q \<Rightarrow> ev_previous_event_hash e = Some (content_hash H q)
            \<and> ev_causal_parent_ids e = [ev_event_id q])"
  by (induction xs arbitrary: n p seen) (auto simp: result_simps split: option.splits if_splits)

lemma verify_event_chain_snoc:
  "verify_event_chain H (xs @ [e]) = Inr () \<longleftrightarrow> verify_event_chain H xs = Inr () \<and> chain_link H xs e"
  by (auto simp: verify_event_chain_def verify_chain_from_snoc chain_link_def)

lemma verify_event_chain_Inl: "verify_event_chain H es = Inl x \<Longrightarrow> x = ReplayIntegrityError"
proof -
  have "verify_chain_from H n p seen es = Inl x \<Longrightarrow> x = ReplayIntegrityError" for n p seen
    by (induction H n p seen es rule: verify_chain_from.induct)
      (auto simp: rbind_def split: option.splits if_splits sum.splits)
  then show "verify_event_chain H es = Inl x \<Longrightarrow> x = ReplayIntegrityError"
    by (simp add: verify_event_chain_def)
qed

lemma verify_event_chain_Nil [simp]: "verify_event_chain H [] = Inr ()"
  by (simp add: verify_event_chain_def)

lemma verify_event_chain_nth:
  "verify_event_chain H es = Inr () \<Longrightarrow> i < length es \<Longrightarrow> chain_link H (take i es) (es ! i)"
proof (induction es rule: rev_induct)
  case (snoc e es)
  then show ?case
    by (cases "i < length es") (auto simp: verify_event_chain_snoc nth_append less_Suc_eq)
qed simp

text \<open>Accepting one more event, as \<open>_append_locked\<close> does.\<close>

lemma replay_events_snoc:
  assumes "es \<noteq> []"
  shows "replay_events H False (es @ [e]) = Inr s \<longleftrightarrow>
    verify_event_chain H es = Inr () \<and> chain_link H es e
    \<and> (\<exists>l l'. rfold replay_event es (initial_loop es) = Inr l \<and> replay_event e l = Inr l' \<and> s = rl_state l')"
proof -
  have "initial_loop (es @ [e]) = initial_loop es"
    using assms by (simp add: initial_loop_def)
  then show ?thesis
    by (auto simp: replay_events_Inr verify_event_chain_snoc rfold_append result_simps replay_event_Inr)
qed

lemma rfold_created:
  "rfold replay_event es l = Inr l' \<Longrightarrow> rl_created l' \<longleftrightarrow> rl_created l \<or> es \<noteq> []"
  by (induction es arbitrary: l) (auto simp: result_simps replay_event_Inr)

lemma rfold_count:
  "rfold replay_event es l = Inr l' \<Longrightarrow> rs_event_count (rl_state l') = rs_event_count (rl_state l) + length es"
proof (induction es arbitrary: l)
  case (Cons e es)
  then obtain m where m: "replay_event e l = Inr m" "rfold replay_event es m = Inr l'"
    by (auto simp: result_simps)
  then obtain s p where d: "dispatch_event l e (rl_state l) = Inr (s, p)"
    and "rl_state m = s\<lparr>rs_event_count := rs_event_count s + 1\<rparr>"
    by (auto simp: replay_event_Inr)
  moreover from d have "rs_event_count s = rs_event_count (rl_state l)"
  proof (cases rule: dispatch_event_cases)
    case snapshot
    then show ?thesis using snapshot_frame [of "rl_state l"] by fastforce
  next
    case request
    then show ?thesis unfolding apply_request_started_Inr by force
  next
    case terminal
    then show ?thesis unfolding apply_run_terminal_Inr by force
  qed (auto simp: handler_Inr)
  ultimately show ?case using Cons.IH [OF m(2)] by simp
qed simp

lemma replay_prefix:
  assumes "replay_events H rt (xs @ ys) = Inr s" and "xs \<noteq> []"
  obtains t where "replay_events H False xs = Inr t"
proof -
  have "initial_loop (xs @ ys) = initial_loop xs"
    using assms(2) by (simp add: initial_loop_def)
  with assms obtain l where l: "rfold replay_event xs (initial_loop xs) = Inr l"
    by (auto simp: replay_events_Inr rfold_append result_simps)
  moreover have "rl_created l" using rfold_created [OF l] assms(2) by simp
  moreover have "verify_event_chain H xs = Inr ()"
    using assms by (auto simp: replay_events_Inr verify_event_chain_def intro: verify_chain_from_append)
  ultimately have "replay_events H False xs = Inr (rl_state l)"
    using assms(2) by (simp add: replay_events_Inr)
  then show thesis by (rule that)
qed

section \<open>Exceptions\<close>

definition integrity_only :: "'a result \<Rightarrow> bool" where
  "integrity_only r = (\<forall>e. r = Inl e \<longrightarrow> e = ReplayIntegrityError)"

lemma integrity_only_intros [simp]:
  "integrity_only (Inr x)" "integrity_only (Inl ReplayIntegrityError)"
  "integrity_only (require b ReplayIntegrityError)" "integrity_only (of_option ReplayIntegrityError m)"
  "integrity_only (map_error (\<lambda>_. ReplayIntegrityError) r)"
  by (cases b; cases m; cases r; simp add: integrity_only_def)+

lemma integrity_only_bind:
  "integrity_only m \<Longrightarrow> (\<And>x. m = Inr x \<Longrightarrow> integrity_only (f x)) \<Longrightarrow> integrity_only (rbind m f)"
  by (cases m) (auto simp: integrity_only_def)

lemma integrity_only_payload [simp]:
  "integrity_only (usage_from_payload d k)" "integrity_only (require_nonempty_string d k)"
  "integrity_only (require_sha256 d k)" "integrity_only (require_artifact_digest d)"
  "integrity_only (validate_artifact_payload d)" "integrity_only (terminal_reason_field d)"
proof -
  show s: "integrity_only (require_nonempty_string d k)" for k
    by (auto simp: require_nonempty_string_def split: option.split json.split)
  show "integrity_only (usage_from_payload d k)"
    by (auto simp: usage_from_payload_def split: option.split json.split)
  show r: "integrity_only (require_sha256 d k)" for k
    unfolding require_sha256_def by (rule integrity_only_bind) (simp_all add: s)
  show "integrity_only (require_artifact_digest d)" by (simp add: require_artifact_digest_def r)
  show "integrity_only (validate_artifact_payload d)"
    unfolding validate_artifact_payload_def by (rule integrity_only_bind) simp_all
  show "integrity_only (terminal_reason_field d)"
    by (auto simp: terminal_reason_field_def split: option.split json.split)
qed

lemma integrity_only_creation [simp]: "integrity_only (validate_creation_payload d)"
  unfolding validate_creation_payload_def
  by (intro integrity_only_bind)
    (auto intro!: integrity_only_bind split: option.split json.split)

lemma integrity_only_position [simp]: "integrity_only (validate_artifact_position s n)"
  unfolding validate_artifact_position_def
  by (intro integrity_only_bind) (simp_all add: correctly_positioned_def split: option.split)

lemma integrity_only_snapshot:
  assumes "accounting s p"
  shows "integrity_only (apply_budget_snapshot s d p)"
proof -
  have sums: "add_usage empty_usage u = Inr u" if "valid_usage u" for u
    using that by simp
  show ?thesis
    unfolding apply_budget_snapshot_def
    using assms sums
    by (intro integrity_only_bind)
      (auto simp: accounting_def split: model_request_state.splits option.split)
qed

lemma dispatch_integrity_only:
  assumes "accounting s (rl_pending l)"
  shows "integrity_only (dispatch_event l e s)"
  unfolding dispatch_event_def Let_def
  using integrity_only_snapshot [OF assms]
  by (auto simp: handler_defs intro!: integrity_only_bind)

lemma rfold_integrity_only:
  "replay_inv l \<Longrightarrow> integrity_only (rfold replay_event es l)"
proof (induction es arbitrary: l)
  case (Cons e es)
  have "integrity_only (replay_event e l)"
    unfolding replay_event_def Let_def
    using Cons.prems
    by (intro integrity_only_bind) (auto simp: replay_inv_def dispatch_integrity_only)
  then show ?case
    using Cons by (auto intro!: integrity_only_bind dest: replay_event_inv)
qed simp

lemma replay_events_integrity_only: "integrity_only (replay_events H rt es)"
proof -
  have "integrity_only (verify_event_chain H es)"
    using verify_event_chain_Inl by (simp add: integrity_only_def)
  moreover have "integrity_only (require_terminal_state l)" for l
    unfolding require_terminal_state_def Let_def by (intro integrity_only_bind) simp_all
  ultimately show ?thesis
    unfolding replay_events_def
    by (auto intro!: integrity_only_bind rfold_integrity_only initial_loop_inv)
qed

section \<open>What the stream says\<close>

lemma dispatch_outcome:
  assumes "dispatch_event l e s = Inr (s', p)" and "rs_evaluation_outcome s' = Some oc"
  shows "rs_evaluation_outcome s = Some oc
    \<or> ev_event_type e = ''evaluation.completed'' \<and> map_of (ev_payload e) ''outcome'' = Some (JStr oc)"
  using assms(1)
proof (cases rule: dispatch_event_cases)
  case snapshot
  then show ?thesis using assms(2) snapshot_frame [of s] by fastforce
next
  case request
  then show ?thesis using assms(2) unfolding apply_request_started_Inr by force
next
  case terminal
  then show ?thesis using assms(2) unfolding apply_run_terminal_Inr by force
next
  case evaluated
  then show ?thesis
    using assms(2) unfolding apply_evaluation_completed_Inr
    by (auto simp: require_nonempty_string_def split: option.splits json.splits if_splits)
qed (use assms(2) in \<open>auto simp: handler_Inr\<close>)

lemma rfold_outcome:
  "rfold replay_event es l = Inr l' \<Longrightarrow> rs_evaluation_outcome (rl_state l') = Some oc \<Longrightarrow>
     rs_evaluation_outcome (rl_state l) = Some oc
     \<or> (\<exists>e \<in> set es. ev_event_type e = ''evaluation.completed''
          \<and> map_of (ev_payload e) ''outcome'' = Some (JStr oc))"
proof (induction es arbitrary: l)
  case (Cons e es)
  then obtain m where m: "replay_event e l = Inr m" "rfold replay_event es m = Inr l'"
    by (auto simp: result_simps)
  then obtain s p where "dispatch_event l e (rl_state l) = Inr (s, p)"
    "rl_state m = s\<lparr>rs_event_count := rs_event_count s + 1\<rparr>"
    by (auto simp: replay_event_Inr)
  with Cons.IH [OF m(2) Cons.prems(2)] dispatch_outcome [of l e "rl_state l" s p oc]
  show ?case by auto
qed simp

lemma dispatch_used:
  assumes "dispatch_event l e s = Inr (s', p)"
  shows "usage_at_most (rs_budget_used s) (rs_budget_used s')"
  using assms
proof (cases rule: dispatch_event_cases)
  case snapshot
  then show ?thesis by (auto simp: apply_budget_snapshot_def result_simps)
next
  case request
  then show ?thesis unfolding apply_request_started_Inr by force
next
  case terminal
  then show ?thesis unfolding apply_run_terminal_Inr by force
qed (auto simp: handler_Inr)

lemma rfold_used:
  "rfold replay_event es l = Inr l' \<Longrightarrow>
     usage_at_most (rs_budget_used (rl_state l)) (rs_budget_used (rl_state l'))"
proof (induction es arbitrary: l)
  case (Cons e es)
  then obtain m where m: "replay_event e l = Inr m" "rfold replay_event es m = Inr l'"
    by (auto simp: result_simps)
  then have "usage_at_most (rs_budget_used (rl_state l)) (rs_budget_used (rl_state m))"
    by (auto simp: replay_event_Inr dest: dispatch_used)
  with Cons.IH [OF m(2)] show ?case by (rule usage_at_most_trans [rotated])
qed simp

section \<open>The hash chain\<close>

lemma chain_head_determines:
  assumes "verify_event_chain H xs = Inr ()" and "verify_event_chain H ys = Inr ()"
    and "xs \<noteq> []" and "ys \<noteq> []" and "content_hash H (last xs) = content_hash H (last ys)"
    and inj: "\<And>a b. a \<in> set xs \<Longrightarrow> b \<in> set ys \<Longrightarrow> content_hash H a = content_hash H b \<Longrightarrow> a = b"
  shows "xs = ys"
  using assms
proof (induction xs arbitrary: ys rule: rev_induct)
  case (snoc x xs)
  from snoc.prems(4) obtain y zs where ys: "ys = zs @ [y]"
    by (cases ys rule: rev_cases) auto
  have eq: "x = y" using snoc.prems(5,6) by (simp add: ys)
  have link: "chain_link H xs x" "chain_link H zs y"
    using snoc.prems(1,2) by (simp_all add: ys verify_event_chain_snoc)
  then have len: "length xs = length zs" by (simp add: chain_link_def eq)
  show ?case
  proof (cases "xs = []")
    case True
    with len show ?thesis by (simp add: ys eq)
  next
    case False
    with len have z: "zs \<noteq> []" by auto
    have "content_hash H (last xs) = content_hash H (last zs)"
      using link False z by (simp add: chain_link_def eq)
    then have "xs = zs"
      using snoc.IH [of zs] snoc.prems(1,2,6) False z by (simp add: ys verify_event_chain_snoc)
    then show ?thesis by (simp add: ys eq)
  qed
qed simp

section \<open>A concrete run\<close>

text \<open>
  A successful run, for the witnesses: a hash that is constant, events whose IDs are their
  sequence numbers, and one event per phase.
\<close>

definition zero_hash :: "json \<Rightarrow> string" where
  "zero_hash j = replicate 64 (CHR ''0'')"

definition demo_event :: "nat \<Rightarrow> string \<times> json dict \<Rightarrow> event_record" where
  "demo_event n tp =
     \<lparr>ev_event_id = show_nat n, ev_run_id = ''run'', ev_sequence = int n,
      ev_causal_parent_ids = (if n = 0 then [] else [show_nat (n - 1)]), ev_event_type = fst tp,
      ev_monotonic_ns = int n, ev_occurred_at = int n, ev_payload = snd tp,
      ev_payload_sha256 = zero_hash JNull,
      ev_previous_event_hash = (if n = 0 then None else Some (zero_hash JNull))\<rparr>"

definition demo_artifact :: "string \<Rightarrow> string \<times> json dict" where
  "demo_artifact name =
     (''artifact.recorded'',
      [(''media_type'', JStr ''text/plain''), (''name'', JStr name), (''sha256'', JStr (zero_hash JNull)),
       (''size_bytes'', JInt 0), (''storage_ref'', JStr (storage_ref_of (zero_hash JNull)))])"

definition demo_snapshot :: "budget_usage \<Rightarrow> budget_usage \<Rightarrow> string \<times> json dict" where
  "demo_snapshot used reserved =
     (''budget.snapshot'', [(''reserved'', usage_json reserved), (''used'', usage_json used)])"

definition demo_maximum :: budget_usage where
  "demo_maximum = empty_usage\<lparr>model_calls := 1, output_tokens := 100\<rparr>"

definition demo_actual :: budget_usage where
  "demo_actual = empty_usage\<lparr>model_calls := 1, output_tokens := 40\<rparr>"

definition no_limits :: budget_limits where
  "no_limits =
     \<lparr>max_input_tokens = None, max_output_tokens = None, max_total_tokens = None,
      max_model_calls = None, max_model_retries = None, max_tool_calls = None,
      max_tool_cpu_seconds = None, max_container_wall_seconds = None,
      max_elapsed_seconds = None, max_estimated_cost_usd = None\<rparr>"

definition demo_created :: "string \<times> json dict" where
  "demo_created =
     (''run.created'',
      [(''budget_limits'', limits_json no_limits), (''candidate_id'', JStr ''c''),
       (''code_revision'', JStr ''r''), (''environment_digest'', JStr (''sha256:'' @ zero_hash JNull)),
       (''experiment_id'', JStr ''e''), (''genome_hash'', JNull), (''model_parameters'', JObj []),
       (''requested_model'', JStr ''m''), (''seed'', JInt 0), (''status'', JStr ''pending''),
       (''task_id'', JStr ''t'')])"

definition demo_bodies :: "(string \<times> json dict) list" where
  "demo_bodies =
     [demo_created,
      (''run.started'', [(''requested_model'', JStr ''m'')]),
      demo_artifact ''task_spec'',
      (''model.request_started'', [(''maximum'', usage_json demo_maximum), (''request_id'', JStr ''q'')]),
      demo_snapshot empty_usage demo_maximum,
      (''model.response_completed'',
        [(''actual'', usage_json demo_actual), (''request_id'', JStr ''q''), (''returned_model'', JStr ''m'')]),
      demo_snapshot demo_actual empty_usage,
      demo_artifact ''patch'', demo_artifact ''evaluation_stdout'', demo_artifact ''evaluation_stderr'',
      demo_artifact ''evaluation'',
      (''evaluation.completed'', [(''outcome'', JStr ''passed''), (''result_sha256'', JStr (zero_hash JNull))]),
      demo_snapshot demo_actual empty_usage,
      (''run.terminal'',
        [(''evaluation_outcome'', JStr ''passed''), (''status'', JStr ''succeeded''), (''terminal_reason'', JNull)])]"

fun number_events :: "nat \<Rightarrow> (string \<times> json dict) list \<Rightarrow> event_record list" where
  "number_events n [] = []"
| "number_events n (b # bs) = demo_event n b # number_events (Suc n) bs"

definition demo_stream :: "event_record list" where
  "demo_stream = number_events 0 demo_bodies"

definition demo_state :: replay_state where
  "demo_state =
     \<lparr>rs_run_id = ''run'', rs_status = SUCCEEDED, rs_budget_used = demo_actual,
      rs_budget_reserved = empty_usage,
      rs_artifacts = map (\<lambda>n. (n, zero_hash JNull)) EXPECTED_ARTIFACT_NAMES,
      rs_absent_artifacts = [], rs_evaluation_outcome = Some ''passed'', rs_requested_model = Some ''m'',
      rs_model_request_id = Some ''q'', rs_model_request_state = Completed,
      rs_model_request_maximum = Some demo_maximum, rs_returned_model = Some ''m'',
      rs_terminal_reason = None, rs_event_count = 14\<rparr>"

lemma demo_stream_replays: "replay_events zero_hash True demo_stream = Inr demo_state"
  by code_simp

text \<open>The same run under another ID.\<close>

definition renamed_stream :: "event_record list" where
  "renamed_stream = map (\<lambda>e. e\<lparr>ev_run_id := ''other''\<rparr>) demo_stream"

lemma renamed_stream_replays:
  "replay_events zero_hash True renamed_stream = Inr (demo_state\<lparr>rs_run_id := ''other''\<rparr>)"
  by code_simp

lemma demo_streams_valid:
  "list_all (valid_event zero_hash) demo_stream" "list_all (valid_event zero_hash) renamed_stream"
  by code_simp+

section \<open>Properties\<close>

text \<open>C15: replay is total and its only exception is \<open>ReplayIntegrityError\<close>: whatever the events and
  their payloads are, malformed ones included, no \<open>ValidationError\<close> of the budget arithmetic and
  no other exception escapes.\<close>

theorem replay_raises_integrity_errors_only:
  "(\<exists>s. replay_events H require_terminal events = Inr s)
   \<or> replay_events H require_terminal events = Inl ReplayIntegrityError"
  using replay_events_integrity_only [of H require_terminal events]
  by (cases "replay_events H require_terminal events") (simp_all add: integrity_only_def)

text \<open>Every nonempty prefix of a stream that replays also replays: a run interrupted between two
  appends can always be replayed by the recovery.\<close>

theorem replay_prefix_closed:
  assumes "replay_events H require_terminal (xs @ ys) = Inr s" and "xs \<noteq> []"
  shows "\<exists>t. replay_events H False xs = Inr t \<and> rs_event_count t = length xs
    \<and> usage_at_most (rs_budget_used t) (rs_budget_used s)"
proof -
  from assms obtain t where t: "replay_events H False xs = Inr t" by (rule replay_prefix)
  have init: "initial_loop (xs @ ys) = initial_loop xs"
    using assms(2) by (simp add: initial_loop_def)
  from t obtain l where l: "rfold replay_event xs (initial_loop xs) = Inr l" "t = rl_state l"
    by (auto simp: replay_events_Inr)
  with assms(1) obtain l' where "rfold replay_event ys l = Inr l'" "s = rl_state l'"
    by (auto simp: replay_events_Inr init rfold_append result_simps)
  then show ?thesis
    using t rfold_count [OF l(1)] rfold_used [of ys l l'] l(2)
    by (simp add: initial_loop_def ReplayState_def)
qed

theorem replay_prefix_closed_witness:
  "\<exists>t. replay_events zero_hash False (take 6 demo_stream) = Inr t \<and> rs_event_count t = 6
     \<and> usage_at_most (rs_budget_used t) demo_actual"
proof -
  have "length (take 6 demo_stream) = 6" by (simp add: demo_stream_def demo_bodies_def)
  moreover from this have "take 6 demo_stream \<noteq> []" by auto
  moreover have "rs_budget_used demo_state = demo_actual" by (simp add: demo_state_def)
  ultimately show ?thesis
    using replay_prefix_closed [of zero_hash True "take 6 demo_stream" "drop 6 demo_stream" demo_state]
      demo_stream_replays by simp
qed

text \<open>C14: a terminal event ends the stream: a stream whose replay has reached a terminal status cannot be
  extended by any event.\<close>

theorem terminal_is_final:
  assumes "replay_events H require_terminal events = Inr s" and "is_terminal (rs_status s)"
  shows "replay_events H require_terminal' (events @ [e]) = Inl ReplayIntegrityError"
proof (cases "replay_events H require_terminal' (events @ [e])")
  case (Inl x)
  then show ?thesis
    using replay_events_integrity_only by (auto simp: integrity_only_def)
next
  case (Inr t)
  have ne: "events \<noteq> []" using assms(1) by (auto simp: replay_events_Inr)
  from Inr have "replay_events H False (events @ [e]) = Inr t" by (auto simp: replay_events_Inr)
  then have "\<exists>l l'. rfold replay_event events (initial_loop events) = Inr l \<and> replay_event e l = Inr l'"
    using replay_events_snoc [OF ne] by blast
  with assms show ?thesis by (auto simp: replay_events_Inr replay_event_Inr)
qed

theorem terminal_is_final_witness:
  "replay_events zero_hash False (demo_stream @ [demo_event 14 (demo_snapshot demo_actual empty_usage)])
     = Inl ReplayIntegrityError"
  using terminal_is_final [OF demo_stream_replays] by (simp add: demo_state_def)

text \<open>C13: a complete stream accounts for its budget: nothing stays reserved, and what is charged is nothing
  without a model request, at most the reserved maximum after a response, and exactly the reserved
  maximum when the request was left ambiguous.\<close>

theorem replay_accounts_budget:
  assumes "replay_events H True events = Inr s"
  shows "rs_budget_reserved s = empty_usage
    \<and> (case rs_model_request_state s of
         NotStarted \<Rightarrow> rs_budget_used s = empty_usage
       | Started \<Rightarrow> False
       | Completed \<Rightarrow> \<exists>m. rs_model_request_maximum s = Some m \<and> usage_at_most (rs_budget_used s) m
           \<and> model_calls (rs_budget_used s) = 1
       | Ambiguous \<Rightarrow> rs_model_request_maximum s = Some (rs_budget_used s)
           \<and> model_calls (rs_budget_used s) = 1)"
proof -
  from assms obtain l where l: "s = rl_state l" "replay_inv l" "require_terminal_state l = Inr ()"
    by (rule replay_events_inv) simp
  then have "rl_pending l = None" "rs_model_request_state s \<noteq> Started" "accounting s (rl_pending l)"
    "rs_budget_reserved s = empty_usage"
    by (simp_all add: result_simps replay_inv_def)
  then show ?thesis
    by (cases "rs_model_request_state s") (auto simp: accounting_def)
qed

theorem replay_accounts_budget_witness:
  "replay_events zero_hash True demo_stream = Inr demo_state
   \<and> rs_budget_reserved demo_state = empty_usage
   \<and> (\<exists>m. rs_model_request_maximum demo_state = Some m \<and> usage_at_most (rs_budget_used demo_state) m)"
proof -
  have "rs_model_request_state demo_state = Completed" by (simp add: demo_state_def)
  then show ?thesis
    using demo_stream_replays replay_accounts_budget [OF demo_stream_replays] by auto
qed

text \<open>C12: a replayed run is only \<open>succeeded\<close> when its stream contains an \<open>evaluation.completed\<close> event with
  the outcome \<open>passed\<close>, its model request was answered, and task, patch and evaluation evidence
  are all bound; it then has no terminal reason.\<close>

theorem success_has_evidence:
  assumes "replay_events H require_terminal events = Inr s" and "rs_status s = SUCCEEDED"
  shows "(\<exists>e \<in> set events. ev_event_type e = ''evaluation.completed''
      \<and> map_of (ev_payload e) ''outcome'' = Some (JStr ''passed''))
    \<and> rs_model_request_state s = Completed \<and> rs_returned_model s \<noteq> None
    \<and> set EXPECTED_ARTIFACT_NAMES \<subseteq> keys (rs_artifacts s)
    \<and> rs_terminal_reason s = None"
proof -
  from assms(1) obtain l where l: "rfold replay_event events (initial_loop events) = Inr l" "s = rl_state l"
    "replay_inv l"
    by (rule replay_events_inv)
  then have lc: "lifecycle s" by (simp add: replay_inv_def)
  with assms(2) have "terminal_status_matches_outcome SUCCEEDED (rs_evaluation_outcome s)"
    by (simp add: lifecycle_def)
  then have oc: "rs_evaluation_outcome s = Some ''passed''"
    by (auto simp: terminal_status_matches_outcome_def split: option.splits if_splits)
  with lc have "rs_model_request_state s = Completed"
    "set required_evaluation_evidence \<subseteq> keys (rs_artifacts s)"
    by (simp_all add: lifecycle_def)
  moreover from this lc assms(2) have "rs_returned_model s \<noteq> None" "rs_terminal_reason s = None"
    "''task_spec'' \<in> keys (rs_artifacts s)"
    by (simp_all add: lifecycle_def)
  moreover have "\<exists>e \<in> set events. ev_event_type e = ''evaluation.completed''
      \<and> map_of (ev_payload e) ''outcome'' = Some (JStr ''passed'')"
    using rfold_outcome [OF l(1)] oc l(2) by (simp add: initial_loop_def ReplayState_def)
  ultimately show ?thesis
    by (simp add: EXPECTED_ARTIFACT_NAMES_def required_evaluation_evidence_def)
qed

theorem success_has_evidence_witness:
  "replay_events zero_hash True demo_stream = Inr demo_state
   \<and> (\<exists>e \<in> set demo_stream. map_of (ev_payload e) ''outcome'' = Some (JStr ''passed''))"
  using demo_stream_replays success_has_evidence [OF demo_stream_replays] by (auto simp: demo_state_def)

text \<open>The head hash commits to the whole stream. If two verified streams of valid events end in events
  with the same content hash, then the streams are equal, or they contain two events with
  different canonical records and the same hash: a collision of the hash function.\<close>

theorem head_hash_commits_to_stream:
  assumes "verify_event_chain H xs = Inr ()" and "verify_event_chain H ys = Inr ()"
    and "xs \<noteq> []" and "ys \<noteq> []" and "list_all (valid_event H) xs" and "list_all (valid_event H) ys"
    and "content_hash H (last xs) = content_hash H (last ys)"
  shows "xs = ys \<or> (\<exists>a \<in> set xs. \<exists>b \<in> set ys. event_json a \<noteq> event_json b
    \<and> H (event_json a) = H (event_json b))"
proof (rule disjCI)
  assume no: "\<not> (\<exists>a \<in> set xs. \<exists>b \<in> set ys. event_json a \<noteq> event_json b
    \<and> H (event_json a) = H (event_json b))"
  show "xs = ys"
  proof (rule chain_head_determines [OF assms(1-4,7)])
    fix a b assume ab: "a \<in> set xs" "b \<in> set ys" "content_hash H a = content_hash H b"
    then have "valid_event H a" "valid_event H b" using assms(5,6) by (auto simp: list_all_iff)
    moreover from ab no have "event_json a = event_json b" by (auto simp: content_hash_def)
    ultimately show "a = b" by (rule event_json_inject)
  qed
qed

theorem head_hash_commits_to_stream_witness:
  "renamed_stream \<noteq> demo_stream \<and> (\<exists>a \<in> set demo_stream. \<exists>b \<in> set renamed_stream.
     event_json a \<noteq> event_json b \<and> zero_hash (event_json a) = zero_hash (event_json b))"
proof -
  have h: "verify_event_chain zero_hash demo_stream = Inr ()" "verify_event_chain zero_hash renamed_stream = Inr ()"
    using demo_stream_replays renamed_stream_replays by (simp_all add: replay_events_Inr)
  have ne: "demo_stream \<noteq> []" "renamed_stream \<noteq> []" "renamed_stream \<noteq> demo_stream"
    by (simp_all add: renamed_stream_def demo_stream_def demo_bodies_def demo_event_def)
  have "content_hash zero_hash (last demo_stream) = content_hash zero_hash (last renamed_stream)"
    by (simp add: content_hash_def zero_hash_def)
  from head_hash_commits_to_stream [OF h ne(1,2) demo_streams_valid this] ne(3) show ?thesis by auto
qed

section \<open>The semantic digest\<close>

text \<open>What the digest is to identify, read off the payloads and not off the normalization: two events
  tell the same when they have the same type and the same payload field by field, save that
  records of the evaluation artifact may differ in its digest, its size and its location.\<close>

definition records_evaluation :: "event_record \<Rightarrow> bool" where
  "records_evaluation e \<longleftrightarrow> ev_event_type e = ''artifact.recorded''
     \<and> (''name'', JStr ''evaluation'') \<in> set (ev_payload e)"

definition tells_same :: "event_record \<Rightarrow> event_record \<Rightarrow> bool" where
  "tells_same a b \<longleftrightarrow> ev_event_type a = ev_event_type b
     \<and> (\<forall>k. (k \<in> {''sha256'', ''size_bytes'', ''storage_ref''} \<and> records_evaluation a \<and> records_evaluation b)
          \<or> map_of (ev_payload a) k = map_of (ev_payload b) k)"

lemma map_of_dict_del: "is_dict d \<Longrightarrow> map_of (dict_del k d) = (map_of d)(k := None)"
proof (induction d)
  case (Cons x d)
  obtain k' v where x: "x = (k', v)" by (cases x)
  with Cons.prems have "k' \<notin> keys d" by auto
  then have "map_of d k' = None" by (simp only: map_of_eq_None_iff not_False_eq_True)
  with Cons show ?case by (auto simp: x fun_eq_iff)
qed simp

lemma set_dict_del: "x \<in> set (dict_del k d) \<Longrightarrow> x \<in> set d"
proof (induction d)
  case (Cons y d)
  then show ?case by (cases y) (auto split: if_splits)
qed simp

lemma wf_dict_del: "wf_json (JObj d) \<Longrightarrow> wf_json (JObj (dict_del k d))"
proof (induction d)
  case (Cons x d)
  obtain k' v where x: "x = (k', v)" by (cases x)
  with Cons show ?case by (auto simp: x dest: set_dict_del)
qed simp

lemma records_evaluation_iff:
  assumes "wf_json (JObj (ev_payload e))"
  shows "records_evaluation e \<longleftrightarrow>
    ev_event_type e = ''artifact.recorded'' \<and> map_of (ev_payload e) ''name'' = Some (JStr ''evaluation'')"
  using assms by (simp add: records_evaluation_def is_dict_distinct map_of_eq_Some_iff)

lemma map_of_normalized_payload:
  assumes "wf_json (JObj (ev_payload e))"
  shows "map_of (normalized_payload e) k =
    (if records_evaluation e \<and> k \<in> {''sha256'', ''size_bytes'', ''storage_ref''} then None
     else map_of (ev_payload e) k)"
proof -
  have "is_dict (dict_del ''sha256'' (ev_payload e))" "is_dict (dict_del ''size_bytes'' (dict_del ''sha256'' (ev_payload e)))"
    using wf_dict_del [OF assms, of "''sha256''", THEN wf_dict_del, of "''size_bytes''"] wf_dict_del [OF assms, of "''sha256''"]
    by simp_all
  with assms show ?thesis
    unfolding normalized_payload_def Let_def records_evaluation_iff [OF assms, symmetric]
    by (simp add: map_of_dict_del)
qed

lemma wf_normalized_payload:
  "wf_json (JObj (ev_payload e)) \<Longrightarrow> wf_json (JObj (normalized_payload e))"
  by (simp add: normalized_payload_def Let_def wf_dict_del del: wf_json.simps)

lemma wf_normalized_event:
  "wf_json (JObj (ev_payload e)) \<Longrightarrow> wf_json (normalized_event e)"
  using wf_normalized_payload [of e] by (simp add: normalized_event_def less_char_def)

lemma normalized_event_inject:
  assumes "wf_json (JObj (ev_payload a))" and "wf_json (JObj (ev_payload b))"
  shows "normalized_event a = normalized_event b \<longleftrightarrow> tells_same a b"
proof -
  note m = map_of_normalized_payload [OF assms(1)] map_of_normalized_payload [OF assms(2)]
  have d: "is_dict (normalized_payload a)" "is_dict (normalized_payload b)"
    using wf_normalized_payload [OF assms(1)] wf_normalized_payload [OF assms(2)] by simp_all
  have "normalized_payload a = normalized_payload b \<longleftrightarrow> (\<forall>k. map_of (normalized_payload a) k = map_of (normalized_payload b) k)"
    using dict_eqI [OF d] by (auto simp: fun_eq_iff)
  also have "\<dots> \<longleftrightarrow> tells_same a b" if t: "ev_event_type a = ev_event_type b"
  proof
    assume eq: "\<forall>k. map_of (normalized_payload a) k = map_of (normalized_payload b) k"
    from spec [OF this, of "''name''"] t have "records_evaluation a \<longleftrightarrow> records_evaluation b"
      unfolding m by (simp add: records_evaluation_iff [OF assms(1)] records_evaluation_iff [OF assms(2)])
    with eq t show "tells_same a b" unfolding m tells_same_def by metis
  next
    assume s: "tells_same a b"
    then have same: "(k \<in> {''sha256'', ''size_bytes'', ''storage_ref''} \<and> records_evaluation a \<and> records_evaluation b)
        \<or> map_of (ev_payload a) k = map_of (ev_payload b) k" for k
      unfolding tells_same_def by (rule conjunct2 [THEN spec])
    from this [of "''name''"] t have "records_evaluation a \<longleftrightarrow> records_evaluation b"
      by (simp add: records_evaluation_iff [OF assms(1)] records_evaluation_iff [OF assms(2)])
    with same show "\<forall>k. map_of (normalized_payload a) k = map_of (normalized_payload b) k"
      unfolding m by metis
  qed
  finally have p: "normalized_payload a = normalized_payload b \<longleftrightarrow> tells_same a b"
    if "ev_event_type a = ev_event_type b" using that .
  have "normalized_event a = normalized_event b \<longleftrightarrow>
      ev_event_type a = ev_event_type b \<and> normalized_payload a = normalized_payload b"
    by (simp add: normalized_event_def)
  moreover have "tells_same a b \<Longrightarrow> ev_event_type a = ev_event_type b"
    by (simp only: tells_same_def)
  ultimately show ?thesis using p by blast
qed

lemma normalized_events_inject:
  assumes "list_all (\<lambda>e. wf_json (JObj (ev_payload e))) xs" and "list_all (\<lambda>e. wf_json (JObj (ev_payload e))) ys"
  shows "map normalized_event xs = map normalized_event ys \<longleftrightarrow> list_all2 tells_same xs ys"
  using assms
  by (induction xs ys rule: list_induct2') (auto simp: normalized_event_inject simp del: wf_json.simps)

lemma valid_event_payload: "valid_event H e \<Longrightarrow> wf_json (JObj (ev_payload e))"
  by (simp only: valid_event_def valid_event_fields_def)

text \<open>C16: the semantic digest identifies runs by what their events tell. For two streams of valid events
  that have a digest, equal event types and payloads, field by field, give equal digests, whatever
  the run IDs, event IDs, timestamps and hash chains, and whatever digest, size and location the
  records of the evaluation artifact carry; no other field of any payload may differ. If the
  digests are equal, then the streams tell the same, or SHA-256 maps two different canonical texts,
  those of the two digested lists, to one digest.\<close>

theorem semantic_digest_identifies_runs:
  assumes "list_all (valid_event (json_sha256 sha)) xs" and "list_all (valid_event (json_sha256 sha)) ys"
    and "semantic_digest (json_sha256 sha) xs = Inr d" and "semantic_digest (json_sha256 sha) ys = Inr d'"
  shows "(list_all2 tells_same xs ys \<longrightarrow> d = d')
    \<and> (d = d' \<longrightarrow> list_all2 tells_same xs ys
        \<or> (utf8_encode (dumps (JArr (map normalized_event xs))) \<noteq> utf8_encode (dumps (JArr (map normalized_event ys)))
            \<and> sha (utf8_encode (dumps (JArr (map normalized_event xs))))
              = sha (utf8_encode (dumps (JArr (map normalized_event ys))))))"
proof -
  have w: "list_all (\<lambda>e. wf_json (JObj (ev_payload e))) xs" "list_all (\<lambda>e. wf_json (JObj (ev_payload e))) ys"
    using assms(1,2) by (auto simp: list_all_iff dest: valid_event_payload simp del: wf_json.simps)
  then have a: "wf_json (JArr (map normalized_event xs))" "wf_json (JArr (map normalized_event ys))"
    by (auto simp: list_all_iff intro: wf_normalized_event simp del: wf_json.simps(7))
  have h: "d = sha (utf8_encode (dumps (JArr (map normalized_event xs))))"
    "d' = sha (utf8_encode (dumps (JArr (map normalized_event ys))))"
    using assms(3,4) by (auto simp: semantic_digest_def json_sha256_def sha256_bytes_def rbind_eq_Inr)
  have "utf8_encode (dumps (JArr (map normalized_event xs))) = utf8_encode (dumps (JArr (map normalized_event ys)))
      \<longleftrightarrow> list_all2 tells_same xs ys"
    using dumps_inject_iff [OF a] normalized_events_inject [OF w] utf8_encode_inject by auto
  then show ?thesis unfolding h by metis
qed

text \<open>The run of the demonstration under another ID, with another size of its evaluation artifact.\<close>

definition resealed_stream :: "event_record list" where
  "resealed_stream = map (\<lambda>e. if map_of (ev_payload e) ''name'' = Some (JStr ''evaluation'')
      then e\<lparr>ev_run_id := ''other'', ev_payload := dict_set ''size_bytes'' (JInt 7) (ev_payload e)\<rparr>
      else e\<lparr>ev_run_id := ''other''\<rparr>) demo_stream"

theorem semantic_digest_identifies_runs_witness:
  "resealed_stream \<noteq> renamed_stream
   \<and> list_all2 tells_same demo_stream resealed_stream
   \<and> semantic_digest (json_sha256 (\<lambda>_. zero_hash JNull)) demo_stream
       = semantic_digest (json_sha256 (\<lambda>_. zero_hash JNull)) resealed_stream"
proof -
  have H: "json_sha256 (\<lambda>_. zero_hash JNull) = zero_hash"
    by (simp add: fun_eq_iff json_sha256_def sha256_bytes_def zero_hash_def)
  have "case replay_events zero_hash False demo_stream of Inl _ \<Rightarrow> False | Inr _ \<Rightarrow> True"
    "case replay_events zero_hash False resealed_stream of Inl _ \<Rightarrow> False | Inr _ \<Rightarrow> True"
    by code_simp+
  then obtain d d' where d: "semantic_digest zero_hash demo_stream = Inr d" "semantic_digest zero_hash resealed_stream = Inr d'"
    by (auto simp: semantic_digest_def split: sum.splits)
  have "list_all (valid_event zero_hash) resealed_stream" by code_simp
  note v = demo_streams_valid(1) this
  have "map normalized_event demo_stream = map normalized_event resealed_stream" by code_simp
  then have "list_all2 tells_same demo_stream resealed_stream"
    using v by (subst normalized_events_inject [symmetric])
      (auto simp: list_all_iff dest: valid_event_payload simp del: wf_json.simps)
  moreover from this have "d = d'"
    using semantic_digest_identifies_runs [of "\<lambda>_. zero_hash JNull", unfolded H, OF v d] by blast
  moreover have "resealed_stream \<noteq> renamed_stream" by code_simp
  ultimately show ?thesis unfolding H using d by simp
qed

end
