(* ===== verification/Ledger.thy ===== *)
theory Ledger
  imports Replay_Properties Clock
begin

text \<open>
  The database of \<open>src/src/guildmind/storage/events.py\<close> and what its \<open>EventStore\<close> reads out of it:
  the four tables as lists of rows, the insert and update statements with the constraints of the
  schema, and the \<open>_..._locked\<close> methods that load and cross-check a run. They are functions of
  the database, so that the store operations of \<open>Event_Store\<close> can lift them.

  A text column that holds JSON is modelled by what \<open>model_validate(json.loads(text))\<close> makes of
  the text: \<open>Canonical v\<close> is the canonical text of \<open>v\<close> (canonical texts determine their value,
  \<open>Serialization.dumps_inject_iff\<close>), \<open>Variant v t\<close> another text that loads as \<open>v\<close>, and
  \<open>Malformed t\<close> a text that does not load.
\<close>

section \<open>Tables\<close>

datatype 'a column = Canonical 'a | Variant 'a string | Malformed string

record run_row =
  rr_run_id :: string
  rr_status :: string
  rr_manifest_revision :: int
  rr_manifest_json :: "run_manifest column"
  rr_manifest_sha256 :: string

record manifest_row =
  mr_run_id :: string
  mr_revision :: int
  mr_manifest_json :: "run_manifest column"
  mr_manifest_sha256 :: string

record event_row =
  vr_run_id :: string
  vr_sequence :: int
  vr_event_id :: string
  vr_event_type :: string
  vr_record_json :: "event_record column"
  vr_event_hash :: string

record budget_row =
  br_run_id :: string
  br_limits_json :: "budget_limits column"
  br_used_json :: "budget_usage column"
  br_reserved_json :: "budget_usage column"

record database =
  runs :: "run_row list"
  run_manifests :: "manifest_row list"
  events :: "event_row list"
  budget_state :: "budget_row list"

definition empty_database :: database where
  "empty_database = \<lparr>runs = [], run_manifests = [], events = [], budget_state = []\<rparr>"

definition load_column :: "('a \<Rightarrow> bool) \<Rightarrow> 'a column \<Rightarrow> 'a result" where
  "load_column valid c =
     (case c of
        Canonical v \<Rightarrow> if valid v then Inr v else Inl ValidationError
      | Variant v _ \<Rightarrow> if valid v then Inr v else Inl ValidationError
      | Malformed _ \<Rightarrow> Inl ValidationError)"

section \<open>Statements\<close>

text \<open>
  The inserts check the primary keys, the unique event ID and the references to \<open>runs\<close>; a
  violation raises sqlite3's \<open>IntegrityError\<close>, a \<open>DatabaseError\<close>.
\<close>

definition run_exists :: "database \<Rightarrow> string \<Rightarrow> bool" where
  "run_exists db run_id = (run_id \<in> rr_run_id ` set (runs db))"

definition insert_run :: "run_row \<Rightarrow> database \<Rightarrow> database result" where
  "insert_run r db =
     (if run_exists db (rr_run_id r) then Inl DatabaseError else Inr (db\<lparr>runs := runs db @ [r]\<rparr>))"

definition insert_manifest :: "manifest_row \<Rightarrow> database \<Rightarrow> database result" where
  "insert_manifest r db =
     (if (mr_run_id r, mr_revision r) \<in> (\<lambda>q. (mr_run_id q, mr_revision q)) ` set (run_manifests db)
        \<or> \<not> run_exists db (mr_run_id r)
      then Inl DatabaseError else Inr (db\<lparr>run_manifests := run_manifests db @ [r]\<rparr>))"

definition insert_event :: "event_row \<Rightarrow> database \<Rightarrow> database result" where
  "insert_event r db =
     (if (vr_run_id r, vr_sequence r) \<in> (\<lambda>q. (vr_run_id q, vr_sequence q)) ` set (events db)
        \<or> vr_event_id r \<in> vr_event_id ` set (events db) \<or> \<not> run_exists db (vr_run_id r)
      then Inl DatabaseError else Inr (db\<lparr>events := events db @ [r]\<rparr>))"

definition insert_budget :: "budget_row \<Rightarrow> database \<Rightarrow> database result" where
  "insert_budget r db =
     (if br_run_id r \<in> br_run_id ` set (budget_state db) \<or> \<not> run_exists db (br_run_id r)
      then Inl DatabaseError else Inr (db\<lparr>budget_state := budget_state db @ [r]\<rparr>))"

definition update_run :: "run_row \<Rightarrow> database \<Rightarrow> database" where
  "update_run r db = db\<lparr>runs := map (\<lambda>q. if rr_run_id q = rr_run_id r then r else q) (runs db)\<rparr>"

definition update_budget :: "string \<Rightarrow> budget_usage \<Rightarrow> budget_usage \<Rightarrow> database \<Rightarrow> database" where
  "update_budget run_id used reserved db =
     db\<lparr>budget_state := map (\<lambda>q. if br_run_id q = run_id
         then q\<lparr>br_used_json := Canonical used, br_reserved_json := Canonical reserved\<rparr> else q)
       (budget_state db)\<rparr>"

definition foreign_keys_ok :: "database \<Rightarrow> bool" where
  "foreign_keys_ok db =
     (list_all (\<lambda>q. run_exists db (mr_run_id q)) (run_manifests db)
      \<and> list_all (\<lambda>q. run_exists db (vr_run_id q)) (events db)
      \<and> list_all (\<lambda>q. run_exists db (br_run_id q)) (budget_state db))"

section \<open>Comparing as Python does\<close>

text \<open>
  Python compares numbers by value, so a JSON 1, 1.0 and true are equal, also inside lists and
  dictionaries.
\<close>

fun json_number :: "json \<Rightarrow> rat option" where
  "json_number (JBool b) = Some (if b then 1 else 0)"
| "json_number (JInt i) = Some (of_int i)"
| "json_number (JFloat x) = Some x"
| "json_number _ = None"

fun py_eq :: "json \<Rightarrow> json \<Rightarrow> bool"
  and py_eq_list :: "json list \<Rightarrow> json list \<Rightarrow> bool"
  and py_eq_dict :: "(string \<times> json) list \<Rightarrow> (string \<times> json) list \<Rightarrow> bool" where
  "py_eq (JArr xs) b = (case b of JArr ys \<Rightarrow> py_eq_list xs ys | _ \<Rightarrow> False)"
| "py_eq (JObj d) b = (case b of JObj e \<Rightarrow> py_eq_dict d e | _ \<Rightarrow> False)"
| "py_eq (JStr s) b = (b = JStr s)"
| "py_eq JNull b = (b = JNull)"
| "py_eq (JBool x) b = (json_number b = Some (if x then 1 else 0))"
| "py_eq (JInt i) b = (json_number b = Some (of_int i))"
| "py_eq (JFloat x) b = (json_number b = Some x)"
| "py_eq_list [] ys = (ys = [])"
| "py_eq_list (x # xs) ys = (case ys of [] \<Rightarrow> False | y # ys' \<Rightarrow> py_eq x y \<and> py_eq_list xs ys')"
| "py_eq_dict [] e = (e = [])"
| "py_eq_dict ((k, x) # d) e =
     (case e of [] \<Rightarrow> False | (k', y) # e' \<Rightarrow> k = k' \<and> py_eq x y \<and> py_eq_dict d e')"

definition immutable_fields_eq :: "run_manifest \<Rightarrow> run_manifest \<Rightarrow> bool" where
  "immutable_fields_eq m n =
     (rm_run_id m = rm_run_id n \<and> rm_experiment_id m = rm_experiment_id n
      \<and> rm_task_id m = rm_task_id n \<and> rm_candidate_id m = rm_candidate_id n
      \<and> rm_genome_hash m = rm_genome_hash n \<and> rm_requested_model m = rm_requested_model n
      \<and> py_eq_dict (rm_model_parameters m) (rm_model_parameters n) \<and> rm_seed m = rm_seed n
      \<and> rm_environment_digest m = rm_environment_digest n \<and> rm_code_revision m = rm_code_revision n
      \<and> rm_budget_limits m = rm_budget_limits n \<and> rm_created_at m = rm_created_at n)"

definition mutable_fields_eq :: "run_manifest \<Rightarrow> run_manifest \<Rightarrow> bool" where
  "mutable_fields_eq m n =
     (rm_artifacts m = rm_artifacts n \<and> rm_finished_at m = rm_finished_at n
      \<and> rm_returned_model m = rm_returned_model n \<and> rm_started_at m = rm_started_at n
      \<and> rm_status m = rm_status n \<and> rm_terminal_reason m = rm_terminal_reason n)"

definition manifest_eq :: "run_manifest \<Rightarrow> run_manifest \<Rightarrow> bool" where
  "manifest_eq m n = (immutable_fields_eq m n \<and> mutable_fields_eq m n)"

section \<open>Payloads and transitions\<close>

definition transition_manifest :: "(run_manifest \<Rightarrow> run_manifest) \<Rightarrow> run_manifest \<Rightarrow> run_manifest result" where
  "transition_manifest changes manifest = validate_manifest (changes manifest)"

definition validate_manifest_transition :: "run_manifest \<Rightarrow> run_manifest \<Rightarrow> unit result" where
  "validate_manifest_transition current proposed =
     (if rm_run_id current \<noteq> rm_run_id proposed then Inl ValueError
      else if \<not> immutable_fields_eq current proposed then Inl StoreIntegrityError
      else if is_terminal (rm_status current) then Inl StoreIntegrityError
      else if rm_status current = PENDING \<and> rm_status proposed = SUCCEEDED then Inl StoreIntegrityError
      else if rm_status current = RUNNING \<and> rm_status proposed = PENDING then Inl StoreIntegrityError
      else if rm_started_at current \<noteq> None \<and> rm_started_at proposed \<noteq> rm_started_at current
        then Inl StoreIntegrityError
      else if rm_returned_model current \<noteq> None \<and> rm_returned_model proposed \<noteq> rm_returned_model current
        then Inl StoreIntegrityError
      else require (list_all (\<lambda>(name, reference). map_of (rm_artifacts proposed) name = Some reference)
        (rm_artifacts current)) StoreIntegrityError)"

definition artifact_payload :: "string \<Rightarrow> artifact_ref \<Rightarrow> json dict" where
  "artifact_payload name artifact =
     [(''media_type'', JStr (ar_media_type artifact)), (''name'', JStr name),
      (''sha256'', JStr (ar_sha256 artifact)), (''size_bytes'', JInt (ar_size_bytes artifact)),
      (''storage_ref'', JStr (ar_storage_ref artifact))]"

definition manifest_creation_payload :: "run_manifest \<Rightarrow> json dict" where
  "manifest_creation_payload m =
     [(''budget_limits'', limits_json (rm_budget_limits m)), (''candidate_id'', JStr (rm_candidate_id m)),
      (''code_revision'', JStr (rm_code_revision m)),
      (''environment_digest'', JStr (rm_environment_digest m)),
      (''experiment_id'', JStr (rm_experiment_id m)), (''genome_hash'', opt_json JStr (rm_genome_hash m)),
      (''model_parameters'', JObj (rm_model_parameters m)),
      (''requested_model'', JStr (rm_requested_model m)), (''seed'', JInt (rm_seed m)),
      (''status'', JStr (status_value PENDING)), (''task_id'', JStr (rm_task_id m))]"

section \<open>Loading a run\<close>

abbreviation store_error :: "'a result \<Rightarrow> 'a result" where
  "store_error \<equiv> map_error (\<lambda>e. if e = ReplayIntegrityError then StoreIntegrityError else e)"

definition find_run :: "database \<Rightarrow> string \<Rightarrow> run_row option" where
  "find_run db run_id = find (\<lambda>q. rr_run_id q = run_id) (runs db)"

definition require_run :: "database \<Rightarrow> string \<Rightarrow> unit result" where
  "require_run db run_id = require (find_run db run_id \<noteq> None) KeyError"

definition load_manifest_locked :: "(json \<Rightarrow> string) \<Rightarrow> database \<Rightarrow> string \<Rightarrow> run_manifest result" where
  "load_manifest_locked H db run_id =
     rbind (of_option KeyError (find_run db run_id)) (\<lambda>row.
     rbind (load_column valid_manifest (rr_manifest_json row)) (\<lambda>manifest.
     rbind (require (H (manifest_json manifest) = rr_manifest_sha256 row) StoreIntegrityError) (\<lambda>_.
     rbind (require (rr_status row = status_value (rm_status manifest)) StoreIntegrityError) (\<lambda>_.
     rbind (of_option StoreIntegrityError
       (find (\<lambda>q. mr_run_id q = run_id \<and> mr_revision q = rr_manifest_revision row) (run_manifests db))) (\<lambda>history.
     rbind (require (mr_manifest_json history = rr_manifest_json row
         \<and> mr_manifest_sha256 history = rr_manifest_sha256 row) StoreIntegrityError) (\<lambda>_.
     Inr manifest))))))"

definition is_canonical :: "'a column \<Rightarrow> bool" where
  "is_canonical c = (case c of Canonical _ \<Rightarrow> True | _ \<Rightarrow> False)"

text \<open>The loop over the revisions of one run, with the previous manifest.\<close>

definition validate_revision ::
  "(json \<Rightarrow> string) \<Rightarrow> string \<Rightarrow> manifest_row \<Rightarrow> run_manifest option \<Rightarrow> run_manifest option result" where
  "validate_revision H run_id row previous =
     rbind (load_column valid_manifest (mr_manifest_json row)) (\<lambda>manifest.
     rbind (require (rm_run_id manifest = run_id) StoreIntegrityError) (\<lambda>_.
     rbind (require (is_canonical (mr_manifest_json row)) StoreIntegrityError) (\<lambda>_.
     rbind (require (mr_manifest_sha256 row = H (manifest_json manifest)) StoreIntegrityError) (\<lambda>_.
     rbind (case previous of
         None \<Rightarrow> Inr ()
       | Some p \<Rightarrow> map_error (\<lambda>_. StoreIntegrityError) (validate_manifest_transition p manifest)) (\<lambda>_.
     Inr (Some manifest))))))"

definition validate_manifest_history_locked ::
  "(json \<Rightarrow> string) \<Rightarrow> database \<Rightarrow> string \<Rightarrow> run_manifest \<Rightarrow> int \<Rightarrow> unit result" where
  "validate_manifest_history_locked H db run_id current current_revision =
     (let rows = sort_key mr_revision (filter (\<lambda>q. mr_run_id q = run_id) (run_manifests db)) in
      rbind (require (0 \<le> current_revision \<and> int (length rows) = current_revision + 1
          \<and> map mr_revision rows = map int [0..<length rows]) StoreIntegrityError) (\<lambda>_.
      rbind (rfold (validate_revision H run_id) rows None) (\<lambda>previous.
      require (case previous of None \<Rightarrow> False | Some p \<Rightarrow> manifest_eq p current) StoreIntegrityError)))"

definition load_budget_locked ::
  "(json \<Rightarrow> string) \<Rightarrow> database \<Rightarrow> string \<Rightarrow> (budget_usage \<times> budget_usage) result" where
  "load_budget_locked H db run_id =
     rbind (of_option KeyError (find (\<lambda>q. br_run_id q = run_id) (budget_state db))) (\<lambda>row.
     rbind (load_column valid_limits (br_limits_json row)) (\<lambda>limits.
     rbind (load_column valid_usage (br_used_json row)) (\<lambda>used.
     rbind (load_column valid_usage (br_reserved_json row)) (\<lambda>reserved.
     rbind (load_manifest_locked H db run_id) (\<lambda>manifest.
     rbind (require (limits = rm_budget_limits manifest) StoreIntegrityError) (\<lambda>_.
     rbind (require (is_canonical (br_limits_json row)) StoreIntegrityError) (\<lambda>_.
     rbind (require (is_canonical (br_used_json row)) StoreIntegrityError) (\<lambda>_.
     rbind (require (is_canonical (br_reserved_json row)) StoreIntegrityError) (\<lambda>_.
     Inr (used, reserved))))))))))"

text \<open>The loop over the event rows: the events so far and the hash of the last one.\<close>

definition load_event_row ::
  "(json \<Rightarrow> string) \<Rightarrow> string \<Rightarrow> event_row \<Rightarrow> event_record list \<times> string option
     \<Rightarrow> (event_record list \<times> string option) result" where
  "load_event_row H run_id row = (\<lambda>(es, previous_hash).
     rbind (load_column (valid_event H) (vr_record_json row)) (\<lambda>event.
     let event_hash = content_hash H event; expected = int (length es) in
     rbind (require (vr_run_id row = run_id \<and> ev_run_id event = run_id) StoreIntegrityError) (\<lambda>_.
     rbind (require (vr_sequence row = expected \<and> ev_sequence event = expected) StoreIntegrityError) (\<lambda>_.
     rbind (require (vr_event_id row = ev_event_id event) StoreIntegrityError) (\<lambda>_.
     rbind (require (vr_event_type row = ev_event_type event) StoreIntegrityError) (\<lambda>_.
     rbind (require (is_canonical (vr_record_json row)) StoreIntegrityError) (\<lambda>_.
     rbind (require (ev_previous_event_hash event = previous_hash) StoreIntegrityError) (\<lambda>_.
     rbind (require (event_hash = vr_event_hash row) StoreIntegrityError) (\<lambda>_.
     Inr (es @ [event], Some event_hash))))))))))"

definition event_rows :: "database \<Rightarrow> string \<Rightarrow> event_row list" where
  "event_rows db run_id = sort_key vr_sequence (filter (\<lambda>q. vr_run_id q = run_id) (events db))"

definition list_events_locked :: "(json \<Rightarrow> string) \<Rightarrow> database \<Rightarrow> string \<Rightarrow> event_record list result" where
  "list_events_locked H db run_id =
     (let rows = event_rows db run_id in
      if rows = [] then rbind (require_run db run_id) (\<lambda>_. Inr [])
      else rbind (rfold (load_event_row H run_id) rows ([], None)) (\<lambda>(es, _). Inr es))"

definition manifest_artifacts :: "run_manifest \<Rightarrow> string dict" where
  "manifest_artifacts m = map (\<lambda>(name, artifact). (name, ar_sha256 artifact)) (rm_artifacts m)"

definition validated_state_locked ::
  "(json \<Rightarrow> string) \<Rightarrow> database \<Rightarrow> string \<Rightarrow> run_manifest \<Rightarrow> replay_state result" where
  "validated_state_locked H db run_id manifest =
     rbind (list_events_locked H db run_id) (\<lambda>es.
     rbind (store_error (replay_events H False es)) (\<lambda>state.
     rbind (require (py_eq_dict (ev_payload (hd es)) (manifest_creation_payload manifest))
       StoreIntegrityError) (\<lambda>_.
     rbind (load_budget_locked H db run_id) (\<lambda>(used, reserved).
     rbind (require (rs_status state = rm_status manifest) StoreIntegrityError) (\<lambda>_.
     rbind (require (rs_budget_used state = used \<and> rs_budget_reserved state = reserved)
       StoreIntegrityError) (\<lambda>_.
     rbind (require (rs_artifacts state = manifest_artifacts manifest) StoreIntegrityError) (\<lambda>_.
     rbind (require (rs_returned_model state = rm_returned_model manifest) StoreIntegrityError) (\<lambda>_.
     Inr state))))))))"

definition validate_terminal_state_locked ::
  "(json \<Rightarrow> string) \<Rightarrow> database \<Rightarrow> string \<Rightarrow> run_manifest \<Rightarrow> unit result" where
  "validate_terminal_state_locked H db run_id manifest =
     rbind (validated_state_locked H db run_id manifest) (\<lambda>state.
     rbind (list_events_locked H db run_id) (\<lambda>es.
     rbind (store_error (replay_events H True es)) (\<lambda>_.
     require (rs_terminal_reason state = rm_terminal_reason manifest) StoreIntegrityError)))"

section \<open>Verified roots\<close>

record verified_run_root =
  vrr_manifest :: run_manifest
  vrr_manifest_revision :: int
  vrr_manifest_sha256 :: string
  vrr_event_count :: nat
  vrr_head_event_sha256 :: string

definition verified_root :: "(json \<Rightarrow> string) \<Rightarrow> database \<Rightarrow> run_row \<Rightarrow> verified_run_root result" where
  "verified_root H db row =
     (let run_id = rr_run_id row; manifest_revision = rr_manifest_revision row in
      rbind (load_manifest_locked H db run_id) (\<lambda>manifest.
      rbind (validate_manifest_history_locked H db run_id manifest manifest_revision) (\<lambda>_.
      rbind (validated_state_locked H db run_id manifest) (\<lambda>state.
      rbind (list_events_locked H db run_id) (\<lambda>es.
      rbind (if is_terminal (rm_status manifest) then
          rbind (store_error (replay_events H True es)) (\<lambda>_.
          require (rs_terminal_reason state = rm_terminal_reason manifest) StoreIntegrityError)
        else Inr ()) (\<lambda>_.
      Inr \<lparr>vrr_manifest = manifest, vrr_manifest_revision = manifest_revision,
           vrr_manifest_sha256 = H (manifest_json manifest), vrr_event_count = length es,
           vrr_head_event_sha256 = content_hash H (last es)\<rparr>))))))"

definition verified_roots :: "(json \<Rightarrow> string) \<Rightarrow> database \<Rightarrow> verified_run_root list result" where
  "verified_roots H db =
     rbind (require (foreign_keys_ok db) StoreIntegrityError) (\<lambda>_.
     rfold (\<lambda>row roots. rbind (verified_root H db row) (\<lambda>root. Inr (roots @ [root])))
       (sort_key rr_run_id (runs db)) [])"

definition root_identity :: "verified_run_root \<Rightarrow> json" where
  "root_identity r =
     JObj [(''event_count'', JInt (int (vrr_event_count r))),
       (''head_event_sha256'', JStr (vrr_head_event_sha256 r)),
       (''manifest_revision'', JInt (vrr_manifest_revision r)),
       (''manifest_sha256'', JStr (vrr_manifest_sha256 r)),
       (''run_id'', JStr (rm_run_id (vrr_manifest r)))]"

definition verified_run_roots_sha256 :: "(json \<Rightarrow> string) \<Rightarrow> verified_run_root list \<Rightarrow> string result" where
  "verified_run_roots_sha256 H roots =
     (let ordered = sort_key (\<lambda>r. rm_run_id (vrr_manifest r)) roots in
      if \<not> distinct (map (\<lambda>r. rm_run_id (vrr_manifest r)) ordered) then Inl ValueError
      else Inr (H (JObj [(''roots'', JArr (map root_identity ordered)),
        (''schema_version'', JStr ''guildmind.verified-run-root-snapshot/v1'')])))"

end
