(* ===== verification/Event_Store.thy ===== *)
theory Event_Store
  imports Ledger
begin

text \<open>
  Model of the \<open>EventStore\<close> operations of \<open>src/src/guildmind/storage/events.py\<close>. The store is the
  committed database together with what the operations consume: the stamps of the clock and the
  outcomes of the checks on the outside world. These checks (\<open>_validate_tracked_path\<close> on the
  file system, \<open>_validate_schema_locked\<close> and \<open>PRAGMA quick_check\<close> on the SQLite file,
  \<open>_verify_connection_settings\<close>, \<open>BEGIN\<close>) each either pass or raise; \<open>st_env n\<close> is the outcome of
  the \<open>n\<close>-th of them. An operation is a state-and-exception function; \<open>transaction\<close> verifies the
  whole ledger before and after the body and restores the database when anything raises, while
  stamps and checks stay consumed.
\<close>

section \<open>The store\<close>

record store =
  st_db :: database
  st_clock :: "nat \<Rightarrow> clock_stamp result"
  st_ticks :: nat
  st_env :: "nat \<Rightarrow> bool"
  st_checks :: nat
  st_read_only :: bool

definition observe :: "exn \<Rightarrow> (store, unit) op" where
  "observe e s = (require (st_env s (st_checks s)) e, s\<lparr>st_checks := Suc (st_checks s)\<rparr>)"

definition clock_stamp_op :: "(store, clock_stamp) op" where
  "clock_stamp_op s = (st_clock s (st_ticks s), s\<lparr>st_ticks := Suc (st_ticks s)\<rparr>)"

abbreviation validate_tracked_path :: "(store, unit) op" where
  "validate_tracked_path \<equiv> observe StoreIntegrityError"

abbreviation validate_schema_locked :: "(store, unit) op" where
  "validate_schema_locked \<equiv> observe StoreIntegrityError"

abbreviation read_db :: "(database \<Rightarrow> 'a result) \<Rightarrow> (store, 'a) op" where
  "read_db f \<equiv> sread (\<lambda>s. f (st_db s))"

text \<open>Execute a statement that may violate a constraint.\<close>

definition execute_db :: "(database \<Rightarrow> database result) \<Rightarrow> (store, unit) op" where
  "execute_db f s = (case f (st_db s) of Inl e \<Rightarrow> (Inl e, s) | Inr db \<Rightarrow> (Inr (), s\<lparr>st_db := db\<rparr>))"

definition verified_roots_locked :: "(json \<Rightarrow> string) \<Rightarrow> (store, verified_run_root list) op" where
  "verified_roots_locked H = sthen (observe StoreIntegrityError) (read_db (verified_roots H))"

text \<open>The exceptions that \<open>except (IndexError, KeyError, ValueError, sqlite3.DatabaseError)\<close> catches.\<close>

definition validation_failure :: "exn \<Rightarrow> bool" where
  "validation_failure e = (e \<in> {IndexError, KeyError, ValueError, ValidationError, DatabaseError})"

definition catch_as :: "(exn \<Rightarrow> bool) \<Rightarrow> exn \<Rightarrow> (store, 'a) op \<Rightarrow> (store, 'a) op" where
  "catch_as p e' m s = (case m s of (Inl e, t) \<Rightarrow> (Inl (if p e then e' else e), t) | r \<Rightarrow> r)"

definition validate_full_ledger_locked :: "(json \<Rightarrow> string) \<Rightarrow> (store, verified_run_root list) op" where
  "validate_full_ledger_locked H =
     catch_as (\<lambda>e. validation_failure e \<or> e = TypeError) StoreIntegrityError (verified_roots_locked H)"

text \<open>
  \<open>except BaseException: self._connection.rollback(); raise\<close>: the database returns to what it was
  at \<open>BEGIN IMMEDIATE\<close>.
\<close>

definition rollback_on_error :: "(store, 'a) op \<Rightarrow> (store, 'a) op" where
  "rollback_on_error m s = (case m s of (Inl e, t) \<Rightarrow> (Inl e, t\<lparr>st_db := st_db s\<rparr>) | r \<Rightarrow> r)"

text \<open>
  An integrity guard observes the outside world when it is called, so its outcome depends on the
  instant, which the number of checks made so far stands for.
\<close>

type_synonym integrity_guard = "verified_run_root list \<Rightarrow> nat \<Rightarrow> unit result"

definition run_guard :: "integrity_guard option \<Rightarrow> verified_run_root list \<Rightarrow> (store, unit) op" where
  "run_guard guard roots s =
     ((case guard of None \<Rightarrow> Inr () | Some g \<Rightarrow> g roots (st_checks s)), s\<lparr>st_checks := Suc (st_checks s)\<rparr>)"

definition transaction ::
  "(json \<Rightarrow> string) \<Rightarrow> integrity_guard option \<Rightarrow> (store, 'a) op \<Rightarrow> (store, 'a) op" where
  "transaction H precommit_integrity_guard body =
     sthen (sread (\<lambda>s. require (\<not> st_read_only s) StoreIntegrityError))
     (sthen validate_tracked_path
     (sthen (observe DatabaseError)
     (rollback_on_error
       (sthen validate_tracked_path
       (sthen validate_schema_locked
       (sthen (validate_full_ledger_locked H)
       (sthen validate_tracked_path
       (sbind body (\<lambda>result.
        sthen validate_tracked_path
       (sthen validate_schema_locked
       (sbind (validate_full_ledger_locked H) (\<lambda>final_roots.
        sthen (run_guard precommit_integrity_guard final_roots)
       (sthen validate_tracked_path
       (sreturn result))))))))))))))"

section \<open>Writing inside a transaction\<close>

definition event_id_of :: "string \<Rightarrow> int \<Rightarrow> string" where
  "event_id_of run_id sequence = run_id @ '':event:'' @ pad_left 8 (show_nat (nat sequence))"

text \<open>\<open>EventRecord(...)\<close>: strip the text fields, then validate.\<close>

definition strip_event :: "event_record \<Rightarrow> event_record" where
  "strip_event e =
     e\<lparr>ev_event_id := strip_whitespace (ev_event_id e), ev_run_id := strip_whitespace (ev_run_id e),
       ev_causal_parent_ids := map strip_whitespace (ev_causal_parent_ids e),
       ev_event_type := strip_whitespace (ev_event_type e)\<rparr>"

definition make_event :: "(json \<Rightarrow> string) \<Rightarrow> event_record \<Rightarrow> event_record result" where
  "make_event H e =
     (let e' = strip_event e in if valid_event H e' then Inr e' else Inl ValidationError)"

definition next_event ::
  "(json \<Rightarrow> string) \<Rightarrow> database \<Rightarrow> string \<Rightarrow> string \<Rightarrow> json dict \<Rightarrow> clock_stamp \<Rightarrow> event_record" where
  "next_event H db run_id event_type payload st =
     (let rows = event_rows db run_id;
          sequence = (if rows = [] then 0 else vr_sequence (last rows) + 1) in
      \<lparr>ev_event_id = event_id_of run_id sequence, ev_run_id = run_id, ev_sequence = sequence,
       ev_causal_parent_ids = (if rows = [] then [] else [vr_event_id (last rows)]),
       ev_event_type = event_type, ev_monotonic_ns = monotonic_ns st, ev_occurred_at = occurred_at st,
       ev_payload = payload, ev_payload_sha256 = H (JObj payload),
       ev_previous_event_hash = (if rows = [] then None else Some (vr_event_hash (last rows)))\<rparr>)"

definition event_row_of :: "(json \<Rightarrow> string) \<Rightarrow> string \<Rightarrow> event_record \<Rightarrow> event_row" where
  "event_row_of H run_id event =
     \<lparr>vr_run_id = run_id, vr_sequence = ev_sequence event, vr_event_id = ev_event_id event,
      vr_event_type = ev_event_type event, vr_record_json = Canonical event,
      vr_event_hash = content_hash H event\<rparr>"

definition append_locked ::
  "(json \<Rightarrow> string) \<Rightarrow> string \<Rightarrow> string \<Rightarrow> json dict \<Rightarrow> (store, event_record) op" where
  "append_locked H run_id event_type payload =
     sbind clock_stamp_op (\<lambda>st.
     sbind (read_db (\<lambda>db. make_event H (next_event H db run_id event_type payload st))) (\<lambda>event.
     sthen (read_db (\<lambda>db.
        rbind (list_events_locked H db run_id) (\<lambda>es.
        store_error (replay_events H False (es @ [event])))))
     (sthen (execute_db (insert_event (event_row_of H run_id event)))
     (sreturn event))))"

definition append_budget_snapshot_locked ::
  "(json \<Rightarrow> string) \<Rightarrow> string \<Rightarrow> budget_usage \<Rightarrow> budget_usage \<Rightarrow> (store, event_record) op" where
  "append_budget_snapshot_locked H run_id used reserved =
     append_locked H run_id ''budget.snapshot''
       [(''reserved'', usage_json reserved), (''used'', usage_json used)]"

definition save_manifest_locked :: "(json \<Rightarrow> string) \<Rightarrow> string \<Rightarrow> run_manifest \<Rightarrow> (store, unit) op" where
  "save_manifest_locked H run_id manifest =
     sthen (sguard (rm_run_id manifest = run_id) ValueError)
     (sbind (read_db (\<lambda>db. load_manifest_locked H db run_id)) (\<lambda>current.
      sthen (slift (validate_manifest_transition current manifest))
     (sbind (read_db (\<lambda>db. of_option KeyError (find_run db run_id))) (\<lambda>row.
      let revision = rr_manifest_revision row + 1; manifest_hash = H (manifest_json manifest) in
      sthen (execute_db (insert_manifest \<lparr>mr_run_id = run_id, mr_revision = revision,
        mr_manifest_json = Canonical manifest, mr_manifest_sha256 = manifest_hash\<rparr>))
     (smodify (\<lambda>s. s\<lparr>st_db := update_run \<lparr>rr_run_id = run_id,
        rr_status = status_value (rm_status manifest), rr_manifest_revision = revision,
        rr_manifest_json = Canonical manifest, rr_manifest_sha256 = manifest_hash\<rparr> (st_db s)\<rparr>))))))"

definition update_budget_locked :: "string \<Rightarrow> budget_usage \<Rightarrow> budget_usage \<Rightarrow> (store, unit) op" where
  "update_budget_locked run_id used reserved =
     smodify (\<lambda>s. s\<lparr>st_db := update_budget run_id used reserved (st_db s)\<rparr>)"

definition validate_budget_update_locked ::
  "(json \<Rightarrow> string) \<Rightarrow> database \<Rightarrow> string \<Rightarrow> budget_usage \<Rightarrow> budget_usage \<Rightarrow> unit result" where
  "validate_budget_update_locked H db run_id used reserved =
     rbind (load_budget_locked H db run_id) (\<lambda>(current_used, current_reserved).
     rbind (require (used = current_used) StoreIntegrityError) (\<lambda>_.
     require (reserved = current_reserved) StoreIntegrityError))"

section \<open>Lifecycle operations\<close>

definition create_run :: "(json \<Rightarrow> string) \<Rightarrow> run_manifest \<Rightarrow> (store, event_record) op" where
  "create_run H manifest =
     sthen (sguard (rm_status manifest = PENDING) ValueError)
     (let run_id = rm_run_id manifest; manifest_hash = H (manifest_json manifest) in
      transaction H None
       (sthen (execute_db (insert_run \<lparr>rr_run_id = run_id, rr_status = status_value (rm_status manifest),
          rr_manifest_revision = 0, rr_manifest_json = Canonical manifest, rr_manifest_sha256 = manifest_hash\<rparr>))
       (sthen (execute_db (insert_manifest \<lparr>mr_run_id = run_id, mr_revision = 0,
          mr_manifest_json = Canonical manifest, mr_manifest_sha256 = manifest_hash\<rparr>))
       (sthen (execute_db (insert_budget \<lparr>br_run_id = run_id,
          br_limits_json = Canonical (rm_budget_limits manifest), br_used_json = Canonical empty_usage,
          br_reserved_json = Canonical empty_usage\<rparr>))
       (append_locked H run_id ''run.created'' (manifest_creation_payload manifest))))))"

definition append_event :: "string \<Rightarrow> string \<Rightarrow> json dict option \<Rightarrow> (store, unit) op" where
  "append_event run_id event_type payload = sraise ValueError"

definition start_run ::
  "(json \<Rightarrow> string) \<Rightarrow> string \<Rightarrow> datetime \<Rightarrow> string \<Rightarrow> (store, run_manifest) op" where
  "start_run H run_id started_at requested_model =
     transaction H None
      (sbind (read_db (\<lambda>db. load_manifest_locked H db run_id)) (\<lambda>current.
       sthen (sguard (rm_status current = PENDING) StoreIntegrityError)
      (sthen (sguard (requested_model = rm_requested_model current) StoreIntegrityError)
      (sbind (slift (transition_manifest
          (\<lambda>m. m\<lparr>rm_status := RUNNING, rm_started_at := Some started_at\<rparr>) current)) (\<lambda>running.
       sthen (append_locked H run_id ''run.started'' [(''requested_model'', JStr requested_model)])
      (sthen (save_manifest_locked H run_id running)
      (sreturn running)))))))"

definition record_artifact ::
  "(json \<Rightarrow> string) \<Rightarrow> string \<Rightarrow> string \<Rightarrow> artifact_ref \<Rightarrow> (store, event_record) op" where
  "record_artifact H run_id name artifact =
     sthen (sguard (name = ''task_spec'') ValueError)
     (transaction H None
      (sbind (read_db (\<lambda>db. load_manifest_locked H db run_id)) (\<lambda>current.
       sbind (read_db (\<lambda>db. validated_state_locked H db run_id current)) (\<lambda>state.
       sthen (sguard (rm_status current = RUNNING \<and> rs_model_request_state state = NotStarted)
         StoreIntegrityError)
      (sthen (sguard (name \<notin> keys (rm_artifacts current)) StoreIntegrityError)
      (sbind (slift (transition_manifest
          (\<lambda>m. m\<lparr>rm_artifacts := dict_set name artifact (rm_artifacts m)\<rparr>) current)) (\<lambda>updated.
       sbind (append_locked H run_id ''artifact.recorded'' (artifact_payload name artifact)) (\<lambda>event.
       sthen (save_manifest_locked H run_id updated)
      (sreturn event)))))))))"

definition start_model_request ::
  "(json \<Rightarrow> string) \<Rightarrow> string \<Rightarrow> string \<Rightarrow> budget_usage \<Rightarrow> budget_usage \<Rightarrow> budget_usage
     \<Rightarrow> (store, event_record \<times> event_record) op" where
  "start_model_request H run_id request_id maximum budget_used budget_reserved =
     sthen (sguard (request_id \<noteq> []) ValueError)
     (sthen (sguard (model_calls maximum = 1) StoreIntegrityError)
     (transaction H None
      (sbind (read_db (\<lambda>db. load_manifest_locked H db run_id)) (\<lambda>manifest.
       sthen (sguard (rm_status manifest = RUNNING) StoreIntegrityError)
      (sbind (read_db (\<lambda>db. load_budget_locked H db run_id)) (\<lambda>(used_before, reserved_before).
       sthen (sguard (budget_used = used_before) StoreIntegrityError)
      (sbind (slift (add_usage reserved_before maximum)) (\<lambda>expected_reserved.
       sthen (sguard (budget_reserved = expected_reserved) StoreIntegrityError)
      (sbind (slift (add_usage budget_used budget_reserved)) (\<lambda>projected.
       sthen (sguard (exceeded_limits projected (rm_budget_limits manifest) = []) StoreIntegrityError)
      (sbind (append_locked H run_id ''model.request_started''
          [(''maximum'', usage_json maximum), (''request_id'', JStr request_id)]) (\<lambda>request_event.
       sbind (append_budget_snapshot_locked H run_id budget_used budget_reserved) (\<lambda>budget_event.
       sthen (update_budget_locked run_id budget_used budget_reserved)
      (sreturn (request_event, budget_event)))))))))))))))"

definition complete_model_response ::
  "(json \<Rightarrow> string) \<Rightarrow> string \<Rightarrow> string \<Rightarrow> string \<Rightarrow> budget_usage \<Rightarrow> artifact_ref \<Rightarrow> budget_usage
     \<Rightarrow> budget_usage \<Rightarrow> (store, run_manifest) op" where
  "complete_model_response H run_id request_id returned_model actual_usage patch budget_used budget_reserved =
     transaction H None
      (sbind (read_db (\<lambda>db. load_manifest_locked H db run_id)) (\<lambda>current.
       sbind (read_db (\<lambda>db. validated_state_locked H db run_id current)) (\<lambda>state.
       sthen (sguard (rs_model_request_state state = Started
         \<and> rs_model_request_id state = Some request_id) StoreIntegrityError)
      (sbind (slift (of_option StoreIntegrityError (rs_model_request_maximum state))) (\<lambda>maximum.
       sthen (sguard (usage_at_most actual_usage maximum) StoreIntegrityError)
      (sthen (sguard (model_calls actual_usage = 1) StoreIntegrityError)
      (sbind (read_db (\<lambda>db. load_budget_locked H db run_id)) (\<lambda>(used_before, reserved_before).
       sbind (slift (add_usage used_before actual_usage)) (\<lambda>expected_used.
       sbind (slift (subtract_usage StoreIntegrityError reserved_before maximum)) (\<lambda>expected_reserved.
       sthen (sguard (budget_used = expected_used \<and> budget_reserved = expected_reserved) StoreIntegrityError)
      (sthen (sguard (''patch'' \<notin> keys (rm_artifacts current)) StoreIntegrityError)
      (sbind (slift (transition_manifest (\<lambda>m. m\<lparr>rm_returned_model := Some returned_model,
          rm_artifacts := dict_set ''patch'' patch (rm_artifacts m)\<rparr>) current)) (\<lambda>updated.
       sthen (append_locked H run_id ''model.response_completed''
          [(''actual'', usage_json actual_usage), (''request_id'', JStr request_id),
           (''returned_model'', JStr returned_model)])
      (sthen (append_budget_snapshot_locked H run_id budget_used budget_reserved)
      (sthen (append_locked H run_id ''artifact.recorded'' (artifact_payload ''patch'' patch))
      (sthen (save_manifest_locked H run_id updated)
      (sthen (update_budget_locked run_id budget_used budget_reserved)
      (sreturn updated))))))))))))))))))"

text \<open>\<open>EventStoreTerminalResult\<close>: the terminal manifest and its event stream.\<close>

type_synonym terminal_result = "run_manifest \<times> event_record list"

definition terminal_result_of ::
  "(json \<Rightarrow> string) \<Rightarrow> string \<Rightarrow> run_manifest \<Rightarrow> (store, terminal_result) op" where
  "terminal_result_of H run_id manifest =
     sbind (read_db (\<lambda>db. list_events_locked H db run_id)) (\<lambda>es. sreturn (manifest, es))"

definition required_evaluation_artifacts :: "string list" where
  "required_evaluation_artifacts = [''evaluation'', ''evaluation_stderr'', ''evaluation_stdout'']"

definition preferred_order :: "string list" where
  "preferred_order = [''evaluation_stdout'', ''evaluation_stderr'', ''evaluation_candidate_stdout'',
     ''evaluation_scorer_stdout'', ''evaluation'']"

definition ordered_names :: "artifact_ref dict \<Rightarrow> string list" where
  "ordered_names artifacts =
     (let first = filter (\<lambda>n. n \<in> keys artifacts) preferred_order in
      first @ sort (filter (\<lambda>n. n \<notin> set first) (map fst artifacts)))"

definition check_evaluation_roles :: "artifact_ref dict \<Rightarrow> unit result" where
  "check_evaluation_roles artifacts =
     rbind (require (set required_evaluation_artifacts \<subseteq> keys artifacts) ValueError) (\<lambda>_.
     rbind (require (keys artifacts
         \<subseteq> set required_evaluation_artifacts \<union> set OPTIONAL_EVALUATION_ARTIFACT_NAMES) ValueError) (\<lambda>_.
     require (\<not> (''evaluation_scorer_stdout'' \<in> keys artifacts
       \<and> ''evaluation_candidate_stdout'' \<notin> keys artifacts)) ValueError))"

definition complete_evaluation_with_events ::
  "(json \<Rightarrow> string) \<Rightarrow> string \<Rightarrow> artifact_ref dict \<Rightarrow> json dict \<Rightarrow> run_status \<Rightarrow> datetime \<Rightarrow> string option
     \<Rightarrow> budget_usage \<Rightarrow> budget_usage \<Rightarrow> (store, terminal_result) op" where
  "complete_evaluation_with_events H run_id artifacts evaluation_payload status finished_at terminal_reason
     budget_used budget_reserved =
     sthen (sguard (is_terminal status) ValueError)
     (sthen (slift (check_evaluation_roles artifacts))
     (transaction H None
      (sbind (read_db (\<lambda>db. load_manifest_locked H db run_id)) (\<lambda>current.
       sbind (read_db (\<lambda>db. validated_state_locked H db run_id current)) (\<lambda>state.
       sthen (sguard (rm_status current = RUNNING) StoreIntegrityError)
      (sthen (sguard (rs_model_request_state state = Completed) StoreIntegrityError)
      (sthen (sguard (case map_of evaluation_payload ''outcome'' of
          Some (JStr outcome) \<Rightarrow> terminal_status_matches_outcome status (Some outcome)
        | _ \<Rightarrow> False) StoreIntegrityError)
      (sthen (read_db (\<lambda>db. validate_budget_update_locked H db run_id budget_used budget_reserved))
      (sthen (sguard (budget_reserved = empty_usage) StoreIntegrityError)
      (sthen (sguard (list_all (\<lambda>n. n \<notin> keys (rm_artifacts current)) (map fst artifacts)) StoreIntegrityError)
      (sbind (slift (transition_manifest (\<lambda>m. m\<lparr>rm_status := status, rm_finished_at := Some finished_at,
          rm_terminal_reason := terminal_reason,
          rm_artifacts := dict_update (rm_artifacts m) artifacts\<rparr>) current)) (\<lambda>final_manifest.
       sthen (sfor (ordered_names artifacts) (\<lambda>name.
          sbind (slift (of_option KeyError (map_of artifacts name))) (\<lambda>artifact.
          sthen (append_locked H run_id ''artifact.recorded'' (artifact_payload name artifact)) (sreturn ()))))
      (sthen (append_locked H run_id ''evaluation.completed'' evaluation_payload)
      (sthen (append_budget_snapshot_locked H run_id budget_used budget_reserved)
      (sthen (append_locked H run_id ''run.terminal''
          [(''evaluation_outcome'', case map_of evaluation_payload ''outcome'' of None \<Rightarrow> JNull | Some j \<Rightarrow> j),
           (''status'', JStr (status_value status)), (''terminal_reason'', opt_json JStr terminal_reason)])
      (sthen (save_manifest_locked H run_id final_manifest)
      (sthen (update_budget_locked run_id budget_used budget_reserved)
      (sthen (read_db (\<lambda>db. validate_terminal_state_locked H db run_id final_manifest))
      (terminal_result_of H run_id final_manifest)))))))))))))))))))"

definition complete_evaluation ::
  "(json \<Rightarrow> string) \<Rightarrow> string \<Rightarrow> artifact_ref dict \<Rightarrow> json dict \<Rightarrow> run_status \<Rightarrow> datetime \<Rightarrow> string option
     \<Rightarrow> budget_usage \<Rightarrow> budget_usage \<Rightarrow> (store, run_manifest) op" where
  "complete_evaluation H run_id artifacts evaluation_payload status finished_at terminal_reason used reserved =
     sbind (complete_evaluation_with_events H run_id artifacts evaluation_payload status finished_at
       terminal_reason used reserved) (\<lambda>(manifest, _). sreturn manifest)"

section \<open>Recovery and budget exhaustion\<close>

text \<open>The checks both methods start with, outside and inside the transaction.\<close>

definition check_terminalization_arguments ::
  "string \<Rightarrow> string option \<Rightarrow> integrity_guard option \<Rightarrow> unit result" where
  "check_terminalization_arguments terminal_reason expected_snapshot_sha256 guard =
     rbind (require (py_strip terminal_reason \<noteq> []) ValueError) (\<lambda>_.
     rbind (require (case expected_snapshot_sha256 of None \<Rightarrow> True | Some h \<Rightarrow> is_lower_sha256 h) ValueError) (\<lambda>_.
     require (\<not> (guard \<noteq> None \<and> expected_snapshot_sha256 = None)) ValueError))"

definition check_expected_snapshot ::
  "(json \<Rightarrow> string) \<Rightarrow> string option \<Rightarrow> integrity_guard option \<Rightarrow> (store, unit) op" where
  "check_expected_snapshot H expected_snapshot_sha256 guard =
     (if expected_snapshot_sha256 = None \<and> guard = None then sreturn ()
      else
        sbind (verified_roots_locked H) (\<lambda>locked_roots.
        sbind (slift (verified_run_roots_sha256 H locked_roots)) (\<lambda>observed.
        sthen (sguard (Some observed = expected_snapshot_sha256) StoreIntegrityError)
        (run_guard guard locked_roots))))"

definition append_absences ::
  "(json \<Rightarrow> string) \<Rightarrow> string \<Rightarrow> replay_state \<Rightarrow> string \<Rightarrow> (store, unit) op" where
  "append_absences H run_id state reason =
     sfor (filter (\<lambda>n. n \<notin> keys (rs_absent_artifacts state))
         (sort (filter (\<lambda>n. n \<notin> keys (rs_artifacts state)) EXPECTED_ARTIFACT_NAMES)))
       (\<lambda>name. sthen (append_locked H run_id ''artifact.not_produced''
         [(''name'', JStr name), (''reason'', JStr reason)]) (sreturn ()))"

definition safe_finished_at :: "run_manifest \<Rightarrow> datetime \<Rightarrow> datetime" where
  "safe_finished_at current finished_at =
     max finished_at (case rm_started_at current of Some t \<Rightarrow> t | None \<Rightarrow> rm_created_at current)"

definition recover_interrupted ::
  "(json \<Rightarrow> string) \<Rightarrow> string \<Rightarrow> datetime \<Rightarrow> string \<Rightarrow> run_manifest \<Rightarrow> replay_state
     \<Rightarrow> (store, terminal_result) op" where
  "recover_interrupted H run_id finished_at terminal_reason current state =
     sthen (append_absences H run_id state ''interrupted'')
     (sbind (read_db (\<lambda>db. load_budget_locked H db run_id)) (\<lambda>(used_before, reserved_before).
      sbind (if rs_model_request_state state = Started then
          sbind (slift (of_option StoreIntegrityError (rs_model_request_id state))) (\<lambda>request_id.
          sthen (append_locked H run_id ''model.request_ambiguous'' [(''request_id'', JStr request_id)])
          (sbind (slift (add_usage used_before reserved_before)) (\<lambda>used.
           sreturn (used, empty_usage, ''ambiguous_model_request''))))
        else
          sthen (sguard (reserved_before = empty_usage) StoreIntegrityError)
          (sreturn (used_before, reserved_before, terminal_reason))) (\<lambda>(used, reserved, reason).
      sthen (append_budget_snapshot_locked H run_id used reserved)
     (sbind (slift (transition_manifest (\<lambda>m. m\<lparr>rm_status := INFRASTRUCTURE_ERROR,
         rm_finished_at := Some (safe_finished_at current finished_at),
         rm_terminal_reason := Some reason\<rparr>) current)) (\<lambda>final_manifest.
      sthen (append_locked H run_id ''run.terminal''
         [(''recovered'', JBool True), (''status'', JStr (status_value INFRASTRUCTURE_ERROR)),
          (''terminal_reason'', JStr reason)])
     (sthen (save_manifest_locked H run_id final_manifest)
     (sthen (update_budget_locked run_id used reserved)
     (sthen (read_db (\<lambda>db. validate_terminal_state_locked H db run_id final_manifest))
     (sthen (catch_as validation_failure StoreIntegrityError (verified_roots_locked H))
     (terminal_result_of H run_id final_manifest))))))))))"

definition recover_run_with_events ::
  "(json \<Rightarrow> string) \<Rightarrow> string \<Rightarrow> datetime \<Rightarrow> string \<Rightarrow> string option \<Rightarrow> integrity_guard option
     \<Rightarrow> (store, terminal_result) op" where
  "recover_run_with_events H run_id finished_at terminal_reason expected_snapshot_sha256 guard =
     sthen (slift (check_terminalization_arguments terminal_reason expected_snapshot_sha256 guard))
     (transaction H guard
      (sthen validate_schema_locked
      (sthen (check_expected_snapshot H expected_snapshot_sha256 guard)
      (sbind (read_db (\<lambda>db. load_manifest_locked H db run_id)) (\<lambda>current.
       sbind (read_db (\<lambda>db. validated_state_locked H db run_id current)) (\<lambda>state.
       if is_terminal (rm_status current) then
         sthen (read_db (\<lambda>db. validate_terminal_state_locked H db run_id current))
         (terminal_result_of H run_id current)
       else recover_interrupted H run_id finished_at terminal_reason current state))))))"

definition recover_run ::
  "(json \<Rightarrow> string) \<Rightarrow> string \<Rightarrow> datetime \<Rightarrow> string \<Rightarrow> string option \<Rightarrow> integrity_guard option
     \<Rightarrow> (store, run_manifest) op" where
  "recover_run H run_id finished_at terminal_reason expected_snapshot_sha256 guard =
     sbind (recover_run_with_events H run_id finished_at terminal_reason expected_snapshot_sha256 guard)
       (\<lambda>(manifest, _). sreturn manifest)"

definition exhaust_budget ::
  "(json \<Rightarrow> string) \<Rightarrow> string \<Rightarrow> datetime \<Rightarrow> string \<Rightarrow> run_manifest \<Rightarrow> replay_state
     \<Rightarrow> (store, terminal_result) op" where
  "exhaust_budget H run_id finished_at terminal_reason current state =
     sthen (sguard (rs_model_request_state state = NotStarted) StoreIntegrityError)
     (sbind (read_db (\<lambda>db. load_budget_locked H db run_id)) (\<lambda>(used, reserved).
      sthen (sguard (reserved = empty_usage) StoreIntegrityError)
     (sthen (append_absences H run_id state ''budget_exhausted'')
     (sthen (append_budget_snapshot_locked H run_id used reserved)
     (sbind (slift (transition_manifest (\<lambda>m. m\<lparr>rm_status := BUDGET_EXHAUSTED,
         rm_finished_at := Some (safe_finished_at current finished_at),
         rm_terminal_reason := Some terminal_reason\<rparr>) current)) (\<lambda>final_manifest.
      sthen (append_locked H run_id ''run.terminal''
         [(''status'', JStr (status_value BUDGET_EXHAUSTED)), (''terminal_reason'', JStr terminal_reason)])
     (sthen (save_manifest_locked H run_id final_manifest)
     (sthen (update_budget_locked run_id used reserved)
     (sthen (read_db (\<lambda>db. validate_terminal_state_locked H db run_id final_manifest))
     (terminal_result_of H run_id final_manifest))))))))))"

definition complete_budget_exhaustion_with_events ::
  "(json \<Rightarrow> string) \<Rightarrow> string \<Rightarrow> datetime \<Rightarrow> string \<Rightarrow> string option \<Rightarrow> integrity_guard option
     \<Rightarrow> (store, terminal_result) op" where
  "complete_budget_exhaustion_with_events H run_id finished_at terminal_reason expected_snapshot_sha256 guard =
     sthen (slift (check_terminalization_arguments terminal_reason expected_snapshot_sha256 guard))
     (transaction H guard
      (sthen validate_schema_locked
      (sthen (check_expected_snapshot H expected_snapshot_sha256 guard)
      (sbind (read_db (\<lambda>db. load_manifest_locked H db run_id)) (\<lambda>current.
       sbind (read_db (\<lambda>db. validated_state_locked H db run_id current)) (\<lambda>state.
       if is_terminal (rm_status current) then
         sthen (read_db (\<lambda>db. validate_terminal_state_locked H db run_id current))
         (terminal_result_of H run_id current)
       else exhaust_budget H run_id finished_at terminal_reason current state))))))"

definition complete_budget_exhaustion ::
  "(json \<Rightarrow> string) \<Rightarrow> string \<Rightarrow> datetime \<Rightarrow> string \<Rightarrow> (store, run_manifest) op" where
  "complete_budget_exhaustion H run_id finished_at terminal_reason =
     sbind (complete_budget_exhaustion_with_events H run_id finished_at terminal_reason None None)
       (\<lambda>(manifest, _). sreturn manifest)"

section \<open>Reading\<close>

definition load_manifest :: "(json \<Rightarrow> string) \<Rightarrow> database \<Rightarrow> string \<Rightarrow> run_manifest result" where
  "load_manifest H db run_id =
     rbind (load_manifest_locked H db run_id) (\<lambda>manifest.
     rbind (validated_state_locked H db run_id manifest) (\<lambda>_.
     rbind (if is_terminal (rm_status manifest) then validate_terminal_state_locked H db run_id manifest
       else Inr ()) (\<lambda>_.
     Inr manifest)))"

definition load_budget_state ::
  "(json \<Rightarrow> string) \<Rightarrow> database \<Rightarrow> string \<Rightarrow> (budget_usage \<times> budget_usage) result" where
  "load_budget_state H db run_id =
     rbind (load_manifest_locked H db run_id) (\<lambda>manifest.
     rbind (validated_state_locked H db run_id manifest) (\<lambda>state.
     Inr (rs_budget_used state, rs_budget_reserved state)))"

definition list_events :: "(json \<Rightarrow> string) \<Rightarrow> database \<Rightarrow> string \<Rightarrow> event_record list result" where
  "list_events H db run_id =
     rbind (list_events_locked H db run_id) (\<lambda>es.
     rbind (load_manifest_locked H db run_id) (\<lambda>manifest.
     rbind (store_error (replay_events H (is_terminal (rm_status manifest)) es)) (\<lambda>_.
     rbind (validated_state_locked H db run_id manifest) (\<lambda>_.
     Inr es))))"

definition list_run_ids :: "database \<Rightarrow> string list" where
  "list_run_ids db = sort (map rr_run_id (runs db))"

definition events_jsonl :: "(json \<Rightarrow> string) \<Rightarrow> database \<Rightarrow> string \<Rightarrow> string result" where
  "events_jsonl H db run_id =
     rbind (list_events H db run_id) (\<lambda>es.
     Inr (concat (map (\<lambda>e. dumps (event_json e) @ [CHR 0x0A]) es)))"

text \<open>
  \<open>verify_integrity\<close> enters and leaves \<open>verified_snapshot\<close>, whose read transaction changes nothing.
\<close>

definition verify_integrity :: "(json \<Rightarrow> string) \<Rightarrow> (store, verified_run_root list) op" where
  "verify_integrity H =
     sthen (observe StoreIntegrityError)
     (sthen validate_tracked_path
     (sthen (observe StoreIntegrityError)
     (sbind (catch_as validation_failure StoreIntegrityError
        (sthen validate_tracked_path (sthen validate_schema_locked (verified_roots_locked H)))) (\<lambda>roots.
      sthen validate_tracked_path
     (sreturn roots)))))"

end
