(* ===== verification/Store_Frames.thy ===== *)
theory Store_Frames
  imports Event_Store
begin

text \<open>
  What the store operations may change. The locale \<open>ledger_order\<close> is the interface between the
  operations and a preorder on databases: if the SQL statements on an allowed run stay within the
  preorder, so does every lifecycle operation on that run, whatever it raises. It is interpreted
  twice on the model: for the append-only tables, and for the rows of any run an operation is not
  about.
\<close>

section \<open>The commands of the store\<close>

datatype command =
    CreateRun run_manifest
  | StartRun string datetime string
  | RecordArtifact string string artifact_ref
  | StartModelRequest string string budget_usage budget_usage budget_usage
  | CompleteModelResponse string string string budget_usage artifact_ref budget_usage budget_usage
  | CompleteEvaluation string "artifact_ref dict" "json dict" run_status datetime "string option"
      budget_usage budget_usage
  | RecoverRun string datetime string "string option" "integrity_guard option"
  | CompleteBudgetExhaustion string datetime string "string option" "integrity_guard option"

abbreviation ignore :: "(store, 'a) op \<Rightarrow> (store, unit) op" where
  "ignore m \<equiv> sthen m (sreturn ())"

fun execute :: "(json \<Rightarrow> string) \<Rightarrow> command \<Rightarrow> (store, unit) op" where
  "execute H (CreateRun m) = ignore (create_run H m)"
| "execute H (StartRun i t r) = ignore (start_run H i t r)"
| "execute H (RecordArtifact i n a) = ignore (record_artifact H i n a)"
| "execute H (StartModelRequest i q m u r) = ignore (start_model_request H i q m u r)"
| "execute H (CompleteModelResponse i q n a p u r) = ignore (complete_model_response H i q n a p u r)"
| "execute H (CompleteEvaluation i as ep st f tr u r) =
     ignore (complete_evaluation_with_events H i as ep st f tr u r)"
| "execute H (RecoverRun i f tr x g) = ignore (recover_run_with_events H i f tr x g)"
| "execute H (CompleteBudgetExhaustion i f tr x g) =
     ignore (complete_budget_exhaustion_with_events H i f tr x g)"

fun command_run_id :: "command \<Rightarrow> string" where
  "command_run_id (CreateRun m) = rm_run_id m"
| "command_run_id (StartRun i _ _) = i"
| "command_run_id (RecordArtifact i _ _) = i"
| "command_run_id (StartModelRequest i _ _ _ _) = i"
| "command_run_id (CompleteModelResponse i _ _ _ _ _ _) = i"
| "command_run_id (CompleteEvaluation i _ _ _ _ _ _ _) = i"
| "command_run_id (RecoverRun i _ _ _ _) = i"
| "command_run_id (CompleteBudgetExhaustion i _ _ _ _) = i"

fun command_event_types :: "command \<Rightarrow> string list" where
  "command_event_types (CreateRun _) = [''run.created'']"
| "command_event_types (StartRun _ _ _) = [''run.started'']"
| "command_event_types (RecordArtifact _ _ _) = [''artifact.recorded'']"
| "command_event_types (StartModelRequest _ _ _ _ _) = [''model.request_started'', ''budget.snapshot'']"
| "command_event_types (CompleteModelResponse _ _ _ _ _ _ _) =
     [''model.response_completed'', ''budget.snapshot'', ''artifact.recorded'']"
| "command_event_types (CompleteEvaluation _ _ _ _ _ _ _ _) =
     [''artifact.recorded'', ''evaluation.completed'', ''budget.snapshot'', ''run.terminal'']"
| "command_event_types (RecoverRun _ _ _ _ _) =
     [''artifact.not_produced'', ''model.request_ambiguous'', ''budget.snapshot'', ''run.terminal'']"
| "command_event_types (CompleteBudgetExhaustion _ _ _ _ _) =
     [''artifact.not_produced'', ''budget.snapshot'', ''run.terminal'']"

lemma event_type_strip:
  "strip_whitespace ''run.created'' = ''run.created''" "strip_whitespace ''run.started'' = ''run.started''"
  "strip_whitespace ''artifact.recorded'' = ''artifact.recorded''"
  "strip_whitespace ''model.request_started'' = ''model.request_started''"
  "strip_whitespace ''budget.snapshot'' = ''budget.snapshot''"
  "strip_whitespace ''model.response_completed'' = ''model.response_completed''"
  "strip_whitespace ''evaluation.completed'' = ''evaluation.completed''"
  "strip_whitespace ''run.terminal'' = ''run.terminal''"
  "strip_whitespace ''artifact.not_produced'' = ''artifact.not_produced''"
  "strip_whitespace ''model.request_ambiguous'' = ''model.request_ambiguous''"
  by (simp_all add: strip_by_def is_white_space_def Let_def)

section \<open>Operations that stay within a preorder\<close>

locale ledger_order =
  fixes Q :: "database \<Rightarrow> database \<Rightarrow> bool" and allowed :: "string \<Rightarrow> bool"
    and emits :: "string \<Rightarrow> bool"
  assumes Q_refl: "Q db db"
    and Q_trans: "Q db db' \<Longrightarrow> Q db' db'' \<Longrightarrow> Q db db''"
    and Q_insert_run: "allowed (rr_run_id r) \<Longrightarrow> insert_run r db = Inr db' \<Longrightarrow> Q db db'"
    and Q_insert_manifest: "allowed (mr_run_id m) \<Longrightarrow> insert_manifest m db = Inr db' \<Longrightarrow> Q db db'"
    and Q_insert_event: "allowed (vr_run_id v) \<Longrightarrow> emits (vr_event_type v) \<Longrightarrow> insert_event v db = Inr db' \<Longrightarrow> Q db db'"
    and Q_insert_budget: "allowed (br_run_id b) \<Longrightarrow> insert_budget b db = Inr db' \<Longrightarrow> Q db db'"
    and Q_update_run: "allowed (rr_run_id r) \<Longrightarrow> Q db (update_run r db)"
    and Q_update_budget: "allowed i \<Longrightarrow> Q db (update_budget i used reserved db)"
begin

definition keeps :: "(store, 'a) op \<Rightarrow> bool" where
  "keeps m = (\<forall>s. Q (st_db s) (st_db (snd (m s))))"

lemma keepsI: "(\<And>s. Q (st_db s) (st_db (snd (m s)))) \<Longrightarrow> keeps m"
  by (simp add: keeps_def)

lemma keeps_bind [intro]: "keeps m \<Longrightarrow> (\<And>x. keeps (f x)) \<Longrightarrow> keeps (sbind m f)"
  unfolding keeps_def sbind_def
  by (auto split: prod.splits sum.splits) (metis Q_trans snd_conv)+

lemma keeps_then [intro]: "keeps m \<Longrightarrow> keeps n \<Longrightarrow> keeps (sthen m n)"
  unfolding sthen_def by (rule keeps_bind)

lemma keeps_pure [simp]:
  "keeps (sreturn x)" "keeps (sraise e)" "keeps (slift r)" "keeps (sread f)" "keeps (sguard b e)"
  "keeps (sget g)" "keeps (observe e)" "keeps clock_stamp_op"
  by (simp_all add: keeps_def sreturn_def sraise_def slift_def sread_def sguard_def sget_def
      observe_def clock_stamp_op_def Q_refl)

lemma keeps_for [intro]: "(\<And>x. keeps (f x)) \<Longrightarrow> keeps (sfor xs f)"
  by (induction xs) auto

lemma keeps_execute:
  "(\<And>db db'. f db = Inr db' \<Longrightarrow> Q db db') \<Longrightarrow> keeps (execute_db f)"
  by (auto simp: keeps_def execute_db_def Q_refl split: sum.splits)

lemma keeps_inserts:
  "allowed (rr_run_id r) \<Longrightarrow> keeps (execute_db (insert_run r))"
  "allowed (mr_run_id m) \<Longrightarrow> keeps (execute_db (insert_manifest m))"
  "allowed (vr_run_id v) \<Longrightarrow> emits (vr_event_type v) \<Longrightarrow> keeps (execute_db (insert_event v))"
  "allowed (br_run_id b) \<Longrightarrow> keeps (execute_db (insert_budget b))"
  by (blast intro: keeps_execute Q_insert_run Q_insert_manifest Q_insert_event Q_insert_budget)+

lemma keeps_modify: "(\<And>db. Q db (f db)) \<Longrightarrow> keeps (smodify (\<lambda>s. s\<lparr>st_db := f (st_db s)\<rparr>))"
  by (simp add: keeps_def smodify_def)

lemma keeps_catch [intro]: "keeps m \<Longrightarrow> keeps (catch_as p e m)"
  by (auto simp: keeps_def catch_as_def split: prod.splits sum.splits) (metis snd_conv)+

lemma keeps_rollback [intro]: "keeps m \<Longrightarrow> keeps (rollback_on_error m)"
  by (auto simp: keeps_def rollback_on_error_def Q_refl split: prod.splits sum.splits) (metis snd_conv)

lemma keeps_roots [simp]: "keeps (verified_roots_locked H)" "keeps (validate_full_ledger_locked H)"
  unfolding validate_full_ledger_locked_def verified_roots_locked_def
  by (intro keeps_catch keeps_then keeps_pure)+

lemma keeps_guard [simp]: "keeps (run_guard g rs)"
  by (simp add: keeps_def run_guard_def Q_refl)

lemma keeps_transaction [intro]: "keeps m \<Longrightarrow> keeps (transaction H g m)"
  unfolding transaction_def by (intro keeps_then keeps_bind keeps_rollback) simp_all

lemma keeps_append:
  assumes "allowed i" and "emits (strip_whitespace t)"
  shows "keeps (append_locked H i t d)"
proof -
  have "keeps (sbind (read_db (\<lambda>db. make_event H (next_event H db i t d st))) (\<lambda>event.
     sthen (read_db (\<lambda>db. rbind (list_events_locked H db i) (\<lambda>es.
        store_error (replay_events H False (es @ [event])))))
     (sthen (execute_db (insert_event (event_row_of H i event))) (sreturn event))))" (is "keeps ?m") for st
  proof (rule keepsI)
    fix s
    show "Q (st_db s) (st_db (snd (?m s)))"
    proof (cases "make_event H (next_event H (st_db s) i t d st)")
      case (Inr e)
      then have "ev_event_type e = strip_whitespace t"
        by (auto simp: make_event_def next_event_def strip_event_def Let_def split: if_splits)
      then have "keeps (sthen (read_db (\<lambda>db. rbind (list_events_locked H db i) (\<lambda>es.
           store_error (replay_events H False (es @ [e])))))
         (sthen (execute_db (insert_event (event_row_of H i e))) (sreturn e)))"
        using assms by (intro keeps_then keeps_inserts) (simp_all add: event_row_of_def)
      then show ?thesis using Inr by (simp add: keeps_def sbind_def sread_def)
    qed (simp add: sbind_def sread_def Q_refl)
  qed
  then show ?thesis unfolding append_locked_def by (rule keeps_bind [rotated]) simp
qed

lemma keeps_snapshot:
  "allowed i \<Longrightarrow> emits ''budget.snapshot'' \<Longrightarrow> keeps (append_budget_snapshot_locked H i u r)"
  unfolding append_budget_snapshot_locked_def by (rule keeps_append) (simp_all add: event_type_strip)

lemma keeps_save [intro]: "allowed i \<Longrightarrow> keeps (save_manifest_locked H i m)"
  unfolding save_manifest_locked_def Let_def
  by (intro keeps_then keeps_bind keeps_inserts keeps_modify) (simp_all add: Q_update_run)

lemma keeps_update_budget [intro]: "allowed i \<Longrightarrow> keeps (update_budget_locked i u r)"
  unfolding update_budget_locked_def by (intro keeps_modify Q_update_budget)

lemma keeps_absences:
  "allowed i \<Longrightarrow> emits ''artifact.not_produced'' \<Longrightarrow> keeps (append_absences H i st r)"
  unfolding append_absences_def
  by (intro keeps_for keeps_then keeps_append) (simp_all add: event_type_strip)

lemma keeps_terminal_result [simp]: "keeps (terminal_result_of H i m)"
  unfolding terminal_result_of_def by (intro keeps_bind) simp_all

lemma keeps_snapshot_check [simp]: "keeps (check_expected_snapshot H x g)"
  unfolding check_expected_snapshot_def by (auto intro!: keeps_bind keeps_then)

lemma keeps_create_run:
  "allowed (rm_run_id m) \<Longrightarrow> emits ''run.created'' \<Longrightarrow>
     keeps (create_run H m)"
  unfolding create_run_def Let_def
  by (intro keeps_then keeps_transaction keeps_append keeps_inserts) (simp_all add: event_type_strip)

lemma keeps_start_run:
  "allowed i \<Longrightarrow> emits ''run.started'' \<Longrightarrow>
     keeps (start_run H i t r)"
  unfolding start_run_def by (intro keeps_then keeps_bind keeps_transaction keeps_append keeps_save) (simp_all add: event_type_strip)

lemma keeps_record_artifact:
  "allowed i \<Longrightarrow> emits ''artifact.recorded'' \<Longrightarrow>
     keeps (record_artifact H i n a)"
  unfolding record_artifact_def
  by (intro keeps_then keeps_bind keeps_transaction keeps_append keeps_save) (simp_all add: event_type_strip)

lemma keeps_start_model_request:
  "allowed i \<Longrightarrow> emits ''model.request_started'' \<Longrightarrow> emits ''budget.snapshot'' \<Longrightarrow>
     keeps (start_model_request H i q m u r)"
  unfolding start_model_request_def
  by (auto simp: event_type_strip intro!: keeps_then keeps_bind keeps_transaction keeps_append keeps_snapshot
      keeps_update_budget split: prod.split)

lemma keeps_complete_model_response:
  "allowed i \<Longrightarrow> emits ''model.response_completed'' \<Longrightarrow> emits ''budget.snapshot'' \<Longrightarrow> emits ''artifact.recorded'' \<Longrightarrow>
     keeps (complete_model_response H i q n a p u r)"
  unfolding complete_model_response_def
  by (auto simp: event_type_strip intro!: keeps_then keeps_bind keeps_transaction keeps_append keeps_snapshot keeps_save
      keeps_update_budget split: prod.split)

lemma keeps_complete_evaluation:
  "allowed i \<Longrightarrow> emits ''artifact.recorded'' \<Longrightarrow> emits ''evaluation.completed'' \<Longrightarrow> emits ''budget.snapshot'' \<Longrightarrow> emits ''run.terminal'' \<Longrightarrow>
     keeps (complete_evaluation_with_events H i as ep st f tr u r)"
  unfolding complete_evaluation_with_events_def
  by (auto simp: event_type_strip intro!: keeps_then keeps_bind keeps_transaction keeps_append keeps_snapshot keeps_save
      keeps_update_budget keeps_for)

lemma keeps_recover_interrupted:
  "allowed i \<Longrightarrow> emits ''artifact.not_produced'' \<Longrightarrow> emits ''model.request_ambiguous'' \<Longrightarrow> emits ''budget.snapshot'' \<Longrightarrow> emits ''run.terminal'' \<Longrightarrow>
     keeps (recover_interrupted H i f tr cur st)"
  unfolding recover_interrupted_def
  by (auto simp: event_type_strip intro!: keeps_then keeps_bind keeps_append keeps_snapshot keeps_save
      keeps_update_budget keeps_absences keeps_catch split: prod.split)

lemma keeps_recover_run:
  "allowed i \<Longrightarrow> emits ''artifact.not_produced'' \<Longrightarrow> emits ''model.request_ambiguous'' \<Longrightarrow> emits ''budget.snapshot'' \<Longrightarrow> emits ''run.terminal'' \<Longrightarrow>
     keeps (recover_run_with_events H i f tr x g)"
  unfolding recover_run_with_events_def
  by (auto simp: event_type_strip intro!: keeps_then keeps_bind keeps_transaction keeps_recover_interrupted)

lemma keeps_exhaust_budget:
  "allowed i \<Longrightarrow> emits ''artifact.not_produced'' \<Longrightarrow> emits ''budget.snapshot'' \<Longrightarrow> emits ''run.terminal'' \<Longrightarrow>
     keeps (exhaust_budget H i f tr cur st)"
  unfolding exhaust_budget_def
  by (auto simp: event_type_strip intro!: keeps_then keeps_bind keeps_append keeps_snapshot keeps_save
      keeps_update_budget keeps_absences split: prod.split)

lemma keeps_budget_exhaustion:
  "allowed i \<Longrightarrow> emits ''artifact.not_produced'' \<Longrightarrow> emits ''budget.snapshot'' \<Longrightarrow> emits ''run.terminal'' \<Longrightarrow>
     keeps (complete_budget_exhaustion_with_events H i f tr x g)"
  unfolding complete_budget_exhaustion_with_events_def
  by (auto simp: event_type_strip intro!: keeps_then keeps_bind keeps_transaction keeps_exhaust_budget)

lemmas keeps_operations = keeps_create_run keeps_start_run keeps_record_artifact
  keeps_start_model_request keeps_complete_model_response keeps_complete_evaluation
  keeps_recover_run keeps_budget_exhaustion

lemma keeps_execute_command:
  "allowed (command_run_id c) \<Longrightarrow> list_all emits (command_event_types c) \<Longrightarrow> keeps (execute H c)"
  by (cases c) (auto intro!: keeps_then keeps_operations)

lemma execute_within:
  "allowed (command_run_id c) \<Longrightarrow> list_all emits (command_event_types c) \<Longrightarrow>
     Q (st_db s) (st_db (snd (execute H c s)))"
  using keeps_execute_command [of c H] by (simp add: keeps_def)

end

section \<open>The append-only tables\<close>

definition history_extends :: "database \<Rightarrow> database \<Rightarrow> bool" where
  "history_extends db db' =
     ((\<exists>new. events db' = events db @ new) \<and> (\<exists>new. run_manifests db' = run_manifests db @ new)
      \<and> (\<exists>new. map rr_run_id (runs db') = map rr_run_id (runs db) @ new))"

interpretation history: ledger_order history_extends "\<lambda>_. True" "\<lambda>_. True"
proof
  fix db db' db'' :: database
  show "history_extends db db' \<Longrightarrow> history_extends db' db'' \<Longrightarrow> history_extends db db''"
    by (auto simp: history_extends_def)
next
  fix r :: run_row and db :: database
  have "map rr_run_id (runs (update_run r db)) = map rr_run_id (runs db)"
    by (simp add: update_run_def)
  moreover have "events (update_run r db) = events db" "run_manifests (update_run r db) = run_manifests db"
    by (simp_all add: update_run_def)
  ultimately show "history_extends db (update_run r db)"
    unfolding history_extends_def by simp
qed (auto simp: history_extends_def insert_run_def insert_manifest_def insert_event_def
    insert_budget_def update_budget_def split: if_splits)

section \<open>The rows of another run\<close>

definition same_rows :: "string \<Rightarrow> database \<Rightarrow> database \<Rightarrow> bool" where
  "same_rows i db db' =
     (filter (\<lambda>q. rr_run_id q = i) (runs db') = filter (\<lambda>q. rr_run_id q = i) (runs db)
      \<and> filter (\<lambda>q. mr_run_id q = i) (run_manifests db') = filter (\<lambda>q. mr_run_id q = i) (run_manifests db)
      \<and> filter (\<lambda>q. vr_run_id q = i) (events db') = filter (\<lambda>q. vr_run_id q = i) (events db)
      \<and> filter (\<lambda>q. br_run_id q = i) (budget_state db') = filter (\<lambda>q. br_run_id q = i) (budget_state db))"

lemma filter_map_other:
  "(\<And>x. P (f x) = P x) \<Longrightarrow> (\<And>x. P x \<Longrightarrow> f x = x) \<Longrightarrow> filter P (map f xs) = filter P xs"
  by (induction xs) auto

interpretation other_run: ledger_order "same_rows i" "\<lambda>j. j \<noteq> i" "\<lambda>_. True" for i
proof
  fix db db' db'' :: database
  show "same_rows i db db' \<Longrightarrow> same_rows i db' db'' \<Longrightarrow> same_rows i db db''"
    by (simp add: same_rows_def)
next
  fix r :: run_row and db :: database
  show "rr_run_id r \<noteq> i \<Longrightarrow> same_rows i db (update_run r db)"
    by (auto simp: same_rows_def update_run_def intro!: filter_map_other)
next
  fix j u v and db :: database
  show "j \<noteq> i \<Longrightarrow> same_rows i db (update_budget j u v db)"
    by (auto simp: same_rows_def update_budget_def intro!: filter_map_other)
qed (auto simp: same_rows_def insert_run_def insert_manifest_def insert_event_def insert_budget_def
    split: if_splits)

section \<open>Model requests\<close>

text \<open>
  Commands that emit no \<open>model.request_started\<close> event leave the recorded requests alone, and no
  command ever changes the limits of a run.
\<close>

definition limits_extend :: "database \<Rightarrow> database \<Rightarrow> bool" where
  "limits_extend db db' =
     (\<exists>new. map (\<lambda>b. (br_run_id b, br_limits_json b)) (budget_state db')
        = map (\<lambda>b. (br_run_id b, br_limits_json b)) (budget_state db) @ new)"

definition same_requests :: "database \<Rightarrow> database \<Rightarrow> bool" where
  "same_requests db db' =
     (filter (\<lambda>v. vr_event_type v = ''model.request_started'') (events db')
      = filter (\<lambda>v. vr_event_type v = ''model.request_started'') (events db))"

lemma limits_update_budget: "limits_extend db (update_budget i u r db)"
proof -
  have "map (\<lambda>b. (br_run_id b, br_limits_json b)) (budget_state (update_budget i u r db))
    = map (\<lambda>b. (br_run_id b, br_limits_json b)) (budget_state db)"
    by (simp add: update_budget_def)
  then show ?thesis unfolding limits_extend_def by simp
qed

interpretation limits: ledger_order limits_extend "\<lambda>_. True" "\<lambda>_. True"
proof
  fix db db' db'' :: database
  show "limits_extend db db' \<Longrightarrow> limits_extend db' db'' \<Longrightarrow> limits_extend db db''"
    by (auto simp: limits_extend_def)
qed (auto simp: limits_extend_def insert_run_def insert_manifest_def insert_event_def
    insert_budget_def update_run_def split: if_splits intro: limits_update_budget [unfolded limits_extend_def])

interpretation requests: ledger_order same_requests "\<lambda>_. True" "\<lambda>t. t \<noteq> ''model.request_started''"
  by unfold_locales
    (auto simp: same_requests_def insert_run_def insert_manifest_def insert_event_def
      insert_budget_def update_run_def update_budget_def split: if_splits)

end
