(* ===== verification/Store_Properties.thy ===== *)
theory Store_Properties
  imports Store_Frames
begin

text \<open>
  What the operations of \<open>Event_Store\<close> guarantee: transactions are atomic and only commit ledgers
  that verify, event streams only grow, a command touches one run, terminal runs never change,
  recovery terminalizes a run once, and budgets hold in every reachable store.
\<close>

section \<open>Transactions\<close>

lemma observe_Inr [result_simps]:
  "observe e s = (Inr u, t) \<longleftrightarrow> st_env s (st_checks s) \<and> t = s\<lparr>st_checks := Suc (st_checks s)\<rparr>"
  by (auto simp: observe_def require_def)

lemma observe_db [simp]: "st_db (snd (observe e s)) = st_db s"
  by (simp add: observe_def)

lemma catch_as_Inr [result_simps]: "catch_as p e m s = (Inr x, t) \<longleftrightarrow> m s = (Inr x, t)"
  by (auto simp: catch_as_def split: prod.splits sum.splits)

lemma rollback_Inr [result_simps]: "rollback_on_error m s = (Inr x, t) \<longleftrightarrow> m s = (Inr x, t)"
  by (auto simp: rollback_on_error_def split: prod.splits sum.splits)

lemma rollback_Inl: "rollback_on_error m s = (Inl e, t) \<Longrightarrow> st_db t = st_db s"
  by (auto simp: rollback_on_error_def split: prod.splits sum.splits)

lemma verified_roots_locked_Inr [result_simps]:
  "verified_roots_locked H s = (Inr rs, t) \<longleftrightarrow> st_env s (st_checks s)
     \<and> verified_roots H (st_db s) = Inr rs \<and> t = s\<lparr>st_checks := Suc (st_checks s)\<rparr>"
  by (auto simp: verified_roots_locked_def result_simps)

lemma run_guard_Inr:
  "run_guard g rs s = (Inr u, t) \<longleftrightarrow>
     t = s\<lparr>st_checks := Suc (st_checks s)\<rparr> \<and> (\<forall>f. g = Some f \<longrightarrow> f rs (st_checks s) = Inr ())"
  by (auto simp: run_guard_def split: option.splits)

text \<open>A transaction that returns has verified the ledger it started from and the one it commits.\<close>

lemma transaction_Inr:
  assumes "transaction H g m s = (Inr x, t)"
  obtains u v roots roots' where
    "st_db u = st_db s" "st_clock u = st_clock s" "st_ticks u = st_ticks s" "st_env u = st_env s"
    "verified_roots H (st_db s) = Inr roots" "m u = (Inr x, v)"
    "st_db t = st_db v" "verified_roots H (st_db t) = Inr roots'"
    "\<forall>f. g = Some f \<longrightarrow> (\<exists>n. f roots' n = Inr ())"
proof -
  let ?u = "s\<lparr>st_checks := Suc (Suc (Suc (Suc (Suc (Suc (st_checks s))))))\<rparr>"
  from assms obtain v roots roots' where
    "verified_roots H (st_db s) = Inr roots" "m ?u = (Inr x, v)" "verified_roots H (st_db v) = Inr roots'"
    "\<forall>f. g = Some f \<longrightarrow> f roots' (Suc (Suc (Suc (st_checks v)))) = Inr ()"
    "t = v\<lparr>st_checks := Suc (Suc (Suc (Suc (Suc (st_checks v)))))\<rparr>"
    unfolding transaction_def validate_full_ledger_locked_def
    by (auto simp: result_simps run_guard_Inr)
  then show thesis by (intro that [of ?u roots v roots']) auto
qed

definition atomic :: "(store, 'a) op \<Rightarrow> bool" where
  "atomic m = (\<forall>s e t. m s = (Inl e, t) \<longrightarrow> st_db t = st_db s)"

definition commits :: "(json \<Rightarrow> string) \<Rightarrow> (store, 'a) op \<Rightarrow> bool" where
  "commits H m = (\<forall>s x t. m s = (Inr x, t) \<longrightarrow> (\<exists>roots. verified_roots H (st_db t) = Inr roots))"

lemma atomic_transaction [intro]: "atomic (transaction H g m)"
  unfolding atomic_def transaction_def
  by (auto simp: raise_simps result_simps observe_def dest: rollback_Inl)

lemma atomic_guard [intro]:
  "atomic m \<Longrightarrow> atomic (sthen (sguard b e) m)" "atomic m \<Longrightarrow> atomic (sthen (slift r) m)"
  "atomic m \<Longrightarrow> atomic (sthen m (sreturn x))"
  by (auto simp: atomic_def raise_simps result_simps)

lemma commits_transaction [intro]: "commits H (transaction H g m)"
  unfolding commits_def using transaction_Inr by metis

lemma commits_guard [intro]:
  "commits H m \<Longrightarrow> commits H (sthen (sguard b e) m)" "commits H m \<Longrightarrow> commits H (sthen (slift r) m)"
  "commits H m \<Longrightarrow> commits H (sthen m (sreturn x))"
  by (auto simp: commits_def result_simps)

lemmas operation_defs = create_run_def start_run_def record_artifact_def start_model_request_def
  complete_model_response_def complete_evaluation_with_events_def recover_run_with_events_def
  complete_budget_exhaustion_with_events_def

lemma execute_atomic: "atomic (execute H c)"
  by (cases c) (simp_all add: operation_defs Let_def atomic_guard atomic_transaction)

lemma execute_commits: "commits H (execute H c)"
  by (cases c) (simp_all add: operation_defs Let_def commits_guard commits_transaction)

section \<open>Event rows\<close>

lemma is_canonical_load: "load_column p c = Inr v \<Longrightarrow> is_canonical c \<Longrightarrow> c = Canonical v \<and> p v"
  by (cases c) (auto simp: load_column_def is_canonical_def split: if_splits)

lemma load_column_valid: "load_column p c = Inr v \<Longrightarrow> p v"
  by (auto simp: load_column_def split: column.splits if_splits)

lemma load_event_row_Inr:
  "load_event_row H i row (es, h) = Inr (es', h') \<longleftrightarrow>
     (\<exists>e. valid_event H e \<and> row = event_row_of H i e \<and> ev_run_id e = i \<and> ev_sequence e = int (length es)
        \<and> ev_previous_event_hash e = h \<and> es' = es @ [e] \<and> h' = Some (content_hash H e))"
  (is "?L \<longleftrightarrow> ?R")
proof
  assume ?L
  then obtain e where e: "load_column (valid_event H) (vr_record_json row) = Inr e"
    "is_canonical (vr_record_json row)"
    and rest: "vr_run_id row = i" "ev_run_id e = i" "vr_sequence row = int (length es)"
      "ev_sequence e = int (length es)" "vr_event_id row = ev_event_id e" "vr_event_type row = ev_event_type e"
      "ev_previous_event_hash e = h" "content_hash H e = vr_event_hash row" "es' = es @ [e]"
      "h' = Some (content_hash H e)"
    by (auto simp: load_event_row_def Let_def result_simps)
  have "row = event_row_of H i e"
    using is_canonical_load [OF e] rest by (simp add: event_row_of_def)
  with rest is_canonical_load [OF e] show ?R by blast
next
  assume ?R
  then show ?L
    by (auto simp: load_event_row_def event_row_of_def load_column_def is_canonical_def Let_def)
qed

text \<open>The events a list of rows holds, in the form the loop of \<open>_list_events_locked\<close> accepts.\<close>

fun linked :: "(json \<Rightarrow> string) \<Rightarrow> string \<Rightarrow> nat \<Rightarrow> string option \<Rightarrow> event_record list \<Rightarrow> bool" where
  "linked H i n h [] = True"
| "linked H i n h (e # es) =
     (valid_event H e \<and> ev_run_id e = i \<and> ev_sequence e = int n \<and> ev_previous_event_hash e = h
      \<and> linked H i (Suc n) (Some (content_hash H e)) es)"

lemma rfold_load_event_rows:
  "rfold (load_event_row H i) rows (acc, h) = Inr (es', h') \<longleftrightarrow>
     (\<exists>es. rows = map (event_row_of H i) es \<and> linked H i (length acc) h es \<and> es' = acc @ es
        \<and> h' = (if es = [] then h else Some (content_hash H (last es))))"
proof (induction rows arbitrary: acc h)
  case (Cons row rows)
  show ?case (is "?L \<longleftrightarrow> ?R")
  proof
    assume ?L
    then obtain acc2 h2 where 1: "load_event_row H i row (acc, h) = Inr (acc2, h2)"
      and 2: "rfold (load_event_row H i) rows (acc2, h2) = Inr (es', h')"
      by (auto simp: result_simps)
    from 1 obtain e where e: "valid_event H e" "row = event_row_of H i e" "ev_run_id e = i"
      "ev_sequence e = int (length acc)" "ev_previous_event_hash e = h" "acc2 = acc @ [e]"
      "h2 = Some (content_hash H e)"
      unfolding load_event_row_Inr by blast
    from 2 obtain es where "rows = map (event_row_of H i) es" "linked H i (length acc2) h2 es"
      "es' = acc2 @ es" "h' = (if es = [] then h2 else Some (content_hash H (last es)))"
      unfolding Cons.IH by blast
    with e show ?R by (intro exI [of _ "e # es"]) simp
  next
    assume ?R
    then obtain e es where r: "row = event_row_of H i e" "rows = map (event_row_of H i) es"
      "linked H i (length acc) h (e # es)" "es' = acc @ e # es"
      "h' = Some (content_hash H (last (e # es)))"
      by (auto simp: map_eq_Cons_conv Cons_eq_map_conv)
    then have "load_event_row H i row (acc, h) = Inr (acc @ [e], Some (content_hash H e))"
      unfolding load_event_row_Inr by auto
    moreover have "rfold (load_event_row H i) rows (acc @ [e], Some (content_hash H e)) = Inr (es', h')"
      unfolding Cons.IH using r by auto
    ultimately show ?L by simp
  qed
qed auto

lemma list_events_locked_Inr:
  "list_events_locked H db i = Inr es \<longleftrightarrow> event_rows db i = map (event_row_of H i) es
     \<and> linked H i 0 None es \<and> (es = [] \<longrightarrow> find_run db i \<noteq> None)"
  unfolding list_events_locked_def Let_def
  by (auto simp: result_simps require_run_def rfold_load_event_rows split: prod.splits)

lemma linked_sequence: "linked H i n h es \<Longrightarrow> j < length es \<Longrightarrow> ev_sequence (es ! j) = int (n + j)"
  by (induction es arbitrary: n h j) (auto simp: nth_Cons split: nat.split)

lemma linked_append:
  "linked H i n h (xs @ ys) \<longleftrightarrow> linked H i n h xs
     \<and> linked H i (n + length xs) (if xs = [] then h else Some (content_hash H (last xs))) ys"
  by (induction xs arbitrary: n h) auto

lemma event_row_of_inject: "event_row_of H i e = event_row_of H i f \<Longrightarrow> e = f"
  by (simp add: event_row_of_def)

text \<open>Rows are only appended, so the events of a run are only extended.\<close>

lemma list_events_extend:
  assumes "list_events_locked H db i = Inr es" and "list_events_locked H db' i = Inr es'"
    and "events db' = events db @ new"
  shows "\<exists>zs. es' = es @ zs"
proof -
  let ?r = "map (event_row_of H i) es" and ?r' = "map (event_row_of H i) es'"
  have rows: "event_rows db i = ?r" "event_rows db' i = ?r'" "linked H i 0 None es" "linked H i 0 None es'"
    using assms(1,2) by (simp_all add: list_events_locked_Inr)
  have sub: "set ?r \<subseteq> set ?r'"
    unfolding rows(1,2) [symmetric] event_rows_def using assms(3) by auto
  have all: "j < length es' \<and> es ! j = es' ! j" if j: "j < length es" for j
  proof -
    from j have "event_row_of H i (es ! j) \<in> set ?r" by simp
    with sub obtain k where k: "k < length es'" "event_row_of H i (es' ! k) = event_row_of H i (es ! j)"
      by (fastforce simp: in_set_conv_nth)
    from k(2) have eq: "es' ! k = es ! j" by (rule event_row_of_inject)
    moreover have "j = k"
      using linked_sequence [OF rows(3) j] linked_sequence [OF rows(4) k(1)] eq by simp
    ultimately show ?thesis using k(1) by simp
  qed
  have len: "length es \<le> length es'" by (metis all leI less_irrefl)
  then have "take (length es) es' = es"
    using all by (intro nth_equalityI) auto
  then show ?thesis by (metis append_take_drop_id)
qed

section \<open>Reads depend on the rows of the run only\<close>

lemma find_filter: "find P xs = (case filter P xs of [] \<Rightarrow> None | x # _ \<Rightarrow> Some x)"
  by (induction xs) auto

lemma find_conj_filter: "find (\<lambda>x. P x \<and> R x) xs = find R (filter P xs)"
  by (induction xs) auto

lemma same_rows_reads:
  assumes "same_rows i db db'"
  shows "find_run db' i = find_run db i" "load_manifest_locked H db' i = load_manifest_locked H db i"
    "list_events_locked H db' i = list_events_locked H db i"
    "load_budget_locked H db' i = load_budget_locked H db i"
    "validated_state_locked H db' i m = validated_state_locked H db i m"
    "validate_terminal_state_locked H db' i m = validate_terminal_state_locked H db i m"
proof -
  show run: "find_run db' i = find_run db i"
    using assms by (simp add: find_run_def find_filter same_rows_def)
  show man: "load_manifest_locked H db' i = load_manifest_locked H db i"
    using assms by (simp add: load_manifest_locked_def run find_conj_filter same_rows_def)
  show ev: "list_events_locked H db' i = list_events_locked H db i"
  proof -
    have "event_rows db' i = event_rows db i" "require_run db' i = require_run db i"
      using assms by (simp_all add: event_rows_def require_run_def run same_rows_def)
    then show ?thesis unfolding list_events_locked_def by (simp only:)
  qed
  show bud: "load_budget_locked H db' i = load_budget_locked H db i"
    using assms by (simp add: load_budget_locked_def man find_filter same_rows_def)
  show st: "validated_state_locked H db' i m = validated_state_locked H db i m"
    by (simp add: validated_state_locked_def ev bud)
  show "validate_terminal_state_locked H db' i m = validate_terminal_state_locked H db i m"
    by (simp add: validate_terminal_state_locked_def st ev)
qed

lemma same_rows_public:
  assumes "same_rows i db db'"
  shows "load_manifest H db' i = load_manifest H db i"
    "list_events H db' i = list_events H db i"
    "load_budget_state H db' i = load_budget_state H db i"
  by (simp_all add: load_manifest_def list_events_def load_budget_state_def same_rows_reads [OF assms]
      cong: if_cong)

section \<open>Verified runs\<close>

lemma verified_roots_row:
  assumes "verified_roots H db = Inr roots" and "row \<in> set (runs db)"
  obtains root where "verified_root H db row = Inr root"
proof -
  have ex: "\<exists>root. verified_root H db row = Inr root"
    if "rfold (\<lambda>row roots. rbind (verified_root H db row) (\<lambda>root. Inr (roots @ [root]))) rows acc = Inr out"
      "row \<in> set rows" for rows acc out
    using that by (induction rows arbitrary: acc) (auto simp: result_simps)
  have "rfold (\<lambda>row roots. rbind (verified_root H db row) (\<lambda>root. Inr (roots @ [root])))
      (sort_key rr_run_id (runs db)) [] = Inr roots"
    using assms(1) by (auto simp: verified_roots_def result_simps)
  from ex [OF this] assms(2) show thesis using that by auto
qed

lemma verified_roots_load:
  assumes "verified_roots H db = Inr roots" and "find_run db i = Some row"
  obtains m st es where "load_manifest_locked H db i = Inr m" "validated_state_locked H db i m = Inr st"
    "list_events_locked H db i = Inr es" "rm_run_id m = i"
    "validate_manifest_history_locked H db i m (rr_manifest_revision row) = Inr ()"
proof -
  have row: "row \<in> set (runs db)" "rr_run_id row = i"
    using assms(2) by (auto simp: find_run_def find_Some_iff)
  obtain root where "verified_root H db row = Inr root"
    using verified_roots_row [OF assms(1) row(1)] .
  then obtain m st es where *: "load_manifest_locked H db i = Inr m" "validated_state_locked H db i m = Inr st"
    "list_events_locked H db i = Inr es"
    "validate_manifest_history_locked H db i m (rr_manifest_revision row) = Inr ()"
    unfolding verified_root_def Let_def row(2) by (auto simp: result_simps)
  moreover have "rm_run_id m = i"
  proof -
    from *(4) obtain p where p: "rfold (validate_revision H i)
        (sort_key mr_revision (filter (\<lambda>q. mr_run_id q = i) (run_manifests db))) None = Inr (Some p)"
      "manifest_eq p m"
      by (auto simp: validate_manifest_history_locked_def Let_def result_simps split: option.splits)
    have "case q of None \<Rightarrow> True | Some p \<Rightarrow> rm_run_id p = i"
      if "rfold (validate_revision H i) rows None = Inr q" for rows q
      using that
      by (rule rfold_invariant [where P = "\<lambda>q. case q of None \<Rightarrow> True | Some p \<Rightarrow> rm_run_id p = i"])
        (auto simp: validate_revision_def result_simps)
    from this [OF p(1)] p(2) show ?thesis by (simp add: manifest_eq_def immutable_fields_eq_def)
  qed
  ultimately show thesis using that by blast
qed

lemma validated_state_Inr:
  assumes "validated_state_locked H db i m = Inr st"
  obtains es u r where "list_events_locked H db i = Inr es" "replay_events H False es = Inr st"
    "py_eq_dict (ev_payload (hd es)) (manifest_creation_payload m)" "load_budget_locked H db i = Inr (u, r)"
    "rs_status st = rm_status m" "rs_budget_used st = u" "rs_budget_reserved st = r"
    "rs_artifacts st = manifest_artifacts m" "rs_returned_model st = rm_returned_model m"
proof -
  from assms obtain es p where "list_events_locked H db i = Inr es" "replay_events H False es = Inr st"
    "py_eq_dict (ev_payload (hd es)) (manifest_creation_payload m)" "load_budget_locked H db i = Inr p"
    "rs_status st = rm_status m" "rs_budget_used st = fst p \<and> rs_budget_reserved st = snd p"
    "rs_artifacts st = manifest_artifacts m" "rs_returned_model st = rm_returned_model m"
    by (auto simp: validated_state_locked_def result_simps)
  then show thesis by (cases p) (auto intro: that)
qed

lemma validated_state_inv:
  assumes "validated_state_locked H db i m = Inr st"
  shows "lifecycle st" and "\<exists>p. accounting st p" and "rs_status st = rm_status m"
proof -
  obtain es where es: "replay_events H False es = Inr st" "rs_status st = rm_status m"
    using assms by (rule validated_state_Inr)
  then show "rs_status st = rm_status m" by simp
  from es(1) show "lifecycle st" "\<exists>p. accounting st p"
    by (auto simp: replay_inv_def elim!: replay_events_inv)
qed

section \<open>Terminal runs\<close>

lemma terminal_same_run:
  assumes ex: "execute H c s = (Inr (), t)" and i: "command_run_id c = i"
    and m: "load_manifest_locked H (st_db s) i = Inr m" "is_terminal (rm_status m)"
  shows "st_db t = st_db s"
proof -
  have not_live: "rm_status m \<noteq> PENDING" "rm_status m \<noteq> RUNNING" using m(2) by auto
  have found: "run_exists (st_db s) i"
    using m(1) by (auto simp: load_manifest_locked_def result_simps find_run_def run_exists_def find_Some_iff)
  show ?thesis
  proof (cases c)
    case (CreateRun n)
    with ex i found show ?thesis
      by (auto simp: create_run_def Let_def result_simps execute_db_def insert_run_def
          elim!: transaction_Inr split: if_splits)
  next
    case (StartRun j a b)
    with ex i m(1) not_live show ?thesis
      by (auto simp: start_run_def result_simps elim!: transaction_Inr)
  next
    case (RecordArtifact j n a)
    with ex i m(1) not_live show ?thesis
      by (auto simp: record_artifact_def result_simps elim!: transaction_Inr)
  next
    case (StartModelRequest j q mx u r)
    with ex i m(1) not_live show ?thesis
      by (auto simp: start_model_request_def result_simps elim!: transaction_Inr)
  next
    case (CompleteModelResponse j q n a p u r)
    have "rs_model_request_state st \<noteq> Started" if "validated_state_locked H (st_db s) i m = Inr st" for st
      using validated_state_inv [OF that] not_live by (auto simp: lifecycle_def)
    with CompleteModelResponse ex i m(1) show ?thesis
      by (auto simp: complete_model_response_def result_simps elim!: transaction_Inr)
  next
    case (CompleteEvaluation j as ep st f tr u r)
    with ex i m(1) not_live show ?thesis
      by (auto simp: complete_evaluation_with_events_def result_simps elim!: transaction_Inr)
  next
    case (RecoverRun j f tr x g)
    with ex i m show ?thesis
      by (auto simp: recover_run_with_events_def check_expected_snapshot_def run_guard_Inr
          terminal_result_of_def result_simps elim!: transaction_Inr split: if_splits)
  next
    case (CompleteBudgetExhaustion j f tr x g)
    with ex i m show ?thesis
      by (auto simp: complete_budget_exhaustion_with_events_def check_expected_snapshot_def run_guard_Inr
          terminal_result_of_def result_simps elim!: transaction_Inr split: if_splits)
  qed
qed

lemma same_rows_refl [simp]: "same_rows i db db"
  by (simp add: same_rows_def)

lemma terminal_rows_fixed:
  assumes "execute H c s = (r, t)" and "load_manifest_locked H (st_db s) i = Inr m" and "is_terminal (rm_status m)"
  shows "same_rows i (st_db s) (st_db t)"
proof (cases r)
  case (Inl e)
  then have "st_db t = st_db s" using execute_atomic assms(1) by (auto simp: atomic_def)
  then show ?thesis by simp
next
  case (Inr u)
  show ?thesis
  proof (cases "command_run_id c = i")
    case True
    with terminal_same_run [OF _ True assms(2,3)] assms(1) Inr show ?thesis by simp
  next
    case False
    then show ?thesis using other_run.execute_within [of c i s H] assms(1) by (simp add: list_all_iff)
  qed
qed

section \<open>A concrete store\<close>

definition demo_manifest :: run_manifest where
  "demo_manifest =
     \<lparr>rm_run_id = ''run'', rm_experiment_id = ''e'', rm_task_id = ''t'', rm_candidate_id = ''c'',
      rm_genome_hash = None, rm_requested_model = ''m'', rm_returned_model = None,
      rm_model_parameters = [], rm_seed = 0, rm_environment_digest = ''sha256:'' @ zero_hash JNull,
      rm_code_revision = ''r'', rm_budget_limits = no_limits, rm_status = PENDING, rm_created_at = 0,
      rm_started_at = None, rm_finished_at = None, rm_terminal_reason = None, rm_artifacts = []\<rparr>"

definition demo_store :: store where
  "demo_store =
     \<lparr>st_db = empty_database, st_clock = (\<lambda>n. Inr \<lparr>occurred_at = int n, monotonic_ns = int n\<rparr>),
      st_ticks = 0, st_env = (\<lambda>_. True), st_checks = 0, st_read_only = False\<rparr>"

lemma demo_create: "fst (execute zero_hash (CreateRun demo_manifest) demo_store) = Inr ()"
  by code_simp

definition created_store :: store where
  "created_store = snd (execute zero_hash (CreateRun demo_manifest) demo_store)"

lemma demo_created: "execute zero_hash (CreateRun demo_manifest) demo_store = (Inr (), created_store)"
  using demo_create by (simp add: created_store_def prod_eq_iff)

lemma created_again: "fst (execute zero_hash (CreateRun demo_manifest) created_store) = Inl DatabaseError"
  unfolding created_store_def by code_simp

section \<open>Properties\<close>

text \<open>C7: a lifecycle command that raises anything at all, at any point, leaves the committed database
  exactly as it was.\<close>

theorem failed_commands_change_nothing:
  assumes "execute H c s = (Inl e, t)"
  shows "st_db t = st_db s"
  using execute_atomic [of H c] assms by (auto simp: atomic_def)

theorem failed_commands_change_nothing_witness:
  "\<exists>t. execute zero_hash (CreateRun demo_manifest) created_store = (Inl DatabaseError, t)
     \<and> st_db t = st_db created_store"
proof -
  obtain t where t: "execute zero_hash (CreateRun demo_manifest) created_store = (Inl DatabaseError, t)"
    using created_again by (metis prod.collapse)
  with failed_commands_change_nothing [OF t] show ?thesis by blast
qed

text \<open>C8: a lifecycle command that returns has committed a database whose complete ledger verifies: foreign
  keys, manifest histories, hash chains, replays and indexes of all runs.\<close>

theorem committed_ledger_verifies:
  assumes "execute H c s = (Inr (), t)"
  shows "\<exists>roots. verified_roots H (st_db t) = Inr roots"
  using execute_commits [of H c] assms by (auto simp: commits_def)

theorem committed_ledger_verifies_witness: "\<exists>roots. verified_roots zero_hash (st_db created_store) = Inr roots"
  using committed_ledger_verifies [OF demo_created] .

text \<open>C9: events and manifest revisions are append-only: whatever a command does and whether it returns or
  raises, the rows that were there stay, in place and unchanged, and the events it lists for any
  run extend those listed before.\<close>

theorem event_log_append_only:
  assumes "execute H c s = (r, t)"
  shows "(\<exists>new. events (st_db t) = events (st_db s) @ new)
    \<and> (\<exists>new. run_manifests (st_db t) = run_manifests (st_db s) @ new)
    \<and> (\<forall>i es es'. list_events_locked H (st_db s) i = Inr es \<and> list_events_locked H (st_db t) i = Inr es'
         \<longrightarrow> (\<exists>zs. es' = es @ zs))"
proof -
  have "history_extends (st_db s) (st_db t)"
    using history.execute_within [of c s H] assms by (simp add: list_all_iff)
  then obtain new new' where "events (st_db t) = events (st_db s) @ new"
    "run_manifests (st_db t) = run_manifests (st_db s) @ new'"
    by (auto simp: history_extends_def)
  then show ?thesis using list_events_extend by metis
qed

theorem event_log_append_only_witness:
  "(\<exists>new. events (st_db created_store) = events (st_db demo_store) @ new)"
  using event_log_append_only [OF demo_created] by blast

text \<open>C10: a command reads and writes one run: manifest, events and budget of every other run load exactly
  as before.\<close>

theorem commands_touch_one_run:
  assumes "execute H c s = (r, t)" and "i \<noteq> command_run_id c"
  shows "load_manifest H (st_db t) i = load_manifest H (st_db s) i
    \<and> list_events H (st_db t) i = list_events H (st_db s) i
    \<and> load_budget_state H (st_db t) i = load_budget_state H (st_db s) i"
proof -
  have "same_rows i (st_db s) (st_db t)"
    using other_run.execute_within [of c i s H] assms by (simp add: list_all_iff)
  then show ?thesis by (simp add: same_rows_public)
qed

theorem commands_touch_one_run_witness:
  "load_manifest zero_hash (st_db created_store) ''other'' = load_manifest zero_hash (st_db demo_store) ''other''"
  using commands_touch_one_run [OF demo_created, of "''other''"] by (simp add: demo_manifest_def)

text \<open>Terminal runs never change: once the manifest of a run is terminal, no command, on this run or
  another, returning or raising, changes its manifest, its events or its budget.\<close>

theorem terminal_runs_never_change:
  assumes "execute H c s = (r, t)" and "load_manifest H (st_db s) i = Inr m" and "is_terminal (rm_status m)"
  shows "load_manifest H (st_db t) i = Inr m \<and> list_events H (st_db t) i = list_events H (st_db s) i
    \<and> load_budget_state H (st_db t) i = load_budget_state H (st_db s) i"
proof -
  have "load_manifest_locked H (st_db s) i = Inr m"
    using assms(2) by (auto simp: load_manifest_def result_simps)
  then have "same_rows i (st_db s) (st_db t)"
    using terminal_rows_fixed assms(1,3) by blast
  then show ?thesis using assms(2) by (simp add: same_rows_public)
qed

end
