(* ===== verification/Py_Path.thy ===== *)
theory Py_Path
  imports Guild_Prelude
begin

text \<open>
  What the code uses of Python's lexical paths: \<open>str.split\<close> on a separator, \<open>str.join\<close> and
  \<open>pathlib.PurePosixPath\<close>. A pure path is kept as the text it was made from; its root, its parts
  and its text are computed the way \<open>pathlib\<close> computes them: components that are empty or a
  single dot are dropped, two leading slashes (and not more) are a root of their own.
\<close>

fun split_on :: "char \<Rightarrow> string \<Rightarrow> string list" where
  "split_on c [] = [[]]"
| "split_on c (x # xs) =
     (if x = c then [] # split_on c xs
      else (case split_on c xs of [] \<Rightarrow> [[x]] | p # ps \<Rightarrow> (x # p) # ps))"

fun join_on :: "char \<Rightarrow> string list \<Rightarrow> string" where
  "join_on c [] = []"
| "join_on c [p] = p"
| "join_on c (p # q # ps) = p @ c # join_on c (q # ps)"

definition slash :: char where
  "slash = CHR ''/''"

definition starts_with :: "string \<Rightarrow> string \<Rightarrow> bool" where
  "starts_with p s = (take (length p) s = p)"

definition posix_root :: "string \<Rightarrow> string" where
  "posix_root s =
     (if \<not> starts_with ''/'' s then ''''
      else if starts_with ''//'' s \<and> \<not> starts_with ''///'' s then ''//'' else ''/'')"

definition posix_tail :: "string \<Rightarrow> string list" where
  "posix_tail s = filter (\<lambda>p. p \<noteq> [] \<and> p \<noteq> ''.'') (split_on slash s)"

definition is_absolute :: "string \<Rightarrow> bool" where
  "is_absolute s = (posix_root s \<noteq> [])"

definition path_parts :: "string \<Rightarrow> string list" where
  "path_parts s = (if posix_root s = [] then posix_tail s else posix_root s # posix_tail s)"

definition as_posix :: "string \<Rightarrow> string" where
  "as_posix s =
     (if posix_root s = [] \<and> posix_tail s = [] then ''.''
      else posix_root s @ join_on slash (posix_tail s))"

section \<open>Splitting and joining\<close>

lemma split_on_nonempty [simp]: "split_on c s \<noteq> []"
  by (cases s) (auto split: list.splits)

lemma join_on_Cons: "ps \<noteq> [] \<Longrightarrow> join_on c (p # ps) = p @ c # join_on c ps"
  by (cases ps) simp_all

lemma join_split [simp]: "join_on c (split_on c s) = s"
proof (induction s)
  case (Cons x xs)
  then show ?case
    by (cases "split_on c xs"; cases "tl (split_on c xs)") (auto simp: join_on_Cons)
qed simp

lemma split_on_no_separator: "p \<in> set (split_on c s) \<Longrightarrow> c \<notin> set p"
proof (induction s arbitrary: p)
  case (Cons x xs)
  then show ?case by (cases "split_on c xs") (auto split: if_splits)
qed simp

lemma split_on_free: "c \<notin> set p \<Longrightarrow> split_on c p = [p]"
  by (induction p) auto

lemma split_on_append: "c \<notin> set p \<Longrightarrow> split_on c (p @ c # s) = p # split_on c s"
  by (induction p) auto

lemma split_join:
  assumes "ps \<noteq> []" and "\<And>p. p \<in> set ps \<Longrightarrow> c \<notin> set p"
  shows "split_on c (join_on c ps) = ps"
  using assms
proof (induction c ps rule: join_on.induct)
  case (3 c p q ps)
  then show ?case by (simp add: split_on_append)
qed (simp_all add: split_on_free)

lemma starts_with_slash: "starts_with ''/'' s \<longleftrightarrow> s \<noteq> [] \<and> hd s = slash"
  by (cases s) (auto simp: starts_with_def slash_def)

lemma split_on_hd: "s \<noteq> [] \<Longrightarrow> hd s = c \<longleftrightarrow> s \<noteq> [] \<and> hd (split_on c s) = []"
  by (cases s) (auto split: list.splits)

section \<open>Plain relative paths\<close>

text \<open>The checks that the campaign contract makes on a path, and what they come to on its components.\<close>

definition plain_component :: "string \<Rightarrow> bool" where
  "plain_component p = (p \<notin> {'''', ''.'', ''..''})"

lemma plain_path_components:
  "\<not> is_absolute v \<and> path_parts v \<noteq> [] \<and> list_all plain_component (path_parts v) \<and> as_posix v = v
   \<longleftrightarrow> list_all plain_component (split_on slash v)"
proof
  assume *: "\<not> is_absolute v \<and> path_parts v \<noteq> [] \<and> list_all plain_component (path_parts v) \<and> as_posix v = v"
  then have r: "posix_root v = []" by (simp add: is_absolute_def)
  with * have t: "posix_tail v \<noteq> []" "list_all plain_component (posix_tail v)" by (simp_all add: path_parts_def)
  from * r t(1) have "v = join_on slash (posix_tail v)" by (simp add: as_posix_def)
  moreover have "p \<in> set (posix_tail v) \<Longrightarrow> slash \<notin> set p" for p
    by (auto simp: posix_tail_def dest: split_on_no_separator)
  ultimately have "split_on slash v = posix_tail v"
    using split_join [OF t(1)] by metis
  with t(2) show "list_all plain_component (split_on slash v)" by simp
next
  assume *: "list_all plain_component (split_on slash v)"
  then have t: "posix_tail v = split_on slash v"
    by (auto simp: posix_tail_def list_all_iff plain_component_def intro!: filter_True)
  from * have h: "hd (split_on slash v) \<noteq> []"
    by (cases "split_on slash v") (auto simp: plain_component_def)
  have "\<not> starts_with ''/'' v"
    using h split_on_hd [of v slash] by (auto simp: starts_with_slash)
  then have "posix_root v = []" by (simp add: posix_root_def)
  with t * show "\<not> is_absolute v \<and> path_parts v \<noteq> [] \<and> list_all plain_component (path_parts v) \<and> as_posix v = v"
    by (simp add: is_absolute_def path_parts_def as_posix_def)
qed

end
