(* ===== verification/Campaign.thy ===== *)
theory Campaign
  imports Domain Py_Path
begin

text \<open>
  Model of \<open>src/src/guildmind/domain/campaign.py\<close>: the evidence records of a reliability campaign.
  As in \<open>Domain\<close>, a pydantic class is a \<^theory_text>\<open>record\<close> of its fields, its field constraints and
  validators are an executable validity predicate, and its dump is a JSON value with sorted keys;
  fields with a single literal value appear in the dumps only. The schedule validator makes a
  manifest a full factorial design, the validator of the report body recomputes every aggregate
  claim from the retained evidence, and the envelope binds the body by its hash.
\<close>

section \<open>Field types\<close>

definition is_lower_alnum :: "char \<Rightarrow> bool" where
  "is_lower_alnum c = (c \<in> set ''abcdefghijklmnopqrstuvwxyz0123456789'')"

text \<open>The pattern \<open>^[a-z0-9][a-z0-9-]{0,126}[a-z0-9]$\<close>.\<close>

definition is_campaign_id :: "string \<Rightarrow> bool" where
  "is_campaign_id s =
     (2 \<le> length s \<and> length s \<le> 128 \<and> is_lower_alnum (hd s) \<and> is_lower_alnum (last s)
      \<and> list_all (\<lambda>c. is_lower_alnum c \<or> c = CHR ''-'') s)"

definition is_campaign_rate :: "rat \<Rightarrow> bool" where
  "is_campaign_rate r = (is_float r \<and> 0 \<le> r \<and> r \<le> 1)"

datatype evidence_tier = DEVELOPMENT | REFERENCE

fun tier_value :: "evidence_tier \<Rightarrow> string" where
  "tier_value DEVELOPMENT = ''development''"
| "tier_value REFERENCE = ''reference''"

datatype evaluator_kind = LOCAL | CONTAINER

fun kind_value :: "evaluator_kind \<Rightarrow> string" where
  "kind_value LOCAL = ''local''"
| "kind_value CONTAINER = ''container''"

datatype attempt_disposition =
    EXPECTED
  | UNEXPECTED_RESULT
  | ATTEMPT_INFRASTRUCTURE_ERROR
  | EVIDENCE_MISSING
  | EVIDENCE_RUN_SET_INVALID
  | EVIDENCE_NONTERMINAL
  | EVIDENCE_INVALID
  | POST_COMMIT_MAINTENANCE_ERROR

fun disposition_value :: "attempt_disposition \<Rightarrow> string" where
  "disposition_value EXPECTED = ''expected''"
| "disposition_value UNEXPECTED_RESULT = ''unexpected_result''"
| "disposition_value ATTEMPT_INFRASTRUCTURE_ERROR = ''infrastructure_error''"
| "disposition_value EVIDENCE_MISSING = ''evidence_missing''"
| "disposition_value EVIDENCE_RUN_SET_INVALID = ''evidence_run_set_invalid''"
| "disposition_value EVIDENCE_NONTERMINAL = ''evidence_nonterminal''"
| "disposition_value EVIDENCE_INVALID = ''evidence_invalid''"
| "disposition_value POST_COMMIT_MAINTENANCE_ERROR = ''post_commit_maintenance_error''"

definition is_infrastructure_error :: "attempt_disposition \<Rightarrow> bool" where
  "is_infrastructure_error d = (d \<notin> {EXPECTED, UNEXPECTED_RESULT})"

section \<open>The campaign manifest\<close>

record campaign_evaluator =
  ce_kind :: evaluator_kind
  ce_evaluator_version :: string
  ce_environment_digest :: string

definition valid_campaign_evaluator :: "campaign_evaluator \<Rightarrow> bool" where
  "valid_campaign_evaluator e =
     (valid_nonempty_str (ce_evaluator_version e) \<and> is_sha256_digest (ce_environment_digest e))"

definition campaign_evaluator_json :: "campaign_evaluator \<Rightarrow> json" where
  "campaign_evaluator_json e =
     JObj [(''environment_digest'', JStr (ce_environment_digest e)),
       (''evaluator_version'', JStr (ce_evaluator_version e)),
       (''kind'', JStr (kind_value (ce_kind e)))]"

text \<open>The only model kind is \<open>scripted_patch\<close>, so the class comes down to its \<open>model_id\<close>.\<close>

record campaign_model =
  cmo_model_id :: string

definition valid_campaign_model :: "campaign_model \<Rightarrow> bool" where
  "valid_campaign_model m = valid_nonempty_str (cmo_model_id m)"

definition campaign_model_json :: "campaign_model \<Rightarrow> json" where
  "campaign_model_json m =
     JObj [(''kind'', JStr ''scripted_patch''), (''model_id'', JStr (cmo_model_id m))]"

record campaign_fixture =
  cf_fixture_id :: string
  cf_fixture_path :: string
  cf_fixture_tree_sha256 :: string
  cf_solution_patch_sha256 :: string

definition fixture_path_is_plain_relative_posix :: "string \<Rightarrow> bool" where
  "fixture_path_is_plain_relative_posix v =
     (if CHR 0x5C \<in> set v \<or> CHR 0x00 \<in> set v then False
      else \<not> (is_absolute v
        \<or> path_parts v = []
        \<or> list_ex (\<lambda>p. p \<in> {'''', ''.'', ''..''}) (path_parts v)
        \<or> as_posix v \<noteq> v))"

definition valid_campaign_fixture :: "campaign_fixture \<Rightarrow> bool" where
  "valid_campaign_fixture f =
     (is_campaign_id (cf_fixture_id f) \<and> valid_nonempty_str (cf_fixture_path f)
      \<and> is_lower_sha256 (cf_fixture_tree_sha256 f) \<and> is_lower_sha256 (cf_solution_patch_sha256 f)
      \<and> fixture_path_is_plain_relative_posix (cf_fixture_path f))"

definition expected_run_status :: run_status where
  "expected_run_status = SUCCEEDED"

definition expected_evaluation_outcome :: string where
  "expected_evaluation_outcome = ''passed''"

definition campaign_fixture_json :: "campaign_fixture \<Rightarrow> json" where
  "campaign_fixture_json f =
     JObj [(''expected_evaluation_outcome'', JStr expected_evaluation_outcome),
       (''expected_run_status'', JStr (status_value expected_run_status)),
       (''fixture_id'', JStr (cf_fixture_id f)), (''fixture_path'', JStr (cf_fixture_path f)),
       (''fixture_tree_sha256'', JStr (cf_fixture_tree_sha256 f)),
       (''solution_patch_sha256'', JStr (cf_solution_patch_sha256 f))]"

record campaign_attempt =
  ca_attempt_id :: string
  ca_fixture_id :: string
  ca_round_index :: int
  ca_seed :: int

definition valid_campaign_attempt :: "campaign_attempt \<Rightarrow> bool" where
  "valid_campaign_attempt a =
     (is_campaign_id (ca_attempt_id a) \<and> is_campaign_id (ca_fixture_id a)
      \<and> 0 \<le> ca_round_index a \<and> 0 \<le> ca_seed a)"

definition campaign_attempt_json :: "campaign_attempt \<Rightarrow> json" where
  "campaign_attempt_json a =
     JObj [(''attempt_id'', JStr (ca_attempt_id a)), (''fixture_id'', JStr (ca_fixture_id a)),
       (''round_index'', JInt (ca_round_index a)), (''seed'', JInt (ca_seed a))]"

record campaign_manifest =
  cm_campaign_id :: string
  cm_evidence_tier :: evidence_tier
  cm_experiment_id :: string
  cm_candidate_id :: string
  cm_code_source_sha256 :: string
  cm_evaluator :: campaign_evaluator
  cm_model :: campaign_model
  cm_budget_limits :: budget_limits
  cm_rounds :: int
  cm_maximum_infrastructure_error_rate :: rat
  cm_fixtures :: "campaign_fixture list"
  cm_attempts :: "campaign_attempt list"

definition valid_campaign_fields :: "campaign_manifest \<Rightarrow> bool" where
  "valid_campaign_fields m =
     (is_campaign_id (cm_campaign_id m) \<and> is_campaign_id (cm_experiment_id m)
      \<and> is_campaign_id (cm_candidate_id m) \<and> is_lower_sha256 (cm_code_source_sha256 m)
      \<and> valid_campaign_evaluator (cm_evaluator m) \<and> valid_campaign_model (cm_model m)
      \<and> valid_limits (cm_budget_limits m) \<and> 0 < cm_rounds m
      \<and> is_campaign_rate (cm_maximum_infrastructure_error_rate m)
      \<and> list_all valid_campaign_fixture (cm_fixtures m)
      \<and> 1 \<le> length (cm_fixtures m) \<and> length (cm_fixtures m) \<le> 100
      \<and> list_all valid_campaign_attempt (cm_attempts m)
      \<and> 1 \<le> length (cm_attempts m) \<and> length (cm_attempts m) \<le> 10000)"

text \<open>\<open>tuple(sorted(set(xs)))\<close>.\<close>

definition sorted_unique :: "string list \<Rightarrow> string list" where
  "sorted_unique xs = sort (remdups xs)"

definition expected_bindings :: "string list \<Rightarrow> int \<Rightarrow> (string \<times> int) list" where
  "expected_bindings ids rounds = concat (map (\<lambda>r. map (\<lambda>i. (i, int r)) ids) [0..<nat rounds])"

definition observed_bindings :: "campaign_attempt list \<Rightarrow> (string \<times> int) list" where
  "observed_bindings as = map (\<lambda>a. (ca_fixture_id a, ca_round_index a)) as"

definition schedule_is_complete_unique_and_canonical :: "campaign_manifest \<Rightarrow> bool" where
  "schedule_is_complete_unique_and_canonical m =
     (let fixture_ids = map cf_fixture_id (cm_fixtures m);
          fixture_paths = map cf_fixture_path (cm_fixtures m);
          attempt_ids = map ca_attempt_id (cm_attempts m) in
      if fixture_ids \<noteq> sorted_unique fixture_ids then False
      else if length fixture_paths \<noteq> card (set fixture_paths) then False
      else if length attempt_ids \<noteq> card (set attempt_ids) then False
      else if observed_bindings (cm_attempts m) \<noteq> expected_bindings fixture_ids (cm_rounds m) then False
      else if cm_evidence_tier m = REFERENCE \<and> ce_kind (cm_evaluator m) \<noteq> CONTAINER then False
      else if max_model_retries (cm_budget_limits m) \<noteq> Some 0 then False
      else True)"

definition valid_campaign :: "campaign_manifest \<Rightarrow> bool" where
  "valid_campaign m = (valid_campaign_fields m \<and> schedule_is_complete_unique_and_canonical m)"

definition campaign_manifest_json :: "campaign_manifest \<Rightarrow> json" where
  "campaign_manifest_json m =
     JObj [(''attempts'', JArr (map campaign_attempt_json (cm_attempts m))),
       (''budget_limits'', limits_json (cm_budget_limits m)),
       (''campaign_id'', JStr (cm_campaign_id m)),
       (''candidate_id'', JStr (cm_candidate_id m)),
       (''code_source_sha256'', JStr (cm_code_source_sha256 m)),
       (''evaluator'', campaign_evaluator_json (cm_evaluator m)),
       (''evidence_tier'', JStr (tier_value (cm_evidence_tier m))),
       (''experiment_id'', JStr (cm_experiment_id m)),
       (''fixtures'', JArr (map campaign_fixture_json (cm_fixtures m))),
       (''maximum_infrastructure_error_rate'', JFloat (cm_maximum_infrastructure_error_rate m)),
       (''model'', campaign_model_json (cm_model m)),
       (''report_schema_version'', JStr ''guildmind.reliability-campaign-report/v1''),
       (''retry_limit'', JInt 0),
       (''rounds'', JInt (cm_rounds m)),
       (''schema_version'', JStr ''guildmind.reliability-campaign/v1'')]"

definition campaign_content_sha256 :: "(json \<Rightarrow> string) \<Rightarrow> campaign_manifest \<Rightarrow> string" where
  "campaign_content_sha256 H m = H (campaign_manifest_json m)"

section \<open>Attempt evidence\<close>

record terminal_evidence =
  te_run_id :: string
  te_task_id :: string
  te_task_content_sha256 :: string
  te_evaluator_version :: string
  te_environment_digest :: string
  te_requested_model :: string
  te_returned_model :: "string option"
  te_code_revision :: string
  te_budget_used :: budget_usage
  te_budget_reserved :: budget_usage
  te_run_status :: run_status
  te_evaluation_outcome :: "string option"
  te_manifest_revision :: int
  te_manifest_sha256 :: string
  te_event_count :: int
  te_head_event_sha256 :: string
  te_semantic_digest :: string
  te_ledger_snapshot_sha256 :: string
  te_storage_state :: string
  te_references_verified :: bool
  te_storage_clean :: bool

definition run_is_terminal :: "terminal_evidence \<Rightarrow> bool" where
  "run_is_terminal t =
     (is_terminal (te_run_status t)
      \<and> te_manifest_revision t < te_event_count t
      \<and> te_budget_reserved t = empty_usage
      \<and> (te_run_status t = SUCCEEDED \<longrightarrow> te_returned_model t \<noteq> None))"

definition valid_terminal_evidence :: "terminal_evidence \<Rightarrow> bool" where
  "valid_terminal_evidence t =
     (is_campaign_id (te_run_id t) \<and> valid_nonempty_str (te_task_id t)
      \<and> is_lower_sha256 (te_task_content_sha256 t) \<and> valid_nonempty_str (te_evaluator_version t)
      \<and> is_sha256_digest (te_environment_digest t) \<and> valid_nonempty_str (te_requested_model t)
      \<and> valid_opt valid_nonempty_str (te_returned_model t) \<and> valid_nonempty_str (te_code_revision t)
      \<and> valid_usage (te_budget_used t) \<and> valid_usage (te_budget_reserved t)
      \<and> valid_opt valid_nonempty_str (te_evaluation_outcome t) \<and> 0 \<le> te_manifest_revision t
      \<and> is_lower_sha256 (te_manifest_sha256 t) \<and> 0 < te_event_count t
      \<and> is_lower_sha256 (te_head_event_sha256 t) \<and> is_lower_sha256 (te_semantic_digest t)
      \<and> is_lower_sha256 (te_ledger_snapshot_sha256 t) \<and> valid_nonempty_str (te_storage_state t)
      \<and> run_is_terminal t)"

text \<open>Constructing the class strips its \<open>NonEmptyStr\<close> fields and then validates.\<close>

definition make_terminal_evidence :: "terminal_evidence \<Rightarrow> terminal_evidence result" where
  "make_terminal_evidence t =
     (let s = t\<lparr>te_task_id := strip_whitespace (te_task_id t),
                te_evaluator_version := strip_whitespace (te_evaluator_version t),
                te_requested_model := strip_whitespace (te_requested_model t),
                te_returned_model := map_option strip_whitespace (te_returned_model t),
                te_code_revision := strip_whitespace (te_code_revision t),
                te_evaluation_outcome := map_option strip_whitespace (te_evaluation_outcome t),
                te_storage_state := strip_whitespace (te_storage_state t)\<rparr>
      in if valid_terminal_evidence s then Inr s else Inl ValidationError)"

definition terminal_evidence_json :: "terminal_evidence \<Rightarrow> json" where
  "terminal_evidence_json t =
     JObj [(''budget_reserved'', usage_json (te_budget_reserved t)),
       (''budget_used'', usage_json (te_budget_used t)),
       (''code_revision'', JStr (te_code_revision t)),
       (''environment_digest'', JStr (te_environment_digest t)),
       (''evaluation_outcome'', opt_json JStr (te_evaluation_outcome t)),
       (''evaluator_version'', JStr (te_evaluator_version t)),
       (''event_count'', JInt (te_event_count t)),
       (''head_event_sha256'', JStr (te_head_event_sha256 t)),
       (''ledger_snapshot_sha256'', JStr (te_ledger_snapshot_sha256 t)),
       (''manifest_revision'', JInt (te_manifest_revision t)),
       (''manifest_sha256'', JStr (te_manifest_sha256 t)),
       (''references_verified'', JBool (te_references_verified t)),
       (''requested_model'', JStr (te_requested_model t)),
       (''returned_model'', opt_json JStr (te_returned_model t)),
       (''run_id'', JStr (te_run_id t)),
       (''run_status'', JStr (status_value (te_run_status t))),
       (''semantic_digest'', JStr (te_semantic_digest t)),
       (''storage_clean'', JBool (te_storage_clean t)),
       (''storage_state'', JStr (te_storage_state t)),
       (''task_content_sha256'', JStr (te_task_content_sha256 t)),
       (''task_id'', JStr (te_task_id t))]"

record attempt_evidence =
  ae_attempt :: campaign_attempt
  ae_disposition :: attempt_disposition
  ae_observed_run_ids :: "string list"
  ae_terminal :: "terminal_evidence option"
  ae_recovery_attempted :: bool
  ae_recovery_succeeded :: bool
  ae_execution_error_type :: "string option"
  ae_diagnostic :: "string option"

definition shape_matches_disposition :: "attempt_evidence \<Rightarrow> bool" where
  "shape_matches_disposition e =
     (if ae_observed_run_ids e \<noteq> sorted_unique (ae_observed_run_ids e) then False
      else if ae_recovery_succeeded e \<and> \<not> ae_recovery_attempted e then False
      else if (case ae_terminal e of None \<Rightarrow> False
               | Some t \<Rightarrow> te_run_id t \<noteq> ca_attempt_id (ae_attempt e)) then False
      else if ae_disposition e \<in> {EXPECTED, UNEXPECTED_RESULT, POST_COMMIT_MAINTENANCE_ERROR}
              \<and> ae_terminal e = None then False
      else if ae_disposition e \<in> {EXPECTED, UNEXPECTED_RESULT}
              \<and> ae_execution_error_type e \<noteq> None then False
      else if ae_disposition e = EVIDENCE_MISSING
              \<and> (ae_observed_run_ids e \<noteq> [] \<or> ae_terminal e \<noteq> None) then False
      else if ae_disposition e = EVIDENCE_NONTERMINAL
              \<and> (ae_observed_run_ids e \<noteq> [ca_attempt_id (ae_attempt e)] \<or> ae_terminal e \<noteq> None) then False
      else True)"

definition valid_attempt_evidence :: "attempt_evidence \<Rightarrow> bool" where
  "valid_attempt_evidence e =
     (valid_campaign_attempt (ae_attempt e) \<and> list_all valid_nonempty_str (ae_observed_run_ids e)
      \<and> valid_opt valid_terminal_evidence (ae_terminal e)
      \<and> valid_opt valid_nonempty_str (ae_execution_error_type e)
      \<and> valid_opt valid_nonempty_str (ae_diagnostic e)
      \<and> shape_matches_disposition e)"

definition make_attempt_evidence :: "attempt_evidence \<Rightarrow> attempt_evidence result" where
  "make_attempt_evidence e =
     (let s = e\<lparr>ae_observed_run_ids := map strip_whitespace (ae_observed_run_ids e),
                ae_execution_error_type := map_option strip_whitespace (ae_execution_error_type e),
                ae_diagnostic := map_option strip_whitespace (ae_diagnostic e)\<rparr>
      in if valid_attempt_evidence s then Inr s else Inl ValidationError)"

definition attempt_evidence_json :: "attempt_evidence \<Rightarrow> json" where
  "attempt_evidence_json e =
     JObj [(''attempt'', campaign_attempt_json (ae_attempt e)),
       (''diagnostic'', opt_json JStr (ae_diagnostic e)),
       (''disposition'', JStr (disposition_value (ae_disposition e))),
       (''execution_error_type'', opt_json JStr (ae_execution_error_type e)),
       (''observed_run_ids'', JArr (map JStr (ae_observed_run_ids e))),
       (''recovery_attempted'', JBool (ae_recovery_attempted e)),
       (''recovery_succeeded'', JBool (ae_recovery_succeeded e)),
       (''schema_version'', JStr ''guildmind.reliability-campaign-attempt/v1''),
       (''terminal'', opt_json terminal_evidence_json (ae_terminal e))]"

definition evidence_is_infrastructure_error :: "attempt_evidence \<Rightarrow> bool" where
  "evidence_is_infrastructure_error e = is_infrastructure_error (ae_disposition e)"

definition is_reconciled_terminal :: "attempt_evidence \<Rightarrow> bool" where
  "is_reconciled_terminal e =
     (case ae_terminal e of
        None \<Rightarrow> False
      | Some t \<Rightarrow> ae_observed_run_ids e = [ca_attempt_id (ae_attempt e)]
          \<and> te_references_verified t \<and> te_storage_clean t)"

section \<open>The report\<close>

text \<open>The ten aggregate claims of a report body.\<close>

record report_claims =
  rc_intended_attempt_count :: int
  rc_terminal_attempt_count :: int
  rc_reconciled_attempt_count :: int
  rc_expected_attempt_count :: int
  rc_infrastructure_error_count :: int
  rc_infrastructure_error_rate :: rat
  rc_complete :: bool
  rc_all_expected :: bool
  rc_threshold_met :: bool
  rc_campaign_passed :: bool

record report_body =
  rb_manifest :: campaign_manifest
  rb_source_manifest_sha256 :: string
  rb_campaign_manifest_sha256 :: string
  rb_git_revision :: string
  rb_recorded_at :: datetime
  rb_state_manifest_verified :: bool
  rb_code_identity_verified :: bool
  rb_attempts :: "attempt_evidence list"
  rb_claims :: report_claims

text \<open>\<open>sum(p(x) for x in xs)\<close> over booleans.\<close>

definition count_true :: "('a \<Rightarrow> bool) \<Rightarrow> 'a list \<Rightarrow> int" where
  "count_true p xs = int (length (filter p xs))"

definition derive_claims ::
    "campaign_manifest \<Rightarrow> bool \<Rightarrow> bool \<Rightarrow> attempt_evidence list \<Rightarrow> int \<Rightarrow> report_claims result" where
  "derive_claims m state_ok code_ok es intended =
     (let terminal = count_true (\<lambda>e. ae_terminal e \<noteq> None) es;
          reconciled = count_true is_reconciled_terminal es;
          expected = count_true (\<lambda>e. ae_disposition e = EXPECTED) es;
          errors = count_true evidence_is_infrastructure_error es;
          complete = (reconciled = intended);
          all_expected = (expected = intended) in
      if intended = 0 then Inl ValueError
      else rbind (of_option OverflowError (fdiv (of_int errors) (of_int intended))) (\<lambda>rate.
      let threshold_met = (rate \<le> cm_maximum_infrastructure_error_rate m) in
      Inr \<lparr>rc_intended_attempt_count = intended, rc_terminal_attempt_count = terminal,
           rc_reconciled_attempt_count = reconciled, rc_expected_attempt_count = expected,
           rc_infrastructure_error_count = errors, rc_infrastructure_error_rate = rate,
           rc_complete = complete, rc_all_expected = all_expected,
           rc_threshold_met = threshold_met,
           rc_campaign_passed = (state_ok \<and> code_ok \<and> complete \<and> all_expected \<and> threshold_met)\<rparr>))"

definition aggregate_claims_are_exactly_derived :: "(json \<Rightarrow> string) \<Rightarrow> report_body \<Rightarrow> bool" where
  "aggregate_claims_are_exactly_derived H b =
     (let declared_attempts = cm_attempts (rb_manifest b) in
      if rb_campaign_manifest_sha256 b \<noteq> campaign_content_sha256 H (rb_manifest b) then False
      else if map ae_attempt (rb_attempts b) \<noteq> declared_attempts then False
      else derive_claims (rb_manifest b) (rb_state_manifest_verified b) (rb_code_identity_verified b)
             (rb_attempts b) (int (length declared_attempts)) = Inr (rb_claims b))"

definition valid_report_claims :: "report_claims \<Rightarrow> bool" where
  "valid_report_claims c =
     (0 < rc_intended_attempt_count c \<and> 0 \<le> rc_terminal_attempt_count c
      \<and> 0 \<le> rc_reconciled_attempt_count c \<and> 0 \<le> rc_expected_attempt_count c
      \<and> 0 \<le> rc_infrastructure_error_count c \<and> is_campaign_rate (rc_infrastructure_error_rate c))"

definition valid_report_body :: "(json \<Rightarrow> string) \<Rightarrow> report_body \<Rightarrow> bool" where
  "valid_report_body H b =
     (valid_campaign (rb_manifest b) \<and> is_lower_sha256 (rb_source_manifest_sha256 b)
      \<and> is_lower_sha256 (rb_campaign_manifest_sha256 b) \<and> valid_nonempty_str (rb_git_revision b)
      \<and> valid_datetime (rb_recorded_at b) \<and> list_all valid_attempt_evidence (rb_attempts b)
      \<and> valid_report_claims (rb_claims b)
      \<and> aggregate_claims_are_exactly_derived H b)"

definition report_body_json :: "report_body \<Rightarrow> json" where
  "report_body_json b =
     JObj [(''all_expected'', JBool (rc_all_expected (rb_claims b))),
       (''attempts'', JArr (map attempt_evidence_json (rb_attempts b))),
       (''campaign_manifest_sha256'', JStr (rb_campaign_manifest_sha256 b)),
       (''campaign_passed'', JBool (rc_campaign_passed (rb_claims b))),
       (''code_identity_verified'', JBool (rb_code_identity_verified b)),
       (''complete'', JBool (rc_complete (rb_claims b))),
       (''expected_attempt_count'', JInt (rc_expected_attempt_count (rb_claims b))),
       (''git_revision'', JStr (rb_git_revision b)),
       (''infrastructure_error_count'', JInt (rc_infrastructure_error_count (rb_claims b))),
       (''infrastructure_error_rate'', JFloat (rc_infrastructure_error_rate (rb_claims b))),
       (''intended_attempt_count'', JInt (rc_intended_attempt_count (rb_claims b))),
       (''manifest'', campaign_manifest_json (rb_manifest b)),
       (''reconciled_attempt_count'', JInt (rc_reconciled_attempt_count (rb_claims b))),
       (''recorded_at'', datetime_json (rb_recorded_at b)),
       (''schema_version'', JStr ''guildmind.reliability-campaign-report-body/v1''),
       (''source_manifest_sha256'', JStr (rb_source_manifest_sha256 b)),
       (''state_manifest_verified'', JBool (rb_state_manifest_verified b)),
       (''terminal_attempt_count'', JInt (rc_terminal_attempt_count (rb_claims b))),
       (''threshold_met'', JBool (rc_threshold_met (rb_claims b)))]"

record campaign_report =
  cr_body :: report_body
  cr_body_sha256 :: string

definition body_hash_matches :: "(json \<Rightarrow> string) \<Rightarrow> campaign_report \<Rightarrow> bool" where
  "body_hash_matches H r = (cr_body_sha256 r = H (report_body_json (cr_body r)))"

definition valid_campaign_report :: "(json \<Rightarrow> string) \<Rightarrow> campaign_report \<Rightarrow> bool" where
  "valid_campaign_report H r =
     (valid_report_body H (cr_body r) \<and> is_lower_sha256 (cr_body_sha256 r) \<and> body_hash_matches H r)"

definition campaign_report_json :: "campaign_report \<Rightarrow> json" where
  "campaign_report_json r =
     JObj [(''body'', report_body_json (cr_body r)), (''body_sha256'', JStr (cr_body_sha256 r)),
       (''schema_version'', JStr ''guildmind.reliability-campaign-report/v1'')]"

definition canonical_bytes :: "campaign_report \<Rightarrow> nat list" where
  "canonical_bytes r = utf8_encode (dumps (campaign_report_json r))"

definition report_content_sha256 :: "(nat list \<Rightarrow> string) \<Rightarrow> campaign_report \<Rightarrow> string" where
  "report_content_sha256 sha r = sha256_bytes sha (canonical_bytes r)"

end
