(* ===== verification/Campaign_Properties.thy ===== *)
theory Campaign_Properties
  imports Campaign
begin

text \<open>
  Properties of the campaign records: what a plain fixture path is on its components, what the
  schedule validator makes of a manifest, that the aggregate claims of a report are a function of
  its evidence, what a passing report guarantees, and that the hash of a report commits to
  everything in it.
\<close>

section \<open>Paths and identifiers\<close>

text \<open>The validator accepts a fixture path exactly when it has no backslash and no NUL and no
  component between slashes is empty, a dot or two dots: such a path is relative, normalized and
  cannot name anything outside the directory it is joined to.\<close>

theorem fixture_path_components:
  "fixture_path_is_plain_relative_posix v \<longleftrightarrow>
     CHR 0x5C \<notin> set v \<and> CHR 0x00 \<notin> set v
     \<and> (\<forall>p. p \<in> set (split_on (CHR ''/'') v) \<longrightarrow> p \<noteq> '''' \<and> p \<noteq> ''.'' \<and> p \<noteq> ''..'')"
proof -
  have "list_ex (\<lambda>p. p \<in> {'''', ''.'', ''..''}) ps \<longleftrightarrow> \<not> list_all plain_component ps" for ps
    by (auto simp: list_ex_iff list_all_iff plain_component_def)
  then have "fixture_path_is_plain_relative_posix v \<longleftrightarrow>
      CHR 0x5C \<notin> set v \<and> CHR 0x00 \<notin> set v \<and> list_all plain_component (split_on slash v)"
    unfolding fixture_path_is_plain_relative_posix_def by (auto simp flip: plain_path_components)
  then show ?thesis by (auto simp: list_all_iff plain_component_def slash_def)
qed

theorem fixture_path_components_witness:
  "fixture_path_is_plain_relative_posix ''fixtures/arithmetic-average''
   \<and> \<not> fixture_path_is_plain_relative_posix ''fixtures/../secrets''
   \<and> \<not> fixture_path_is_plain_relative_posix ''/fixtures''
   \<and> \<not> fixture_path_is_plain_relative_posix ''fixtures//a/''"
  unfolding fixture_path_components by simp

section \<open>The schedule\<close>

lemma sorted_unique_fixed: "xs = sorted_unique xs \<longleftrightarrow> sorted xs \<and> distinct xs"
proof
  assume *: "xs = sorted_unique xs"
  have "sorted (sorted_unique xs)" "distinct (sorted_unique xs)" by (simp_all add: sorted_unique_def)
  with * show "sorted xs \<and> distinct xs" by metis
qed (simp add: sorted_unique_def distinct_remdups_id sorted_sort_id)

lemma row_major_index: "j < n \<Longrightarrow> (m * n + j) div n = m \<and> (m * n + j) mod n = (j :: nat)"
  by (subst (1 2) add.commute) simp

lemma length_expected_bindings: "length (expected_bindings ids n) = nat n * length ids"
proof -
  have "length (concat (map (\<lambda>r. map (\<lambda>i. (i, int r)) ids) [0..<k])) = k * length ids" for k
    by (induction k) simp_all
  then show ?thesis by (simp add: expected_bindings_def)
qed

lemma nth_expected_bindings:
  assumes "k < nat n * length ids"
  shows "expected_bindings ids n ! k = (ids ! (k mod length ids), int (k div length ids))"
proof -
  have "k < m * length ids \<Longrightarrow> concat (map (\<lambda>r. map (\<lambda>i. (i, int r)) ids) [0..<m]) ! k
      = (ids ! (k mod length ids), int (k div length ids))" for m
  proof (induction m)
    case (Suc m)
    let ?xs = "concat (map (\<lambda>r. map (\<lambda>i. (i, int r)) ids) [0..<m])"
    have len: "length ?xs = m * length ids" by (induction m) simp_all
    show ?case
    proof (cases "k < m * length ids")
      case True
      then show ?thesis using Suc.IH by (simp add: nth_append len)
    next
      case False
      define j where "j = k - m * length ids"
      have j: "k = m * length ids + j" "j < length ids" using False Suc.prems by (auto simp: j_def)
      then show ?thesis using row_major_index [of j "length ids" m] by (simp add: nth_append len)
    qed
  qed simp
  then show ?thesis using assms by (simp add: expected_bindings_def)
qed

lemma valid_campaign_schedule:
  assumes "valid_campaign m"
  shows "sorted (map cf_fixture_id (cm_fixtures m))" "distinct (map cf_fixture_id (cm_fixtures m))"
    and "distinct (map cf_fixture_path (cm_fixtures m))" "distinct (map ca_attempt_id (cm_attempts m))"
    and "observed_bindings (cm_attempts m)
      = expected_bindings (map cf_fixture_id (cm_fixtures m)) (cm_rounds m)"
    and "max_model_retries (cm_budget_limits m) = Some 0"
proof -
  let ?ids = "map cf_fixture_id (cm_fixtures m)" and ?paths = "map cf_fixture_path (cm_fixtures m)"
    and ?names = "map ca_attempt_id (cm_attempts m)"
  have *: "schedule_is_complete_unique_and_canonical m" using assms by (simp only: valid_campaign_def)
  then have h: "?ids = sorted_unique ?ids" "length ?paths = card (set ?paths)" "length ?names = card (set ?names)"
    unfolding schedule_is_complete_unique_and_canonical_def Let_def by metis+
  from * show "observed_bindings (cm_attempts m) = expected_bindings ?ids (cm_rounds m)"
    "max_model_retries (cm_budget_limits m) = Some 0"
    unfolding schedule_is_complete_unique_and_canonical_def Let_def by metis+
  from h(1) show "sorted ?ids" "distinct ?ids" unfolding sorted_unique_fixed by simp_all
  from h(2,3) show "distinct ?paths" "distinct ?names" by (metis card_distinct)+
qed

text \<open>An accepted campaign is the full factorial design in round-major order. Entry \<open>k\<close> of the
  schedule runs fixture \<open>k mod n\<close> in round \<open>k div n\<close>, for the \<open>n\<close> distinct fixtures in order; so every
  fixture is run in every round exactly once, by an attempt with an identifier of its own.\<close>

theorem schedule_is_full_factorial:
  assumes "valid_campaign m"
  shows "length (cm_attempts m) = nat (cm_rounds m) * length (cm_fixtures m)
    \<and> (\<forall>k. k < length (cm_attempts m) \<longrightarrow>
        ca_fixture_id (cm_attempts m ! k) = cf_fixture_id (cm_fixtures m ! (k mod length (cm_fixtures m)))
        \<and> ca_round_index (cm_attempts m ! k) = int (k div length (cm_fixtures m)))
    \<and> (\<forall>f \<in> set (cm_fixtures m). \<forall>r. 0 \<le> r \<and> r < cm_rounds m \<longrightarrow>
        (\<exists>!k. k < length (cm_attempts m) \<and> ca_fixture_id (cm_attempts m ! k) = cf_fixture_id f
          \<and> ca_round_index (cm_attempts m ! k) = r))
    \<and> distinct (map ca_attempt_id (cm_attempts m))"
proof -
  let ?A = "cm_attempts m" and ?F = "cm_fixtures m" and ?n = "length (cm_fixtures m)"
  note s = valid_campaign_schedule [OF assms]
  have len: "length ?A = nat (cm_rounds m) * ?n"
    using arg_cong [OF s(5), of length] by (simp add: observed_bindings_def length_expected_bindings)
  have nth: "ca_fixture_id (?A ! k) = cf_fixture_id (?F ! (k mod ?n)) \<and> ca_round_index (?A ! k) = int (k div ?n)"
    if k: "k < length ?A" for k
  proof -
    have "0 < ?n" using k len by (cases ?n) auto
    then have "k mod ?n < ?n" by simp
    moreover have "observed_bindings ?A ! k = (ca_fixture_id (?A ! k), ca_round_index (?A ! k))"
      using k by (simp add: observed_bindings_def)
    ultimately show ?thesis
      using nth_expected_bindings [of k "cm_rounds m" "map cf_fixture_id ?F"] k len s(5) by simp
  qed
  have once: "\<exists>!k. k < length ?A \<and> ca_fixture_id (?A ! k) = cf_fixture_id f \<and> ca_round_index (?A ! k) = r"
    if f: "f \<in> set ?F" and r: "0 \<le> r" "r < cm_rounds m" for f r
  proof -
    obtain i where i: "i < ?n" "?F ! i = f" using f by (auto simp: in_set_conv_nth)
    let ?k = "nat r * ?n + i"
    have "Suc (nat r) \<le> nat (cm_rounds m)" using r by simp
    then have "Suc (nat r) * ?n \<le> nat (cm_rounds m) * ?n" by (rule mult_le_mono1)
    with i(1) have k: "?k < length ?A" by (simp add: len)
    show ?thesis
    proof (rule ex1I [of _ ?k])
      show "?k < length ?A \<and> ca_fixture_id (?A ! ?k) = cf_fixture_id f \<and> ca_round_index (?A ! ?k) = r"
        using k nth [OF k] i r row_major_index [of i ?n "nat r"] by simp
    next
      fix k assume a: "k < length ?A \<and> ca_fixture_id (?A ! k) = cf_fixture_id f \<and> ca_round_index (?A ! k) = r"
      then have "int (k div ?n) = r" "cf_fixture_id (?F ! (k mod ?n)) = cf_fixture_id (?F ! i)"
        using nth [of k] i by auto
      moreover have "k mod ?n < ?n" using i(1) by (auto intro: mod_less_divisor)
      ultimately have "k div ?n = nat r" "k mod ?n = i"
        using s(2) i(1) by (auto simp: distinct_map inj_on_def in_set_conv_nth distinct_conv_nth)
      then show "k = ?k" by (metis div_mult_mod_eq)
    qed
  qed
  show ?thesis using len nth once s(4) by blast
qed

section \<open>Aggregate claims\<close>

lemma fl_one: "fl 1 = 1"
  by code_simp

lemma float_limit_gt_one: "1 < float_limit"
  unfolding float_limit_def by (rule one_less_power) simp_all

text \<open>The rate of a count in a larger total is a float between 0 and 1.\<close>

lemma rate_of_count:
  assumes "0 \<le> k" and "k \<le> n" and "0 < n"
  obtains r where "fdiv (of_int k) (of_int n) = Some r" and "is_campaign_rate r"
proof -
  let ?q = "of_int k / of_int n :: rat"
  have q: "0 \<le> ?q" "?q \<le> 1" using assms by (simp_all add: divide_le_eq)
  have f: "0 \<le> fl ?q" "fl ?q \<le> 1"
    using fl_nonneg [OF q(1)] fl_mono_nonneg [OF q] by (simp_all add: fl_one)
  then have "to_float ?q = Some (fl ?q)"
    using float_limit_gt_one by (simp add: to_float_def Let_def)
  then show thesis
    using that [of "fl ?q"] to_float_is_float f by (simp add: fdiv_def is_campaign_rate_def)
qed

lemma rate_of_zero: "fdiv (of_int 0) (of_int n) = Some r \<Longrightarrow> r = 0"
  by (simp add: fdiv_def to_float_def)

lemma count_true_bounds: "0 \<le> count_true p xs" "count_true p xs \<le> int (length xs)"
  by (simp_all add: count_true_def)

lemma count_true_all: "count_true p xs = int (length xs) \<longleftrightarrow> list_all p xs"
proof
  assume "count_true p xs = int (length xs)"
  then have "length (filter p xs) = length xs" by (simp add: count_true_def)
  then show "list_all p xs" by (metis filter_id_conv list_all_iff length_filter_less less_irrefl)
next
  assume "list_all p xs"
  then have "filter p xs = xs" unfolding list_all_iff by (simp add: filter_id_conv)
  then show "count_true p xs = int (length xs)" by (simp add: count_true_def)
qed

lemma count_true_none: "count_true p xs = 0 \<longleftrightarrow> list_all (\<lambda>x. \<not> p x) xs"
  by (simp add: count_true_def filter_empty_conv list_all_iff)

lemma derive_claims_Inr:
  "derive_claims m so co es n = Inr c \<longleftrightarrow>
     n \<noteq> 0
     \<and> fdiv (of_int (count_true evidence_is_infrastructure_error es)) (of_int n)
         = Some (rc_infrastructure_error_rate c)
     \<and> rc_intended_attempt_count c = n
     \<and> rc_terminal_attempt_count c = count_true (\<lambda>e. ae_terminal e \<noteq> None) es
     \<and> rc_reconciled_attempt_count c = count_true is_reconciled_terminal es
     \<and> rc_expected_attempt_count c = count_true (\<lambda>e. ae_disposition e = EXPECTED) es
     \<and> rc_infrastructure_error_count c = count_true evidence_is_infrastructure_error es
     \<and> rc_complete c = (rc_reconciled_attempt_count c = n)
     \<and> rc_all_expected c = (rc_expected_attempt_count c = n)
     \<and> rc_threshold_met c = (rc_infrastructure_error_rate c \<le> cm_maximum_infrastructure_error_rate m)
     \<and> rc_campaign_passed c =
         (so \<and> co \<and> rc_complete c \<and> rc_all_expected c \<and> rc_threshold_met c)"
  by (cases c) (auto simp: derive_claims_def Let_def result_simps)

lemma derive_claims_total:
  assumes "es \<noteq> []"
  obtains c where "derive_claims m so co es (int (length es)) = Inr c" and "valid_report_claims c"
proof -
  have n: "0 < int (length es)" using assms by simp
  obtain r where r: "fdiv (of_int (count_true evidence_is_infrastructure_error es)) (of_int (int (length es))) = Some r"
    "is_campaign_rate r"
    using rate_of_count [OF count_true_bounds n] .
  then obtain c where c: "derive_claims m so co es (int (length es)) = Inr c"
    "rc_infrastructure_error_rate c = r"
    using n by (simp add: derive_claims_def Let_def)
  then have "valid_report_claims c"
    using r n count_true_bounds unfolding derive_claims_Inr valid_report_claims_def by auto
  with c(1) that show thesis by blast
qed

section \<open>Passing reports\<close>

lemma valid_body_claims:
  assumes "valid_report_body H b"
  shows "map ae_attempt (rb_attempts b) = cm_attempts (rb_manifest b)"
    and "length (rb_attempts b) = length (cm_attempts (rb_manifest b))"
    and "derive_claims (rb_manifest b) (rb_state_manifest_verified b) (rb_code_identity_verified b)
      (rb_attempts b) (int (length (rb_attempts b))) = Inr (rb_claims b)"
proof -
  have *: "aggregate_claims_are_exactly_derived H b" using assms by (simp only: valid_report_body_def)
  then show m: "map ae_attempt (rb_attempts b) = cm_attempts (rb_manifest b)"
    unfolding aggregate_claims_are_exactly_derived_def Let_def by metis
  then show l: "length (rb_attempts b) = length (cm_attempts (rb_manifest b))" by (metis length_map)
  from * show "derive_claims (rb_manifest b) (rb_state_manifest_verified b) (rb_code_identity_verified b)
      (rb_attempts b) (int (length (rb_attempts b))) = Inr (rb_claims b)"
    unfolding l aggregate_claims_are_exactly_derived_def Let_def by metis
qed

text \<open>The float that \<open>count / total\<close> gives is the rounded quotient.\<close>

lemma rate_is_rounded: "fdiv (of_int a) (of_int b) = Some r \<Longrightarrow> r = fl (of_int a / of_int b)"
  by (simp add: fdiv_def to_float_def Let_def split: if_splits)

lemma count_true_card: "count_true p xs = int (card {k. k < length xs \<and> p (xs ! k)})"
  by (simp add: count_true_def length_filter_conv_card)

text \<open>A body that is valid stays valid when its evidence is exchanged for other valid evidence on the same
  attempts, if and only if its claims become the ones derived from the new evidence.\<close>

lemma valid_body_exchange:
  assumes "valid_report_body H b" and "map ae_attempt es = map ae_attempt (rb_attempts b)"
    and "list_all valid_attempt_evidence es"
  shows "valid_report_body H (b\<lparr>rb_attempts := es, rb_claims := c\<rparr>) \<longleftrightarrow>
    valid_report_claims c
    \<and> derive_claims (rb_manifest b) (rb_state_manifest_verified b) (rb_code_identity_verified b) es
        (int (length es)) = Inr c"
proof -
  note v = valid_body_claims [OF assms(1)]
  have "length es = length (cm_attempts (rb_manifest b))"
    using arg_cong [OF assms(2), of length] v(2) by simp
  moreover have "valid_campaign (rb_manifest b)" "is_lower_sha256 (rb_source_manifest_sha256 b)"
    "is_lower_sha256 (rb_campaign_manifest_sha256 b)" "valid_nonempty_str (rb_git_revision b)"
    "valid_datetime (rb_recorded_at b)" "rb_campaign_manifest_sha256 b = campaign_content_sha256 H (rb_manifest b)"
    using assms(1) by (simp_all add: valid_report_body_def aggregate_claims_are_exactly_derived_def Let_def split: if_splits)
  ultimately show ?thesis
    using assms(2,3) v(1)
    unfolding valid_report_body_def aggregate_claims_are_exactly_derived_def Let_def by simp
qed

text \<open>C24: nothing in the aggregate part of a report can be chosen. Take a valid report body and any other
  valid evidence for the same attempts: exactly one set of claims makes the body valid with it, and
  it is this one. The counts are the numbers of attempts with a terminal run, with a terminal
  run that is alone in its store with verified references and clean storage, with the expected
  disposition, and with a disposition other than expected and unexpected result; the rate is the
  rounded quotient, a float between 0 and 1; complete and all expected say so of every attempt;
  and the campaign passed if both verifications hold, every attempt is as expected and
  reconciled, and the rate is within the tolerance of the manifest.\<close>

theorem report_claims_determined:
  assumes "valid_report_body H b" and "map ae_attempt es = map ae_attempt (rb_attempts b)"
    and "list_all valid_attempt_evidence es"
  shows "\<exists>c. (\<forall>c'. valid_report_body H (b\<lparr>rb_attempts := es, rb_claims := c'\<rparr>) \<longleftrightarrow> c' = c)
    \<and> rc_intended_attempt_count c = int (length es)
    \<and> rc_terminal_attempt_count c = int (card {k. k < length es \<and> ae_terminal (es ! k) \<noteq> None})
    \<and> rc_reconciled_attempt_count c = int (card {k. k < length es \<and> (\<exists>t. ae_terminal (es ! k) = Some t
        \<and> ae_observed_run_ids (es ! k) = [ca_attempt_id (ae_attempt (es ! k))]
        \<and> te_references_verified t \<and> te_storage_clean t)})
    \<and> rc_expected_attempt_count c = int (card {k. k < length es \<and> ae_disposition (es ! k) = EXPECTED})
    \<and> rc_infrastructure_error_count c
        = int (card {k. k < length es \<and> ae_disposition (es ! k) \<notin> {EXPECTED, UNEXPECTED_RESULT}})
    \<and> rc_infrastructure_error_rate c = fl (of_int (rc_infrastructure_error_count c) / of_int (int (length es)))
    \<and> 0 \<le> rc_infrastructure_error_rate c \<and> rc_infrastructure_error_rate c \<le> 1
    \<and> (rc_complete c \<longleftrightarrow> list_all (\<lambda>e. \<exists>t. ae_terminal e = Some t
        \<and> ae_observed_run_ids e = [ca_attempt_id (ae_attempt e)] \<and> te_references_verified t \<and> te_storage_clean t) es)
    \<and> (rc_all_expected c \<longleftrightarrow> list_all (\<lambda>e. ae_disposition e = EXPECTED) es)
    \<and> (rc_threshold_met c \<longleftrightarrow> rc_infrastructure_error_rate c \<le> cm_maximum_infrastructure_error_rate (rb_manifest b))
    \<and> (rc_campaign_passed c \<longleftrightarrow> rb_state_manifest_verified b \<and> rb_code_identity_verified b
        \<and> rc_complete c \<and> rc_all_expected c \<and> rc_threshold_met c)"
proof -
  have "valid_campaign (rb_manifest b)" using assms(1) by (simp only: valid_report_body_def)
  moreover have "length es = length (cm_attempts (rb_manifest b))"
    using arg_cong [OF assms(2), of length] valid_body_claims(2) [OF assms(1)] by simp
  ultimately have "es \<noteq> []" by (auto simp: valid_campaign_def valid_campaign_fields_def)
  then obtain c where c: "derive_claims (rb_manifest b) (rb_state_manifest_verified b)
      (rb_code_identity_verified b) es (int (length es)) = Inr c" and v: "valid_report_claims c"
    by (rule derive_claims_total)
  have r: "is_reconciled_terminal = (\<lambda>e. \<exists>t. ae_terminal e = Some t
      \<and> ae_observed_run_ids e = [ca_attempt_id (ae_attempt e)] \<and> te_references_verified t \<and> te_storage_clean t)"
    by (auto simp: fun_eq_iff is_reconciled_terminal_def split: option.splits)
  have i: "evidence_is_infrastructure_error = (\<lambda>e. ae_disposition e \<notin> {EXPECTED, UNEXPECTED_RESULT})"
    by (simp add: fun_eq_iff evidence_is_infrastructure_error_def is_infrastructure_error_def)
  note d = c [unfolded derive_claims_Inr]
  have rate: "rc_infrastructure_error_rate c = fl (of_int (rc_infrastructure_error_count c) / of_int (int (length es)))"
    using d rate_is_rounded by metis
  have bounds: "0 \<le> rc_infrastructure_error_rate c" "rc_infrastructure_error_rate c \<le> 1"
    using v by (simp_all add: valid_report_claims_def is_campaign_rate_def)
  have unique: "valid_report_body H (b\<lparr>rb_attempts := es, rb_claims := c'\<rparr>) \<longleftrightarrow> c' = c" for c'
    using c v valid_body_exchange [OF assms] by auto
  have all: "rc_complete c \<longleftrightarrow> list_all is_reconciled_terminal es"
    "rc_all_expected c \<longleftrightarrow> list_all (\<lambda>e. ae_disposition e = EXPECTED) es"
    using d by (simp_all add: count_true_all)
  show ?thesis
    by (intro exI [of _ c] conjI allI unique bounds rate all(1) [unfolded r] all(2))
      (use d in \<open>simp_all add: count_true_card r i\<close>)
qed

lemma expected_evidence:
  assumes "valid_attempt_evidence e" and "ae_disposition e = EXPECTED" and "is_reconciled_terminal e"
  obtains t where "ae_terminal e = Some t" and "valid_terminal_evidence t"
    and "te_run_id t = ca_attempt_id (ae_attempt e)" and "te_references_verified t" and "te_storage_clean t"
    and "ae_observed_run_ids e = [ca_attempt_id (ae_attempt e)]" and "ae_execution_error_type e = None"
proof -
  from assms(3) obtain t where t: "ae_terminal e = Some t" "te_references_verified t" "te_storage_clean t"
    "ae_observed_run_ids e = [ca_attempt_id (ae_attempt e)]"
    by (auto simp: is_reconciled_terminal_def split: option.splits)
  have v: "valid_terminal_evidence t" using assms(1) t(1) by (simp add: valid_attempt_evidence_def)
  have "shape_matches_disposition e" using assms(1) by (simp only: valid_attempt_evidence_def)
  then have "te_run_id t = ca_attempt_id (ae_attempt e)" "ae_execution_error_type e = None"
    using t(1) assms(2) by (simp_all add: shape_matches_disposition_def split: if_splits)
  with t v show thesis using that by blast
qed

text \<open>C23: a valid report that claims the campaign passed holds, for every attempt of the schedule and
  in its order, evidence with the expected disposition: a terminal run whose identifier is the
  attempt's and which is the only run in its store, verified references, clean storage, nothing
  left reserved and no execution error. There are then no infrastructure errors at all, whatever
  rate the manifest tolerates.\<close>

theorem passed_report_sound:
  assumes "valid_report_body H b" and "rc_campaign_passed (rb_claims b)"
  shows "rb_state_manifest_verified b \<and> rb_code_identity_verified b
    \<and> rc_infrastructure_error_count (rb_claims b) = 0 \<and> rc_infrastructure_error_rate (rb_claims b) = 0
    \<and> length (rb_attempts b) = nat (cm_rounds (rb_manifest b)) * length (cm_fixtures (rb_manifest b))
    \<and> (\<forall>k. k < length (rb_attempts b) \<longrightarrow>
        ae_attempt (rb_attempts b ! k) = cm_attempts (rb_manifest b) ! k
        \<and> ae_disposition (rb_attempts b ! k) = EXPECTED
        \<and> ae_observed_run_ids (rb_attempts b ! k) = [ca_attempt_id (cm_attempts (rb_manifest b) ! k)]
        \<and> ae_execution_error_type (rb_attempts b ! k) = None
        \<and> (\<exists>t. ae_terminal (rb_attempts b ! k) = Some t \<and> is_terminal (te_run_status t)
            \<and> te_run_id t = ca_attempt_id (cm_attempts (rb_manifest b) ! k)
            \<and> te_budget_reserved t = empty_usage \<and> te_references_verified t \<and> te_storage_clean t))"
proof -
  let ?es = "rb_attempts b" and ?c = "rb_claims b"
  note v = valid_body_claims [OF assms(1)]
  have c: "rb_state_manifest_verified b" "rb_code_identity_verified b"
    "count_true is_reconciled_terminal ?es = int (length ?es)"
    "count_true (\<lambda>e. ae_disposition e = EXPECTED) ?es = int (length ?es)"
    "rc_infrastructure_error_count ?c = count_true evidence_is_infrastructure_error ?es"
    "fdiv (of_int (count_true evidence_is_infrastructure_error ?es)) (of_int (int (length ?es)))
      = Some (rc_infrastructure_error_rate ?c)"
    using v(3) assms(2) unfolding derive_claims_Inr by auto
  then have all: "list_all is_reconciled_terminal ?es" "list_all (\<lambda>e. ae_disposition e = EXPECTED) ?es"
    by (simp_all add: count_true_all)
  then have zero: "count_true evidence_is_infrastructure_error ?es = 0"
    by (auto simp: count_true_none list_all_iff evidence_is_infrastructure_error_def is_infrastructure_error_def)
  have val: "list_all valid_attempt_evidence ?es" using assms(1) by (simp only: valid_report_body_def)
  have "valid_campaign (rb_manifest b)" using assms(1) by (simp only: valid_report_body_def)
  from arg_cong [OF valid_campaign_schedule(5) [OF this], of length]
  have len: "length ?es = nat (cm_rounds (rb_manifest b)) * length (cm_fixtures (rb_manifest b))"
    by (simp add: observed_bindings_def length_expected_bindings v(2))
  have each: "ae_attempt (?es ! k) = cm_attempts (rb_manifest b) ! k \<and> ae_disposition (?es ! k) = EXPECTED
      \<and> ae_observed_run_ids (?es ! k) = [ca_attempt_id (cm_attempts (rb_manifest b) ! k)]
      \<and> ae_execution_error_type (?es ! k) = None
      \<and> (\<exists>t. ae_terminal (?es ! k) = Some t \<and> is_terminal (te_run_status t)
          \<and> te_run_id t = ca_attempt_id (cm_attempts (rb_manifest b) ! k)
          \<and> te_budget_reserved t = empty_usage \<and> te_references_verified t \<and> te_storage_clean t)"
    if k: "k < length ?es" for k
  proof -
    have a: "ae_attempt (?es ! k) = cm_attempts (rb_manifest b) ! k"
      using v(1) k by (metis nth_map)
    have h: "valid_attempt_evidence (?es ! k)" "ae_disposition (?es ! k) = EXPECTED" "is_reconciled_terminal (?es ! k)"
      using val all k by (simp_all add: list_all_length)
    obtain t where t: "ae_terminal (?es ! k) = Some t" "valid_terminal_evidence t"
      "te_run_id t = ca_attempt_id (ae_attempt (?es ! k))" "te_references_verified t" "te_storage_clean t"
      "ae_observed_run_ids (?es ! k) = [ca_attempt_id (ae_attempt (?es ! k))]"
      "ae_execution_error_type (?es ! k) = None"
      using expected_evidence [OF h] .
    have "run_is_terminal t" using t(2) by (simp only: valid_terminal_evidence_def)
    then have "is_terminal (te_run_status t)" "te_budget_reserved t = empty_usage"
      by (simp_all only: run_is_terminal_def)
    with a h t show ?thesis by simp
  qed
  show ?thesis
    using c(1,2,5) c(6) [unfolded zero, THEN rate_of_zero] zero len each by simp
qed

section \<open>Hashes of reports\<close>

lemma tier_value_inject [simp]: "tier_value a = tier_value b \<longleftrightarrow> a = b"
  by (cases a; cases b) simp_all

lemma kind_value_inject [simp]: "kind_value a = kind_value b \<longleftrightarrow> a = b"
  by (cases a; cases b) simp_all

lemma disposition_value_inject [simp]: "disposition_value a = disposition_value b \<longleftrightarrow> a = b"
  by (cases a; cases b) simp_all

lemma campaign_parts_json_inject:
  "campaign_attempt_json a = campaign_attempt_json a' \<Longrightarrow> a = a'"
  "campaign_fixture_json f = campaign_fixture_json f' \<Longrightarrow> f = f'"
  "campaign_evaluator_json e = campaign_evaluator_json e' \<Longrightarrow> e = e'"
  "campaign_model_json m = campaign_model_json m' \<Longrightarrow> m = m'"
  by (auto simp: campaign_attempt_json_def campaign_fixture_json_def campaign_evaluator_json_def
      campaign_model_json_def intro: campaign_attempt.equality campaign_fixture.equality
      campaign_evaluator.equality campaign_model.equality)

lemma map_json_inject:
  assumes "map f xs = map f ys" and "\<And>x y. x \<in> set xs \<Longrightarrow> y \<in> set ys \<Longrightarrow> f x = f y \<Longrightarrow> x = y"
  shows "xs = ys"
proof -
  from assms(1) have "length xs = length ys" by (rule map_eq_imp_length_eq)
  then show ?thesis using assms
    by (induction xs ys rule: list_induct2) auto
qed

lemma campaign_manifest_json_inject:
  assumes "valid_campaign m" and "valid_campaign n"
    and "campaign_manifest_json m = campaign_manifest_json n"
  shows "m = n"
proof -
  have l: "valid_limits (cm_budget_limits m)" "valid_limits (cm_budget_limits n)"
    using assms(1,2) by (simp_all only: valid_campaign_def valid_campaign_fields_def)
  note eq = assms(3) [unfolded campaign_manifest_json_def, simplified]
  have "cm_attempts m = cm_attempts n" "cm_fixtures m = cm_fixtures n"
    using eq campaign_parts_json_inject(1,2) by (auto intro: map_json_inject)
  moreover have "cm_budget_limits m = cm_budget_limits n" using eq limits_dict_inject [OF l] by simp
  moreover have "cm_evaluator m = cm_evaluator n" "cm_model m = cm_model n"
    using eq campaign_parts_json_inject(3,4) by auto
  ultimately show ?thesis using eq by (intro campaign_manifest.equality) simp_all
qed

lemma terminal_evidence_json_inject:
  assumes "valid_terminal_evidence t" and "valid_terminal_evidence u"
    and "terminal_evidence_json t = terminal_evidence_json u"
  shows "t = u"
proof -
  have v: "valid_usage (te_budget_used t)" "valid_usage (te_budget_used u)"
    "valid_usage (te_budget_reserved t)" "valid_usage (te_budget_reserved u)"
    using assms(1,2) by (simp_all only: valid_terminal_evidence_def)
  note eq = assms(3) [unfolded terminal_evidence_json_def, simplified]
  have "te_budget_used t = te_budget_used u" "te_budget_reserved t = te_budget_reserved u"
    using eq v by (auto intro: usage_dict_inject)
  moreover have "te_evaluation_outcome t = te_evaluation_outcome u" "te_returned_model t = te_returned_model u"
    using eq by (auto intro: opt_str_inject)
  ultimately show ?thesis using eq by (intro terminal_evidence.equality) simp_all
qed

lemma attempt_evidence_json_inject:
  assumes "valid_attempt_evidence d" and "valid_attempt_evidence e"
    and "attempt_evidence_json d = attempt_evidence_json e"
  shows "d = e"
proof -
  have v: "valid_opt valid_terminal_evidence (ae_terminal d)" "valid_opt valid_terminal_evidence (ae_terminal e)"
    using assms(1,2) by (simp_all only: valid_attempt_evidence_def)
  note eq = assms(3) [unfolded attempt_evidence_json_def, simplified]
  have "ae_terminal d = ae_terminal e"
    by (rule opt_json_inject [of terminal_evidence_json])
      (use eq v in \<open>auto simp: terminal_evidence_json_def [of "_ :: terminal_evidence"] intro: terminal_evidence_json_inject\<close>)
  moreover have "ae_attempt d = ae_attempt e" using eq campaign_parts_json_inject(1) by blast
  moreover have "ae_diagnostic d = ae_diagnostic e" "ae_execution_error_type d = ae_execution_error_type e"
    using eq by (auto intro: opt_str_inject)
  moreover have "ae_observed_run_ids d = ae_observed_run_ids e" using eq by (auto intro: map_json_inject)
  ultimately show ?thesis using eq by (intro attempt_evidence.equality) simp_all
qed

lemma report_body_json_inject:
  assumes "valid_report_body H b" and "valid_report_body H c"
    and "report_body_json b = report_body_json c"
  shows "b = c"
proof -
  have v: "valid_campaign (rb_manifest b)" "valid_campaign (rb_manifest c)"
    "list_all valid_attempt_evidence (rb_attempts b)" "list_all valid_attempt_evidence (rb_attempts c)"
    "valid_datetime (rb_recorded_at b)" "valid_datetime (rb_recorded_at c)"
    using assms(1,2) by (simp_all only: valid_report_body_def)
  note eq = assms(3) [unfolded report_body_json_def, simplified]
  have "map attempt_evidence_json (rb_attempts b) = map attempt_evidence_json (rb_attempts c)"
    using eq by blast
  then have "rb_attempts b = rb_attempts c"
    by (rule map_json_inject) (use v(3,4) attempt_evidence_json_inject in \<open>unfold list_all_iff, blast\<close>)
  moreover have "rb_manifest b = rb_manifest c" using eq campaign_manifest_json_inject v(1,2) by blast
  moreover have "rb_recorded_at b = rb_recorded_at c"
    using eq isoformat_inject v(5,6) by (simp only: valid_datetime_def)
  moreover have "rb_claims b = rb_claims c" using eq by (intro report_claims.equality) simp_all
  ultimately show ?thesis using eq by (intro report_body.equality) simp_all
qed

lemma wf_array: "(\<And>x. x \<in> set xs \<Longrightarrow> wf_json (f x)) \<Longrightarrow> wf_json (JArr (map f xs))"
  by simp

lemma campaign_rate_fl: "is_campaign_rate r \<Longrightarrow> fl r = r"
  by (auto simp: is_campaign_rate_def is_float_def to_float_def Let_def split: if_splits)

lemma wf_campaign_parts [simp]:
  "wf_json (campaign_attempt_json a)" "wf_json (campaign_fixture_json f)"
  "wf_json (campaign_evaluator_json e)" "wf_json (campaign_model_json m)"
  by (simp_all add: campaign_attempt_json_def campaign_fixture_json_def campaign_evaluator_json_def
      campaign_model_json_def less_char_def)

lemma wf_campaign_manifest_json:
  assumes "valid_campaign m"
  shows "wf_json (campaign_manifest_json m)"
proof -
  have "wf_json (limits_json (cm_budget_limits m))" "fl (cm_maximum_infrastructure_error_rate m)
      = cm_maximum_infrastructure_error_rate m"
    using assms by (simp_all only: valid_campaign_def valid_campaign_fields_def wf_limits_json campaign_rate_fl)
  then show ?thesis by (simp add: campaign_manifest_json_def less_char_def)
qed

lemma wf_terminal_evidence_json:
  assumes "valid_terminal_evidence t"
  shows "wf_json (terminal_evidence_json t)"
proof -
  have "wf_json (usage_json (te_budget_used t))" "wf_json (usage_json (te_budget_reserved t))"
    using assms by (simp_all only: valid_terminal_evidence_def wf_usage_json)
  then show ?thesis by (simp add: terminal_evidence_json_def less_char_def)
qed

lemma wf_attempt_evidence_json:
  assumes "valid_attempt_evidence e"
  shows "wf_json (attempt_evidence_json e)"
proof -
  have "valid_opt valid_terminal_evidence (ae_terminal e)" using assms by (simp only: valid_attempt_evidence_def)
  then have "wf_json (opt_json terminal_evidence_json (ae_terminal e))"
    by (rule wf_opt_json) (rule wf_terminal_evidence_json)
  then show ?thesis by (simp add: attempt_evidence_json_def less_char_def)
qed

lemma wf_report_body_json:
  assumes "valid_report_body H b"
  shows "wf_json (report_body_json b)"
proof -
  have "wf_json (campaign_manifest_json (rb_manifest b))"
    using assms by (simp only: valid_report_body_def wf_campaign_manifest_json)
  moreover have "list_all valid_attempt_evidence (rb_attempts b)" using assms by (simp only: valid_report_body_def)
  then have "\<forall>e \<in> set (rb_attempts b). wf_json (attempt_evidence_json e)"
    unfolding list_all_iff using wf_attempt_evidence_json by blast
  moreover have "fl (rc_infrastructure_error_rate (rb_claims b)) = rc_infrastructure_error_rate (rb_claims b)"
    using assms by (simp only: valid_report_body_def valid_report_claims_def campaign_rate_fl)
  ultimately show ?thesis by (simp add: report_body_json_def less_char_def)
qed

text \<open>C25: the hash in a report envelope commits to the whole report. Two valid reports with the same
  \<open>body_sha256\<close> are the same report (manifest, evidence, verdict, every aggregate), or SHA-256 maps
  their two different canonical bodies to one digest.\<close>

theorem report_hash_commits:
  assumes "valid_campaign_report (json_sha256 sha) r" and "valid_campaign_report (json_sha256 sha) s"
    and "cr_body_sha256 r = cr_body_sha256 s"
  shows "r = s
    \<or> (utf8_encode (dumps (report_body_json (cr_body r))) \<noteq> utf8_encode (dumps (report_body_json (cr_body s)))
       \<and> sha (utf8_encode (dumps (report_body_json (cr_body r))))
         = sha (utf8_encode (dumps (report_body_json (cr_body s)))))"
proof -
  let ?H = "json_sha256 sha"
  have v: "valid_report_body ?H (cr_body r)" "valid_report_body ?H (cr_body s)"
    and h: "cr_body_sha256 r = ?H (report_body_json (cr_body r))" "cr_body_sha256 s = ?H (report_body_json (cr_body s))"
    using assms(1,2) by (simp_all only: valid_campaign_report_def body_hash_matches_def)
  have same: "sha (utf8_encode (dumps (report_body_json (cr_body r))))
      = sha (utf8_encode (dumps (report_body_json (cr_body s))))"
    using h assms(3) by (simp add: json_sha256_def sha256_bytes_def)
  show ?thesis
  proof (cases "utf8_encode (dumps (report_body_json (cr_body r))) = utf8_encode (dumps (report_body_json (cr_body s)))")
    case True
    then have "dumps (report_body_json (cr_body r)) = dumps (report_body_json (cr_body s))"
      by (rule utf8_encode_inject)
    then have "report_body_json (cr_body r) = report_body_json (cr_body s)"
      using dumps_inject_iff wf_report_body_json v by blast
    then have "cr_body r = cr_body s" by (rule report_body_json_inject [OF v])
    with assms(3) show ?thesis by (intro disjI1 campaign_report.equality) simp_all
  next
    case False
    with same show ?thesis by blast
  qed
qed

section \<open>A passing campaign\<close>

definition demo_digest :: string where
  "demo_digest = replicate 64 (CHR ''0'')"

definition demo_campaign_limits :: budget_limits where
  "demo_campaign_limits =
     \<lparr>max_input_tokens = None, max_output_tokens = None, max_total_tokens = Some 128,
      max_model_calls = Some 1, max_model_retries = Some 0, max_tool_calls = None,
      max_tool_cpu_seconds = None, max_container_wall_seconds = None, max_elapsed_seconds = None,
      max_estimated_cost_usd = None\<rparr>"

definition demo_attempt :: "string \<Rightarrow> int \<Rightarrow> campaign_attempt" where
  "demo_attempt i r = \<lparr>ca_attempt_id = i, ca_fixture_id = ''average'', ca_round_index = r, ca_seed = 7\<rparr>"

definition demo_campaign :: campaign_manifest where
  "demo_campaign =
     \<lparr>cm_campaign_id = ''demo'', cm_evidence_tier = DEVELOPMENT, cm_experiment_id = ''reliability'',
      cm_candidate_id = ''scripted'', cm_code_source_sha256 = demo_digest,
      cm_evaluator = \<lparr>ce_kind = LOCAL, ce_evaluator_version = ''local-v1'',
        ce_environment_digest = ''sha256:'' @ demo_digest\<rparr>,
      cm_model = \<lparr>cmo_model_id = ''fake''\<rparr>, cm_budget_limits = demo_campaign_limits, cm_rounds = 2,
      cm_maximum_infrastructure_error_rate = 1 / 2,
      cm_fixtures = [\<lparr>cf_fixture_id = ''average'', cf_fixture_path = ''fixtures/average'',
        cf_fixture_tree_sha256 = demo_digest, cf_solution_patch_sha256 = demo_digest\<rparr>],
      cm_attempts = [demo_attempt ''run-1'' 0, demo_attempt ''run-2'' 1]\<rparr>"

definition demo_terminal :: "string \<Rightarrow> terminal_evidence" where
  "demo_terminal i =
     \<lparr>te_run_id = i, te_task_id = ''average'', te_task_content_sha256 = demo_digest,
      te_evaluator_version = ''local-v1'', te_environment_digest = ''sha256:'' @ demo_digest,
      te_requested_model = ''fake'', te_returned_model = Some ''fake'',
      te_code_revision = ''source-sha256:'' @ demo_digest, te_budget_used = empty_usage,
      te_budget_reserved = empty_usage, te_run_status = SUCCEEDED,
      te_evaluation_outcome = Some ''passed'', te_manifest_revision = 3,
      te_manifest_sha256 = demo_digest, te_event_count = 12, te_head_event_sha256 = demo_digest,
      te_semantic_digest = demo_digest, te_ledger_snapshot_sha256 = demo_digest,
      te_storage_state = ''healthy'', te_references_verified = True, te_storage_clean = True\<rparr>"

definition demo_evidence :: "string \<Rightarrow> int \<Rightarrow> attempt_evidence" where
  "demo_evidence i r =
     \<lparr>ae_attempt = demo_attempt i r, ae_disposition = EXPECTED, ae_observed_run_ids = [i],
      ae_terminal = Some (demo_terminal i), ae_recovery_attempted = False, ae_recovery_succeeded = False,
      ae_execution_error_type = None, ae_diagnostic = None\<rparr>"

definition demo_body :: "string \<Rightarrow> report_body" where
  "demo_body revision =
     \<lparr>rb_manifest = demo_campaign, rb_source_manifest_sha256 = demo_digest,
      rb_campaign_manifest_sha256 = demo_digest, rb_git_revision = revision, rb_recorded_at = 0,
      rb_state_manifest_verified = True, rb_code_identity_verified = True,
      rb_attempts = [demo_evidence ''run-1'' 0, demo_evidence ''run-2'' 1],
      rb_claims = \<lparr>rc_intended_attempt_count = 2, rc_terminal_attempt_count = 2,
        rc_reconciled_attempt_count = 2, rc_expected_attempt_count = 2,
        rc_infrastructure_error_count = 0, rc_infrastructure_error_rate = 0, rc_complete = True,
        rc_all_expected = True, rc_threshold_met = True, rc_campaign_passed = True\<rparr>\<rparr>"

lemma demo_campaign_valid: "valid_campaign demo_campaign"
  by code_simp

lemma demo_body_valid:
  "valid_report_body (\<lambda>_. demo_digest) (demo_body ''a'')" "valid_report_body (\<lambda>_. demo_digest) (demo_body ''b'')"
  by code_simp+

theorem schedule_is_full_factorial_witness:
  "length (cm_attempts demo_campaign) = 2
   \<and> (\<exists>!k. k < length (cm_attempts demo_campaign) \<and> ca_fixture_id (cm_attempts demo_campaign ! k) = ''average''
        \<and> ca_round_index (cm_attempts demo_campaign ! k) = 1)"
proof -
  note h = schedule_is_full_factorial [OF demo_campaign_valid]
  have f: "cm_fixtures demo_campaign ! 0 \<in> set (cm_fixtures demo_campaign)"
    "cf_fixture_id (cm_fixtures demo_campaign ! 0) = ''average''" "cm_rounds demo_campaign = 2"
    "length (cm_fixtures demo_campaign) = 1"
    by (simp_all add: demo_campaign_def)
  have "0 \<le> (1 :: int) \<and> 1 < cm_rounds demo_campaign" by (simp add: f)
  with h f(1) have "\<exists>!k. k < length (cm_attempts demo_campaign)
      \<and> ca_fixture_id (cm_attempts demo_campaign ! k) = cf_fixture_id (cm_fixtures demo_campaign ! 0)
      \<and> ca_round_index (cm_attempts demo_campaign ! k) = 1"
    by blast
  moreover from h have "length (cm_attempts demo_campaign) = nat 2 * 1" unfolding f(3,4) by blast
  ultimately show ?thesis by (simp add: f(2))
qed

text \<open>The second attempt of the passing campaign lost its evidence.\<close>

definition lost_evidence :: attempt_evidence where
  "lost_evidence =
     \<lparr>ae_attempt = demo_attempt ''run-2'' 1, ae_disposition = EVIDENCE_MISSING, ae_observed_run_ids = [],
      ae_terminal = None, ae_recovery_attempted = False, ae_recovery_succeeded = False,
      ae_execution_error_type = None, ae_diagnostic = Some ''attempt_database_missing''\<rparr>"

theorem report_claims_determined_witness:
  "\<not> valid_report_body (\<lambda>_. demo_digest)
      ((demo_body ''a'')\<lparr>rb_attempts := [demo_evidence ''run-1'' 0, lost_evidence]\<rparr>)
   \<and> (\<exists>!c. valid_report_body (\<lambda>_. demo_digest)
      ((demo_body ''a'')\<lparr>rb_attempts := [demo_evidence ''run-1'' 0, lost_evidence], rb_claims := c\<rparr>))"
proof -
  let ?es = "[demo_evidence ''run-1'' 0, lost_evidence]"
  have h: "map ae_attempt ?es = map ae_attempt (rb_attempts (demo_body ''a''))" "list_all valid_attempt_evidence ?es"
    by code_simp+
  from report_claims_determined [OF demo_body_valid(1) h]
  obtain c where c: "\<forall>c'. valid_report_body (\<lambda>_. demo_digest) ((demo_body ''a'')\<lparr>rb_attempts := ?es, rb_claims := c'\<rparr>)
      \<longleftrightarrow> c' = c" "rc_all_expected c \<longleftrightarrow> list_all (\<lambda>e. ae_disposition e = EXPECTED) ?es"
    by (elim exE conjE) (rule that)
  from c(2) have "\<not> rc_all_expected c" by (simp add: lost_evidence_def)
  moreover have "rc_all_expected (rb_claims (demo_body ''a''))" by (simp add: demo_body_def)
  ultimately have "rb_claims (demo_body ''a'') \<noteq> c" by blast
  moreover have "b\<lparr>rb_attempts := es\<rparr> = b\<lparr>rb_attempts := es, rb_claims := rb_claims b\<rparr>" for b :: report_body and es
    by (cases b) simp
  ultimately have "\<not> valid_report_body (\<lambda>_. demo_digest) ((demo_body ''a'')\<lparr>rb_attempts := ?es\<rparr>)"
    using c(1) by metis
  with c(1) show ?thesis by metis
qed

theorem passed_report_sound_witness:
  "length (rb_attempts (demo_body ''a'')) = 2
   \<and> (\<exists>t. ae_terminal (rb_attempts (demo_body ''a'') ! 1) = Some t \<and> te_run_id t = ''run-2''
        \<and> is_terminal (te_run_status t))"
proof -
  have p: "rc_campaign_passed (rb_claims (demo_body ''a''))"
    and n: "length (rb_attempts (demo_body ''a'')) = 2"
    and i: "ca_attempt_id (cm_attempts (rb_manifest (demo_body ''a'')) ! 1) = ''run-2''"
    by (simp_all add: demo_body_def demo_campaign_def demo_attempt_def)
  have "1 < length (rb_attempts (demo_body ''a''))" by (simp add: n)
  with passed_report_sound [OF demo_body_valid(1) p]
  have "\<exists>t. ae_terminal (rb_attempts (demo_body ''a'') ! 1) = Some t \<and> is_terminal (te_run_status t)
      \<and> te_run_id t = ca_attempt_id (cm_attempts (rb_manifest (demo_body ''a'')) ! 1)"
    by blast
  with n show ?thesis unfolding i by blast
qed

definition demo_report :: "string \<Rightarrow> campaign_report" where
  "demo_report revision = \<lparr>cr_body = demo_body revision, cr_body_sha256 = demo_digest\<rparr>"

text \<open>A constant digest: the two demonstration reports differ in their revision and collide.\<close>

definition constant_sha :: "nat list \<Rightarrow> string" where
  "constant_sha bytes = demo_digest"

theorem report_hash_commits_witness:
  "utf8_encode (dumps (report_body_json (demo_body ''a''))) \<noteq> utf8_encode (dumps (report_body_json (demo_body ''b'')))"
proof -
  have H: "json_sha256 constant_sha = (\<lambda>_. demo_digest)"
    by (simp add: fun_eq_iff json_sha256_def sha256_bytes_def constant_sha_def)
  have "is_lower_sha256 demo_digest" by code_simp
  then have v: "valid_campaign_report (json_sha256 constant_sha) (demo_report ''a'')"
    "valid_campaign_report (json_sha256 constant_sha) (demo_report ''b'')"
    by (simp_all add: valid_campaign_report_def body_hash_matches_def H demo_report_def demo_body_valid)
  have "cr_body_sha256 (demo_report ''a'') = cr_body_sha256 (demo_report ''b'')"
    and ne: "demo_report ''a'' \<noteq> demo_report ''b''"
    by (simp_all add: demo_report_def demo_body_def)
  from report_hash_commits [OF v this(1)] ne show ?thesis by (simp add: demo_report_def)
qed

end
