(* ===== verification/Call_Protocol.thy ===== *)
theory Call_Protocol
  imports Serialization Py_Path
begin

text \<open>
  Model of \<open>src/src/guildmind/evaluation/protocol.py\<close> and of the class \<open>PythonCallProtocol\<close> of
  \<open>evaluation/local.py\<close>: the loader of a sealed oracle of Python calls, which validates it and derives
  the challenge the candidate may see. The parser of \<open>json.loads\<close> is the parameter \<open>loads\<close>, from bytes
  to the tree of the text (or to the exception it raises); its two hooks, which refuse
  duplicate keys and non-finite constants, are modelled. What the file system says of the cases
  file is a component of the protocol record.
\<close>

section \<open>The protocol record\<close>

text \<open>What \<open>lstat\<close> and reading the cases file give: an \<open>OSError\<close>, or whether the path is a symbolic
  link, whether it is a regular file, and the bytes.\<close>

datatype cases_file_read = CasesUnreadable | CasesRead bool bool "nat list"

record python_call_protocol =
  pp_module :: string
  pp_callable_name :: string
  pp_cases_file :: cases_file_read
  pp_sealed_cases_bytes :: "nat list option"

definition is_ident_start :: "char \<Rightarrow> bool" where
  "is_ident_start c = (c \<in> set ''ABCDEFGHIJKLMNOPQRSTUVWXYZabcdefghijklmnopqrstuvwxyz_'')"

text \<open>The pattern \<open>[A-Za-z_][A-Za-z0-9_]*\<close>.\<close>

definition is_keyword :: "string \<Rightarrow> bool" where
  "is_keyword s =
     (case s of [] \<Rightarrow> False
      | c # cs \<Rightarrow> is_ident_start c \<and> list_all (\<lambda>c. is_ident_start c \<or> is_digit c) cs)"

definition valid_python_call_protocol :: "python_call_protocol \<Rightarrow> bool" where
  "valid_python_call_protocol p =
     (list_all is_keyword (split_on (CHR ''.'') (pp_module p)) \<and> is_keyword (pp_callable_name p))"

section \<open>Strict JSON\<close>

text \<open>The tree of a JSON text: a number outside the range of floats is \<open>TFloat None\<close>, \<open>TConstant\<close> is
  one of the constants NaN, Infinity and -Infinity, an object has its pairs in text order.\<close>

datatype json_text =
    TNull
  | TBool bool
  | TInt int
  | TFloat "rat option"
  | TConstant string
  | TStr string
  | TArr "json_text list"
  | TObj "(string \<times> json_text) list"

fun object_from_pairs :: "(string \<times> pyval) list \<Rightarrow> (string \<times> pyval) list result" where
  "object_from_pairs ps =
     rfold (\<lambda>(k, v) d. if map_of d k \<noteq> None then Inl ValueError else Inr (d @ [(k, v)])) ps []"

definition mapping_of :: "(string \<times> pyval) list \<Rightarrow> pyval" where
  "mapping_of d = PMapping (map (\<lambda>(k, v). (PStr k, v)) d)"

fun strict_value :: "json_text \<Rightarrow> pyval result"
  and strict_items :: "json_text list \<Rightarrow> pyval list result"
  and strict_pairs :: "(string \<times> json_text) list \<Rightarrow> (string \<times> pyval) list result" where
  "strict_value TNull = Inr PNone"
| "strict_value (TBool b) = Inr (PBool b)"
| "strict_value (TInt i) = Inr (PInt i)"
| "strict_value (TFloat x) = Inr (PFloat x)"
| "strict_value (TConstant c) = Inl ValueError"
| "strict_value (TStr s) = Inr (PStr s)"
| "strict_value (TArr ts) = rbind (strict_items ts) (\<lambda>vs. Inr (PSequence vs))"
| "strict_value (TObj ps) =
     rbind (strict_pairs ps) (\<lambda>vs. rbind (object_from_pairs vs) (\<lambda>d. Inr (mapping_of d)))"
| "strict_items [] = Inr []"
| "strict_items (t # ts) =
     rbind (strict_value t) (\<lambda>v. rbind (strict_items ts) (\<lambda>vs. Inr (v # vs)))"
| "strict_pairs [] = Inr []"
| "strict_pairs ((k, t) # ps) =
     rbind (strict_value t) (\<lambda>v. rbind (strict_pairs ps) (\<lambda>vs. Inr ((k, v) # vs)))"

text \<open>The decoding and syntax errors of \<open>json.loads\<close> are subclasses of \<open>ValueError\<close>.\<close>

definition fixture_error :: "exn \<Rightarrow> exn" where
  "fixture_error e = (if e = ValueError then FixtureConfigurationError else e)"

definition strict_json_object ::
    "(nat list \<Rightarrow> json_text result) \<Rightarrow> nat list \<Rightarrow> (pyval \<times> pyval) list result" where
  "strict_json_object loads data =
     rbind (map_error fixture_error (rbind (loads data) strict_value)) (\<lambda>v.
     case v of PMapping items \<Rightarrow> Inr items | _ \<Rightarrow> Inl FixtureConfigurationError)"

section \<open>Bounded values\<close>

definition max_oracle_bytes :: int where "max_oracle_bytes = 1048576"

definition max_cases :: int where "max_cases = 10000"

definition max_arguments :: nat where "max_arguments = 64"

definition max_json_depth :: nat where "max_json_depth = 32"

definition validate_json_string :: "string \<Rightarrow> unit result" where
  "validate_json_string s =
     (if list_ex (\<lambda>c. 0xD800 \<le> (of_char c :: int) \<and> (of_char c :: int) \<le> 0xDFFF) s
      then Inl FixtureConfigurationError else Inr ())"

fun validate_json_value :: "nat \<Rightarrow> pyval \<Rightarrow> unit result"
  and validate_json_items :: "nat \<Rightarrow> pyval list \<Rightarrow> unit result"
  and validate_json_fields :: "nat \<Rightarrow> (pyval \<times> pyval) list \<Rightarrow> unit result" where
  "validate_json_value depth value =
     (if max_json_depth < depth then Inl FixtureConfigurationError
      else case value of
        PNone \<Rightarrow> Inr ()
      | PBool _ \<Rightarrow> Inr ()
      | PInt _ \<Rightarrow> Inr ()
      | PStr s \<Rightarrow> validate_json_string s
      | PFloat x \<Rightarrow> if x = None then Inl FixtureConfigurationError else Inr ()
      | PSequence vs \<Rightarrow> validate_json_items depth vs
      | PMapping items \<Rightarrow> validate_json_fields depth items
      | _ \<Rightarrow> Inl FixtureConfigurationError)"
| "validate_json_items depth [] = Inr ()"
| "validate_json_items depth (v # vs) =
     rbind (validate_json_value (depth + 1) v) (\<lambda>_. validate_json_items depth vs)"
| "validate_json_fields depth [] = Inr ()"
| "validate_json_fields depth ((k, v) # items) =
     (case k of
        PStr s \<Rightarrow>
          rbind (validate_json_string s) (\<lambda>_.
          rbind (validate_json_value (depth + 1) v) (\<lambda>_. validate_json_fields depth items))
      | _ \<Rightarrow> Inl FixtureConfigurationError)"

declare validate_json_value.simps(1) [simp del]

section \<open>Loading a bundle\<close>

abbreviation get_key :: "(pyval \<times> pyval) list \<Rightarrow> string \<Rightarrow> pyval" where
  "get_key d k \<equiv> (case map_of d (PStr k) of None \<Rightarrow> PNone | Some v \<Rightarrow> v)"

definition has_keys :: "(pyval \<times> pyval) list \<Rightarrow> string list \<Rightarrow> bool" where
  "has_keys d ks = (set (map fst d) = set (map PStr ks))"

definition expected_case_id :: "nat \<Rightarrow> string" where
  "expected_case_id index = ''case-'' @ pad_left 4 (show_nat index)"

text \<open>The pattern \<open>case-[0-9]{4}\<close>.\<close>

definition is_case_id :: "string \<Rightarrow> bool" where
  "is_case_id s = (take 5 s = ''case-'' \<and> length s = 9 \<and> list_all is_digit (drop 5 s))"

definition check_arguments :: "pyval \<Rightarrow> pyval \<Rightarrow> unit result" where
  "check_arguments args kwargs =
     rbind (case args of PSequence vs \<Rightarrow> require (length vs \<le> max_arguments) FixtureConfigurationError
            | _ \<Rightarrow> Inl FixtureConfigurationError) (\<lambda>_.
     rbind (case kwargs of PMapping d \<Rightarrow> require (length d \<le> max_arguments) FixtureConfigurationError
            | _ \<Rightarrow> Inl FixtureConfigurationError) (\<lambda>_.
     case kwargs of PMapping d \<Rightarrow>
       require (\<not> list_ex (\<lambda>(k, _). case k of PStr s \<Rightarrow> \<not> is_keyword s | _ \<Rightarrow> True) d) FixtureConfigurationError
     | _ \<Rightarrow> Inl FixtureConfigurationError))"

definition check_expected :: "pyval \<Rightarrow> pyval result" where
  "check_expected expected =
     (case expected of
        PMapping d \<Rightarrow>
          if \<not> has_keys d [''kind'', ''value''] then Inl FixtureConfigurationError
          else if get_key d ''kind'' \<noteq> PStr ''returned'' then Inl FixtureConfigurationError
          else Inr (get_key d ''value'')
      | _ \<Rightarrow> Inl FixtureConfigurationError)"

text \<open>The loop state: the index, the oracle and challenge cases so far, the case IDs seen.\<close>

type_synonym case_loop = "nat \<times> pyval list \<times> pyval list \<times> string list"

definition load_case :: "pyval \<Rightarrow> case_loop \<Rightarrow> case_loop result" where
  "load_case raw_case st =
     (case st of (index, oracle_cases, challenge_cases, seen_case_ids) \<Rightarrow>
      case raw_case of
        PMapping d \<Rightarrow>
          rbind (require (has_keys d [''case_id'', ''args'', ''kwargs'', ''expected'']) FixtureConfigurationError) (\<lambda>_.
          case get_key d ''case_id'' of
            PStr case_id \<Rightarrow>
              rbind (require (is_case_id case_id) FixtureConfigurationError) (\<lambda>_.
              rbind (require (case_id = expected_case_id index) FixtureConfigurationError) (\<lambda>_.
              rbind (require (case_id \<notin> set seen_case_ids) FixtureConfigurationError) (\<lambda>_.
              let args = get_key d ''args''; kwargs = get_key d ''kwargs''; expected = get_key d ''expected'' in
              rbind (check_arguments args kwargs) (\<lambda>_.
              rbind (check_expected expected) (\<lambda>value.
              rbind (validate_json_value 0 args) (\<lambda>_.
              rbind (validate_json_value 0 kwargs) (\<lambda>_.
              rbind (validate_json_value 0 value) (\<lambda>_.
              Inr (index + 1,
                oracle_cases @ [mapping_of [(''args'', args), (''case_id'', PStr case_id),
                  (''expected'', expected), (''kwargs'', kwargs)]],
                challenge_cases @ [mapping_of [(''args'', args), (''case_id'', PStr case_id),
                  (''kwargs'', kwargs)]],
                case_id # seen_case_ids)))))))))
          | _ \<Rightarrow> Inl FixtureConfigurationError)
      | _ \<Rightarrow> Inl FixtureConfigurationError)"

record python_call_bundle =
  pb_challenge :: pyval
  pb_challenge_bytes :: "nat list"
  pb_challenge_sha256 :: string
  pb_oracle :: pyval
  pb_oracle_bytes :: "nat list"
  pb_oracle_sha256 :: string
  pb_case_count :: nat

definition raw_cases_bytes :: "python_call_protocol \<Rightarrow> nat list result" where
  "raw_cases_bytes p =
     (case pp_sealed_cases_bytes p of
        Some bytes \<Rightarrow> Inr bytes
      | None \<Rightarrow>
          (case pp_cases_file p of
             CasesUnreadable \<Rightarrow> Inl FixtureConfigurationError
           | CasesRead symlink regular bytes \<Rightarrow>
               if symlink \<or> \<not> regular then Inl FixtureConfigurationError else Inr bytes))"

definition oracle_of :: "pyval list \<Rightarrow> pyval" where
  "oracle_of cases =
     mapping_of [(''cases'', PSequence cases), (''schema_version'', PStr ''guildmind.python-call-oracle/v1'')]"

definition challenge_of :: "python_call_protocol \<Rightarrow> pyval list \<Rightarrow> pyval" where
  "challenge_of p cases =
     mapping_of [(''cases'', PSequence cases),
       (''entrypoint'', mapping_of [(''callable'', PStr (pp_callable_name p)), (''module'', PStr (pp_module p))]),
       (''protocol'', PStr ''python-call-v1''),
       (''schema_version'', PStr ''guildmind.python-call-challenge/v1'')]"

definition load_raw_cases :: "(pyval \<times> pyval) list \<Rightarrow> int \<Rightarrow> pyval list result" where
  "load_raw_cases raw expected_case_count =
     rbind (require (has_keys raw [''schema_version'', ''cases'']) FixtureConfigurationError) (\<lambda>_.
     rbind (require (get_key raw ''schema_version'' = PStr ''guildmind.python-call-oracle/v1'')
       FixtureConfigurationError) (\<lambda>_.
     case get_key raw ''cases'' of
       PSequence raw_cases \<Rightarrow>
         rbind (require (raw_cases \<noteq> [] \<and> int (length raw_cases) \<le> max_cases) FixtureConfigurationError) (\<lambda>_.
         rbind (require (int (length raw_cases) = expected_case_count) FixtureConfigurationError) (\<lambda>_.
         Inr raw_cases))
     | _ \<Rightarrow> Inl FixtureConfigurationError))"

definition load_python_call_bundle ::
    "(nat list \<Rightarrow> string) \<Rightarrow> (nat list \<Rightarrow> json_text result) \<Rightarrow> python_call_protocol \<Rightarrow> int
      \<Rightarrow> python_call_bundle result" where
  "load_python_call_bundle sha loads p expected_case_count =
     rbind (raw_cases_bytes p) (\<lambda>raw_bytes.
     rbind (require (int (length raw_bytes) \<le> max_oracle_bytes) FixtureConfigurationError) (\<lambda>_.
     rbind (strict_json_object loads raw_bytes) (\<lambda>raw.
     rbind (load_raw_cases raw expected_case_count) (\<lambda>raw_cases.
     rbind (rfold load_case raw_cases (1, [], [], [])) (\<lambda>(_, oracle_cases, challenge_cases, _).
     rbind (canonical_json (oracle_of oracle_cases)) (\<lambda>oracle_text.
     rbind (canonical_json (challenge_of p challenge_cases)) (\<lambda>challenge_text.
     let oracle_bytes = utf8_encode oracle_text; challenge_bytes = utf8_encode challenge_text in
     Inr \<lparr>pb_challenge = challenge_of p challenge_cases, pb_challenge_bytes = challenge_bytes,
          pb_challenge_sha256 = sha256_bytes sha challenge_bytes,
          pb_oracle = oracle_of oracle_cases, pb_oracle_bytes = oracle_bytes,
          pb_oracle_sha256 = sha256_bytes sha oracle_bytes,
          pb_case_count = length oracle_cases\<rparr>)))))))"

section \<open>What a loaded case is\<close>

definition case_field :: "pyval \<Rightarrow> string \<Rightarrow> pyval" where
  "case_field c k = (case c of PMapping d \<Rightarrow> get_key d k | _ \<Rightarrow> PNone)"

definition oracle_case :: "nat \<Rightarrow> pyval \<Rightarrow> pyval" where
  "oracle_case i c = mapping_of [(''args'', case_field c ''args''), (''case_id'', PStr (expected_case_id i)),
     (''expected'', case_field c ''expected''), (''kwargs'', case_field c ''kwargs'')]"

definition challenge_case :: "nat \<Rightarrow> pyval \<Rightarrow> pyval" where
  "challenge_case i c = mapping_of [(''args'', case_field c ''args''), (''case_id'', PStr (expected_case_id i)),
     (''kwargs'', case_field c ''kwargs'')]"

text \<open>What the loader demands of the case with a given index.\<close>

definition sound_case :: "nat \<Rightarrow> pyval \<Rightarrow> bool" where
  "sound_case i c =
     (is_case_id (expected_case_id i)
      \<and> check_arguments (case_field c ''args'') (case_field c ''kwargs'') = Inr ()
      \<and> validate_json_value 0 (case_field c ''args'') = Inr ()
      \<and> validate_json_value 0 (case_field c ''kwargs'') = Inr ()
      \<and> (\<exists>value. check_expected (case_field c ''expected'') = Inr value \<and> validate_json_value 0 value = Inr ()))"

lemma load_case_Inr:
  assumes "load_case c (i, oc, cc, seen) = Inr st"
  shows "sound_case i c \<and> st = (i + 1, oc @ [oracle_case i c], cc @ [challenge_case i c], expected_case_id i # seen)"
proof -
  from assms obtain d where d: "c = PMapping d" by (cases c) (simp_all add: load_case_def)
  with assms obtain s where "get_key d ''case_id'' = PStr s"
    by (cases "get_key d ''case_id''") (simp_all add: load_case_def result_simps)
  with assms d show ?thesis
    by (auto simp: load_case_def Let_def result_simps sound_case_def case_field_def oracle_case_def challenge_case_def)
qed

lemma load_cases_Inr:
  assumes "rfold load_case cs (i, oc, cc, seen) = Inr (j, oc', cc', seen')"
  shows "j = i + length cs \<and> oc' = oc @ map2 oracle_case [i..<i + length cs] cs
    \<and> cc' = cc @ map2 challenge_case [i..<i + length cs] cs
    \<and> (\<forall>k. k < length cs \<longrightarrow> sound_case (i + k) (cs ! k))"
  using assms
proof (induction cs arbitrary: i oc cc seen)
  case (Cons c cs)
  from Cons.prems have c: "sound_case i c"
    and rest: "rfold load_case cs (i + 1, oc @ [oracle_case i c], cc @ [challenge_case i c], expected_case_id i # seen)
      = Inr (j, oc', cc', seen')"
    using load_case_Inr [of c i oc cc seen] by (auto simp: rbind_eq_Inr)
  have upt: "[i..<i + length (c # cs)] = i # [i + 1..<i + 1 + length cs]"
    by (simp add: upt_conv_Cons del: upt_Suc)
  show ?case
    using Cons.IH [OF rest] c unfolding upt by (auto simp: nth_Cons split: nat.splits)
qed simp

lemma load_bundle_Inr:
  assumes "load_python_call_bundle sha loads p n = Inr b"
  obtains bytes raw cs ot ct where "raw_cases_bytes p = Inr bytes" "int (length bytes) \<le> max_oracle_bytes"
    "strict_json_object loads bytes = Inr raw" "load_raw_cases raw n = Inr cs"
    "get_key raw ''cases'' = PSequence cs" "int (length cs) = n" "cs \<noteq> []"
    "\<And>k. k < length cs \<Longrightarrow> sound_case (1 + k) (cs ! k)"
    "pb_oracle b = oracle_of (map2 oracle_case [1..<1 + length cs] cs)"
    "pb_challenge b = challenge_of p (map2 challenge_case [1..<1 + length cs] cs)"
    "canonical_json (pb_oracle b) = Inr ot" "pb_oracle_bytes b = utf8_encode ot"
    "canonical_json (pb_challenge b) = Inr ct" "pb_challenge_bytes b = utf8_encode ct"
    "pb_challenge_sha256 b = sha (utf8_encode ct)" "pb_oracle_sha256 b = sha (utf8_encode ot)"
    "pb_case_count b = length cs"
proof -
  from assms obtain bytes raw cs st ot ct where h: "raw_cases_bytes p = Inr bytes"
    "int (length bytes) \<le> max_oracle_bytes" "strict_json_object loads bytes = Inr raw" "load_raw_cases raw n = Inr cs"
    "rfold load_case cs (1, [], [], []) = Inr st"
    "canonical_json (oracle_of (fst (snd st))) = Inr ot"
    "canonical_json (challenge_of p (fst (snd (snd st)))) = Inr ct"
    "b = \<lparr>pb_challenge = challenge_of p (fst (snd (snd st))), pb_challenge_bytes = utf8_encode ct,
      pb_challenge_sha256 = sha256_bytes sha (utf8_encode ct), pb_oracle = oracle_of (fst (snd st)),
      pb_oracle_bytes = utf8_encode ot, pb_oracle_sha256 = sha256_bytes sha (utf8_encode ot),
      pb_case_count = length (fst (snd st))\<rparr>"
    unfolding load_python_call_bundle_def Let_def rbind_eq_Inr require_eq_Inr
    by (auto simp: case_prod_unfold rbind_eq_Inr)
  obtain j oc cc seen where st: "st = (j, oc, cc, seen)" by (cases st) auto
  note c = load_cases_Inr [OF h(5) [unfolded st]]
  have g: "get_key raw ''cases'' = PSequence cs" "int (length cs) = n" "cs \<noteq> []"
    using h(4) by (auto simp: load_raw_cases_def result_simps split: pyval.splits)
  show thesis
    by (rule that [OF h(1-4) g]) (use c h(6-8) st in \<open>simp_all add: sha256_bytes_def del: upt_Suc\<close>)
qed

section \<open>The challenge hides the expected values\<close>

text \<open>The arguments of the cases of an oracle, in order: all that the candidate may learn of it.\<close>

definition questions :: "(nat list \<Rightarrow> json_text result) \<Rightarrow> python_call_protocol \<Rightarrow> (pyval \<times> pyval) list" where
  "questions loads p =
     (case rbind (raw_cases_bytes p) (strict_json_object loads) of
        Inl _ \<Rightarrow> []
      | Inr raw \<Rightarrow> (case get_key raw ''cases'' of
            PSequence cs \<Rightarrow> map (\<lambda>c. (case_field c ''args'', case_field c ''kwargs'')) cs
          | _ \<Rightarrow> []))"

lemma challenge_case_questions:
  "map2 challenge_case ks cs =
     map2 (\<lambda>k (a, w). mapping_of [(''args'', a), (''case_id'', PStr (expected_case_id k)), (''kwargs'', w)])
       ks (map (\<lambda>c. (case_field c ''args'', case_field c ''kwargs'')) cs)"
  by (simp add: zip_map2 challenge_case_def comp_def case_prod_unfold)

lemma loaded_questions:
  assumes "load_python_call_bundle sha loads p n = Inr b"
  shows "pb_challenge b = challenge_of p
      (map2 (\<lambda>k (a, w). mapping_of [(''args'', a), (''case_id'', PStr (expected_case_id k)), (''kwargs'', w)])
        [1..<1 + length (questions loads p)] (questions loads p))"
    and "length (questions loads p) = pb_case_count b" and "int (pb_case_count b) = n"
proof -
  from assms obtain bytes raw cs where h: "raw_cases_bytes p = Inr bytes" "strict_json_object loads bytes = Inr raw"
    "get_key raw ''cases'' = PSequence cs"
    "pb_challenge b = challenge_of p (map2 challenge_case [1..<1 + length cs] cs)"
    "pb_case_count b = length cs" "int (length cs) = n"
    by (rule load_bundle_Inr) blast
  have q: "questions loads p = map (\<lambda>c. (case_field c ''args'', case_field c ''kwargs'')) cs"
    by (simp add: questions_def h(1-3))
  show "pb_challenge b = challenge_of p
      (map2 (\<lambda>k (a, w). mapping_of [(''args'', a), (''case_id'', PStr (expected_case_id k)), (''kwargs'', w)])
        [1..<1 + length (questions loads p)] (questions loads p))"
    unfolding h(4) challenge_case_questions q length_map ..
  show "length (questions loads p) = pb_case_count b" "int (pb_case_count b) = n"
    using h(5,6) by (simp_all add: q)
qed

text \<open>C26: the challenge that the candidate sees carries no information on the expected values. Two
  oracles for the same entry point that ask the same questions, whatever results they expect,
  give the same challenge, byte for byte, and so the same challenge hash.\<close>

theorem challenge_hides_expected_values:
  assumes "load_python_call_bundle sha loads p n = Inr b" and "load_python_call_bundle sha loads q m = Inr c"
    and "pp_module p = pp_module q" and "pp_callable_name p = pp_callable_name q"
    and "questions loads p = questions loads q"
  shows "pb_challenge b = pb_challenge c \<and> pb_challenge_bytes b = pb_challenge_bytes c
    \<and> pb_challenge_sha256 b = pb_challenge_sha256 c"
proof -
  have eq: "pb_challenge b = pb_challenge c"
    using loaded_questions(1) [OF assms(1)] loaded_questions(1) [OF assms(2)] assms(3-5)
    by (simp add: challenge_of_def)
  obtain s where s: "canonical_json (pb_challenge b) = Inr s" "pb_challenge_bytes b = utf8_encode s"
    "pb_challenge_sha256 b = sha (utf8_encode s)"
    using assms(1) by (rule load_bundle_Inr) blast
  obtain t where t: "canonical_json (pb_challenge c) = Inr t" "pb_challenge_bytes c = utf8_encode t"
    "pb_challenge_sha256 c = sha (utf8_encode t)"
    using assms(2) by (rule load_bundle_Inr) blast
  from s(1) t(1) have "s = t" by (simp add: eq)
  with eq s t show ?thesis by simp
qed

section \<open>Bounds\<close>

lemma length_show_nat: "length (show_nat n) \<le> 4 \<longleftrightarrow> n < 10000"
proof -
  have step: "length (show_nat n) = (if n < 10 then 1 else Suc (length (show_nat (n div 10))))" for n
    by (subst show_nat.simps) simp
  have pos: "0 < length (show_nat n)" for n by simp
  show ?thesis
    unfolding step [of n] step [of "n div 10"] step [of "n div 10 div 10"] step [of "n div 10 div 10 div 10"]
    using pos [of "n div 10 div 10 div 10 div 10"] by (auto simp: not_le)
qed

lemma case_id_bound: "is_case_id (expected_case_id i) \<longleftrightarrow> i < 10000"
proof -
  have "length (pad_left 4 (show_nat i)) = 4 \<longleftrightarrow> length (show_nat i) \<le> 4"
    by (auto simp: pad_left_def)
  moreover have "list_all is_digit (pad_left 4 (show_nat i))"
    by (auto simp: list_all_iff pad_left_digits)
  ultimately show ?thesis
    by (simp add: is_case_id_def expected_case_id_def length_show_nat)
qed

text \<open>The nesting of a value: an empty container has no nesting, like a scalar.\<close>

fun nesting :: "pyval \<Rightarrow> nat"
  and nesting_items :: "pyval list \<Rightarrow> nat"
  and nesting_fields :: "(pyval \<times> pyval) list \<Rightarrow> nat" where
  "nesting (PSequence vs) = nesting_items vs"
| "nesting (PMapping items) = nesting_fields items"
| "nesting _ = 0"
| "nesting_items [] = 0"
| "nesting_items (v # vs) = max (Suc (nesting v)) (nesting_items vs)"
| "nesting_fields [] = 0"
| "nesting_fields ((k, v) # items) = max (Suc (nesting v)) (nesting_fields items)"

lemma validated_nesting:
  "validate_json_value d v = Inr () \<Longrightarrow> d + nesting v \<le> max_json_depth"
  "d \<le> max_json_depth \<Longrightarrow> validate_json_items d vs = Inr () \<Longrightarrow> d + nesting_items vs \<le> max_json_depth"
  "d \<le> max_json_depth \<Longrightarrow> validate_json_fields d ps = Inr () \<Longrightarrow> d + nesting_fields ps \<le> max_json_depth"
proof (induction d v and d vs and d ps rule: validate_json_value_validate_json_items_validate_json_fields.induct)
  case (1 d v)
  have d: "d \<le> max_json_depth" using "1.prems" by (simp add: validate_json_value.simps split: if_splits)
  with "1.prems" "1.IH" show ?case
    by (cases v) (simp_all add: validate_json_value.simps not_less)
next
  case (5 d k v items)
  then show ?case by (cases k) (auto simp: rbind_eq_Inr)
qed (auto simp: rbind_eq_Inr)

lemma check_arguments_Inr:
  "check_arguments args kwargs = Inr u \<Longrightarrow>
     \<exists>vs d. args = PSequence vs \<and> kwargs = PMapping d \<and> length vs \<le> max_arguments \<and> length d \<le> max_arguments
       \<and> (\<forall>k \<in> set (map fst d). \<exists>s. k = PStr s \<and> is_keyword s)"
  by (auto simp: check_arguments_def result_simps list_ex_iff split: pyval.splits)

lemma check_expected_Inr:
  assumes "check_expected expected = Inr v"
  obtains d where "expected = PMapping d" and "set (map fst d) = {PStr ''kind'', PStr ''value''}"
    and "map_of d (PStr ''kind'') = Some (PStr ''returned'')" and "map_of d (PStr ''value'') = Some v"
proof -
  from assms obtain d where d: "expected = PMapping d" "has_keys d [''kind'', ''value'']"
    "get_key d ''kind'' = PStr ''returned''" "get_key d ''value'' = v"
    by (cases expected) (auto simp: check_expected_def split: if_splits)
  then have k: "set (map fst d) = {PStr ''kind'', PStr ''value''}" by (simp add: has_keys_def)
  then have "map_of d (PStr ''kind'') \<noteq> None" "map_of d (PStr ''value'') \<noteq> None"
    unfolding map_of_eq_None_iff set_map by simp_all
  with d(1,3,4) k that show thesis by auto
qed

text \<open>The expected outcomes of the cases of an oracle, in order.\<close>

definition expected_outcomes :: "(nat list \<Rightarrow> json_text result) \<Rightarrow> python_call_protocol \<Rightarrow> pyval list" where
  "expected_outcomes loads p =
     (case rbind (raw_cases_bytes p) (strict_json_object loads) of
        Inl _ \<Rightarrow> []
      | Inr raw \<Rightarrow> (case get_key raw ''cases'' of
            PSequence cs \<Rightarrow> map (\<lambda>c. case_field c ''expected'') cs
          | _ \<Rightarrow> []))"

text \<open>C27: a bundle is bounded in every dimension: it has as many cases as the fixture declares, at least
  one and at most 9999, each with at most 64 positional and 64 keyword arguments whose names are
  Python identifiers, nested at most 32 levels deep, and with an expected outcome that has exactly
  the keys kind and value, of the kind ''returned'', whose value is nested at most 32 levels deep.\<close>

theorem bundle_is_bounded:
  assumes "load_python_call_bundle sha loads p n = Inr b"
  shows "int (pb_case_count b) = n \<and> 1 \<le> pb_case_count b \<and> pb_case_count b \<le> 9999
    \<and> length (questions loads p) = pb_case_count b
    \<and> (\<forall>a w. (a, w) \<in> set (questions loads p) \<longrightarrow> nesting a \<le> 32 \<and> nesting w \<le> 32
        \<and> (\<exists>vs d. a = PSequence vs \<and> w = PMapping d \<and> length vs \<le> 64 \<and> length d \<le> 64
            \<and> (\<forall>k \<in> set (map fst d). \<exists>s. k = PStr s \<and> is_keyword s)))
    \<and> length (expected_outcomes loads p) = pb_case_count b
    \<and> (\<forall>x. x \<in> set (expected_outcomes loads p) \<longrightarrow>
        (\<exists>d v. x = PMapping d \<and> set (map fst d) = {PStr ''kind'', PStr ''value''}
            \<and> map_of d (PStr ''kind'') = Some (PStr ''returned'') \<and> map_of d (PStr ''value'') = Some v
            \<and> nesting v \<le> 32))"
proof -
  from assms obtain bytes raw cs where h: "raw_cases_bytes p = Inr bytes" "strict_json_object loads bytes = Inr raw"
    "get_key raw ''cases'' = PSequence cs" "pb_case_count b = length cs" "cs \<noteq> []"
    "\<And>k. k < length cs \<Longrightarrow> sound_case (1 + k) (cs ! k)"
    by (rule load_bundle_Inr) blast
  have q: "questions loads p = map (\<lambda>c. (case_field c ''args'', case_field c ''kwargs'')) cs"
    by (simp add: questions_def h(1-3))
  have "sound_case (1 + (length cs - 1)) (cs ! (length cs - 1))" using h(5) by (intro h(6)) simp
  then have n: "length cs \<le> 9999" using h(5) by (simp add: sound_case_def case_id_bound)
  have "nesting a \<le> 32 \<and> nesting w \<le> 32
        \<and> (\<exists>vs d. a = PSequence vs \<and> w = PMapping d \<and> length vs \<le> 64 \<and> length d \<le> 64
            \<and> (\<forall>k \<in> set (map fst d). \<exists>s. k = PStr s \<and> is_keyword s))"
    if aw: "(a, w) \<in> set (questions loads p)" for a w
  proof -
    from aw obtain k where "k < length cs" "a = case_field (cs ! k) ''args''" "w = case_field (cs ! k) ''kwargs''"
      by (auto simp: q in_set_conv_nth)
    with h(6) have s: "check_arguments a w = Inr ()" "validate_json_value 0 a = Inr ()" "validate_json_value 0 w = Inr ()"
      by (auto simp: sound_case_def)
    from validated_nesting(1) [OF s(2)] validated_nesting(1) [OF s(3)] check_arguments_Inr [OF s(1)]
    show ?thesis by (simp add: max_json_depth_def max_arguments_def)
  qed
  moreover have x: "expected_outcomes loads p = map (\<lambda>c. case_field c ''expected'') cs"
    by (simp add: expected_outcomes_def h(1-3))
  moreover have "\<exists>d v. x = PMapping d \<and> set (map fst d) = {PStr ''kind'', PStr ''value''}
      \<and> map_of d (PStr ''kind'') = Some (PStr ''returned'') \<and> map_of d (PStr ''value'') = Some v \<and> nesting v \<le> 32"
    if "x \<in> set (expected_outcomes loads p)" for x
  proof -
    from that obtain k where k: "k < length cs" "x = case_field (cs ! k) ''expected''"
      by (auto simp: x in_set_conv_nth)
    with h(6) obtain v where v: "check_expected x = Inr v" "validate_json_value 0 v = Inr ()"
      by (auto simp: sound_case_def)
    from validated_nesting(1) [OF v(2)] have "nesting v \<le> 32" by (simp add: max_json_depth_def)
    with check_expected_Inr [OF v(1)] show ?thesis by metis
  qed
  ultimately show ?thesis using n h(4,5) loaded_questions(2,3) [OF assms]
    by (simp add: Suc_le_eq)
qed

text \<open>The declared maximum of 10000 cases cannot be reached: a fixture with 10000 cases never loads,
  since the identifier of the last one has five digits and the pattern for identifiers four.\<close>

theorem ten_thousand_cases_never_load:
  "load_python_call_bundle sha loads p 10000 \<noteq> Inr b"
proof
  assume "load_python_call_bundle sha loads p 10000 = Inr b"
  then show False
  proof (rule load_bundle_Inr)
    fix cs assume len: "int (length cs) = 10000" and s: "\<And>k. k < length cs \<Longrightarrow> sound_case (1 + k) (cs ! k)"
    have "sound_case (1 + 9999) (cs ! 9999)" using len by (intro s) simp
    then show False by (simp add: sound_case_def case_id_bound)
  qed
qed

section \<open>Errors\<close>

lemma rbind_eq_Inl [raise_simps]:
  "rbind m f = Inl e \<longleftrightarrow> m = Inl e \<or> (\<exists>x. m = Inr x \<and> f x = Inl e)"
  by (cases m) auto

lemma require_eq_Inl [raise_simps]: "require b e = Inl e' \<longleftrightarrow> \<not> b \<and> e' = e"
  by (auto simp: require_def)

lemma strict_value_raises:
  "strict_value t = Inl e \<Longrightarrow> e = ValueError"
  "strict_items ts = Inl e \<Longrightarrow> e = ValueError"
  "strict_pairs ps = Inl e \<Longrightarrow> e = ValueError"
proof (induction t and ts and ps rule: strict_value_strict_items_strict_pairs.induct)
  case (8 ps)
  have "rfold (\<lambda>(k, v) d. if map_of d k \<noteq> None then Inl ValueError else Inr (d @ [(k, v)])) vs d = Inl e
      \<Longrightarrow> e = ValueError" for vs and d :: "(string \<times> pyval) list"
    by (induction vs arbitrary: d) (auto simp: raise_simps split: if_splits)
  with 8 show ?case by (auto simp: raise_simps)
qed (auto simp: raise_simps)

lemma validate_raises:
  "validate_json_value d v = Inl e \<Longrightarrow> e = FixtureConfigurationError"
  "validate_json_items d vs = Inl e \<Longrightarrow> e = FixtureConfigurationError"
  "validate_json_fields d ps = Inl e \<Longrightarrow> e = FixtureConfigurationError"
proof (induction d v and d vs and d ps rule: validate_json_value_validate_json_items_validate_json_fields.induct)
  case (1 d v)
  then show ?case
    by (cases v) (auto simp: validate_json_value.simps validate_json_string_def split: if_splits)
next
  case (5 d k v items)
  then show ?case by (cases k) (auto simp: raise_simps validate_json_string_def split: if_splits)
qed (auto simp: raise_simps)

lemma check_raises:
  "check_arguments a w = Inl e \<Longrightarrow> e = FixtureConfigurationError"
  "check_expected x = Inl e \<Longrightarrow> e = FixtureConfigurationError"
  by (auto simp: check_arguments_def check_expected_def raise_simps split: pyval.splits if_splits)

lemma load_case_raises: "load_case c st = Inl e \<Longrightarrow> e = FixtureConfigurationError"
  by (auto simp: load_case_def Let_def raise_simps split: prod.splits pyval.splits
      dest: check_raises validate_raises)

lemma load_cases_raise: "rfold load_case cs st = Inl e \<Longrightarrow> e = FixtureConfigurationError"
  by (induction cs arbitrary: st) (auto simp: raise_simps dest: load_case_raises)

text \<open>A validated value always has a canonical text.\<close>

lemma validated_is_json:
  "validate_json_value d v = Inr () \<Longrightarrow> \<exists>j. json_compatible v = Inr j"
  "validate_json_items d vs = Inr () \<Longrightarrow> \<exists>js. json_compatible_list vs = Inr js"
  "validate_json_fields d ps = Inr () \<Longrightarrow> \<exists>js. json_compatible_mapping ps = Inr js"
proof (induction d v and d vs and d ps rule: validate_json_value_validate_json_items_validate_json_fields.induct)
  case (1 d v)
  then show ?case
    by (cases v) (auto simp: validate_json_value.simps split: if_splits)
next
  case (5 d k v items)
  then show ?case by (cases k) (auto simp: rbind_eq_Inr)
qed (auto simp: rbind_eq_Inr)

lemma json_compatible_all:
  "\<forall>v \<in> set vs. \<exists>j. json_compatible v = Inr j \<Longrightarrow> \<exists>js. json_compatible_list vs = Inr js"
  by (induction vs) auto

text \<open>The dictionaries that the loader makes have distinct keys, all of them strings.\<close>

fun plain_dicts :: "pyval \<Rightarrow> bool"
  and plain_dict_items :: "pyval list \<Rightarrow> bool"
  and plain_dict_fields :: "(pyval \<times> pyval) list \<Rightarrow> bool" where
  "plain_dicts (PSequence vs) = plain_dict_items vs"
| "plain_dicts (PMapping items) = (distinct (map fst items) \<and> plain_dict_fields items)"
| "plain_dicts _ = True"
| "plain_dict_items [] = True"
| "plain_dict_items (v # vs) = (plain_dicts v \<and> plain_dict_items vs)"
| "plain_dict_fields [] = True"
| "plain_dict_fields ((k, v) # items) = (plain_dicts v \<and> plain_dict_fields items)"

lemma plain_dict_items_iff: "plain_dict_items vs \<longleftrightarrow> (\<forall>v \<in> set vs. plain_dicts v)"
  by (induction vs) auto

lemma plain_dict_fields_iff: "plain_dict_fields ps \<longleftrightarrow> (\<forall>kv \<in> set ps. plain_dicts (snd kv))"
  by (induction ps) auto

lemma object_from_pairs_Inr:
  assumes "object_from_pairs ps = Inr d"
  shows "distinct (map fst d) \<and> set d \<subseteq> set ps"
proof -
  have "rfold (\<lambda>(k, v) d. if map_of d k \<noteq> None then Inl ValueError else Inr (d @ [(k, v)])) ps acc = Inr d
      \<Longrightarrow> distinct (map fst acc) \<Longrightarrow> distinct (map fst d) \<and> set d \<subseteq> set acc \<union> set ps" for acc
  proof (induction ps arbitrary: acc)
    case (Cons p ps)
    obtain k v where p: "p = (k, v)" by (cases p)
    with Cons.prems have "map_of acc k = None"
      and rest: "rfold (\<lambda>(k, v) d. if map_of d k \<noteq> None then Inl ValueError else Inr (d @ [(k, v)])) ps (acc @ [p]) = Inr d"
      by (cases "map_of acc k"; simp)+
    then have "distinct (map fst (acc @ [p]))" using Cons.prems(2) p by (simp add: map_of_eq_None_iff)
    from Cons.IH [OF rest this] show ?case by auto
  qed simp
  from this [of "[]"] assms show ?thesis by simp
qed

lemma plain_mapping_of:
  assumes "distinct (map fst d)" and "\<forall>kv \<in> set d. plain_dicts (snd kv)"
  shows "plain_dicts (mapping_of d)"
proof -
  have keys: "map fst (map (\<lambda>(k, v). (PStr k, v)) d) = map PStr (map fst d)" by auto
  have "distinct (map PStr (map fst d))" using assms(1) by (simp add: distinct_map inj_on_def)
  then have "distinct (map fst (map (\<lambda>(k, v). (PStr k, v)) d))" unfolding keys .
  moreover have "plain_dict_fields (map (\<lambda>(k, v). (PStr k, v)) d)"
    using assms(2) by (auto simp: plain_dict_fields_iff)
  ultimately show ?thesis by (simp only: mapping_of_def plain_dicts.simps)
qed

lemma strict_value_plain:
  "strict_value t = Inr v \<Longrightarrow> plain_dicts v"
  "strict_items ts = Inr vs \<Longrightarrow> plain_dict_items vs"
  "strict_pairs ps = Inr qs \<Longrightarrow> (\<forall>kv \<in> set qs. plain_dicts (snd kv))"
proof (induction t and ts and ps arbitrary: v and vs and qs rule: strict_value_strict_items_strict_pairs.induct)
  case (8 ps)
  then obtain qs d where q: "strict_pairs ps = Inr qs" "object_from_pairs qs = Inr d" "v = mapping_of d"
    by (auto simp: rbind_eq_Inr simp del: object_from_pairs.simps)
  from object_from_pairs_Inr [OF q(2)] 8(1) [OF q(1)] show ?case
    unfolding q(3) by (intro plain_mapping_of) auto
qed (fastforce simp: rbind_eq_Inr)+

lemma plain_case_field: "plain_dicts c \<Longrightarrow> plain_dicts (case_field c k)"
  by (cases c) (auto simp: case_field_def plain_dict_fields_iff split: option.splits dest!: map_of_SomeD)

lemma sound_case_expected:
  assumes "sound_case i c" and "plain_dicts c"
  shows "\<exists>j. json_compatible (case_field c ''expected'') = Inr j"
proof -
  from assms(1) obtain x where v: "check_expected (case_field c ''expected'') = Inr x"
    "validate_json_value 0 x = Inr ()"
    by (auto simp: sound_case_def)
  then obtain d where d: "case_field c ''expected'' = PMapping d" "has_keys d [''kind'', ''value'']"
    "get_key d ''kind'' = PStr ''returned''" "x = get_key d ''value''"
    by (auto simp: check_expected_def split: pyval.splits if_splits)
  have dist: "distinct (map fst d)" using plain_case_field [OF assms(2), of "''expected''"] d(1) by simp
  have entry: "\<exists>s. k = PStr s \<and> (\<exists>j. json_compatible w = Inr j)" if kw: "(k, w) \<in> set d" for k w
  proof -
    have "map_of d k = Some w" using dist kw by simp
    moreover have "k \<in> set (map fst d)" using kw by force
    with d(2) have "k = PStr ''kind'' \<or> k = PStr ''value''" unfolding has_keys_def by simp
    ultimately show ?thesis using d(3,4) validated_is_json(1) [OF v(2)] by auto
  qed
  have "(\<forall>(k, w) \<in> set e. \<exists>s. k = PStr s \<and> (\<exists>j. json_compatible w = Inr j)) \<Longrightarrow>
      \<exists>js. json_compatible_mapping e = Inr js" for e
    by (induction e) auto
  with entry have "\<exists>js. json_compatible_mapping d = Inr js" by blast
  then show ?thesis using d(1) by auto
qed

lemma sound_cases_have_text:
  assumes "\<And>k. k < length cs \<Longrightarrow> sound_case (1 + k) (cs ! k)" and "\<forall>c \<in> set cs. plain_dicts c"
  shows "\<exists>t. canonical_json (oracle_of (map2 oracle_case [1..<1 + length cs] cs)) = Inr t"
    and "\<exists>t. canonical_json (challenge_of p (map2 challenge_case [1..<1 + length cs] cs)) = Inr t"
proof -
  have "(\<exists>j. json_compatible (oracle_case i c) = Inr j) \<and> (\<exists>j. json_compatible (challenge_case i c) = Inr j)"
    if "sound_case i c" "plain_dicts c" for i c
  proof -
    have "validate_json_value 0 (case_field c ''args'') = Inr ()" "validate_json_value 0 (case_field c ''kwargs'') = Inr ()"
      using that(1) by (simp_all only: sound_case_def)
    from this [THEN validated_is_json(1)] sound_case_expected [OF that] obtain a b x where
      "json_compatible (case_field c ''args'') = Inr a"
      "json_compatible (case_field c ''kwargs'') = Inr b" "json_compatible (case_field c ''expected'') = Inr x"
      by blast
    then show ?thesis by (simp add: oracle_case_def challenge_case_def mapping_of_def)
  qed
  moreover have "sound_case i c \<and> plain_dicts c" if "(i, c) \<in> set (zip [1..<1 + length cs] cs)" for i c
    using that assms by (auto simp: in_set_zip simp del: upt_Suc)
  ultimately have
    "\<forall>v \<in> set (map2 oracle_case [1..<1 + length cs] cs). \<exists>j. json_compatible v = Inr j"
    "\<forall>v \<in> set (map2 challenge_case [1..<1 + length cs] cs). \<exists>j. json_compatible v = Inr j"
    unfolding set_map by (auto simp del: upt_Suc)
  from this [THEN json_compatible_all] obtain os ks where
    "json_compatible_list (map2 oracle_case [1..<1 + length cs] cs) = Inr os"
    "json_compatible_list (map2 challenge_case [1..<1 + length cs] cs) = Inr ks"
    by blast
  then show "\<exists>t. canonical_json (oracle_of (map2 oracle_case [1..<1 + length cs] cs)) = Inr t"
    "\<exists>t. canonical_json (challenge_of p (map2 challenge_case [1..<1 + length cs] cs)) = Inr t"
    by (simp_all add: canonical_json_def oracle_of_def challenge_of_def mapping_of_def del: upt_Suc)
qed

text \<open>When the JSON parser raises nothing but \<open>ValueError\<close> (its syntax and decoding errors), the loader
  either returns a bundle or raises \<open>FixtureConfigurationError\<close>, on every input: a malformed oracle is
  reported as such, and serializing what was accepted never fails.\<close>

theorem bundle_errors_are_configuration_errors:
  assumes "\<And>data e. loads data = Inl e \<Longrightarrow> e = ValueError"
    and "load_python_call_bundle sha loads p n = Inl e"
  shows "e = FixtureConfigurationError"
proof (rule ccontr)
  assume e: "e \<noteq> FixtureConfigurationError"
  have "strict_json_object loads bytes \<noteq> Inl e" for bytes
    using e assms(1) strict_value_raises(1)
    by (auto simp: strict_json_object_def raise_simps map_error_def fixture_error_def split: sum.splits pyval.splits if_splits)
  moreover have "raw_cases_bytes p \<noteq> Inl e"
    using e by (auto simp: raw_cases_bytes_def split: option.splits cases_file_read.splits if_splits)
  moreover have "load_raw_cases raw n \<noteq> Inl e" for raw
    using e by (auto simp: load_raw_cases_def raise_simps split: pyval.splits)
  moreover have "rfold load_case cs st \<noteq> Inl e" for cs st using e load_cases_raise by blast
  ultimately have no: "strict_json_object loads bytes \<noteq> Inl e" "raw_cases_bytes p \<noteq> Inl e"
    "load_raw_cases raw n \<noteq> Inl e" "rfold load_case cs st \<noteq> Inl e" for bytes raw cs st
    by blast+
  note l = assms(2) [unfolded load_python_call_bundle_def Let_def]
  obtain bytes where b: "raw_cases_bytes p = Inr bytes" using no(2) l by (cases "raw_cases_bytes p") simp_all
  obtain raw where h1: "strict_json_object loads bytes = Inr raw"
    using no(1) [of bytes] l e b by (cases "strict_json_object loads bytes") (simp_all add: require_def split: if_splits)
  obtain cs where h2: "load_raw_cases raw n = Inr cs"
    using no(3) [of raw] l e b h1 by (cases "load_raw_cases raw n") (simp_all add: require_def split: if_splits)
  obtain st where h3: "rfold load_case cs (1, [], [], []) = Inr st"
    using no(4) [of cs "(1, [], [], [])"] l e b h1 h2
    by (cases "rfold load_case cs (1, [], [], [])") (simp_all add: require_def split: if_splits)
  have h4: "canonical_json (oracle_of (fst (snd st))) = Inl e \<or> canonical_json (challenge_of p (fst (snd (snd st)))) = Inl e"
    using l e b h1 h2 h3
    by (cases "canonical_json (oracle_of (fst (snd st)))"; cases "canonical_json (challenge_of p (fst (snd (snd st))))")
      (simp_all add: require_def case_prod_unfold split: if_splits)
  note h = h1 h2 h3 h4
  obtain j oc cc seen where st: "st = (j, oc, cc, seen)" by (cases st) auto
  from h(1) obtain t v where v: "strict_value t = Inr v"
    "(case v of PMapping items \<Rightarrow> Inr items | _ \<Rightarrow> Inl FixtureConfigurationError) = Inr raw"
    unfolding strict_json_object_def rbind_eq_Inr map_error_eq_Inr by blast
  from v(2) have "v = PMapping raw" by (cases v) simp_all
  with strict_value_plain(1) [OF v(1)] have "plain_dict_fields raw" by simp
  then have "plain_dicts (get_key raw ''cases'')"
    by (auto simp: plain_dict_fields_iff split: option.splits dest!: map_of_SomeD)
  moreover have "get_key raw ''cases'' = PSequence cs"
    using h(2) by (auto simp: load_raw_cases_def result_simps split: pyval.splits)
  ultimately have plain: "\<forall>c \<in> set cs. plain_dicts c" by (simp add: plain_dict_items_iff)
  note c = load_cases_Inr [OF h(3) [unfolded st]]
  have "oc = map2 oracle_case [1..<1 + length cs] cs" "cc = map2 challenge_case [1..<1 + length cs] cs"
    and sound: "\<And>k. k < length cs \<Longrightarrow> sound_case (1 + k) (cs ! k)"
    using c by (simp_all del: upt_Suc)
  then show False
    using sound_cases_have_text(1) [OF sound plain] sound_cases_have_text(2) [OF sound plain, of p] h(4)
    by (auto simp: st simp del: upt_Suc)
qed

section \<open>A loaded oracle\<close>

text \<open>Two oracles for the call \<open>average([1, 2])\<close> that expect different results.\<close>

definition demo_oracle :: "int \<Rightarrow> json_text" where
  "demo_oracle r =
     TObj [(''schema_version'', TStr ''guildmind.python-call-oracle/v1''),
       (''cases'', TArr [TObj [(''case_id'', TStr ''case-0001''), (''args'', TArr [TArr [TInt 1, TInt 2]]),
         (''kwargs'', TObj [(''exact'', TBool True)]),
         (''expected'', TObj [(''kind'', TStr ''returned''), (''value'', TInt r)])]])]"

definition demo_loads :: "nat list \<Rightarrow> json_text result" where
  "demo_loads data = (if data = [1] then Inr (demo_oracle 1) else if data = [2] then Inr (demo_oracle 2) else Inl ValueError)"

definition demo_protocol :: "nat \<Rightarrow> python_call_protocol" where
  "demo_protocol k = \<lparr>pp_module = ''stats'', pp_callable_name = ''average'', pp_cases_file = CasesUnreadable,
     pp_sealed_cases_bytes = Some [k]\<rparr>"

definition demo_hash :: "nat list \<Rightarrow> string" where
  "demo_hash bytes = replicate 64 (CHR ''0'')"

lemma demo_bundles_load:
  "\<exists>b. load_python_call_bundle demo_hash demo_loads (demo_protocol 1) 1 = Inr b"
  "\<exists>b. load_python_call_bundle demo_hash demo_loads (demo_protocol 2) 1 = Inr b"
proof -
  have "case load_python_call_bundle demo_hash demo_loads (demo_protocol k) 1 of Inl _ \<Rightarrow> False | Inr _ \<Rightarrow> True"
    if "k = 1 \<or> k = 2" for k
    using that by (elim disjE; hypsubst; code_simp)
  then show "\<exists>b. load_python_call_bundle demo_hash demo_loads (demo_protocol 1) 1 = Inr b"
    "\<exists>b. load_python_call_bundle demo_hash demo_loads (demo_protocol 2) 1 = Inr b"
    by (force split: sum.splits)+
qed

theorem challenge_hides_expected_values_witness:
  "\<exists>b c. load_python_call_bundle demo_hash demo_loads (demo_protocol 1) 1 = Inr b
     \<and> load_python_call_bundle demo_hash demo_loads (demo_protocol 2) 1 = Inr c
     \<and> pb_challenge_bytes b = pb_challenge_bytes c"
proof -
  obtain b c where l: "load_python_call_bundle demo_hash demo_loads (demo_protocol 1) 1 = Inr b"
    "load_python_call_bundle demo_hash demo_loads (demo_protocol 2) 1 = Inr c"
    using demo_bundles_load by blast
  moreover have "questions demo_loads (demo_protocol 1) = questions demo_loads (demo_protocol 2)" by code_simp
  ultimately have "pb_challenge_bytes b = pb_challenge_bytes c"
    using challenge_hides_expected_values [OF l] by (simp add: demo_protocol_def)
  with l show ?thesis by blast
qed

theorem bundle_is_bounded_witness:
  "\<exists>b. load_python_call_bundle demo_hash demo_loads (demo_protocol 1) 1 = Inr b \<and> pb_case_count b = 1
     \<and> length (expected_outcomes demo_loads (demo_protocol 1)) = 1"
proof -
  obtain b where b: "load_python_call_bundle demo_hash demo_loads (demo_protocol 1) 1 = Inr b"
    using demo_bundles_load(1) by blast
  from bundle_is_bounded [OF this]
  have "int (pb_case_count b) = 1" "length (expected_outcomes demo_loads (demo_protocol 1)) = pb_case_count b" by blast+
  with b show ?thesis by simp
qed

theorem bundle_errors_are_configuration_errors_witness:
  "\<exists>e. load_python_call_bundle demo_hash demo_loads (demo_protocol 3) 1 = Inl e \<and> e = FixtureConfigurationError"
proof -
  have "case load_python_call_bundle demo_hash demo_loads (demo_protocol 3) 1 of Inl _ \<Rightarrow> True | Inr _ \<Rightarrow> False"
    by code_simp
  then obtain e where e: "load_python_call_bundle demo_hash demo_loads (demo_protocol 3) 1 = Inl e"
    by (auto split: sum.splits)
  have "demo_loads data = Inl d \<Longrightarrow> d = ValueError" for data d
    by (auto simp: demo_loads_def split: if_splits)
  then have "e = FixtureConfigurationError"
    by (rule bundle_errors_are_configuration_errors [OF _ e])
  with e show ?thesis by blast
qed

end
