(* ===== verification/Py_Regex.thy ===== *)
theory Py_Regex
  imports Guild_Prelude
begin

text \<open>
  The regular expressions of the code, as data. \<open>re.Pattern.fullmatch\<close> succeeds exactly when the whole
  text is in the language of the pattern, so a pattern is a syntax tree, \<open>lang\<close> is its language and
  \<open>fullmatch\<close> decides membership by derivatives. Character classes are lists of characters.
\<close>

datatype regex =
    Empty
  | Epsilon
  | Class string
  | Seq regex regex
  | Alt regex regex
  | Star regex

inductive_set star_lang :: "string set \<Rightarrow> string set" for L where
  star_Nil [intro!]: "[] \<in> star_lang L"
| star_step: "s \<in> L \<Longrightarrow> t \<in> star_lang L \<Longrightarrow> s @ t \<in> star_lang L"

fun lang :: "regex \<Rightarrow> string set" where
  "lang Empty = {}"
| "lang Epsilon = {[]}"
| "lang (Class cs) = {[c] | c. c \<in> set cs}"
| "lang (Seq r s) = {x @ y | x y. x \<in> lang r \<and> y \<in> lang s}"
| "lang (Alt r s) = lang r \<union> lang s"
| "lang (Star r) = star_lang (lang r)"

fun nullable_regex :: "regex \<Rightarrow> bool" where
  "nullable_regex Empty = False"
| "nullable_regex Epsilon = True"
| "nullable_regex (Class cs) = False"
| "nullable_regex (Seq r s) = (nullable_regex r \<and> nullable_regex s)"
| "nullable_regex (Alt r s) = (nullable_regex r \<or> nullable_regex s)"
| "nullable_regex (Star r) = True"

text \<open>Smart constructors that keep the derivatives small.\<close>

fun mk_seq :: "regex \<Rightarrow> regex \<Rightarrow> regex" where
  "mk_seq Empty s = Empty"
| "mk_seq Epsilon s = s"
| "mk_seq r s = Seq r s"

fun mk_alt :: "regex \<Rightarrow> regex \<Rightarrow> regex" where
  "mk_alt Empty s = s"
| "mk_alt r Empty = r"
| "mk_alt r s = (if r = s then r else Alt r s)"

fun deriv :: "char \<Rightarrow> regex \<Rightarrow> regex" where
  "deriv c Empty = Empty"
| "deriv c Epsilon = Empty"
| "deriv c (Class cs) = (if c \<in> set cs then Epsilon else Empty)"
| "deriv c (Seq r s) =
     (if nullable_regex r then mk_alt (mk_seq (deriv c r) s) (deriv c s) else mk_seq (deriv c r) s)"
| "deriv c (Alt r s) = mk_alt (deriv c r) (deriv c s)"
| "deriv c (Star r) = mk_seq (deriv c r) (Star r)"

definition fullmatch :: "regex \<Rightarrow> string \<Rightarrow> bool" where
  "fullmatch r s = nullable_regex (fold deriv s r)"

section \<open>Repetitions and literals\<close>

definition Opt :: "regex \<Rightarrow> regex" where
  "Opt r = Alt Epsilon r"

definition Plus :: "regex \<Rightarrow> regex" where
  "Plus r = Seq r (Star r)"

fun Repeat :: "nat \<Rightarrow> regex \<Rightarrow> regex" where
  "Repeat 0 r = Epsilon"
| "Repeat (Suc n) r = Seq r (Repeat n r)"

text \<open>\<open>r{0,n}\<close>\<close>

fun Up_To :: "nat \<Rightarrow> regex \<Rightarrow> regex" where
  "Up_To 0 r = Epsilon"
| "Up_To (Suc n) r = Alt Epsilon (Seq r (Up_To n r))"

fun Literal :: "string \<Rightarrow> regex" where
  "Literal [] = Epsilon"
| "Literal (c # cs) = Seq (Class [c]) (Literal cs)"

section \<open>Matching decides the language\<close>

lemma lang_mk_seq [simp]: "lang (mk_seq r s) = lang (Seq r s)"
  by (cases r) auto

lemma lang_mk_alt [simp]: "lang (mk_alt r s) = lang r \<union> lang s"
  by (cases r; cases s) auto

lemma nullable_regex_lang: "nullable_regex r \<longleftrightarrow> [] \<in> lang r"
  by (induction r) auto

lemma star_lang_Cons:
  "c # w \<in> star_lang L \<longleftrightarrow> (\<exists>x y. c # x \<in> L \<and> y \<in> star_lang L \<and> w = x @ y)"
proof
  assume "c # w \<in> star_lang L"
  then show "\<exists>x y. c # x \<in> L \<and> y \<in> star_lang L \<and> w = x @ y"
  proof (induction "c # w" arbitrary: w rule: star_lang.induct)
    case (star_step s t)
    then show ?case by (cases s) auto
  qed
next
  assume "\<exists>x y. c # x \<in> L \<and> y \<in> star_lang L \<and> w = x @ y"
  then show "c # w \<in> star_lang L" using star_step [of "c # _" L] by fastforce
qed

lemma lang_deriv: "w \<in> lang (deriv c r) \<longleftrightarrow> c # w \<in> lang r"
proof (induction r arbitrary: w)
  case (Seq r s)
  have "c # w \<in> lang (Seq r s) \<longleftrightarrow>
      (\<exists>x y. w = x @ y \<and> c # x \<in> lang r \<and> y \<in> lang s) \<or> ([] \<in> lang r \<and> c # w \<in> lang s)"
    by (auto simp: Cons_eq_append_conv)
  with Seq show ?case by (auto simp: nullable_regex_lang)
next
  case (Star r)
  then show ?case by (auto simp: star_lang_Cons)
qed auto

lemma fullmatch_lang: "fullmatch r s \<longleftrightarrow> s \<in> lang r"
  unfolding fullmatch_def
  by (induction s arbitrary: r) (simp_all add: nullable_regex_lang lang_deriv)

section \<open>Languages of the derived forms\<close>

lemma lang_Opt [simp]: "lang (Opt r) = insert [] (lang r)"
  by (simp add: Opt_def)

lemma lang_Literal [simp]: "lang (Literal s) = {s}"
  by (induction s) auto

lemma lang_Repeat_length: "w \<in> lang (Repeat n (Class cs)) \<longleftrightarrow> length w = n \<and> set w \<subseteq> set cs"
proof (induction n arbitrary: w)
  case (Suc n)
  have "w \<in> lang (Repeat (Suc n) (Class cs)) \<longleftrightarrow> (\<exists>c v. w = c # v \<and> c \<in> set cs \<and> v \<in> lang (Repeat n (Class cs)))"
    by (auto simp: append_eq_Cons_conv) (metis append_Cons append_Nil)
  with Suc show ?case by (cases w) auto
qed auto

lemma star_lang_subset:
  assumes "w \<in> star_lang L" and "\<And>x. x \<in> L \<Longrightarrow> set x \<subseteq> A"
  shows "set w \<subseteq> A"
  using assms by (induction rule: star_lang.induct) auto

text \<open>The characters a pattern can match.\<close>

fun alphabet :: "regex \<Rightarrow> char set" where
  "alphabet (Class cs) = set cs"
| "alphabet (Seq r s) = alphabet r \<union> alphabet s"
| "alphabet (Alt r s) = alphabet r \<union> alphabet s"
| "alphabet (Star r) = alphabet r"
| "alphabet _ = {}"

lemma lang_alphabet: "w \<in> lang r \<Longrightarrow> set w \<subseteq> alphabet r"
proof (induction r arbitrary: w)
  case (Star r)
  then show ?case using star_lang_subset [of w "lang r" "alphabet r"] by auto
qed fastforce+

end
