(* ===== verification/Sandbox_Contract.thy ===== *)
theory Sandbox_Contract
  imports Serialization Py_Path Py_Regex
begin

text \<open>
  Model of \<open>src/src/guildmind/sandbox/base.py\<close>: the request that a sandbox adapter may be given. The
  \<open>__post_init__\<close> checks of each dataclass are one function that returns the normalized instance or
  raises \<^const>\<open>SandboxConfigurationError\<close>. Fields whose type the code checks at run time are
  \<^typ>\<open>pyval\<close>; a host path is the text of the path.
\<close>

section \<open>Patterns\<close>

definition lower_alnum :: string where
  "lower_alnum = ''abcdefghijklmnopqrstuvwxyz0123456789''"

definition ident_start :: string where
  "ident_start = ''ABCDEFGHIJKLMNOPQRSTUVWXYZabcdefghijklmnopqrstuvwxyz_''"

definition digits :: string where
  "digits = ''0123456789''"

definition EXECUTION_ID :: regex where
  "EXECUTION_ID = Seq (Class lower_alnum) (Up_To 62 (Class (lower_alnum @ ''_.-'')))"

definition ENVIRONMENT_KEY :: regex where
  "ENVIRONMENT_KEY = Seq (Class ident_start) (Star (Class (ident_start @ digits)))"

text \<open>\<open>[a-z0-9]+(?:[._-][a-z0-9]+)*\<close>\<close>

definition name_component :: regex where
  "name_component =
     Seq (Plus (Class lower_alnum)) (Star (Seq (Class ''._-'') (Plus (Class lower_alnum))))"

text \<open>\<open>[a-z0-9](?:[a-z0-9.-]*[a-z0-9])?(?::[0-9]+)?/\<close>\<close>

definition registry_host :: regex where
  "registry_host =
     Seq (Class lower_alnum)
      (Seq (Opt (Seq (Star (Class (lower_alnum @ ''.-''))) (Class lower_alnum)))
       (Seq (Opt (Seq (Literal '':'') (Plus (Class digits)))) (Literal ''/'')))"

definition DIGEST_IMAGE :: regex where
  "DIGEST_IMAGE =
     Seq (Seq (Opt registry_host) (Seq (Star (Seq name_component (Literal ''/''))) name_component))
      (Seq (Literal ''@sha256:'') (Repeat 64 (Class ''0123456789abcdef'')))"

definition RESERVED_MOUNT_ROOTS :: "string list" where
  "RESERVED_MOUNT_ROOTS = [''/dev'', ''/proc'', ''/sys'', ''/tmp'', ''/workspace'']"

definition validate_image_reference :: "string \<Rightarrow> unit result" where
  "validate_image_reference reference = require (fullmatch DIGEST_IMAGE reference) SandboxConfigurationError"

section \<open>Limits\<close>

definition require_positive_int :: "pyval \<Rightarrow> unit result" where
  "require_positive_int v =
     (case v of PInt i \<Rightarrow> require (0 < i) SandboxConfigurationError | _ \<Rightarrow> Inl SandboxConfigurationError)"

text \<open>\<open>math.isfinite\<close> converts an integer to a float, which overflows for integers out of range.\<close>

definition require_positive_float :: "pyval \<Rightarrow> unit result" where
  "require_positive_float v =
     (case v of
        PInt i \<Rightarrow> if to_float (of_int i) = None then Inl OverflowError
                  else require (0 < i) SandboxConfigurationError
      | PFloat x \<Rightarrow> (case x of None \<Rightarrow> Inl SandboxConfigurationError
                     | Some r \<Rightarrow> require (0 < r) SandboxConfigurationError)
      | _ \<Rightarrow> Inl SandboxConfigurationError)"

record sandbox_limits =
  sl_cpu_cores :: pyval
  sl_memory_bytes :: pyval
  sl_pids :: pyval
  sl_workspace_bytes :: pyval
  sl_temporary_bytes :: pyval
  sl_output_bytes :: pyval
  sl_wall_time_seconds :: pyval

definition SandboxLimits :: "sandbox_limits \<Rightarrow> sandbox_limits result" where
  "SandboxLimits l =
     rbind (require_positive_float (sl_cpu_cores l)) (\<lambda>_.
     rbind (require_positive_int (sl_memory_bytes l)) (\<lambda>_.
     rbind (require_positive_int (sl_pids l)) (\<lambda>_.
     rbind (require_positive_int (sl_workspace_bytes l)) (\<lambda>_.
     rbind (require_positive_int (sl_temporary_bytes l)) (\<lambda>_.
     rbind (require_positive_int (sl_output_bytes l)) (\<lambda>_.
     rbind (require_positive_float (sl_wall_time_seconds l)) (\<lambda>_.
     Inr l)))))))"

section \<open>Mounts\<close>

text \<open>\<open>"//" in value\<close>\<close>

fun has_double_slash :: "string \<Rightarrow> bool" where
  "has_double_slash (a # b # s) = (a = slash \<and> b = slash \<or> has_double_slash (b # s))"
| "has_double_slash _ = False"

definition validate_container_path :: "string \<Rightarrow> unit result" where
  "validate_container_path v =
     rbind (require (\<not> (v = [] \<or> CHR 0x00 \<in> set v \<or> CHR 0x0A \<in> set v \<or> CHR '','' \<in> set v)) SandboxConfigurationError) (\<lambda>_.
     rbind (require (\<not> (\<not> is_absolute v \<or> v = ''/'' \<or> has_double_slash v)) SandboxConfigurationError) (\<lambda>_.
     require (\<not> list_ex (\<lambda>p. p \<in> {'''', ''.'', ''..''}) (tl (split_on slash v))) SandboxConfigurationError))"

definition overlaps_root :: "string \<Rightarrow> string \<Rightarrow> bool" where
  "overlaps_root target reserved = (target = reserved \<or> starts_with (reserved @ ''/'') target)"

record sandbox_mount =
  sm_source :: string
  sm_target :: string

definition SandboxMount :: "sandbox_mount \<Rightarrow> sandbox_mount result" where
  "SandboxMount m =
     rbind (require (is_absolute (sm_source m)) SandboxConfigurationError) (\<lambda>_.
     rbind (require (\<not> list_ex (\<lambda>c. c \<in> set (sm_source m)) [CHR 0x00, CHR 0x0A, CHR '','']) SandboxConfigurationError) (\<lambda>_.
     rbind (validate_container_path (sm_target m)) (\<lambda>_.
     rbind (require (\<not> list_ex (overlaps_root (sm_target m)) RESERVED_MOUNT_ROOTS) SandboxConfigurationError) (\<lambda>_.
     Inr m))))"

section \<open>Requests\<close>

record sandbox_request =
  sr_execution_id :: string
  sr_image :: string
  sr_argv :: "string list"
  sr_limits :: sandbox_limits
  sr_working_directory :: string
  sr_environment :: "(string \<times> pyval) list"
  sr_mounts :: "sandbox_mount list"

definition check_argv :: "string list \<Rightarrow> unit result" where
  "check_argv argv =
     rbind (require (argv \<noteq> []) SandboxConfigurationError) (\<lambda>_.
     rbind (require (starts_with ''/'' (hd argv)) SandboxConfigurationError) (\<lambda>_.
     require (\<not> list_ex (\<lambda>a. a = [] \<or> CHR 0x00 \<in> set a) argv) SandboxConfigurationError))"

definition check_environment_entry :: "string \<times> pyval \<Rightarrow> unit result" where
  "check_environment_entry kv =
     rbind (require (fullmatch ENVIRONMENT_KEY (fst kv)) SandboxConfigurationError) (\<lambda>_.
     case snd kv of
       PStr s \<Rightarrow> require (CHR 0x00 \<notin> set s) SandboxConfigurationError
     | _ \<Rightarrow> Inl SandboxConfigurationError)"

definition normalized_environment :: "(string \<times> pyval) list \<Rightarrow> pyval dict result" where
  "normalized_environment env =
     rfold (\<lambda>kv d. rbind (check_environment_entry kv) (\<lambda>_. Inr (dict_set (fst kv) (snd kv) d))) env []"

text \<open>The pairwise test of the mount targets: no two are equal, none is inside another.\<close>

fun targets_disjoint :: "string list \<Rightarrow> bool" where
  "targets_disjoint [] = True"
| "targets_disjoint (target # others) =
     (\<not> list_ex (\<lambda>other. starts_with (other @ ''/'') target \<or> starts_with (target @ ''/'') other) others
      \<and> targets_disjoint others)"

definition SandboxRequest :: "sandbox_request \<Rightarrow> sandbox_request result" where
  "SandboxRequest r =
     rbind (require (fullmatch EXECUTION_ID (sr_execution_id r)) SandboxConfigurationError) (\<lambda>_.
     rbind (validate_image_reference (sr_image r)) (\<lambda>_.
     rbind (check_argv (sr_argv r)) (\<lambda>_.
     rbind (validate_container_path (sr_working_directory r)) (\<lambda>_.
     rbind (require (sr_working_directory r = ''/workspace'' \<or> starts_with ''/workspace/'' (sr_working_directory r))
       SandboxConfigurationError) (\<lambda>_.
     rbind (normalized_environment (sr_environment r)) (\<lambda>env.
     let targets = map sm_target (sr_mounts r) in
     rbind (require (length targets = card (set targets)) SandboxConfigurationError) (\<lambda>_.
     rbind (require (targets_disjoint targets) SandboxConfigurationError) (\<lambda>_.
     Inr (r\<lparr>sr_environment := env\<rparr>)))))))))"

section \<open>Results\<close>

datatype sandbox_status = EXITED | SANDBOX_TIMED_OUT | OUTPUT_EXHAUSTED | OOM_KILLED | SANDBOX_INFRASTRUCTURE_ERROR

record sandbox_result =
  sx_execution_id :: string
  sx_status :: sandbox_status
  sx_exit_code :: "int option"
  sx_stdout :: "nat list"
  sx_stderr :: "nat list"
  sx_output_truncated :: bool
  sx_container_id :: "string option"
  sx_image_id :: "string option"
  sx_diagnostic :: "string option"

definition SandboxResult :: "sandbox_result \<Rightarrow> sandbox_result result" where
  "SandboxResult r =
     (if sx_status r = EXITED \<and> sx_exit_code r = None then Inl ValueError
      else if sx_status r = OUTPUT_EXHAUSTED \<and> \<not> sx_output_truncated r then Inl ValueError
      else Inr r)"

section \<open>Mounts are isolated\<close>

text \<open>A path is at or below a base, as texts of normalized absolute paths.\<close>

definition inside :: "string \<Rightarrow> string \<Rightarrow> bool" where
  "inside path base = (path = base \<or> starts_with (base @ ''/'') path)"

lemma starts_with_iff: "starts_with p s \<longleftrightarrow> (\<exists>t. s = p @ t)"
  unfolding starts_with_def by (metis append_eq_conv_conj)

lemma inside_comparable:
  assumes "inside p a" and "inside p b"
  shows "a = b \<or> starts_with (a @ ''/'') b \<or> starts_with (b @ ''/'') a"
proof -
  have ext: "\<exists>t. p @ ''/'' = (r @ ''/'') @ t" if "inside p r" for r
    using that by (auto simp: inside_def starts_with_iff)
  obtain t u where tu: "(a @ ''/'') @ t = (b @ ''/'') @ u" using ext [OF assms(1)] ext [OF assms(2)] by metis
  have "(\<exists>v. a @ ''/'' = (b @ ''/'') @ v) \<or> (\<exists>v. b @ ''/'' = (a @ ''/'') @ v)"
    using tu by (metis append_eq_append_conv2)
  moreover have "x = y \<or> starts_with (y @ ''/'') x" if "x @ ''/'' = (y @ ''/'') @ v" for x y v
  proof (cases v rule: rev_cases)
    case (snoc w c)
    with that have "x = (y @ ''/'') @ w" by (metis append_assoc append_same_eq butlast_snoc)
    then show ?thesis by (simp only: starts_with_iff) blast
  qed (use that in simp)
  ultimately show ?thesis by blast
qed

lemma targets_disjoint_nth:
  "targets_disjoint ts \<Longrightarrow> i < j \<Longrightarrow> j < length ts \<Longrightarrow>
     \<not> starts_with (ts ! j @ ''/'') (ts ! i) \<and> \<not> starts_with (ts ! i @ ''/'') (ts ! j)"
proof (induction ts arbitrary: i j)
  case (Cons t ts)
  then show ?case by (cases i; cases j) (auto simp: list_ex_iff)
qed simp

lemma SandboxRequest_Inr:
  assumes "SandboxRequest r = Inr q"
  obtains env where "q = r\<lparr>sr_environment := env\<rparr>" "normalized_environment (sr_environment r) = Inr env"
    "fullmatch EXECUTION_ID (sr_execution_id r)" "fullmatch DIGEST_IMAGE (sr_image r)"
    "check_argv (sr_argv r) = Inr ()" "validate_container_path (sr_working_directory r) = Inr ()"
    "inside (sr_working_directory r) ''/workspace''"
    "distinct (map sm_target (sr_mounts r))" "targets_disjoint (map sm_target (sr_mounts r))"
proof -
  from assms obtain env where "q = r\<lparr>sr_environment := env\<rparr>" "normalized_environment (sr_environment r) = Inr env"
    "fullmatch EXECUTION_ID (sr_execution_id r)" "fullmatch DIGEST_IMAGE (sr_image r)"
    "check_argv (sr_argv r) = Inr ()" "validate_container_path (sr_working_directory r) = Inr ()"
    "sr_working_directory r = ''/workspace'' \<or> starts_with ''/workspace/'' (sr_working_directory r)"
    "length (map sm_target (sr_mounts r)) = card (set (map sm_target (sr_mounts r)))"
    "targets_disjoint (map sm_target (sr_mounts r))"
    unfolding SandboxRequest_def Let_def validate_image_reference_def rbind_eq_Inr require_eq_Inr by auto
  with that show thesis by (simp add: inside_def card_distinct)
qed

lemma SandboxMount_Inr:
  assumes "SandboxMount m = Inr m'"
  shows "m' = m" and "validate_container_path (sm_target m) = Inr ()" and "is_absolute (sm_source m)"
    and "\<forall>r \<in> set RESERVED_MOUNT_ROOTS. \<not> overlaps_root (sm_target m) r"
  using assms unfolding SandboxMount_def rbind_eq_Inr require_eq_Inr by (auto simp: list_ex_iff)

lemma container_path_absolute:
  assumes "validate_container_path v = Inr ()"
  shows "\<exists>t. v = slash # t \<and> t \<noteq> []"
proof -
  have h: "is_absolute v" "v \<noteq> ''/''"
    using assms by (auto simp: validate_container_path_def result_simps)
  then have "starts_with ''/'' v" by (auto simp: is_absolute_def posix_root_def split: if_splits)
  with h(2) show ?thesis by (cases v) (auto simp: starts_with_def slash_def)
qed

lemma reserved_roots_top_level:
  "r \<in> set RESERVED_MOUNT_ROOTS \<Longrightarrow> \<exists>n. r = slash # n \<and> slash \<notin> set n"
  by (auto simp: RESERVED_MOUNT_ROOTS_def slash_def)

text \<open>C30: the mounts of an accepted request are isolated. No path of the container lies in two mounts, and
  none lies both in a mount and in one of the trees the sandbox reserves for the kernel, the
  temporary files and the workspace; so a read-only mount can neither hide another one nor replace
  anything the sandbox itself provides.\<close>

theorem mounts_are_isolated:
  assumes "SandboxRequest r = Inr q" and "\<forall>m \<in> set (sr_mounts r). SandboxMount m = Inr m"
  shows "sr_mounts q = sr_mounts r
    \<and> (\<forall>i j path. i < j \<and> j < length (sr_mounts q) \<longrightarrow>
        \<not> (inside path (sm_target (sr_mounts q ! i)) \<and> inside path (sm_target (sr_mounts q ! j))))
    \<and> (\<forall>m \<in> set (sr_mounts q). \<forall>base \<in> set RESERVED_MOUNT_ROOTS. \<forall>path.
        \<not> (inside path (sm_target m) \<and> inside path base))"
proof -
  let ?ts = "map sm_target (sr_mounts r)"
  from assms(1) have q: "sr_mounts q = sr_mounts r" and d: "distinct ?ts" "targets_disjoint ?ts"
    by (auto elim: SandboxRequest_Inr)
  have "\<not> (inside path (sm_target (sr_mounts r ! i)) \<and> inside path (sm_target (sr_mounts r ! j)))"
    if ij: "i < j" "j < length (sr_mounts r)" for i j path
  proof
    assume "inside path (sm_target (sr_mounts r ! i)) \<and> inside path (sm_target (sr_mounts r ! j))"
    then have "inside path (?ts ! i)" "inside path (?ts ! j)" using ij by simp_all
    moreover have "?ts ! i \<noteq> ?ts ! j" using nth_eq_iff_index_eq [OF d(1), of i j] ij by simp
    ultimately show False
      using inside_comparable targets_disjoint_nth [OF d(2) ij(1)] ij(2) by (metis length_map)
  qed
  moreover have "\<not> (inside path (sm_target m) \<and> inside path base)"
    if m: "m \<in> set (sr_mounts r)" "base \<in> set RESERVED_MOUNT_ROOTS" for m base path
  proof
    assume "inside path (sm_target m) \<and> inside path base"
    then have c: "sm_target m = base \<or> starts_with (sm_target m @ ''/'') base \<or> starts_with (base @ ''/'') (sm_target m)"
      using inside_comparable by blast
    have "SandboxMount m = Inr m" using assms(2) m(1) by blast
    note v = SandboxMount_Inr [OF this]
    have "\<not> overlaps_root (sm_target m) base" using v(4) m(2) by blast
    with c have "starts_with (sm_target m @ ''/'') base" by (simp add: overlaps_root_def)
    moreover obtain t where "sm_target m = slash # t" using container_path_absolute [OF v(2)] by blast
    moreover obtain n where "base = slash # n" "slash \<notin> set n" using reserved_roots_top_level [OF m(2)] by blast
    ultimately show False by (auto simp: starts_with_iff slash_def)
  qed
  ultimately show ?thesis unfolding q by blast
qed

text \<open>An accepted image reference is pinned: it is a repository name followed by \<open>@sha256:\<close> and a full
  lowercase digest, and the name, which is not empty, holds neither a second \<open>@\<close> nor a character
  outside lowercase letters, digits and the separators; no mutable tag can stand in for the digest.\<close>

theorem image_reference_is_pinned:
  assumes "validate_image_reference reference = Inr ()"
  shows "\<exists>name digest. reference = name @ ''@sha256:'' @ digest \<and> is_lower_sha256 digest \<and> name \<noteq> []
    \<and> (\<forall>c \<in> set name. c \<in> set ''abcdefghijklmnopqrstuvwxyz0123456789./:_-'')"
proof -
  let ?n = "Seq (Opt registry_host) (Seq (Star (Seq name_component (Literal ''/''))) name_component)"
  have "reference \<in> lang DIGEST_IMAGE"
    using assms by (simp add: validate_image_reference_def require_eq_Inr fullmatch_lang)
  then obtain name digest where nd: "reference = name @ ''@sha256:'' @ digest" "name \<in> lang ?n"
    "digest \<in> lang (Repeat 64 (Class ''0123456789abcdef''))"
    unfolding DIGEST_IMAGE_def lang.simps(4) [of ?n] lang.simps(4) [of "Literal ''@sha256:''"] lang_Literal by blast
  have "is_lower_sha256 digest"
    using nd(3) unfolding lang_Repeat_length is_lower_sha256_def list_all_iff is_hex_digit_def by blast
  moreover have "alphabet ?n \<subseteq> set ''abcdefghijklmnopqrstuvwxyz0123456789./:_-''"
    by code_simp
  then have "set name \<subseteq> set ''abcdefghijklmnopqrstuvwxyz0123456789./:_-''"
    using lang_alphabet [OF nd(2)] by blast
  moreover have "\<not> nullable_regex ?n" by (simp add: name_component_def Plus_def)
  then have "name \<noteq> []" using nd(2) unfolding nullable_regex_lang by metis
  ultimately show ?thesis using nd(1) by blast
qed

section \<open>An accepted request\<close>

definition demo_image :: string where
  "demo_image = ''ghcr.io/guildmind/worker@sha256:'' @ replicate 64 (CHR ''a'')"

definition demo_request :: sandbox_request where
  "demo_request =
     \<lparr>sr_execution_id = ''run-1'', sr_image = demo_image, sr_argv = [''/usr/bin/python3'', ''-m'', ''worker''],
      sr_limits = \<lparr>sl_cpu_cores = PFloat (Some 1), sl_memory_bytes = PInt 1048576, sl_pids = PInt 16,
        sl_workspace_bytes = PInt 4096, sl_temporary_bytes = PInt 4096, sl_output_bytes = PInt 4096,
        sl_wall_time_seconds = PInt 5\<rparr>,
      sr_working_directory = ''/workspace'', sr_environment = [(''PATH'', PStr ''/usr/bin'')],
      sr_mounts = [\<lparr>sm_source = ''/srv/challenge'', sm_target = ''/challenge''\<rparr>,
        \<lparr>sm_source = ''/srv/input'', sm_target = ''/input/data''\<rparr>]\<rparr>"

lemma demo_request_accepted: "\<exists>q. SandboxRequest demo_request = Inr q"
  "\<forall>m \<in> set (sr_mounts demo_request). SandboxMount m = Inr m"
proof -
  have "case SandboxRequest demo_request of Inl _ \<Rightarrow> False | Inr _ \<Rightarrow> True" by code_simp
  then show "\<exists>q. SandboxRequest demo_request = Inr q" by (auto split: sum.splits)
qed code_simp

theorem mounts_are_isolated_witness:
  "\<exists>q. SandboxRequest demo_request = Inr q
     \<and> (\<forall>path. \<not> (inside path (sm_target (sr_mounts q ! 0)) \<and> inside path (sm_target (sr_mounts q ! 1))))"
proof -
  obtain q where q: "SandboxRequest demo_request = Inr q" using demo_request_accepted(1) by blast
  note m = mounts_are_isolated [OF q demo_request_accepted(2)]
  have "(0 :: nat) < 1 \<and> 1 < length (sr_mounts demo_request)" by (simp add: demo_request_def)
  with m q show ?thesis by metis
qed

theorem image_reference_is_pinned_witness:
  "\<exists>name digest. demo_image = name @ ''@sha256:'' @ digest \<and> is_lower_sha256 digest"
proof -
  have "validate_image_reference demo_image = Inr ()" by code_simp
  from image_reference_is_pinned [OF this] show ?thesis by blast
qed

end
