(* ===== verification/Artifact_Audit.thy ===== *)
theory Artifact_Audit
  imports Ledger Py_Path "HOL-Library.Product_Lexorder" "HOL-Library.AList"
begin

text \<open>
  Model of \<open>src/src/guildmind/storage/integrity.py\<close>: the audit that follows the references of all
  verified run roots through the content-addressed artifact directory and then takes an inventory
  of that directory.

  The directory is seen through a \<open>cas_view\<close>: what \<open>lstat\<close>, \<open>open\<close> with the reads that follow it, and
  \<open>scandir\<close> answer for each path below the store, every answer an arbitrary one; a path is the
  list of its components. Errors carry the raw error number, which may be missing. Parsing the two
  structured artifacts (\<open>model_validate_json\<close> of pydantic) is a parameter, the canonical form they must
  have is not. SHA-256 is the parameter \<open>sha\<close>.
\<close>

section \<open>The view of the store\<close>

datatype file_type = FDirectory | FRegular | FSymlink | FSpecial

record stat_result =
  st_type :: file_type
  st_size :: int
  st_nlink :: int

datatype lstat_result = LstatMissing | LstatError "int option" | Lstat stat_result

text \<open>An opened file: its \<open>fstat\<close>, the bytes that reading delivers, and the error that ends the reading,
  if it is not the end of the file.\<close>

datatype open_result = OpenError "int option" | Opened stat_result "nat list" "int option option"

datatype scan_entry = RawEntry string | NamedEntry string lstat_result

text \<open>What scanning a directory yields, and the error that ends it, if there is one.\<close>

type_synonym scan_result = "scan_entry list \<times> int option option"

record cas_view =
  cv_root_identity_ok :: bool
  cv_root_absolute :: bool
  cv_ancestors :: "lstat_result list"
  cv_lstat :: "string list \<Rightarrow> lstat_result"
  cv_open :: "string list \<Rightarrow> open_result"
  cv_scandir :: "string list \<Rightarrow> scan_result"

definition EIO :: int where "EIO = 5"
definition ENOENT :: int where "ENOENT = 2"
definition EINVAL :: int where "EINVAL = 22"
definition ELOOP :: int where "ELOOP = 40"

definition errno_of :: "int option \<Rightarrow> int" where
  "errno_of e = (case e of Some n \<Rightarrow> if 0 \<le> n then n else EIO | None \<Rightarrow> EIO)"

definition is_directory :: "stat_result \<Rightarrow> bool" where
  "is_directory m = (st_type m = FDirectory)"

definition is_regular :: "stat_result \<Rightarrow> bool" where
  "is_regular m = (st_type m = FRegular)"

definition is_symlink :: "stat_result \<Rightarrow> bool" where
  "is_symlink m = (st_type m = FSymlink)"

section \<open>Limits\<close>

definition MAX_ROOTS :: int where "MAX_ROOTS = 4096"
definition MAX_REACHABLE_REFERENCES :: int where "MAX_REACHABLE_REFERENCES = 16384"
definition MAX_INVENTORY_ENTRIES :: int where "MAX_INVENTORY_ENTRIES = 65536"
definition MAX_ARTIFACT_BYTES :: int where "MAX_ARTIFACT_BYTES = 268435456"
definition MAX_STRUCTURED_BYTES :: int where "MAX_STRUCTURED_BYTES = 8388608"
definition MAX_TOTAL_HASHED_BYTES :: int where "MAX_TOTAL_HASHED_BYTES = 1073741824"
definition READ_CHUNK_BYTES :: int where "READ_CHUNK_BYTES = 65536"

definition TASK_MEDIA_TYPE :: string where
  "TASK_MEDIA_TYPE = ''application/vnd.guildmind.task+json''"

definition EVALUATION_MEDIA_TYPE :: string where
  "EVALUATION_MEDIA_TYPE = ''application/vnd.guildmind.evaluation+json''"

section \<open>Findings\<close>

datatype finding_kind =
    MISSING_REFERENCED
  | CORRUPT_REFERENCED
  | VALID_FINALIZED_ORPHAN
  | CORRUPT_FINALIZED_ORPHAN
  | TEMP_ORPHAN
  | NONCANONICAL_ENTRY
  | HARDLINK
  | SYMLINK
  | SPECIAL_FILE
  | SCAN_ERROR
  | LIMIT_EXCEEDED

fun finding_value :: "finding_kind \<Rightarrow> string" where
  "finding_value MISSING_REFERENCED = ''missing_referenced''"
| "finding_value CORRUPT_REFERENCED = ''corrupt_referenced''"
| "finding_value VALID_FINALIZED_ORPHAN = ''valid_finalized_orphan''"
| "finding_value CORRUPT_FINALIZED_ORPHAN = ''corrupt_finalized_orphan''"
| "finding_value TEMP_ORPHAN = ''temp_orphan''"
| "finding_value NONCANONICAL_ENTRY = ''noncanonical_entry''"
| "finding_value HARDLINK = ''hardlink''"
| "finding_value SYMLINK = ''symlink''"
| "finding_value SPECIAL_FILE = ''special_file''"
| "finding_value SCAN_ERROR = ''scan_error''"
| "finding_value LIMIT_EXCEEDED = ''limit_exceeded''"

record artifact_owner =
  ao_run_id :: string
  ao_path :: "string list"

definition make_owner :: "string \<Rightarrow> string list \<Rightarrow> artifact_owner result" where
  "make_owner run_id path =
     (if run_id = [] \<or> py_strip run_id = [] \<or> path = [] \<or> list_ex (\<lambda>p. py_strip p = []) path
      then Inl ValidationError else Inr \<lparr>ao_run_id = run_id, ao_path = path\<rparr>)"

definition owner_key :: "artifact_owner \<Rightarrow> string \<times> string list" where
  "owner_key o1 = (ao_run_id o1, ao_path o1)"

text \<open>A set of owners is a list; \<open>tuple(sorted(owners, key=_owner_key))\<close> is \<open>sorted_owners\<close>.\<close>

definition sorted_owners :: "artifact_owner list \<Rightarrow> artifact_owner list" where
  "sorted_owners os = sort_key owner_key (remdups os)"

record finding_key =
  fk_kind :: finding_kind
  fk_relative_path :: string
  fk_expected_sha256 :: "string option"
  fk_observed_sha256 :: "string option"
  fk_size_bytes :: "int option"
  fk_detail :: "string option"
  fk_errno :: "int option"

type_synonym finding_builders = "(finding_key \<times> artifact_owner list) list"

text \<open>\<open>_FindingBuilders.add\<close>: the owners of findings with the same key are merged.\<close>

fun add_finding :: "finding_key \<Rightarrow> artifact_owner list \<Rightarrow> finding_builders \<Rightarrow> finding_builders" where
  "add_finding k os [] = [(k, os)]"
| "add_finding k os ((k', os') # fs) =
     (if k = k' then (k', os' @ os) # fs else (k', os') # add_finding k os fs)"

definition simple_finding :: "finding_kind \<Rightarrow> string \<Rightarrow> int option \<Rightarrow> string option \<Rightarrow> finding_key" where
  "simple_finding fkind path nbytes detail =
     \<lparr>fk_kind = fkind, fk_relative_path = path, fk_expected_sha256 = None, fk_observed_sha256 = None,
      fk_size_bytes = nbytes, fk_detail = detail, fk_errno = None\<rparr>"

record artifact_finding =
  af_key :: finding_key
  af_owners :: "artifact_owner list"

definition finding_order ::
    "artifact_finding \<Rightarrow> string \<times> string \<times> string \<times> string \<times> int \<times> string \<times> int \<times> (string \<times> string list) list" where
  "finding_order f =
     (let k = af_key f; text = (\<lambda>x. case x of None \<Rightarrow> '''' | Some s \<Rightarrow> s);
          number = (\<lambda>x. case x of None \<Rightarrow> - 1 | Some n \<Rightarrow> n) in
      (finding_value (fk_kind k), fk_relative_path k, text (fk_expected_sha256 k),
       text (fk_observed_sha256 k), number (fk_size_bytes k), text (fk_detail k), number (fk_errno k),
       map owner_key (af_owners f)))"

definition freeze :: "finding_builders \<Rightarrow> artifact_finding list" where
  "freeze fs = sort_key finding_order (map (\<lambda>(k, os). \<lparr>af_key = k, af_owners = sorted_owners os\<rparr>) fs)"

section \<open>The audit records\<close>

record reachable_artifact =
  ra_sha256 :: string
  ra_size_bytes :: int
  ra_storage_ref :: string
  ra_media_types :: "string list"
  ra_owners :: "artifact_owner list"
  ra_bytes_verified :: bool

definition canonical_relative_path :: "string \<Rightarrow> string" where
  "canonical_relative_path digest = ''sha256/'' @ take 2 digest @ ''/'' @ digest"

definition valid_reachable :: "reachable_artifact \<Rightarrow> bool" where
  "valid_reachable a =
     (is_lower_sha256 (ra_sha256 a) \<and> 0 \<le> ra_size_bytes a \<and> ra_storage_ref a \<noteq> []
      \<and> ra_storage_ref a = canonical_relative_path (ra_sha256 a)
      \<and> ra_media_types a = sort (remdups (ra_media_types a))
      \<and> ra_media_types a \<noteq> [] \<and> list_all (\<lambda>m. py_strip m \<noteq> []) (ra_media_types a)
      \<and> ra_owners a = sorted_owners (ra_owners a) \<and> ra_owners a \<noteq> [])"

definition valid_finding :: "artifact_finding \<Rightarrow> bool" where
  "valid_finding f =
     (fk_relative_path (af_key f) \<noteq> [] \<and> valid_opt is_lower_sha256 (fk_expected_sha256 (af_key f))
      \<and> valid_opt is_lower_sha256 (fk_observed_sha256 (af_key f))
      \<and> valid_opt ((\<le>) 0) (fk_size_bytes (af_key f)) \<and> valid_opt ((\<le>) 0) (fk_errno (af_key f))
      \<and> af_owners f = sorted_owners (af_owners f)
      \<and> (fk_kind (af_key f) \<in> {MISSING_REFERENCED, CORRUPT_REFERENCED} \<longrightarrow> af_owners f \<noteq> []))"

record artifact_audit =
  aa_snapshot_sha256 :: string
  aa_reachable :: "reachable_artifact list"
  aa_findings :: "artifact_finding list"
  aa_complete :: bool
  aa_quarantine_allowed :: bool

definition incomplete_kind :: "finding_kind \<Rightarrow> bool" where
  "incomplete_kind k = (k \<in> {SCAN_ERROR, LIMIT_EXCEEDED})"

definition claims_and_order_are_derived :: "artifact_audit \<Rightarrow> bool" where
  "claims_and_order_are_derived a =
     (let digests = map ra_sha256 (aa_reachable a);
          complete = (\<not> list_ex (\<lambda>f. incomplete_kind (fk_kind (af_key f))) (aa_findings a));
          referenced_failure = list_ex (\<lambda>f. af_owners f \<noteq> []) (aa_findings a);
          all_reachable_verified = list_all ra_bytes_verified (aa_reachable a) in
      digests = sort (remdups digests)
      \<and> aa_findings a = sort_key finding_order (remdups (aa_findings a))
      \<and> aa_complete a = complete
      \<and> aa_quarantine_allowed a = (complete \<and> \<not> referenced_failure \<and> all_reachable_verified))"

definition valid_audit :: "artifact_audit \<Rightarrow> bool" where
  "valid_audit a =
     (is_lower_sha256 (aa_snapshot_sha256 a) \<and> list_all valid_reachable (aa_reachable a)
      \<and> list_all valid_finding (aa_findings a) \<and> claims_and_order_are_derived a)"

definition ArtifactAudit :: "artifact_audit \<Rightarrow> artifact_audit result" where
  "ArtifactAudit a = (if valid_audit a then Inr a else Inl ValidationError)"

section \<open>Structured artifacts\<close>

definition task_spec_json :: "task_spec \<Rightarrow> json" where
  "task_spec_json t =
     JObj [(''image_digest'', JStr (ts_image_digest t)), (''metadata'', JObj (ts_metadata t)),
       (''problem_statement'', artifact_ref_json (ts_problem_statement t)),
       (''repository'', JStr (ts_repository t)),
       (''repository_commit'', JStr (ts_repository_commit t)),
       (''repository_snapshot'', artifact_ref_json (ts_repository_snapshot t)),
       (''schema_version'', schema_version_json), (''source'', JStr (ts_source t)),
       (''split'', JStr (ts_split t)), (''task_content_hash'', JStr (ts_task_content_hash t)),
       (''task_id'', JStr (ts_task_id t)),
       (''visible_tests'', JArr (map artifact_ref_json (ts_visible_tests t)))]"

fun outcome_value :: "evaluation_outcome \<Rightarrow> string" where
  "outcome_value Passed = ''passed''"
| "outcome_value Failed = ''failed''"
| "outcome_value Error = ''error''"
| "outcome_value NotRun = ''not_run''"

definition evaluation_result_json :: "evaluation_result \<Rightarrow> json" where
  "evaluation_result_json e =
     JObj [(''evaluated_at'', datetime_json (er_evaluated_at e)),
       (''evaluation_id'', JStr (er_evaluation_id e)),
       (''evaluator_version'', JStr (er_evaluator_version e)),
       (''evidence'', JArr (map artifact_ref_json (er_evidence e))),
       (''outcome'', JStr (outcome_value (er_outcome e))),
       (''patch_hash'', opt_json JStr (er_patch_hash e)), (''result'', JObj (er_result e)),
       (''result_sha256'', JStr (er_result_sha256 e)), (''run_id'', JStr (er_run_id e)),
       (''run_status'', JStr (status_value (er_run_status e))),
       (''schema_version'', schema_version_json), (''score'', opt_json JFloat (er_score e)),
       (''signature'', opt_json JStr (er_signature e)), (''task_hash'', JStr (er_task_hash e))]"

text \<open>What parsing and serializing again give: a parse error, a value that has no canonical text (its
  JSON holds a non-finite number), or a value.\<close>

datatype 'a parsed = ParseFailed | NotSerializable | Parsed 'a

record parsers =
  parse_task :: "nat list \<Rightarrow> task_spec parsed"
  parse_evaluation :: "nat list \<Rightarrow> evaluation_result parsed"

datatype structured_role = TaskSpecRole | EvaluationRole

record reference_node =
  rn_reference :: artifact_ref
  rn_owner :: artifact_owner
  rn_structured_role :: "structured_role option"

definition reference_node_of :: "string \<Rightarrow> string list \<Rightarrow> artifact_ref \<Rightarrow> reference_node result" where
  "reference_node_of run_id path reference =
     rbind (make_owner run_id path) (\<lambda>owner.
     Inr \<lparr>rn_reference = reference, rn_owner = owner, rn_structured_role = None\<rparr>)"

definition reference_nodes :: "string \<Rightarrow> (string list \<times> artifact_ref) list \<Rightarrow> reference_node list result" where
  "reference_nodes run_id refs =
     rfold (\<lambda>(path, reference) nodes. rbind (reference_node_of run_id path reference) (\<lambda>n. Inr (nodes @ [n]))) refs []"

definition indexed_refs :: "string list \<Rightarrow> artifact_ref list \<Rightarrow> (string list \<times> artifact_ref) list" where
  "indexed_refs path refs =
     map (\<lambda>(i, r). (path @ [pad_left 8 (show_nat i)], r)) (enumerate 0 refs)"

definition task_references :: "string \<Rightarrow> task_spec \<Rightarrow> reference_node list result" where
  "task_references run_id t =
     reference_nodes run_id
       (([''task_spec'', ''problem_statement''], ts_problem_statement t)
        # ([''task_spec'', ''repository_snapshot''], ts_repository_snapshot t)
        # indexed_refs [''task_spec'', ''visible_tests''] (ts_visible_tests t))"

definition evaluation_references :: "string \<Rightarrow> evaluation_result \<Rightarrow> reference_node list result" where
  "evaluation_references run_id e =
     reference_nodes run_id (indexed_refs [''evaluation'', ''evidence''] (er_evidence e))"

section \<open>Reading a referenced artifact\<close>

datatype blob_read =
    ReadOk string int "nat list option"
  | ReadFailed finding_kind "string option" "int option" string "int option"

text \<open>The loop that hashes an open file. Each turn reads a chunk of bounded size; \<open>used\<close> is what the hash
  budget has consumed. It stops at the end of the data, at a chunk that exceeds the claimed size or
  the budget, and an error after the last delivered byte ends it too.\<close>

datatype hash_loop = Hashed int "nat list" | Grew int | OverBudget int | ReadBroke "int option"

lemma drop_shrinks: "take n xs \<noteq> [] \<Longrightarrow> length (drop n xs) < length xs"
  by (cases n; cases xs) simp_all

text \<open>For evaluation: chunk sizes stay binary numbers.\<close>

fun int_take :: "int \<Rightarrow> 'a list \<Rightarrow> 'a list" where
  "int_take n [] = []"
| "int_take n (x # xs) = (if n \<le> 0 then [] else x # int_take (n - 1) xs)"

fun int_drop :: "int \<Rightarrow> 'a list \<Rightarrow> 'a list" where
  "int_drop n [] = []"
| "int_drop n (x # xs) = (if n \<le> 0 then x # xs else int_drop (n - 1) xs)"

lemma take_nat_int [code_unfold]: "take (nat n) xs = int_take n xs"
  by (induction n xs rule: int_take.induct) (auto simp: take_Cons' nat_diff_distrib)

lemma drop_nat_int [code_unfold]: "drop (nat n) xs = int_drop n xs"
  by (induction n xs rule: int_drop.induct) (auto simp: drop_Cons' nat_diff_distrib)

function hash_reference ::
    "nat list \<Rightarrow> int option option \<Rightarrow> int \<Rightarrow> int \<Rightarrow> nat list \<Rightarrow> int \<Rightarrow> hash_loop \<times> int" where
  "hash_reference data failure nbytes seen acc used =
     (let remaining = MAX_TOTAL_HASHED_BYTES - used;
          read_size = min READ_CHUNK_BYTES (min (nbytes - seen + 1) (remaining + 1));
          chunk = take (nat read_size) data in
      if chunk = [] then
        ((case failure of None \<Rightarrow> Hashed seen acc | Some e \<Rightarrow> ReadBroke e), used)
      else
        let next_total = seen + int (length chunk) in
        if nbytes < next_total then (Grew next_total, used)
        else if remaining < int (length chunk) then (OverBudget next_total, used)
        else hash_reference (drop (nat read_size) data) failure nbytes next_total (acc @ chunk)
               (used + int (length chunk)))"
  by pat_completeness auto
termination
  by (relation "measure (\<lambda>(data, _). length data)")
    (simp only: wf_measure, simp only: in_measure case_prod_conv, rule drop_shrinks, assumption)

declare hash_reference.simps [simp del]

definition component_check :: "bool \<Rightarrow> lstat_result \<Rightarrow> blob_read option" where
  "component_check requires_directory l =
     (case l of
        LstatMissing \<Rightarrow> Some (ReadFailed MISSING_REFERENCED None None ''missing_path'' (Some ENOENT))
      | LstatError e \<Rightarrow> Some (ReadFailed CORRUPT_REFERENCED None None ''path_lstat'' (Some (errno_of e)))
      | Lstat m \<Rightarrow>
          if is_symlink m then Some (ReadFailed SYMLINK None (Some (st_size m)) ''referenced_path_symlink'' None)
          else if requires_directory \<and> \<not> is_directory m then
            Some (ReadFailed SPECIAL_FILE None (Some (st_size m)) ''referenced_parent_not_directory'' None)
          else if \<not> requires_directory \<and> \<not> is_regular m then
            Some (ReadFailed SPECIAL_FILE None (Some (st_size m)) ''referenced_path_not_regular'' None)
          else if \<not> requires_directory \<and> st_nlink m \<noteq> 1 then
            Some (ReadFailed HARDLINK None (Some (st_size m)) ''referenced_path_hardlink'' None)
          else None)"

fun first_failure :: "blob_read option list \<Rightarrow> blob_read option" where
  "first_failure [] = None"
| "first_failure (None # rs) = first_failure rs"
| "first_failure (Some r # rs) = Some r"

definition read_open_reference ::
    "(nat list \<Rightarrow> string) \<Rightarrow> artifact_ref \<Rightarrow> bool \<Rightarrow> open_result \<Rightarrow> int \<Rightarrow> blob_read \<times> int" where
  "read_open_reference sha reference capture opened used =
     (case opened of
        OpenError e \<Rightarrow>
          (ReadFailed
             (if e = Some ELOOP then SYMLINK else if e = Some ENOENT then MISSING_REFERENCED else CORRUPT_REFERENCED)
             None None ''referenced_open'' (Some (errno_of e)), used)
      | Opened m data failure \<Rightarrow>
          if \<not> is_regular m then
            (ReadFailed SPECIAL_FILE None (Some (st_size m)) ''referenced_descriptor_not_regular'' None, used)
          else if st_nlink m \<noteq> 1 then
            (ReadFailed HARDLINK None (Some (st_size m)) ''referenced_path_hardlink'' None, used)
          else if st_size m \<noteq> ar_size_bytes reference then
            (ReadFailed CORRUPT_REFERENCED None (Some (st_size m)) ''referenced_descriptor_size'' None, used)
          else if MAX_TOTAL_HASHED_BYTES - used < st_size m then
            (ReadFailed LIMIT_EXCEEDED None (Some (st_size m)) ''total_hashed_bytes'' None, used)
          else
            (case hash_reference data failure (ar_size_bytes reference) 0 [] used of
               (Grew n, used') \<Rightarrow>
                 (ReadFailed CORRUPT_REFERENCED None (Some n) ''referenced_grew_beyond_claimed_size'' None, used')
             | (OverBudget n, used') \<Rightarrow> (ReadFailed LIMIT_EXCEEDED None (Some n) ''total_hashed_bytes'' None, used')
             | (ReadBroke e, used') \<Rightarrow>
                 (ReadFailed CORRUPT_REFERENCED None None ''referenced_read'' (Some (errno_of e)), used')
             | (Hashed seen bytes, used') \<Rightarrow>
                 if seen \<noteq> ar_size_bytes reference \<or> sha bytes \<noteq> ar_sha256 reference then
                   (ReadFailed CORRUPT_REFERENCED (Some (sha bytes)) (Some seen) ''byte_identity'' None, used')
                 else (ReadOk (sha bytes) seen (if capture then Some bytes else None), used')))"

definition read_reference ::
    "(nat list \<Rightarrow> string) \<Rightarrow> cas_view \<Rightarrow> artifact_ref \<Rightarrow> bool \<Rightarrow> int \<Rightarrow> blob_read \<times> int" where
  "read_reference sha v reference capture used =
     (let digest = ar_sha256 reference; shard = take 2 digest in
      if ar_storage_ref reference \<noteq> canonical_relative_path digest then
        (ReadFailed CORRUPT_REFERENCED None None ''noncanonical_storage_ref'' None, used)
      else if MAX_ARTIFACT_BYTES < ar_size_bytes reference then
        (ReadFailed LIMIT_EXCEEDED None (Some (ar_size_bytes reference)) ''referenced_artifact_bytes'' None, used)
      else if capture \<and> MAX_STRUCTURED_BYTES < ar_size_bytes reference then
        (ReadFailed LIMIT_EXCEEDED None (Some (ar_size_bytes reference)) ''structured_artifact_bytes'' None, used)
      else
        (case first_failure [component_check True (cv_lstat v [''sha256'']),
             component_check True (cv_lstat v [''sha256'', shard]),
             component_check False (cv_lstat v [''sha256'', shard, digest])] of
           Some r \<Rightarrow> (r, used)
         | None \<Rightarrow> read_open_reference sha reference capture (cv_open v [''sha256'', shard, digest]) used))"

section \<open>Following the references\<close>

record reachable_builder =
  bu_size_bytes :: int
  bu_storage_ref :: string
  bu_media_types :: "string list"
  bu_owners :: "artifact_owner list"
  bu_bytes_verified :: bool

record audit_state =
  as_findings :: finding_builders
  as_builders :: "(string \<times> reachable_builder) list"
  as_reads :: "((string \<times> int \<times> string) \<times> blob_read) list"
  as_hash_used :: int
  as_tasks :: "(string \<times> task_spec) list"
  as_evaluations :: "(string \<times> evaluation_result \<times> artifact_ref \<times> artifact_owner) list"

definition note_finding :: "finding_key \<Rightarrow> artifact_owner list \<Rightarrow> audit_state \<Rightarrow> audit_state" where
  "note_finding k os st = st\<lparr>as_findings := add_finding k os (as_findings st)\<rparr>"

definition corrupt_key :: "artifact_ref \<Rightarrow> string \<Rightarrow> finding_key" where
  "corrupt_key reference detail =
     \<lparr>fk_kind = CORRUPT_REFERENCED, fk_relative_path = canonical_relative_path (ar_sha256 reference),
      fk_expected_sha256 = Some (ar_sha256 reference), fk_observed_sha256 = None,
      fk_size_bytes = Some (ar_size_bytes reference), fk_detail = Some detail, fk_errno = None\<rparr>"

definition note_corrupt :: "artifact_ref \<Rightarrow> string \<Rightarrow> artifact_owner list \<Rightarrow> audit_state \<Rightarrow> audit_state" where
  "note_corrupt reference detail os = note_finding (corrupt_key reference detail) os"

definition note_if :: "bool \<Rightarrow> artifact_ref \<Rightarrow> string \<Rightarrow> artifact_owner list \<Rightarrow> audit_state \<Rightarrow> audit_state" where
  "note_if b reference detail os st = (if b then note_corrupt reference detail os st else st)"

definition fresh_builder :: "artifact_ref \<Rightarrow> reachable_builder" where
  "fresh_builder reference =
     \<lparr>bu_size_bytes = ar_size_bytes reference, bu_storage_ref = ar_storage_ref reference,
      bu_media_types = [], bu_owners = [], bu_bytes_verified = False\<rparr>"

text \<open>The builder of the digest is found or made, and the node's media type and owner are added to it.\<close>

definition register_node :: "reference_node \<Rightarrow> audit_state \<Rightarrow> audit_state" where
  "register_node node st =
     (let reference = rn_reference node; digest = ar_sha256 reference;
          (builder, st1) =
            (case map_of (as_builders st) digest of
               None \<Rightarrow> (fresh_builder reference, st)
             | Some b \<Rightarrow>
                 (b, note_if (bu_size_bytes b \<noteq> ar_size_bytes reference \<or> bu_storage_ref b \<noteq> ar_storage_ref reference)
                       reference ''conflicting_reference_metadata'' (bu_owners b @ [rn_owner node]) st));
          builder' = builder\<lparr>bu_media_types := bu_media_types builder @ [ar_media_type reference],
                             bu_owners := bu_owners builder @ [rn_owner node]\<rparr> in
      st1\<lparr>as_builders := AList.update digest builder' (as_builders st1)\<rparr>)"

definition cache_key :: "artifact_ref \<Rightarrow> string \<times> int \<times> string" where
  "cache_key reference = (ar_sha256 reference, ar_size_bytes reference, ar_storage_ref reference)"

definition needs_read :: "bool \<Rightarrow> blob_read option \<Rightarrow> bool" where
  "needs_read capture r =
     (case r of None \<Rightarrow> True | Some (ReadOk _ _ data) \<Rightarrow> capture \<and> data = None | Some (ReadFailed _ _ _ _ _) \<Rightarrow> False)"

definition cached_read ::
    "(nat list \<Rightarrow> string) \<Rightarrow> cas_view \<Rightarrow> reference_node \<Rightarrow> audit_state \<Rightarrow> blob_read \<times> audit_state" where
  "cached_read sha v node st =
     (let reference = rn_reference node; capture = (rn_structured_role node \<noteq> None);
          cached = map_of (as_reads st) (cache_key reference) in
      if needs_read capture cached then
        (case read_reference sha v reference capture (as_hash_used st) of
           (r, used) \<Rightarrow> (r, st\<lparr>as_reads := AList.update (cache_key reference) r (as_reads st), as_hash_used := used\<rparr>))
      else (the cached, st))"

definition mark_verified :: "string \<Rightarrow> int \<Rightarrow> audit_state \<Rightarrow> audit_state" where
  "mark_verified digest nbytes st =
     st\<lparr>as_builders := AList.map_entry digest (\<lambda>b. b\<lparr>bu_size_bytes := nbytes, bu_bytes_verified := True\<rparr>) (as_builders st)\<rparr>"

definition evaluator_version_invalid :: "json option \<Rightarrow> bool" where
  "evaluator_version_invalid j =
     (case j of None \<Rightarrow> False | Some (JStr s) \<Rightarrow> py_strip s = [] | Some _ \<Rightarrow> True)"

definition audit_task ::
    "parsers \<Rightarrow> (string \<Rightarrow> run_manifest) \<Rightarrow> reference_node \<Rightarrow> nat list \<Rightarrow> audit_state
      \<Rightarrow> (audit_state \<times> reference_node list) result" where
  "audit_task ps manifest_by_run node data st =
     (let reference = rn_reference node; run_id = ao_run_id (rn_owner node); os = [rn_owner node] in
      if ar_media_type reference \<noteq> TASK_MEDIA_TYPE then
        Inr (note_corrupt reference ''task_spec_media_type'' os st, [])
      else
        (case parse_task ps data of
           ParseFailed \<Rightarrow> Inr (note_corrupt reference ''task_spec_parse'' os st, [])
         | NotSerializable \<Rightarrow> Inr (note_corrupt reference ''task_spec_noncanonical_json'' os st, [])
         | Parsed task \<Rightarrow>
             if data \<noteq> utf8_encode (dumps (task_spec_json task)) then
               Inr (note_corrupt reference ''task_spec_noncanonical_json'' os st, [])
             else
               let st1 = note_if (evaluator_version_invalid (map_of (ts_metadata task) ''evaluator_version''))
                     reference ''task_spec_evaluator_version_invalid'' os st;
                   manifest = manifest_by_run run_id;
                   st2 = note_if (ts_task_id task \<noteq> rm_task_id manifest
                       \<or> ts_image_digest task \<noteq> rm_environment_digest manifest)
                     reference ''task_spec_manifest_mismatch'' os st1;
                   st3 = st2\<lparr>as_tasks := AList.update run_id task (as_tasks st2)\<rparr> in
               rbind (task_references run_id task) (\<lambda>nodes. Inr (st3, nodes))))"

definition evaluation_roles :: "string list" where
  "evaluation_roles =
     [''evaluation_stdout'', ''evaluation_stderr'', ''evaluation_candidate_stdout'', ''evaluation_scorer_stdout'']"

definition expected_evidence_refs :: "run_manifest \<Rightarrow> artifact_ref list" where
  "expected_evidence_refs m = List.map_filter (map_of (rm_artifacts m)) evaluation_roles"

definition crosscheck_evaluation ::
    "run_manifest \<Rightarrow> evaluation_result \<Rightarrow> artifact_ref \<Rightarrow> artifact_owner \<Rightarrow> audit_state \<Rightarrow> audit_state" where
  "crosscheck_evaluation manifest evaluation reference owner st =
     (let st1 = note_if (er_run_id evaluation \<noteq> rm_run_id manifest) reference ''evaluation_run_id'' [owner] st;
          patch = map_of (rm_artifacts manifest) ''patch'';
          st2 = note_if (er_run_status evaluation \<noteq> rm_status manifest
              \<or> (case patch of None \<Rightarrow> False | Some p \<Rightarrow> er_patch_hash evaluation \<noteq> Some (ar_sha256 p)))
            reference ''evaluation_manifest_mismatch'' [owner] st1 in
      note_if (er_evidence evaluation \<noteq> expected_evidence_refs manifest)
        reference ''evaluation_evidence_mismatch'' [owner] st2)"

definition audit_evaluation ::
    "parsers \<Rightarrow> (string \<Rightarrow> run_manifest) \<Rightarrow> reference_node \<Rightarrow> nat list \<Rightarrow> audit_state
      \<Rightarrow> (audit_state \<times> reference_node list) result" where
  "audit_evaluation ps manifest_by_run node data st =
     (let reference = rn_reference node; run_id = ao_run_id (rn_owner node); os = [rn_owner node] in
      if ar_media_type reference \<noteq> EVALUATION_MEDIA_TYPE then
        Inr (note_corrupt reference ''evaluation_media_type'' os st, [])
      else
        (case parse_evaluation ps data of
           ParseFailed \<Rightarrow> Inr (note_corrupt reference ''evaluation_parse'' os st, [])
         | NotSerializable \<Rightarrow> Inr (note_corrupt reference ''evaluation_noncanonical_json'' os st, [])
         | Parsed evaluation \<Rightarrow>
             if data \<noteq> utf8_encode (dumps (evaluation_result_json evaluation)) then
               Inr (note_corrupt reference ''evaluation_noncanonical_json'' os st, [])
             else
               let st1 = crosscheck_evaluation (manifest_by_run run_id) evaluation reference (rn_owner node) st;
                   st2 = st1\<lparr>as_evaluations := AList.update run_id (evaluation, reference, rn_owner node)
                     (as_evaluations st1)\<rparr> in
               rbind (evaluation_references run_id evaluation) (\<lambda>nodes. Inr (st2, nodes))))"

text \<open>One turn of the loop over the pending references, with the references it adds to the queue.\<close>

definition audit_node ::
    "(nat list \<Rightarrow> string) \<Rightarrow> cas_view \<Rightarrow> parsers \<Rightarrow> (string \<Rightarrow> run_manifest) \<Rightarrow> reference_node \<Rightarrow> audit_state
      \<Rightarrow> (audit_state \<times> reference_node list) result" where
  "audit_node sha v ps manifest_by_run node st =
     (let reference = rn_reference node in
      case cached_read sha v node (register_node node st) of (r, st1) \<Rightarrow>
      (case r of
         ReadFailed fkind observed nbytes detail error_number \<Rightarrow>
           Inr (note_finding
             \<lparr>fk_kind = fkind, fk_relative_path = canonical_relative_path (ar_sha256 reference),
              fk_expected_sha256 = Some (ar_sha256 reference), fk_observed_sha256 = observed,
              fk_size_bytes = nbytes, fk_detail = Some detail, fk_errno = error_number\<rparr> [rn_owner node] st1, [])
       | ReadOk observed nbytes data \<Rightarrow>
           let st2 = mark_verified (ar_sha256 reference) nbytes st1 in
           (case rn_structured_role node of
              None \<Rightarrow> Inr (st2, [])
            | Some role \<Rightarrow>
                (case data of
                   None \<Rightarrow> Inr (note_corrupt reference ''structured_artifact_not_captured'' [rn_owner node] st2, [])
                 | Some bytes \<Rightarrow>
                     (case role of
                        TaskSpecRole \<Rightarrow> audit_task ps manifest_by_run node bytes st2
                      | EvaluationRole \<Rightarrow> audit_evaluation ps manifest_by_run node bytes st2)))))"

function audit_loop ::
    "(nat list \<Rightarrow> string) \<Rightarrow> cas_view \<Rightarrow> parsers \<Rightarrow> (string \<Rightarrow> run_manifest) \<Rightarrow> int \<Rightarrow> reference_node list
      \<Rightarrow> audit_state \<Rightarrow> audit_state result" where
  "audit_loop sha v ps manifest_by_run processed pending st =
     (case pending of
        [] \<Rightarrow> Inr st
      | node # rest \<Rightarrow>
          if MAX_REACHABLE_REFERENCES < processed + 1 then
            Inr (note_finding (simple_finding LIMIT_EXCEEDED ''.'' None (Some ''reachable_reference_limit'')) [] st)
          else
            (case audit_node sha v ps manifest_by_run node st of
               Inl e \<Rightarrow> Inl e
             | Inr (st', nodes) \<Rightarrow> audit_loop sha v ps manifest_by_run (processed + 1) (rest @ nodes) st'))"
  by pat_completeness auto
termination
  by (relation "measure (\<lambda>(_, _, _, _, processed, _). nat (MAX_REACHABLE_REFERENCES - processed))") auto

declare audit_loop.simps [simp del]

text \<open>Tasks and evaluations of the same run, in the order of the run identifiers.\<close>

definition crosscheck_task_evaluation ::
    "task_spec \<Rightarrow> evaluation_result \<times> artifact_ref \<times> artifact_owner \<Rightarrow> audit_state \<Rightarrow> audit_state" where
  "crosscheck_task_evaluation task ev st =
     (case ev of (evaluation, reference, owner) \<Rightarrow>
      let st1 = note_if (er_task_hash evaluation \<noteq> ts_task_content_hash task)
            reference ''evaluation_task_hash_mismatch'' [owner] st in
      (case map_of (ts_metadata task) ''evaluator_version'' of
         Some (JStr s) \<Rightarrow>
           if py_strip s = [] then st1
           else note_if (s \<noteq> er_evaluator_version evaluation)
             reference ''evaluation_evaluator_version_mismatch'' [owner] st1
       | _ \<Rightarrow> st1))"

definition crosscheck_task_evaluations :: "audit_state \<Rightarrow> audit_state" where
  "crosscheck_task_evaluations st =
     fold (\<lambda>run_id s.
        (case (map_of (as_tasks st) run_id, map_of (as_evaluations st) run_id) of
           (Some task, Some ev) \<Rightarrow> crosscheck_task_evaluation task ev s
         | _ \<Rightarrow> s))
       (sort (filter (\<lambda>i. i \<in> set (map fst (as_evaluations st))) (remdups (map fst (as_tasks st))))) st"

section \<open>The inventory\<close>

record inventory =
  iv_findings :: finding_builders
  iv_counter :: int
  iv_observed :: "string list"
  iv_hash_used :: int

definition note_entry :: "finding_key \<Rightarrow> artifact_owner list \<Rightarrow> inventory \<Rightarrow> inventory" where
  "note_entry k os iv = iv\<lparr>iv_findings := add_finding k os (iv_findings iv)\<rparr>"

text \<open>\<open>_scan_directory\<close>: the decodable entries in the order of their names, or \<^const>\<open>None\<close>.\<close>

fun scan_entries ::
    "string \<Rightarrow> scan_entry list \<Rightarrow> int option option \<Rightarrow> (string \<times> lstat_result) list \<Rightarrow> inventory
      \<Rightarrow> (string \<times> lstat_result) list option \<times> inventory" where
  "scan_entries relative [] failure acc iv =
     (case failure of
        None \<Rightarrow> (Some (sort_key fst acc), iv)
      | Some e \<Rightarrow> (None, note_entry
          ((simple_finding SCAN_ERROR relative None (Some ''scandir''))\<lparr>fk_errno := Some (errno_of e)\<rparr>) [] iv))"
| "scan_entries relative (entry # entries) failure acc iv =
     (let iv1 = iv\<lparr>iv_counter := iv_counter iv + 1\<rparr> in
      if MAX_INVENTORY_ENTRIES < iv_counter iv1 then
        (None, note_entry (simple_finding LIMIT_EXCEEDED relative None (Some ''inventory_entry_limit'')) [] iv1)
      else
        (case entry of
           RawEntry raw_hex \<Rightarrow>
             scan_entries relative entries failure acc
               (note_entry (simple_finding SCAN_ERROR
                  (if relative = ''.'' then ''<raw-name-'' @ raw_hex @ ''>''
                   else relative @ ''/<raw-name-'' @ raw_hex @ ''>'') None
                  (Some (''undecodable_entry_name_raw_hex:'' @ raw_hex))) [] iv1)
         | NamedEntry name l \<Rightarrow> scan_entries relative entries failure (acc @ [(name, l)]) iv1))"

definition scan_directory ::
    "cas_view \<Rightarrow> string list \<Rightarrow> string \<Rightarrow> inventory \<Rightarrow> (string \<times> lstat_result) list option \<times> inventory" where
  "scan_directory v path relative iv =
     (case cv_scandir v path of (entries, failure) \<Rightarrow> scan_entries relative entries failure [] iv)"

definition entry_stat :: "lstat_result \<Rightarrow> string \<Rightarrow> inventory \<Rightarrow> stat_result option \<times> inventory" where
  "entry_stat l relative iv =
     (let failed = (\<lambda>n. (None, note_entry
            ((simple_finding SCAN_ERROR relative None (Some ''lstat''))\<lparr>fk_errno := Some n\<rparr>) [] iv)) in
      case l of Lstat m \<Rightarrow> (Some m, iv) | LstatMissing \<Rightarrow> failed ENOENT | LstatError e \<Rightarrow> failed (errno_of e))"

definition classify_mode_noncanonical :: "stat_result \<Rightarrow> string \<Rightarrow> inventory \<Rightarrow> inventory" where
  "classify_mode_noncanonical m relative iv =
     note_entry (simple_finding (if is_regular m \<or> is_directory m then NONCANONICAL_ENTRY else SPECIAL_FILE)
       relative (Some (st_size m)) None) [] iv"

definition classify_noncanonical :: "lstat_result \<Rightarrow> string \<Rightarrow> inventory \<Rightarrow> inventory" where
  "classify_noncanonical l relative iv =
     (case entry_stat l relative iv of
        (None, iv1) \<Rightarrow> iv1
      | (Some m, iv1) \<Rightarrow>
          if is_symlink m then note_entry (simple_finding SYMLINK relative (Some (st_size m)) None) [] iv1
          else classify_mode_noncanonical m relative iv1)"

datatype path_hash = PathHash string | PathHashError int | PathHashLimit

function hash_orphan :: "nat list \<Rightarrow> int option option \<Rightarrow> int \<Rightarrow> nat list \<Rightarrow> int \<Rightarrow> hash_loop \<times> int" where
  "hash_orphan data failure seen acc used =
     (let remaining = MAX_TOTAL_HASHED_BYTES - used;
          read_size = min READ_CHUNK_BYTES (min (MAX_ARTIFACT_BYTES - seen + 1) (remaining + 1));
          chunk = take (nat read_size) data in
      if chunk = [] then
        ((case failure of None \<Rightarrow> Hashed seen acc | Some e \<Rightarrow> ReadBroke e), used)
      else
        let next_total = seen + int (length chunk) in
        if MAX_ARTIFACT_BYTES < next_total then (Grew next_total, used)
        else if remaining < int (length chunk) then (OverBudget next_total, used)
        else hash_orphan (drop (nat read_size) data) failure next_total (acc @ chunk)
               (used + int (length chunk)))"
  by pat_completeness auto
termination
  by (relation "measure (\<lambda>(data, _). length data)")
    (simp only: wf_measure, simp only: in_measure case_prod_conv, rule drop_shrinks, assumption)

declare hash_orphan.simps [simp del]

definition hash_path_no_follow :: "(nat list \<Rightarrow> string) \<Rightarrow> open_result \<Rightarrow> int \<Rightarrow> path_hash \<times> int" where
  "hash_path_no_follow sha opened used =
     (case opened of
        OpenError e \<Rightarrow> (PathHashError (errno_of e), used)
      | Opened m data failure \<Rightarrow>
          if \<not> is_regular m \<or> st_nlink m \<noteq> 1 then (PathHashError EINVAL, used)
          else if MAX_ARTIFACT_BYTES < st_size m \<or> MAX_TOTAL_HASHED_BYTES - used < st_size m then (PathHashLimit, used)
          else
            (case hash_orphan data failure 0 [] used of
               (Hashed _ bytes, used') \<Rightarrow> (PathHash (sha bytes), used')
             | (ReadBroke e, used') \<Rightarrow> (PathHashError (errno_of e), used')
             | (_, used') \<Rightarrow> (PathHashLimit, used')))"

text \<open>The owners of the digests that satisfy a condition.\<close>

definition owners_where :: "(string \<times> artifact_owner list) list \<Rightarrow> (string \<Rightarrow> bool) \<Rightarrow> artifact_owner list" where
  "owners_where owners p = sorted_owners (concat (map snd (filter (\<lambda>(d, _). p d) owners)))"

definition inventory_orphan ::
    "(nat list \<Rightarrow> string) \<Rightarrow> cas_view \<Rightarrow> string list \<Rightarrow> string \<Rightarrow> string \<Rightarrow> stat_result \<Rightarrow> inventory \<Rightarrow> inventory" where
  "inventory_orphan sha v path relative name m iv =
     (let base = \<lparr>fk_kind = LIMIT_EXCEEDED, fk_relative_path = relative, fk_expected_sha256 = Some name,
            fk_observed_sha256 = None, fk_size_bytes = Some (st_size m), fk_detail = None, fk_errno = None\<rparr> in
      if MAX_ARTIFACT_BYTES < st_size m then note_entry (base\<lparr>fk_detail := Some ''orphan_artifact_bytes''\<rparr>) [] iv
      else
        (case hash_path_no_follow sha (cv_open v path) (iv_hash_used iv) of
           (h, used) \<Rightarrow>
             let iv1 = iv\<lparr>iv_hash_used := used\<rparr> in
             (case h of
                PathHashLimit \<Rightarrow> note_entry (base\<lparr>fk_detail := Some ''total_hashed_bytes''\<rparr>) [] iv1
              | PathHashError n \<Rightarrow>
                  note_entry (base\<lparr>fk_kind := SCAN_ERROR, fk_detail := Some ''orphan_read'', fk_errno := Some n\<rparr>) [] iv1
              | PathHash d \<Rightarrow>
                  note_entry (base\<lparr>fk_kind := if d = name then VALID_FINALIZED_ORPHAN else CORRUPT_FINALIZED_ORPHAN,
                    fk_observed_sha256 := Some d\<rparr>) [] iv1)))"

definition inventory_file ::
    "(nat list \<Rightarrow> string) \<Rightarrow> cas_view \<Rightarrow> (string \<times> artifact_owner list) list \<Rightarrow> string \<Rightarrow> string \<times> lstat_result
      \<Rightarrow> inventory \<Rightarrow> inventory" where
  "inventory_file sha v reachable_owners shard entry iv =
     (case entry of (name, l) \<Rightarrow>
      let relative = ''sha256/'' @ shard @ ''/'' @ name in
      case entry_stat l relative iv of
        (None, iv1) \<Rightarrow> iv1
      | (Some m, iv1) \<Rightarrow>
          let canonical = (is_lower_sha256 name \<and> starts_with shard name);
              owners = owners_where reachable_owners (\<lambda>d. d = name) in
          if is_symlink m then
            note_entry ((simple_finding SYMLINK relative (Some (st_size m))
                (if owners \<noteq> [] then Some ''referenced_path_symlink'' else None))
              \<lparr>fk_expected_sha256 := if canonical \<and> owners \<noteq> [] then Some name else None\<rparr>) owners iv1
          else if is_regular m \<and> st_nlink m \<noteq> 1 then
            note_entry ((simple_finding HARDLINK relative (Some (st_size m))
                (if owners \<noteq> [] then Some ''referenced_path_hardlink'' else None))
              \<lparr>fk_expected_sha256 := if canonical then Some name else None\<rparr>) owners iv1
          else if starts_with ''.artifact-'' name then
            (if is_regular m then note_entry (simple_finding TEMP_ORPHAN relative (Some (st_size m)) None) [] iv1
             else note_entry (simple_finding SPECIAL_FILE relative (Some (st_size m)) (Some ''temporary_not_regular'')) [] iv1)
          else if \<not> canonical then classify_mode_noncanonical m relative iv1
          else if \<not> is_regular m then classify_mode_noncanonical m relative iv1
          else if map_of reachable_owners name \<noteq> None then iv1\<lparr>iv_observed := name # iv_observed iv1\<rparr>
          else inventory_orphan sha v [''sha256'', shard, name] relative name m iv1)"

definition inventory_shard ::
    "(nat list \<Rightarrow> string) \<Rightarrow> cas_view \<Rightarrow> (string \<times> artifact_owner list) list \<Rightarrow> string \<Rightarrow> inventory \<Rightarrow> inventory" where
  "inventory_shard sha v reachable_owners shard iv =
     (case scan_directory v [''sha256'', shard] (''sha256/'' @ shard) iv of
        (None, iv1) \<Rightarrow> iv1
      | (Some entries, iv1) \<Rightarrow> fold (inventory_file sha v reachable_owners shard) entries iv1)"

definition is_prefix_name :: "string \<Rightarrow> bool" where
  "is_prefix_name s = (length s = 2 \<and> list_all is_hex_digit s)"

definition inventory_prefix ::
    "(nat list \<Rightarrow> string) \<Rightarrow> cas_view \<Rightarrow> (string \<times> artifact_owner list) list \<Rightarrow> string \<times> lstat_result
      \<Rightarrow> inventory \<Rightarrow> inventory" where
  "inventory_prefix sha v reachable_owners entry iv =
     (case entry of (name, l) \<Rightarrow>
      let relative = ''sha256/'' @ name in
      case entry_stat l relative iv of
        (None, iv1) \<Rightarrow> iv1
      | (Some m, iv1) \<Rightarrow>
          if is_symlink m then
            let owners = owners_where reachable_owners (starts_with name) in
            note_entry (simple_finding SYMLINK relative (Some (st_size m))
              (if owners \<noteq> [] then Some ''referenced_parent_symlink'' else None)) owners iv1
          else if \<not> is_prefix_name name \<or> \<not> is_directory m then
            note_entry (simple_finding (if \<not> is_regular m \<and> \<not> is_directory m then SPECIAL_FILE else NONCANONICAL_ENTRY)
              relative (Some (st_size m)) (Some ''invalid_shard'')) [] iv1
          else inventory_shard sha v reachable_owners name iv1)"

definition inventory_root_entry ::
    "(nat list \<Rightarrow> string) \<Rightarrow> cas_view \<Rightarrow> (string \<times> artifact_owner list) list \<Rightarrow> string \<times> lstat_result
      \<Rightarrow> inventory \<Rightarrow> inventory" where
  "inventory_root_entry sha v reachable_owners entry iv =
     (case entry of (name, l) \<Rightarrow>
      if name \<noteq> ''sha256'' then classify_noncanonical l name iv
      else
        case entry_stat l ''sha256'' iv of
          (None, iv1) \<Rightarrow> iv1
        | (Some m, iv1) \<Rightarrow>
            if is_symlink m then
              let owners = owners_where reachable_owners (\<lambda>_. True) in
              note_entry (simple_finding SYMLINK ''sha256'' (Some (st_size m))
                (if owners \<noteq> [] then Some ''referenced_parent_symlink'' else None)) owners iv1
            else if \<not> is_directory m then
              note_entry (simple_finding NONCANONICAL_ENTRY ''sha256'' (Some (st_size m)) (Some ''expected_directory'')) [] iv1
            else
              (case scan_directory v [''sha256''] ''sha256'' iv1 of
                 (None, iv2) \<Rightarrow> iv2
               | (Some entries, iv2) \<Rightarrow> fold (inventory_prefix sha v reachable_owners) entries iv2))"

definition inventory_store ::
    "(nat list \<Rightarrow> string) \<Rightarrow> cas_view \<Rightarrow> (string \<times> artifact_owner list) list \<Rightarrow> finding_builders \<Rightarrow> int \<Rightarrow> inventory" where
  "inventory_store sha v reachable_owners findings used =
     (let iv = \<lparr>iv_findings = findings, iv_counter = 0, iv_observed = [], iv_hash_used = used\<rparr> in
      case scan_directory v [] ''.'' iv of
        (None, iv1) \<Rightarrow> iv1
      | (Some entries, iv1) \<Rightarrow> fold (inventory_root_entry sha v reachable_owners) entries iv1)"

section \<open>The audit\<close>

definition validate_root :: "(json \<Rightarrow> string) \<Rightarrow> verified_run_root \<Rightarrow> unit result" where
  "validate_root H r =
     rbind (require (0 \<le> vrr_manifest_revision r) ValueError) (\<lambda>_.
     rbind (require (1 \<le> vrr_event_count r) ValueError) (\<lambda>_.
     rbind (require (vrr_manifest_revision r < int (vrr_event_count r)) ValueError) (\<lambda>_.
     rbind (require (is_lower_sha256 (vrr_manifest_sha256 r)) ValueError) (\<lambda>_.
     rbind (require (vrr_manifest_sha256 r = H (manifest_json (vrr_manifest r))) ValueError) (\<lambda>_.
     require (is_lower_sha256 (vrr_head_event_sha256 r)) ValueError)))))"

abbreviation root_run_id :: "verified_run_root \<Rightarrow> string" where
  "root_run_id r \<equiv> rm_run_id (vrr_manifest r)"

definition validate_roots :: "(json \<Rightarrow> string) \<Rightarrow> verified_run_root list \<Rightarrow> (verified_run_root list \<times> string) result" where
  "validate_roots H roots =
     (let ordered = sort_key root_run_id roots in
      rbind (rfold (\<lambda>r previous.
          rbind (require (previous \<noteq> Some (root_run_id r)) ValueError) (\<lambda>_.
          rbind (validate_root H r) (\<lambda>_. Inr (Some (root_run_id r))))) ordered None) (\<lambda>_.
      rbind (verified_run_roots_sha256 H ordered) (\<lambda>snapshot. Inr (ordered, snapshot))))"

text \<open>\<open>_validate_store_root\<close>: the first ancestor that is not a real directory, as a finding.\<close>

fun ancestor_failure :: "lstat_result list \<Rightarrow> finding_key option" where
  "ancestor_failure [] = None"
| "ancestor_failure (l # ls) =
     (let place = (\<lambda>s. if ls = [] then ''artifact_store_root_'' @ s else ''artifact_store_ancestor_'' @ s);
          failed = (\<lambda>n. Some ((simple_finding SCAN_ERROR ''.'' None (Some (place ''lstat'')))\<lparr>fk_errno := Some n\<rparr>)) in
      case l of
        LstatMissing \<Rightarrow> failed ENOENT
      | LstatError e \<Rightarrow> failed (errno_of e)
      | Lstat m \<Rightarrow>
          if is_directory m then ancestor_failure ls
          else Some (simple_finding SCAN_ERROR ''.'' (Some (st_size m))
            (Some (place (if is_symlink m then ''symlink'' else ''not_directory'')))))"

definition validate_store_root :: "cas_view \<Rightarrow> finding_key option" where
  "validate_store_root v =
     (if \<not> cv_root_absolute v then
        Some (simple_finding SCAN_ERROR ''.'' None (Some ''artifact_store_root_not_absolute''))
      else ancestor_failure (cv_ancestors v))"

definition root_nodes :: "verified_run_root \<Rightarrow> reference_node list result" where
  "root_nodes r =
     rfold (\<lambda>(role, reference) nodes.
        rbind (make_owner (root_run_id r) [role]) (\<lambda>owner.
        Inr (nodes @ [\<lparr>rn_reference = reference, rn_owner = owner,
          rn_structured_role =
            if role = ''task_spec'' then Some TaskSpecRole
            else if role = ''evaluation'' then Some EvaluationRole else None\<rparr>])))
       (rm_artifacts (vrr_manifest r)) []"

definition initial_nodes :: "verified_run_root list \<Rightarrow> reference_node list result" where
  "initial_nodes roots = rfold (\<lambda>r nodes. rbind (root_nodes r) (\<lambda>ns. Inr (nodes @ ns))) roots []"

definition initial_audit_state :: "finding_builders \<Rightarrow> audit_state" where
  "initial_audit_state fs =
     \<lparr>as_findings = fs, as_builders = [], as_reads = [], as_hash_used = 0, as_tasks = [], as_evaluations = []\<rparr>"

definition manifest_of_run :: "verified_run_root list \<Rightarrow> string \<Rightarrow> run_manifest" where
  "manifest_of_run roots run_id = the (map_of (map (\<lambda>r. (root_run_id r, vrr_manifest r)) (rev roots)) run_id)"

definition reachable_of :: "string \<times> reachable_builder \<Rightarrow> reachable_artifact" where
  "reachable_of db =
     \<lparr>ra_sha256 = fst db, ra_size_bytes = bu_size_bytes (snd db),
      ra_storage_ref = canonical_relative_path (fst db),
      ra_media_types = sort (remdups (bu_media_types (snd db))),
      ra_owners = sorted_owners (bu_owners (snd db)), ra_bytes_verified = bu_bytes_verified (snd db)\<rparr>"

definition unobserved_key :: "string \<times> reachable_builder \<Rightarrow> finding_key" where
  "unobserved_key db =
     \<lparr>fk_kind = CORRUPT_REFERENCED, fk_relative_path = canonical_relative_path (fst db),
      fk_expected_sha256 = Some (fst db), fk_observed_sha256 = None,
      fk_size_bytes = Some (bu_size_bytes (snd db)), fk_detail = Some ''canonical_path_not_observed'', fk_errno = None\<rparr>"

definition finish_audit :: "(nat list \<Rightarrow> string) \<Rightarrow> cas_view \<Rightarrow> string \<Rightarrow> audit_state \<Rightarrow> artifact_audit result" where
  "finish_audit sha v snapshot st0 =
     (let st = crosscheck_task_evaluations st0;
          reachable_owners = map (\<lambda>(d, b). (d, bu_owners b)) (as_builders st);
          iv = inventory_store sha v reachable_owners (as_findings st) (as_hash_used st);
          builders = sort_key fst (as_builders st);
          findings = fold (\<lambda>db fs. if fst db \<in> set (iv_observed iv) then fs
            else add_finding (unobserved_key db) (bu_owners (snd db)) fs) builders (iv_findings iv);
          reachable = map reachable_of builders;
          frozen = freeze findings;
          complete = (\<not> list_ex (\<lambda>f. incomplete_kind (fk_kind (af_key f))) frozen) in
      ArtifactAudit
        \<lparr>aa_snapshot_sha256 = snapshot, aa_reachable = reachable, aa_findings = frozen, aa_complete = complete,
         aa_quarantine_allowed = (complete \<and> \<not> list_ex (\<lambda>f. af_owners f \<noteq> []) frozen
           \<and> list_all ra_bytes_verified reachable)\<rparr>)"

definition unusable_store_audit :: "string \<Rightarrow> finding_key \<Rightarrow> artifact_audit result" where
  "unusable_store_audit snapshot k =
     ArtifactAudit \<lparr>aa_snapshot_sha256 = snapshot, aa_reachable = [], aa_findings = freeze [(k, [])],
       aa_complete = False, aa_quarantine_allowed = False\<rparr>"

definition audit_artifact_store ::
    "(nat list \<Rightarrow> string) \<Rightarrow> cas_view \<Rightarrow> parsers \<Rightarrow> verified_run_root list \<Rightarrow> artifact_audit result" where
  "audit_artifact_store sha v ps roots =
     rbind (validate_roots (json_sha256 sha) roots) (\<lambda>(ordered, snapshot).
     if \<not> cv_root_identity_ok v then
       unusable_store_audit snapshot (simple_finding SCAN_ERROR ''.'' None (Some ''artifact_store_root_identity''))
     else
       case validate_store_root v of
         Some k \<Rightarrow> unusable_store_audit snapshot k
       | None \<Rightarrow>
           let (fs, kept) =
                 (if MAX_ROOTS < int (length ordered) then
                    (add_finding (simple_finding LIMIT_EXCEEDED ''.'' None (Some ''root_limit'')) [] [],
                     take (nat MAX_ROOTS) ordered)
                  else ([], ordered)) in
           rbind (initial_nodes kept) (\<lambda>pending.
           rbind (audit_loop sha v ps (manifest_of_run kept) 0 pending (initial_audit_state fs)) (\<lambda>st.
           finish_audit sha v snapshot st)))"

end
