(* ===== verification/Frames.thy ===== *)
theory Frames
  imports Guild_Prelude
begin

text \<open>
  What an operation may do to its state, as a preorder. The locale \<open>state_preorder\<close> lifts a preorder from
  primitive operations to every composition of them; it is interpreted on the worlds and file systems
  of the storage components. \<open>scatch\<close> is \<open>try: m except p: h\<close>.
\<close>

definition scatch :: "(exn \<Rightarrow> bool) \<Rightarrow> ('s, 'a) op \<Rightarrow> ('s, 'a) op \<Rightarrow> ('s, 'a) op" where
  "scatch p m h s = (case m s of (Inl e, t) \<Rightarrow> if p e then h t else (Inl e, t) | r \<Rightarrow> r)"

lemma scatch_Inr: "scatch p m h w = (Inr x, t) \<Longrightarrow> m w = (Inr x, t) \<or> (\<exists>e u. m w = (Inl e, u) \<and> h u = (Inr x, t))"
  by (auto simp: scatch_def split: prod.splits sum.splits if_splits)

locale state_preorder =
  fixes Q :: "'s \<Rightarrow> 's \<Rightarrow> bool"
  assumes Q_refl: "Q s s" and Q_trans: "Q s t \<Longrightarrow> Q t u \<Longrightarrow> Q s u"
begin

definition keeps :: "('s, 'a) op \<Rightarrow> bool" where
  "keeps m = (\<forall>s. Q s (snd (m s)))"

lemma keepsI: "(\<And>s. Q s (snd (m s))) \<Longrightarrow> keeps m"
  by (simp add: keeps_def)

lemma keepsD: "keeps m \<Longrightarrow> m s = (r, t) \<Longrightarrow> Q s t"
  unfolding keeps_def by (metis snd_conv)

lemma keeps_bind [intro]: "keeps m \<Longrightarrow> (\<And>x. keeps (f x)) \<Longrightarrow> keeps (sbind m f)"
  unfolding keeps_def sbind_def
  by (auto split: prod.splits sum.splits) (metis Q_trans snd_conv)+

lemma keeps_then [intro]: "keeps m \<Longrightarrow> keeps n \<Longrightarrow> keeps (sthen m n)"
  unfolding sthen_def by (rule keeps_bind)

lemma keeps_pure [intro, simp]:
  "keeps (sreturn x)" "keeps (sraise e)" "keeps (slift r)" "keeps (sread f)" "keeps (sguard b e)" "keeps (sget g)"
  by (simp_all add: keeps_def sreturn_def sraise_def slift_def sread_def sguard_def sget_def Q_refl)

lemma keeps_catch [intro]: "keeps m \<Longrightarrow> keeps h \<Longrightarrow> keeps (scatch p m h)"
  unfolding keeps_def scatch_def
  by (auto split: prod.splits sum.splits) (metis Q_trans snd_conv)+

lemma keeps_if [intro]: "keeps m \<Longrightarrow> keeps n \<Longrightarrow> keeps (if b then m else n)"
  by simp

lemma keeps_for [intro]: "(\<And>x. keeps (f x)) \<Longrightarrow> keeps (sfor xs f)"
  by (induction xs) auto

end

end
