(* ===== verification/Storage_Report.thy ===== *)
theory Storage_Report
  imports Event_Store Artifact_Audit Frames
begin

text \<open>
  Model of \<open>src/src/guildmind/storage/coordinator.py\<close>: one read-only audit of a state directory, the ledger
  and the artifact store together, and the gates derived from it.

  The outside world is a \<open>storage_world\<close>. Every observation (an \<open>lstat\<close> of one of the six paths, opening
  the database, entering or leaving its verified snapshot, opening the artifact store) is an answer
  of the world at the current tick, and advances the tick: two observations of the same path may
  differ. An opened database is the tables it holds, an opened artifact store is the view that the
  audit of \<open>Artifact_Audit\<close> reads.
\<close>

section \<open>Commitments and snapshots\<close>

record run_root_commitment =
  vc_run_id :: string
  vc_manifest_revision :: int
  vc_manifest_sha256 :: string
  vc_event_count :: nat
  vc_head_event_sha256 :: string

definition valid_commitment :: "run_root_commitment \<Rightarrow> bool" where
  "valid_commitment c =
     (vc_run_id c \<noteq> [] \<and> 0 \<le> vc_manifest_revision c \<and> is_lower_sha256 (vc_manifest_sha256 c)
      \<and> 1 \<le> vc_event_count c \<and> is_lower_sha256 (vc_head_event_sha256 c)
      \<and> py_strip (vc_run_id c) \<noteq> [] \<and> vc_manifest_revision c < int (vc_event_count c))"

definition commitment_json :: "run_root_commitment \<Rightarrow> json" where
  "commitment_json c =
     JObj [(''event_count'', JInt (int (vc_event_count c))),
       (''head_event_sha256'', JStr (vc_head_event_sha256 c)),
       (''manifest_revision'', JInt (vc_manifest_revision c)),
       (''manifest_sha256'', JStr (vc_manifest_sha256 c)), (''run_id'', JStr (vc_run_id c))]"

record ledger_snapshot =
  ls_snapshot_sha256 :: string
  ls_roots :: "run_root_commitment list"

definition identity_is_canonical :: "(json \<Rightarrow> string) \<Rightarrow> ledger_snapshot \<Rightarrow> bool" where
  "identity_is_canonical H s =
     (let run_ids = map vc_run_id (ls_roots s) in
      run_ids = sort (remdups run_ids)
      \<and> ls_snapshot_sha256 s = H (JObj [(''roots'', JArr (map commitment_json (ls_roots s))),
          (''schema_version'', JStr ''guildmind.verified-run-root-snapshot/v1'')]))"

definition valid_snapshot :: "(json \<Rightarrow> string) \<Rightarrow> ledger_snapshot \<Rightarrow> bool" where
  "valid_snapshot H s = (is_lower_sha256 (ls_snapshot_sha256 s) \<and> identity_is_canonical H s)"

definition contains_run :: "ledger_snapshot \<Rightarrow> string \<Rightarrow> bool" where
  "contains_run s run_id = list_ex (\<lambda>c. vc_run_id c = run_id) (ls_roots s)"

definition commitment_of :: "verified_run_root \<Rightarrow> run_root_commitment" where
  "commitment_of r =
     \<lparr>vc_run_id = root_run_id r, vc_manifest_revision = vrr_manifest_revision r,
      vc_manifest_sha256 = vrr_manifest_sha256 r, vc_event_count = vrr_event_count r,
      vc_head_event_sha256 = vrr_head_event_sha256 r\<rparr>"

definition make_ledger_snapshot :: "(json \<Rightarrow> string) \<Rightarrow> verified_run_root list \<Rightarrow> ledger_snapshot result" where
  "make_ledger_snapshot H roots =
     (let commitments = map commitment_of (sort_key root_run_id roots) in
      rbind (require (list_all valid_commitment commitments) ValidationError) (\<lambda>_.
      rbind (verified_run_roots_sha256 H roots) (\<lambda>digest.
      let s = \<lparr>ls_snapshot_sha256 = digest, ls_roots = commitments\<rparr> in
      rbind (require (valid_snapshot H s) ValidationError) (\<lambda>_. Inr s))))"

section \<open>The derived report\<close>

datatype integrity_state =
    UNINITIALIZED
  | DATABASE_MISSING_WITH_ARTIFACTS
  | DATABASE_INVALID
  | INITIALIZED_EMPTY
  | INITIALIZED_EMPTY_WITH_UNREFERENCED_FINDINGS
  | AUDIT_INCOMPLETE
  | REFERENCED_EVIDENCE_INVALID
  | HEALTHY_WITH_UNREFERENCED_FINDINGS
  | HEALTHY

record derivation =
  dv_state :: integrity_state
  dv_initialization_allowed :: bool
  dv_references_verified :: bool
  dv_read_allowed :: bool
  dv_mutation_allowed :: bool
  dv_quarantine_allowed :: bool
  dv_clean :: bool

definition refused :: "integrity_state \<Rightarrow> derivation" where
  "refused s =
     \<lparr>dv_state = s, dv_initialization_allowed = False, dv_references_verified = False, dv_read_allowed = False,
      dv_mutation_allowed = False, dv_quarantine_allowed = False, dv_clean = False\<rparr>"

definition derive_without_database :: "artifact_audit option \<Rightarrow> string option \<Rightarrow> derivation" where
  "derive_without_database audit diagnostic =
     (if (case diagnostic of None \<Rightarrow> False | Some d \<Rightarrow> starts_with ''state_directory_'' d) then refused DATABASE_INVALID
      else
        let artifact_content = (case audit of None \<Rightarrow> False | Some a \<Rightarrow> aa_findings a \<noteq> [] \<or> aa_reachable a \<noteq> []);
            state = (if artifact_content \<or> diagnostic \<noteq> None then DATABASE_MISSING_WITH_ARTIFACTS else UNINITIALIZED) in
        (refused state)\<lparr>dv_initialization_allowed := state = UNINITIALIZED, dv_clean := state = UNINITIALIZED\<rparr>)"

definition derive_bound :: "ledger_snapshot \<Rightarrow> artifact_audit \<Rightarrow> derivation" where
  "derive_bound snapshot audit =
     (let referenced_failure = (list_ex (\<lambda>f. af_owners f \<noteq> []) (aa_findings audit)
            \<or> list_ex (\<lambda>r. \<not> ra_bytes_verified r) (aa_reachable audit));
          references_verified = (aa_complete audit \<and> \<not> referenced_failure);
          state =
            (if referenced_failure then REFERENCED_EVIDENCE_INVALID
             else if \<not> aa_complete audit then AUDIT_INCOMPLETE
             else if aa_findings audit \<noteq> [] then
               (if ls_roots snapshot = [] then INITIALIZED_EMPTY_WITH_UNREFERENCED_FINDINGS
                else HEALTHY_WITH_UNREFERENCED_FINDINGS)
             else if ls_roots snapshot = [] then INITIALIZED_EMPTY
             else HEALTHY) in
      \<lparr>dv_state = state, dv_initialization_allowed = False, dv_references_verified = references_verified,
       dv_read_allowed = references_verified, dv_mutation_allowed = references_verified,
       dv_quarantine_allowed = (references_verified \<and> aa_quarantine_allowed audit),
       dv_clean = (state = INITIALIZED_EMPTY \<or> state = HEALTHY)\<rparr>)"

definition derive_report ::
    "bool \<Rightarrow> ledger_snapshot option \<Rightarrow> artifact_audit option \<Rightarrow> string option \<Rightarrow> derivation result" where
  "derive_report database_present snapshot audit diagnostic =
     (if \<not> database_present then Inr (derive_without_database audit diagnostic)
      else
        (case snapshot of
           None \<Rightarrow> Inr (refused DATABASE_INVALID)
         | Some s \<Rightarrow>
             if diagnostic \<noteq> None then Inr (refused AUDIT_INCOMPLETE)
             else
               (case audit of
                  None \<Rightarrow> Inl ValueError
                | Some a \<Rightarrow>
                    if aa_snapshot_sha256 a \<noteq> ls_snapshot_sha256 s then Inl ValueError
                    else Inr (derive_bound s a))))"

record storage_report =
  sr_state :: integrity_state
  sr_database_present :: bool
  sr_artifact_root_present :: bool
  sr_ledger_snapshot :: "ledger_snapshot option"
  sr_artifact_audit :: "artifact_audit option"
  sr_diagnostic :: "string option"
  sr_initialization_allowed :: bool
  sr_references_verified :: bool
  sr_read_allowed :: bool
  sr_mutation_allowed :: bool
  sr_quarantine_allowed :: bool
  sr_clean :: bool

definition state_and_gates_are_derived :: "storage_report \<Rightarrow> unit result" where
  "state_and_gates_are_derived r =
     rbind (derive_report (sr_database_present r) (sr_ledger_snapshot r) (sr_artifact_audit r) (sr_diagnostic r)) (\<lambda>d.
     rbind (require ((sr_state r, sr_initialization_allowed r, sr_references_verified r, sr_read_allowed r,
         sr_mutation_allowed r, sr_quarantine_allowed r, sr_clean r)
       = (dv_state d, dv_initialization_allowed d, dv_references_verified d, dv_read_allowed d,
         dv_mutation_allowed d, dv_quarantine_allowed d, dv_clean d)) ValueError) (\<lambda>_.
     require (case (sr_ledger_snapshot r, sr_artifact_audit r) of
         (Some s, Some a) \<Rightarrow> ls_snapshot_sha256 s = aa_snapshot_sha256 a | _ \<Rightarrow> True) ValueError))"

text \<open>A \<open>StorageIntegrityReport\<close> exists only when its validator passes; pydantic turns the \<open>ValueError\<close> of
  the validator into a \<open>ValidationError\<close>.\<close>

definition StorageIntegrityReport :: "storage_report \<Rightarrow> storage_report result" where
  "StorageIntegrityReport r =
     rbind (map_error (\<lambda>_. ValidationError) (state_and_gates_are_derived r)) (\<lambda>_. Inr r)"

definition make_report ::
    "bool \<Rightarrow> bool \<Rightarrow> ledger_snapshot option \<Rightarrow> artifact_audit option \<Rightarrow> string option \<Rightarrow> storage_report result" where
  "make_report database_present artifact_root_present snapshot audit diagnostic =
     rbind (derive_report database_present snapshot audit diagnostic) (\<lambda>d.
     StorageIntegrityReport
       \<lparr>sr_state = dv_state d, sr_database_present = database_present,
        sr_artifact_root_present = artifact_root_present, sr_ledger_snapshot = snapshot,
        sr_artifact_audit = audit, sr_diagnostic = diagnostic,
        sr_initialization_allowed = dv_initialization_allowed d,
        sr_references_verified = dv_references_verified d, sr_read_allowed = dv_read_allowed d,
        sr_mutation_allowed = dv_mutation_allowed d, sr_quarantine_allowed = dv_quarantine_allowed d,
        sr_clean = dv_clean d\<rparr>)"

section \<open>The outside world\<close>

datatype storage_path = StateDirectory | DatabaseFile | ArtifactRoot | WalFile | ShmFile | JournalFile

datatype path_kind = MISSING_PATH | DIRECTORY_PATH | REGULAR_PATH | SYMLINK_PATH | OTHER_PATH | ERROR_PATH

fun path_kind_value :: "path_kind \<Rightarrow> string" where
  "path_kind_value MISSING_PATH = ''missing''"
| "path_kind_value DIRECTORY_PATH = ''directory''"
| "path_kind_value REGULAR_PATH = ''regular''"
| "path_kind_value SYMLINK_PATH = ''symlink''"
| "path_kind_value OTHER_PATH = ''other''"
| "path_kind_value ERROR_PATH = ''error''"

record path_observation =
  po_kind :: path_kind
  po_error_number :: "int option"
  po_device :: "int option"
  po_inode :: "int option"

text \<open>An \<open>lstat\<close>: \<open>FileNotFoundError\<close>, another \<open>OSError\<close> with its number, or type, device and inode.\<close>

datatype path_lstat = PathAbsent | PathFailed "int option" | PathFound file_type int int

record storage_world =
  sw_tick :: nat
  sw_lstat :: "nat \<Rightarrow> storage_path \<Rightarrow> path_lstat"
  sw_database :: "nat \<Rightarrow> database result"
  sw_check :: "nat \<Rightarrow> unit result"
  sw_artifacts :: "nat \<Rightarrow> cas_view result"

definition answer :: "(storage_world \<Rightarrow> nat \<Rightarrow> 'a result) \<Rightarrow> (storage_world, 'a) op" where
  "answer f w = (f w (sw_tick w), w\<lparr>sw_tick := Suc (sw_tick w)\<rparr>)"

definition observation_of :: "path_lstat \<Rightarrow> path_observation" where
  "observation_of l =
     (case l of
        PathAbsent \<Rightarrow> \<lparr>po_kind = MISSING_PATH, po_error_number = None, po_device = None, po_inode = None\<rparr>
      | PathFailed e \<Rightarrow>
          \<lparr>po_kind = ERROR_PATH, po_error_number = Some (errno_of e), po_device = None, po_inode = None\<rparr>
      | PathFound ty device inode \<Rightarrow>
          \<lparr>po_kind = (case ty of FSymlink \<Rightarrow> SYMLINK_PATH | FDirectory \<Rightarrow> DIRECTORY_PATH | FRegular \<Rightarrow> REGULAR_PATH
              | FSpecial \<Rightarrow> OTHER_PATH),
           po_error_number = None, po_device = Some device, po_inode = Some inode\<rparr>)"

definition observe_path :: "storage_path \<Rightarrow> (storage_world, path_observation) op" where
  "observe_path p = answer (\<lambda>w n. Inr (observation_of (sw_lstat w n p)))"

definition require_same_path :: "storage_path \<Rightarrow> path_observation \<Rightarrow> (storage_world, unit) op" where
  "require_same_path p expected =
     sbind (observe_path p) (\<lambda>observed.
     sguard (po_kind observed = po_kind expected \<and> po_device observed = po_device expected
       \<and> po_inode observed = po_inode expected) StoreIntegrityError)"

fun paths_are_unchanged :: "(storage_path \<times> path_observation) list \<Rightarrow> (storage_world, bool) op" where
  "paths_are_unchanged [] = sreturn True"
| "paths_are_unchanged ((p, expected) # rest) =
     sbind (observe_path p) (\<lambda>observed.
     if observed = expected then paths_are_unchanged rest else sreturn False)"

definition path_diagnostic :: "string \<Rightarrow> path_observation \<Rightarrow> string" where
  "path_diagnostic name ob =
     name @ ''_'' @ path_kind_value (po_kind ob)
       @ (case po_error_number ob of None \<Rightarrow> '''' | Some n \<Rightarrow> ''_errno_'' @ show_int n)"

definition unstable_report :: "(storage_world, storage_report) op" where
  "unstable_report =
     sbind (observe_path StateDirectory) (\<lambda>state_observation.
     if po_kind state_observation \<noteq> DIRECTORY_PATH then
       slift (make_report False False None None (Some ''state_directory_changed_during_audit''))
     else
       sbind (observe_path DatabaseFile) (\<lambda>d.
       sbind (observe_path ArtifactRoot) (\<lambda>a.
       slift (make_report (po_kind d \<noteq> MISSING_PATH) (po_kind a \<noteq> MISSING_PATH) None None
         (Some ''storage_paths_changed_during_audit'')))))"

section \<open>The artifact audit of a snapshot\<close>

definition empty_audit :: "string \<Rightarrow> artifact_audit result" where
  "empty_audit digest =
     ArtifactAudit \<lparr>aa_snapshot_sha256 = digest, aa_reachable = [], aa_findings = [], aa_complete = True,
       aa_quarantine_allowed = True\<rparr>"

definition incomplete_audit :: "string \<Rightarrow> string \<Rightarrow> artifact_audit result" where
  "incomplete_audit digest detail =
     ArtifactAudit \<lparr>aa_snapshot_sha256 = digest, aa_reachable = [],
       aa_findings = [\<lparr>af_key = (simple_finding SCAN_ERROR ''.'' None (Some detail))
         \<lparr>fk_errno := if detail = ''artifact_store_missing'' then Some ENOENT else None\<rparr>, af_owners = []\<rparr>],
       aa_complete = False, aa_quarantine_allowed = False\<rparr>"

type_synonym missing_references = "(string \<times> int \<times> string list \<times> artifact_owner list) list"

fun add_missing :: "artifact_ref \<Rightarrow> artifact_owner \<Rightarrow> missing_references \<Rightarrow> missing_references" where
  "add_missing reference owner [] =
     [(ar_sha256 reference, ar_size_bytes reference, [ar_media_type reference], [owner])]"
| "add_missing reference owner ((digest, nbytes, media_types, owners) # rest) =
     (if digest = ar_sha256 reference
      then (digest, nbytes, ar_media_type reference # media_types, owner # owners) # rest
      else (digest, nbytes, media_types, owners) # add_missing reference owner rest)"

definition missing_references_of :: "verified_run_root list \<Rightarrow> missing_references result" where
  "missing_references_of roots =
     rfold (\<lambda>r refs. rfold (\<lambda>(role, reference) refs'.
         rbind (make_owner (root_run_id r) [role]) (\<lambda>owner. Inr (add_missing reference owner refs')))
       (rm_artifacts (vrr_manifest r)) refs) roots []"

definition missing_store_audit :: "verified_run_root list \<Rightarrow> string \<Rightarrow> artifact_audit result" where
  "missing_store_audit roots digest =
     rbind (missing_references_of roots) (\<lambda>refs.
     let ordered = sort_key fst refs in
     ArtifactAudit
       \<lparr>aa_snapshot_sha256 = digest,
        aa_reachable = map (\<lambda>(d, nbytes, media_types, owners).
          \<lparr>ra_sha256 = d, ra_size_bytes = nbytes, ra_storage_ref = canonical_relative_path d,
           ra_media_types = sort (remdups media_types), ra_owners = sorted_owners owners,
           ra_bytes_verified = False\<rparr>) ordered,
        aa_findings = map (\<lambda>(d, nbytes, media_types, owners).
          \<lparr>af_key = \<lparr>fk_kind = MISSING_REFERENCED, fk_relative_path = canonical_relative_path d,
             fk_expected_sha256 = Some d, fk_observed_sha256 = None, fk_size_bytes = Some nbytes,
             fk_detail = Some ''artifact_store_missing'', fk_errno = Some ENOENT\<rparr>,
           af_owners = sorted_owners owners\<rparr>) ordered,
        aa_complete = True, aa_quarantine_allowed = False\<rparr>)"

text \<open>\<open>except (ArtifactCorruptionError, OSError, StoreIntegrityError, ValueError)\<close>.\<close>

definition is_value_error :: "exn \<Rightarrow> bool" where
  "is_value_error e =
     (e \<in> {ValueError, ValidationError, FixtureConfigurationError, SandboxConfigurationError,
        CampaignConfigurationError, PatchValidationError})"

definition store_open_failure :: "exn \<Rightarrow> bool" where
  "store_open_failure e = (e \<in> {ArtifactCorruptionError, OSError, StoreIntegrityError} \<or> is_value_error e)"

definition open_and_audit ::
    "(nat list \<Rightarrow> string) \<Rightarrow> parsers \<Rightarrow> verified_run_root list \<Rightarrow> path_observation \<Rightarrow> (storage_world, artifact_audit) op" where
  "open_and_audit sha ps roots ob =
     sbind (answer sw_artifacts) (\<lambda>v.
     sbind (slift (audit_artifact_store sha v ps roots)) (\<lambda>audit.
     sthen (require_same_path ArtifactRoot ob) (sreturn audit)))"

definition audit_for_snapshot ::
    "(nat list \<Rightarrow> string) \<Rightarrow> parsers \<Rightarrow> verified_run_root list \<Rightarrow> ledger_snapshot \<Rightarrow> path_observation
      \<Rightarrow> (storage_world, artifact_audit) op" where
  "audit_for_snapshot sha ps roots snapshot ob =
     (if po_kind ob = DIRECTORY_PATH then
        sbind (scatch store_open_failure
          (sbind (open_and_audit sha ps roots ob) (\<lambda>a. sreturn (Some a)))
          (sreturn None)) (\<lambda>opened.
        case opened of
          None \<Rightarrow> slift (incomplete_audit (ls_snapshot_sha256 snapshot) ''artifact_store_open_failed'')
        | Some audit \<Rightarrow>
            sthen (sguard (aa_snapshot_sha256 audit = ls_snapshot_sha256 snapshot) ValueError) (sreturn audit))
      else if po_kind ob = MISSING_PATH then
        (if list_ex (\<lambda>r. rm_artifacts (vrr_manifest r) \<noteq> []) roots
         then slift (missing_store_audit roots (ls_snapshot_sha256 snapshot))
         else slift (empty_audit (ls_snapshot_sha256 snapshot)))
      else slift (incomplete_audit (ls_snapshot_sha256 snapshot) ''artifact_store_path_invalid''))"

definition audit_without_database ::
    "(nat list \<Rightarrow> string) \<Rightarrow> parsers \<Rightarrow> path_observation \<Rightarrow> (storage_world, artifact_audit option) op" where
  "audit_without_database sha ps ob =
     (if po_kind ob = MISSING_PATH then sreturn None
      else
        sbind (slift (make_ledger_snapshot (json_sha256 sha) [])) (\<lambda>snapshot.
        if po_kind ob \<noteq> DIRECTORY_PATH then
          sbind (slift (incomplete_audit (ls_snapshot_sha256 snapshot) ''artifact_store_path_invalid''))
            (\<lambda>a. sreturn (Some a))
        else
          scatch store_open_failure
            (sbind (open_and_audit sha ps [] ob) (\<lambda>a. sreturn (Some a)))
            (sbind (slift (incomplete_audit (ls_snapshot_sha256 snapshot) ''artifact_store_open_failed''))
              (\<lambda>a. sreturn (Some a)))))"

section \<open>The coordinated audit\<close>

definition sidecar_paths :: "(storage_path \<times> string) list" where
  "sidecar_paths = [(WalFile, ''database_wal''), (ShmFile, ''database_shm''), (JournalFile, ''database_journal'')]"

fun observe_sidecars :: "(storage_path \<times> string) list
    \<Rightarrow> (storage_world, (storage_path \<times> string \<times> path_observation) list) op" where
  "observe_sidecars [] = sreturn []"
| "observe_sidecars ((p, name) # rest) =
     sbind (observe_path p) (\<lambda>ob. sbind (observe_sidecars rest) (\<lambda>obs. sreturn ((p, name, ob) # obs)))"

definition artifact_root_diagnostic :: "path_observation \<Rightarrow> string option" where
  "artifact_root_diagnostic ob =
     (if po_kind ob \<notin> {MISSING_PATH, DIRECTORY_PATH} then Some (path_diagnostic ''artifact_root'' ob) else None)"

definition sidecar_diagnostic :: "(storage_path \<times> string \<times> path_observation) list \<Rightarrow> string option \<Rightarrow> string option" where
  "sidecar_diagnostic sidecars diagnostic =
     (case find (\<lambda>(p, name, ob). po_kind ob \<noteq> MISSING_PATH) sidecars of
        None \<Rightarrow> diagnostic
      | Some (p, name, ob) \<Rightarrow> Some (path_diagnostic name ob))"

text \<open>\<open>EventStore.verified_snapshot\<close>: the checks on entry, the verified roots, and the check on leaving.\<close>

definition verified_snapshot ::
    "(json \<Rightarrow> string) \<Rightarrow> database \<Rightarrow> (verified_run_root list \<Rightarrow> (storage_world, 'a) op) \<Rightarrow> (storage_world, 'a) op" where
  "verified_snapshot H db body =
     sthen (answer sw_check)
     (sbind (slift (map_error (\<lambda>e. if validation_failure e then StoreIntegrityError else e) (verified_roots H db))) (\<lambda>roots.
      sbind (body roots) (\<lambda>result.
      sthen (answer sw_check) (sreturn result))))"

definition database_failure :: "exn \<Rightarrow> bool" where
  "database_failure e = (e \<in> {OSError, DatabaseError, StoreIntegrityError} \<or> is_value_error e)"

definition audit_verified_database ::
    "(nat list \<Rightarrow> string) \<Rightarrow> parsers \<Rightarrow> path_observation \<Rightarrow> path_observation \<Rightarrow> path_observation
      \<Rightarrow> (storage_path \<times> string \<times> path_observation) list \<Rightarrow> (storage_world, ledger_snapshot \<times> artifact_audit) op" where
  "audit_verified_database sha ps so ob ao sidecars =
     sbind (answer sw_database) (\<lambda>db.
     verified_snapshot (json_sha256 sha) db (\<lambda>roots.
       sthen (require_same_path StateDirectory so)
       (sthen (require_same_path DatabaseFile ob)
       (sbind (slift (make_ledger_snapshot (json_sha256 sha) roots)) (\<lambda>snapshot.
        sbind (audit_for_snapshot sha ps roots snapshot ao) (\<lambda>audit.
        sthen (require_same_path StateDirectory so)
       (sthen (require_same_path DatabaseFile ob)
       (sthen (require_same_path ArtifactRoot ao)
       (sthen (sfor sidecars (\<lambda>(p, name, observed). require_same_path p observed))
       (sreturn (snapshot, audit)))))))))))"

text \<open>The report when there is no regular database file: what the artifact root holds is audited against
  an empty ledger, and the paths are observed again.\<close>

definition report_without_ledger ::
    "(nat list \<Rightarrow> string) \<Rightarrow> parsers \<Rightarrow> bool \<Rightarrow> path_observation \<Rightarrow> (storage_path \<times> path_observation) list
      \<Rightarrow> string option \<Rightarrow> (storage_world, storage_report) op" where
  "report_without_ledger sha ps database_present ao observed_paths diagnostic =
     sbind (audit_without_database sha ps ao) (\<lambda>audit.
     sbind (paths_are_unchanged observed_paths) (\<lambda>same.
     if \<not> same then unstable_report
     else slift (make_report database_present (po_kind ao \<noteq> MISSING_PATH) None audit diagnostic)))"

definition audit_storage ::
    "(nat list \<Rightarrow> string) \<Rightarrow> parsers \<Rightarrow> (storage_world, storage_report) op" where
  "audit_storage sha ps =
     sbind (observe_path StateDirectory) (\<lambda>so.
     if po_kind so = MISSING_PATH then
       sbind (paths_are_unchanged [(StateDirectory, so)]) (\<lambda>same.
       slift (make_report False False None None
         (if same then None else Some ''state_directory_changed_during_audit'')))
     else if po_kind so \<noteq> DIRECTORY_PATH then
       slift (make_report False False None None (Some (path_diagnostic ''state_directory'' so)))
     else
       sbind (observe_path DatabaseFile) (\<lambda>ob.
       sbind (observe_path ArtifactRoot) (\<lambda>ao.
       sbind (observe_sidecars sidecar_paths) (\<lambda>sidecars.
       let observed_paths = (StateDirectory, so) # (DatabaseFile, ob) # (ArtifactRoot, ao)
             # map (\<lambda>(p, name, s). (p, s)) sidecars;
           artifact_present = (po_kind ao \<noteq> MISSING_PATH) in
       if po_kind ob = MISSING_PATH then
         report_without_ledger sha ps False ao observed_paths
           (sidecar_diagnostic sidecars (artifact_root_diagnostic ao))
       else if po_kind ob \<noteq> REGULAR_PATH then
         report_without_ledger sha ps True ao observed_paths (Some (path_diagnostic ''database'' ob))
       else
         sbind (scatch database_failure
           (sbind (audit_verified_database sha ps so ob ao sidecars) (\<lambda>r. sreturn (Some r)))
           (sreturn None)) (\<lambda>opened.
         case opened of
           None \<Rightarrow> slift (make_report True artifact_present None None
             (Some ''database_integrity_validation_failed''))
         | Some (snapshot, audit) \<Rightarrow>
             slift (make_report True artifact_present (Some snapshot) (Some audit)
               (artifact_root_diagnostic ao)))))))"

end
