(* ===== verification/Audit_Properties.thy ===== *)
theory Audit_Properties
  imports Artifact_Audit
begin

text \<open>
  What the artifact audit guarantees. Findings are only ever added, so an audit that ends without a
  finding that has owners and without a scan error or exceeded limit (a clean one) had none at any
  point; this turns each guard of the audit into a fact about every artifact it followed.
\<close>

section \<open>Clean findings\<close>

definition clean :: "finding_builders \<Rightarrow> bool" where
  "clean fs = (\<forall>(k, os) \<in> set fs. os = [] \<and> \<not> incomplete_kind (fk_kind k))"

lemma clean_Nil [simp]: "clean []"
  by (simp add: clean_def)

lemma clean_Cons [simp]: "clean ((k, os) # fs) \<longleftrightarrow> os = [] \<and> \<not> incomplete_kind (fk_kind k) \<and> clean fs"
  by (simp add: clean_def)

lemma clean_add [simp]:
  "clean (add_finding k os fs) \<longleftrightarrow> clean fs \<and> os = [] \<and> \<not> incomplete_kind (fk_kind k)"
  by (induction k os fs rule: add_finding.induct) auto

lemma clean_note_finding [simp]:
  "clean (as_findings (note_finding k os st)) \<longleftrightarrow> clean (as_findings st) \<and> os = [] \<and> \<not> incomplete_kind (fk_kind k)"
  by (simp add: note_finding_def)

lemma corrupt_kind [simp]: "fk_kind (corrupt_key r d) = CORRUPT_REFERENCED"
  by (simp add: corrupt_key_def)

lemma incomplete_kinds [simp]:
  "\<not> incomplete_kind CORRUPT_REFERENCED" "\<not> incomplete_kind MISSING_REFERENCED"
  "incomplete_kind SCAN_ERROR" "incomplete_kind LIMIT_EXCEEDED"
  by (simp_all add: incomplete_kind_def)

lemma clean_note_corrupt [simp]:
  "clean (as_findings (note_corrupt r d os st)) \<longleftrightarrow> clean (as_findings st) \<and> os = []"
  by (simp add: note_corrupt_def)

lemma clean_note_if [simp]:
  "os \<noteq> [] \<Longrightarrow> clean (as_findings (note_if b r d os st)) \<longleftrightarrow> clean (as_findings st) \<and> \<not> b"
  by (simp add: note_if_def)

lemma note_other_fields [simp]:
  "as_builders (note_finding k os st) = as_builders st" "as_reads (note_finding k os st) = as_reads st"
  "as_tasks (note_finding k os st) = as_tasks st" "as_evaluations (note_finding k os st) = as_evaluations st"
  "as_hash_used (note_finding k os st) = as_hash_used st"
  "as_builders (note_corrupt r d os st) = as_builders st" "as_reads (note_corrupt r d os st) = as_reads st"
  "as_tasks (note_corrupt r d os st) = as_tasks st" "as_evaluations (note_corrupt r d os st) = as_evaluations st"
  "as_hash_used (note_corrupt r d os st) = as_hash_used st"
  "as_builders (note_if b r d os st) = as_builders st" "as_reads (note_if b r d os st) = as_reads st"
  "as_tasks (note_if b r d os st) = as_tasks st" "as_evaluations (note_if b r d os st) = as_evaluations st"
  "as_hash_used (note_if b r d os st) = as_hash_used st"
  by (simp_all add: note_finding_def note_corrupt_def note_if_def)

section \<open>Verified bytes\<close>

definition content :: "cas_view \<Rightarrow> string \<Rightarrow> nat list" where
  "content v d = (case cv_open v [''sha256'', take 2 d, d] of Opened _ data _ \<Rightarrow> data | OpenError _ \<Rightarrow> [])"

text \<open>A reference is intact: it names the canonical path of its digest, and what is found there is a
  regular file with one link, of the claimed size, whose bytes have the claimed digest.\<close>

definition intact :: "(nat list \<Rightarrow> string) \<Rightarrow> cas_view \<Rightarrow> artifact_ref \<Rightarrow> bool" where
  "intact sha v r =
     (ar_storage_ref r = canonical_relative_path (ar_sha256 r)
      \<and> (\<exists>m. cv_open v [''sha256'', take 2 (ar_sha256 r), ar_sha256 r]
              = Opened m (content v (ar_sha256 r)) None \<and> is_regular m \<and> st_nlink m = 1)
      \<and> int (length (content v (ar_sha256 r))) = ar_size_bytes r
      \<and> sha (content v (ar_sha256 r)) = ar_sha256 r)"

lemma hash_reference_Hashed:
  assumes "hash_reference data failure n seen acc used = (Hashed t bs, used')"
    and "seen \<le> n" and "used \<le> MAX_TOTAL_HASHED_BYTES"
  shows "failure = None \<and> bs = acc @ data \<and> t = seen + int (length data)"
  using assms
proof (induction data failure n seen acc used rule: hash_reference.induct)
  case (1 data failure n seen acc used)
  let ?k = "min READ_CHUNK_BYTES (min (n - seen + 1) (MAX_TOTAL_HASHED_BYTES - used + 1))"
  let ?chunk = "take (nat ?k) data"
  have "0 < ?k" using "1.prems"(2,3) by (simp add: READ_CHUNK_BYTES_def)
  then have k: "nat ?k \<noteq> 0" by linarith
  show ?case
  proof (cases "?chunk = []")
    case True
    with k have "data = []" by (simp only: take_eq_Nil) blast
    with "1.prems"(1) show ?thesis
      by (simp add: hash_reference.simps [of "[]"] Let_def split: option.splits)
  next
    case False
    let ?next = "seen + int (length ?chunk)"
    have g: "\<not> n < ?next" "\<not> MAX_TOTAL_HASHED_BYTES - used < int (length ?chunk)"
      and rec: "hash_reference (drop (nat ?k) data) failure n ?next (acc @ ?chunk) (used + int (length ?chunk)) = (Hashed t bs, used')"
      using "1.prems"(1) False
      by (simp_all only: hash_reference.simps [of data] Let_def if_False split: if_splits) simp_all
    have "?next \<le> n" "used + int (length ?chunk) \<le> MAX_TOTAL_HASHED_BYTES" using g by linarith+
    from "1.IH" [OF refl refl refl False refl g rec this]
    have h: "failure = None" "bs = (acc @ ?chunk) @ drop (nat ?k) data" "t = ?next + int (length (drop (nat ?k) data))"
      by blast+
    have "?chunk @ drop (nat ?k) data = data" by (rule append_take_drop_id)
    then have "bs = acc @ data" "int (length ?chunk) + int (length (drop (nat ?k) data)) = int (length data)"
      using h(2) by (metis append_assoc, metis length_append of_nat_add)
    with h(1,3) show ?thesis by linarith
  qed
qed

lemma read_open_ok:
  assumes "read_open_reference sha r capture opened used = (ReadOk h n dat, used')"
    and "ar_storage_ref r = canonical_relative_path (ar_sha256 r)"
    and "opened = cv_open v [''sha256'', take 2 (ar_sha256 r), ar_sha256 r]"
  shows "intact sha v r \<and> n = ar_size_bytes r \<and> dat = (if capture then Some (content v (ar_sha256 r)) else None)"
proof -
  obtain m data failure where op: "opened = Opened m data failure"
    using assms(1) by (cases opened) (simp_all add: read_open_reference_def)
  obtain res u where h: "hash_reference data failure (ar_size_bytes r) 0 [] used = (res, u)"
    by (cases "hash_reference data failure (ar_size_bytes r) 0 [] used")
  have g: "is_regular m" "st_nlink m = 1" "st_size m = ar_size_bytes r" "\<not> MAX_TOTAL_HASHED_BYTES - used < st_size m"
    using assms(1) unfolding op read_open_reference_def by (auto split: if_splits)
  have e: "(case res of
      Grew k \<Rightarrow> (ReadFailed CORRUPT_REFERENCED None (Some k) ''referenced_grew_beyond_claimed_size'' None, u)
    | OverBudget k \<Rightarrow> (ReadFailed LIMIT_EXCEEDED None (Some k) ''total_hashed_bytes'' None, u)
    | ReadBroke e \<Rightarrow> (ReadFailed CORRUPT_REFERENCED None None ''referenced_read'' (Some (errno_of e)), u)
    | Hashed t bs \<Rightarrow> if t \<noteq> ar_size_bytes r \<or> sha bs \<noteq> ar_sha256 r
        then (ReadFailed CORRUPT_REFERENCED (Some (sha bs)) (Some t) ''byte_identity'' None, u)
        else (ReadOk (sha bs) t (if capture then Some bs else None), u)) = (ReadOk h n dat, used')"
    using assms(1) [unfolded op read_open_reference_def open_result.case h prod.case]
    by (simp only: g(1-3) g(4) [unfolded g(3)] simp_thms if_False)
  obtain t bs where r1: "res = Hashed t bs" using e by (cases res) simp_all
  have r2: "\<not> (t \<noteq> ar_size_bytes r \<or> sha bs \<noteq> ar_sha256 r)"
    using e unfolding r1 hash_loop.case by (metis blob_read.distinct(1) prod.inject)
  then have "(ReadOk (sha bs) t (if capture then Some bs else None), u) = (ReadOk h n dat, used')"
    using e unfolding r1 hash_loop.case by (simp only: if_False)
  with r1 r2 have res: "res = Hashed t bs" "t = ar_size_bytes r" "sha bs = ar_sha256 r" "n = t"
      "dat = (if capture then Some bs else None)"
    by simp_all
  have nonneg: "0 \<le> ar_size_bytes r"
  proof (rule ccontr)
    assume "\<not> 0 \<le> ar_size_bytes r"
    then have "nat (min READ_CHUNK_BYTES (min (ar_size_bytes r - 0 + 1) (MAX_TOTAL_HASHED_BYTES - used + 1))) = 0" by simp
    then have "take (nat (min READ_CHUNK_BYTES (min (ar_size_bytes r - 0 + 1) (MAX_TOTAL_HASHED_BYTES - used + 1)))) data = []"
      by (simp only: take_0)
    then have "fst (hash_reference data failure (ar_size_bytes r) 0 [] used)
        = (case failure of None \<Rightarrow> Hashed 0 [] | Some e \<Rightarrow> ReadBroke e)"
      by (simp only: hash_reference.simps [of data] Let_def simp_thms if_True fst_conv)
    with h res(1,2) \<open>\<not> 0 \<le> ar_size_bytes r\<close> show False by (simp split: option.splits)
  qed
  have "failure = None \<and> bs = [] @ data \<and> t = 0 + int (length data)"
    by (rule hash_reference_Hashed [OF h [unfolded res(1)] nonneg]) (use g nonneg in simp)
  then show ?thesis
    using op assms(2,3) g(1,2) res by (auto simp: intact_def content_def)
qed

lemma component_check_kind:
  "component_check b l = Some r \<Longrightarrow> \<exists>fk obs n d e. r = ReadFailed fk obs n d e \<and> fk \<notin> {VALID_FINALIZED_ORPHAN, CORRUPT_FINALIZED_ORPHAN}"
  by (auto simp: component_check_def split: lstat_result.splits if_splits)

lemma first_failure_in: "first_failure rs = Some r \<Longrightarrow> Some r \<in> set rs"
  by (induction rs rule: first_failure.induct) auto

lemma read_reference_cases:
  obtains (failed) fk obs n d e where "fst (read_reference sha v r capture used) = ReadFailed fk obs n d e"
    "fk \<notin> {VALID_FINALIZED_ORPHAN, CORRUPT_FINALIZED_ORPHAN}"
  | (opened) "ar_storage_ref r = canonical_relative_path (ar_sha256 r)"
    "read_reference sha v r capture used =
       read_open_reference sha r capture (cv_open v [''sha256'', take 2 (ar_sha256 r), ar_sha256 r]) used"
proof -
  let ?cs = "[component_check True (cv_lstat v [''sha256'']),
    component_check True (cv_lstat v [''sha256'', take 2 (ar_sha256 r)]),
    component_check False (cv_lstat v [''sha256'', take 2 (ar_sha256 r), ar_sha256 r])]"
  consider (a) "ar_storage_ref r \<noteq> canonical_relative_path (ar_sha256 r)"
    | (b) "MAX_ARTIFACT_BYTES < ar_size_bytes r" | (c) "capture" "MAX_STRUCTURED_BYTES < ar_size_bytes r"
    | (d) "ar_storage_ref r = canonical_relative_path (ar_sha256 r)" "\<not> MAX_ARTIFACT_BYTES < ar_size_bytes r"
      "\<not> (capture \<and> MAX_STRUCTURED_BYTES < ar_size_bytes r)"
    by blast
  moreover have early: "\<exists>fk obs n d e. fst (read_reference sha v r capture used) = ReadFailed fk obs n d e
      \<and> fk \<notin> {VALID_FINALIZED_ORPHAN, CORRUPT_FINALIZED_ORPHAN}"
    if "MAX_ARTIFACT_BYTES < ar_size_bytes r \<or> capture \<and> MAX_STRUCTURED_BYTES < ar_size_bytes r"
    using that by (auto simp: read_reference_def Let_def)
  ultimately show thesis
  proof cases
    case d
    show thesis
    proof (cases "first_failure ?cs")
      case None
      with d have "read_reference sha v r capture used =
         read_open_reference sha r capture (cv_open v [''sha256'', take 2 (ar_sha256 r), ar_sha256 r]) used"
        by (auto simp: read_reference_def Let_def)
      with d(1) that(2) show thesis by blast
    next
      case (Some x)
      from first_failure_in [OF this] component_check_kind obtain fk obs n y e
        where "x = ReadFailed fk obs n y e" "fk \<notin> {VALID_FINALIZED_ORPHAN, CORRUPT_FINALIZED_ORPHAN}"
        by (simp only: list.set insert_iff empty_iff) metis
      with Some d have "fst (read_reference sha v r capture used) = ReadFailed fk obs n y e"
        by (auto simp: read_reference_def Let_def)
      with \<open>fk \<notin> _\<close> that(1) show thesis by blast
    qed
  next
    case a
    then have "fst (read_reference sha v r capture used) = ReadFailed CORRUPT_REFERENCED None None ''noncanonical_storage_ref'' None"
      by (simp add: read_reference_def Let_def)
    then show thesis by (rule that(1)) simp
  qed (use early that(1) in blast)+
qed

lemma read_reference_ok:
  assumes "read_reference sha v r capture used = (ReadOk h n dat, used')"
  shows "intact sha v r \<and> n = ar_size_bytes r \<and> dat = (if capture then Some (content v (ar_sha256 r)) else None)"
proof (rule read_reference_cases [of sha v r capture used])
  assume "ar_storage_ref r = canonical_relative_path (ar_sha256 r)"
    "read_reference sha v r capture used =
       read_open_reference sha r capture (cv_open v [''sha256'', take 2 (ar_sha256 r), ar_sha256 r]) used"
  with assms show ?thesis using read_open_ok by metis
qed (simp add: assms)

lemma read_open_reference_kind:
  assumes "fst (read_open_reference sha r capture opened used) = ReadFailed fk obs n d e"
  shows "fk \<notin> {VALID_FINALIZED_ORPHAN, CORRUPT_FINALIZED_ORPHAN}"
proof (cases opened)
  case (OpenError x)
  with assms show ?thesis by (auto simp: read_open_reference_def split: if_splits)
next
  case (Opened m data failure)
  show ?thesis
  proof (cases "hash_reference data failure (ar_size_bytes r) 0 [] used")
    case (Pair res u)
    with Opened assms show ?thesis
      by (cases res) (auto simp: read_open_reference_def split: if_splits)
  qed
qed

lemma read_reference_kind:
  assumes "read_reference sha v r capture used = (ReadFailed fk obs n d e, used')"
  shows "fk \<notin> {VALID_FINALIZED_ORPHAN, CORRUPT_FINALIZED_ORPHAN}"
proof (rule read_reference_cases [of sha v r capture used])
  assume "read_reference sha v r capture used =
       read_open_reference sha r capture (cv_open v [''sha256'', take 2 (ar_sha256 r), ar_sha256 r]) used"
  then show ?thesis using assms read_open_reference_kind by (metis fst_conv)
qed (simp add: assms)

section \<open>Following the references\<close>

text \<open>What the cache of reads knows: a successful read was of an intact reference, captured bytes are the
  content of the file, and no read is recorded under a kind that only orphans have.\<close>

definition orphan_kind :: "finding_kind \<Rightarrow> bool" where
  "orphan_kind k = (k \<in> {VALID_FINALIZED_ORPHAN, CORRUPT_FINALIZED_ORPHAN})"

definition sound_read :: "(nat list \<Rightarrow> string) \<Rightarrow> cas_view \<Rightarrow> artifact_ref \<Rightarrow> blob_read \<Rightarrow> bool" where
  "sound_read sha v r b =
     (case b of
        ReadOk _ n dat \<Rightarrow> intact sha v r \<and> n = ar_size_bytes r \<and> (dat = None \<or> dat = Some (content v (ar_sha256 r)))
      | ReadFailed k _ _ _ _ \<Rightarrow> \<not> orphan_kind k)"

definition sound_cache :: "(nat list \<Rightarrow> string) \<Rightarrow> cas_view \<Rightarrow> audit_state \<Rightarrow> bool" where
  "sound_cache sha v st = (\<forall>r b. map_of (as_reads st) (cache_key r) = Some b \<longrightarrow> sound_read sha v r b)"

lemma cache_key_intact:
  "cache_key r = cache_key s \<Longrightarrow> sound_read sha v r b \<longleftrightarrow> sound_read sha v s b"
  by (cases b) (auto simp: cache_key_def sound_read_def intact_def)

lemma read_reference_sound: "sound_read sha v r (fst (read_reference sha v r capture used))"
proof (cases "read_reference sha v r capture used")
  case (Pair b u)
  then show ?thesis
    using read_reference_ok [of sha v r capture used] read_reference_kind [of sha v r capture used]
    by (cases b) (auto simp: sound_read_def orphan_kind_def)
qed

lemma cached_read_props:
  assumes "cached_read sha v node st = (b, st')" and "sound_cache sha v st"
  shows "sound_cache sha v st'" "sound_read sha v (rn_reference node) b"
    "as_findings st' = as_findings st" "as_builders st' = as_builders st"
    "as_tasks st' = as_tasks st" "as_evaluations st' = as_evaluations st"
    "b = ReadOk h n dat \<Longrightarrow> rn_structured_role node \<noteq> None \<Longrightarrow> dat = Some (content v (ar_sha256 (rn_reference node)))"
proof -
  let ?r = "rn_reference node" and ?c = "rn_structured_role node \<noteq> None"
  let ?cached = "map_of (as_reads st) (cache_key ?r)"
  show "as_findings st' = as_findings st" "as_builders st' = as_builders st"
    "as_tasks st' = as_tasks st" "as_evaluations st' = as_evaluations st"
    using assms(1) by (auto simp: cached_read_def Let_def split: if_splits prod.splits)
  show "sound_read sha v ?r b"
  proof (cases "needs_read ?c ?cached")
    case True
    then have "b = fst (read_reference sha v ?r ?c (as_hash_used st))"
      using assms(1) by (auto simp: cached_read_def Let_def split: prod.splits)
    then show ?thesis by (simp add: read_reference_sound)
  next
    case False
    then obtain x where "?cached = Some x" by (cases ?cached) (simp_all add: needs_read_def)
    with False assms show ?thesis by (auto simp: cached_read_def Let_def sound_cache_def)
  qed
  show "sound_cache sha v st'"
  proof (cases "needs_read ?c ?cached")
    case True
    then have "as_reads st' = AList.update (cache_key ?r) (fst (read_reference sha v ?r ?c (as_hash_used st))) (as_reads st)"
      using assms(1) by (auto simp: cached_read_def Let_def split: prod.splits)
    then have reads: "map_of (as_reads st') k = (if k = cache_key ?r then Some (fst (read_reference sha v ?r ?c (as_hash_used st)))
        else map_of (as_reads st) k)" for k
      by (simp add: update_conv)
    show ?thesis
      unfolding sound_cache_def
    proof (intro allI impI)
      fix r d assume d: "map_of (as_reads st') (cache_key r) = Some d"
      show "sound_read sha v r d"
      proof (cases "cache_key r = cache_key ?r")
        case True
        then have "d = fst (read_reference sha v ?r ?c (as_hash_used st))" using d reads by simp
        then show ?thesis using cache_key_intact [OF True] read_reference_sound by simp
      next
        case False
        then show ?thesis using d reads assms(2) by (simp add: sound_cache_def)
      qed
    qed
  next
    case False
    with assms show ?thesis by (auto simp: cached_read_def Let_def)
  qed
  assume b: "b = ReadOk h n dat" and c: "?c"
  show "dat = Some (content v (ar_sha256 ?r))"
  proof (cases "needs_read ?c ?cached")
    case True
    then have "fst (read_reference sha v ?r ?c (as_hash_used st)) = ReadOk h n dat"
      using assms(1) b by (auto simp: cached_read_def Let_def split: prod.splits)
    then show ?thesis
      using read_reference_ok [of sha v ?r ?c "as_hash_used st" h n dat] c by (metis prod.collapse)
  next
    case False
    then have "the ?cached = b" using assms(1) by (auto simp: cached_read_def Let_def)
    moreover obtain y where "?cached = Some y" using False by (cases ?cached) (simp_all add: needs_read_def)
    ultimately have x: "?cached = Some b" by simp
    then have "\<not> needs_read True (Some (ReadOk h n dat))" using False b c by simp
    then have "dat \<noteq> None" by (simp add: needs_read_def)
    moreover have "sound_read sha v ?r b" using assms(2) x by (simp add: sound_cache_def)
    ultimately show ?thesis using b by (auto simp: sound_read_def)
  qed
qed

definition task_refs :: "task_spec \<Rightarrow> artifact_ref list" where
  "task_refs t = ts_problem_statement t # ts_repository_snapshot t # ts_visible_tests t"

lemma reference_nodes_refs:
  assumes "reference_nodes run_id refs = Inr nodes"
  shows "map rn_reference nodes = map snd refs"
proof -
  have "rfold (\<lambda>(path, reference) nodes. rbind (reference_node_of run_id path reference) (\<lambda>n. Inr (nodes @ [n]))) refs acc = Inr nodes
      \<Longrightarrow> map rn_reference nodes = map rn_reference acc @ map snd refs" for acc
  proof (induction refs arbitrary: acc)
    case (Cons x refs)
    obtain path r where x: "x = (path, r)" by (cases x)
    from Cons.prems obtain n where n: "reference_node_of run_id path r = Inr n"
      and rest: "rfold (\<lambda>(path, reference) nodes. rbind (reference_node_of run_id path reference) (\<lambda>n. Inr (nodes @ [n]))) refs (acc @ [n]) = Inr nodes"
      by (auto simp: x rbind_eq_Inr)
    have "rn_reference n = r" using n by (auto simp: reference_node_of_def rbind_eq_Inr)
    with Cons.IH [OF rest] x show ?case by simp
  qed simp
  from this [of "[]"] assms show ?thesis by (simp add: reference_nodes_def)
qed

lemma indexed_refs_refs: "map snd (indexed_refs path refs) = refs"
  by (simp add: indexed_refs_def comp_def case_prod_unfold)

lemma task_references_refs: "task_references run_id t = Inr nodes \<Longrightarrow> map rn_reference nodes = task_refs t"
  unfolding task_references_def by (drule reference_nodes_refs) (simp add: task_refs_def indexed_refs_refs)

lemma evaluation_references_refs:
  "evaluation_references run_id e = Inr nodes \<Longrightarrow> map rn_reference nodes = er_evidence e"
  unfolding evaluation_references_def by (drule reference_nodes_refs) (simp add: indexed_refs_refs)

abbreviation digests_of :: "audit_state \<Rightarrow> string set" where
  "digests_of st \<equiv> fst ` set (as_builders st)"

lemma register_node_props:
  "digests_of (register_node node st) = insert (ar_sha256 (rn_reference node)) (digests_of st)"
  "as_reads (register_node node st) = as_reads st"
  "clean (as_findings (register_node node st)) \<Longrightarrow> clean (as_findings st)"
  by (auto simp: register_node_def Let_def dom_update split: option.splits)

lemma mark_verified_props [simp]:
  "digests_of (mark_verified d n st) = digests_of st" "as_reads (mark_verified d n st) = as_reads st"
  "as_findings (mark_verified d n st) = as_findings st"
  by (simp_all add: mark_verified_def dom_map_entry)

text \<open>The facts an audited task or evaluation must satisfy; \<open>rs\<close> are the references found in it.\<close>

definition task_ok ::
    "cas_view \<Rightarrow> parsers \<Rightarrow> run_manifest \<Rightarrow> artifact_ref \<Rightarrow> artifact_ref list \<Rightarrow> bool" where
  "task_ok v ps m r rs =
     (\<exists>task. parse_task ps (content v (ar_sha256 r)) = Parsed task
        \<and> content v (ar_sha256 r) = utf8_encode (dumps (task_spec_json task))
        \<and> ar_media_type r = TASK_MEDIA_TYPE
        \<and> ts_task_id task = rm_task_id m \<and> ts_image_digest task = rm_environment_digest m
        \<and> \<not> evaluator_version_invalid (map_of (ts_metadata task) ''evaluator_version'')
        \<and> rs = task_refs task)"

definition evaluation_ok ::
    "cas_view \<Rightarrow> parsers \<Rightarrow> run_manifest \<Rightarrow> artifact_ref \<Rightarrow> artifact_ref list \<Rightarrow> bool" where
  "evaluation_ok v ps m r rs =
     (\<exists>ev. parse_evaluation ps (content v (ar_sha256 r)) = Parsed ev
        \<and> content v (ar_sha256 r) = utf8_encode (dumps (evaluation_result_json ev))
        \<and> ar_media_type r = EVALUATION_MEDIA_TYPE
        \<and> er_run_id ev = rm_run_id m \<and> er_run_status ev = rm_status m
        \<and> (\<forall>p. map_of (rm_artifacts m) ''patch'' = Some p \<longrightarrow> er_patch_hash ev = Some (ar_sha256 p))
        \<and> er_evidence ev = expected_evidence_refs m
        \<and> rs = er_evidence ev)"

definition structure_ok ::
    "cas_view \<Rightarrow> parsers \<Rightarrow> (string \<Rightarrow> run_manifest) \<Rightarrow> reference_node \<Rightarrow> artifact_ref list \<Rightarrow> bool" where
  "structure_ok v ps mf node rs =
     (let m = mf (ao_run_id (rn_owner node)); r = rn_reference node in
      case rn_structured_role node of
        None \<Rightarrow> rs = []
      | Some TaskSpecRole \<Rightarrow> task_ok v ps m r rs
      | Some EvaluationRole \<Rightarrow> evaluation_ok v ps m r rs)"

lemma audit_task_clean:
  assumes "audit_task ps mf node (content v (ar_sha256 (rn_reference node))) st = Inr (st', nodes)"
    and "clean (as_findings st')"
  shows "clean (as_findings st) \<and> as_reads st' = as_reads st \<and> as_builders st' = as_builders st
    \<and> task_ok v ps (mf (ao_run_id (rn_owner node))) (rn_reference node) (map rn_reference nodes)"
  using assms
  by (auto simp: audit_task_def Let_def rbind_eq_Inr task_ok_def task_references_refs
      split: if_splits parsed.splits)

lemma audit_evaluation_clean:
  assumes "audit_evaluation ps mf node (content v (ar_sha256 (rn_reference node))) st = Inr (st', nodes)"
    and "clean (as_findings st')"
  shows "clean (as_findings st) \<and> as_reads st' = as_reads st \<and> as_builders st' = as_builders st
    \<and> evaluation_ok v ps (mf (ao_run_id (rn_owner node))) (rn_reference node) (map rn_reference nodes)"
  using assms
  by (auto simp: audit_evaluation_def crosscheck_evaluation_def Let_def rbind_eq_Inr evaluation_ok_def
      evaluation_references_refs split: if_splits parsed.splits option.splits)

lemma sound_cache_reads: "as_reads st' = as_reads st \<Longrightarrow> sound_cache sha v st' = sound_cache sha v st"
  by (simp add: sound_cache_def)

lemma audit_structured_reads:
  "audit_task ps mf node data st = Inr (st', nodes) \<Longrightarrow> as_reads st' = as_reads st"
  "audit_evaluation ps mf node data st = Inr (st', nodes) \<Longrightarrow> as_reads st' = as_reads st"
  by (auto simp: audit_task_def audit_evaluation_def crosscheck_evaluation_def Let_def rbind_eq_Inr
      split: if_splits parsed.splits)

lemma audit_node_sound:
  assumes "audit_node sha v ps mf node st = Inr (st', nodes)" and "sound_cache sha v st"
  shows "sound_cache sha v st'"
proof -
  let ?st0 = "register_node node st"
  obtain b st1 where c: "cached_read sha v node ?st0 = (b, st1)" by (cases "cached_read sha v node ?st0")
  have "sound_cache sha v ?st0" using assms(2) sound_cache_reads [OF register_node_props(2)] by simp
  note cr = cached_read_props(1) [OF c this]
  have "as_reads st' = as_reads st1"
  proof (cases b)
    case (ReadFailed fk obs n d e)
    with assms(1) show ?thesis by (auto simp: audit_node_def Let_def c)
  next
    case (ReadOk h n dat)
    let ?st2 = "mark_verified (ar_sha256 (rn_reference node)) n st1"
    have "as_reads st' = as_reads ?st2"
    proof (cases "rn_structured_role node")
      case None
      with assms(1) show ?thesis by (simp add: audit_node_def Let_def c ReadOk)
    next
      case (Some role)
      show ?thesis
      proof (cases dat)
        case None
        with Some assms(1) show ?thesis by (auto simp: audit_node_def Let_def c ReadOk)
      next
        case (Some bytes)
        with \<open>rn_structured_role node = Some role\<close> assms(1)
        have "audit_task ps mf node bytes ?st2 = Inr (st', nodes)
            \<or> audit_evaluation ps mf node bytes ?st2 = Inr (st', nodes)"
          by (cases role) (simp_all add: audit_node_def Let_def c ReadOk)
        then show ?thesis using audit_structured_reads by blast
      qed
    qed
    then show ?thesis by simp
  qed
  from sound_cache_reads [OF this] cr show ?thesis by blast
qed

lemma audit_node_clean:
  assumes "audit_node sha v ps mf node st = Inr (st', nodes)"
    and "clean (as_findings st')" and "sound_cache sha v st"
  shows "clean (as_findings st) \<and> sound_cache sha v st' \<and> digests_of st \<subseteq> digests_of st'
    \<and> ar_sha256 (rn_reference node) \<in> digests_of st' \<and> intact sha v (rn_reference node)
    \<and> structure_ok v ps mf node (map rn_reference nodes)"
proof -
  let ?r = "rn_reference node" and ?st0 = "register_node node st"
  note reg = register_node_props [of node st]
  obtain b st1 where c: "cached_read sha v node ?st0 = (b, st1)" by (cases "cached_read sha v node ?st0")
  have "sound_cache sha v ?st0" using assms(3) sound_cache_reads [OF reg(2)] by simp
  note cr = cached_read_props [OF c this]
  obtain h n dat where b: "b = ReadOk h n dat"
    using assms(1,2) by (cases b) (auto simp: audit_node_def Let_def c)
  let ?st2 = "mark_verified (ar_sha256 ?r) n st1"
  have int: "intact sha v ?r" using cr(2) b by (simp add: sound_read_def)
  have "clean (as_findings ?st2) \<and> as_reads st' = as_reads ?st2 \<and> as_builders st' = as_builders ?st2
    \<and> structure_ok v ps mf node (map rn_reference nodes)"
  proof (cases "rn_structured_role node")
    case None
    with assms(1,2) show ?thesis by (auto simp: audit_node_def Let_def c b structure_ok_def)
  next
    case (Some role)
    then have dat: "dat = Some (content v (ar_sha256 ?r))" using cr(7) b by simp
    show ?thesis
    proof (cases role)
      case TaskSpecRole
      with Some assms(1) have "audit_task ps mf node (content v (ar_sha256 ?r)) ?st2 = Inr (st', nodes)"
        by (simp add: audit_node_def Let_def c b dat)
      from audit_task_clean [OF this assms(2)] Some TaskSpecRole show ?thesis by (simp add: structure_ok_def)
    next
      case EvaluationRole
      with Some assms(1) have "audit_evaluation ps mf node (content v (ar_sha256 ?r)) ?st2 = Inr (st', nodes)"
        by (simp add: audit_node_def Let_def c b dat)
      from audit_evaluation_clean [OF this assms(2)] Some EvaluationRole show ?thesis by (simp add: structure_ok_def)
    qed
  qed
  then have st: "clean (as_findings st1)" "as_reads st' = as_reads st1" "digests_of st' = digests_of st1"
    "structure_ok v ps mf node (map rn_reference nodes)"
    using mark_verified_props(1) [of "ar_sha256 ?r" n st1] by simp_all
  have "sound_cache sha v st'" using cr(1) sound_cache_reads [OF st(2)] by simp
  moreover have "digests_of st' = insert (ar_sha256 ?r) (digests_of st)" by (simp only: st(3) cr(4) reg(1))
  moreover have "clean (as_findings st)" using st(1) cr(3) reg(3) by simp
  ultimately show ?thesis using int st(4) by blast
qed

text \<open>A node was followed: its reference is intact and registered, and so are the references in it.\<close>

definition followed ::
    "(nat list \<Rightarrow> string) \<Rightarrow> cas_view \<Rightarrow> parsers \<Rightarrow> (string \<Rightarrow> run_manifest) \<Rightarrow> string set \<Rightarrow> reference_node \<Rightarrow> bool" where
  "followed sha v ps mf D node =
     (intact sha v (rn_reference node) \<and> ar_sha256 (rn_reference node) \<in> D
      \<and> (\<exists>rs. structure_ok v ps mf node rs \<and> (\<forall>r \<in> set rs. intact sha v r \<and> ar_sha256 r \<in> D)))"

lemma audit_loop_clean:
  assumes "audit_loop sha v ps mf processed pending st = Inr st'"
    and "clean (as_findings st')" and "sound_cache sha v st"
  shows "clean (as_findings st) \<and> digests_of st \<subseteq> digests_of st'
    \<and> (\<forall>node \<in> set pending. followed sha v ps mf (digests_of st') node)"
  using assms
proof (induction sha v ps mf processed pending st rule: audit_loop.induct)
  case (1 sha v ps mf processed pending st)
  show ?case
  proof (cases pending)
    case Nil
    with "1.prems" show ?thesis by (simp add: audit_loop.simps [of _ _ _ _ _ "[]"])
  next
    case (Cons node rest)
    note l = "1.prems"(1) [unfolded Cons audit_loop.simps [of _ _ _ _ _ "_ # _"] list.case]
    have k: "\<not> MAX_REACHABLE_REFERENCES < processed + 1"
      using l "1.prems"(2) by (auto simp: simple_finding_def split: if_splits)
    obtain s nodes where n: "audit_node sha v ps mf node st = Inr (s, nodes)"
      and rec: "audit_loop sha v ps mf (processed + 1) (rest @ nodes) s = Inr st'"
      using l k by (auto split: sum.splits prod.splits)
    have s: "sound_cache sha v s" by (rule audit_node_sound [OF n "1.prems"(3)])
    note ih = "1.IH" [OF Cons k n refl rec "1.prems"(2) s]
    note nd = audit_node_clean [OF n conjunct1 [OF ih] "1.prems"(3)]
    have sub: "digests_of s \<subseteq> digests_of st'" using ih by blast
    have "intact sha v r \<and> ar_sha256 r \<in> digests_of st'" if "r \<in> set (map rn_reference nodes)" for r
    proof -
      from that obtain x where "x \<in> set nodes" "r = rn_reference x" by auto
      with ih show ?thesis unfolding followed_def by auto
    qed
    then have "followed sha v ps mf (digests_of st') node"
      unfolding followed_def using nd sub by blast
    moreover have "digests_of st \<subseteq> digests_of st'" using nd sub by blast
    ultimately show ?thesis using ih nd Cons by simp
  qed
qed

section \<open>Findings are only added\<close>

text \<open>The findings \<open>fs'\<close> are \<open>fs\<close> with findings added to them, orphans only where \<open>P\<close> allows them.\<close>

inductive extended :: "(finding_key \<Rightarrow> bool) \<Rightarrow> finding_builders \<Rightarrow> finding_builders \<Rightarrow> bool" for P fs where
  extended_refl [intro!]: "extended P fs fs"
| extended_add [intro]: "extended P fs fs' \<Longrightarrow> (orphan_kind (fk_kind k) \<Longrightarrow> P k) \<Longrightarrow> extended P fs (add_finding k os fs')"

lemma extended_trans: "extended P fs' fs'' \<Longrightarrow> extended P fs fs' \<Longrightarrow> extended P fs fs''"
  by (induction rule: extended.induct) auto

lemma extended_clean: "extended P fs fs' \<Longrightarrow> clean fs' \<Longrightarrow> clean fs"
  by (induction rule: extended.induct) auto

lemma add_finding_keys: "fst ` set (add_finding k os fs) = insert k (fst ` set fs)"
  by (induction k os fs rule: add_finding.induct) auto

lemma extended_orphans:
  "extended P fs fs' \<Longrightarrow> k \<in> fst ` set fs' \<Longrightarrow> orphan_kind (fk_kind k) \<Longrightarrow> k \<in> fst ` set fs \<or> P k"
  by (induction rule: extended.induct) (auto simp: add_finding_keys)

lemma extended_fold:
  assumes "\<And>x iv. x \<in> set xs \<Longrightarrow> extended P (g iv) (g (f x iv))"
  shows "extended P (g iv) (g (fold f xs iv))"
  using assms
proof (induction xs arbitrary: iv)
  case (Cons x xs)
  then show ?case by (auto intro: extended_trans)
qed auto

lemma inventory_fold:
  "(\<And>x iv. extended P (iv_findings iv) (iv_findings (f x iv))) \<Longrightarrow> extended P fs (iv_findings iv) \<Longrightarrow>
     extended P fs (iv_findings (fold f xs iv))"
  by (rule extended_trans [OF extended_fold]) blast+

lemma simple_finding_kind [simp]: "fk_kind (simple_finding k p n d) = k"
  by (simp add: simple_finding_def)

lemma orphan_kinds [simp]:
  "\<not> orphan_kind MISSING_REFERENCED" "\<not> orphan_kind CORRUPT_REFERENCED" "\<not> orphan_kind TEMP_ORPHAN"
  "\<not> orphan_kind NONCANONICAL_ENTRY" "\<not> orphan_kind HARDLINK" "\<not> orphan_kind SYMLINK"
  "\<not> orphan_kind SPECIAL_FILE" "\<not> orphan_kind SCAN_ERROR" "\<not> orphan_kind LIMIT_EXCEEDED"
  by (simp_all add: orphan_kind_def)

lemma note_entry_extended [intro]:
  "extended P fs (iv_findings iv) \<Longrightarrow> (orphan_kind (fk_kind k) \<Longrightarrow> P k) \<Longrightarrow>
     extended P fs (iv_findings (note_entry k os iv))"
  by (auto simp: note_entry_def)

lemma scan_entries_extended:
  "extended P (iv_findings iv) (iv_findings (snd (scan_entries relative entries failure acc iv)))"
proof (induction relative entries failure acc iv rule: scan_entries.induct)
  case (1 relative failure acc iv)
  then show ?case by (auto split: option.splits)
next
  case (2 relative entry entries failure acc iv)
  let ?iv = "iv\<lparr>iv_counter := iv_counter iv + 1\<rparr>"
  show ?case
  proof (cases "MAX_INVENTORY_ENTRIES < iv_counter ?iv")
    case True
    then show ?thesis by (auto simp: Let_def note_entry_def)
  next
    case False
    show ?thesis
    proof (cases entry)
      case (RawEntry raw)
      have step: "scan_entries relative (entry # entries) failure acc iv
          = scan_entries relative entries failure acc
              (note_entry (simple_finding SCAN_ERROR
                (if relative = ''.'' then ''<raw-name-'' @ raw @ ''>'' else relative @ ''/<raw-name-'' @ raw @ ''>'') None
                (Some (''undecodable_entry_name_raw_hex:'' @ raw))) [] ?iv)"
        using False by (simp only: scan_entries.simps Let_def RawEntry scan_entry.case if_False)
      have "extended P (iv_findings iv) (iv_findings (note_entry (simple_finding SCAN_ERROR p None d) [] ?iv))" for p d
        by (auto simp: note_entry_def)
      then show ?thesis unfolding step by (rule extended_trans [OF 2(1) [OF refl False RawEntry]])
    next
      case (NamedEntry name l)
      have "scan_entries relative (entry # entries) failure acc iv
          = scan_entries relative entries failure (acc @ [(name, l)]) ?iv"
        using False by (simp only: scan_entries.simps Let_def NamedEntry scan_entry.case if_False)
      then show ?thesis using 2(2) [OF refl False NamedEntry] by simp
    qed
  qed
qed

lemma scan_directory_extended:
  "scan_directory v path relative iv = (r, iv') \<Longrightarrow> extended P (iv_findings iv) (iv_findings iv')"
  using scan_entries_extended [of P iv relative] by (auto simp: scan_directory_def split: prod.splits) (metis snd_conv)

lemma entry_stat_extended:
  "entry_stat l relative iv = (r, iv') \<Longrightarrow> extended P (iv_findings iv) (iv_findings iv')"
  by (auto simp: entry_stat_def Let_def split: lstat_result.splits)

lemma classify_mode_extended:
  "extended P fs (iv_findings iv) \<Longrightarrow> extended P fs (iv_findings (classify_mode_noncanonical m relative iv))"
  by (auto simp: classify_mode_noncanonical_def)

lemma classify_extended: "extended P (iv_findings iv) (iv_findings (classify_noncanonical l relative iv))"
proof (cases "entry_stat l relative iv")
  case (Pair r iv1)
  from entry_stat_extended [OF this] show ?thesis
    by (cases r) (auto simp: classify_noncanonical_def Pair classify_mode_extended)
qed

text \<open>What the inventory reports as an orphan: a canonical file name whose digest nothing refers to.\<close>

definition unreferenced_orphan :: "(string \<times> artifact_owner list) list \<Rightarrow> finding_key \<Rightarrow> bool" where
  "unreferenced_orphan ros k =
     (\<exists>shard d h. fk_relative_path k = ''sha256/'' @ shard @ ''/'' @ d \<and> fk_expected_sha256 k = Some d
        \<and> is_lower_sha256 d \<and> starts_with shard d \<and> d \<notin> fst ` set ros
        \<and> fk_observed_sha256 k = Some h \<and> (fk_kind k = VALID_FINALIZED_ORPHAN \<longleftrightarrow> h = d))"

lemma inventory_orphan_extended:
  assumes "is_lower_sha256 name" and "starts_with shard name" and "name \<notin> fst ` set ros"
    and "extended (unreferenced_orphan ros) fs (iv_findings iv)"
  shows "extended (unreferenced_orphan ros) fs
    (iv_findings (inventory_orphan sha v path (''sha256/'' @ shard @ ''/'' @ name) name m iv))"
proof -
  obtain h used where p: "hash_path_no_follow sha (cv_open v path) (iv_hash_used iv) = (h, used)"
    by (cases "hash_path_no_follow sha (cv_open v path) (iv_hash_used iv)")
  have ext: "extended (unreferenced_orphan ros) fs (iv_findings (iv\<lparr>iv_hash_used := used\<rparr>))"
    using assms(4) by simp
  have orphan: "unreferenced_orphan ros
      \<lparr>fk_kind = if d = name then VALID_FINALIZED_ORPHAN else CORRUPT_FINALIZED_ORPHAN,
       fk_relative_path = ''sha256/'' @ shard @ ''/'' @ name, fk_expected_sha256 = Some name,
       fk_observed_sha256 = Some d, fk_size_bytes = n, fk_detail = x, fk_errno = y\<rparr>" for d n x y
    using assms(1-3) unfolding unreferenced_orphan_def by (intro exI [of _ shard] exI [of _ name] exI [of _ d]) simp
  show ?thesis
  proof (cases h)
    case (PathHash d)
    then show ?thesis using assms(4) ext orphan [of d]
      by (auto simp: inventory_orphan_def Let_def p simp del: append_Cons append.simps)
  qed (use assms(4) ext in \<open>auto simp: inventory_orphan_def Let_def p simp del: append_Cons append.simps\<close>)
qed

lemma inventory_file_extended:
  "extended (unreferenced_orphan ros) (iv_findings iv) (iv_findings (inventory_file sha v ros shard entry iv))"
proof (cases entry)
  case (Pair name l)
  let ?relative = "''sha256/'' @ shard @ ''/'' @ name"
  obtain r iv1 where e: "entry_stat l ?relative iv = (r, iv1)" by (cases "entry_stat l ?relative iv")
  note ext = entry_stat_extended [OF e, of "unreferenced_orphan ros"]
  show ?thesis
  proof (cases r)
    case None
    with ext show ?thesis by (simp only: inventory_file_def Pair prod.case Let_def e option.case)
  next
    case (Some m)
    have "extended (unreferenced_orphan ros) (iv_findings iv)
        (iv_findings (inventory_orphan sha v [''sha256'', shard, name] ?relative name m iv1))"
      if "is_lower_sha256 name" "starts_with shard name" "map_of ros name = None"
      using that ext by (intro inventory_orphan_extended) (auto simp: map_of_eq_None_iff)
    with ext show ?thesis
      unfolding inventory_file_def Pair prod.case Let_def e Some option.case
      by (auto simp: classify_mode_extended simp del: append_Cons append.simps)
  qed
qed

lemma inventory_shard_extended:
  "extended (unreferenced_orphan ros) (iv_findings iv) (iv_findings (inventory_shard sha v ros shard iv))"
proof (cases "scan_directory v [''sha256'', shard] (''sha256/'' @ shard) iv")
  case (Pair r iv1)
  note ext = scan_directory_extended [OF Pair, of "unreferenced_orphan ros"]
  show ?thesis
    by (cases r) (simp_all only: inventory_shard_def Pair prod.case option.case ext
        inventory_fold [where f = "inventory_file sha v ros shard", OF inventory_file_extended ext])
qed

lemma inventory_prefix_extended:
  "extended (unreferenced_orphan ros) (iv_findings iv) (iv_findings (inventory_prefix sha v ros entry iv))"
proof (cases entry)
  case (Pair name l)
  let ?relative = "''sha256/'' @ name"
  obtain r iv1 where e: "entry_stat l ?relative iv = (r, iv1)" by (cases "entry_stat l ?relative iv")
  note ext = entry_stat_extended [OF e, of "unreferenced_orphan ros"]
  show ?thesis
    using ext extended_trans [OF inventory_shard_extended ext]
    unfolding inventory_prefix_def Pair prod.case Let_def e
    by (cases r) (auto simp del: append_Cons append.simps)
qed

lemma inventory_root_entry_extended:
  "extended (unreferenced_orphan ros) (iv_findings iv) (iv_findings (inventory_root_entry sha v ros entry iv))"
proof (cases entry)
  case (Pair name l)
  obtain r iv1 where e: "entry_stat l ''sha256'' iv = (r, iv1)" by (cases "entry_stat l ''sha256'' iv")
  note ext = entry_stat_extended [OF e, of "unreferenced_orphan ros"]
  obtain s iv2 where d: "scan_directory v [''sha256''] ''sha256'' iv1 = (s, iv2)"
    by (cases "scan_directory v [''sha256''] ''sha256'' iv1")
  note ext2 = extended_trans [OF scan_directory_extended [OF d] ext]
  note ext3 = inventory_fold [where f = "inventory_prefix sha v ros", OF inventory_prefix_extended ext2]
  show ?thesis
  proof (cases r)
    case None
    with ext show ?thesis
      unfolding inventory_root_entry_def Pair prod.case e by (simp add: classify_extended)
  next
    case (Some m)
    have "extended (unreferenced_orphan ros) (iv_findings iv)
        (iv_findings (case (s, iv2) of (None, iv2) \<Rightarrow> iv2
          | (Some entries, iv2) \<Rightarrow> fold (inventory_prefix sha v ros) entries iv2))"
      by (cases s) (simp_all only: prod.case option.case ext2 ext3)
    with ext show ?thesis
      unfolding inventory_root_entry_def Pair prod.case Let_def e d Some option.case
      by (auto simp: classify_extended)
  qed
qed

lemma inventory_store_extended:
  "extended (unreferenced_orphan ros) fs (iv_findings (inventory_store sha v ros fs used))"
proof -
  let ?iv = "\<lparr>iv_findings = fs, iv_counter = 0, iv_observed = [], iv_hash_used = used\<rparr>"
  obtain r iv1 where d: "scan_directory v [] ''.'' ?iv = (r, iv1)" by (cases "scan_directory v [] ''.'' ?iv")
  have ext: "extended (unreferenced_orphan ros) fs (iv_findings iv1)"
    using scan_directory_extended [OF d, of "unreferenced_orphan ros"] by simp
  show ?thesis
    by (cases r) (simp_all only: inventory_store_def Let_def d prod.case option.case ext
        inventory_fold [where f = "inventory_root_entry sha v ros", OF inventory_root_entry_extended ext])
qed

lemma crosscheck_extended: "extended P (as_findings st) (as_findings (crosscheck_task_evaluations st))"
  "as_builders (crosscheck_task_evaluations st) = as_builders st"
proof -
  let ?f = "\<lambda>run_id s. (case (map_of (as_tasks st) run_id, map_of (as_evaluations st) run_id) of
     (Some task, Some ev) \<Rightarrow> crosscheck_task_evaluation task ev s | _ \<Rightarrow> s)"
  have kept: "extended P fs (as_findings s) \<Longrightarrow> extended P fs (as_findings (note_if b r d os s))" for fs s b r d os
    by (auto simp: note_if_def note_corrupt_def note_finding_def)
  have one: "extended P (as_findings s) (as_findings (crosscheck_task_evaluation task ev s))
      \<and> as_builders (crosscheck_task_evaluation task ev s) = as_builders s" for task ev s
  proof -
    obtain e r o1 where ev: "ev = (e, r, o1)" by (cases ev)
    note d = crosscheck_task_evaluation_def ev prod.case Let_def
    show ?thesis
    proof (cases "map_of (ts_metadata task) ''evaluator_version''")
      case None
      show ?thesis unfolding d None option.case by (simp add: kept extended_refl)
    next
      case (Some j)
      show ?thesis
      proof (cases j)
        case (JStr t)
        show ?thesis unfolding d Some JStr option.case json.case by (simp add: kept extended_refl)
      qed (unfold d Some option.case json.case, simp_all add: kept extended_refl)
    qed
  qed
  have step: "extended P (as_findings s) (as_findings (?f i s)) \<and> as_builders (?f i s) = as_builders s" for i s
    using one by (auto split: option.splits)
  have "extended P (as_findings s) (as_findings (fold ?f ids s)) \<and> as_builders (fold ?f ids s) = as_builders s" for ids s
  proof (induction ids arbitrary: s)
    case (Cons i ids)
    from Cons [of "?f i s"] step [of s i] show ?case by (auto intro: extended_trans simp del: split_paired_All)
  qed auto
  then show "extended P (as_findings st) (as_findings (crosscheck_task_evaluations st))"
    "as_builders (crosscheck_task_evaluations st) = as_builders st"
    unfolding crosscheck_task_evaluations_def by blast+
qed

lemma note_extended [intro]:
  "extended P fs (as_findings st) \<Longrightarrow> (orphan_kind (fk_kind k) \<Longrightarrow> P k) \<Longrightarrow> extended P fs (as_findings (note_finding k os st))"
  "extended P fs (as_findings st) \<Longrightarrow> extended P fs (as_findings (note_corrupt r d os st))"
  "extended P fs (as_findings st) \<Longrightarrow> extended P fs (as_findings (note_if b r d os st))"
  by (auto simp: note_if_def note_corrupt_def note_finding_def)

lemma register_node_extended: "extended P (as_findings st) (as_findings (register_node node st))"
  by (cases "map_of (as_builders st) (ar_sha256 (rn_reference node))")
    (simp_all add: register_node_def Let_def note_extended extended_refl)

lemma audit_structured_extended:
  "audit_task ps mf node data st = Inr (st', nodes) \<Longrightarrow> extended P (as_findings st) (as_findings st')"
  "audit_evaluation ps mf node data st = Inr (st', nodes) \<Longrightarrow> extended P (as_findings st) (as_findings st')"
  by (auto simp: audit_task_def audit_evaluation_def crosscheck_evaluation_def Let_def rbind_eq_Inr
      intro!: note_extended(2,3) split: if_splits parsed.splits)

lemma audit_node_extended:
  assumes "audit_node sha v ps mf node st = Inr (st', nodes)" and "sound_cache sha v st"
  shows "extended P (as_findings st) (as_findings st')"
proof -
  let ?st0 = "register_node node st" and ?r = "rn_reference node"
  obtain b st1 where c: "cached_read sha v node ?st0 = (b, st1)" by (cases "cached_read sha v node ?st0")
  have "sound_cache sha v ?st0" using assms(2) sound_cache_reads [OF register_node_props(2)] by simp
  note cr = cached_read_props [OF c this]
  have ext: "extended P (as_findings st) (as_findings st1)" by (simp only: cr(3) register_node_extended)
  show ?thesis
  proof (cases b)
    case (ReadFailed fk obs n d e)
    then have "\<not> orphan_kind fk" using cr(2) by (simp add: sound_read_def)
    with assms(1) ext show ?thesis by (auto simp: audit_node_def Let_def c ReadFailed)
  next
    case (ReadOk h n dat)
    let ?st2 = "mark_verified (ar_sha256 ?r) n st1"
    have ext2: "extended P (as_findings st) (as_findings ?st2)" using ext by simp
    show ?thesis
    proof (cases "rn_structured_role node")
      case None
      with assms(1) ext2 show ?thesis by (simp add: audit_node_def Let_def c ReadOk)
    next
      case (Some role)
      then have "dat = Some (content v (ar_sha256 ?r))" using cr(7) ReadOk by simp
      with Some assms(1) have "audit_task ps mf node (content v (ar_sha256 ?r)) ?st2 = Inr (st', nodes)
          \<or> audit_evaluation ps mf node (content v (ar_sha256 ?r)) ?st2 = Inr (st', nodes)"
        by (cases role) (simp_all add: audit_node_def Let_def c ReadOk)
      then show ?thesis using audit_structured_extended ext2 extended_trans by blast
    qed
  qed
qed

lemma audit_loop_extended:
  assumes "audit_loop sha v ps mf processed pending st = Inr st'" and "sound_cache sha v st"
  shows "extended P (as_findings st) (as_findings st')"
  using assms
proof (induction sha v ps mf processed pending st rule: audit_loop.induct)
  case (1 sha v ps mf processed pending st)
  show ?case
  proof (cases pending)
    case Nil
    with "1.prems" show ?thesis by (simp add: audit_loop.simps [of _ _ _ _ _ "[]"] extended_refl)
  next
    case (Cons node rest)
    note l = "1.prems"(1) [unfolded Cons audit_loop.simps [of _ _ _ _ _ "_ # _"] list.case]
    show ?thesis
    proof (cases "MAX_REACHABLE_REFERENCES < processed + 1")
      case True
      with l have "st' = note_finding (simple_finding LIMIT_EXCEEDED ''.'' None (Some ''reachable_reference_limit'')) [] st"
        by simp
      then show ?thesis by (auto simp only: note_extended simple_finding_kind orphan_kinds)
    next
      case False
      then obtain s nodes where n: "audit_node sha v ps mf node st = Inr (s, nodes)"
        and rec: "audit_loop sha v ps mf (processed + 1) (rest @ nodes) s = Inr st'"
        using l by (auto split: sum.splits prod.splits)
      from "1.IH" [OF Cons False n refl rec audit_node_sound [OF n "1.prems"(2)]] audit_node_extended [OF n "1.prems"(2)]
      show ?thesis by (rule extended_trans)
    qed
  qed
qed

section \<open>Audits of a store\<close>

lemma freeze_set: "set (freeze fs) = (\<lambda>(k, os). \<lparr>af_key = k, af_owners = sorted_owners os\<rparr>) ` set fs"
  by (simp add: freeze_def)

lemma sorted_owners_Nil [simp]: "sorted_owners os = [] \<longleftrightarrow> os = []"
  by (metis sorted_owners_def remdups_eq_nil_iff set_empty set_sort)

lemma frozen_clean:
  "clean fs \<longleftrightarrow> \<not> list_ex (\<lambda>f. incomplete_kind (fk_kind (af_key f))) (freeze fs)
     \<and> \<not> list_ex (\<lambda>f. af_owners f \<noteq> []) (freeze fs)"
  by (auto simp: clean_def list_ex_iff freeze_set)

lemma unobserved_extended:
  "extended P fs (fold (\<lambda>db fs. if fst db \<in> observed then fs else add_finding (unobserved_key db) (bu_owners (snd db)) fs) dbs fs)"
  by (rule extended_fold [where g = id, simplified]) (auto simp: unobserved_key_def)

text \<open>What a finished audit holds, in terms of the state the loop ended in.\<close>

lemma finish_audit_Inr:
  assumes "finish_audit sha v snapshot st = Inr a"
  shows "set (map ra_sha256 (aa_reachable a)) = digests_of st"
    and "aa_quarantine_allowed a \<Longrightarrow> clean (as_findings st)"
    and "f \<in> set (aa_findings a) \<Longrightarrow> orphan_kind (fk_kind (af_key f)) \<Longrightarrow>
      af_key f \<in> fst ` set (as_findings st) \<or> unreferenced_orphan (map (\<lambda>(d, b). (d, bu_owners b)) (as_builders st)) (af_key f)"
proof -
  let ?st = "crosscheck_task_evaluations st"
  let ?ros = "map (\<lambda>(d, b). (d, bu_owners b)) (as_builders ?st)"
  let ?iv = "inventory_store sha v ?ros (as_findings ?st) (as_hash_used ?st)"
  let ?bs = "sort_key fst (as_builders ?st)"
  let ?fs = "fold (\<lambda>db fs. if fst db \<in> set (iv_observed ?iv) then fs
    else add_finding (unobserved_key db) (bu_owners (snd db)) fs) ?bs (iv_findings ?iv)"
  have a: "aa_reachable a = map reachable_of ?bs" "aa_findings a = freeze ?fs"
    "aa_quarantine_allowed a = (\<not> list_ex (\<lambda>f. incomplete_kind (fk_kind (af_key f))) (freeze ?fs)
      \<and> \<not> list_ex (\<lambda>f. af_owners f \<noteq> []) (freeze ?fs) \<and> list_all ra_bytes_verified (map reachable_of ?bs))"
    using assms by (auto simp: finish_audit_def Let_def ArtifactAudit_def split: if_splits)
  note ext = extended_trans [OF unobserved_extended extended_trans [OF inventory_store_extended crosscheck_extended(1)]]
  have e: "extended (unreferenced_orphan ?ros) (as_findings st) ?fs" by (rule ext)
  show "set (map ra_sha256 (aa_reachable a)) = digests_of st"
    unfolding a(1) by (simp add: image_image reachable_of_def crosscheck_extended(2))
  show "clean (as_findings st)" if "aa_quarantine_allowed a"
    using that extended_clean [OF e] frozen_clean [of ?fs] by (simp only: a(3)) blast
  show "af_key f \<in> fst ` set (as_findings st) \<or> unreferenced_orphan (map (\<lambda>(d, b). (d, bu_owners b)) (as_builders st)) (af_key f)"
    if f: "f \<in> set (aa_findings a)" "orphan_kind (fk_kind (af_key f))"
  proof -
    from f(1) obtain k os where "(k, os) \<in> set ?fs" "af_key f = k" unfolding a(2) freeze_set by auto
    then have "af_key f \<in> fst ` set ?fs" by force
    from extended_orphans [OF e this f(2)] show ?thesis by (simp only: crosscheck_extended(2))
  qed
qed

lemma validate_roots_Inr:
  assumes "validate_roots H roots = Inr (ordered, snapshot)"
  shows "ordered = sort_key root_run_id roots" "distinct (map root_run_id ordered)"
  using assms by (auto simp: validate_roots_def verified_run_roots_sha256_def Let_def rbind_eq_Inr sort_key_id_if_sorted split: if_splits)

lemma root_nodes_Inr:
  assumes "root_nodes r = Inr nodes" and "(role, reference) \<in> set (rm_artifacts (vrr_manifest r))"
  shows "\<exists>node \<in> set nodes. rn_reference node = reference \<and> ao_run_id (rn_owner node) = root_run_id r
    \<and> rn_structured_role node = (if role = ''task_spec'' then Some TaskSpecRole
        else if role = ''evaluation'' then Some EvaluationRole else None)"
proof -
  let ?f = "\<lambda>(role, reference) nodes. rbind (make_owner (root_run_id r) [role]) (\<lambda>owner.
        Inr (nodes @ [\<lparr>rn_reference = reference, rn_owner = owner,
          rn_structured_role = if role = ''task_spec'' then Some TaskSpecRole
            else if role = ''evaluation'' then Some EvaluationRole else None\<rparr>]))"
  have keep: "rfold ?f xs acc = Inr ns \<Longrightarrow> set acc \<subseteq> set ns" for xs acc ns
  proof (induction xs arbitrary: acc)
    case (Cons x xs)
    then show ?case by (cases x) (fastforce simp: rbind_eq_Inr)
  qed simp
  have "rfold ?f xs acc = Inr nodes \<Longrightarrow> (role, reference) \<in> set xs \<Longrightarrow>
      \<exists>node \<in> set nodes. rn_reference node = reference \<and> ao_run_id (rn_owner node) = root_run_id r
        \<and> rn_structured_role node = (if role = ''task_spec'' then Some TaskSpecRole
            else if role = ''evaluation'' then Some EvaluationRole else None)" for xs acc
  proof (induction xs arbitrary: acc)
    case (Cons x xs)
    obtain role' ref' where x: "x = (role', ref')" by (cases x)
    from Cons.prems(1) obtain ow where ow: "make_owner (root_run_id r) [role'] = Inr ow"
      and rest: "rfold ?f xs (acc @ [\<lparr>rn_reference = ref', rn_owner = ow,
          rn_structured_role = if role' = ''task_spec'' then Some TaskSpecRole
            else if role' = ''evaluation'' then Some EvaluationRole else None\<rparr>]) = Inr nodes"
      by (auto simp only: rfold.simps rbind_eq_Inr x prod.case)
    show ?case
    proof (cases "(role, reference) = x")
      case True
      with x have same: "role' = role" "ref' = reference" by simp_all
      have "ao_run_id ow = root_run_id r" using ow by (auto simp: make_owner_def split: if_splits)
      then show ?thesis using keep [OF rest] unfolding same by (intro bexI [rotated]) auto
    next
      case False
      with Cons.prems(2) have "(role, reference) \<in> set xs" by simp
      with Cons.IH [OF rest] show ?thesis by blast
    qed
  qed simp
  from this [OF _ assms(2), of "[]"] assms(1) show ?thesis by (simp only: root_nodes_def)
qed

lemma initial_nodes_Inr:
  assumes "initial_nodes roots = Inr nodes" and "r \<in> set roots"
  shows "\<exists>ns. root_nodes r = Inr ns \<and> set ns \<subseteq> set nodes"
proof -
  have keep: "rfold (\<lambda>r nodes. rbind (root_nodes r) (\<lambda>ns. Inr (nodes @ ns))) rs acc = Inr ns \<Longrightarrow> set acc \<subseteq> set ns" for rs acc ns
    by (induction rs arbitrary: acc) (fastforce simp: rbind_eq_Inr)+
  have "rfold (\<lambda>r nodes. rbind (root_nodes r) (\<lambda>ns. Inr (nodes @ ns))) rs acc = Inr nodes \<Longrightarrow> r \<in> set rs \<Longrightarrow>
      \<exists>ns. root_nodes r = Inr ns \<and> set ns \<subseteq> set nodes" for rs acc
  proof (induction rs arbitrary: acc)
    case (Cons x rs)
    from Cons.prems(1) obtain ns where ns: "root_nodes x = Inr ns"
      and rest: "rfold (\<lambda>r nodes. rbind (root_nodes r) (\<lambda>ns. Inr (nodes @ ns))) rs (acc @ ns) = Inr nodes"
      by (auto simp: rbind_eq_Inr)
    show ?case
    proof (cases "r = x")
      case True
      then show ?thesis using ns keep [OF rest] by auto
    next
      case False
      with Cons show ?thesis using rest by auto
    qed
  qed simp
  from this [OF _ assms(2)] assms(1) show ?thesis unfolding initial_nodes_def by blast
qed

lemma manifest_of_run_root:
  assumes "distinct (map root_run_id roots)" and "r \<in> set roots"
  shows "manifest_of_run roots (root_run_id r) = vrr_manifest r"
proof -
  have "map_of (map (\<lambda>r. (root_run_id r, vrr_manifest r)) (rev roots)) (root_run_id r) = Some (vrr_manifest r)"
    by (rule map_of_is_SomeI) (use assms in \<open>auto simp: comp_def rev_map [symmetric]\<close>)
  then show ?thesis by (simp add: manifest_of_run_def)
qed

text \<open>The audit of a usable store, opened up.\<close>

lemma audit_store_Inr:
  assumes "audit_artifact_store sha v ps roots = Inr a" and "aa_quarantine_allowed a"
  obtains pending st snapshot where
    "initial_nodes (sort_key root_run_id roots) = Inr pending" "distinct (map root_run_id (sort_key root_run_id roots))"
    "audit_loop sha v ps (manifest_of_run (sort_key root_run_id roots)) 0 pending (initial_audit_state []) = Inr st"
    "finish_audit sha v snapshot st = Inr a" "clean (as_findings st)"
proof -
  obtain ordered snapshot where r: "validate_roots (json_sha256 sha) roots = Inr (ordered, snapshot)"
    using assms(1) by (auto simp: audit_artifact_store_def rbind_eq_Inr)
  note ord = validate_roots_Inr [OF r]
  have no: "unusable_store_audit snapshot k \<noteq> Inr a" for k
    using assms(2) by (auto simp: unusable_store_audit_def ArtifactAudit_def)
  let ?fs = "if MAX_ROOTS < int (length ordered)
    then add_finding (simple_finding LIMIT_EXCEEDED ''.'' None (Some ''root_limit'')) [] [] else []"
  let ?kept = "if MAX_ROOTS < int (length ordered) then take (nat MAX_ROOTS) ordered else ordered"
  obtain pending st where p: "initial_nodes ?kept = Inr pending"
    "audit_loop sha v ps (manifest_of_run ?kept) 0 pending (initial_audit_state ?fs) = Inr st"
    "finish_audit sha v snapshot st = Inr a"
    using assms(1) no unfolding audit_artifact_store_def r
    by (auto simp: rbind_eq_Inr Let_def split: if_splits option.splits)
  have c: "clean (as_findings st)" by (rule finish_audit_Inr(2) [OF p(3) assms(2)])
  have "sound_cache sha v (initial_audit_state ?fs)" by (simp add: sound_cache_def initial_audit_state_def)
  from audit_loop_clean [OF p(2) c this] have "clean ?fs" by (simp add: initial_audit_state_def)
  then have "\<not> MAX_ROOTS < int (length ordered)" by (auto split: if_splits)
  with p have "initial_nodes ordered = Inr pending"
    "audit_loop sha v ps (manifest_of_run ordered) 0 pending (initial_audit_state []) = Inr st"
    by simp_all
  with that ord p(3) c show thesis by blast
qed

text \<open>The references an audit must follow: the artifacts of the manifests, and the references in the task
  specifications and evaluations among them.\<close>

definition reachable_reference :: "cas_view \<Rightarrow> parsers \<Rightarrow> verified_run_root list \<Rightarrow> artifact_ref \<Rightarrow> bool" where
  "reachable_reference v ps roots ref =
     (\<exists>r \<in> set roots.
        (\<exists>role. (role, ref) \<in> set (rm_artifacts (vrr_manifest r)))
        \<or> (\<exists>tref task. (''task_spec'', tref) \<in> set (rm_artifacts (vrr_manifest r))
             \<and> parse_task ps (content v (ar_sha256 tref)) = Parsed task \<and> ref \<in> set (task_refs task))
        \<or> (\<exists>eref ev. (''evaluation'', eref) \<in> set (rm_artifacts (vrr_manifest r))
             \<and> parse_evaluation ps (content v (ar_sha256 eref)) = Parsed ev \<and> ref \<in> set (er_evidence ev)))"

lemma trusted_nodes:
  assumes "audit_artifact_store sha v ps roots = Inr a" and "aa_quarantine_allowed a"
    and "r \<in> set roots" and "(role, ref) \<in> set (rm_artifacts (vrr_manifest r))"
  obtains node where "rn_reference node = ref"
    "rn_structured_role node = (if role = ''task_spec'' then Some TaskSpecRole
        else if role = ''evaluation'' then Some EvaluationRole else None)"
    "followed sha v ps (\<lambda>i. if i = root_run_id r then vrr_manifest r else manifest_of_run (sort_key root_run_id roots) i)
      (set (map ra_sha256 (aa_reachable a))) node" "ao_run_id (rn_owner node) = root_run_id r"
proof -
  let ?ord = "sort_key root_run_id roots"
  obtain pending st snapshot where h: "initial_nodes ?ord = Inr pending" "distinct (map root_run_id ?ord)"
    "audit_loop sha v ps (manifest_of_run ?ord) 0 pending (initial_audit_state []) = Inr st"
    "finish_audit sha v snapshot st = Inr a" "clean (as_findings st)"
    using audit_store_Inr [OF assms(1,2)] .
  have r: "r \<in> set ?ord" using assms(3) by simp
  obtain ns where ns: "root_nodes r = Inr ns" "set ns \<subseteq> set pending" using initial_nodes_Inr [OF h(1) r] by blast
  obtain node where node: "node \<in> set ns" "rn_reference node = ref" "ao_run_id (rn_owner node) = root_run_id r"
    "rn_structured_role node = (if role = ''task_spec'' then Some TaskSpecRole
        else if role = ''evaluation'' then Some EvaluationRole else None)"
    using root_nodes_Inr [OF ns(1) assms(4)] by blast
  have "sound_cache sha v (initial_audit_state [])" by (simp add: sound_cache_def initial_audit_state_def)
  from audit_loop_clean [OF h(3,5) this] node(1) ns(2)
  have "followed sha v ps (manifest_of_run ?ord) (set (map ra_sha256 (aa_reachable a))) node"
    unfolding finish_audit_Inr(1) [OF h(4)] by blast
  moreover have "(\<lambda>i. if i = root_run_id r then vrr_manifest r else manifest_of_run ?ord i) = manifest_of_run ?ord"
    using manifest_of_run_root [OF h(2) r] by auto
  ultimately have "followed sha v ps (\<lambda>i. if i = root_run_id r then vrr_manifest r else manifest_of_run ?ord i)
      (set (map ra_sha256 (aa_reachable a))) node"
    by (simp only:)
  then show thesis by (rule that [OF node(2,4) _ node(3)])
qed

lemma trusted_covers:
  assumes "audit_artifact_store sha v ps roots = Inr a" and "aa_quarantine_allowed a"
    and "reachable_reference v ps roots ref"
  shows "intact sha v ref \<and> ar_sha256 ref \<in> set (map ra_sha256 (aa_reachable a))"
proof -
  from assms(3) obtain r where r: "r \<in> set roots" and cases3:
    "(\<exists>role. (role, ref) \<in> set (rm_artifacts (vrr_manifest r)))
     \<or> (\<exists>tref task. (''task_spec'', tref) \<in> set (rm_artifacts (vrr_manifest r))
          \<and> parse_task ps (content v (ar_sha256 tref)) = Parsed task \<and> ref \<in> set (task_refs task))
     \<or> (\<exists>eref ev. (''evaluation'', eref) \<in> set (rm_artifacts (vrr_manifest r))
          \<and> parse_evaluation ps (content v (ar_sha256 eref)) = Parsed ev \<and> ref \<in> set (er_evidence ev))"
    unfolding reachable_reference_def by blast
  from cases3 show ?thesis
  proof (elim disjE exE conjE)
    fix role assume "(role, ref) \<in> set (rm_artifacts (vrr_manifest r))"
    then show ?thesis by (rule trusted_nodes [OF assms(1,2) r]) (auto simp: followed_def)
  next
    fix tref task assume t: "(''task_spec'', tref) \<in> set (rm_artifacts (vrr_manifest r))"
      "parse_task ps (content v (ar_sha256 tref)) = Parsed task" "ref \<in> set (task_refs task)"
    show ?thesis
      by (rule trusted_nodes [OF assms(1,2) r t(1)]) (use t(2,3) in \<open>auto simp: followed_def structure_ok_def Let_def task_ok_def\<close>)
  next
    fix eref ev assume e: "(''evaluation'', eref) \<in> set (rm_artifacts (vrr_manifest r))"
      "parse_evaluation ps (content v (ar_sha256 eref)) = Parsed ev" "ref \<in> set (er_evidence ev)"
    show ?thesis
      by (rule trusted_nodes [OF assms(1,2) r e(1)]) (use e(2,3) in \<open>auto simp: followed_def structure_ok_def Let_def evaluation_ok_def\<close>)
  qed
qed

text \<open>C21: an audit that allows quarantine is sound for the evidence. Every artifact that a verified run refers
  to, in its manifest, in its task specification or in its evaluation, is stored under the path of
  its digest as a plain single-link file of the recorded size whose bytes have the recorded digest,
  and the audit lists that digest as reachable.\<close>

theorem trusted_audit_covers_evidence:
  assumes "audit_artifact_store sha v ps roots = Inr a" and "aa_quarantine_allowed a"
    and "reachable_reference v ps roots ref"
  shows "intact sha v ref \<and> ar_sha256 ref \<in> set (map ra_sha256 (aa_reachable a))"
  using assms by (rule trusted_covers)

text \<open>In an audit that allows quarantine the structured artifacts agree with the manifests that refer
  to them: a task specification and an evaluation are stored in canonical form, the task is the
  manifest's task in the manifest's environment, and the evaluation is of this run, has its status
  and its patch and lists exactly the evidence that the manifest records.\<close>

theorem trusted_audit_crosschecks:
  assumes "audit_artifact_store sha v ps roots = Inr a" and "aa_quarantine_allowed a" and "r \<in> set roots"
  shows "(\<forall>tref. (''task_spec'', tref) \<in> set (rm_artifacts (vrr_manifest r)) \<longrightarrow>
        (\<exists>task. content v (ar_sha256 tref) = utf8_encode (dumps (task_spec_json task))
          \<and> ts_task_id task = rm_task_id (vrr_manifest r)
          \<and> ts_image_digest task = rm_environment_digest (vrr_manifest r)))
    \<and> (\<forall>eref. (''evaluation'', eref) \<in> set (rm_artifacts (vrr_manifest r)) \<longrightarrow>
        (\<exists>ev. content v (ar_sha256 eref) = utf8_encode (dumps (evaluation_result_json ev))
          \<and> er_run_id ev = rm_run_id (vrr_manifest r) \<and> er_run_status ev = rm_status (vrr_manifest r)
          \<and> (\<forall>p. map_of (rm_artifacts (vrr_manifest r)) ''patch'' = Some p \<longrightarrow> er_patch_hash ev = Some (ar_sha256 p))
          \<and> er_evidence ev = expected_evidence_refs (vrr_manifest r)))"
proof (intro conjI allI impI)
  fix tref assume t: "(''task_spec'', tref) \<in> set (rm_artifacts (vrr_manifest r))"
  show "\<exists>task. content v (ar_sha256 tref) = utf8_encode (dumps (task_spec_json task))
      \<and> ts_task_id task = rm_task_id (vrr_manifest r) \<and> ts_image_digest task = rm_environment_digest (vrr_manifest r)"
    by (rule trusted_nodes [OF assms t]) (auto simp: followed_def structure_ok_def Let_def task_ok_def)
next
  fix eref assume e: "(''evaluation'', eref) \<in> set (rm_artifacts (vrr_manifest r))"
  show "\<exists>ev. content v (ar_sha256 eref) = utf8_encode (dumps (evaluation_result_json ev))
      \<and> er_run_id ev = rm_run_id (vrr_manifest r) \<and> er_run_status ev = rm_status (vrr_manifest r)
      \<and> (\<forall>p. map_of (rm_artifacts (vrr_manifest r)) ''patch'' = Some p \<longrightarrow> er_patch_hash ev = Some (ar_sha256 p))
      \<and> er_evidence ev = expected_evidence_refs (vrr_manifest r)"
    by (rule trusted_nodes [OF assms e]) (auto simp: followed_def structure_ok_def Let_def evaluation_ok_def)
qed

text \<open>C22: quarantine candidates are never evidence. A finalized file that a trusted audit reports as an
  orphan has the name of a digest that no verified run refers to, directly or through its task
  specification or evaluation, so moving it away cannot break a run.\<close>

theorem orphans_are_not_evidence:
  assumes "audit_artifact_store sha v ps roots = Inr a" and "aa_quarantine_allowed a"
    and "f \<in> set (aa_findings a)"
    and "fk_kind (af_key f) = VALID_FINALIZED_ORPHAN \<or> fk_kind (af_key f) = CORRUPT_FINALIZED_ORPHAN"
    and "reachable_reference v ps roots ref"
  shows "\<exists>d. fk_expected_sha256 (af_key f) = Some d \<and> is_lower_sha256 d \<and> d \<noteq> ar_sha256 ref"
proof -
  let ?ord = "sort_key root_run_id roots"
  obtain pending st snapshot where h:
    "audit_loop sha v ps (manifest_of_run ?ord) 0 pending (initial_audit_state []) = Inr st"
    "finish_audit sha v snapshot st = Inr a"
    using audit_store_Inr [OF assms(1,2)] .
  have o1: "orphan_kind (fk_kind (af_key f))" using assms(4) by (auto simp: orphan_kind_def)
  have s: "sound_cache sha v (initial_audit_state [])" by (simp add: sound_cache_def initial_audit_state_def)
  have "af_key f \<notin> fst ` set (as_findings st)"
  proof
    assume "af_key f \<in> fst ` set (as_findings st)"
    from extended_orphans [OF audit_loop_extended [OF h(1) s, of "\<lambda>_. False"] this o1]
    show False by (simp add: initial_audit_state_def)
  qed
  with finish_audit_Inr(3) [OF h(2) assms(3) o1]
  have "unreferenced_orphan (map (\<lambda>(d, b). (d, bu_owners b)) (as_builders st)) (af_key f)" by blast
  then obtain d where d: "fk_expected_sha256 (af_key f) = Some d" "is_lower_sha256 d" "d \<notin> digests_of st"
    unfolding unreferenced_orphan_def by (auto simp: image_image case_prod_unfold)
  moreover have "ar_sha256 ref \<in> digests_of st"
    using trusted_covers [OF assms(1,2,5)] unfolding finish_audit_Inr(1) [OF h(2)] by blast
  ultimately show ?thesis by blast
qed

section \<open>A trusted audit\<close>

definition zeros :: string where
  "zeros = replicate 64 (CHR ''0'')"

definition ones :: string where
  "ones = replicate 64 (CHR ''1'')"

text \<open>A constant digest; under it the file with the other name is a corrupt orphan.\<close>

definition zero_sha :: "nat list \<Rightarrow> string" where
  "zero_sha bytes = zeros"

definition patch_ref :: artifact_ref where
  "patch_ref = \<lparr>ar_media_type = ''text/x-diff'', ar_size_bytes = 3, ar_sha256 = zeros,
     ar_storage_ref = ''sha256/00/'' @ zeros\<rparr>"

definition audited_manifest :: run_manifest where
  "audited_manifest =
     \<lparr>rm_run_id = ''run'', rm_experiment_id = ''e'', rm_task_id = ''t'', rm_candidate_id = ''c'',
      rm_genome_hash = None, rm_requested_model = ''m'', rm_returned_model = None,
      rm_model_parameters = [], rm_seed = 0, rm_environment_digest = ''sha256:'' @ zeros,
      rm_code_revision = ''r'', rm_budget_limits =
        \<lparr>max_input_tokens = None, max_output_tokens = None, max_total_tokens = None, max_model_calls = None,
         max_model_retries = None, max_tool_calls = None, max_tool_cpu_seconds = None,
         max_container_wall_seconds = None, max_elapsed_seconds = None, max_estimated_cost_usd = None\<rparr>,
      rm_status = PENDING, rm_created_at = 0, rm_started_at = None, rm_finished_at = None,
      rm_terminal_reason = None, rm_artifacts = [(''patch'', patch_ref)]\<rparr>"

definition audited_root :: verified_run_root where
  "audited_root = \<lparr>vrr_manifest = audited_manifest, vrr_manifest_revision = 0, vrr_manifest_sha256 = zeros,
     vrr_event_count = 2, vrr_head_event_sha256 = zeros\<rparr>"

definition plain_file :: "int \<Rightarrow> stat_result" where
  "plain_file n = \<lparr>st_type = FRegular, st_size = n, st_nlink = 1\<rparr>"

definition plain_directory :: stat_result where
  "plain_directory = \<lparr>st_type = FDirectory, st_size = 0, st_nlink = 2\<rparr>"

definition demo_view :: cas_view where
  "demo_view =
     \<lparr>cv_root_identity_ok = True, cv_root_absolute = True, cv_ancestors = [Lstat plain_directory],
      cv_lstat = (\<lambda>p. if length p = 3 then Lstat (plain_file 3) else Lstat plain_directory),
      cv_open = (\<lambda>p. if p = [''sha256'', ''00'', zeros] then Opened (plain_file 3) [1, 2, 3] None
        else Opened (plain_file 1) [7] None),
      cv_scandir = (\<lambda>p. (if p = [] then [NamedEntry ''sha256'' (Lstat plain_directory)]
        else if p = [''sha256''] then [NamedEntry ''00'' (Lstat plain_directory), NamedEntry ''11'' (Lstat plain_directory)]
        else if p = [''sha256'', ''00''] then [NamedEntry zeros (Lstat (plain_file 3))]
        else [NamedEntry ones (Lstat (plain_file 1))], None))\<rparr>"

definition no_parsers :: parsers where
  "no_parsers = \<lparr>parse_task = (\<lambda>_. ParseFailed), parse_evaluation = (\<lambda>_. ParseFailed)\<rparr>"

definition demo_audit :: artifact_audit where
  "demo_audit =
     \<lparr>aa_snapshot_sha256 = zeros,
      aa_reachable = [\<lparr>ra_sha256 = zeros, ra_size_bytes = 3, ra_storage_ref = ''sha256/00/'' @ zeros,
        ra_media_types = [''text/x-diff''], ra_owners = [\<lparr>ao_run_id = ''run'', ao_path = [''patch'']\<rparr>],
        ra_bytes_verified = True\<rparr>],
      aa_findings = [\<lparr>af_key = \<lparr>fk_kind = CORRUPT_FINALIZED_ORPHAN, fk_relative_path = ''sha256/11/'' @ ones,
        fk_expected_sha256 = Some ones, fk_observed_sha256 = Some zeros, fk_size_bytes = Some 1,
        fk_detail = None, fk_errno = None\<rparr>, af_owners = []\<rparr>],
      aa_complete = True, aa_quarantine_allowed = True\<rparr>"

lemma demo_audit_runs: "audit_artifact_store zero_sha demo_view no_parsers [audited_root] = Inr demo_audit"
proof -
  have H: "json_sha256 zero_sha = (\<lambda>_. zeros)"
    by (simp add: fun_eq_iff json_sha256_def sha256_bytes_def zero_sha_def)
  show ?thesis unfolding audit_artifact_store_def H by code_simp
qed

lemma demo_reference: "reachable_reference demo_view no_parsers [audited_root] patch_ref"
  by (simp add: reachable_reference_def audited_root_def audited_manifest_def)

theorem trusted_audit_covers_evidence_witness: "intact zero_sha demo_view patch_ref"
proof -
  have "aa_quarantine_allowed demo_audit" by (simp add: demo_audit_def)
  from trusted_audit_covers_evidence [OF demo_audit_runs this demo_reference] show ?thesis by blast
qed

theorem orphans_are_not_evidence_witness:
  "\<exists>f \<in> set (aa_findings demo_audit). \<exists>d. fk_expected_sha256 (af_key f) = Some d \<and> d \<noteq> ar_sha256 patch_ref"
proof -
  have q: "aa_quarantine_allowed demo_audit" by (simp add: demo_audit_def)
  obtain f where f: "f \<in> set (aa_findings demo_audit)"
    "fk_kind (af_key f) = VALID_FINALIZED_ORPHAN \<or> fk_kind (af_key f) = CORRUPT_FINALIZED_ORPHAN"
    by (simp add: demo_audit_def)
  from orphans_are_not_evidence [OF demo_audit_runs q f demo_reference] f(1) show ?thesis by blast
qed

end
