(* ===== verification/Storage_Properties.thy ===== *)
theory Storage_Properties
  imports Storage_Report Audit_Properties Store_Properties
begin

text \<open>
  Properties of the coordinated storage audit (\<open>Storage_Report\<close>): the gates follow from the state, a
  storage pair that may be mutated has intact evidence for its whole ledger, and the audit reports
  instead of raising.
\<close>

section \<open>The gates\<close>

lemmas derive_defs = derive_without_database_def derive_bound_def refused_def Let_def

lemma derive_gates:
  assumes "derive_report p s a d = Inr v"
  shows "dv_mutation_allowed v \<longleftrightarrow> dv_state v \<in> {INITIALIZED_EMPTY, INITIALIZED_EMPTY_WITH_UNREFERENCED_FINDINGS,
      HEALTHY_WITH_UNREFERENCED_FINDINGS, HEALTHY}"
    and "dv_read_allowed v \<longleftrightarrow> dv_mutation_allowed v" and "dv_references_verified v \<longleftrightarrow> dv_mutation_allowed v"
    and "dv_quarantine_allowed v \<longrightarrow> dv_mutation_allowed v"
    and "dv_initialization_allowed v \<longleftrightarrow> dv_state v = UNINITIALIZED"
    and "dv_clean v \<longleftrightarrow> dv_state v \<in> {UNINITIALIZED, INITIALIZED_EMPTY, HEALTHY}"
  using assms
  by (auto simp: derive_report_def derive_defs split: if_splits option.splits)

lemma report_derived:
  assumes "StorageIntegrityReport r = Inr r'"
  obtains v where "r' = r" "derive_report (sr_database_present r) (sr_ledger_snapshot r) (sr_artifact_audit r) (sr_diagnostic r) = Inr v"
    "sr_state r = dv_state v" "sr_initialization_allowed r = dv_initialization_allowed v"
    "sr_references_verified r = dv_references_verified v" "sr_read_allowed r = dv_read_allowed v"
    "sr_mutation_allowed r = dv_mutation_allowed v" "sr_quarantine_allowed r = dv_quarantine_allowed v"
    "sr_clean r = dv_clean v"
  using assms by (auto simp: StorageIntegrityReport_def state_and_gates_are_derived_def result_simps)

section \<open>Operations that only advance the world\<close>

definition only_ticks :: "storage_world \<Rightarrow> storage_world \<Rightarrow> bool" where
  "only_ticks w t = (\<exists>n. t = w\<lparr>sw_tick := n\<rparr>)"

interpretation world: state_preorder only_ticks
proof
  show "only_ticks w w" for w unfolding only_ticks_def by (rule exI [of _ "sw_tick w"]) simp
qed (auto simp: only_ticks_def)

abbreviation ticking :: "(storage_world, 'a) op \<Rightarrow> bool" where
  "ticking \<equiv> world.keeps"

lemma ticking_world:
  assumes "ticking m" and "m w = (r, t)"
  shows "sw_database t = sw_database w \<and> sw_artifacts t = sw_artifacts w \<and> sw_lstat t = sw_lstat w \<and> sw_check t = sw_check w"
  using world.keepsD [OF assms] by (auto simp: only_ticks_def)

lemma ticking_answer [intro, simp]: "ticking (answer f)"
  by (auto simp: world.keeps_def only_ticks_def answer_def)

lemma ticking_observe [intro, simp]: "ticking (observe_path p)" "ticking (require_same_path p e)"
  by (auto simp: observe_path_def require_same_path_def)

lemma ticking_sidecars [intro, simp]: "ticking (observe_sidecars ps)"
  by (induction ps rule: observe_sidecars.induct) auto

lemma ticking_audit [intro, simp]: "ticking (open_and_audit sha ps roots ob)"
  by (auto simp: open_and_audit_def)

lemmas ticking_rules = world.keeps_bind world.keeps_then world.keeps_if world.keeps_catch world.keeps_for

lemma ticking_unchanged [intro, simp]: "ticking (paths_are_unchanged ps)"
  by (induction ps rule: paths_are_unchanged.induct) auto

lemma ticking_parts [intro, simp]:
  "ticking unstable_report" "ticking (audit_for_snapshot sha ps roots s ob)" "ticking (audit_without_database sha ps ob)"
  unfolding unstable_report_def audit_for_snapshot_def audit_without_database_def
  by (intro ticking_rules; auto intro!: ticking_rules split: option.splits)+

lemma ticking_verified [intro]:
  assumes "\<And>roots. ticking (body roots)"
  shows "ticking (verified_snapshot H db body)"
  unfolding verified_snapshot_def by (intro ticking_rules assms) auto

lemma ticking_database [intro, simp]: "ticking (audit_verified_database sha ps so ob ao sidecars)"
  unfolding audit_verified_database_def
  by (intro ticking_rules ticking_verified) (auto split: prod.splits)

lemma ticking_audit_storage [intro, simp]: "ticking (audit_storage sha ps)"
  unfolding audit_storage_def Let_def report_without_ledger_def
  by (intro ticking_rules) (auto intro!: ticking_rules split: option.splits)

section \<open>Mutation requires intact evidence\<close>

lemma trusted_audit:
  assumes "valid_audit a" and "derive_report True (Some s) (Some a) None = Inr v" and "dv_mutation_allowed v"
  shows "aa_quarantine_allowed a"
  using assms
  by (auto simp: derive_report_def derive_defs valid_audit_def claims_and_order_are_derived_def list_ex_iff list_all_iff
      split: if_splits)

lemma ArtifactAudit_Inr: "ArtifactAudit a = Inr b \<longleftrightarrow> b = a \<and> valid_audit a"
  by (auto simp: ArtifactAudit_def)

lemma audit_valid: "audit_artifact_store sha v ps roots = Inr a \<Longrightarrow> valid_audit a"
  by (auto simp: audit_artifact_store_def finish_audit_def unusable_store_audit_def Let_def result_simps ArtifactAudit_Inr
      split: prod.splits if_splits option.splits)

lemma answer_Inr [result_simps]:
  "answer f w = (Inr x, t) \<longleftrightarrow> f w (sw_tick w) = Inr x \<and> t = w\<lparr>sw_tick := Suc (sw_tick w)\<rparr>"
  by (auto simp: answer_def)

lemma audit_for_snapshot_Inr:
  assumes "audit_for_snapshot sha ps roots s ob w = (Inr a, t)"
  shows "valid_audit a
    \<and> ((\<exists>k v. sw_artifacts w k = Inr v \<and> audit_artifact_store sha v ps roots = Inr a)
       \<or> (\<forall>r \<in> set roots. rm_artifacts (vrr_manifest r) = []) \<or> \<not> aa_quarantine_allowed a)"
proof (cases "po_kind ob = DIRECTORY_PATH")
  case True
  with assms obtain opened u where o: "scatch store_open_failure
      (sbind (open_and_audit sha ps roots ob) (\<lambda>a. sreturn (Some a))) (sreturn None) w = (Inr opened, u)"
    and r: "(case opened of
          None \<Rightarrow> slift (incomplete_audit (ls_snapshot_sha256 s) ''artifact_store_open_failed'')
        | Some audit \<Rightarrow>
            sthen (sguard (aa_snapshot_sha256 audit = ls_snapshot_sha256 s) ValueError) (sreturn audit)) u = (Inr a, t)"
    unfolding audit_for_snapshot_def by (auto simp: sbind_Inr)
  show ?thesis
  proof (cases opened)
    case None
    with r show ?thesis by (auto simp: incomplete_audit_def ArtifactAudit_Inr result_simps)
  next
    case (Some b)
    with r have "b = a" by (auto simp: result_simps)
    with scatch_Inr [OF o] Some have "\<exists>v. sw_artifacts w (sw_tick w) = Inr v \<and> audit_artifact_store sha v ps roots = Inr a"
      by (auto simp: open_and_audit_def result_simps)
    then show ?thesis using audit_valid by blast
  qed
next
  case False
  with assms show ?thesis
    by (auto simp: audit_for_snapshot_def missing_store_audit_def empty_audit_def incomplete_audit_def ArtifactAudit_Inr
        Let_def result_simps list_ex_iff split: if_splits)
qed

lemma audit_verified_Inr:
  assumes "audit_verified_database sha ps so ob ao sidecars w = (Inr (s, a), t)"
  obtains n db roots where "sw_database w n = Inr db" "verified_roots (json_sha256 sha) db = Inr roots"
    "make_ledger_snapshot (json_sha256 sha) roots = Inr s" "valid_audit a"
    "(\<exists>k v. sw_artifacts w k = Inr v \<and> audit_artifact_store sha v ps roots = Inr a)
     \<or> (\<forall>r \<in> set roots. rm_artifacts (vrr_manifest r) = []) \<or> \<not> aa_quarantine_allowed a"
proof -
  let ?w1 = "w\<lparr>sw_tick := Suc (Suc (sw_tick w))\<rparr>"
  from assms obtain db roots w2 w3 w4 where
    db: "sw_database w (sw_tick w) = Inr db" "verified_roots (json_sha256 sha) db = Inr roots"
    and p1: "require_same_path StateDirectory so ?w1 = (Inr (), w2)"
    and p2: "require_same_path DatabaseFile ob w2 = (Inr (), w3)"
    and sn: "make_ledger_snapshot (json_sha256 sha) roots = Inr s"
    and au: "audit_for_snapshot sha ps roots s ao w3 = (Inr a, w4)"
    unfolding audit_verified_database_def verified_snapshot_def by (auto simp: result_simps)
  have "sw_artifacts w3 = sw_artifacts w"
    using ticking_world [OF ticking_observe(2) p1] ticking_world [OF ticking_observe(2) p2] by simp
  with audit_for_snapshot_Inr [OF au] that [OF db sn] show thesis by simp
qed

lemma make_report_Inr:
  assumes "make_report p ap s a d = Inr r"
  obtains v where "derive_report p s a d = Inr v" "sr_mutation_allowed r = dv_mutation_allowed v"
    "sr_ledger_snapshot r = s" "sr_artifact_audit r = a" "sr_state r = dv_state v"
  using assms by (auto simp: make_report_def result_simps elim!: report_derived)

lemma no_snapshot_no_mutation: "make_report p ap None a d = Inr r \<Longrightarrow> \<not> sr_mutation_allowed r"
  by (erule make_report_Inr) (auto simp: derive_report_def derive_defs split: if_splits)

lemma unstable_no_mutation: "unstable_report w = (Inr r, t) \<Longrightarrow> \<not> sr_mutation_allowed r"
  by (auto simp: unstable_report_def result_simps dest: no_snapshot_no_mutation split: if_splits)

lemma no_ledger_no_mutation: "report_without_ledger sha ps p ao obs d w = (Inr r, t) \<Longrightarrow> \<not> sr_mutation_allowed r"
  by (auto simp: report_without_ledger_def sbind_Inr slift_Inr
      dest: no_snapshot_no_mutation unstable_no_mutation split: if_splits)

lemma audit_storage_mutation:
  assumes "audit_storage sha ps w = (Inr r, w')" and mut: "sr_mutation_allowed r"
  obtains so ob ao sidecars u s a t where
    "audit_verified_database sha ps so ob ao sidecars u = (Inr (s, a), t)"
    "sw_database u = sw_database w" "sw_artifacts u = sw_artifacts w"
    "make_report True (po_kind ao \<noteq> MISSING_PATH) (Some s) (Some a) (artifact_root_diagnostic ao) = Inr r"
proof -
  from assms obtain so w1 where so: "observe_path StateDirectory w = (Inr so, w1)"
    by (auto simp: audit_storage_def sbind_Inr)
  have dir: "po_kind so = DIRECTORY_PATH"
    using assms(1) so mut
    by (auto simp: audit_storage_def sbind_Inr slift_Inr dest: no_snapshot_no_mutation split: if_splits)
  from assms(1) so dir obtain ob w2 ao w3 sidecars w4 where
    ob: "observe_path DatabaseFile w1 = (Inr ob, w2)" and ao: "observe_path ArtifactRoot w2 = (Inr ao, w3)"
    and sc: "observe_sidecars sidecar_paths w3 = (Inr sidecars, w4)"
    by (auto simp: audit_storage_def sbind_Inr)
  have reg: "po_kind ob = REGULAR_PATH"
    using assms(1) so ob ao sc dir mut
    by (auto simp: audit_storage_def sbind_Inr Let_def dest: no_ledger_no_mutation split: if_splits)
  from assms(1) so ob ao sc dir reg obtain opened w5 where
    op: "scatch database_failure (sbind (audit_verified_database sha ps so ob ao sidecars) (\<lambda>r. sreturn (Some r)))
           (sreturn None) w4 = (Inr opened, w5)"
    and rep: "(case opened of
           None \<Rightarrow> slift (make_report True (po_kind ao \<noteq> MISSING_PATH) None None
             (Some ''database_integrity_validation_failed''))
         | Some (snapshot, audit) \<Rightarrow>
             slift (make_report True (po_kind ao \<noteq> MISSING_PATH) (Some snapshot) (Some audit)
               (artifact_root_diagnostic ao))) w5 = (Inr r, w')"
    by (auto simp: audit_storage_def sbind_Inr Let_def)
  obtain s a where sa: "opened = Some (s, a)"
    using rep mut by (cases opened) (auto simp: slift_Inr dest: no_snapshot_no_mutation)
  then have "audit_verified_database sha ps so ob ao sidecars w4 = (Inr (s, a), w5)"
    using scatch_Inr [OF op] by (auto simp: result_simps)
  moreover have "sw_database w4 = sw_database w" "sw_artifacts w4 = sw_artifacts w"
    using ticking_world [OF ticking_observe(1) so] ticking_world [OF ticking_observe(1) ob]
      ticking_world [OF ticking_observe(1) ao] ticking_world [OF ticking_sidecars sc] by simp_all
  moreover have "make_report True (po_kind ao \<noteq> MISSING_PATH) (Some s) (Some a) (artifact_root_diagnostic ao) = Inr r"
    using rep sa by (simp add: slift_Inr)
  ultimately show thesis by (rule that)
qed

lemma snapshot_roots:
  "make_ledger_snapshot H roots = Inr s \<Longrightarrow> ls_roots s = map commitment_of (sort_key root_run_id roots)"
  by (auto simp: make_ledger_snapshot_def Let_def result_simps)

lemma mutation_evidence:
  assumes "audit_storage sha ps w = (Inr r, w')" and "sr_mutation_allowed r"
  shows "\<exists>n db roots s. sw_database w n = Inr db \<and> verified_roots (json_sha256 sha) db = Inr roots
    \<and> sr_ledger_snapshot r = Some s \<and> ls_roots s = map commitment_of (sort_key root_run_id roots)
    \<and> ((\<forall>q \<in> set roots. rm_artifacts (vrr_manifest q) = [])
       \<or> (\<exists>k v. sw_artifacts w k = Inr v \<and> (\<forall>ref. reachable_reference v ps roots ref \<longrightarrow> intact sha v ref)))"
proof -
  obtain so ob ao sidecars u s a t where
    "audit_verified_database sha ps so ob ao sidecars u = (Inr (s, a), t)"
    and w: "sw_database u = sw_database w" "sw_artifacts u = sw_artifacts w"
    and rep: "make_report True (po_kind ao \<noteq> MISSING_PATH) (Some s) (Some a) (artifact_root_diagnostic ao) = Inr r"
    using assms by (rule audit_storage_mutation)
  then obtain n db roots where db: "sw_database u n = Inr db" "verified_roots (json_sha256 sha) db = Inr roots"
    and sn: "make_ledger_snapshot (json_sha256 sha) roots = Inr s" and va: "valid_audit a"
    and alt: "(\<exists>k v. sw_artifacts u k = Inr v \<and> audit_artifact_store sha v ps roots = Inr a)
       \<or> (\<forall>r \<in> set roots. rm_artifacts (vrr_manifest r) = []) \<or> \<not> aa_quarantine_allowed a"
    by (elim audit_verified_Inr)
  obtain v where v: "derive_report True (Some s) (Some a) (artifact_root_diagnostic ao) = Inr v"
      "dv_mutation_allowed v" "sr_ledger_snapshot r = Some s"
    using rep assms(2) by (auto elim: make_report_Inr)
  moreover have "artifact_root_diagnostic ao = None"
    using v by (auto simp: derive_report_def refused_def split: if_splits)
  ultimately have q: "aa_quarantine_allowed a" using trusted_audit va by metis
  with alt w have "(\<forall>q \<in> set roots. rm_artifacts (vrr_manifest q) = [])
       \<or> (\<exists>k v. sw_artifacts w k = Inr v \<and> (\<forall>ref. reachable_reference v ps roots ref \<longrightarrow> intact sha v ref))"
    using trusted_covers by metis
  with db w sn v(3) snapshot_roots show ?thesis by metis
qed

section \<open>Which exceptions escape\<close>

named_theorems raising "rules for the exceptions that a computation may raise"

definition raises_only :: "exn set \<Rightarrow> 'a result \<Rightarrow> bool" where
  "raises_only E m = (\<forall>e. m = Inl e \<longrightarrow> e \<in> E)"

lemma raises_only_simps [simp]:
  "raises_only E (Inr x)" "raises_only E (Inl e) \<longleftrightarrow> e \<in> E"
  by (auto simp: raises_only_def)

lemma raises_only_Inr [raising]: "raises_only E (Inr x)"
  by simp

lemma raises_only_prod [raising]:
  "(\<And>a b. raises_only E (f a b)) \<Longrightarrow> raises_only E (case p of (a, b) \<Rightarrow> f a b)"
  "(\<And>a b. raises_only E (g a b s)) \<Longrightarrow> raises_only E ((case p of (a, b) \<Rightarrow> g a b) s)"
  by (cases p, simp)+

lemma raises_only_bind [raising]: "raises_only E m \<Longrightarrow> (\<And>x. raises_only E (f x)) \<Longrightarrow> raises_only E (rbind m f)"
  by (cases m) auto

lemma raises_only_require [raising]: "e \<in> E \<Longrightarrow> raises_only E (require b e)"
  by (cases b) auto

lemma raises_only_of_option [raising]: "e \<in> E \<Longrightarrow> raises_only E (of_option e m)"
  by (cases m) auto

lemma raises_only_fold [raising]: "(\<And>x s. raises_only E (f x s)) \<Longrightarrow> raises_only E (rfold f xs s)"
  by (induction xs arbitrary: s) (simp_all add: raises_only_bind)

lemma raises_only_mono: "raises_only E m \<Longrightarrow> E \<subseteq> F \<Longrightarrow> raises_only F m"
  by (auto simp: raises_only_def)

lemma raises_only_column [raising]: "ValidationError \<in> E \<Longrightarrow> raises_only E (load_column valid c)"
  by (auto simp: load_column_def split: column.split)

lemma raises_only_replay [raising]: "StoreIntegrityError \<in> E \<Longrightarrow> raises_only E (store_error (replay_events H b es))"
  using replay_events_integrity_only [of H b es]
  by (cases "replay_events H b es") (auto simp: integrity_only_def)

abbreviation ledger_errors :: "exn set" where
  "ledger_errors \<equiv> {KeyError, ValidationError, StoreIntegrityError}"

lemma ledger_raises [raising]:
  "raises_only ledger_errors (load_manifest_locked H db i)"
  "raises_only ledger_errors (load_budget_locked H db i)"
  "raises_only ledger_errors (list_events_locked H db i)"
  "raises_only ledger_errors (validate_manifest_history_locked H db i m n)"
proof -
  show man: "raises_only ledger_errors (load_manifest_locked H db i)"
    unfolding load_manifest_locked_def by (intro raising) simp_all
  show "raises_only ledger_errors (load_budget_locked H db i)"
    unfolding load_budget_locked_def by (intro raising man) simp_all
  have row: "raises_only ledger_errors (load_event_row H i q p)" for q p
    unfolding load_event_row_def Let_def by (cases p) (simp, intro raising, simp_all)
  show "raises_only ledger_errors (list_events_locked H db i)"
    unfolding list_events_locked_def Let_def require_run_def
    by (simp split: prod.split) (intro conjI impI raising row, simp_all add: split_def)
  have rev: "raises_only ledger_errors (validate_revision H i q p)" for q p
    unfolding validate_revision_def
    by (intro raising) (auto simp: raises_only_def map_error_def split: option.splits sum.splits)
  show "raises_only ledger_errors (validate_manifest_history_locked H db i m n)"
    unfolding validate_manifest_history_locked_def Let_def by (intro raising rev) simp_all
qed

lemma state_raises [raising]: "raises_only ledger_errors (validated_state_locked H db i m)"
  unfolding validated_state_locked_def by (intro raising) (auto simp: split_def intro!: raising)

lemma verified_roots_raises: "raises_only ledger_errors (verified_roots H db)"
  unfolding verified_roots_def verified_root_def Let_def
  by (intro raising) (auto intro!: raising)

lemma make_owner_raises [raising]: "ValidationError \<in> E \<Longrightarrow> raises_only E (make_owner i p)"
  by (simp add: make_owner_def)

lemma references_raise [raising]:
  "ValidationError \<in> E \<Longrightarrow> raises_only E (task_references i task)"
  "ValidationError \<in> E \<Longrightarrow> raises_only E (evaluation_references i ev)"
  unfolding task_references_def evaluation_references_def reference_nodes_def reference_node_of_def
  by (intro raising; assumption)+

lemma audit_node_raises: "ValidationError \<in> E \<Longrightarrow> raises_only E (audit_node sha v ps mb node st)"
  unfolding audit_node_def Let_def
  by (auto simp: audit_task_def audit_evaluation_def Let_def intro!: raising
      split: prod.split blob_read.split option.split structured_role.split parsed.split)

lemma audit_loop_raises: "ValidationError \<in> E \<Longrightarrow> raises_only E (audit_loop sha v ps mb n pending st)"
proof (induction sha v ps mb n pending st rule: audit_loop.induct)
  case (1 sha v ps mb n pending st)
  show ?case
  proof (cases pending)
    case Nil then show ?thesis by (simp add: audit_loop.simps)
  next
    case (Cons node rest)
    show ?thesis
    proof (cases "audit_node sha v ps mb node st")
      case (Inl e)
      then show ?thesis using audit_node_raises [OF 1(2), of sha v ps mb node st] Cons
        by (subst audit_loop.simps) simp
    next
      case (Inr q)
      obtain st' nodes where q: "q = (st', nodes)" by fastforce
      show ?thesis using 1(1) [OF Cons _ Inr q [symmetric] 1(2)] Cons Inr q
        by (subst audit_loop.simps) simp
    qed
  qed
qed

lemma audit_raises:
  assumes "ValueError \<in> E" and "ValidationError \<in> E"
  shows "raises_only E (audit_artifact_store sha v ps roots)"
proof -
  have ctor: "raises_only E (ArtifactAudit a)" for a using assms by (simp add: ArtifactAudit_def)
  have vr: "raises_only E (validate_roots H roots)" for H
    unfolding validate_roots_def validate_root_def verified_run_roots_sha256_def Let_def
    by (intro raising) (simp_all add: assms)
  have nodes: "raises_only E (initial_nodes rs)" for rs
    unfolding initial_nodes_def root_nodes_def
    by (intro raising; rule assms)
  show ?thesis
    unfolding audit_artifact_store_def
    by (rule raises_only_bind [OF vr])
      (auto simp: unusable_store_audit_def finish_audit_def Let_def split: prod.split option.split
        intro!: raises_only_bind nodes audit_loop_raises ctor assms)
qed

section \<open>The audit reports instead of raising\<close>

text \<open>A world whose failures are the documented ones: opening or checking the database raises \<open>OSError\<close>,
  \<open>sqlite3.DatabaseError\<close>, \<open>StoreIntegrityError\<close> or \<open>ValueError\<close>, opening the artifact store raises what
  \<open>FileArtifactStore\<close> raises.\<close>

definition tame :: "storage_world \<Rightarrow> bool" where
  "tame w = (\<forall>n e. (sw_database w n = Inl e \<longrightarrow> database_failure e) \<and> (sw_check w n = Inl e \<longrightarrow> database_failure e)
     \<and> (sw_artifacts w n = Inl e \<longrightarrow> store_open_failure e))"

definition quiet :: "exn set \<Rightarrow> (storage_world, 'a) op \<Rightarrow> bool" where
  "quiet E m = (ticking m \<and> (\<forall>w e t. tame w \<longrightarrow> m w = (Inl e, t) \<longrightarrow> e \<in> E))"

named_theorems quiet_rules "rules for operations that raise a set of exceptions only"

lemma tame_tick: "ticking m \<Longrightarrow> tame w \<Longrightarrow> m w = (r, t) \<Longrightarrow> tame t"
  using ticking_world unfolding tame_def by metis

lemma quiet_bind_post:
  assumes m: "quiet E m" and post: "\<And>w x t. m w = (Inr x, t) \<Longrightarrow> P x" and f: "\<And>x. P x \<Longrightarrow> quiet E (f x)"
    and tick: "\<And>x. ticking (f x)"
  shows "quiet E (sbind m f)"
  using assms tame_tick unfolding quiet_def by (auto simp: sbind_Inl) blast+

lemma quiet_bind [quiet_rules]: "quiet E m \<Longrightarrow> (\<And>x. quiet E (f x)) \<Longrightarrow> quiet E (sbind m f)"
  by (rule quiet_bind_post [where P = "\<lambda>_. True"]) (auto simp: quiet_def)

lemma quiet_then [quiet_rules]: "quiet E m \<Longrightarrow> quiet E n \<Longrightarrow> quiet E (sthen m n)"
  unfolding sthen_def by (rule quiet_bind)

lemma quiet_pure [quiet_rules]:
  "raises_only E x \<Longrightarrow> quiet E (slift x)" "quiet E (sreturn y)" "e \<in> E \<Longrightarrow> quiet E (sguard b e)"
  by (auto simp: quiet_def raises_only_def raise_simps)

lemma quiet_if [quiet_rules]: "quiet E m \<Longrightarrow> quiet E n \<Longrightarrow> quiet E (if b then m else n)"
  by simp

lemma quiet_answer:
  "(\<And>w n e. tame w \<Longrightarrow> f w n = Inl e \<Longrightarrow> e \<in> E) \<Longrightarrow> quiet E (answer f)"
  by (auto simp: quiet_def answer_def)

lemma quiet_catch:
  assumes "quiet F m" and "quiet E h" and "\<And>e. e \<in> F \<Longrightarrow> p e"
  shows "quiet E (scatch p m h)"
proof -
  have "e \<in> E" if w: "tame w" and r: "scatch p m h w = (Inl e, t)" for w e t
  proof -
    from r obtain e' u where m: "m w = (Inl e', u)" and h: "if p e' then h u = (Inl e, t) else e' = e \<and> u = t"
      by (auto simp: scatch_def split: prod.splits sum.splits if_splits)
    from m w assms(1) have "e' \<in> F" "tame u" using tame_tick unfolding quiet_def by blast+
    with h assms(2,3) show ?thesis unfolding quiet_def by auto
  qed
  then show ?thesis using assms(1,2) unfolding quiet_def by blast
qed

lemma quiet_for [quiet_rules]: "(\<And>x. quiet E (f x)) \<Longrightarrow> quiet E (sfor xs f)"
  by (induction xs) (auto intro: quiet_rules)

lemma quiet_observe [quiet_rules]: "quiet E (observe_path p)"
  unfolding observe_path_def by (rule quiet_answer) simp

lemma quiet_paths [quiet_rules]: "quiet E (paths_are_unchanged obs)"
  by (induction obs rule: paths_are_unchanged.induct) (auto intro!: quiet_rules)

lemma quiet_sidecars [quiet_rules]: "quiet E (observe_sidecars ps)"
  by (induction ps rule: observe_sidecars.induct) (auto intro!: quiet_rules)

lemma quiet_same_path [quiet_rules]: "StoreIntegrityError \<in> E \<Longrightarrow> quiet E (require_same_path p e)"
  unfolding require_same_path_def by (intro quiet_rules)

lemma make_report_total:
  "raises_only E (make_report p ap None a d)"
  "aa_snapshot_sha256 b = ls_snapshot_sha256 s \<Longrightarrow> raises_only E (make_report True ap (Some s) (Some b) d)"
  by (simp_all add: make_report_def StorageIntegrityReport_def state_and_gates_are_derived_def derive_report_def)

lemma quiet_unstable [quiet_rules]: "quiet E unstable_report"
  unfolding unstable_report_def by (intro quiet_rules make_report_total)

lemma incomplete_audit_total: "is_lower_sha256 d \<Longrightarrow> raises_only E (incomplete_audit d x)"
  by (simp add: incomplete_audit_def ArtifactAudit_def valid_audit_def valid_finding_def sorted_owners_def
      simple_finding_def claims_and_order_are_derived_def incomplete_kind_def ENOENT_def)

lemma quiet_open_and_audit:
  "quiet {e. store_open_failure e} (open_and_audit sha ps roots ob)"
  unfolding open_and_audit_def
  by (intro quiet_rules quiet_answer audit_raises) (auto simp: tame_def store_open_failure_def is_value_error_def)

lemma quiet_without_database:
  assumes "\<And>b. is_lower_sha256 (sha b)"
  shows "quiet E (audit_without_database sha ps ob)"
proof -
  have H: "is_lower_sha256 (json_sha256 sha j)" for j by (simp add: json_sha256_def sha256_bytes_def assms)
  have sn: "make_ledger_snapshot (json_sha256 sha) [] = Inr s \<Longrightarrow> is_lower_sha256 (ls_snapshot_sha256 s)" for s
    by (auto simp: make_ledger_snapshot_def Let_def result_simps valid_snapshot_def)
  have "raises_only E (make_ledger_snapshot (json_sha256 sha) [])"
    by (simp add: make_ledger_snapshot_def verified_run_roots_sha256_def valid_snapshot_def H identity_is_canonical_def)
  note q = quiet_rules quiet_catch [OF quiet_bind [OF quiet_open_and_audit]] incomplete_audit_total this
  show ?thesis
    unfolding audit_without_database_def
    by (intro quiet_if quiet_pure quiet_bind_post [where P = "\<lambda>s. is_lower_sha256 (ls_snapshot_sha256 s)"] q)
      (auto simp: slift_Inr sn intro!: world.keeps_catch world.keeps_bind)
qed

abbreviation database_errors :: "exn set" where
  "database_errors \<equiv> {e. database_failure e}"

lemma database_errors_simps [simp]: "database_failure StoreIntegrityError" "database_failure ValueError"
    "database_failure ValidationError"
  by (simp_all add: database_failure_def is_value_error_def)

lemma constructed_raises:
  "raises_only database_errors (ArtifactAudit a)" "raises_only database_errors (make_ledger_snapshot H roots)"
  unfolding make_ledger_snapshot_def verified_run_roots_sha256_def Let_def
  by (simp add: ArtifactAudit_def, intro raising) (simp_all add: raising)

lemma constructed_audits_raise:
  "raises_only database_errors (missing_store_audit roots d)" "raises_only database_errors (empty_audit d)"
  "raises_only database_errors (incomplete_audit d x)"
  unfolding missing_store_audit_def missing_references_of_def empty_audit_def incomplete_audit_def Let_def
  by (intro raising constructed_raises; simp)+

lemma quiet_for_snapshot: "quiet database_errors (audit_for_snapshot sha ps roots s ob)"
proof -
  have "quiet database_errors (scatch store_open_failure
      (sbind (open_and_audit sha ps roots ob) (\<lambda>a. sreturn (Some a))) (sreturn None))"
    by (rule quiet_catch [OF quiet_bind [OF quiet_open_and_audit]]) (auto intro: quiet_rules)
  then show ?thesis
    unfolding audit_for_snapshot_def
    by (intro quiet_if quiet_bind quiet_pure constructed_audits_raise)
      (auto split: option.split intro!: quiet_rules constructed_audits_raise)
qed

lemma audit_for_snapshot_bound:
  assumes "audit_for_snapshot sha ps roots s ob w = (Inr a, t)"
  shows "aa_snapshot_sha256 a = ls_snapshot_sha256 s"
  using assms unfolding audit_for_snapshot_def
  by (auto simp: result_simps missing_store_audit_def empty_audit_def incomplete_audit_def Let_def ArtifactAudit_Inr
      split: if_splits option.splits)

lemma audit_verified_bound:
  "audit_verified_database sha ps so ob ao sidecars w = (Inr (s, a), t) \<Longrightarrow> aa_snapshot_sha256 a = ls_snapshot_sha256 s"
  unfolding audit_verified_database_def verified_snapshot_def
  by (auto simp: result_simps dest: audit_for_snapshot_bound)

lemma quiet_verified: "quiet database_errors (audit_verified_database sha ps so ob ao sidecars)"
proof -
  have "raises_only database_errors (map_error (\<lambda>e. if validation_failure e then StoreIntegrityError else e) (verified_roots H db))"
    for H db
    using verified_roots_raises [of H db] by (cases "verified_roots H db") (auto simp: validation_failure_def)
  moreover have "quiet database_errors (answer sw_database)" "quiet database_errors (answer sw_check)"
    by (auto intro!: quiet_answer simp: tame_def)
  ultimately show ?thesis
    unfolding audit_verified_database_def verified_snapshot_def
    by (intro quiet_rules constructed_raises quiet_for_snapshot) (auto intro!: quiet_rules)
qed

lemma quiet_without_ledger:
  "(\<And>b. is_lower_sha256 (sha b)) \<Longrightarrow> quiet E (report_without_ledger sha ps p ao obs d)"
  unfolding report_without_ledger_def
  by (intro quiet_rules quiet_without_database make_report_total)

lemma quiet_ticking: "quiet E m \<Longrightarrow> ticking m"
  by (simp add: quiet_def)

lemma quiet_audit_storage:
  assumes sha: "\<And>b. is_lower_sha256 (sha b)"
  shows "quiet {} (audit_storage sha ps)"
proof -
  let ?bound = "\<lambda>r. case r of None \<Rightarrow> True | Some (s, a) \<Rightarrow> aa_snapshot_sha256 a = ls_snapshot_sha256 s"
  have ledger: "quiet {} (sbind (scatch database_failure
       (sbind (audit_verified_database sha ps so ob ao sidecars) (\<lambda>r. sreturn (Some r))) (sreturn None)) (\<lambda>opened.
     case opened of
       None \<Rightarrow> slift (make_report True p None None d')
     | Some (snapshot, audit) \<Rightarrow> slift (make_report True p (Some snapshot) (Some audit) d)))"
    for so ob ao sidecars p d d'
  proof (rule quiet_bind_post [where P = ?bound])
    show "quiet {} (scatch database_failure
       (sbind (audit_verified_database sha ps so ob ao sidecars) (\<lambda>r. sreturn (Some r))) (sreturn None))"
      by (rule quiet_catch [OF quiet_bind [OF quiet_verified]]) (auto intro: quiet_rules)
    show "?bound x" if "scatch database_failure
       (sbind (audit_verified_database sha ps so ob ao sidecars) (\<lambda>r. sreturn (Some r))) (sreturn None) w = (Inr x, t)"
      for w x t
      using scatch_Inr [OF that] by (auto simp: result_simps dest: audit_verified_bound split: option.split)
  qed (auto split: option.split intro!: quiet_pure make_report_total)
  show ?thesis
    unfolding audit_storage_def Let_def
    by (intro quiet_if quiet_bind quiet_pure(1) quiet_observe quiet_paths quiet_sidecars make_report_total
        quiet_without_ledger sha ledger)
qed

section \<open>A concrete state directory\<close>

text \<open>A directory with a database that holds one created run, without an artifact store.\<close>

definition demo_lstat :: "nat \<Rightarrow> storage_path \<Rightarrow> path_lstat" where
  "demo_lstat n p = (case p of StateDirectory \<Rightarrow> PathFound FDirectory 1 2 | DatabaseFile \<Rightarrow> PathFound FRegular 1 3
     | _ \<Rightarrow> PathAbsent)"

definition demo_world :: storage_world where
  "demo_world =
     \<lparr>sw_tick = 0, sw_lstat = demo_lstat, sw_database = (\<lambda>_. Inr (st_db created_store)),
      sw_check = (\<lambda>_. Inr ()), sw_artifacts = (\<lambda>_. Inl OSError)\<rparr>"

lemma zero_sha_hash: "json_sha256 zero_sha = zero_hash"
  by (simp add: fun_eq_iff json_sha256_def sha256_bytes_def zero_sha_def zero_hash_def zeros_def)

lemma demo_audit_storage:
  "(case fst (audit_storage zero_sha no_parsers demo_world) of Inl e \<Rightarrow> False
    | Inr r \<Rightarrow> sr_mutation_allowed r \<and> (case sr_ledger_snapshot r of None \<Rightarrow> False | Some s \<Rightarrow> ls_roots s \<noteq> []))"
  unfolding audit_storage_def audit_verified_database_def audit_for_snapshot_def open_and_audit_def audit_artifact_store_def
    audit_without_database_def report_without_ledger_def zero_sha_hash demo_world_def created_store_def
  by code_simp

section \<open>Properties\<close>

text \<open>The state of a storage report determines its gates. Reading and mutating are allowed exactly in
  the four states in which the ledger is verified and all referenced evidence is intact,
  initializing exactly in the uninitialized state, and quarantine never without mutation.\<close>

theorem state_determines_gates:
  assumes "StorageIntegrityReport r = Inr r'"
  shows "(sr_mutation_allowed r' \<longleftrightarrow> sr_state r' \<in> {INITIALIZED_EMPTY, INITIALIZED_EMPTY_WITH_UNREFERENCED_FINDINGS,
        HEALTHY_WITH_UNREFERENCED_FINDINGS, HEALTHY})
    \<and> (sr_read_allowed r' \<longleftrightarrow> sr_mutation_allowed r') \<and> (sr_references_verified r' \<longleftrightarrow> sr_mutation_allowed r')
    \<and> (sr_quarantine_allowed r' \<longrightarrow> sr_mutation_allowed r')
    \<and> (sr_initialization_allowed r' \<longleftrightarrow> sr_state r' = UNINITIALIZED)
    \<and> (sr_clean r' \<longleftrightarrow> sr_state r' \<in> {UNINITIALIZED, INITIALIZED_EMPTY, HEALTHY})"
  using assms by (rule report_derived) (use derive_gates in metis)

theorem state_determines_gates_witness:
  "\<exists>r. StorageIntegrityReport r = Inr r \<and> sr_state r = UNINITIALIZED \<and> sr_initialization_allowed r \<and> \<not> sr_mutation_allowed r"
proof -
  let ?r = "\<lparr>sr_state = UNINITIALIZED, sr_database_present = False, sr_artifact_root_present = False,
    sr_ledger_snapshot = None, sr_artifact_audit = None, sr_diagnostic = None, sr_initialization_allowed = True,
    sr_references_verified = False, sr_read_allowed = False, sr_mutation_allowed = False,
    sr_quarantine_allowed = False, sr_clean = True\<rparr>"
  have "StorageIntegrityReport ?r = Inr ?r" by code_simp
  with state_determines_gates [OF this] show ?thesis by auto
qed

text \<open>C31: an audit of a state directory that allows mutation has verified the whole ledger of the database
  it opened, commits to exactly its runs, and either no run has artifacts or every artifact reachable
  from the runs was found intact in the artifact store it opened.\<close>

theorem mutation_requires_intact_evidence:
  assumes "audit_storage sha ps w = (Inr r, w')" and "sr_mutation_allowed r"
  shows "\<exists>n db roots s. sw_database w n = Inr db \<and> verified_roots (json_sha256 sha) db = Inr roots
    \<and> sr_ledger_snapshot r = Some s \<and> ls_roots s = map commitment_of (sort_key root_run_id roots)
    \<and> ((\<forall>q \<in> set roots. rm_artifacts (vrr_manifest q) = [])
       \<or> (\<exists>k v. sw_artifacts w k = Inr v \<and> (\<forall>ref. reachable_reference v ps roots ref \<longrightarrow> intact sha v ref)))"
  using assms by (rule mutation_evidence)

theorem mutation_requires_intact_evidence_witness:
  "\<exists>roots. verified_roots zero_hash (st_db created_store) = Inr roots \<and> roots \<noteq> []"
proof -
  obtain r w' where r: "audit_storage zero_sha no_parsers demo_world = (Inr r, w')"
      "sr_mutation_allowed r" "case sr_ledger_snapshot r of None \<Rightarrow> False | Some s \<Rightarrow> ls_roots s \<noteq> []"
    using demo_audit_storage by (cases "audit_storage zero_sha no_parsers demo_world") (auto split: sum.splits)
  obtain roots s where s: "verified_roots zero_hash (st_db created_store) = Inr roots" "sr_ledger_snapshot r = Some s"
      "ls_roots s = map commitment_of (sort_key root_run_id roots)"
    using mutation_requires_intact_evidence [OF r(1,2)] by (auto simp: zero_sha_hash demo_world_def)
  have "ls_roots s \<noteq> []" using r(3) s(2) by simp
  with s show ?thesis by auto
qed

text \<open>The coordinated audit never raises. Whatever the paths look like and however they change while
  they are observed, and whatever the tables and the artifact store hold, it returns a report, as long
  as opening the two stores fails with the documented exceptions and digests have their format.\<close>

theorem audit_storage_never_raises:
  assumes "\<And>b. is_lower_sha256 (sha b)" and "tame w"
  shows "\<exists>r w'. audit_storage sha ps w = (Inr r, w')"
proof -
  have "quiet {} (audit_storage sha ps)" using assms(1) by (rule quiet_audit_storage)
  moreover obtain x t where "audit_storage sha ps w = (x, t)" by fastforce
  ultimately show ?thesis using assms(2)
    unfolding quiet_def by (cases x) auto
qed

theorem audit_storage_never_raises_witness: "\<exists>r w'. audit_storage zero_sha no_parsers demo_world = (Inr r, w')"
proof (rule audit_storage_never_raises)
  show "is_lower_sha256 (zero_sha b)" for b unfolding zero_sha_def by code_simp
  show "tame demo_world" by (simp add: tame_def demo_world_def store_open_failure_def)
qed

end
