(* ===== verification/Artifact_Store.thy ===== *)
theory Artifact_Store
  imports Artifact_Audit
begin

text \<open>
  Model of the content-addressed store of \<open>src/src/guildmind/storage/artifacts.py\<close> on a file system.

  The file system is a map from paths below the store's root to entries. Every system call consumes
  one tick and may fail: \<open>fs_fault n\<close> says that the \<open>n\<close>-th call raises an \<open>OSError\<close>. A failing write leaves
  an arbitrary prefix of the data behind. \<open>fs_temp n\<close> is the suffix that \<open>tempfile.mkstemp\<close> chooses at tick
  \<open>n\<close>. Names resolve exactly, as on a case-sensitive file system. The directories from the file
  system's root to the store (\<open>_validate_directory_chain\<close>) are outside the map: their check passes or
  raises.
\<close>

section \<open>The file system\<close>

datatype fs_entry = FsDir nat | FsFile nat "nat list" int | FsOther nat

type_synonym fs_path = "string list"

record artifact_fs =
  fs_entries :: "fs_path \<Rightarrow> fs_entry option"
  fs_next_inode :: nat
  fs_tick :: nat
  fs_fault :: "nat \<Rightarrow> bool"
  fs_partial :: "nat \<Rightarrow> nat"
  fs_temp :: "nat \<Rightarrow> string"
  fs_read_only :: bool

definition is_fs_dir :: "fs_entry option \<Rightarrow> bool" where
  "is_fs_dir e = (case e of Some (FsDir _) \<Rightarrow> True | _ \<Rightarrow> False)"

text \<open>One system call whose failure raises \<open>e\<close>.\<close>

definition syscall :: "exn \<Rightarrow> (artifact_fs, unit) op" where
  "syscall e s = (require (\<not> fs_fault s (fs_tick s)) e, s\<lparr>fs_tick := Suc (fs_tick s)\<rparr>)"

definition fs_lstat :: "fs_path \<Rightarrow> (artifact_fs, fs_entry option) op" where
  "fs_lstat p = sthen (syscall ArtifactCorruptionError) (sget (\<lambda>s. fs_entries s p))"

section \<open>Directories and names\<close>

text \<open>\<open>_require_exact_entry_name\<close>: the parent is listed; a name that the listing lacks is looked up directly.\<close>

definition require_exact_entry_name :: "fs_path \<Rightarrow> bool \<Rightarrow> (artifact_fs, bool) op" where
  "require_exact_entry_name p missing_ok =
     sthen (syscall ArtifactCorruptionError)
     (sbind (sget (\<lambda>s. fs_entries s (butlast p))) (\<lambda>parent.
      if parent = None then
        (if missing_ok then sreturn False else sraise ArtifactCorruptionError)
      else if \<not> is_fs_dir parent then sraise ArtifactCorruptionError
      else
        sbind (sget (\<lambda>s. fs_entries s p)) (\<lambda>entry.
        if entry \<noteq> None then sreturn True
        else
          sbind (fs_lstat p) (\<lambda>again.
          if again = None \<and> missing_ok then sreturn False else sraise ArtifactCorruptionError))))"

definition require_real_directory :: "fs_path \<Rightarrow> bool \<Rightarrow> (artifact_fs, bool) op" where
  "require_real_directory p missing_ok =
     sbind (fs_lstat p) (\<lambda>entry.
     if entry = None then
       (if missing_ok then sreturn False else sraise ArtifactCorruptionError)
     else if \<not> is_fs_dir entry then sraise ArtifactCorruptionError
     else sthen (require_exact_entry_name p False) (sreturn True))"

definition fsync_directory :: "(artifact_fs, unit) op" where
  "fsync_directory = sthen (syscall OSError) (syscall OSError)"

definition fs_mkdir :: "fs_path \<Rightarrow> (artifact_fs, unit) op" where
  "fs_mkdir p =
     sthen (syscall ArtifactCorruptionError)
     (sbind (sget (\<lambda>s. (fs_entries s p, fs_entries s (butlast p)))) (\<lambda>(entry, parent).
      if entry \<noteq> None then sreturn ()
      else if \<not> is_fs_dir parent then sraise ArtifactCorruptionError
      else smodify (\<lambda>s. s\<lparr>fs_entries := (fs_entries s)(p \<mapsto> FsDir (fs_next_inode s)),
             fs_next_inode := Suc (fs_next_inode s)\<rparr>)))"

definition parent_path :: "string \<Rightarrow> fs_path" where
  "parent_path digest = [''sha256'', take 2 digest]"

definition blob_path :: "string \<Rightarrow> fs_path" where
  "blob_path digest = [''sha256'', take 2 digest, digest]"

definition create_component :: "fs_path \<Rightarrow> (artifact_fs, unit) op" where
  "create_component candidate =
     sthen (fs_mkdir candidate) (sthen (require_real_directory candidate False) fsync_directory)"

definition artifact_parent :: "string \<Rightarrow> bool \<Rightarrow> (artifact_fs, fs_path) op" where
  "artifact_parent digest create =
     sthen (sread (\<lambda>s. require (\<not> (create \<and> fs_read_only s)) ArtifactCorruptionError))
     (sthen (syscall ArtifactCorruptionError)
     (if create then
        sthen (create_component [''sha256''])
        (sthen (create_component (parent_path digest)) (sreturn (parent_path digest)))
      else
        sbind (require_real_directory [''sha256''] True) (\<lambda>found.
        if \<not> found then sreturn (parent_path digest)
        else sbind (require_real_directory (parent_path digest) True) (\<lambda>_. sreturn (parent_path digest)))))"

section \<open>Verified reads\<close>

definition BLOB_CHUNK :: int where "BLOB_CHUNK = 1048576"

text \<open>The read loop: the bytes of the file in chunks, each read a system call.\<close>

function read_loop :: "nat list \<Rightarrow> int \<Rightarrow> nat list \<Rightarrow> (artifact_fs, nat list) op" where
  "read_loop data nbytes acc =
     sthen (syscall ArtifactCorruptionError)
     (let chunk = take (nat BLOB_CHUNK) data in
      if chunk = [] then sreturn acc
      else if nbytes < int (length (acc @ chunk)) then sraise ArtifactCorruptionError
      else read_loop (drop (nat BLOB_CHUNK) data) nbytes (acc @ chunk))"
  by pat_completeness auto
termination
  by (relation "measure (\<lambda>(data, _). length data)")
    (simp only: wf_measure, simp only: in_measure case_prod_conv, rule drop_shrinks, assumption)

declare read_loop.simps [simp del]

text \<open>Anything but a regular file is refused.\<close>

definition with_file ::
    "fs_entry option \<Rightarrow> (nat \<Rightarrow> nat list \<Rightarrow> int \<Rightarrow> (artifact_fs, 'a) op) \<Rightarrow> (artifact_fs, 'a) op" where
  "with_file e f = (case e of Some (FsFile inode data links) \<Rightarrow> f inode data links | _ \<Rightarrow> sraise ArtifactCorruptionError)"

text \<open>Open, \<open>fstat\<close>, read, \<open>fstat\<close> and \<open>lstat\<close> again, and compare what was read with the claim.\<close>

definition read_descriptor ::
    "(nat list \<Rightarrow> string) \<Rightarrow> fs_path \<Rightarrow> string \<Rightarrow> int \<Rightarrow> nat \<Rightarrow> (artifact_fs, nat list) op" where
  "read_descriptor sha p digest nbytes inode =
     sthen (syscall ArtifactCorruptionError)
     (sthen (syscall ArtifactCorruptionError)
     (sbind (sget (\<lambda>s. fs_entries s p)) (\<lambda>opened.
      with_file opened (\<lambda>inode' data links'.
        sthen (sguard (inode' = inode \<and> int (length data) = nbytes \<and> links' = 1) ArtifactCorruptionError)
        (sbind (read_loop data nbytes []) (\<lambda>contents.
         sthen (syscall ArtifactCorruptionError)
        (sbind (fs_lstat p) (\<lambda>final.
         sthen (require_exact_entry_name p False)
        (sthen (sguard (final = opened) ArtifactCorruptionError)
        (sthen (sguard (int (length contents) = nbytes \<and> sha contents = digest) ArtifactCorruptionError)
        (sreturn contents)))))))))))"

definition read_verified_path :: "(nat list \<Rightarrow> string) \<Rightarrow> fs_path \<Rightarrow> string \<Rightarrow> int \<Rightarrow> (artifact_fs, nat list) op" where
  "read_verified_path sha p digest nbytes =
     sbind (artifact_parent digest False) (\<lambda>expected_parent.
     sthen (sguard (butlast p = expected_parent) ArtifactCorruptionError)
     (sbind (fs_lstat p) (\<lambda>path_metadata.
      sthen (sguard (path_metadata \<noteq> None) ArtifactCorruptionError)
     (sthen (require_exact_entry_name p False)
     (with_file path_metadata (\<lambda>inode data links.
        sthen (sguard (links = 1) ArtifactCorruptionError) (read_descriptor sha p digest nbytes inode)))))))"

definition path_for :: "artifact_ref \<Rightarrow> (artifact_fs, fs_path) op" where
  "path_for reference =
     sthen (sguard (ar_storage_ref reference = canonical_relative_path (ar_sha256 reference)) ArtifactCorruptionError)
     (sbind (artifact_parent (ar_sha256 reference) False) (\<lambda>parent. sreturn (parent @ [ar_sha256 reference])))"

definition get_bytes :: "(nat list \<Rightarrow> string) \<Rightarrow> artifact_ref \<Rightarrow> (artifact_fs, nat list) op" where
  "get_bytes sha reference =
     sbind (path_for reference) (\<lambda>p. read_verified_path sha p (ar_sha256 reference) (ar_size_bytes reference))"

definition verify_artifact :: "(nat list \<Rightarrow> string) \<Rightarrow> artifact_ref \<Rightarrow> (artifact_fs, unit) op" where
  "verify_artifact sha reference =
     sbind (path_for reference) (\<lambda>p.
     sthen (read_verified_path sha p (ar_sha256 reference) (ar_size_bytes reference)) (sreturn ()))"

section \<open>Publishing\<close>

definition mkstemp :: "fs_path \<Rightarrow> (artifact_fs, fs_path) op" where
  "mkstemp directory =
     sbind (sget (\<lambda>s. directory @ [''.artifact-'' @ fs_temp s (fs_tick s)])) (\<lambda>temporary.
     sthen (syscall OSError)
     (sthen (sread (\<lambda>s. require (fs_entries s temporary = None \<and> is_fs_dir (fs_entries s directory)) OSError))
     (sthen (smodify (\<lambda>s. s\<lparr>fs_entries := (fs_entries s)(temporary \<mapsto> FsFile (fs_next_inode s) [] 1),
         fs_next_inode := Suc (fs_next_inode s)\<rparr>))
      (sreturn temporary))))"

definition write_file :: "fs_path \<Rightarrow> nat list \<Rightarrow> (artifact_fs, unit) op" where
  "write_file p data s =
     (let n = fs_tick s; written = (if fs_fault s n then take (fs_partial s n) data else data);
          t = s\<lparr>fs_entries := (case fs_entries s p of
                  Some (FsFile inode _ links) \<Rightarrow> (fs_entries s)(p \<mapsto> FsFile inode written links)
                | _ \<Rightarrow> fs_entries s)\<rparr> in
      sthen (syscall OSError) (syscall OSError) t)"

text \<open>\<open>_rename_noreplace\<close>: whether this publisher won; an occupied target is left alone.\<close>

definition rename_noreplace :: "fs_path \<Rightarrow> fs_path \<Rightarrow> (artifact_fs, bool) op" where
  "rename_noreplace source target =
     sthen (syscall ArtifactCorruptionError)
     (sbind (sget (\<lambda>s. (fs_entries s source, fs_entries s target))) (\<lambda>(contender, occupant).
      if occupant \<noteq> None then sreturn False
      else if contender = None then sraise ArtifactCorruptionError
      else sthen (smodify (\<lambda>s. s\<lparr>fs_entries := (fs_entries s)(target := contender, source := None)\<rparr>))
        (sreturn True)))"

definition unlink_missing_ok :: "fs_path \<Rightarrow> (artifact_fs, unit) op" where
  "unlink_missing_ok p = sthen (syscall OSError) (smodify (\<lambda>s. s\<lparr>fs_entries := (fs_entries s)(p := None)\<rparr>))"

text \<open>The \<open>try\<close> block of \<open>_write_atomic\<close>: its outcome, and whether the contender is to be preserved.\<close>

definition publish_contender ::
    "(nat list \<Rightarrow> string) \<Rightarrow> fs_path \<Rightarrow> fs_path \<Rightarrow> nat list \<Rightarrow> artifact_fs \<Rightarrow> (unit result \<times> bool) \<times> artifact_fs" where
  "publish_contender sha temporary target data s =
     (let digest = sha256_bytes sha data; verify = (\<lambda>p. read_verified_path sha p digest (int (length data))) in
      case sthen (write_file temporary data) (sthen (verify temporary) (rename_noreplace temporary target)) s of
        (Inl e, t) \<Rightarrow> ((Inl e, False), t)
      | (Inr published, t) \<Rightarrow>
          if published then ((Inr (), False), t)
          else (case verify target t of
                  (Inl e, u) \<Rightarrow> ((Inl e, e = ArtifactCorruptionError), u)
                | (Inr _, u) \<Rightarrow> ((Inr (), False), u)))"

text \<open>The \<open>finally\<close> block: an exception it raises replaces the outcome.\<close>

definition write_atomic :: "(nat list \<Rightarrow> string) \<Rightarrow> fs_path \<Rightarrow> nat list \<Rightarrow> (artifact_fs, unit) op" where
  "write_atomic sha target data =
     sbind (mkstemp (butlast target)) (\<lambda>temporary s.
     case publish_contender sha temporary target data s of ((outcome, preserve_temporary), t) \<Rightarrow>
     (sthen (if preserve_temporary then sreturn () else unlink_missing_ok temporary)
     (sthen fsync_directory
     (sthen (slift outcome)
     (sthen (read_verified_path sha target (sha256_bytes sha data) (int (length data))) (sreturn ()))))) t)"

definition put_bytes :: "(nat list \<Rightarrow> string) \<Rightarrow> nat list \<Rightarrow> string \<Rightarrow> (artifact_fs, artifact_ref) op" where
  "put_bytes sha data media_type =
     sthen (sread (\<lambda>s. require (\<not> fs_read_only s) ArtifactCorruptionError))
     (let digest = sha256_bytes sha data;
          reference = \<lparr>ar_media_type = strip_whitespace media_type, ar_size_bytes = int (length data),
            ar_sha256 = digest, ar_storage_ref = canonical_relative_path digest\<rparr> in
      sthen (sguard (valid_artifact_ref reference) ValidationError)
     (sbind (artifact_parent digest True) (\<lambda>parent.
      sthen (write_atomic sha (parent @ [digest]) data) (sreturn reference))))"

definition put_text :: "(nat list \<Rightarrow> string) \<Rightarrow> string \<Rightarrow> string \<Rightarrow> (artifact_fs, artifact_ref) op" where
  "put_text sha txt media_type = put_bytes sha (utf8_encode txt) media_type"

end
