(* ===== verification/Artifact_Store_Properties.thy ===== *)
theory Artifact_Store_Properties
  imports Artifact_Store Frames
begin

text \<open>
  Properties of the content-addressed store (\<open>Artifact_Store\<close>). Its contract is that of a map from digests
  to bytes which is only ever extended (the locale \<open>content_map\<close>); the file system operations refine it,
  whatever system call fails, and publishing completes when no call fails.
\<close>

section \<open>Reading changes nothing\<close>

definition only_time :: "artifact_fs \<Rightarrow> artifact_fs \<Rightarrow> bool" where
  "only_time s t = (\<exists>n. t = s\<lparr>fs_tick := n\<rparr>)"

interpretation reading: state_preorder only_time
proof
  show "only_time s s" for s unfolding only_time_def by (rule exI [of _ "fs_tick s"]) simp
qed (auto simp: only_time_def)

abbreviation reads :: "(artifact_fs, 'a) op \<Rightarrow> bool" where
  "reads \<equiv> reading.keeps"

lemma reads_syscall [intro, simp]: "reads (syscall e)"
  by (auto simp: reading.keeps_def only_time_def syscall_def)

lemma reads_lstat [intro, simp]: "reads (fs_lstat p)"
  unfolding fs_lstat_def by blast

lemma reads_names [intro, simp]: "reads (require_exact_entry_name p b)" "reads (require_real_directory p b)"
  unfolding require_exact_entry_name_def require_real_directory_def by (intro reading.keeps_bind reading.keeps_then
      reading.keeps_if reading.keeps_pure reads_syscall reads_lstat conjI impI | simp)+

lemma reads_fsync [intro, simp]: "reads fsync_directory"
  unfolding fsync_directory_def by blast

lemma reads_parent [intro, simp]: "reads (artifact_parent d False)"
  unfolding artifact_parent_def by (simp, intro reading.keeps_bind reading.keeps_then reading.keeps_if
      reading.keeps_pure reads_syscall reads_names)

lemma reads_loop [intro, simp]: "reads (read_loop data n acc)"
proof (induction data n acc rule: read_loop.induct)
  case (1 data n acc)
  then show ?case by (subst read_loop.simps) (auto simp: Let_def)
qed

lemma reads_with_file [intro]: "(\<And>i b l. reads (f i b l)) \<Longrightarrow> reads (with_file e f)"
  by (auto simp: with_file_def split: option.split fs_entry.split)

lemma reads_descriptor [intro, simp]: "reads (read_descriptor sha p d n i)"
  unfolding read_descriptor_def
  by (intro reading.keeps_bind reading.keeps_then reading.keeps_pure reads_with_file reads_lstat reads_names reads_syscall
      reads_loop)

lemma reads_verified [intro, simp]: "reads (read_verified_path sha p d n)"
  unfolding read_verified_path_def
  by (intro reading.keeps_bind reading.keeps_then reading.keeps_pure reads_with_file reads_parent reads_lstat reads_names
      reads_descriptor)

lemma reads_get [intro, simp]: "reads (path_for r)" "reads (get_bytes sha r)" "reads (verify_artifact sha r)"
  unfolding path_for_def get_bytes_def verify_artifact_def by blast+

lemma reads_entries: "reads m \<Longrightarrow> m s = (r, t) \<Longrightarrow> fs_entries t = fs_entries s"
  using reading.keepsD by (fastforce simp: only_time_def)

section \<open>What a verified read returns\<close>

lemma read_loop_Inr: "read_loop data n acc s = (Inr bs, t) \<Longrightarrow> bs = acc @ data"
proof (induction data n acc arbitrary: s rule: read_loop.induct)
  case (1 data n acc)
  let ?chunk = "take (nat BLOB_CHUNK) data"
  have split: "data = ?chunk @ drop (nat BLOB_CHUNK) data" by simp
  show ?case
  proof (cases "?chunk = []")
    case True
    then have "data = []" by (simp add: BLOB_CHUNK_def)
    with 1(2) show ?thesis by (subst (asm) read_loop.simps) (auto simp: result_simps Let_def)
  next
    case False
    with 1(2) obtain u where n: "\<not> n < int (length (acc @ ?chunk))"
      and "read_loop (drop (nat BLOB_CHUNK) data) n (acc @ ?chunk) u = (Inr bs, t)"
      by (subst (asm) read_loop.simps) (auto simp: result_simps Let_def split: if_splits)
    from 1(1) [OF refl False n this(2)] show ?thesis using split by (metis append.assoc)
  qed
qed

lemma with_file_Inr [result_simps]:
  "with_file e f s = (Inr x, t) \<longleftrightarrow> (\<exists>i b l. e = Some (FsFile i b l) \<and> f i b l s = (Inr x, t))"
  by (auto simp: with_file_def sraise_Inr split: option.splits fs_entry.splits)

lemma read_descriptor_Inr:
  assumes "read_descriptor sha p d n i s = (Inr bs, t)"
  shows "fs_entries s p = Some (FsFile i bs 1) \<and> sha bs = d \<and> int (length bs) = n"
proof -
  from assms obtain s1 s2 data s3 where
    sc: "syscall ArtifactCorruptionError s = (Inr (), s1)" "syscall ArtifactCorruptionError s1 = (Inr (), s2)"
    and o: "fs_entries s2 p = Some (FsFile i data 1)" and rl: "read_loop data n [] s2 = (Inr bs, s3)"
    and fin: "int (length bs) = n" "sha bs = d"
    unfolding read_descriptor_def by (auto simp: result_simps)
  have "fs_entries s2 = fs_entries s"
    using reads_entries [OF reads_syscall sc(1)] reads_entries [OF reads_syscall sc(2)] by simp
  with o read_loop_Inr [OF rl] fin show ?thesis by simp
qed

lemma read_verified_Inr:
  assumes "read_verified_path sha p d n s = (Inr bs, t)"
  shows "(\<exists>i. fs_entries s p = Some (FsFile i bs 1)) \<and> sha bs = d \<and> int (length bs) = n"
proof -
  from assms obtain par s1 s2 s3 e u i where
    a: "artifact_parent d False s = (Inr par, s1)" and l: "fs_lstat p s1 = (Inr e, s2)"
    and x: "require_exact_entry_name p False s2 = (Inr u, s3)"
    and r: "read_descriptor sha p d n i s3 = (Inr bs, t)"
    unfolding read_verified_path_def by (auto simp: result_simps)
  have "fs_entries s3 = fs_entries s"
    using reads_entries [OF reads_parent a] reads_entries [OF reads_lstat l] reads_entries [OF reads_names(1) x] by simp
  with read_descriptor_Inr [OF r] show ?thesis by auto
qed

section \<open>What publishing changes\<close>

abbreviation temporary_path :: "fs_path \<Rightarrow> bool" where
  "temporary_path p \<equiv> p \<noteq> [] \<and> starts_with ''.artifact-'' (last p)"

lemma mkstemp_effect:
  assumes "mkstemp directory s = (r, t)"
  shows "(\<exists>e. r = Inl e \<and> fs_entries t = fs_entries s)
    \<or> (\<exists>tp i. r = Inr tp \<and> temporary_path tp \<and> fs_entries s tp = None \<and> fs_entries t = (fs_entries s)(tp \<mapsto> FsFile i [] 1))"
  using assms
  by (cases r)
    (auto simp: mkstemp_def syscall_def starts_with_def sthen_def sbind_def sget_def sread_def smodify_def sreturn_def
      require_def split: if_splits)

lemma write_file_effect:
  assumes "write_file p data s = (r, t)" and "fs_entries s p = Some (FsFile i b l)"
  shows "\<exists>w. fs_entries t = (fs_entries s)(p \<mapsto> FsFile i w l) \<and> (r = Inr () \<longrightarrow> w = data)"
  using assms
  by (auto simp: write_file_def Let_def syscall_def sthen_def sbind_def require_def split: if_splits)

lemma rename_effect:
  assumes "rename_noreplace source target s = (r, t)"
  shows "fs_entries t = fs_entries s \<and> r \<noteq> Inr True
    \<or> r = Inr True \<and> fs_entries s target = None \<and> fs_entries s source \<noteq> None
      \<and> fs_entries t = (fs_entries s)(target := fs_entries s source, source := None)"
  using assms
  by (auto simp: rename_noreplace_def syscall_def sthen_def sbind_def sget_def smodify_def sreturn_def sraise_def require_def
      split: if_splits)

lemma verify_keeps: "read_verified_path sha p d n s = (r, t) \<Longrightarrow> fs_entries t = fs_entries s"
  by (rule reads_entries [OF reads_verified])

lemma publish_effect:
  assumes pub: "publish_contender sha tp target data s = ((out, keep), t)"
    and tp: "fs_entries s tp = Some (FsFile i b 1)" and ne: "tp \<noteq> target"
  shows "(\<exists>e. fs_entries t = (fs_entries s)(tp := e))
    \<or> fs_entries s target = None \<and> fs_entries t = (fs_entries s)(tp := None, target \<mapsto> FsFile i data 1)"
proof -
  let ?v = "\<lambda>p. read_verified_path sha p (sha256_bytes sha data) (int (length data))"
  obtain r1 s1 where w: "write_file tp data s = (r1, s1)" by fastforce
  obtain c where c: "fs_entries s1 = (fs_entries s)(tp \<mapsto> FsFile i c 1)" "r1 = Inr () \<longrightarrow> c = data"
    using write_file_effect [OF w tp] by blast
  obtain r2 s2 where v: "?v tp s1 = (r2, s2)" by fastforce
  obtain r3 s3 where n: "rename_noreplace tp target s2 = (r3, s3)" by fastforce
  obtain r4 s4 where v4: "?v target s3 = (r4, s4)" by fastforce
  note keep = verify_keeps [OF v] verify_keeps [OF v4]
  have r: "fs_entries s3 = fs_entries s2 \<and> r3 \<noteq> Inr True
    \<or> r3 = Inr True \<and> fs_entries s target = None
      \<and> fs_entries s3 = (fs_entries s)(tp := None, target \<mapsto> FsFile i c 1)"
    using rename_effect [OF n] keep(1) c(1) ne by (auto simp: fun_eq_iff)
  have "t = (case r1 of Inl _ \<Rightarrow> s1 | Inr _ \<Rightarrow> (case r2 of Inl _ \<Rightarrow> s2 | Inr _ \<Rightarrow>
      (case r3 of Inr False \<Rightarrow> s4 | _ \<Rightarrow> s3)))"
    using pub w v n v4
    by (auto simp: publish_contender_def Let_def sthen_def sbind_def split: sum.splits prod.splits if_splits bool.splits)
  then have "fs_entries t = fs_entries s1 \<or> (r1 = Inr () \<and> fs_entries t = fs_entries s3)"
    using keep r by (auto split: sum.splits bool.splits)
  then show ?thesis using c r keep(1) by (auto simp: fun_upd_def)
qed

lemma unlink_effect:
  "unlink_missing_ok p s = (r, t) \<Longrightarrow> fs_entries t = fs_entries s \<or> fs_entries t = (fs_entries s)(p := None)"
  by (auto simp: unlink_missing_ok_def syscall_def sthen_def sbind_def smodify_def require_def split: if_splits)

lemma fsync_keeps: "fsync_directory s = (r, t) \<Longrightarrow> fs_entries t = fs_entries s"
  by (rule reads_entries [OF reads_fsync])

lemma write_atomic_effect:
  assumes "write_atomic sha target data s = (r, t)" and target: "\<not> temporary_path target"
  shows "(\<forall>p. \<not> temporary_path p \<and> p \<noteq> target \<longrightarrow> fs_entries t p = fs_entries s p)
    \<and> (fs_entries t target = fs_entries s target
       \<or> fs_entries s target = None \<and> (\<exists>i. fs_entries t target = Some (FsFile i data 1)))
    \<and> (r = Inr () \<longrightarrow> (\<exists>i b. fs_entries t target = Some (FsFile i b 1) \<and> sha b = sha256_bytes sha data \<and> length b = length data))"
proof -
  obtain r1 s1 where m: "mkstemp (butlast target) s = (r1, s1)" by fastforce
  show ?thesis
  proof (cases r1)
    case (Inl e)
    with m assms(1) mkstemp_effect [OF m] show ?thesis by (auto simp: write_atomic_def sbind_def)
  next
    case (Inr tp)
    then obtain i where tp: "temporary_path tp" "fs_entries s tp = None" "fs_entries s1 = (fs_entries s)(tp \<mapsto> FsFile i [] 1)"
      using mkstemp_effect [OF m] by auto
    obtain out keep s2 where pb: "publish_contender sha tp target data s1 = ((out, keep), s2)"
      by (metis prod.collapse)
    have ne: "tp \<noteq> target" using tp(1) target by blast
    obtain r3 s3 where un: "(if keep then sreturn () else unlink_missing_ok tp) s2 = (r3, s3)" by fastforce
    obtain r4 s4 where fs: "fsync_directory s3 = (r4, s4)" by fastforce
    obtain r5 s5 where vf: "read_verified_path sha target (sha256_bytes sha data) (int (length data)) s4 = (r5, s5)" by fastforce
    have t: "fs_entries t = fs_entries s3"
      using assms(1) m Inr pb un fs vf fsync_keeps [OF fs] verify_keeps [OF vf]
      by (auto simp: write_atomic_def sthen_def sbind_def slift_def sreturn_def split: sum.splits if_splits)
    have "fs_entries s3 = fs_entries s2 \<or> fs_entries s3 = (fs_entries s2)(tp := None)"
      using un unlink_effect by (auto simp: sreturn_def split: if_splits)
    moreover have "(\<exists>e. fs_entries s2 = (fs_entries s)(tp := e))
        \<or> fs_entries s target = None \<and> fs_entries s2 = (fs_entries s)(tp := None, target \<mapsto> FsFile i data 1)"
      using publish_effect [OF pb _ ne, of i "[]"] tp ne by auto
    ultimately have eff: "(\<forall>p. p \<noteq> tp \<and> p \<noteq> target \<longrightarrow> fs_entries s3 p = fs_entries s p)"
      "fs_entries s3 target = fs_entries s target
        \<or> fs_entries s target = None \<and> fs_entries s3 target = Some (FsFile i data 1)"
      using ne by auto
    have "\<exists>i b. fs_entries t target = Some (FsFile i b 1) \<and> sha b = sha256_bytes sha data \<and> length b = length data"
      if "r = Inr ()"
    proof -
      have "\<exists>b. r5 = Inr b"
        using that assms(1) m Inr pb un fs vf
        by (auto simp: write_atomic_def sthen_def sbind_def slift_def sreturn_def split: sum.splits if_splits)
      then show ?thesis using read_verified_Inr vf t fsync_keeps [OF fs] by fastforce
    qed
    moreover have "\<forall>p. \<not> temporary_path p \<and> p \<noteq> target \<longrightarrow> fs_entries t p = fs_entries s p"
      using eff(1) tp(1) t by metis
    ultimately show ?thesis using eff(2) t by auto
  qed
qed

section \<open>Directories\<close>

text \<open>Creating directories: only absent paths of at most two components change.\<close>

definition only_directories :: "artifact_fs \<Rightarrow> artifact_fs \<Rightarrow> bool" where
  "only_directories s t = (\<forall>p. length p = 3 \<longrightarrow> fs_entries t p = fs_entries s p)"

interpretation creating: state_preorder only_directories
  by unfold_locales (auto simp: only_directories_def)

lemma creating_reads: "reads m \<Longrightarrow> creating.keeps m"
  by (rule creating.keepsI) (metis only_directories_def reads_entries prod.collapse)

lemma creating_mkdir: "length p \<noteq> 3 \<Longrightarrow> creating.keeps (fs_mkdir p)"
  unfolding fs_mkdir_def split_def
  by (intro creating.keeps_bind creating.keeps_then creating.keeps_pure creating.keeps_if creating_reads reads_syscall
      creating.keepsI) (auto simp: only_directories_def smodify_def)

lemma creating_parent: "creating.keeps (artifact_parent d True)"
proof -
  have c: "creating.keeps (create_component p)" if "length p \<noteq> 3" for p
    unfolding create_component_def
    by (intro creating.keeps_then creating_mkdir that creating_reads reads_names reads_fsync)
  show ?thesis
    unfolding artifact_parent_def
    by (simp, intro creating.keeps_then creating.keeps_pure c creating_reads reads_syscall) (simp_all add: parent_path_def)
qed

lemma parent_Inr: "artifact_parent d b s = (Inr p, t) \<Longrightarrow> p = parent_path d"
  by (auto simp: artifact_parent_def result_simps split: if_splits)

section \<open>The store as a map\<close>

text \<open>The blob under a digest: a regular file with one link at the canonical path whose bytes have the digest.\<close>

definition blob :: "(nat list \<Rightarrow> string) \<Rightarrow> artifact_fs \<Rightarrow> string \<Rightarrow> nat list option" where
  "blob sha s d =
     (if \<not> is_lower_sha256 d then None
      else (case fs_entries s (blob_path d) of
              Some (FsFile _ b links) \<Rightarrow> if links = 1 \<and> sha b = d then Some b else None
            | _ \<Rightarrow> None))"

text \<open>The contract of publishing \<open>data\<close>: the map stays, or an absent digest is bound to the data; success means that
  the digest is bound to bytes of the same digest and length.\<close>

definition abstract_put ::
    "(nat list \<Rightarrow> string) \<Rightarrow> nat list \<Rightarrow> (string \<Rightarrow> nat list option) \<Rightarrow> artifact_ref result \<Rightarrow> (string \<Rightarrow> nat list option) \<Rightarrow> bool" where
  "abstract_put sha data m r m' =
     ((m' = m \<or> m (sha data) = None \<and> m' = m(sha data \<mapsto> data))
      \<and> (\<forall>ref. r = Inr ref \<longrightarrow> ar_sha256 ref = sha data \<and> ar_size_bytes ref = int (length data)
           \<and> (\<exists>b. m' (sha data) = Some b \<and> sha b = sha data \<and> length b = length data)))"

definition abstract_get :: "artifact_ref \<Rightarrow> (string \<Rightarrow> nat list option) \<Rightarrow> nat list result \<Rightarrow> (string \<Rightarrow> nat list option) \<Rightarrow> bool" where
  "abstract_get ref m r m' =
     (m' = m \<and> (\<forall>b. r = Inr b \<longrightarrow> m (ar_sha256 ref) = Some b \<and> int (length b) = ar_size_bytes ref))"

lemma blob_path_distinct: "d \<noteq> d' \<Longrightarrow> blob_path d \<noteq> blob_path d'"
  by (simp add: blob_path_def)

lemma digest_not_temporary: "is_lower_sha256 d \<Longrightarrow> \<not> temporary_path (blob_path d)"
proof -
  assume d: "is_lower_sha256 d"
  then obtain c cs where "d = c # cs" by (cases d) (auto simp: is_lower_sha256_def)
  moreover from this d have "is_hex_digit c" by (simp add: is_lower_sha256_def)
  then have "c \<noteq> CHR ''.''" by (auto simp: is_hex_digit_def)
  ultimately show ?thesis by (auto simp: blob_path_def starts_with_def)
qed

lemma blob_cong: "fs_entries t (blob_path d) = fs_entries s (blob_path d) \<Longrightarrow> blob sha t d = blob sha s d"
  by (simp add: blob_def)

lemma put_refines:
  assumes "put_bytes sha data mt s = (r, t)"
  shows "abstract_put sha data (blob sha s) r (blob sha t)"
proof -
  let ?d = "sha data"
  let ?ref = "\<lparr>ar_media_type = strip_whitespace mt, ar_size_bytes = int (length data), ar_sha256 = ?d,
    ar_storage_ref = canonical_relative_path ?d\<rparr>"
  obtain r1 s1 where p: "artifact_parent ?d True s = (r1, s1)" by fastforce
  have s1: "fs_entries s1 (blob_path d) = fs_entries s (blob_path d)" for d
    using creating.keepsD [OF creating_parent p] by (simp add: only_directories_def blob_path_def)
  show ?thesis
  proof (cases "\<not> fs_read_only s \<and> valid_artifact_ref ?ref \<and> (\<exists>q. r1 = Inr q)")
    case False
    then have "(t = s \<or> t = s1) \<and> (\<exists>e. r = Inl e)"
      using assms p
      by (auto simp: put_bytes_def sha256_bytes_def Let_def sthen_def sbind_def sread_def sguard_def slift_def require_def
          split: if_splits sum.splits)
    then show ?thesis using s1 by (auto simp: abstract_put_def fun_eq_iff intro: blob_cong)
  next
    case True
    then obtain q where q: "r1 = Inr q" by blast
    with p have qp: "q @ [?d] = blob_path ?d" using parent_Inr by (fastforce simp: parent_path_def blob_path_def)
    obtain r2 s2 where w: "write_atomic sha (blob_path ?d) data s1 = (r2, s2)" by fastforce
    have rt: "t = s2" "\<And>ref. r = Inr ref \<Longrightarrow> r2 = Inr () \<and> ref = ?ref"
      using assms p True q qp w
      by (auto simp: put_bytes_def sha256_bytes_def Let_def sthen_def sbind_def sread_def sguard_def slift_def require_def
          sreturn_def split: if_splits sum.splits)
    have d: "is_lower_sha256 ?d" using True by (simp add: valid_artifact_ref_def)
    note eff = write_atomic_effect [OF w digest_not_temporary [OF d]]
    have other: "blob sha t d = blob sha s d" if "d \<noteq> ?d" for d
      using eff s1 rt(1) digest_not_temporary blob_path_distinct [OF that] by (auto simp: blob_def)
    have here: "blob sha t ?d = blob sha s ?d \<or> blob sha s ?d = None \<and> blob sha t ?d = Some data"
      using eff s1 rt(1) d by (auto simp: blob_def)
    have "\<exists>b. blob sha t ?d = Some b \<and> sha b = ?d \<and> length b = length data" if "r2 = Inr ()"
      using eff that rt(1) d by (auto simp: blob_def sha256_bytes_def)
    moreover have "blob sha t = blob sha s \<or> blob sha s ?d = None \<and> blob sha t = (blob sha s)(?d \<mapsto> data)"
      using here other by (metis ext fun_upd_apply)
    ultimately show ?thesis using rt(2) by (auto simp: abstract_put_def)
  qed
qed

lemma get_refines:
  assumes "get_bytes sha ref s = (r, t)" and "valid_artifact_ref ref"
  shows "abstract_get ref (blob sha s) r (blob sha t)"
proof -
  have "fs_entries t = fs_entries s" using assms(1) by (rule reads_entries [OF reads_get(2)])
  then have "blob sha t = blob sha s" by (intro ext blob_cong) simp
  moreover have "blob sha s (ar_sha256 ref) = Some b \<and> int (length b) = ar_size_bytes ref" if r: "r = Inr b" for b
  proof -
    from assms(1) r obtain p s1 where p: "path_for ref s = (Inr p, s1)"
      and v: "read_verified_path sha p (ar_sha256 ref) (ar_size_bytes ref) s1 = (Inr b, t)"
      by (auto simp: get_bytes_def result_simps)
    obtain par s0 where par: "artifact_parent (ar_sha256 ref) False s0 = (Inr par, s1)" and pe: "p = par @ [ar_sha256 ref]"
      using p by (auto simp: path_for_def sthen_Inr sbind_Inr sreturn_Inr)
    have "p = blob_path (ar_sha256 ref)"
      unfolding pe parent_Inr [OF par] by (simp add: blob_path_def parent_path_def)
    then obtain i where "fs_entries s (blob_path (ar_sha256 ref)) = Some (FsFile i b 1)" "sha b = ar_sha256 ref"
        "int (length b) = ar_size_bytes ref"
      using read_verified_Inr [OF v] reads_entries [OF reads_get(1) p] by auto
    moreover have "is_lower_sha256 (ar_sha256 ref)" using assms(2) by (simp add: valid_artifact_ref_def)
    ultimately show ?thesis by (simp add: blob_def)
  qed
  ultimately show ?thesis by (simp add: abstract_get_def)
qed

section \<open>Publishing completes\<close>

text \<open>Total correctness: the operation returns, with a value and a state that satisfy a condition.\<close>

definition returns :: "('s, 'a) op \<Rightarrow> 's \<Rightarrow> ('a \<Rightarrow> 's \<Rightarrow> bool) \<Rightarrow> bool" where
  "returns m s Q = (\<exists>x t. m s = (Inr x, t) \<and> Q x t)"

lemma returns_simps [simp]:
  "returns (sbind m f) s Q = returns m s (\<lambda>x u. returns (f x) u Q)"
  "returns (sthen m n) s Q = returns m s (\<lambda>x u. returns n u Q)"
  "returns (sreturn y) s R = R y s"
  "returns (sraise e) s Q = False"
  "returns (sget g) s G = G (g s) s"
  "returns (smodify h) s M = M () (h s)"
  "returns (sguard b e) s M = (b \<and> M () s)"
  "returns (sread k) s K = (\<exists>x. k s = Inr x \<and> K x s)"
  "returns (slift l) s K = (\<exists>x. l = Inr x \<and> K x s)"
  by (auto simp: returns_def result_simps)

lemma is_fs_dir_simps [simp]: "\<not> is_fs_dir None" "is_fs_dir (Some (FsDir i))" "\<not> is_fs_dir (Some (FsFile i b l))"
  by (simp_all add: is_fs_dir_def)

lemma returns_mono: "returns m s Q \<Longrightarrow> (\<And>x t. Q x t \<Longrightarrow> R x t) \<Longrightarrow> returns m s R"
  by (auto simp: returns_def)

abbreviation calm :: "artifact_fs \<Rightarrow> bool" where
  "calm s \<equiv> \<forall>n. \<not> fs_fault s n"

lemma returns_syscall [simp]: "calm s \<Longrightarrow> returns (syscall e) s Q = Q () (s\<lparr>fs_tick := Suc (fs_tick s)\<rparr>)"
  by (simp add: returns_def syscall_def)

lemma returns_lstat [simp]: "calm s \<Longrightarrow> returns (fs_lstat p) s Q = Q (fs_entries s p) (s\<lparr>fs_tick := Suc (fs_tick s)\<rparr>)"
  by (simp add: fs_lstat_def)

lemma returns_exact:
  assumes "calm s" and "fs_entries s p \<noteq> None" and "is_fs_dir (fs_entries s (butlast p))"
    and "\<And>k. Q True (s\<lparr>fs_tick := k\<rparr>)"
  shows "returns (require_exact_entry_name p b) s Q"
  using assms by (cases "fs_entries s (butlast p)") (auto simp: require_exact_entry_name_def)

lemma returns_directory:
  assumes "calm s" and "is_fs_dir (fs_entries s p)" and "is_fs_dir (fs_entries s (butlast p))"
    and "\<And>k. Q True (s\<lparr>fs_tick := k\<rparr>)"
  shows "returns (require_real_directory p b) s Q"
proof -
  have "fs_entries s p \<noteq> None" using assms(2) by (cases "fs_entries s p") auto
  then show ?thesis
    unfolding require_real_directory_def using assms
    by (auto intro!: returns_exact)
qed

lemma returns_parent:
  assumes "calm s" and "is_fs_dir (fs_entries s [])" and "is_fs_dir (fs_entries s [''sha256''])"
    and "is_fs_dir (fs_entries s (parent_path d))" and "\<And>k. Q (parent_path d) (s\<lparr>fs_tick := k\<rparr>)"
  shows "returns (artifact_parent d False) s Q"
  unfolding artifact_parent_def using assms
  by (auto intro!: returns_directory simp: parent_path_def)

lemma returns_loop:
  "calm s \<Longrightarrow> int (length (acc @ data)) \<le> n \<Longrightarrow> (\<And>k. Q (acc @ data) (s\<lparr>fs_tick := k\<rparr>))
    \<Longrightarrow> returns (read_loop data n acc) s Q"
proof (induction data n acc arbitrary: s rule: read_loop.induct)
  case (1 data n acc)
  let ?chunk = "take (nat BLOB_CHUNK) data" and ?s = "s\<lparr>fs_tick := Suc (fs_tick s)\<rparr>"
  have split: "acc @ data = (acc @ ?chunk) @ drop (nat BLOB_CHUNK) data" by simp
  show ?case
  proof (cases "?chunk = []")
    case True
    then have "data = []" by (simp add: BLOB_CHUNK_def)
    with 1(2,4) show ?thesis by (subst read_loop.simps) simp
  next
    case False
    have len: "int (length (acc @ ?chunk)) \<le> n" using 1(3) by simp
    have "returns (read_loop (drop (nat BLOB_CHUNK) data) n (acc @ ?chunk)) ?s Q"
    proof (rule 1(1) [OF refl False])
      show "\<not> n < int (length (acc @ ?chunk))" using len by simp
      show "calm ?s" using 1(2) by simp
      show "int (length ((acc @ ?chunk) @ drop (nat BLOB_CHUNK) data)) \<le> n" using 1(3) split by metis
      show "Q ((acc @ ?chunk) @ drop (nat BLOB_CHUNK) data) (?s\<lparr>fs_tick := k\<rparr>)" for k using 1(4) [of k] by simp
    qed
    moreover have "returns (read_loop data n acc) s Q = returns (if ?chunk = [] then sreturn acc
        else if n < int (length (acc @ ?chunk)) then sraise ArtifactCorruptionError
        else read_loop (drop (nat BLOB_CHUNK) data) n (acc @ ?chunk)) ?s Q"
      by (subst read_loop.simps) (simp only: Let_def returns_simps returns_syscall [OF 1(2)])
    ultimately show ?thesis using False len by (simp only: if_not_P not_less if_False)
  qed
qed

lemma returns_verified:
  assumes "calm s" and "is_fs_dir (fs_entries s [])" and "is_fs_dir (fs_entries s [''sha256''])"
    and "is_fs_dir (fs_entries s (parent_path d))" and "butlast p = parent_path d"
    and "fs_entries s p = Some (FsFile i b 1)" and "sha b = d" and "int (length b) = n"
    and "\<And>k. Q b (s\<lparr>fs_tick := k\<rparr>)"
  shows "returns (read_verified_path sha p d n) s Q"
  unfolding read_verified_path_def returns_simps
  by (rule returns_parent [OF assms(1-4)])
    (use assms in \<open>auto simp: with_file_def read_descriptor_def intro!: returns_exact returns_loop\<close>)

definition usable :: "artifact_fs \<Rightarrow> string \<Rightarrow> bool" where
  "usable s d =
     (is_fs_dir (fs_entries s []) \<and> (fs_entries s [''sha256''] = None \<longrightarrow> fs_entries s (parent_path d) = None)
      \<and> (fs_entries s [''sha256''] \<noteq> None \<longrightarrow> is_fs_dir (fs_entries s [''sha256'']))
      \<and> (fs_entries s (parent_path d) \<noteq> None \<longrightarrow> is_fs_dir (fs_entries s (parent_path d))))"

lemma returns_component:
  assumes "calm s" and "is_fs_dir (fs_entries s (butlast p))" and "p \<noteq> butlast p"
    and "fs_entries s p \<noteq> None \<longrightarrow> is_fs_dir (fs_entries s p)"
    and "\<And>i j k. fs_entries s p = None \<Longrightarrow> Q () (s\<lparr>fs_entries := (fs_entries s)(p \<mapsto> FsDir i), fs_next_inode := j, fs_tick := k\<rparr>)"
    and "\<And>k. is_fs_dir (fs_entries s p) \<Longrightarrow> Q () (s\<lparr>fs_tick := k\<rparr>)"
  shows "returns (create_component p) s Q"
proof (cases "fs_entries s p = None")
  case True
  then show ?thesis
    using assms(1-3) assms(5) [OF True]
    by (auto simp: create_component_def fs_mkdir_def fsync_directory_def intro!: returns_directory)
next
  case False
  then show ?thesis
    using assms(1,2) assms(4,6)
    by (auto simp: create_component_def fs_mkdir_def fsync_directory_def intro!: returns_directory)
qed

text \<open>A file system in which the directories of a digest exist.\<close>

definition prepared :: "artifact_fs \<Rightarrow> string \<Rightarrow> bool" where
  "prepared s d = (is_fs_dir (fs_entries s []) \<and> is_fs_dir (fs_entries s [''sha256'']) \<and> is_fs_dir (fs_entries s (parent_path d)))"

lemma returns_create_parent:
  assumes "calm s" and "\<not> fs_read_only s" and "usable s d"
    and Q: "\<And>t. calm t \<Longrightarrow> fs_temp t = fs_temp s \<Longrightarrow> prepared t d \<Longrightarrow> only_directories s t \<Longrightarrow> Q (parent_path d) t"
  shows "returns (artifact_parent d True) s Q"
proof -
  have ne: "[''sha256''] \<noteq> parent_path d" "parent_path d \<noteq> []" "butlast (parent_path d) = [''sha256'']"
    "length (parent_path d) = 2"
    by (simp_all add: parent_path_def)
  have second: "returns (create_component (parent_path d)) t (\<lambda>_ u. Q (parent_path d) u)"
    if t: "calm t" "fs_temp t = fs_temp s" "is_fs_dir (fs_entries t [])" "is_fs_dir (fs_entries t [''sha256''])"
      "fs_entries t (parent_path d) \<noteq> None \<longrightarrow> is_fs_dir (fs_entries t (parent_path d))" "only_directories s t" for t
    by (rule returns_component)
      (use t ne in \<open>auto simp: prepared_def only_directories_def intro!: Q\<close>)
  have "returns (create_component [''sha256'']) (s\<lparr>fs_tick := Suc (fs_tick s)\<rparr>)
      (\<lambda>_ t. returns (create_component (parent_path d)) t (\<lambda>_ u. Q (parent_path d) u))"
    by (rule returns_component)
      (use assms(1,3) ne in \<open>auto simp: usable_def only_directories_def intro!: second\<close>)
  then show ?thesis using assms(1,2) by (simp add: artifact_parent_def)
qed

lemma returns_write [simp]:
  "calm s \<Longrightarrow> fs_entries s p = Some (FsFile i b l) \<Longrightarrow> returns (write_file p data) s Q
    = Q () (s\<lparr>fs_entries := (fs_entries s)(p \<mapsto> FsFile i data l), fs_tick := Suc (Suc (fs_tick s))\<rparr>)"
  by (simp add: returns_def write_file_def Let_def sthen_def sbind_def syscall_def)

lemma returns_atomic:
  assumes calm: "calm s" and pr: "prepared s d" and d: "d = sha256_bytes sha data"
    and free: "fs_entries s (parent_path d @ [''.artifact-'' @ fs_temp s (fs_tick s)]) = None"
    and absent: "fs_entries s (blob_path d) = None" and hex: "is_lower_sha256 d"
  shows "returns (write_atomic sha (blob_path d) data) s (\<lambda>_ _. True)"
proof -
  define tp where "tp = parent_path d @ [''.artifact-'' @ fs_temp s (fs_tick s)]"
  have b: "butlast (blob_path d) = parent_path d" "butlast tp = parent_path d"
    by (simp_all add: blob_path_def parent_path_def tp_def)
  have ne: "tp \<noteq> blob_path d" "tp \<noteq> []" "tp \<noteq> [''sha256'']" "tp \<noteq> parent_path d"
      "blob_path d \<noteq> []" "blob_path d \<noteq> [''sha256'']" "blob_path d \<noteq> parent_path d"
    using digest_not_temporary [OF hex] by (auto simp: tp_def blob_path_def parent_path_def starts_with_def)
  have s: "sha data = d" using d by (simp add: sha256_bytes_def)
  define s1 where "s1 = s\<lparr>fs_entries := (fs_entries s)(tp \<mapsto> FsFile (fs_next_inode s) [] 1),
    fs_next_inode := Suc (fs_next_inode s), fs_tick := Suc (fs_tick s)\<rparr>"
  have mk: "mkstemp (parent_path d) s = (Inr tp, s1)"
    using calm pr free
    by (simp add: mkstemp_def prepared_def tp_def s1_def sbind_def sthen_def sget_def syscall_def sread_def smodify_def
        sreturn_def)
  have "returns (sthen (write_file tp data) (sthen (read_verified_path sha tp d (int (length data)))
      (rename_noreplace tp (blob_path d)))) s1
      (\<lambda>won t. won \<and> calm t \<and> prepared t d \<and> fs_entries t (blob_path d) = Some (FsFile (fs_next_inode s) data 1))"
    using calm pr ne absent s b
    by (auto simp: s1_def prepared_def rename_noreplace_def intro!: returns_verified)
  then obtain t where t: "sthen (write_file tp data) (sthen (read_verified_path sha tp d (int (length data)))
      (rename_noreplace tp (blob_path d))) s1 = (Inr True, t)"
    and inv: "calm t" "prepared t d" "fs_entries t (blob_path d) = Some (FsFile (fs_next_inode s) data 1)"
    by (auto simp: returns_def)
  have pc: "publish_contender sha tp (blob_path d) data s1 = ((Inr (), False), t)"
    using t d by (simp add: publish_contender_def Let_def)
  have "returns (sthen (unlink_missing_ok tp) (sthen fsync_directory (sthen (slift (Inr ()))
      (sthen (read_verified_path sha (blob_path d) d (int (length data))) (sreturn ()))))) t (\<lambda>_ _. True)"
    using inv ne s b
    by (auto simp: unlink_missing_ok_def fsync_directory_def prepared_def intro!: returns_verified)
  then show ?thesis
    using mk pc d b by (auto simp: returns_def write_atomic_def sbind_def [of "mkstemp _"])
qed

lemma strip_by_id:
  assumes "s \<noteq> []" and "\<not> p (hd s)" and "\<not> p (last s)"
  shows "strip_by p s = s"
proof -
  have "dropWhile p s = s" using assms(1,2) by (cases s) simp_all
  moreover have "dropWhile p (rev s) = rev s" using assms(1,3) by (cases s rule: rev_cases) simp_all
  ultimately show ?thesis by (simp add: strip_by_def)
qed

lemma canonical_path_nonblank: "is_lower_sha256 d \<Longrightarrow> valid_nonempty_str (canonical_relative_path d)"
proof -
  assume d: "is_lower_sha256 d"
  then obtain ds c where e: "d = ds @ [c]" by (cases d rule: rev_cases) (auto simp: is_lower_sha256_def)
  with d have "is_hex_digit c" by (simp add: is_lower_sha256_def)
  then have "\<not> is_white_space c" using hex_digit_not_space white_space_py_space by blast
  then have "strip_whitespace (canonical_relative_path d) = canonical_relative_path d"
    by (intro strip_by_id) (simp_all add: canonical_relative_path_def e is_white_space_def Let_def)
  then show ?thesis by (simp add: valid_nonempty_str_def canonical_relative_path_def)
qed

lemma put_completes:
  assumes "calm s" and "\<not> fs_read_only s" and "usable s (sha data)"
    and "fs_entries s (blob_path (sha data)) = None"
    and "\<And>n. fs_entries s (parent_path (sha data) @ [''.artifact-'' @ fs_temp s n]) = None"
    and "is_lower_sha256 (sha data)" and "strip_whitespace mt \<noteq> []"
  shows "\<exists>ref t. put_bytes sha data mt s = (Inr ref, t) \<and> blob sha t = (blob sha s)(sha data \<mapsto> data)"
proof -
  let ?d = "sha data"
  let ?ref = "\<lparr>ar_media_type = strip_whitespace mt, ar_size_bytes = int (length data), ar_sha256 = ?d,
    ar_storage_ref = canonical_relative_path ?d\<rparr>"
  have "valid_artifact_ref ?ref"
    using assms(6,7) canonical_path_nonblank by (simp add: valid_artifact_ref_def valid_nonempty_str_def)
  moreover have "returns (artifact_parent ?d True) s (\<lambda>p t. p = parent_path ?d \<and> returns (write_atomic sha (blob_path ?d) data) t (\<lambda>_ _. True))"
  proof (rule returns_create_parent [OF assms(1-3)])
    fix t assume t: "calm t" "fs_temp t = fs_temp s" "prepared t ?d" "only_directories s t"
    have "returns (write_atomic sha (blob_path ?d) data) t (\<lambda>_ _. True)"
    proof (rule returns_atomic [OF t(1,3)])
      show "fs_entries t (parent_path ?d @ [''.artifact-'' @ fs_temp t (fs_tick t)]) = None"
        using t(2,4) assms(5) by (simp only: only_directories_def) (simp add: parent_path_def)
      show "fs_entries t (blob_path ?d) = None" using t(4) assms(4) by (simp add: only_directories_def blob_path_def)
    qed (simp_all add: sha256_bytes_def assms(6))
    then show "parent_path ?d = parent_path ?d \<and> returns (write_atomic sha (blob_path ?d) data) t (\<lambda>_ _. True)" by simp
  qed
  then have "returns (artifact_parent ?d True) s (\<lambda>p t. returns (write_atomic sha (p @ [?d]) data) t (\<lambda>_ _. True))"
    by (rule returns_mono) (auto simp: parent_path_def blob_path_def)
  ultimately have "returns (put_bytes sha data mt) s (\<lambda>_ _. True)"
    using assms(2) by (simp add: put_bytes_def sha256_bytes_def Let_def)
  then obtain ref t where r: "put_bytes sha data mt s = (Inr ref, t)" by (auto simp: returns_def)
  have "blob sha s ?d = None" using assms(4) by (simp add: blob_def)
  with put_refines [OF r] have "blob sha t = (blob sha s)(?d \<mapsto> data)" by (auto simp: abstract_put_def)
  with r show ?thesis by blast
qed

section \<open>The contract\<close>

text \<open>What a content-addressed map promises to its clients, whatever implements it.\<close>

locale content_map =
  fixes view :: "'s \<Rightarrow> string \<Rightarrow> nat list option" and digest :: "nat list \<Rightarrow> string"
    and put :: "nat list \<Rightarrow> string \<Rightarrow> ('s, artifact_ref) op" and get :: "artifact_ref \<Rightarrow> ('s, nat list) op"
  assumes put_law: "put data mt s = (r, t) \<Longrightarrow> abstract_put digest data (view s) r (view t)"
    and get_law: "valid_artifact_ref ref \<Longrightarrow> get ref s = (q, t) \<Longrightarrow> abstract_get ref (view s) q (view t)"
begin

fun call :: "nat list \<times> string + artifact_ref \<Rightarrow> 's \<Rightarrow> (artifact_ref result + nat list result) \<times> 's" where
  "call (Inl (data, mt)) s = (case put data mt s of (r, t) \<Rightarrow> (Inl r, t))"
| "call (Inr ref) s = (case get ref s of (r, t) \<Rightarrow> (Inr r, t))"

fun calls :: "(nat list \<times> string + artifact_ref) list \<Rightarrow> 's \<Rightarrow> (artifact_ref result + nat list result) list \<times> 's" where
  "calls [] s = ([], s)"
| "calls (c # cs) s = (case call c s of (r, t) \<Rightarrow> case calls cs t of (rs, u) \<Rightarrow> (r # rs, u))"

lemma call_keeps:
  assumes "call c s = (r, t)" and "\<And>ref. c = Inr ref \<Longrightarrow> valid_artifact_ref ref" and "view s d = Some b"
  shows "view t d = Some b"
proof (cases c)
  case (Inl dm)
  then obtain data mt q where "put data mt s = (q, t)"
    using assms(1) by (cases dm) (auto split: prod.splits)
  from put_law [OF this] show ?thesis using assms(3) by (auto simp: abstract_put_def)
next
  case (Inr ref)
  then obtain q where "get ref s = (q, t)" using assms(1) by (auto split: prod.splits)
  from get_law [OF assms(2) [OF Inr] this] show ?thesis using assms(3) by (simp add: abstract_get_def)
qed

lemma calls_keep:
  "calls cs s = (rs, t) \<Longrightarrow> (\<And>ref. Inr ref \<in> set cs \<Longrightarrow> valid_artifact_ref ref) \<Longrightarrow> view s d = Some b \<Longrightarrow> view t d = Some b"
proof (induction cs arbitrary: s rs)
  case (Cons c cs)
  obtain r u rs' where c: "call c s = (r, u)" and cs: "calls cs u = (rs', t)"
    using Cons(2) by (auto split: prod.splits)
  have "view u d = Some b" using call_keeps [OF c _ Cons(4)] Cons(3) by simp
  then show ?case using Cons(1) [OF cs] Cons(3) by simp
qed simp

text \<open>A published artifact is read back for ever: after any further calls, a read of the reference that
  \<open>put\<close> returned gives what the digest was bound to.\<close>

lemma published_survives:
  assumes "put data mt s = (Inr ref, t)" and "calls cs t = (rs, u)"
    and "\<And>r. Inr r \<in> set cs \<Longrightarrow> valid_artifact_ref r" and "valid_artifact_ref ref" and "get ref u = (Inr b, v)"
  shows "digest b = digest data \<and> length b = length data \<and> (view s (digest data) = None \<longrightarrow> b = data)"
proof -
  obtain b' where b': "view t (digest data) = Some b'" "digest b' = digest data" "length b' = length data"
      "ar_sha256 ref = digest data" "view s (digest data) = None \<longrightarrow> b' = data"
    using put_law [OF assms(1)] by (auto simp: abstract_put_def)
  then have "view u (digest data) = Some b'" using calls_keep [OF assms(2,3)] by blast
  with get_law [OF assms(4,5)] b' show ?thesis by (simp add: abstract_get_def)
qed

end

interpretation file_store: content_map "blob sha" sha "put_bytes sha" "get_bytes sha" for sha
  by unfold_locales (auto intro: put_refines get_refines)

section \<open>A concrete store\<close>

definition store_sha :: "nat list \<Rightarrow> string" where
  "store_sha bytes = replicate 64 (CHR ''0'')"

definition empty_store :: artifact_fs where
  "empty_store =
     \<lparr>fs_entries = [[] \<mapsto> FsDir 0], fs_next_inode = 1, fs_tick = 0, fs_fault = (\<lambda>_. False), fs_partial = (\<lambda>_. 0),
      fs_temp = (\<lambda>_. ''x''), fs_read_only = False\<rparr>"

lemma empty_store_ready:
  "calm empty_store" "\<not> fs_read_only empty_store" "usable empty_store (store_sha data)"
  "fs_entries empty_store (blob_path (store_sha data)) = None"
  "\<And>n. fs_entries empty_store (parent_path (store_sha data) @ [''.artifact-'' @ fs_temp empty_store n]) = None"
  "is_lower_sha256 (store_sha data)" "strip_whitespace ''text/plain'' \<noteq> []"
proof -
  show "is_lower_sha256 (store_sha data)" unfolding store_sha_def by code_simp
  show "strip_whitespace ''text/plain'' \<noteq> []" by code_simp
qed (simp_all add: empty_store_def usable_def parent_path_def blob_path_def)

definition published_ref :: artifact_ref where
  "published_ref = \<lparr>ar_media_type = ''text/plain'', ar_size_bytes = 2, ar_sha256 = store_sha [],
     ar_storage_ref = ''sha256/00/'' @ store_sha []\<rparr>"

definition published_store :: artifact_fs where
  "published_store = snd (put_bytes store_sha [1, 2] ''text/plain'' empty_store)"

lemma demo_put: "put_bytes store_sha [1, 2] ''text/plain'' empty_store = (Inr published_ref, published_store)"
proof -
  have "fst (put_bytes store_sha [1, 2] ''text/plain'' empty_store) = Inr published_ref" by code_simp
  then show ?thesis by (simp add: published_store_def prod_eq_iff)
qed

lemma published_ref_valid: "valid_artifact_ref published_ref"
  by code_simp

lemma demo_get: "\<exists>v. get_bytes store_sha published_ref published_store = (Inr [1, 2], v)"
proof -
  have "fst (get_bytes store_sha published_ref published_store) = Inr [1, 2]"
    unfolding published_store_def by code_simp
  then show ?thesis by (metis prod.collapse)
qed

section \<open>Properties\<close>

text \<open>C32: the file store refines a content-addressed map. Whatever system call fails, publishing leaves the
  map from digests to blobs as it was or binds an absent digest to the data, never replaces or removes a
  blob, and returns only when the digest is bound; reading changes nothing and returns only what the
  digest of the reference is bound to.\<close>

theorem store_refines_content_map:
  assumes "put_bytes sha data media_type s = (r, t)" and "get_bytes sha reference s = (q, u)"
    and "valid_artifact_ref reference"
  shows "abstract_put sha data (blob sha s) r (blob sha t) \<and> abstract_get reference (blob sha s) q (blob sha u)"
  using assms file_store.put_law file_store.get_law by blast

theorem store_refines_content_map_witness:
  "\<exists>b. blob store_sha published_store (store_sha [1, 2]) = Some b \<and> length b = 2"
proof -
  obtain q u where g: "get_bytes store_sha published_ref empty_store = (q, u)" by fastforce
  from store_refines_content_map [OF demo_put g published_ref_valid] show ?thesis by (auto simp: abstract_put_def)
qed

text \<open>C33: a published artifact is read back for ever. After publishing returned a reference, and after any
  sequence of further publications and reads whatever they raise, a read of the reference that returns
  gives bytes of the same digest and length, the published bytes themselves when the digest was new.\<close>

theorem published_artifacts_survive:
  assumes "put_bytes sha data media_type s = (Inr ref, t)"
    and "content_map.calls (put_bytes sha) (get_bytes sha) cs t = (rs, u)"
    and "\<And>r. Inr r \<in> set cs \<Longrightarrow> valid_artifact_ref r" and "valid_artifact_ref ref" and "get_bytes sha ref u = (Inr b, v)"
  shows "sha b = sha data \<and> length b = length data \<and> (blob sha s (sha data) = None \<longrightarrow> b = data)"
  using assms by (rule file_store.published_survives)

theorem published_artifacts_survive_witness:
  "\<exists>b v. get_bytes store_sha published_ref published_store = (Inr b, v) \<and> b = [1, 2]"
proof -
  obtain b v where g: "get_bytes store_sha published_ref published_store = (Inr b, v)" using demo_get by blast
  have "content_map.calls (put_bytes store_sha) (get_bytes store_sha) [] published_store = ([], published_store)"
    by (simp add: file_store.calls.simps)
  from published_artifacts_survive [OF demo_put this _ published_ref_valid g] empty_store_ready(4) [of "[1, 2]"]
  have "b = [1, 2]" by (simp add: blob_def)
  with g show ?thesis by blast
qed

text \<open>C34: publishing completes. When no system call fails, the store is writable, its directories are
  absent or real, the temporary name is unused and the digest is new, \<open>put_bytes\<close> returns and the
  blob is bound to the data.\<close>

theorem publication_completes:
  assumes "calm s" and "\<not> fs_read_only s" and "usable s (sha data)"
    and "fs_entries s (blob_path (sha data)) = None"
    and "\<And>n. fs_entries s (parent_path (sha data) @ [''.artifact-'' @ fs_temp s n]) = None"
    and "is_lower_sha256 (sha data)" and "strip_whitespace media_type \<noteq> []"
  shows "\<exists>ref t. put_bytes sha data media_type s = (Inr ref, t) \<and> blob sha t = (blob sha s)(sha data \<mapsto> data)"
  using assms by (rule put_completes)

theorem publication_completes_witness:
  "\<exists>ref t. put_bytes store_sha [1, 2] ''text/plain'' empty_store = (Inr ref, t)
     \<and> blob store_sha t = (blob store_sha empty_store)(store_sha [1, 2] \<mapsto> [1, 2])"
  by (rule publication_completes) (rule empty_store_ready)+

end
