(* ===== verification/Campaign_Files.thy ===== *)
theory Campaign_Files
  imports Artifact_Audit Frames
begin

text \<open>
  Model of the file operations of \<open>src/src/guildmind/runtime/campaign.py\<close>: the bounded read of a regular
  file, the identity of a source tree, and the publication of an evidence file.

  What the kernel answers is data: a \<open>file_view\<close> holds the answers to the calls that read one path,
  a \<open>source_tree\<close> those of a walk, and a \<open>publish_world\<close> those of a publication, tick by tick. The
  theorems quantify over all of them, so files that change while they are read, short reads and
  writes, and failing calls are covered. Both loops end: the read loop after one call more than its
  byte limit at most, the write loop under the contract of \<open>os.write\<close>.
\<close>

section \<open>Reading one regular file\<close>

text \<open>The fields of \<open>os.stat_result\<close> that make up the identity of a file; \<open>st_mode\<close> is its type and its
  permission bits.\<close>

record file_identity =
  fi_device :: int
  fi_inode :: int
  fi_type :: file_type
  fi_permissions :: int
  fi_links :: int
  fi_size :: int
  fi_mtime_ns :: int
  fi_ctime_ns :: int

text \<open>The answers of the kernel; \<open>None\<close> is an \<open>OSError\<close>. \<open>fv_read k n\<close> answers the call number \<open>k\<close> of \<open>os.read\<close>,
  for \<open>n\<close> bytes.\<close>

record file_view =
  fv_opens :: bool
  fv_before :: "file_identity option"
  fv_read :: "nat \<Rightarrow> int \<Rightarrow> nat list option"
  fv_after :: "file_identity option"
  fv_path_after :: "file_identity option"
  fv_mode :: "file_identity option"

definition MANIFEST_MAX_BYTES :: int where "MANIFEST_MAX_BYTES = 1048576"
definition REPORT_MAX_BYTES :: int where "REPORT_MAX_BYTES = 16777216"
definition TREE_MAX_FILES :: int where "TREE_MAX_FILES = 20000"
definition TREE_MAX_BYTES :: int where "TREE_MAX_BYTES = 268435456"

text \<open>The \<open>while\<close> loop over \<open>os.read\<close>: its result, and the number of calls it has made.\<close>

function read_chunks ::
    "(nat \<Rightarrow> int \<Rightarrow> nat list option) \<Rightarrow> int \<Rightarrow> nat \<Rightarrow> nat list list \<Rightarrow> int \<Rightarrow> nat list list result \<times> nat" where
  "read_chunks answers max_bytes k chunks observed =
     (case answers k (min 1048576 (max_bytes + 1 - observed)) of
        None \<Rightarrow> (Inl CampaignConfigurationError, Suc k)
      | Some [] \<Rightarrow> (Inr chunks, Suc k)
      | Some (b # bs) \<Rightarrow>
          let chunk = b # bs; seen = observed + int (length chunk) in
          if max_bytes < seen then (Inl CampaignConfigurationError, Suc k)
          else read_chunks answers max_bytes (Suc k) (chunks @ [chunk]) seen)"
  by pat_completeness auto
termination
  by (relation "measure (\<lambda>(answers, max_bytes, k, chunks, observed). nat (max_bytes + 1 - observed))") auto

declare read_chunks.simps [simp del]

definition read_regular_file :: "file_view \<Rightarrow> int \<Rightarrow> nat list result" where
  "read_regular_file v max_bytes =
     rbind (require (fv_opens v) CampaignConfigurationError) (\<lambda>_.
     rbind (of_option CampaignConfigurationError (fv_before v)) (\<lambda>before.
     rbind (require (fi_type before = FRegular \<and> fi_links before = 1 \<and> fi_size before \<le> max_bytes)
       CampaignConfigurationError) (\<lambda>_.
     rbind (fst (read_chunks (fv_read v) max_bytes 0 [] 0)) (\<lambda>chunks.
     rbind (of_option CampaignConfigurationError (fv_after v)) (\<lambda>after.
     rbind (of_option CampaignConfigurationError (fv_path_after v)) (\<lambda>path_after.
     rbind (require (before = after \<and> before = path_after) CampaignConfigurationError) (\<lambda>_.
     Inr (concat chunks))))))))"

section \<open>The identity of a tree\<close>

definition identity_file :: "file_view \<Rightarrow> (nat list \<times> int) result" where
  "identity_file v =
     rbind (read_regular_file v TREE_MAX_BYTES) (\<lambda>data.
     rbind (of_option OSError (fv_mode v)) (\<lambda>metadata. Inr (data, fi_permissions metadata)))"

record tree_entry =
  ten_mode :: int
  ten_path :: string
  ten_sha256 :: string
  ten_size_bytes :: int

definition tree_entry_json :: "tree_entry \<Rightarrow> json" where
  "tree_entry_json e =
     JObj [(''mode'', JInt (ten_mode e)), (''path'', JStr (ten_path e)), (''sha256'', JStr (ten_sha256 e)),
       (''size_bytes'', JInt (ten_size_bytes e))]"

definition file_entry :: "(nat list \<Rightarrow> string) \<Rightarrow> string \<Rightarrow> nat list \<Rightarrow> int \<Rightarrow> tree_entry" where
  "file_entry sha relative_path data mode =
     \<lparr>ten_mode = mode, ten_path = relative_path, ten_sha256 = sha256_bytes sha data,
      ten_size_bytes = int (length data)\<rparr>"

text \<open>What a walk finds under one name. A directory carries the answers of the \<open>lstat\<close> of its parent's
  listing, of the \<open>lstat\<close> on entering it, whether it can be listed, its entries, and the answer of
  the last \<open>lstat\<close>; \<open>None\<close> is an \<open>OSError\<close>. \<open>os.walk\<close> lists a link to a directory among the directories.\<close>

record dir_identity =
  di_type :: file_type
  di_device :: int
  di_inode :: int
  di_mtime_ns :: int
  di_ctime_ns :: int

datatype source_tree =
    TreeFile file_view
  | TreeDirectory (tree_child_lstat: "file_type option") (tree_entered: "dir_identity option") (tree_listed: bool)
      (tree_last: "dir_identity option") (tree_children: "(string \<times> source_tree) list")

fun is_tree_directory :: "source_tree \<Rightarrow> bool" where
  "is_tree_directory (TreeFile v) = False"
| "is_tree_directory (TreeDirectory c e l z cs) = True"

text \<open>The steps of a walk in order: an exception, a directory to remember, a file to read.\<close>

datatype walk_step =
    WalkRaises exn
  | WalkEnters dir_identity "dir_identity option"
  | WalkReads "string list" file_view

definition is_generated :: "string \<Rightarrow> bool" where
  "is_generated name = (drop (length name - 4) name \<in> {''.pyc'', ''.pyo''})"

definition child_steps :: "(string \<times> source_tree) list \<Rightarrow> walk_step list" where
  "child_steps dirs =
     concat (map (\<lambda>(name, t).
       if tree_child_lstat t = None then [WalkRaises OSError]
       else if tree_child_lstat t \<noteq> Some FDirectory then [WalkRaises CampaignConfigurationError] else []) dirs)"

definition retained :: "bool \<Rightarrow> string \<Rightarrow> bool" where
  "retained ignore_generated name = (\<not> (ignore_generated \<and> name = ''__pycache__''))"

definition file_steps :: "bool \<Rightarrow> string list \<Rightarrow> (string \<times> source_tree) list \<Rightarrow> walk_step list" where
  "file_steps ignore_generated parts files =
     concat (map (\<lambda>(name, t).
       case t of TreeFile v \<Rightarrow>
           if ignore_generated \<and> is_generated name then [] else [WalkReads (parts @ [name]) v]
       | TreeDirectory c e l z cs \<Rightarrow> []) files)"

fun walk_steps :: "bool \<Rightarrow> string list \<Rightarrow> source_tree \<Rightarrow> walk_step list" where
  "walk_steps ignore_generated parts (TreeFile v) = []"
| "walk_steps ignore_generated parts (TreeDirectory child entered listed lst children) =
     (let below = map (\<lambda>(name, t). (name, t, walk_steps ignore_generated (parts @ [name]) t)) children;
          ordered = sort_key fst children;
          dirs = filter (\<lambda>(name, t). is_tree_directory t) ordered;
          files = filter (\<lambda>(name, t). \<not> is_tree_directory t) ordered in
      if \<not> listed then [WalkRaises CampaignConfigurationError]
      else
        (case entered of
           None \<Rightarrow> [WalkRaises OSError]
         | Some d \<Rightarrow>
             if di_type d \<noteq> FDirectory then [WalkRaises CampaignConfigurationError]
             else WalkEnters d lst # child_steps dirs
               @ file_steps ignore_generated parts files
               @ concat (map (\<lambda>(name, t, steps).
                   if is_tree_directory t \<and> retained ignore_generated name then steps else [])
                   (sort_key fst below))))"

record walk_state =
  ws_entries :: "tree_entry list"
  ws_directories :: "(dir_identity \<times> dir_identity option) list"
  ws_total_bytes :: int

definition walk_step_result :: "(nat list \<Rightarrow> string) \<Rightarrow> walk_step \<Rightarrow> walk_state \<Rightarrow> walk_state result" where
  "walk_step_result sha step st =
     (case step of
        WalkRaises e \<Rightarrow> Inl e
      | WalkEnters d z \<Rightarrow> Inr (st\<lparr>ws_directories := ws_directories st @ [(d, z)]\<rparr>)
      | WalkReads parts v \<Rightarrow>
          rbind (identity_file v) (\<lambda>(data, mode).
          let total_bytes = ws_total_bytes st + int (length data) in
          if TREE_MAX_FILES \<le> int (length (ws_entries st)) \<or> TREE_MAX_BYTES < total_bytes
          then Inl CampaignConfigurationError
          else Inr (st\<lparr>ws_total_bytes := total_bytes,
                 ws_entries := ws_entries st @ [file_entry sha (join_on slash parts) data mode]\<rparr>)))"

definition directory_unchanged :: "dir_identity \<times> dir_identity option \<Rightarrow> unit result" where
  "directory_unchanged p =
     rbind (of_option OSError (snd p)) (\<lambda>observed.
     require (di_type observed = FDirectory \<and> observed = fst p) CampaignConfigurationError)"

text \<open>\<open>pre\<close> is the position of the root below \<open>relative_to\<close>; the root itself is a directory that
  \<open>canonical_real_directory\<close> has accepted.\<close>

definition tree_entries ::
    "(nat list \<Rightarrow> string) \<Rightarrow> bool \<Rightarrow> string list \<Rightarrow> source_tree \<Rightarrow> tree_entry list result" where
  "tree_entries sha ignore_generated pre t =
     rbind (rfold (walk_step_result sha) (walk_steps ignore_generated pre t)
       \<lparr>ws_entries = [], ws_directories = [], ws_total_bytes = 0\<rparr>) (\<lambda>st.
     rbind (rfold (\<lambda>d _. directory_unchanged d) (ws_directories st) ()) (\<lambda>_.
     Inr (sort_key ten_path (ws_entries st))))"

definition campaign_fixture_tree_sha256 :: "(nat list \<Rightarrow> string) \<Rightarrow> source_tree \<Rightarrow> string result" where
  "campaign_fixture_tree_sha256 sha t =
     rbind (tree_entries sha False [] t) (\<lambda>entries.
     Inr (json_sha256 sha (JObj [(''files'', JArr (map tree_entry_json entries)),
       (''schema_version'', JStr ''guildmind.campaign-fixture-tree/v1'')])))"

definition locked_input :: "(nat list \<Rightarrow> string) \<Rightarrow> string \<times> file_view \<Rightarrow> tree_entry list \<Rightarrow> tree_entry list result" where
  "locked_input sha p entries =
     rbind (identity_file (snd p)) (\<lambda>(data, mode). Inr (entries @ [file_entry sha (fst p) data mode]))"

definition campaign_code_source_sha256 ::
    "(nat list \<Rightarrow> string) \<Rightarrow> source_tree \<Rightarrow> file_view \<Rightarrow> file_view \<Rightarrow> string result" where
  "campaign_code_source_sha256 sha package_root pyproject uv_lock =
     rbind (tree_entries sha True [''src'', ''guildmind''] package_root) (\<lambda>entries.
     rbind (rfold (locked_input sha) [(''pyproject.toml'', pyproject), (''uv.lock'', uv_lock)] entries) (\<lambda>all_entries.
     Inr (json_sha256 sha (JObj [(''files'', JArr (map tree_entry_json (sort_key ten_path all_entries))),
       (''schema_version'', JStr ''guildmind.campaign-code-source/v1'')]))))"

section \<open>Paths\<close>

text \<open>\<open>resolve(strict=True)\<close> gives the resolved text or raises; \<open>lexical\<close> is the absolute path.\<close>

definition canonical_existing_path :: "string option \<Rightarrow> string \<Rightarrow> string result" where
  "canonical_existing_path resolved lexical =
     rbind (of_option CampaignConfigurationError resolved) (\<lambda>p.
     rbind (require (p = lexical) CampaignConfigurationError) (\<lambda>_. Inr p))"

definition canonical_real_directory :: "string option \<Rightarrow> file_type option \<Rightarrow> string \<Rightarrow> string result" where
  "canonical_real_directory resolved ty lexical =
     rbind (canonical_existing_path resolved lexical) (\<lambda>p.
     rbind (of_option CampaignConfigurationError ty) (\<lambda>t.
     rbind (require (t = FDirectory) CampaignConfigurationError) (\<lambda>_. Inr p)))"

section \<open>Publishing an evidence file\<close>

text \<open>
  The directory of the output as far as a publication touches it: the file at the output path, the
  temporary file, and the answers of the kernel at each tick. \<open>pb_fault n\<close> makes the call at tick \<open>n\<close> raise
  \<open>OSError\<close>, \<open>pb_taken n l\<close> is what \<open>os.write\<close> of \<open>l\<close> bytes returns there, and \<open>pb_arrival n\<close> is a file that
  another process creates at a free output path before that call.
\<close>

record publish_world =
  pb_tick :: nat
  pb_fault :: "nat \<Rightarrow> bool"
  pb_taken :: "nat \<Rightarrow> nat \<Rightarrow> nat"
  pb_arrival :: "nat \<Rightarrow> nat list option"
  pb_temporary :: "nat list option"
  pb_output :: "nat list option"
  pb_readback :: file_view

definition pass_time :: "publish_world \<Rightarrow> publish_world" where
  "pass_time w =
     w\<lparr>pb_tick := Suc (pb_tick w),
       pb_output := (case pb_output w of None \<Rightarrow> pb_arrival w (pb_tick w) | Some f \<Rightarrow> Some f)\<rparr>"

definition kernel_call :: "(publish_world, unit) op" where
  "kernel_call w = ((if pb_fault w (pb_tick w) then Inl OSError else Inr ()), pass_time w)"

text \<open>The loop over \<open>os.write\<close>; \<open>None\<close> is a loop that never ends.\<close>

partial_function (option) write_loop ::
    "nat list \<Rightarrow> nat \<Rightarrow> publish_world \<Rightarrow> (unit result \<times> publish_world) option" where
  "write_loop payload offset w =
     (if offset < length payload then
        (let taken = pb_taken w (pb_tick w) (length payload - offset) in
         case kernel_call w of
           (Inl e, u) \<Rightarrow> Some (Inl e, u)
         | (Inr _, u) \<Rightarrow>
             write_loop payload (offset + taken)
               (u\<lparr>pb_temporary := map_option (\<lambda>f. f @ take taken (drop offset payload)) (pb_temporary u)\<rparr>))
      else Some (Inr (), w))"

definition create_temporary :: "(publish_world, unit) op" where
  "create_temporary =
     sthen kernel_call
     (sthen (sread (\<lambda>w. require (pb_temporary w = None) OSError))
      (smodify (\<lambda>w. w\<lparr>pb_temporary := Some []\<rparr>)))"

text \<open>After the loop: \<open>fsync\<close>, \<open>fstat\<close> and its check. The temporary file is regular with one link.\<close>

definition check_temporary :: "nat list \<Rightarrow> (publish_world, unit) op" where
  "check_temporary payload =
     sthen kernel_call
     (sthen kernel_call
      (sread (\<lambda>w. require (map_option length (pb_temporary w) = Some (length payload)) CampaignEvidenceError)))"

text \<open>\<open>rename_noreplace_at\<close>: \<open>FileExistsError\<close> when the output exists, which becomes \<open>CampaignEvidenceError\<close>.\<close>

definition rename_temporary :: "(publish_world, unit) op" where
  "rename_temporary =
     sthen kernel_call
     (sthen (sread (\<lambda>w. require (pb_output w = None) CampaignEvidenceError))
      (smodify (\<lambda>w. w\<lparr>pb_output := pb_temporary w, pb_temporary := None\<rparr>)))"

text \<open>The \<open>finally\<close> clause unlinks a temporary file that is still there and swallows its own failures.\<close>

definition remove_temporary :: "publish_world \<Rightarrow> publish_world" where
  "remove_temporary w =
     (case kernel_call w of
        (Inl e, u) \<Rightarrow> u
      | (Inr _, u) \<Rightarrow> pass_time (u\<lparr>pb_temporary := None\<rparr>))"

text \<open>The body of the outer \<open>try\<close>, with the flag \<open>temporary_created\<close> on every way out.\<close>

definition publish_temporary :: "nat list \<Rightarrow> publish_world \<Rightarrow> (unit result \<times> bool \<times> publish_world) option" where
  "publish_temporary payload w =
     (case create_temporary w of
        (Inl e, u) \<Rightarrow> Some (Inl e, False, u)
      | (Inr _, u) \<Rightarrow>
          (case write_loop payload 0 u of
             None \<Rightarrow> None
           | Some (Inl e, v) \<Rightarrow> Some (Inl e, True, v)
           | Some (Inr _, v) \<Rightarrow>
               (case sthen (check_temporary payload) rename_temporary v of
                  (Inl e, x) \<Rightarrow> Some (Inl e, True, x)
                | (Inr _, x) \<Rightarrow> (case kernel_call x of (r, y) \<Rightarrow> Some (r, False, y)))))"

text \<open>\<open>except CampaignEvidenceError: raise\<close>, \<open>except OSError: raise CampaignEvidenceError\<close>.\<close>

definition publication_error :: "exn \<Rightarrow> exn" where
  "publication_error e = (if e = OSError then CampaignEvidenceError else e)"

text \<open>\<open>available\<close> is the result of the checks on the directory of the output; \<open>os.path.lexists\<close> never raises.\<close>

definition ensure_campaign_output_available :: "bool \<Rightarrow> string result \<Rightarrow> (publish_world, unit) op" where
  "ensure_campaign_output_available is_root parent =
     sthen (sguard (\<not> is_root) CampaignEvidenceError)
     (sthen (slift parent)
     (sthen (smodify pass_time)
      (sread (\<lambda>w. require (pb_output w = None) CampaignEvidenceError))))"

definition read_back :: "nat list \<Rightarrow> nat list \<Rightarrow> publish_world \<Rightarrow> unit result" where
  "read_back data payload w =
     rbind (read_regular_file (pb_readback w) (max REPORT_MAX_BYTES (int (length data) + 1))) (\<lambda>observed.
     require (observed = payload) CampaignEvidenceError)"

definition write_campaign_evidence_file ::
    "bool \<Rightarrow> string result \<Rightarrow> nat list \<Rightarrow> publish_world \<Rightarrow> (unit result \<times> publish_world) option" where
  "write_campaign_evidence_file is_root parent data w =
     (let payload = data @ [10] in
      case sthen (ensure_campaign_output_available is_root parent) kernel_call w of
        (Inl e, u) \<Rightarrow> Some (Inl e, u)
      | (Inr _, u) \<Rightarrow>
          (case publish_temporary payload u of
             None \<Rightarrow> None
           | Some (r, temporary_created, v) \<Rightarrow>
               (let x = (if temporary_created then remove_temporary v else v) in
                case map_error publication_error r of
                  Inl e \<Rightarrow> Some (Inl e, x)
                | Inr _ \<Rightarrow> Some (read_back data payload x, x))))"

end
