(* ===== verification/Campaign_File_Properties.thy ===== *)
theory Campaign_File_Properties
  imports Campaign_Files
begin

text \<open>
  Properties of the campaign's file operations: both loops end, a read is bounded and of one unchanged
  file, and a publication is all or nothing and never replaces a file.
\<close>

section \<open>Bounded reads\<close>

lemma read_chunks_calls: "snd (read_chunks answers mx k cs ob) \<le> k + nat (mx - ob) + 1"
proof (induction answers mx k cs ob rule: read_chunks.induct)
  case (1 answers mx k cs ob)
  show ?case
    unfolding read_chunks.simps [of answers mx k cs ob]
    using "1.IH" by (fastforce simp: Let_def split: option.splits list.splits)
qed

lemma read_chunks_length:
  "fst (read_chunks answers mx k cs ob) = Inr ds \<Longrightarrow> ob = int (length (concat cs)) \<Longrightarrow> ob \<le> max 0 mx
    \<Longrightarrow> int (length (concat ds)) \<le> max 0 mx"
proof (induction answers mx k cs ob rule: read_chunks.induct)
  case (1 answers mx k cs ob)
  show ?case
    using "1.prems" "1.IH" unfolding read_chunks.simps [of answers mx k cs ob]
    by (auto simp: Let_def algebra_simps split: option.splits list.splits if_splits)
qed

lemma read_chunks_error: "fst (read_chunks answers mx k cs ob) = Inl e \<Longrightarrow> e = CampaignConfigurationError"
proof (induction answers mx k cs ob rule: read_chunks.induct)
  case (1 answers mx k cs ob)
  then show ?case
    unfolding read_chunks.simps [of answers mx k cs ob]
    by (auto simp: Let_def split: option.splits list.splits if_splits)
qed

lemma read_regular_file_error: "read_regular_file v mx = Inl e \<Longrightarrow> e = CampaignConfigurationError"
  by (auto simp: read_regular_file_def rbind_def require_def of_option_def dest: read_chunks_error
      split: sum.splits option.splits if_splits)

lemma read_regular_file_Inr:
  assumes "read_regular_file v mx = Inr data"
  shows "int (length data) \<le> max 0 mx" and "fv_before v = fv_after v \<and> fv_before v = fv_path_after v"
  using assms read_chunks_length [where cs = "[]" and ob = 0]
  by (auto simp: read_regular_file_def result_simps)

text \<open>C39: Whatever the kernel answers, the read loop of a campaign file ends after at most \<open>max_bytes + 1\<close> calls
  of \<open>os.read\<close>; a file that is read has at most \<open>max_bytes\<close> bytes and the same identity before and after
  the read and at its path, and every other ending is a \<open>CampaignConfigurationError\<close>.\<close>

theorem bounded_read_terminates:
  "snd (read_chunks (fv_read v) max_bytes 0 [] 0) \<le> nat max_bytes + 1
   \<and> (case read_regular_file v max_bytes of
        Inl e \<Rightarrow> e = CampaignConfigurationError
      | Inr data \<Rightarrow> int (length data) \<le> max 0 max_bytes
          \<and> fv_before v = fv_after v \<and> fv_before v = fv_path_after v)"
  using read_chunks_calls [of "fv_read v" max_bytes 0 "[]" 0] read_regular_file_Inr [of v max_bytes]
    read_regular_file_error [of v max_bytes]
  by (auto split: sum.splits)

section \<open>Publication\<close>

text \<open>What everything but the rename may do to the output: another process may create it.\<close>

definition foreign_only :: "publish_world \<Rightarrow> publish_world \<Rightarrow> bool" where
  "foreign_only w u =
     (pb_taken u = pb_taken w \<and> pb_arrival u = pb_arrival w
      \<and> (pb_output u = pb_output w \<or> pb_output w = None \<and> pb_output u \<in> range (pb_arrival w)))"

interpretation publishing: state_preorder foreign_only
  by unfold_locales (auto simp: foreign_only_def)

lemma foreign_pass_time [simp]: "foreign_only w (pass_time w)"
  by (auto simp: foreign_only_def pass_time_def split: option.splits)

lemma pass_time_temporary [simp]: "pb_temporary (pass_time w) = pb_temporary w"
  by (simp add: pass_time_def)

lemma kernel_call_keeps [intro, simp]: "publishing.keeps kernel_call"
  by (simp add: publishing.keeps_def kernel_call_def)

lemma kernel_call_temporary: "kernel_call w = (r, u) \<Longrightarrow> pb_temporary u = pb_temporary w"
  by (auto simp: kernel_call_def)

lemma foreign_temporary [simp]: "foreign_only w (u\<lparr>pb_temporary := f\<rparr>) = foreign_only w u"
  by (simp add: foreign_only_def)

lemma smodify_keeps [intro]: "(\<And>w. foreign_only w (f w)) \<Longrightarrow> publishing.keeps (smodify f)"
  by (simp add: publishing.keeps_def smodify_def)

lemma create_keeps [intro, simp]: "publishing.keeps create_temporary"
  unfolding create_temporary_def
  by (intro publishing.keeps_then smodify_keeps) (auto simp: publishing.Q_refl)

lemma check_keeps [intro, simp]: "publishing.keeps (check_temporary payload)"
  unfolding check_temporary_def by auto

lemma ensure_keeps [intro, simp]: "publishing.keeps (ensure_campaign_output_available b p)"
  unfolding ensure_campaign_output_available_def
  by (intro publishing.keeps_then smodify_keeps) auto

lemma remove_keeps: "foreign_only w (remove_temporary w)"
proof -
  obtain r u where k: "kernel_call w = (r, u)" by force
  have "foreign_only w u" by (rule publishing.keepsD [OF kernel_call_keeps k])
  then show ?thesis
    unfolding remove_temporary_def k
    by (auto split: sum.splits intro: publishing.Q_trans [OF _ foreign_pass_time])
qed

text \<open>The contract of \<open>os.write\<close> on a regular file: a call that does not raise takes at least one byte and
  at most what it was given.\<close>

definition write_contract :: "publish_world \<Rightarrow> bool" where
  "write_contract w = (\<forall>n l. 0 < l \<longrightarrow> 1 \<le> pb_taken w n l \<and> pb_taken w n l \<le> l)"

lemma write_contract_frame: "foreign_only w u \<Longrightarrow> write_contract w \<Longrightarrow> write_contract u"
  by (simp add: foreign_only_def write_contract_def)

lemma write_loop_ends:
  assumes "write_contract w" "offset \<le> length payload" "pb_temporary w = Some (take offset payload)"
  shows "\<exists>r u. write_loop payload offset w = Some (r, u) \<and> foreign_only w u
      \<and> (r = Inr () \<longrightarrow> pb_temporary u = Some payload)"
  using assms
proof (induction "length payload - offset" arbitrary: offset w rule: less_induct)
  case less
  show ?case
  proof (cases "offset < length payload")
    case False
    then show ?thesis
      using less.prems by (subst write_loop.simps) (auto simp: publishing.Q_refl)
  next
    case True
    obtain r u where k: "kernel_call w = (r, u)" by force
    have fu: "foreign_only w u" by (rule publishing.keepsD [OF kernel_call_keeps k])
    define taken where "taken = pb_taken w (pb_tick w) (length payload - offset)"
    have t: "1 \<le> taken" "taken \<le> length payload - offset"
      using less.prems(1) True unfolding taken_def write_contract_def by (metis zero_less_diff)+
    show ?thesis
    proof (cases r)
      case (Inl e)
      then show ?thesis using True k fu by (subst write_loop.simps) (simp add: Let_def)
    next
      case (Inr x)
      let ?u = "u\<lparr>pb_temporary := map_option (\<lambda>f. f @ take taken (drop offset payload)) (pb_temporary u)\<rparr>"
      have temp: "pb_temporary ?u = Some (take (offset + taken) payload)"
        using less.prems(3) kernel_call_temporary [OF k] by (simp add: take_add)
      have "foreign_only w ?u" using fu by simp
      moreover have "\<exists>r v. write_loop payload (offset + taken) ?u = Some (r, v) \<and> foreign_only ?u v
          \<and> (r = Inr () \<longrightarrow> pb_temporary v = Some payload)"
        using t True write_contract_frame [OF \<open>foreign_only w ?u\<close> less.prems(1)] temp
        by (intro less.hyps) auto
      moreover have "write_loop payload offset w = write_loop payload (offset + taken) ?u"
        using True k Inr by (subst write_loop.simps) (simp add: Let_def taken_def)
      ultimately show ?thesis by (metis publishing.Q_trans)
    qed
  qed
qed

lemma rename_result:
  assumes "rename_temporary w = (r, u)"
  shows "(r = Inr () \<longrightarrow> (\<exists>v. foreign_only w v \<and> pb_output v = None \<and> u = v\<lparr>pb_output := pb_temporary w, pb_temporary := None\<rparr>))
    \<and> (r \<noteq> Inr () \<longrightarrow> foreign_only w u)"
proof -
  obtain q v where k: "kernel_call w = (q, v)" by force
  have "foreign_only w v" by (rule publishing.keepsD [OF kernel_call_keeps k])
  then show ?thesis
    using assms kernel_call_temporary [OF k]
    by (auto simp: rename_temporary_def sthen_def sbind_def k sread_def require_def smodify_def
        split: sum.splits if_splits)
qed

definition outcome_ok :: "nat list \<Rightarrow> publish_world \<Rightarrow> unit result \<Rightarrow> publish_world \<Rightarrow> bool" where
  "outcome_ok payload w r u =
     (foreign_only w u \<and> r \<noteq> Inr ()
      \<or> pb_output w = None \<and> pb_output u = Some payload \<and> pb_temporary u = None)"

lemma create_result:
  assumes "create_temporary w = (Inr x, u)"
  shows "pb_temporary u = Some []"
  using assms by (auto simp: create_temporary_def result_simps)

lemma check_temporary_frame:
  assumes "check_temporary payload w = (Inr x, u)"
  shows "pb_temporary u = pb_temporary w"
  using assms kernel_call_temporary by (fastforce simp: check_temporary_def result_simps)

lemma outcome_frame:
  assumes "foreign_only w v" "outcome_ok payload v r u"
  shows "outcome_ok payload w r u"
  using assms publishing.Q_trans by (auto simp: outcome_ok_def foreign_only_def)

lemma outcome_after:
  assumes "outcome_ok payload w r u" "kernel_call u = (q, v)"
  shows "outcome_ok payload w (if r = Inr () then q else r) v"
  using assms publishing.keepsD [OF kernel_call_keeps assms(2)] kernel_call_temporary [OF assms(2)]
  by (auto simp: outcome_ok_def foreign_only_def)

lemma check_and_rename:
  assumes "sthen (check_temporary payload) rename_temporary w = (r, u)" "pb_temporary w = Some payload"
  shows "outcome_ok payload w r u \<and> (r = Inr () \<longrightarrow> pb_output u = Some payload \<and> pb_temporary u = None)"
proof -
  obtain q v where c: "check_temporary payload w = (q, v)" by force
  have f: "foreign_only w v" by (rule publishing.keepsD [OF check_keeps c])
  show ?thesis
  proof (cases q)
    case (Inl e)
    then show ?thesis using assms(1) c f by (auto simp: sthen_def sbind_def outcome_ok_def)
  next
    case (Inr x)
    have t: "pb_temporary v = Some payload" using check_temporary_frame c Inr assms(2) by simp
    have "rename_temporary v = (r, u)" using assms(1) c Inr by (simp add: sthen_def sbind_def)
    from rename_result [OF this] t f show ?thesis
      by (cases r) (auto simp: outcome_ok_def foreign_only_def)
  qed
qed

lemma publish_temporary_result:
  assumes "write_contract w"
  shows "\<exists>r b u. publish_temporary payload w = Some (r, b, u) \<and> outcome_ok payload w r u
      \<and> (r = Inr () \<longrightarrow> \<not> b \<and> pb_output u = Some payload)"
proof -
  obtain q u where c: "create_temporary w = (q, u)" by force
  have f: "foreign_only w u" by (rule publishing.keepsD [OF create_keeps c])
  show ?thesis
  proof (cases q)
    case (Inl e)
    then show ?thesis using c f by (auto simp: publish_temporary_def outcome_ok_def)
  next
    case (Inr x)
    have t: "pb_temporary u = Some (take 0 payload)" using create_result c Inr by simp
    obtain r v where l: "write_loop payload 0 u = Some (r, v)" "foreign_only u v"
        "r = Inr () \<longrightarrow> pb_temporary v = Some payload"
      using write_loop_ends [OF write_contract_frame [OF f assms] _ t] by auto
    have fv: "foreign_only w v" using f l(2) by (rule publishing.Q_trans)
    show ?thesis
    proof (cases r)
      case Inl
      then show ?thesis using c Inr l fv by (auto simp: publish_temporary_def outcome_ok_def)
    next
      case r: (Inr y)
      obtain p x' where s: "sthen (check_temporary payload) rename_temporary v = (p, x')" by force
      have oc: "outcome_ok payload w p x'" "p = Inr () \<longrightarrow> pb_output x' = Some payload \<and> pb_temporary x' = None"
        using check_and_rename [OF s] l(3) r outcome_frame [OF fv] by auto
      obtain e z where k: "kernel_call x' = (e, z)" by force
      show ?thesis
        using c Inr l(1) r s k oc outcome_after [OF oc(1) k] publishing.keepsD [OF kernel_call_keeps k]
        by (cases p) (auto simp: publish_temporary_def foreign_only_def)
    qed
  qed
qed

lemma write_campaign_evidence_result:
  assumes "write_contract w"
  shows "\<exists>r u. write_campaign_evidence_file is_root parent data w = Some (r, u)
    \<and> (foreign_only w u \<or> pb_output w = None \<and> pb_output u = Some (data @ [10]))
    \<and> (r = Inr () \<longrightarrow> pb_output w = None \<and> pb_output u = Some (data @ [10]) \<and> pb_temporary u = None)"
proof -
  let ?payload = "data @ [10]"
  obtain q u where s: "sthen (ensure_campaign_output_available is_root parent) kernel_call w = (q, u)" by force
  have "publishing.keeps (sthen (ensure_campaign_output_available is_root parent) kernel_call)" by auto
  from publishing.keepsD [OF this s] have f: "foreign_only w u" .
  show ?thesis
  proof (cases q)
    case (Inl e)
    then show ?thesis using s f by (auto simp: write_campaign_evidence_file_def Let_def)
  next
    case (Inr x)
    obtain r b v where p: "publish_temporary ?payload u = Some (r, b, v)" "outcome_ok ?payload u r v"
        "r = Inr () \<longrightarrow> \<not> b \<and> pb_output v = Some ?payload"
      using publish_temporary_result [OF write_contract_frame [OF f assms]] by blast
    let ?x = "if b then remove_temporary v else v"
    have x: "foreign_only v ?x" using remove_keeps publishing.Q_refl by simp
    have out: "foreign_only w ?x \<or> pb_output w = None \<and> pb_output ?x = Some ?payload"
      using outcome_frame [OF f p(2)] x by (auto simp: outcome_ok_def foreign_only_def)
    have fin: "r = Inr () \<Longrightarrow> pb_output w = None \<and> pb_output ?x = Some ?payload \<and> pb_temporary ?x = None"
      using outcome_frame [OF f p(2)] p(3) by (auto simp: outcome_ok_def)
    show ?thesis
      using s Inr p(1) out fin
      by (cases r) (auto simp: write_campaign_evidence_file_def Let_def)
  qed
qed

text \<open>C40: Publishing an evidence file ends under the contract of \<open>os.write\<close>, whatever calls fail and whatever
  other processes create meanwhile, and it is all or nothing: a file that was at the output path is
  still there unchanged and the call raises; otherwise the path is free, holds another process's
  file, or holds the complete payload; and a call that returns has left exactly the payload there
  and no temporary file.\<close>

theorem publication_all_or_nothing:
  assumes "write_contract w"
  shows "\<exists>r u. write_campaign_evidence_file is_root parent data w = Some (r, u)
    \<and> (case pb_output w of
         Some f \<Rightarrow> pb_output u = Some f \<and> (\<exists>e. r = Inl e)
       | None \<Rightarrow> pb_output u \<in> {None, Some (data @ [10])} \<union> range (pb_arrival w))
    \<and> (case r of Inl e \<Rightarrow> True
       | Inr _ \<Rightarrow> pb_output u = Some (data @ [10]) \<and> pb_temporary u = None)"
proof -
  obtain r u where r: "write_campaign_evidence_file is_root parent data w = Some (r, u)"
      "foreign_only w u \<or> pb_output w = None \<and> pb_output u = Some (data @ [10])"
      "r = Inr () \<longrightarrow> pb_output w = None \<and> pb_output u = Some (data @ [10]) \<and> pb_temporary u = None"
    using write_campaign_evidence_result [OF assms] by blast
  show ?thesis
    by (rule exI [of _ r], rule exI [of _ u], cases r)
      (use r in \<open>auto simp: foreign_only_def split: option.splits\<close>)
qed

definition demo_publish :: publish_world where
  "demo_publish =
     \<lparr>pb_tick = 0, pb_fault = (\<lambda>n. n = 9), pb_taken = (\<lambda>n l. min l 2), pb_arrival = (\<lambda>n. None),
      pb_temporary = None, pb_output = None,
      pb_readback = \<lparr>fv_opens = False, fv_before = None, fv_read = (\<lambda>k n. None), fv_after = None,
        fv_path_after = None, fv_mode = None\<rparr>\<rparr>"

lemma demo_publish_contract: "write_contract demo_publish"
  by (auto simp: write_contract_def demo_publish_def)

text \<open>Five bytes written two at a time; the last \<open>fsync\<close> fails after the rename.\<close>

theorem publication_all_or_nothing_witness:
  "write_contract demo_publish
   \<and> (\<exists>r u. write_campaign_evidence_file False (Inr ''/out'') [1, 2, 3, 4] demo_publish = Some (r, u)
       \<and> pb_output u \<in> {None, Some [1, 2, 3, 4, 10]})"
  using publication_all_or_nothing [OF demo_publish_contract, of False "Inr ''/out''" "[1, 2, 3, 4]"] demo_publish_contract
  by (force simp: demo_publish_def)

end
