(* ===== verification/Campaign_Runtime.thy ===== *)
theory Campaign_Runtime
  imports Campaign_Files Campaign_Properties Storage_Properties Artifact_Store_Properties
begin

text \<open>
  Model of the reconciliation of \<open>src/src/guildmind/runtime/campaign.py\<close>: how the storage of one scheduled
  attempt becomes one piece of evidence, and how the evidence of the whole schedule becomes a report.
  Reconciling dispatches nothing: it audits the state directory, reads the run from the ledger and
  its task from the artifact store, and audits again. The world of an attempt is the storage world
  of its audit together with what opening its artifact store for reading gives.
\<close>

section \<open>Loaded campaigns and execution notes\<close>

record loaded_campaign =
  lc_source_manifest_sha256 :: string
  lc_manifest :: campaign_manifest
  lc_fixtures :: "campaign_fixture list"

definition campaign_fixture_of :: "loaded_campaign \<Rightarrow> string \<Rightarrow> campaign_fixture result" where
  "campaign_fixture_of campaign fixture_id =
     of_option KeyError (find (\<lambda>f. cf_fixture_id f = fixture_id) (lc_fixtures campaign))"

record attempt_execution_note =
  en_error_type :: "string option"
  en_post_commit_maintenance_error :: bool
  en_recovery_attempted :: bool
  en_recovery_succeeded :: bool
  en_diagnostic :: "string option"

definition plain_note :: attempt_execution_note where
  "plain_note =
     \<lparr>en_error_type = None, en_post_commit_maintenance_error = False, en_recovery_attempted = False,
      en_recovery_succeeded = False, en_diagnostic = None\<rparr>"

text \<open>\<open>note.diagnostic or default\<close>.\<close>

definition diagnostic_or :: "string option \<Rightarrow> string \<Rightarrow> string" where
  "diagnostic_or d other = (case d of None \<Rightarrow> other | Some s \<Rightarrow> if s = [] then other else s)"

definition attempt_evidence_of ::
    "campaign_attempt \<Rightarrow> string list \<Rightarrow> attempt_execution_note option \<Rightarrow> attempt_disposition
      \<Rightarrow> string option \<Rightarrow> terminal_evidence option \<Rightarrow> attempt_evidence result" where
  "attempt_evidence_of attempt observed_run_ids nt disposition diagnostic terminal =
     make_attempt_evidence
       \<lparr>ae_attempt = attempt, ae_disposition = disposition, ae_observed_run_ids = observed_run_ids,
        ae_terminal = terminal,
        ae_recovery_attempted = (case nt of None \<Rightarrow> False | Some n \<Rightarrow> en_recovery_attempted n),
        ae_recovery_succeeded = (case nt of None \<Rightarrow> False | Some n \<Rightarrow> en_recovery_succeeded n),
        ae_execution_error_type = (case nt of None \<Rightarrow> None | Some n \<Rightarrow> en_error_type n),
        ae_diagnostic = diagnostic\<rparr>"

section \<open>The world of one attempt\<close>

record attempt_world =
  aw_storage :: storage_world
  aw_store :: "nat \<Rightarrow> artifact_fs result"

definition on_storage :: "(storage_world, 'a) op \<Rightarrow> (attempt_world, 'a) op" where
  "on_storage m w = (case m (aw_storage w) of (r, s) \<Rightarrow> (r, w\<lparr>aw_storage := s\<rparr>))"

text \<open>Handlers that return evidence: \<open>try: m except p as error: return h error\<close>, where the \<open>try\<close> gives a value.\<close>

definition caught :: "(exn \<Rightarrow> bool) \<Rightarrow> ('s, 'a) op \<Rightarrow> ('s, exn + 'a) op" where
  "caught p m s =
     (case m s of
        (Inl e, t) \<Rightarrow> if p e then (Inr (Inl e), t) else (Inl e, t)
      | (Inr x, t) \<Rightarrow> (Inr (Inr x), t))"

definition event_store_failure :: "exn \<Rightarrow> bool" where
  "event_store_failure e = (e \<in> {KeyError, OSError, StoreIntegrityError} \<or> is_value_error e)"

definition task_failure :: "exn \<Rightarrow> bool" where
  "task_failure e = (e \<in> {ArtifactCorruptionError, OSError} \<or> is_value_error e)"

definition load_attempt ::
    "(json \<Rightarrow> string) \<Rightarrow> string \<Rightarrow> (attempt_world, run_manifest \<times> event_record list) op" where
  "load_attempt H run_id =
     sbind (on_storage (answer sw_database)) (\<lambda>db.
     slift (rbind (load_manifest H db run_id) (\<lambda>m.
       rbind (list_events H db run_id) (\<lambda>es. Inr (m, es)))))"

text \<open>Opening the artifact store read-only, reading and validating the task, and requiring that its bytes
  are its canonical text.\<close>

definition parse_canonical_task :: "parsers \<Rightarrow> nat list \<Rightarrow> task_spec result" where
  "parse_canonical_task ps task_bytes =
     (case parse_task ps task_bytes of
        ParseFailed \<Rightarrow> Inl ValidationError
      | NotSerializable \<Rightarrow> Inl ValueError
      | Parsed task \<Rightarrow>
          rbind (require (task_bytes = utf8_encode (dumps (task_spec_json task))) ValueError) (\<lambda>_. Inr task))"

definition load_task ::
    "(nat list \<Rightarrow> string) \<Rightarrow> parsers \<Rightarrow> artifact_ref \<Rightarrow> (attempt_world, task_spec) op" where
  "load_task sha ps reference w =
     on_storage (answer (\<lambda>s n.
       rbind (aw_store w n) (\<lambda>fs.
       rbind (fst (get_bytes sha reference fs)) (\<lambda>task_bytes.
       parse_canonical_task ps task_bytes)))) w"

definition task_evaluator_version :: "task_spec \<Rightarrow> string option" where
  "task_evaluator_version task =
     (case map_of (ts_metadata task) ''evaluator_version'' of
        Some (JStr s) \<Rightarrow> if py_strip s = [] then None else Some s
      | _ \<Rightarrow> None)"

fun integrity_state_value :: "integrity_state \<Rightarrow> string" where
  "integrity_state_value UNINITIALIZED = ''uninitialized''"
| "integrity_state_value DATABASE_MISSING_WITH_ARTIFACTS = ''database_missing_with_artifacts''"
| "integrity_state_value DATABASE_INVALID = ''database_invalid''"
| "integrity_state_value INITIALIZED_EMPTY = ''initialized_empty''"
| "integrity_state_value INITIALIZED_EMPTY_WITH_UNREFERENCED_FINDINGS = ''initialized_empty_with_unreferenced_findings''"
| "integrity_state_value AUDIT_INCOMPLETE = ''audit_incomplete''"
| "integrity_state_value REFERENCED_EVIDENCE_INVALID = ''referenced_evidence_invalid''"
| "integrity_state_value HEALTHY_WITH_UNREFERENCED_FINDINGS = ''healthy_with_unreferenced_findings''"
| "integrity_state_value HEALTHY = ''healthy''"

section \<open>Judging a terminal run\<close>

definition terminal_evidence_of ::
    "(json \<Rightarrow> string) \<Rightarrow> run_manifest \<Rightarrow> event_record list \<Rightarrow> replay_state \<Rightarrow> task_spec \<Rightarrow> string
      \<Rightarrow> run_root_commitment \<Rightarrow> ledger_snapshot \<Rightarrow> storage_report \<Rightarrow> terminal_evidence result" where
  "terminal_evidence_of H m es replay task version commitment final_snapshot final =
     rbind (semantic_digest H es) (\<lambda>digest.
     make_terminal_evidence
       \<lparr>te_run_id = rm_run_id m, te_task_id = rm_task_id m, te_task_content_sha256 = ts_task_content_hash task,
        te_evaluator_version = version, te_environment_digest = rm_environment_digest m,
        te_requested_model = rm_requested_model m, te_returned_model = rm_returned_model m,
        te_code_revision = rm_code_revision m, te_budget_used = rs_budget_used replay,
        te_budget_reserved = rs_budget_reserved replay, te_run_status = rm_status m,
        te_evaluation_outcome = rs_evaluation_outcome replay,
        te_manifest_revision = vc_manifest_revision commitment,
        te_manifest_sha256 = vc_manifest_sha256 commitment,
        te_event_count = int (vc_event_count commitment),
        te_head_event_sha256 = vc_head_event_sha256 commitment, te_semantic_digest = digest,
        te_ledger_snapshot_sha256 = ls_snapshot_sha256 final_snapshot,
        te_storage_state = integrity_state_value (sr_state final),
        te_references_verified = sr_references_verified final, te_storage_clean = sr_clean final\<rparr>)"

definition identity_matches ::
    "campaign_manifest \<Rightarrow> campaign_fixture \<Rightarrow> campaign_attempt \<Rightarrow> run_manifest \<Rightarrow> replay_state \<Rightarrow> task_spec
      \<Rightarrow> string \<Rightarrow> bool" where
  "identity_matches cm fixture attempt m replay task version =
     (rm_experiment_id m = cm_experiment_id cm
      \<and> rm_task_id m = cf_fixture_id fixture
      \<and> ts_task_id task = cf_fixture_id fixture
      \<and> rm_candidate_id m = cm_candidate_id cm
      \<and> rm_requested_model m = cmo_model_id (cm_model cm)
      \<and> rm_returned_model m \<in> {None, Some (cmo_model_id (cm_model cm))}
      \<and> (rs_evaluation_outcome replay = None \<or> rm_returned_model m = Some (cmo_model_id (cm_model cm)))
      \<and> rm_seed m = ca_seed attempt
      \<and> rm_environment_digest m = ce_environment_digest (cm_evaluator cm)
      \<and> ts_image_digest task = ce_environment_digest (cm_evaluator cm)
      \<and> version = ce_evaluator_version (cm_evaluator cm)
      \<and> rm_code_revision m = ''source-sha256:'' @ cm_code_source_sha256 cm
      \<and> rm_budget_limits m = cm_budget_limits cm)"

text \<open>The disposition of a run whose evidence is intact, with its diagnostic.\<close>

definition judge_attempt ::
    "bool \<Rightarrow> attempt_execution_note option \<Rightarrow> run_status \<Rightarrow> string option \<Rightarrow> attempt_disposition \<times> string option" where
  "judge_attempt identity_ok nt status outcome =
     (if \<not> identity_ok then (EVIDENCE_INVALID, Some ''attempt_identity_mismatch'')
      else if (case nt of None \<Rightarrow> False | Some n \<Rightarrow> en_post_commit_maintenance_error n) then
        (POST_COMMIT_MAINTENANCE_ERROR, Some (diagnostic_or (en_diagnostic (the nt)) ''post_commit_maintenance_release_failed''))
      else if (case nt of None \<Rightarrow> False | Some n \<Rightarrow> en_error_type n \<noteq> None) then
        (ATTEMPT_INFRASTRUCTURE_ERROR, Some (diagnostic_or (en_diagnostic (the nt)) ''execution_raised''))
      else if status = INFRASTRUCTURE_ERROR \<or> outcome = Some ''error'' then
        (ATTEMPT_INFRASTRUCTURE_ERROR, Some ''attempt_terminalized_as_infrastructure_error'')
      else if status = expected_run_status \<and> outcome = Some expected_evaluation_outcome then (EXPECTED, None)
      else (UNEXPECTED_RESULT, Some ''attempt_terminal_result_did_not_match_expectation''))"

text \<open>The commitment of the first audit still describes the run that was read.\<close>

definition commitment_matches ::
    "(json \<Rightarrow> string) \<Rightarrow> run_root_commitment \<Rightarrow> run_manifest \<Rightarrow> event_record list \<Rightarrow> bool" where
  "commitment_matches H c m es =
     (vc_manifest_sha256 c = H (manifest_json m) \<and> vc_event_count c = length es
      \<and> vc_head_event_sha256 c = content_hash H (last es))"

section \<open>Reconciling one attempt\<close>

text \<open>\<open>error_name\<close> is \<open>type(error).__name__\<close>: the model keeps one constructor for the subclasses of \<open>OSError\<close>,
  so the name is a parameter; it only reaches diagnostics.\<close>

text \<open>The second audit, the terminal evidence and the disposition.\<close>

definition reconcile_audited_run ::
    "(nat list \<Rightarrow> string) \<Rightarrow> parsers \<Rightarrow> loaded_campaign \<Rightarrow> campaign_fixture \<Rightarrow> campaign_attempt
      \<Rightarrow> attempt_execution_note option \<Rightarrow> ledger_snapshot \<Rightarrow> run_root_commitment \<Rightarrow> run_manifest
      \<Rightarrow> event_record list \<Rightarrow> replay_state \<Rightarrow> task_spec \<Rightarrow> string \<Rightarrow> (attempt_world, attempt_evidence) op" where
  "reconcile_audited_run sha ps campaign fixture attempt nt snapshot commitment m es replay task version =
     (let ids = map vc_run_id (ls_roots snapshot) in
      sbind (on_storage (audit_storage sha ps)) (\<lambda>final.
      if sr_ledger_snapshot final \<noteq> Some snapshot \<or> \<not> sr_references_verified final \<or> \<not> sr_clean final
      then slift (attempt_evidence_of attempt ids nt EVIDENCE_INVALID (Some ''attempt_changed_during_reconciliation'') None)
      else
        sbind (slift (terminal_evidence_of (json_sha256 sha) m es replay task version commitment snapshot final)) (\<lambda>terminal.
        (case judge_attempt (identity_matches (lc_manifest campaign) fixture attempt m replay task version)
            nt (rm_status m) (rs_evaluation_outcome replay) of
          (disposition, diagnostic) \<Rightarrow>
            slift (attempt_evidence_of attempt ids nt disposition diagnostic (Some terminal))))))"

definition reconcile_terminal_run ::
    "(nat list \<Rightarrow> string) \<Rightarrow> parsers \<Rightarrow> (exn \<Rightarrow> string) \<Rightarrow> loaded_campaign \<Rightarrow> campaign_fixture \<Rightarrow> campaign_attempt
      \<Rightarrow> attempt_execution_note option \<Rightarrow> ledger_snapshot \<Rightarrow> run_root_commitment \<Rightarrow> run_manifest
      \<Rightarrow> event_record list \<Rightarrow> replay_state \<Rightarrow> (attempt_world, attempt_evidence) op" where
  "reconcile_terminal_run sha ps error_name campaign fixture attempt nt snapshot commitment m es replay =
     (let ids = map vc_run_id (ls_roots snapshot);
          invalid = (\<lambda>d. slift (attempt_evidence_of attempt ids nt EVIDENCE_INVALID (Some d) None)) in
      if \<not> commitment_matches (json_sha256 sha) commitment m es then invalid ''attempt_changed_after_initial_audit''
      else
        (case map_of (rm_artifacts m) ''task_spec'' of
           None \<Rightarrow> invalid ''attempt_task_spec_missing''
         | Some task_reference \<Rightarrow>
             sbind (caught task_failure (load_task sha ps task_reference)) (\<lambda>loaded.
             case loaded of
               Inl e \<Rightarrow> invalid (''attempt_task_spec_invalid:'' @ error_name e)
             | Inr task \<Rightarrow>
                 (case task_evaluator_version task of
                    None \<Rightarrow> invalid ''attempt_evaluator_version_missing''
                  | Some version \<Rightarrow>
                      reconcile_audited_run sha ps campaign fixture attempt nt snapshot commitment m es replay task version))))"

definition reconcile_recorded_run ::
    "(nat list \<Rightarrow> string) \<Rightarrow> parsers \<Rightarrow> (exn \<Rightarrow> string) \<Rightarrow> loaded_campaign \<Rightarrow> campaign_fixture \<Rightarrow> campaign_attempt
      \<Rightarrow> attempt_execution_note option \<Rightarrow> ledger_snapshot \<Rightarrow> run_root_commitment
      \<Rightarrow> (attempt_world, attempt_evidence) op" where
  "reconcile_recorded_run sha ps error_name campaign fixture attempt nt snapshot commitment =
     (let H = json_sha256 sha; ids = map vc_run_id (ls_roots snapshot);
          evidence = (\<lambda>disposition d. slift (attempt_evidence_of attempt ids nt disposition (Some d) None)) in
      sbind (caught event_store_failure (load_attempt H (ca_attempt_id attempt))) (\<lambda>loaded.
      case loaded of
        Inl e \<Rightarrow> evidence EVIDENCE_INVALID (''attempt_event_store_invalid:'' @ error_name e)
      | Inr (m, es) \<Rightarrow>
          if \<not> is_terminal (rm_status m) then evidence EVIDENCE_NONTERMINAL ''attempt_run_is_nonterminal''
          else
            sbind (caught (\<lambda>e. e = ReplayIntegrityError) (slift (replay_events H True es))) (\<lambda>replayed.
            case replayed of
              Inl e \<Rightarrow> evidence EVIDENCE_INVALID (''attempt_replay_invalid:'' @ error_name e)
            | Inr replay \<Rightarrow>
                reconcile_terminal_run sha ps error_name campaign fixture attempt nt snapshot commitment m es replay)))"

definition reconcile_integrity ::
    "(nat list \<Rightarrow> string) \<Rightarrow> parsers \<Rightarrow> (exn \<Rightarrow> string) \<Rightarrow> loaded_campaign \<Rightarrow> campaign_fixture \<Rightarrow> campaign_attempt
      \<Rightarrow> attempt_execution_note option \<Rightarrow> storage_report \<Rightarrow> (attempt_world, attempt_evidence) op" where
  "reconcile_integrity sha ps error_name campaign fixture attempt nt integrity =
     (let ids = (case sr_ledger_snapshot integrity of None \<Rightarrow> [] | Some s \<Rightarrow> map vc_run_id (ls_roots s));
          evidence = (\<lambda>disposition d. slift (attempt_evidence_of attempt ids nt disposition (Some d) None)) in
      if \<not> sr_database_present integrity then evidence EVIDENCE_MISSING ''attempt_database_missing''
      else
        (case sr_ledger_snapshot integrity of
           None \<Rightarrow> evidence EVIDENCE_INVALID (diagnostic_or (sr_diagnostic integrity) ''attempt_ledger_snapshot_missing'')
         | Some snapshot \<Rightarrow>
             if ids \<noteq> [ca_attempt_id attempt]
             then evidence EVIDENCE_RUN_SET_INVALID ''attempt_run_set_does_not_match_schedule''
             else reconcile_recorded_run sha ps error_name campaign fixture attempt nt snapshot (hd (ls_roots snapshot))))"

definition reconcile_attempt ::
    "(nat list \<Rightarrow> string) \<Rightarrow> parsers \<Rightarrow> (exn \<Rightarrow> string) \<Rightarrow> loaded_campaign \<Rightarrow> campaign_attempt
      \<Rightarrow> attempt_execution_note option \<Rightarrow> (attempt_world, attempt_evidence) op" where
  "reconcile_attempt sha ps error_name campaign attempt nt =
     sbind (slift (campaign_fixture_of campaign (ca_fixture_id attempt))) (\<lambda>fixture.
     sbind (on_storage (audit_storage sha ps)) (\<lambda>integrity.
     reconcile_integrity sha ps error_name campaign fixture attempt nt integrity))"

section \<open>Executing the schedule\<close>

text \<open>How running one attempt ends: it returns, the maintenance lease could not be released after the
  commit, the budget was exceeded, or another exception of the named class was raised.\<close>

datatype run_outcome = RunReturned | RunPostCommitMaintenance | RunBudgetExceeded | RunRaised string

text \<open>The note of the \<open>try\<close> around one run; \<open>recovered\<close> tells whether the recovery of the run succeeded.\<close>

definition note_of_outcome :: "run_outcome \<Rightarrow> bool \<Rightarrow> attempt_execution_note option" where
  "note_of_outcome outcome recovered =
     (case outcome of
        RunReturned \<Rightarrow> None
      | RunPostCommitMaintenance \<Rightarrow>
          Some (plain_note\<lparr>en_error_type := Some ''FixtureRunPostCommitMaintenanceError'',
            en_post_commit_maintenance_error := True,
            en_diagnostic := Some ''post_commit_maintenance_release_failed''\<rparr>)
      | RunBudgetExceeded \<Rightarrow> None
      | RunRaised name \<Rightarrow>
          Some (plain_note\<lparr>en_error_type := Some name, en_recovery_attempted := True,
            en_recovery_succeeded := recovered, en_diagnostic := Some ''execution_raised''\<rparr>))"

definition note_of_changed_fixture :: "attempt_execution_note option \<Rightarrow> attempt_execution_note" where
  "note_of_changed_fixture prior =
     (let p = (case prior of None \<Rightarrow> plain_note\<lparr>en_error_type := Some ''CampaignConfigurationError''\<rparr> | Some n \<Rightarrow> n) in
      p\<lparr>en_diagnostic := Some ''fixture_identity_changed_during_execution''\<rparr>)"

text \<open>One iteration of the loop over the schedule: the identity of the fixture before the run, the run,
  and the identity after it.\<close>

definition execute_attempt ::
    "string \<Rightarrow> string result \<Rightarrow> run_outcome \<Rightarrow> bool \<Rightarrow> string result \<Rightarrow> attempt_execution_note option result" where
  "execute_attempt fixture_sha256 before outcome recovered after =
     rbind before (\<lambda>observed.
     if observed \<noteq> fixture_sha256 then
       Inr (Some (plain_note\<lparr>en_error_type := Some ''CampaignConfigurationError'',
         en_diagnostic := Some ''fixture_identity_changed_before_dispatch''\<rparr>))
     else
       (let prior = note_of_outcome outcome recovered in
        rbind after (\<lambda>observed_after.
        Inr (if observed_after \<noteq> fixture_sha256 then Some (note_of_changed_fixture prior) else prior))))"

definition require_supported_execution ::
    "campaign_manifest \<Rightarrow> string \<Rightarrow> string \<Rightarrow> string result \<Rightarrow> unit result" where
  "require_supported_execution cm evaluator_version environment_digest code_source =
     rbind (require (cm_evidence_tier cm = DEVELOPMENT) CampaignConfigurationError) (\<lambda>_.
     rbind (require (ce_kind (cm_evaluator cm) = LOCAL) CampaignConfigurationError) (\<lambda>_.
     rbind (require (evaluator_version = ce_evaluator_version (cm_evaluator cm)) CampaignConfigurationError) (\<lambda>_.
     rbind (require (environment_digest = ce_environment_digest (cm_evaluator cm)) CampaignConfigurationError) (\<lambda>_.
     rbind code_source (\<lambda>observed.
     require (observed = cm_code_source_sha256 cm) CampaignConfigurationError)))))"

section \<open>Reconciling the campaign\<close>

record campaign_world =
  cw_state_manifest :: file_view
  cw_attempt :: "string \<Rightarrow> attempt_world"
  cw_package :: source_tree
  cw_pyproject :: file_view
  cw_uv_lock :: file_view
  cw_now :: datetime

definition state_manifest_verified :: "loaded_campaign \<Rightarrow> campaign_world \<Rightarrow> bool result" where
  "state_manifest_verified campaign w =
     (case read_regular_file (cw_state_manifest w) MANIFEST_MAX_BYTES of
        Inl e \<Rightarrow> if e = CampaignConfigurationError then Inr False else Inl e
      | Inr state_manifest_bytes \<Rightarrow>
          Inr (state_manifest_bytes = utf8_encode (dumps (campaign_manifest_json (lc_manifest campaign))) @ [10]))"

fun reconcile_attempts ::
    "(nat list \<Rightarrow> string) \<Rightarrow> parsers \<Rightarrow> (exn \<Rightarrow> string) \<Rightarrow> loaded_campaign \<Rightarrow> (string \<Rightarrow> attempt_execution_note option)
      \<Rightarrow> (string \<Rightarrow> attempt_world) \<Rightarrow> campaign_attempt list \<Rightarrow> attempt_evidence list result" where
  "reconcile_attempts sha ps error_name campaign notes worlds [] = Inr []"
| "reconcile_attempts sha ps error_name campaign notes worlds (attempt # rest) =
     rbind (fst (reconcile_attempt sha ps error_name campaign attempt (notes (ca_attempt_id attempt))
       (worlds (ca_attempt_id attempt)))) (\<lambda>e.
     rbind (reconcile_attempts sha ps error_name campaign notes worlds rest) (\<lambda>es. Inr (e # es)))"

text \<open>Constructing a report body strips its \<open>git_revision\<close> and then validates.\<close>

definition make_report_body :: "(json \<Rightarrow> string) \<Rightarrow> report_body \<Rightarrow> report_body result" where
  "make_report_body H b =
     (let s = b\<lparr>rb_git_revision := strip_whitespace (rb_git_revision b)\<rparr> in
      if valid_report_body H s then Inr s else Inl ValidationError)"

definition make_campaign_report :: "(json \<Rightarrow> string) \<Rightarrow> report_body \<Rightarrow> campaign_report result" where
  "make_campaign_report H b =
     (let r = \<lparr>cr_body = b, cr_body_sha256 = H (report_body_json b)\<rparr> in
      if valid_campaign_report H r then Inr r else Inl ValidationError)"

text \<open>The aggregates of the reconciled attempts, computed here and checked again by the report body. A manifest
  has at least one attempt, so the division is always defined.\<close>

definition reconcile_claims ::
    "campaign_manifest \<Rightarrow> bool \<Rightarrow> bool \<Rightarrow> attempt_evidence list \<Rightarrow> report_claims result" where
  "reconcile_claims cm state_ok code_ok attempts =
     (let intended = int (length attempts);
          terminal = count_true (\<lambda>item. ae_terminal item \<noteq> None) attempts;
          reconciled = count_true is_reconciled_terminal attempts;
          expected = count_true (\<lambda>item. ae_disposition item = EXPECTED) attempts;
          infrastructure_errors = count_true evidence_is_infrastructure_error attempts in
      if intended = 0 then Inl ValueError
      else rbind (of_option OverflowError (fdiv (of_int infrastructure_errors) (of_int intended))) (\<lambda>rate.
      let complete = (reconciled = intended);
          all_expected = (expected = intended);
          threshold_met = (rate \<le> cm_maximum_infrastructure_error_rate cm);
          campaign_passed = (state_ok \<and> code_ok \<and> complete \<and> all_expected \<and> threshold_met) in
      Inr \<lparr>rc_intended_attempt_count = intended, rc_terminal_attempt_count = terminal,
           rc_reconciled_attempt_count = reconciled, rc_expected_attempt_count = expected,
           rc_infrastructure_error_count = infrastructure_errors, rc_infrastructure_error_rate = rate,
           rc_complete = complete, rc_all_expected = all_expected, rc_threshold_met = threshold_met,
           rc_campaign_passed = campaign_passed\<rparr>))"

definition reconcile_reliability_campaign ::
    "(nat list \<Rightarrow> string) \<Rightarrow> parsers \<Rightarrow> (exn \<Rightarrow> string) \<Rightarrow> loaded_campaign \<Rightarrow> (string \<Rightarrow> attempt_execution_note option)
      \<Rightarrow> string \<Rightarrow> datetime option \<Rightarrow> campaign_world \<Rightarrow> campaign_report result" where
  "reconcile_reliability_campaign sha ps error_name campaign notes git_revision recorded_at w =
     (let H = json_sha256 sha; cm = lc_manifest campaign in
      rbind (state_manifest_verified campaign w) (\<lambda>state_ok.
      rbind (reconcile_attempts sha ps error_name campaign notes (cw_attempt w) (cm_attempts cm)) (\<lambda>attempts.
      rbind (campaign_code_source_sha256 sha (cw_package w) (cw_pyproject w) (cw_uv_lock w)) (\<lambda>observed_code.
      let code_ok = (observed_code = cm_code_source_sha256 cm) in
      rbind (reconcile_claims cm state_ok code_ok attempts) (\<lambda>claims.
      rbind (make_report_body H
        \<lparr>rb_manifest = cm, rb_source_manifest_sha256 = lc_source_manifest_sha256 campaign,
         rb_campaign_manifest_sha256 = campaign_content_sha256 H cm, rb_git_revision = git_revision,
         rb_recorded_at = (case recorded_at of None \<Rightarrow> cw_now w | Some t \<Rightarrow> t),
         rb_state_manifest_verified = state_ok, rb_code_identity_verified = code_ok,
         rb_attempts = attempts, rb_claims = claims\<rparr>) (\<lambda>body.
      make_campaign_report H body))))))"

end
