(* ===== verification/Campaign_Runtime_Properties.thy ===== *)
theory Campaign_Runtime_Properties
  imports Campaign_Runtime
begin

text \<open>
  Properties of the reconciliation: the disposition \<open>EXPECTED\<close> certifies a run that was read from the
  ledger, replayed, matched against the campaign and audited clean twice, and a campaign passes only
  with such a run for every scheduled attempt.
\<close>

section \<open>What expected evidence certifies\<close>

text \<open>A finished run of the attempt, as the audits, the ledger and the artifact store show it.\<close>

definition certified_attempt ::
    "(nat list \<Rightarrow> string) \<Rightarrow> parsers \<Rightarrow> loaded_campaign \<Rightarrow> campaign_attempt \<Rightarrow> attempt_world \<Rightarrow> terminal_evidence \<Rightarrow> bool" where
  "certified_attempt sha ps campaign attempt w t =
     (\<exists>fixture m es replay task version n db k fs task_reference bytes final v x snapshot.
        campaign_fixture_of campaign (ca_fixture_id attempt) = Inr fixture
        \<and> sw_database (aw_storage w) n = Inr db
        \<and> load_manifest (json_sha256 sha) db (ca_attempt_id attempt) = Inr m
        \<and> list_events (json_sha256 sha) db (ca_attempt_id attempt) = Inr es
        \<and> replay_events (json_sha256 sha) True es = Inr replay
        \<and> rm_status m = SUCCEEDED \<and> rs_evaluation_outcome replay = Some ''passed''
        \<and> map_of (rm_artifacts m) ''task_spec'' = Some task_reference
        \<and> aw_store w k = Inr fs \<and> fst (get_bytes sha task_reference fs) = Inr bytes
        \<and> parse_canonical_task ps bytes = Inr task \<and> task_evaluator_version task = Some version
        \<and> identity_matches (lc_manifest campaign) fixture attempt m replay task version
        \<and> only_ticks (aw_storage w) v \<and> audit_storage sha ps v = (Inr final, x)
        \<and> sr_clean final \<and> sr_references_verified final
        \<and> sr_ledger_snapshot final = Some snapshot
        \<and> map vc_run_id (ls_roots snapshot) = [ca_attempt_id attempt]
        \<and> commitment_matches (json_sha256 sha) (hd (ls_roots snapshot)) m es
        \<and> terminal_evidence_of (json_sha256 sha) m es replay task version (hd (ls_roots snapshot)) snapshot final = Inr t)"

lemma attempt_evidence_of_Inr:
  assumes "attempt_evidence_of attempt ids nt d diag terminal = Inr e"
  shows "ae_attempt e = attempt \<and> ae_disposition e = d \<and> ae_terminal e = terminal \<and> valid_attempt_evidence e"
  using assms by (auto simp: attempt_evidence_of_def make_attempt_evidence_def Let_def result_simps split: if_splits)

lemma caught_Inr:
  "caught p m s = (Inr y, t) \<longleftrightarrow>
     (\<exists>e. m s = (Inl e, t) \<and> p e \<and> y = Inl e) \<or> (\<exists>x. m s = (Inr x, t) \<and> y = Inr x)"
  by (auto simp: caught_def split: prod.splits sum.splits if_splits)

lemma caught_slift:
  "caught p (slift m) s = (Inr y, t) \<longleftrightarrow>
     t = s \<and> ((\<exists>e. m = Inl e \<and> p e \<and> y = Inl e) \<or> (\<exists>x. m = Inr x \<and> y = Inr x))"
  by (auto simp: caught_def slift_def split: sum.splits if_splits)

lemma on_storage_Inr:
  "on_storage m w = (Inr y, t) \<longleftrightarrow> (\<exists>s. m (aw_storage w) = (Inr y, s) \<and> t = w\<lparr>aw_storage := s\<rparr>)"
  by (auto simp: on_storage_def split: prod.splits)

definition later :: "attempt_world \<Rightarrow> attempt_world \<Rightarrow> bool" where
  "later w u = (aw_store u = aw_store w \<and> only_ticks (aw_storage w) (aw_storage u))"

interpretation attempt_time: state_preorder later
  by unfold_locales (auto simp: later_def intro: world.Q_refl world.Q_trans)

lemma later_storage [intro]: "ticking m \<Longrightarrow> attempt_time.keeps (on_storage m)"
  by (auto simp: attempt_time.keeps_def on_storage_def later_def dest: world.keepsD split: prod.splits)

lemma judge_expected:
  assumes "judge_attempt ok nt status outcome = (EXPECTED, d)"
  shows "ok \<and> status = SUCCEEDED \<and> outcome = Some ''passed''"
  using assms
  by (auto simp: judge_attempt_def expected_run_status_def expected_evaluation_outcome_def split: if_splits)

lemma load_attempt_Inr:
  assumes "load_attempt H run_id w = (Inr (m, es), u)"
  obtains n db where "sw_database (aw_storage w) n = Inr db" "load_manifest H db run_id = Inr m"
    "list_events H db run_id = Inr es" "later w u"
proof -
  have "attempt_time.keeps (load_attempt H run_id)"
    unfolding load_attempt_def by auto
  from attempt_time.keepsD [OF this assms] have "later w u" .
  with assms that show ?thesis
    by (auto simp: load_attempt_def result_simps on_storage_Inr)
qed

lemma load_task_Inr:
  assumes "load_task sha ps reference w = (Inr task, u)"
  obtains k fs bytes where "aw_store w k = Inr fs" "fst (get_bytes sha reference fs) = Inr bytes"
    "parse_canonical_task ps bytes = Inr task" "later w u"
  using assms that
  by (auto simp: load_task_def result_simps on_storage_Inr later_def only_ticks_def)

lemma evidence_Inr:
  assumes "slift (attempt_evidence_of attempt ids nt d diag terminal) w = (Inr e, u)"
  shows "ae_disposition e = d" "ae_terminal e = terminal" "valid_attempt_evidence e" "ae_attempt e = attempt"
  using assms attempt_evidence_of_Inr by (auto simp: slift_Inr)

lemma not_expected: "slift (attempt_evidence_of attempt ids nt d diag terminal) w = (Inr e, u) \<Longrightarrow> ae_disposition e = EXPECTED \<Longrightarrow> d = EXPECTED"
  by (drule evidence_Inr(1)) simp

lemma only_expected: "ae_disposition e = EXPECTED \<Longrightarrow> d \<noteq> EXPECTED
    \<Longrightarrow> slift (attempt_evidence_of attempt ids nt d diag terminal) w \<noteq> (Inr e, u)"
  by (auto dest: not_expected)

lemma audited_run_expected:
  assumes run: "reconcile_audited_run sha ps campaign fixture attempt nt snapshot c m es replay task version w = (Inr e, u)"
    and ex: "ae_disposition e = EXPECTED"
  obtains w2 final t where
    "on_storage (audit_storage sha ps) w = (Inr final, w2)" "sr_ledger_snapshot final = Some snapshot"
    "sr_references_verified final" "sr_clean final"
    "terminal_evidence_of (json_sha256 sha) m es replay task version c snapshot final = Inr t"
    "identity_matches (lc_manifest campaign) fixture attempt m replay task version"
    "rm_status m = SUCCEEDED" "rs_evaluation_outcome replay = Some ''passed''" "ae_terminal e = Some t"
proof -
  let ?j = "judge_attempt (identity_matches (lc_manifest campaign) fixture attempt m replay task version)
      nt (rm_status m) (rs_evaluation_outcome replay)"
  obtain d dg where j: "?j = (d, dg)" by force
  from run ex obtain final w2 t where f: "on_storage (audit_storage sha ps) w = (Inr final, w2)"
      "sr_ledger_snapshot final = Some snapshot" "sr_references_verified final" "sr_clean final"
      "terminal_evidence_of (json_sha256 sha) m es replay task version c snapshot final = Inr t"
    and ev: "slift (attempt_evidence_of attempt (map vc_run_id (ls_roots snapshot)) nt d dg (Some t)) w2 = (Inr e, u)"
    unfolding reconcile_audited_run_def Let_def sbind_Inr j
    by (auto simp: sbind_Inr slift_Inr [of "terminal_evidence_of H' m' es' r' t' v' c' s' f'" for H' m' es' r' t' v' c' s' f']
        split: if_splits dest: not_expected)
  have "?j = (EXPECTED, dg)" using not_expected [OF ev ex] j by simp
  from judge_expected [OF this] evidence_Inr(2) [OF ev] show ?thesis by (intro that [OF f]) simp_all
qed

lemma terminal_run_expected:
  assumes run: "reconcile_terminal_run sha ps en campaign fixture attempt nt snapshot c m es replay w = (Inr e, u)"
    and ex: "ae_disposition e = EXPECTED"
  obtains task_reference task version w1 where
    "commitment_matches (json_sha256 sha) c m es" "map_of (rm_artifacts m) ''task_spec'' = Some task_reference"
    "load_task sha ps task_reference w = (Inr task, w1)" "task_evaluator_version task = Some version"
    "reconcile_audited_run sha ps campaign fixture attempt nt snapshot c m es replay task version w1 = (Inr e, u)"
proof -
  note run = run [unfolded reconcile_terminal_run_def Let_def]
  have c: "commitment_matches (json_sha256 sha) c m es"
    using run ex by (cases "commitment_matches (json_sha256 sha) c m es") (auto dest: not_expected)
  obtain r where r: "map_of (rm_artifacts m) ''task_spec'' = Some r"
    using run ex c by (cases "map_of (rm_artifacts m) ''task_spec''") (auto dest: not_expected)
  have "\<exists>task w1 version. load_task sha ps r w = (Inr task, w1) \<and> task_evaluator_version task = Some version
      \<and> reconcile_audited_run sha ps campaign fixture attempt nt snapshot c m es replay task version w1 = (Inr e, u)"
    using run c r ex by (fastforce simp: sbind_Inr caught_Inr split: option.splits dest: not_expected)
  then show ?thesis using that [OF c r] by blast
qed

lemma recorded_run_expected:
  assumes run: "reconcile_recorded_run sha ps en campaign fixture attempt nt snapshot c w = (Inr e, u)"
    and ex: "ae_disposition e = EXPECTED"
  obtains m es w1 replay where "load_attempt (json_sha256 sha) (ca_attempt_id attempt) w = (Inr (m, es), w1)"
    "replay_events (json_sha256 sha) True es = Inr replay"
    "reconcile_terminal_run sha ps en campaign fixture attempt nt snapshot c m es replay w1 = (Inr e, u)"
proof -
  have "\<exists>m es w1 replay. load_attempt (json_sha256 sha) (ca_attempt_id attempt) w = (Inr (m, es), w1)
      \<and> replay_events (json_sha256 sha) True es = Inr replay
      \<and> reconcile_terminal_run sha ps en campaign fixture attempt nt snapshot c m es replay w1 = (Inr e, u)"
    using run ex
    by (auto simp: reconcile_recorded_run_def Let_def sbind_Inr caught_Inr [of _ "load_attempt H i" for H i] caught_slift
        only_expected split: if_splits)
  then show ?thesis using that by blast
qed

lemma attempt_expected:
  assumes run: "reconcile_attempt sha ps en campaign attempt nt w = (Inr e, u)" and ex: "ae_disposition e = EXPECTED"
  obtains fixture w1 snapshot where "campaign_fixture_of campaign (ca_fixture_id attempt) = Inr fixture" "later w w1"
    "map vc_run_id (ls_roots snapshot) = [ca_attempt_id attempt]"
    "reconcile_recorded_run sha ps en campaign fixture attempt nt snapshot (hd (ls_roots snapshot)) w1 = (Inr e, u)"
proof -
  from run obtain fixture w1 integrity where f: "campaign_fixture_of campaign (ca_fixture_id attempt) = Inr fixture"
    and i: "on_storage (audit_storage sha ps) w = (Inr integrity, w1)"
    and run: "reconcile_integrity sha ps en campaign fixture attempt nt integrity w1 = (Inr e, u)"
    unfolding reconcile_attempt_def sbind_Inr slift_Inr by blast
  have l: "later w w1" by (rule attempt_time.keepsD [OF later_storage i]) simp
  have "\<exists>snapshot. map vc_run_id (ls_roots snapshot) = [ca_attempt_id attempt]
      \<and> reconcile_recorded_run sha ps en campaign fixture attempt nt snapshot (hd (ls_roots snapshot)) w1 = (Inr e, u)"
    using run ex
    by (intro exI [of _ "the (sr_ledger_snapshot integrity)"])
      (auto simp: reconcile_integrity_def Let_def split: if_splits option.splits dest: not_expected)
  then show ?thesis by (elim exE conjE) (rule that [OF f l])
qed

lemma expected_is_certified:
  assumes run: "reconcile_attempt sha ps en campaign attempt nt w = (Inr e, u)" and ex: "ae_disposition e = EXPECTED"
  shows "\<exists>t. ae_terminal e = Some t \<and> certified_attempt sha ps campaign attempt w t"
proof -
  obtain fixture w1 snapshot where a: "campaign_fixture_of campaign (ca_fixture_id attempt) = Inr fixture" "later w w1"
      "map vc_run_id (ls_roots snapshot) = [ca_attempt_id attempt]"
    and r1: "reconcile_recorded_run sha ps en campaign fixture attempt nt snapshot (hd (ls_roots snapshot)) w1 = (Inr e, u)"
    using attempt_expected [OF assms] .
  obtain m es w2 replay where l: "load_attempt (json_sha256 sha) (ca_attempt_id attempt) w1 = (Inr (m, es), w2)"
      "replay_events (json_sha256 sha) True es = Inr replay"
    and r2: "reconcile_terminal_run sha ps en campaign fixture attempt nt snapshot (hd (ls_roots snapshot)) m es replay w2 = (Inr e, u)"
    using recorded_run_expected [OF r1 ex] .
  obtain n db where d: "sw_database (aw_storage w1) n = Inr db" "load_manifest (json_sha256 sha) db (ca_attempt_id attempt) = Inr m"
      "list_events (json_sha256 sha) db (ca_attempt_id attempt) = Inr es" "later w1 w2"
    using load_attempt_Inr [OF l(1)] .
  obtain task_reference task version w3 where t: "commitment_matches (json_sha256 sha) (hd (ls_roots snapshot)) m es"
      "map_of (rm_artifacts m) ''task_spec'' = Some task_reference"
      "load_task sha ps task_reference w2 = (Inr task, w3)" "task_evaluator_version task = Some version"
    and r3: "reconcile_audited_run sha ps campaign fixture attempt nt snapshot (hd (ls_roots snapshot)) m es replay task version w3 = (Inr e, u)"
    using terminal_run_expected [OF r2 ex] .
  obtain k fs bytes where k: "aw_store w2 k = Inr fs" "fst (get_bytes sha task_reference fs) = Inr bytes"
      "parse_canonical_task ps bytes = Inr task" "later w2 w3"
    using load_task_Inr [OF t(3)] .
  obtain w4 final te where f: "on_storage (audit_storage sha ps) w3 = (Inr final, w4)" "sr_ledger_snapshot final = Some snapshot"
      "sr_references_verified final" "sr_clean final"
      "terminal_evidence_of (json_sha256 sha) m es replay task version (hd (ls_roots snapshot)) snapshot final = Inr te"
      "identity_matches (lc_manifest campaign) fixture attempt m replay task version"
      "rm_status m = SUCCEEDED" "rs_evaluation_outcome replay = Some ''passed''" "ae_terminal e = Some te"
    using audited_run_expected [OF r3 ex] .
  have l2: "later w w2" "later w w3" using a(2) d(4) k(4) attempt_time.Q_trans by blast+
  obtain x where x: "audit_storage sha ps (aw_storage w3) = (Inr final, x)" using f(1) by (auto simp: on_storage_Inr)
  have db: "sw_database (aw_storage w) n = Inr db" using d(1) a(2) by (auto simp: later_def only_ticks_def)
  have st: "aw_store w k = Inr fs" "only_ticks (aw_storage w) (aw_storage w3)" using k(1) l2 by (simp_all add: later_def)
  have "certified_attempt sha ps campaign attempt w te"
    unfolding certified_attempt_def
    by (rule exI [of _ fixture], rule exI [of _ m], rule exI [of _ es], rule exI [of _ replay], rule exI [of _ task],
        rule exI [of _ version], rule exI [of _ n], rule exI [of _ db], rule exI [of _ k], rule exI [of _ fs], rule
        exI [of _ task_reference], rule exI [of _ bytes], rule exI [of _ final], rule exI [of _ "aw_storage w3"], rule
        exI [of _ x], rule exI [of _ snapshot])
      (simp only: a db d l f t k st x simp_thms)
  then show ?thesis using f(9) by blast
qed

text \<open>C35: Reconciling an attempt calls it expected only when a run of that attempt was loaded and replayed from
  its ledger as \<open>SUCCEEDED\<close> with the outcome \<open>passed\<close>, its canonical task was read and verified from the
  artifact store, every identity of the run (experiment, candidate, model, seed, environment,
  evaluator, code revision, budget) is the campaign's, and a later audit of the same storage is
  clean, verified, and commits to exactly this run and these events. The certified run is the one
  the evidence describes.\<close>

theorem expected_evidence_is_sound:
  "case fst (reconcile_attempt sha ps error_name campaign attempt nt w) of
     Inl e \<Rightarrow> True
   | Inr evidence \<Rightarrow>
       if ae_disposition evidence = EXPECTED
       then \<exists>t. ae_terminal evidence = Some t \<and> certified_attempt sha ps campaign attempt w t
       else True"
  using expected_is_certified [of sha ps error_name campaign attempt nt w]
  by (cases "reconcile_attempt sha ps error_name campaign attempt nt w") (auto split: sum.splits)

section \<open>The report of a campaign\<close>

lemma reconcile_attempts_Inr:
  assumes "reconcile_attempts sha ps en campaign notes worlds as = Inr es"
  shows "list_all2 (\<lambda>a e. fst (reconcile_attempt sha ps en campaign a (notes (ca_attempt_id a)) (worlds (ca_attempt_id a))) = Inr e) as es"
  using assms by (induction as arbitrary: es) (auto simp: rbind_eq_Inr)

lemma make_report_body_Inr:
  assumes "make_report_body H b = Inr c"
  shows "valid_report_body H c \<and> rb_attempts c = rb_attempts b \<and> rb_manifest c = rb_manifest b
    \<and> rb_state_manifest_verified c = rb_state_manifest_verified b \<and> rb_code_identity_verified c = rb_code_identity_verified b"
  using assms by (auto simp: make_report_body_def Let_def split: if_splits)

lemma make_campaign_report_Inr:
  "make_campaign_report H b = Inr r \<Longrightarrow> valid_campaign_report H r \<and> cr_body r = b"
  by (auto simp: make_campaign_report_def Let_def split: if_splits)

text \<open>The reconciliation and the validator of the report body compute the same aggregates.\<close>

lemma reconcile_claims_derived:
  "reconcile_claims cm state_ok code_ok es = derive_claims cm state_ok code_ok es (int (length es))"
  by (simp add: reconcile_claims_def derive_claims_def Let_def)

lemma passed_all_expected:
  assumes "valid_report_body H b" and "rc_campaign_passed (rb_claims b)"
  shows "rb_state_manifest_verified b \<and> rb_code_identity_verified b
    \<and> list_all (\<lambda>e. ae_disposition e = EXPECTED) (rb_attempts b)"
  using valid_body_claims(3) [OF assms(1)] assms(2)
  by (auto simp: derive_claims_Inr count_true_all [symmetric])

definition campaign_certified ::
    "(nat list \<Rightarrow> string) \<Rightarrow> parsers \<Rightarrow> loaded_campaign \<Rightarrow> campaign_world \<Rightarrow> campaign_report \<Rightarrow> bool" where
  "campaign_certified sha ps campaign w r =
     (campaign_code_source_sha256 sha (cw_package w) (cw_pyproject w) (cw_uv_lock w)
        = Inr (cm_code_source_sha256 (lc_manifest campaign))
      \<and> read_regular_file (cw_state_manifest w) MANIFEST_MAX_BYTES
        = Inr (utf8_encode (dumps (campaign_manifest_json (lc_manifest campaign))) @ [10])
      \<and> list_all2 (\<lambda>a e. \<exists>t. ae_terminal e = Some t \<and> certified_attempt sha ps campaign a (cw_attempt w (ca_attempt_id a)) t)
          (cm_attempts (lc_manifest campaign)) (rb_attempts (cr_body r)))"

lemma report_is_certified:
  assumes "reconcile_reliability_campaign sha ps en campaign notes git_revision recorded_at w = Inr r"
  shows "valid_campaign_report (json_sha256 sha) r"
    and "rc_campaign_passed (rb_claims (cr_body r)) \<Longrightarrow> campaign_certified sha ps campaign w r"
proof -
  let ?H = "json_sha256 sha" and ?m = "lc_manifest campaign"
  let ?code = "campaign_code_source_sha256 sha (cw_package w) (cw_pyproject w) (cw_uv_lock w)"
  from assms obtain state_ok es code claims body where *:
    "state_manifest_verified campaign w = Inr state_ok"
    "reconcile_attempts sha ps en campaign notes (cw_attempt w) (cm_attempts ?m) = Inr es"
    "?code = Inr code"
    "make_report_body ?H
        \<lparr>rb_manifest = ?m, rb_source_manifest_sha256 = lc_source_manifest_sha256 campaign,
         rb_campaign_manifest_sha256 = campaign_content_sha256 ?H ?m, rb_git_revision = git_revision,
         rb_recorded_at = (case recorded_at of None \<Rightarrow> cw_now w | Some t \<Rightarrow> t),
         rb_state_manifest_verified = state_ok, rb_code_identity_verified = (code = cm_code_source_sha256 ?m),
         rb_attempts = es, rb_claims = claims\<rparr> = Inr body"
    "make_campaign_report ?H body = Inr r"
    unfolding reconcile_reliability_campaign_def Let_def rbind_eq_Inr by blast
  show "valid_campaign_report ?H r" using make_campaign_report_Inr [OF *(5)] by blast
  assume "rc_campaign_passed (rb_claims (cr_body r))"
  with make_campaign_report_Inr [OF *(5)] have "rc_campaign_passed (rb_claims body)" by simp
  from passed_all_expected [OF _ this] make_report_body_Inr [OF *(4)]
  have p: "state_ok" "code = cm_code_source_sha256 ?m" "list_all (\<lambda>e. ae_disposition e = EXPECTED) es"
    "rb_attempts body = es" by auto
  have "list_all2 (\<lambda>a e. \<exists>t. ae_terminal e = Some t \<and> certified_attempt sha ps campaign a (cw_attempt w (ca_attempt_id a)) t)
      (cm_attempts ?m) es"
  proof (rule list_all2I)
    show "length (cm_attempts ?m) = length es" using reconcile_attempts_Inr [OF *(2)] by (rule list_all2_lengthD)
    show "\<forall>x \<in> set (zip (cm_attempts ?m) es). case x of (a, e) \<Rightarrow>
        \<exists>t. ae_terminal e = Some t \<and> certified_attempt sha ps campaign a (cw_attempt w (ca_attempt_id a)) t"
    proof (intro ballI, clarify)
      fix a e assume z: "(a, e) \<in> set (zip (cm_attempts ?m) es)"
      then have "fst (reconcile_attempt sha ps en campaign a (notes (ca_attempt_id a)) (cw_attempt w (ca_attempt_id a))) = Inr e"
        using reconcile_attempts_Inr [OF *(2)] by (auto simp: list_all2_iff)
      moreover have "ae_disposition e = EXPECTED" using z p(3) by (auto simp: list_all_iff dest: set_zip_rightD)
      ultimately show "\<exists>t. ae_terminal e = Some t \<and> certified_attempt sha ps campaign a (cw_attempt w (ca_attempt_id a)) t"
        using expected_is_certified by (metis prod.collapse)
    qed
  qed
  moreover have "read_regular_file (cw_state_manifest w) MANIFEST_MAX_BYTES
      = Inr (utf8_encode (dumps (campaign_manifest_json ?m)) @ [10])"
    using *(1) p(1) by (auto simp: state_manifest_verified_def split: sum.splits if_splits)
  ultimately show "campaign_certified sha ps campaign w r"
    using *(3) p(2,4) make_campaign_report_Inr [OF *(5)] by (simp add: campaign_certified_def)
qed

text \<open>C36: A report that reconciliation returns satisfies every validator of the report schema, and it says that
  the campaign passed only when the code identity is the manifest's, the state manifest on disk is
  byte for byte the canonical manifest, and every scheduled attempt, in schedule order, has the
  certified run of its own evidence.\<close>

theorem reconciled_pass_is_sound:
  "case reconcile_reliability_campaign sha ps error_name campaign notes git_revision recorded_at w of
     Inl e \<Rightarrow> True
   | Inr report \<Rightarrow>
       valid_campaign_report (json_sha256 sha) report
       \<and> (if rc_campaign_passed (rb_claims (cr_body report)) then campaign_certified sha ps campaign w report else True)"
proof (cases "reconcile_reliability_campaign sha ps error_name campaign notes git_revision recorded_at w")
  case (Inr report)
  then show ?thesis using report_is_certified [OF Inr] by simp
qed simp

end
