(* ===== verification/Recovery.thy ===== *)
theory Recovery
  imports Storage_Properties Artifact_Store_Properties
begin

text \<open>
  Model of \<open>src/src/guildmind/runtime/recovery.py\<close>: terminalizing an existing run behind a fresh audit. The
  caller's world holds the event store to be written, the storage world that audits and path
  observations see, and the answers of the maintenance lease. The guard that runs inside the write
  transaction observes the storage world at the instant of its call, so the storage may change
  between the first audit and the commit. Of a \<open>RecoveryDeniedError\<close> the reason is kept.
\<close>

datatype lease_answer =
    LeaseGranted
  | LeaseBusy maintenance_busy_reason
  | LeaseUnsafe maintenance_integrity_reason

record recovery_world =
  rv_store :: store
  rv_storage :: storage_world
  rv_base :: "nat \<Rightarrow> path_lstat"
  rv_artifacts_exist :: "nat \<Rightarrow> bool"
  rv_opens :: "nat \<Rightarrow> unit result"
  rv_lease :: "nat \<Rightarrow> lease_answer"
  rv_release :: "nat \<Rightarrow> bool"
  rv_instant :: "nat \<Rightarrow> nat"

definition on_world :: "(storage_world, 'a) op \<Rightarrow> (recovery_world, 'a) op" where
  "on_world m w = (case m (rv_storage w) of (r, s) \<Rightarrow> (r, w\<lparr>rv_storage := s\<rparr>))"

definition on_store :: "(store, 'a) op \<Rightarrow> (recovery_world, 'a) op" where
  "on_store m w = (case m (rv_store w) of (r, s) \<Rightarrow> (r, w\<lparr>rv_store := s\<rparr>))"

text \<open>One answer of the world at the current tick.\<close>

definition ask :: "(recovery_world \<Rightarrow> nat \<Rightarrow> 'a result) \<Rightarrow> (recovery_world, 'a) op" where
  "ask f w = on_world (answer (\<lambda>s. f w)) w"

text \<open>\<open>try: m except p as error: raise h(error)\<close>.\<close>

definition reraise :: "(exn \<Rightarrow> bool) \<Rightarrow> exn \<Rightarrow> ('s, 'a) op \<Rightarrow> ('s, 'a) op" where
  "reraise p e' m s = (case m s of (Inl e, t) \<Rightarrow> (Inl (if p e then e' else e), t) | r \<Rightarrow> r)"

section \<open>Path identities\<close>

record path_identity =
  pi_file_type :: "file_type option"
  pi_device :: "int option"
  pi_inode :: "int option"
  pi_error_number :: "int option"

definition path_identity_of :: "path_lstat \<Rightarrow> path_identity" where
  "path_identity_of l =
     (case l of
        PathAbsent \<Rightarrow> \<lparr>pi_file_type = None, pi_device = None, pi_inode = None, pi_error_number = None\<rparr>
      | PathFailed e \<Rightarrow>
          \<lparr>pi_file_type = None, pi_device = None, pi_inode = None,
           pi_error_number = Some (case e of None \<Rightarrow> - 1 | Some n \<Rightarrow> n)\<rparr>
      | PathFound ty device inode \<Rightarrow>
          \<lparr>pi_file_type = Some ty, pi_device = Some device, pi_inode = Some inode, pi_error_number = None\<rparr>)"

definition observe_base :: "(recovery_world, path_identity) op" where
  "observe_base = ask (\<lambda>w n. Inr (path_identity_of (rv_base w n)))"

definition observe_identity :: "storage_path \<Rightarrow> (recovery_world, path_identity) op" where
  "observe_identity p = on_world (answer (\<lambda>s n. Inr (path_identity_of (sw_lstat s n p))))"

record storage_identity =
  si_trusted_base :: path_identity
  si_state_directory :: path_identity
  si_database :: path_identity
  si_artifact_root :: path_identity
  si_wal :: path_identity
  si_shm :: path_identity
  si_journal :: path_identity

definition capture_storage_identity :: "(recovery_world, storage_identity) op" where
  "capture_storage_identity =
     sbind observe_base (\<lambda>base.
     sbind (observe_identity StateDirectory) (\<lambda>state.
     sbind (observe_identity DatabaseFile) (\<lambda>database.
     sbind (observe_identity ArtifactRoot) (\<lambda>artifact_root.
     sbind (observe_identity WalFile) (\<lambda>wal.
     sbind (observe_identity ShmFile) (\<lambda>shm.
     sbind (observe_identity JournalFile) (\<lambda>journal.
     sreturn \<lparr>si_trusted_base = base, si_state_directory = state, si_database = database,
       si_artifact_root = artifact_root, si_wal = wal, si_shm = shm, si_journal = journal\<rparr>)))))))"

definition identity_stable :: "storage_identity \<Rightarrow> storage_identity \<Rightarrow> bool \<Rightarrow> bool" where
  "identity_stable observed expected include_sidecars =
     (si_trusted_base observed = si_trusted_base expected
      \<and> si_state_directory observed = si_state_directory expected
      \<and> si_database observed = si_database expected
      \<and> si_artifact_root observed = si_artifact_root expected
      \<and> (if include_sidecars then
           si_wal observed = si_wal expected \<and> si_shm observed = si_shm expected
           \<and> si_journal observed = si_journal expected
         else True))"

definition require_storage_identity :: "storage_identity \<Rightarrow> bool \<Rightarrow> (recovery_world, unit) op" where
  "require_storage_identity expected include_sidecars =
     sbind capture_storage_identity (\<lambda>observed.
     sguard (identity_stable observed expected include_sidecars) (RecoveryDeniedError DENIED_STORAGE_CHANGED))"

section \<open>The guard inside the transaction\<close>

definition intact_audit :: "artifact_audit \<Rightarrow> bool" where
  "intact_audit audit =
     (aa_complete audit
      \<and> \<not> (list_ex (\<lambda>f. af_owners f \<noteq> []) (aa_findings audit)
           \<or> list_ex (\<lambda>r. \<not> ra_bytes_verified r) (aa_reachable audit)))"

definition verify_locked_artifacts ::
    "(nat list \<Rightarrow> string) \<Rightarrow> parsers \<Rightarrow> verified_run_root list \<Rightarrow> (recovery_world, unit) op" where
  "verify_locked_artifacts sha ps roots =
     sbind (slift (verified_run_roots_sha256 (json_sha256 sha) roots)) (\<lambda>expected_snapshot_sha256.
     sbind (ask (\<lambda>w n. Inr (rv_artifacts_exist w n))) (\<lambda>present.
     if \<not> present then
       sguard (\<not> list_ex (\<lambda>r. rm_artifacts (vrr_manifest r) \<noteq> []) roots)
         (RecoveryDeniedError DENIED_EVIDENCE_INVALID)
     else
       sbind (reraise store_open_failure (RecoveryDeniedError DENIED_EVIDENCE_INVALID)
         (sbind (on_world (answer sw_artifacts)) (\<lambda>v.
          slift (audit_artifact_store sha v ps roots)))) (\<lambda>audit.
       sthen (sguard (aa_snapshot_sha256 audit = expected_snapshot_sha256)
         (RecoveryDeniedError DENIED_STORAGE_CHANGED))
       (sguard (intact_audit audit) (RecoveryDeniedError DENIED_EVIDENCE_INVALID)))))"

definition guard_steps ::
    "(nat list \<Rightarrow> string) \<Rightarrow> parsers \<Rightarrow> storage_identity \<Rightarrow> verified_run_root list \<Rightarrow> (recovery_world, unit) op" where
  "guard_steps sha ps expected roots =
     sthen (require_storage_identity expected False)
     (sthen (verify_locked_artifacts sha ps roots)
      (require_storage_identity expected False))"

text \<open>The world as it stands at the instant of a check of the store.\<close>

definition world_at :: "recovery_world \<Rightarrow> nat \<Rightarrow> recovery_world" where
  "world_at w n = w\<lparr>rv_storage := (rv_storage w)\<lparr>sw_tick := rv_instant w n\<rparr>\<rparr>"

definition locked_guard ::
    "(nat list \<Rightarrow> string) \<Rightarrow> parsers \<Rightarrow> storage_identity \<Rightarrow> recovery_world \<Rightarrow> integrity_guard" where
  "locked_guard sha ps expected w roots n = fst (guard_steps sha ps expected roots (world_at w n))"

section \<open>Terminalization\<close>

datatype terminalization = RECOVER_INTERRUPTED | BUDGET_REFUSAL

text \<open>\<open>except (ArtifactCorruptionError, KeyError, OSError, StoreIntegrityError, ValueError, sqlite3.DatabaseError)\<close>.\<close>

definition commit_failure :: "exn \<Rightarrow> bool" where
  "commit_failure e =
     (e \<in> {ArtifactCorruptionError, KeyError, OSError, StoreIntegrityError, DatabaseError} \<or> is_value_error e)"

definition terminalize_store ::
    "(json \<Rightarrow> string) \<Rightarrow> terminalization \<Rightarrow> string \<Rightarrow> datetime \<Rightarrow> string \<Rightarrow> string \<Rightarrow> integrity_guard
      \<Rightarrow> (store, terminal_result) op" where
  "terminalize_store H operation run_id finished_at terminal_reason snapshot_sha256 guard =
     (case operation of
        RECOVER_INTERRUPTED \<Rightarrow>
          recover_run_with_events H run_id finished_at terminal_reason (Some snapshot_sha256) (Some guard)
      | BUDGET_REFUSAL \<Rightarrow>
          complete_budget_exhaustion_with_events H run_id finished_at terminal_reason (Some snapshot_sha256) (Some guard))"

definition commit_existing_fixture_terminalization ::
    "(nat list \<Rightarrow> string) \<Rightarrow> parsers \<Rightarrow> terminalization \<Rightarrow> string \<Rightarrow> string \<Rightarrow> storage_identity \<Rightarrow> string
      \<Rightarrow> (recovery_world, terminal_result) op" where
  "commit_existing_fixture_terminalization sha ps operation run_id terminal_reason expected snapshot_sha256 =
     reraise commit_failure (RecoveryDeniedError DENIED_STORAGE_CHANGED)
       (sthen (require_storage_identity expected True)
       (sthen (ask (\<lambda>w n. rv_opens w n))
       (sthen (require_storage_identity expected False)
       (sbind (on_store clock_stamp_op) (\<lambda>st.
        sbind (sget (\<lambda>w. locked_guard sha ps expected w)) (\<lambda>guard.
        on_store (terminalize_store (json_sha256 sha) operation run_id (occurred_at st) terminal_reason
          snapshot_sha256 guard)))))))"

definition denial_of_state :: "integrity_state \<Rightarrow> denial_reason" where
  "denial_of_state s = (if s = REFERENCED_EVIDENCE_INVALID then DENIED_EVIDENCE_INVALID else DENIED_NOT_RECOVERABLE)"

definition recoverable_snapshot :: "string \<Rightarrow> storage_report \<Rightarrow> ledger_snapshot result" where
  "recoverable_snapshot run_id report =
     rbind (require (sr_mutation_allowed report \<and> sr_references_verified report)
       (RecoveryDeniedError (denial_of_state (sr_state report)))) (\<lambda>_.
     rbind (of_option (RecoveryDeniedError DENIED_NOT_RECOVERABLE) (sr_ledger_snapshot report)) (\<lambda>snapshot.
     rbind (require (contains_run snapshot run_id) (RecoveryDeniedError DENIED_RUN_NOT_FOUND)) (\<lambda>_.
     Inr snapshot)))"

definition terminalize_under_shared_lease ::
    "(nat list \<Rightarrow> string) \<Rightarrow> parsers \<Rightarrow> terminalization \<Rightarrow> bool \<Rightarrow> string \<Rightarrow> string
      \<Rightarrow> (recovery_world, terminal_result) op" where
  "terminalize_under_shared_lease sha ps operation is_root run_id terminal_reason =
     sthen (sguard (\<not> is_root) (RecoveryDeniedError DENIED_NOT_RECOVERABLE))
     (sbind capture_storage_identity (\<lambda>expected.
      sbind (reraise store_open_failure (RecoveryDeniedError DENIED_NOT_RECOVERABLE)
        (on_world (audit_storage sha ps))) (\<lambda>report.
      sthen (require_storage_identity expected True)
     (sbind (slift (recoverable_snapshot run_id report)) (\<lambda>snapshot.
      commit_existing_fixture_terminalization sha ps operation run_id terminal_reason expected
        (ls_snapshot_sha256 snapshot))))))"

definition acquire_shared_lease :: "(recovery_world, unit) op" where
  "acquire_shared_lease =
     ask (\<lambda>w n. case rv_lease w n of
        LeaseGranted \<Rightarrow> Inr ()
      | LeaseBusy reason \<Rightarrow> Inl (RecoveryDeniedError DENIED_MAINTENANCE_BUSY)
      | LeaseUnsafe reason \<Rightarrow> Inl (RecoveryDeniedError DENIED_NOT_RECOVERABLE))"

text \<open>The lease is released on every way out; a failing release only shows after a success.\<close>

definition terminalize_existing_fixture_run ::
    "(nat list \<Rightarrow> string) \<Rightarrow> parsers \<Rightarrow> terminalization \<Rightarrow> bool \<Rightarrow> string \<Rightarrow> string
      \<Rightarrow> (recovery_world, terminal_result) op" where
  "terminalize_existing_fixture_run sha ps operation is_root run_id terminal_reason =
     sthen acquire_shared_lease
     (\<lambda>w. case terminalize_under_shared_lease sha ps operation is_root run_id terminal_reason w of
        (Inl e, u) \<Rightarrow> (Inl e, snd (ask (\<lambda>w n. Inr (rv_release w n)) u))
      | (Inr result, u) \<Rightarrow>
          sbind (ask (\<lambda>w n. Inr (rv_release w n))) (\<lambda>released.
          if released then sreturn result else sraise RecoveryPostCommitMaintenanceError) u)"

definition recover_existing_fixture_run ::
    "(nat list \<Rightarrow> string) \<Rightarrow> parsers \<Rightarrow> bool \<Rightarrow> string \<Rightarrow> string \<Rightarrow> (recovery_world, terminal_result) op" where
  "recover_existing_fixture_run sha ps = terminalize_existing_fixture_run sha ps RECOVER_INTERRUPTED"

definition terminalize_existing_fixture_budget_refusal ::
    "(nat list \<Rightarrow> string) \<Rightarrow> parsers \<Rightarrow> bool \<Rightarrow> string \<Rightarrow> string \<Rightarrow> (recovery_world, terminal_result) op" where
  "terminalize_existing_fixture_budget_refusal sha ps = terminalize_existing_fixture_run sha ps BUDGET_REFUSAL"

end
