(* ===== verification/Fixture.thy ===== *)
theory Fixture
  imports Artifact_Store Call_Protocol
begin

text \<open>
  Model of \<open>src/src/guildmind/runtime/fixture.py\<close> and of the results of an evaluator in
  \<open>src/src/guildmind/evaluation/local.py\<close>: a loaded fixture becomes a task whose evidence is in the artifact
  store, and an evaluation becomes a domain record. Loading a fixture from its directory is not
  modelled: a \<open>local_evaluation_spec\<close> is what \<open>load_fixture\<close> returned, with the bytes its properties read.
  \<open>loads\<close> is \<open>json.loads\<close> followed by the validation as a JSON object; its value is in canonical order.
\<close>

section \<open>Base64\<close>

definition base64_digit :: "nat \<Rightarrow> char" where
  "base64_digit n = ''ABCDEFGHIJKLMNOPQRSTUVWXYZabcdefghijklmnopqrstuvwxyz0123456789+/'' ! (n mod 64)"

fun b64encode :: "nat list \<Rightarrow> string" where
  "b64encode [] = []"
| "b64encode [a] = [base64_digit (a div 4), base64_digit (a * 16), CHR ''='', CHR ''='']"
| "b64encode [a, b] =
     [base64_digit (a div 4), base64_digit (a * 16 + b div 16), base64_digit (b * 4), CHR ''='']"
| "b64encode (a # b # c # rest) =
     [base64_digit (a div 4), base64_digit (a * 16 + b div 16), base64_digit (b * 4 + c div 64), base64_digit c]
       @ b64encode rest"

section \<open>The snapshot of a workspace\<close>

text \<open>The entries of \<open>sorted(root.rglob("*"))\<close>: a symbolic link, a file with its bytes or the error of reading
  it, or something else.\<close>

datatype workspace_entry = WorkspaceLink | WorkspaceFile "nat list result" | WorkspaceOther

definition snapshot_entry ::
    "(nat list \<Rightarrow> string) \<Rightarrow> string \<times> workspace_entry \<Rightarrow> json list \<Rightarrow> json list result" where
  "snapshot_entry sha p acc =
     (case snd p of
        WorkspaceLink \<Rightarrow> Inl ValueError
      | WorkspaceOther \<Rightarrow> Inr acc
      | WorkspaceFile r \<Rightarrow>
          rbind r (\<lambda>data. Inr (acc @ [JObj [(''content_base64'', JStr (b64encode data)), (''path'', JStr (fst p)),
            (''sha256'', JStr (sha256_bytes sha data)), (''size_bytes'', JInt (int (length data)))]])))"

definition canonical_tree_snapshot ::
    "(nat list \<Rightarrow> string) \<Rightarrow> (string \<times> workspace_entry) list \<Rightarrow> json result" where
  "canonical_tree_snapshot sha entries =
     rbind (rfold (snapshot_entry sha) entries []) (\<lambda>files.
     Inr (JObj [(''files'', JArr files), (''schema_version'', JStr ''guildmind.tree/v1'')]))"

section \<open>Materializing a task\<close>

record local_evaluation_spec =
  le_task_id :: string
  le_visible_test_files :: nat
  le_visible_test_bytes :: "nat list list"
  le_hidden_test_bytes :: "nat list list"
  le_expected_test_count :: int
  le_python_call_protocol :: "python_call_protocol option"
  le_pristine_workspace_sha256 :: "string option"
  le_task_content_hash :: "string option"
  le_fixture_manifest_bytes :: "nat list option"
  le_snapshot_bytes :: "nat list option"

text \<open>What reading the fixture directory gives besides: \<open>task.json\<close>, and the entries of the workspace.\<close>

record fixture_directory =
  fd_name :: string
  fd_task_json :: "nat list result"
  fd_workspace :: "(string \<times> workspace_entry) list"

definition problem_statement_of :: "json dict \<Rightarrow> string result" where
  "problem_statement_of raw_manifest =
     (case map_of raw_manifest ''problem_statement'' of
        Some (JStr s) \<Rightarrow> if py_strip s = [] then Inl ValueError else Inr s
      | _ \<Rightarrow> Inl ValueError)"

definition visible_paths_of :: "json dict \<Rightarrow> string list result" where
  "visible_paths_of raw_manifest =
     (case map_of raw_manifest ''visible_test_files'' of
        None \<Rightarrow> Inr []
      | Some (JArr items) \<Rightarrow>
          rfold (\<lambda>item paths. case item of JStr s \<Rightarrow> Inr (paths @ [s]) | _ \<Rightarrow> Inl ValueError) items []
      | Some _ \<Rightarrow> Inl ValueError)"

definition snapshot_bytes_of ::
    "(nat list \<Rightarrow> string) \<Rightarrow> fixture_directory \<Rightarrow> local_evaluation_spec \<Rightarrow> nat list result" where
  "snapshot_bytes_of sha d spec =
     (case le_snapshot_bytes spec of
        Some bytes \<Rightarrow> Inr bytes
      | None \<Rightarrow> rbind (canonical_tree_snapshot sha (fd_workspace d)) (\<lambda>j. Inr (utf8_encode (dumps j))))"

fun put_all ::
    "(nat list \<Rightarrow> string) \<Rightarrow> string \<Rightarrow> nat list list \<Rightarrow> (artifact_fs, artifact_ref list) op" where
  "put_all sha media_type [] = sreturn []"
| "put_all sha media_type (data # rest) =
     sbind (put_bytes sha data media_type) (\<lambda>reference.
     sbind (put_all sha media_type rest) (\<lambda>references. sreturn (reference # references)))"

definition protocol_identity ::
    "(nat list \<Rightarrow> string) \<Rightarrow> (nat list \<Rightarrow> json_text result) \<Rightarrow> local_evaluation_spec \<Rightarrow> json result" where
  "protocol_identity sha loads_text spec =
     (case le_python_call_protocol spec of
        None \<Rightarrow> Inr JNull
      | Some p \<Rightarrow>
          rbind (load_python_call_bundle sha loads_text p (le_expected_test_count spec)) (\<lambda>bundle.
          Inr (JObj [(''challenge_sha256'', JStr (pb_challenge_sha256 bundle)),
            (''oracle_sha256'', JStr (pb_oracle_sha256 bundle)), (''protocol'', JStr ''python-call-v1'')])))"

definition make_task_spec :: "task_spec \<Rightarrow> task_spec result" where
  "make_task_spec t =
     (let s = t\<lparr>ts_task_id := strip_whitespace (ts_task_id t), ts_source := strip_whitespace (ts_source t),
                ts_split := strip_whitespace (ts_split t), ts_repository := strip_whitespace (ts_repository t),
                ts_repository_commit := strip_whitespace (ts_repository_commit t)\<rparr>
      in if valid_task_spec s then Inr s else Inl ValidationError)"

definition task_identity_json :: "json \<Rightarrow> json dict \<Rightarrow> string list \<Rightarrow> string \<Rightarrow> json" where
  "task_identity_json protocol raw_manifest hidden_hashes snapshot_sha256 =
     JObj [(''evaluation_protocol'', protocol), (''fixture_manifest'', JObj raw_manifest),
       (''hidden_test_hashes'', JArr (map JStr hidden_hashes)),
       (''repository_snapshot_sha256'', JStr snapshot_sha256)]"

definition materialize_fixture_task ::
    "(nat list \<Rightarrow> string) \<Rightarrow> (nat list \<Rightarrow> json_text result) \<Rightarrow> (nat list \<Rightarrow> json dict result) \<Rightarrow> fixture_directory
      \<Rightarrow> local_evaluation_spec result \<Rightarrow> string \<Rightarrow> string
      \<Rightarrow> (artifact_fs, task_spec \<times> local_evaluation_spec \<times> string) op" where
  "materialize_fixture_task sha loads_text loads d loaded evaluator_version environment_digest =
     sbind (slift loaded) (\<lambda>spec.
     sbind (slift (case le_fixture_manifest_bytes spec of Some bytes \<Rightarrow> Inr bytes | None \<Rightarrow> fd_task_json d)) (\<lambda>manifest_bytes.
     sbind (slift (loads manifest_bytes)) (\<lambda>raw_manifest.
     sbind (slift (problem_statement_of raw_manifest)) (\<lambda>problem_statement.
     sbind (slift (snapshot_bytes_of sha d spec)) (\<lambda>snapshot_bytes.
     sbind (put_bytes sha snapshot_bytes ''application/vnd.guildmind.tree+json'') (\<lambda>repository_snapshot.
     sthen (sguard (case le_pristine_workspace_sha256 spec of None \<Rightarrow> True
         | Some digest \<Rightarrow> digest = ar_sha256 repository_snapshot) ValueError)
     (sbind (put_text sha problem_statement ''text/plain; charset=utf-8'') (\<lambda>problem_artifact.
      sbind (slift (visible_paths_of raw_manifest)) (\<lambda>visible_paths.
      sthen (sguard (length visible_paths = le_visible_test_files spec) ValueError)
     (sbind (put_all sha ''text/x-python'' (le_visible_test_bytes spec)) (\<lambda>visible_tests.
      sbind (slift (protocol_identity sha loads_text spec)) (\<lambda>protocol.
      let task_hash = json_sha256 sha (task_identity_json protocol raw_manifest
            (map (sha256_bytes sha) (le_hidden_test_bytes spec)) (ar_sha256 repository_snapshot)) in
      sbind (slift (make_task_spec
        \<lparr>ts_task_id = le_task_id spec, ts_source = ''guildmind-fixture-v1'', ts_split = ''fixture'',
         ts_repository = ''guildmind/fixtures/'' @ fd_name d, ts_repository_commit = ''fixture-v1'',
         ts_image_digest = environment_digest, ts_task_content_hash = task_hash,
         ts_problem_statement = problem_artifact, ts_repository_snapshot = repository_snapshot,
         ts_visible_tests = visible_tests,
         ts_metadata = [(''evaluator_version'', JStr evaluator_version), (''network_required'', JBool False)]\<rparr>)) (\<lambda>task.
      sreturn (task, spec\<lparr>le_pristine_workspace_sha256 := Some (ar_sha256 repository_snapshot),
        le_task_content_hash := Some task_hash\<rparr>, problem_statement))))))))))))))"

section \<open>Evaluation results\<close>

datatype evaluation_status =
    EvaluationPassed
  | TestsFailed
  | InvalidPatch
  | PatchApplyFailed
  | EvaluationTimedOut
  | OutputExhausted
  | OomKilled
  | EvaluationInfrastructureError

fun evaluation_status_value :: "evaluation_status \<Rightarrow> string" where
  "evaluation_status_value EvaluationPassed = ''passed''"
| "evaluation_status_value TestsFailed = ''tests_failed''"
| "evaluation_status_value InvalidPatch = ''invalid_patch''"
| "evaluation_status_value PatchApplyFailed = ''patch_apply_failed''"
| "evaluation_status_value EvaluationTimedOut = ''timed_out''"
| "evaluation_status_value OutputExhausted = ''output_exhausted''"
| "evaluation_status_value OomKilled = ''oom_killed''"
| "evaluation_status_value EvaluationInfrastructureError = ''infrastructure_error''"

record local_evaluation_result =
  lr_task_id :: string
  lr_status :: evaluation_status
  lr_exit_code :: "int option"
  lr_stdout :: string
  lr_stderr :: string
  lr_output_truncated :: bool
  lr_execution :: "json dict"
  lr_raw_candidate_stdout :: "nat list option"
  lr_raw_scorer_stdout :: "nat list option"

definition LocalEvaluationResult :: "local_evaluation_result \<Rightarrow> local_evaluation_result result" where
  "LocalEvaluationResult r =
     (if lr_raw_scorer_stdout r \<noteq> None \<and> lr_raw_candidate_stdout r = None then Inl ValueError else Inr r)"

definition make_evaluation_result :: "(json \<Rightarrow> string) \<Rightarrow> evaluation_result \<Rightarrow> evaluation_result result" where
  "make_evaluation_result H e =
     (let s = e\<lparr>er_evaluation_id := strip_whitespace (er_evaluation_id e),
                er_run_id := strip_whitespace (er_run_id e),
                er_evaluator_version := strip_whitespace (er_evaluator_version e),
                er_signature := map_option strip_whitespace (er_signature e)\<rparr>
      in if valid_evaluation_result H s then Inr s else Inl ValidationError)"

definition outcome_and_score :: "evaluation_status \<Rightarrow> evaluation_outcome \<times> rat option" where
  "outcome_and_score status =
     (if status = EvaluationPassed then (Passed, Some 1)
      else if status \<noteq> EvaluationInfrastructureError then (Failed, Some 0)
      else (Error, None))"

definition result_payload :: "local_evaluation_result \<Rightarrow> json dict" where
  "result_payload r =
     [(''execution'', JObj (lr_execution r)), (''exit_code'', opt_json JInt (lr_exit_code r)),
      (''output_truncated'', JBool (lr_output_truncated r)),
      (''status'', JStr (evaluation_status_value (lr_status r))), (''stderr'', JStr (lr_stderr r)),
      (''stdout'', JStr (lr_stdout r))]"

definition to_domain_result ::
    "(json \<Rightarrow> string) \<Rightarrow> local_evaluation_result \<Rightarrow> task_spec \<Rightarrow> string \<Rightarrow> string \<Rightarrow> run_status \<Rightarrow> string \<Rightarrow> string
      \<Rightarrow> datetime \<Rightarrow> evaluation_result result" where
  "to_domain_result H r task evaluation_id run_id status evaluator_version patch_hash evaluated_at =
     rbind (require (ts_task_id task = lr_task_id r) ValueError) (\<lambda>_.
     case outcome_and_score (lr_status r) of (outcome, score) \<Rightarrow>
       make_evaluation_result H
         \<lparr>er_evaluation_id = evaluation_id, er_run_id = run_id, er_run_status = status,
          er_evaluator_version = evaluator_version, er_task_hash = ts_task_content_hash task,
          er_patch_hash = Some patch_hash, er_outcome = outcome, er_score = score,
          er_result = result_payload r, er_result_sha256 = H (JObj (result_payload r)), er_evidence = [],
          er_evaluated_at = evaluated_at, er_signature = None\<rparr>)"

end
