(* ===== verification/Runner.thy ===== *)
theory Runner
  imports Recovery Fixture Budget
begin

text \<open>
  Model of \<open>src/src/guildmind/runtime/runner.py\<close> and of the protocols it is written against
  (\<open>src/src/guildmind/models/base.py\<close>, \<open>src/src/guildmind/evaluation/base.py\<close>): one fixture from its
  materialization to its terminal event. The world of a runner is the recovery world (event store,
  storage and lease) with the artifact files, and the local variables of a run: its budget authority
  and its two flags. The model provider and the evaluator are arguments; \<open>rn_calls\<close> is the provider's log,
  the committed database at the time of each request.
\<close>

section \<open>The interfaces of the provider and the evaluator\<close>

record model_response =
  mre_patch :: "nat list"
  mre_usage :: budget_usage
  mre_returned_model :: string

record model_client =
  mc_model_id :: string
  mc_maximum_usage :: budget_usage
  mc_propose_patch :: "string \<Rightarrow> model_response result"

record evaluator =
  ev_evaluator_version :: string
  ev_environment_digest :: string
  ev_evaluate :: "local_evaluation_spec \<Rightarrow> fs_path \<Rightarrow> string \<Rightarrow> local_evaluation_result result"

text \<open>\<open>ScriptedPatchModel\<close>; \<open>read_patch\<close> is the result of reading the patch file.\<close>

definition scripted_maximum_usage :: budget_usage where
  "scripted_maximum_usage = empty_usage\<lparr>uncached_input_tokens := 64, output_tokens := 64, model_calls := 1\<rparr>"

definition scripted_actual_usage :: budget_usage where
  "scripted_actual_usage = empty_usage\<lparr>uncached_input_tokens := 24, output_tokens := 16, model_calls := 1\<rparr>"

definition ScriptedPatchModel ::
    "nat list result \<Rightarrow> string \<Rightarrow> budget_usage option \<Rightarrow> budget_usage option \<Rightarrow> model_client" where
  "ScriptedPatchModel read_patch model_id maximum_usage actual_usage =
     \<lparr>mc_model_id = model_id,
      mc_maximum_usage = (case maximum_usage of None \<Rightarrow> scripted_maximum_usage | Some u \<Rightarrow> u),
      mc_propose_patch = (\<lambda>problem_statement.
        rbind (require (py_strip problem_statement \<noteq> []) ValueError) (\<lambda>_.
        rbind read_patch (\<lambda>patch.
        Inr \<lparr>mre_patch = patch,
          mre_usage = (case actual_usage of None \<Rightarrow> scripted_actual_usage | Some u \<Rightarrow> u),
          mre_returned_model = model_id\<rparr>)))\<rparr>"

section \<open>The world of a run\<close>

record runner_world =
  rn_recovery :: recovery_world
  rn_artifacts :: artifact_fs
  rn_authority :: budget_authority
  rn_run_created :: bool
  rn_reservation_refused :: bool
  rn_calls :: "database list"

definition on_recovery :: "(recovery_world, 'a) op \<Rightarrow> (runner_world, 'a) op" where
  "on_recovery m w = (case m (rn_recovery w) of (r, s) \<Rightarrow> (r, w\<lparr>rn_recovery := s\<rparr>))"

definition on_artifacts :: "(artifact_fs, 'a) op \<Rightarrow> (runner_world, 'a) op" where
  "on_artifacts m w = (case m (rn_artifacts w) of (r, s) \<Rightarrow> (r, w\<lparr>rn_artifacts := s\<rparr>))"

definition on_authority :: "(budget_authority, 'a) op \<Rightarrow> (runner_world, 'a) op" where
  "on_authority m w = (case m (rn_authority w) of (r, s) \<Rightarrow> (r, w\<lparr>rn_authority := s\<rparr>))"

abbreviation on_events :: "(store, 'a) op \<Rightarrow> (runner_world, 'a) op" where
  "on_events m \<equiv> on_recovery (on_store m)"

definition current_database :: "runner_world \<Rightarrow> database" where
  "current_database w = st_db (rv_store (rn_recovery w))"

definition propose_patch :: "model_client \<Rightarrow> string \<Rightarrow> (runner_world, model_response) op" where
  "propose_patch model problem_statement w =
     (mc_propose_patch model problem_statement, w\<lparr>rn_calls := rn_calls w @ [current_database w]\<rparr>)"

definition now :: "(runner_world, datetime) op" where
  "now = sbind (on_events clock_stamp_op) (\<lambda>st. sreturn (occurred_at st))"

section \<open>One run\<close>

fun terminal_status :: "evaluation_status \<Rightarrow> run_status" where
  "terminal_status EvaluationPassed = SUCCEEDED"
| "terminal_status EvaluationTimedOut = TIMED_OUT"
| "terminal_status EvaluationInfrastructureError = INFRASTRUCTURE_ERROR"
| "terminal_status _ = FAILED"

record run_request =
  rq_run_id :: string
  rq_code_revision :: string
  rq_experiment_id :: string
  rq_candidate_id :: string
  rq_seed :: int
  rq_budget_limits :: "budget_limits option"

definition default_limits :: budget_limits where
  "default_limits =
     \<lparr>max_input_tokens = None, max_output_tokens = None, max_total_tokens = Some 128, max_model_calls = Some 1,
      max_model_retries = Some 0, max_tool_calls = Some 0, max_tool_cpu_seconds = None,
      max_container_wall_seconds = None, max_elapsed_seconds = None, max_estimated_cost_usd = None\<rparr>"

definition pending_manifest :: "run_request \<Rightarrow> model_client \<Rightarrow> task_spec \<Rightarrow> budget_limits \<Rightarrow> datetime \<Rightarrow> run_manifest" where
  "pending_manifest rq model task limits created_at =
     \<lparr>rm_run_id = rq_run_id rq, rm_experiment_id = rq_experiment_id rq, rm_task_id = ts_task_id task,
      rm_candidate_id = rq_candidate_id rq, rm_genome_hash = None, rm_requested_model = mc_model_id model,
      rm_returned_model = None, rm_model_parameters = [], rm_seed = rq_seed rq,
      rm_environment_digest = ts_image_digest task, rm_code_revision = rq_code_revision rq,
      rm_budget_limits = limits, rm_status = PENDING, rm_created_at = created_at, rm_started_at = None,
      rm_finished_at = None, rm_terminal_reason = None, rm_artifacts = []\<rparr>"

definition reservation_id :: string where
  "reservation_id = ''model-request-0001''"

text \<open>Creating and starting the run, and recording its task.\<close>

definition begin_run ::
    "(json \<Rightarrow> string) \<Rightarrow> run_manifest \<Rightarrow> string \<Rightarrow> string \<Rightarrow> artifact_ref \<Rightarrow> (runner_world, unit) op" where
  "begin_run H pending run_id requested_model task_artifact =
     sthen (on_events (create_run H pending))
     (sthen (smodify (\<lambda>w. w\<lparr>rn_run_created := True\<rparr>))
     (sbind now (\<lambda>started_at.
      sthen (on_events (start_run H run_id started_at requested_model))
     (sthen (on_events (record_artifact H run_id ''task_spec'' task_artifact)) (sreturn ())))))"

text \<open>Reserving: a refusal sets \<open>reservation_refused\<close> and is raised again.\<close>

definition reserve_request :: "budget_usage \<Rightarrow> (runner_world, unit) op" where
  "reserve_request maximum w =
     (case on_authority (reserve reservation_id maximum) w of
        (Inl (BudgetExceededError names), u) \<Rightarrow> (Inl (BudgetExceededError names), u\<lparr>rn_reservation_refused := True\<rparr>)
      | r \<Rightarrow> r)"

text \<open>Requesting one patch: reserve, record the request, call the provider, store the patch, reconcile, and
  record the response.\<close>

definition request_patch ::
    "(nat list \<Rightarrow> string) \<Rightarrow> string \<Rightarrow> model_client \<Rightarrow> string \<Rightarrow> (runner_world, artifact_ref) op" where
  "request_patch sha run_id model problem_statement =
     (let H = json_sha256 sha; maximum_usage = mc_maximum_usage model in
      sthen (reserve_request maximum_usage)
     (sbind (on_authority (sread reserved)) (\<lambda>reserved_before.
      sbind (sget (\<lambda>w. ba_used (rn_authority w))) (\<lambda>used_before.
      sthen (on_events (start_model_request H run_id reservation_id maximum_usage used_before reserved_before))
     (sbind (propose_patch model problem_statement) (\<lambda>response.
      sbind (on_artifacts (put_bytes sha (mre_patch response) ''text/x-diff; charset=utf-8'')) (\<lambda>patch_artifact.
      sthen (on_authority (reconcile reservation_id (mre_usage response)))
     (sbind (on_authority (sread reserved)) (\<lambda>reserved_after.
      sbind (sget (\<lambda>w. ba_used (rn_authority w))) (\<lambda>used_after.
      sthen (on_events (complete_model_response H run_id reservation_id (mre_returned_model response)
        (mre_usage response) patch_artifact used_after reserved_after))
     (sreturn patch_artifact)))))))))))"

text \<open>The transcripts of the evaluation that exist, stored in this order.\<close>

definition put_transcript ::
    "(nat list \<Rightarrow> string) \<Rightarrow> string \<Rightarrow> nat list option \<Rightarrow> artifact_ref list \<times> artifact_ref dict
      \<Rightarrow> (runner_world, artifact_ref list \<times> artifact_ref dict) op" where
  "put_transcript sha name transcript acc =
     (case transcript of
        None \<Rightarrow> sreturn acc
      | Some data \<Rightarrow>
          sbind (on_artifacts (put_bytes sha data ''application/octet-stream'')) (\<lambda>reference.
          sreturn (fst acc @ [reference], dict_set name reference (snd acc))))"

definition store_evidence ::
    "(nat list \<Rightarrow> string) \<Rightarrow> local_evaluation_result \<Rightarrow> (runner_world, artifact_ref list \<times> artifact_ref dict) op" where
  "store_evidence sha r =
     sbind (on_artifacts (put_text sha (lr_stdout r) ''text/plain; charset=utf-8'')) (\<lambda>stdout_artifact.
     sbind (on_artifacts (put_text sha (lr_stderr r) ''text/plain; charset=utf-8'')) (\<lambda>stderr_artifact.
     sbind (put_transcript sha ''evaluation_candidate_stdout'' (lr_raw_candidate_stdout r)
       ([stdout_artifact, stderr_artifact],
        [(''evaluation_stderr'', stderr_artifact), (''evaluation_stdout'', stdout_artifact)])) (\<lambda>acc.
     put_transcript sha ''evaluation_scorer_stdout'' (lr_raw_scorer_stdout r) acc)))"

definition evaluate_patch ::
    "(nat list \<Rightarrow> string) \<Rightarrow> evaluator \<Rightarrow> local_evaluation_spec \<Rightarrow> artifact_ref \<Rightarrow> (runner_world, local_evaluation_result) op" where
  "evaluate_patch sha ev spec patch_artifact =
     sthen (on_artifacts (verify_artifact sha patch_artifact))
     (sbind (on_artifacts (path_for patch_artifact)) (\<lambda>p.
      sbind (slift (ev_evaluate ev spec p (ar_sha256 patch_artifact))) (\<lambda>r.
      slift (LocalEvaluationResult r))))"

text \<open>Evaluating the patch and committing the terminal state.\<close>

definition evaluation_payload_of :: "evaluation_result \<Rightarrow> local_evaluation_result \<Rightarrow> json dict" where
  "evaluation_payload_of evaluation r =
     [(''outcome'', JStr (outcome_value (er_outcome evaluation))),
      (''result_sha256'', JStr (er_result_sha256 evaluation)),
      (''score'', opt_json JFloat (er_score evaluation)),
      (''status'', JStr (evaluation_status_value (lr_status r)))]"

definition finish_run ::
    "(nat list \<Rightarrow> string) \<Rightarrow> evaluator \<Rightarrow> string \<Rightarrow> task_spec \<Rightarrow> local_evaluation_spec \<Rightarrow> artifact_ref
      \<Rightarrow> (runner_world, evaluation_result \<times> terminal_result) op" where
  "finish_run sha ev run_id task spec patch_artifact =
     (let H = json_sha256 sha in
      sbind (evaluate_patch sha ev spec patch_artifact) (\<lambda>r.
      let status = terminal_status (lr_status r) in
      sbind now (\<lambda>evaluated_at.
      sbind (slift (to_domain_result H r task (run_id @ '':evaluation:0001'') run_id status
        (ev_evaluator_version ev) (ar_sha256 patch_artifact) evaluated_at)) (\<lambda>evaluation0.
      sbind (store_evidence sha r) (\<lambda>(evidence, artifacts0).
      sbind (slift (make_evaluation_result H (evaluation0\<lparr>er_evidence := evidence\<rparr>))) (\<lambda>evaluation.
      sbind (on_artifacts (put_text sha (dumps (evaluation_result_json evaluation))
        ''application/vnd.guildmind.evaluation+json'')) (\<lambda>evaluation_artifact.
      sbind now (\<lambda>finished_at.
      sbind (on_authority (sread reserved)) (\<lambda>budget_reserved.
      sbind (sget (\<lambda>w. ba_used (rn_authority w))) (\<lambda>budget_used.
      sbind (on_events (complete_evaluation_with_events H run_id
        (dict_set ''evaluation'' evaluation_artifact artifacts0) (evaluation_payload_of evaluation r) status finished_at
        (if status = SUCCEEDED then None else Some (evaluation_status_value (lr_status r)))
        budget_used budget_reserved)) (\<lambda>terminal.
      sreturn (evaluation, terminal))))))))))))"

text \<open>The body of the \<open>try\<close>: opening the event store and everything inside it.\<close>

definition run_in_store ::
    "(nat list \<Rightarrow> string) \<Rightarrow> model_client \<Rightarrow> evaluator \<Rightarrow> run_manifest \<Rightarrow> string \<Rightarrow> task_spec
      \<Rightarrow> local_evaluation_spec \<Rightarrow> string \<Rightarrow> artifact_ref \<Rightarrow> (runner_world, evaluation_result \<times> terminal_result) op" where
  "run_in_store sha model ev pending run_id task spec problem_statement task_artifact =
     sthen (on_recovery (ask (\<lambda>w n. rv_opens w n)))
     (sthen (begin_run (json_sha256 sha) pending run_id (mc_model_id model) task_artifact)
     (sbind (request_patch sha run_id model problem_statement) (\<lambda>patch_artifact.
      finish_run sha ev run_id task spec patch_artifact)))"

text \<open>The two \<open>except\<close> clauses: what happens to the run before the exception is raised again. Failures of the
  terminalization are only noted on the exception.\<close>

definition is_budget_exceeded :: "exn \<Rightarrow> bool" where
  "is_budget_exceeded e = (case e of BudgetExceededError names \<Rightarrow> True | _ \<Rightarrow> False)"

definition after_exception ::
    "(nat list \<Rightarrow> string) \<Rightarrow> parsers \<Rightarrow> bool \<Rightarrow> string \<Rightarrow> exn \<Rightarrow> runner_world \<Rightarrow> runner_world" where
  "after_exception sha ps is_root run_id e w =
     (if is_budget_exceeded e \<and> rn_reservation_refused w then
        snd (on_recovery (terminalize_existing_fixture_budget_refusal sha ps is_root run_id ''model_reservation_refused'') w)
      else if rn_run_created w then
        snd (on_recovery (recover_existing_fixture_run sha ps is_root run_id ''runner_exception'') w)
      else w)"

record fixture_run_result =
  fr_task :: task_spec
  fr_manifest :: run_manifest
  fr_evaluation :: evaluation_result
  fr_events :: "event_record list"
  fr_replay :: replay_state
  fr_semantic_digest :: string

definition require_state_identity :: "int \<times> int \<Rightarrow> (recovery_world, unit) op" where
  "require_state_identity expected =
     sbind (observe_identity StateDirectory) (\<lambda>observed.
     sguard (pi_file_type observed = Some FDirectory \<and> pi_device observed = Some (fst expected)
       \<and> pi_inode observed = Some (snd expected)) ArtifactCorruptionError)"

text \<open>What the runner is given: the paths come down to whether the state directory is a file system root and
  its identity at initialization; \<open>stores_opened\<close> is the result of opening the artifact store.\<close>

record runner_setup =
  ru_is_root :: bool
  ru_state_identity :: "int \<times> int"
  ru_artifact_store :: "unit result"
  ru_directory :: fixture_directory
  ru_loaded :: "local_evaluation_spec result"
  ru_loads_text :: "nat list \<Rightarrow> json_text result"
  ru_loads :: "nat list \<Rightarrow> json dict result"

definition run_with_shared_lease ::
    "(nat list \<Rightarrow> string) \<Rightarrow> parsers \<Rightarrow> runner_setup \<Rightarrow> model_client \<Rightarrow> evaluator \<Rightarrow> run_request
      \<Rightarrow> (runner_world, fixture_run_result) op" where
  "run_with_shared_lease sha ps ru model ev rq =
     sthen (on_recovery (require_state_identity (ru_state_identity ru)))
     (sthen (slift (ru_artifact_store ru))
     (sbind (on_artifacts (materialize_fixture_task sha (ru_loads_text ru) (ru_loads ru) (ru_directory ru) (ru_loaded ru)
        (ev_evaluator_version ev) (ev_environment_digest ev))) (\<lambda>(task, spec, problem_statement).
      sbind (on_artifacts (put_text sha (dumps (task_spec_json task)) ''application/vnd.guildmind.task+json'')) (\<lambda>task_artifact.
      let limits = (case rq_budget_limits rq of None \<Rightarrow> default_limits | Some l \<Rightarrow> l) in
      sthen (smodify (\<lambda>w. w\<lparr>rn_authority := BudgetAuthority limits, rn_run_created := False,
        rn_reservation_refused := False\<rparr>))
     (sbind now (\<lambda>created_at.
      sbind (slift (validate_manifest (pending_manifest rq model task limits created_at))) (\<lambda>pending.
      sbind (\<lambda>w. case run_in_store sha model ev pending (rq_run_id rq) task spec problem_statement task_artifact w of
          (Inl e, u) \<Rightarrow> (Inl e, after_exception sha ps (ru_is_root ru) (rq_run_id rq) e u)
        | r \<Rightarrow> r) (\<lambda>(evaluation, manifest, events).
      sbind (slift (replay_events (json_sha256 sha) True events)) (\<lambda>replay.
      sbind (slift (semantic_digest (json_sha256 sha) events)) (\<lambda>digest.
      sreturn \<lparr>fr_task = task, fr_manifest = manifest, fr_evaluation = evaluation, fr_events = events,
        fr_replay = replay, fr_semantic_digest = digest\<rparr>))))))))))"

definition acquire_run_lease :: "(recovery_world, unit) op" where
  "acquire_run_lease =
     ask (\<lambda>w n. case rv_lease w n of
        LeaseGranted \<Rightarrow> Inr ()
      | LeaseBusy reason \<Rightarrow> Inl (MaintenanceBusyError reason)
      | LeaseUnsafe reason \<Rightarrow> Inl (MaintenanceIntegrityError reason))"

definition run_fixture ::
    "(nat list \<Rightarrow> string) \<Rightarrow> parsers \<Rightarrow> runner_setup \<Rightarrow> model_client \<Rightarrow> evaluator \<Rightarrow> run_request
      \<Rightarrow> (runner_world, fixture_run_result) op" where
  "run_fixture sha ps ru model ev rq =
     sthen (on_recovery (require_state_identity (ru_state_identity ru)))
     (sthen (on_recovery acquire_run_lease)
     (\<lambda>w. case run_with_shared_lease sha ps ru model ev rq w of
        (Inl e, u) \<Rightarrow> (Inl e, snd (on_recovery (ask (\<lambda>w n. Inr (rv_release w n))) u))
      | (Inr result, u) \<Rightarrow>
          sbind (on_recovery (ask (\<lambda>w n. Inr (rv_release w n)))) (\<lambda>released.
          if released then sreturn result else sraise FixtureRunPostCommitMaintenanceError) u))"

end
