(* ===== verification/Recovery_Properties.thy ===== *)
theory Recovery_Properties
  imports Recovery
begin

text \<open>
  Properties of the guarded recovery: what raises before the commit changes nothing, and what commits has
  been audited before the transaction and again, on the very roots that are committed, inside it.
\<close>

section \<open>The store\<close>

lemma transition_manifest_status:
  "transition_manifest f m = Inr m' \<Longrightarrow> rm_status m' = rm_status (f m)"
  by (auto simp: transition_manifest_def validate_manifest_def strip_manifest_def Let_def result_simps split: if_splits)

definition terminal_outcome ::
    "(json \<Rightarrow> string) \<Rightarrow> string \<Rightarrow> run_manifest \<Rightarrow> event_record list \<Rightarrow> database \<Rightarrow> bool" where
  "terminal_outcome H run_id m es db =
     (is_terminal (rm_status m) \<and> validate_terminal_state_locked H db run_id m = Inr ()
      \<and> list_events_locked H db run_id = Inr es)"

lemma recover_interrupted_outcome:
  assumes "recover_interrupted H run_id f reason current state s = (Inr (m, es), t)"
  shows "terminal_outcome H run_id m es (st_db t)"
  using assms
  by (auto simp: recover_interrupted_def terminal_result_of_def terminal_outcome_def result_simps
      dest!: transition_manifest_status split: prod.splits if_splits)

lemma exhaust_budget_outcome:
  assumes "exhaust_budget H run_id f reason current state s = (Inr (m, es), t)"
  shows "terminal_outcome H run_id m es (st_db t)"
  using assms
  by (auto simp: exhaust_budget_def terminal_result_of_def terminal_outcome_def result_simps
      dest!: transition_manifest_status split: prod.splits if_splits)

lemma already_terminal_outcome:
  assumes "sthen (read_db (\<lambda>db. validate_terminal_state_locked H db run_id current))
      (terminal_result_of H run_id current) s = (Inr (m, es), t)" and "is_terminal (rm_status current)"
  shows "terminal_outcome H run_id m es (st_db t)"
  using assms by (auto simp: terminal_result_of_def terminal_outcome_def result_simps)

lemma check_expected_snapshot_Inr:
  assumes "check_expected_snapshot H (Some snap) (Some g) s = (Inr u, t)"
  shows "st_db t = st_db s \<and> (\<exists>roots. verified_roots H (st_db s) = Inr roots \<and> verified_run_roots_sha256 H roots = Inr snap)"
  using assms by (auto simp: check_expected_snapshot_def result_simps run_guard_Inr)

lemma terminalize_store_Inr:
  assumes "terminalize_store H operation run_id f reason snap g s = (Inr (m, es), t)"
  shows "terminal_outcome H run_id m es (st_db t)"
    and "\<exists>roots. verified_roots H (st_db s) = Inr roots \<and> verified_run_roots_sha256 H roots = Inr snap"
    and "\<exists>roots n. verified_roots H (st_db t) = Inr roots \<and> g roots n = Inr ()"
proof -
  define finish where "finish = (\<lambda>current state. case operation of
      RECOVER_INTERRUPTED \<Rightarrow> recover_interrupted H run_id f reason current state
    | BUDGET_REFUSAL \<Rightarrow> exhaust_budget H run_id f reason current state)"
  define body where "body = sthen validate_schema_locked
      (sthen (check_expected_snapshot H (Some snap) (Some g))
      (sbind (read_db (\<lambda>db. load_manifest_locked H db run_id)) (\<lambda>current.
       sbind (read_db (\<lambda>db. validated_state_locked H db run_id current)) (\<lambda>state.
       if is_terminal (rm_status current) then
         sthen (read_db (\<lambda>db. validate_terminal_state_locked H db run_id current))
         (terminal_result_of H run_id current)
       else finish current state))))"
  have "terminalize_store H operation run_id f reason snap g =
      sthen (slift (check_terminalization_arguments reason (Some snap) (Some g))) (transaction H (Some g) body)"
    by (cases operation) (simp_all add: terminalize_store_def recover_run_with_events_def
        complete_budget_exhaustion_with_events_def body_def finish_def cong: if_cong)
  with assms have "transaction H (Some g) body s = (Inr (m, es), t)"
    by (auto simp: result_simps)
  then obtain u v roots' where t: "st_db u = st_db s" "body u = (Inr (m, es), v)" "st_db t = st_db v"
      "verified_roots H (st_db t) = Inr roots'" "\<exists>n. g roots' n = Inr ()"
    by (elim transaction_Inr) auto
  from t(2) obtain x y where c: "check_expected_snapshot H (Some snap) (Some g) x = (Inr (), y)" "st_db x = st_db u"
    by (auto simp: body_def result_simps)
  have outcome: "terminal_outcome H run_id m es (st_db v)"
    if "finish current state z = (Inr (m, es), v)" for current state z
    using that recover_interrupted_outcome exhaust_budget_outcome
    by (cases operation) (auto simp: finish_def)
  obtain current state z where "(if is_terminal (rm_status current) then
         sthen (read_db (\<lambda>db. validate_terminal_state_locked H db run_id current))
         (terminal_result_of H run_id current)
       else finish current state) z = (Inr (m, es), v)"
    using t(2) unfolding body_def sthen_Inr sbind_Inr by (elim exE conjE)
  then show "terminal_outcome H run_id m es (st_db t)"
    using t(3) outcome [of current state z] already_terminal_outcome [of H run_id current z m es v]
    by (cases "is_terminal (rm_status current)") simp_all
  show "\<exists>roots. verified_roots H (st_db s) = Inr roots \<and> verified_run_roots_sha256 H roots = Inr snap"
    using check_expected_snapshot_Inr [OF c(1)] c(2) t(1) by simp
  show "\<exists>roots n. verified_roots H (st_db t) = Inr roots \<and> g roots n = Inr ()"
    using t(4,5) by blast
qed

lemma terminalize_store_atomic: "atomic (terminalize_store H operation run_id f reason snap g)"
  by (cases operation) (simp_all add: terminalize_store_def operation_defs atomic_guard atomic_transaction)

section \<open>The guard\<close>

text \<open>What the guard has seen when it passes: no run of the ledger has artifacts, or an audit of the artifact
  store as it was at some instant found every reachable artifact of these roots intact.\<close>

definition evidence_intact ::
    "(nat list \<Rightarrow> string) \<Rightarrow> parsers \<Rightarrow> (nat \<Rightarrow> cas_view result) \<Rightarrow> verified_run_root list \<Rightarrow> bool" where
  "evidence_intact sha ps views roots =
     ((\<forall>r \<in> set roots. rm_artifacts (vrr_manifest r) = [])
      \<or> (\<exists>k v audit. views k = Inr v \<and> audit_artifact_store sha v ps roots = Inr audit \<and> intact_audit audit))"

definition same_recovery_world :: "recovery_world \<Rightarrow> recovery_world \<Rightarrow> bool" where
  "same_recovery_world w u =
     (st_db (rv_store u) = st_db (rv_store w) \<and> only_ticks (rv_storage w) (rv_storage u))"

interpretation observing: state_preorder same_recovery_world
  by unfold_locales (auto simp: same_recovery_world_def intro: world.Q_refl world.Q_trans)

lemma on_world_keeps [intro]: "ticking m \<Longrightarrow> observing.keeps (on_world m)"
  by (auto simp: observing.keeps_def on_world_def same_recovery_world_def dest: world.keepsD split: prod.splits)

lemma ask_keeps [intro, simp]: "observing.keeps (ask f)"
  unfolding ask_def observing.keeps_def
  using on_world_keeps [OF ticking_answer] by (auto simp: observing.keeps_def)

lemma reraise_keeps [intro]: "observing.keeps m \<Longrightarrow> observing.keeps (reraise p e m)"
  by (auto simp: observing.keeps_def reraise_def split: prod.splits sum.splits) (metis snd_conv)+

lemma observe_identity_keeps [intro, simp]: "observing.keeps (observe_identity p)" "observing.keeps observe_base"
  unfolding observe_identity_def observe_base_def by (auto intro: on_world_keeps)

lemma capture_keeps [intro, simp]: "observing.keeps capture_storage_identity"
  unfolding capture_storage_identity_def by (intro observing.keeps_bind) auto

lemma require_identity_keeps [intro, simp]: "observing.keeps (require_storage_identity i b)"
  unfolding require_storage_identity_def by (intro observing.keeps_bind) auto

lemma clock_keeps [intro, simp]: "observing.keeps (on_store clock_stamp_op)"
  by (auto simp: observing.keeps_def on_store_def clock_stamp_op_def same_recovery_world_def intro: world.Q_refl)

lemma reraise_Inr [result_simps]: "reraise p e m s = (Inr x, t) \<longleftrightarrow> m s = (Inr x, t)"
  by (auto simp: reraise_def split: prod.splits sum.splits)

lemma on_world_Inr:
  "on_world m w = (Inr x, u) \<longleftrightarrow> (\<exists>s. m (rv_storage w) = (Inr x, s) \<and> u = w\<lparr>rv_storage := s\<rparr>)"
  by (auto simp: on_world_def split: prod.splits)

lemma ask_Inr [result_simps]:
  "ask f w = (Inr x, u) \<longleftrightarrow> f w (sw_tick (rv_storage w)) = Inr x
     \<and> u = w\<lparr>rv_storage := (rv_storage w)\<lparr>sw_tick := Suc (sw_tick (rv_storage w))\<rparr>\<rparr>"
  by (auto simp: ask_def on_world_Inr answer_Inr)

lemma verify_locked_artifacts_Inr:
  assumes "verify_locked_artifacts sha ps roots w = (Inr x, u)"
  shows "evidence_intact sha ps (sw_artifacts (rv_storage w)) roots"
  using assms
  by (auto simp: verify_locked_artifacts_def evidence_intact_def result_simps on_world_Inr answer_Inr list_ex_iff
      split: if_splits)

lemma locked_guard_Inr:
  assumes "locked_guard sha ps expected w roots n = Inr x"
  shows "evidence_intact sha ps (sw_artifacts (rv_storage w)) roots"
proof -
  obtain u where "guard_steps sha ps expected roots (world_at w n) = (Inr x, u)"
    using assms unfolding locked_guard_def by (metis prod.collapse)
  then obtain y v z v' where v: "require_storage_identity expected False (world_at w n) = (Inr y, v)"
      "verify_locked_artifacts sha ps roots v = (Inr z, v')"
    unfolding guard_steps_def sthen_Inr by blast
  have "same_recovery_world (world_at w n) v" by (rule observing.keepsD [OF require_identity_keeps v(1)])
  then have "sw_artifacts (rv_storage v) = sw_artifacts (rv_storage w)"
    by (auto simp: same_recovery_world_def only_ticks_def world_at_def)
  with verify_locked_artifacts_Inr [OF v(2)] show ?thesis by simp
qed

section \<open>Errors change nothing\<close>

definition safe_failure :: "(recovery_world, 'a) op \<Rightarrow> bool" where
  "safe_failure m = (\<forall>w e u. m w = (Inl e, u) \<longrightarrow> st_db (rv_store u) = st_db (rv_store w))"

lemma safe_failure_bind:
  assumes "observing.keeps m" and "\<And>x. safe_failure (f x)"
  shows "safe_failure (sbind m f)"
  unfolding safe_failure_def
proof (intro allI impI)
  fix w e u assume b: "sbind m f w = (Inl e, u)"
  obtain r v where m: "m w = (r, v)" by force
  have k: "st_db (rv_store v) = st_db (rv_store w)"
    using observing.keepsD [OF assms(1) m] by (simp add: same_recovery_world_def)
  show "st_db (rv_store u) = st_db (rv_store w)"
    using b m k assms(2) by (cases r) (auto simp: sbind_def safe_failure_def)
qed

lemma safe_failure_then: "observing.keeps m \<Longrightarrow> safe_failure n \<Longrightarrow> safe_failure (sthen m n)"
  unfolding sthen_def by (rule safe_failure_bind)

lemma safe_failure_reraise: "safe_failure m \<Longrightarrow> safe_failure (reraise p e m)"
  by (auto simp: safe_failure_def reraise_def split: prod.splits sum.splits)

lemma safe_failure_store: "atomic m \<Longrightarrow> safe_failure (on_store m)"
  by (auto simp: safe_failure_def on_store_def atomic_def split: prod.splits)

lemma commit_safe_failure: "safe_failure (commit_existing_fixture_terminalization sha ps operation run_id reason expected snap)"
  unfolding commit_existing_fixture_terminalization_def
  by (intro safe_failure_reraise safe_failure_then safe_failure_bind safe_failure_store terminalize_store_atomic) auto

lemma under_lease_safe_failure:
  "safe_failure (terminalize_under_shared_lease sha ps operation is_root run_id reason)"
  unfolding terminalize_under_shared_lease_def
  by (intro safe_failure_then safe_failure_bind commit_safe_failure) auto

section \<open>What a recovery has verified\<close>

text \<open>An audit of the storage, as it was at some instant, that allows mutation and lists the run.\<close>

definition audit_allows ::
    "(nat list \<Rightarrow> string) \<Rightarrow> parsers \<Rightarrow> string \<Rightarrow> storage_world \<Rightarrow> string \<Rightarrow> bool" where
  "audit_allows sha ps run_id world snapshot_sha256 =
     (\<exists>n report x snapshot.
        audit_storage sha ps (world\<lparr>sw_tick := n\<rparr>) = (Inr report, x)
        \<and> sr_mutation_allowed report \<and> sr_references_verified report
        \<and> sr_ledger_snapshot report = Some snapshot \<and> contains_run snapshot run_id
        \<and> ls_snapshot_sha256 snapshot = snapshot_sha256)"

text \<open>The two audits and the terminal state behind a recovery that has committed: a first audit of the
  storage allows it, whose snapshot is the one of the ledger that the transaction found; intact
  evidence for the very roots of the committed ledger; and the terminal manifest and its events in
  that ledger.\<close>

definition recovery_certified ::
    "(nat list \<Rightarrow> string) \<Rightarrow> parsers \<Rightarrow> string \<Rightarrow> recovery_world \<Rightarrow> recovery_world \<Rightarrow> run_manifest
      \<Rightarrow> event_record list \<Rightarrow> bool" where
  "recovery_certified sha ps run_id w u m es =
     (terminal_outcome (json_sha256 sha) run_id m es (st_db (rv_store u))
      \<and> (\<exists>snapshot_sha256 roots. audit_allows sha ps run_id (rv_storage w) snapshot_sha256
            \<and> verified_roots (json_sha256 sha) (st_db (rv_store w)) = Inr roots
            \<and> verified_run_roots_sha256 (json_sha256 sha) roots = Inr snapshot_sha256)
      \<and> (\<exists>roots. verified_roots (json_sha256 sha) (st_db (rv_store u)) = Inr roots
            \<and> evidence_intact sha ps (sw_artifacts (rv_storage w)) roots))"

lemma audit_allows_frame: "only_ticks w v \<Longrightarrow> audit_allows sha ps run_id v = audit_allows sha ps run_id w"
  unfolding only_ticks_def by (elim exE) (simp add: audit_allows_def fun_eq_iff)

lemma recovery_certified_frame:
  assumes "recovery_certified sha ps run_id v x m es" "same_recovery_world w v" "same_recovery_world x u"
  shows "recovery_certified sha ps run_id w u m es"
proof -
  have "sw_artifacts (rv_storage v) = sw_artifacts (rv_storage w)" "only_ticks (rv_storage w) (rv_storage v)"
    using assms(2) by (auto simp: same_recovery_world_def only_ticks_def)
  with assms audit_allows_frame show ?thesis
    unfolding recovery_certified_def same_recovery_world_def by metis
qed

lemma on_store_Inr:
  "on_store m w = (Inr x, u) \<longleftrightarrow> (\<exists>s. m (rv_store w) = (Inr x, s) \<and> u = w\<lparr>rv_store := s\<rparr>)"
  by (auto simp: on_store_def split: prod.splits)

lemma recoverable_snapshot_Inr:
  "recoverable_snapshot run_id report = Inr snapshot \<Longrightarrow>
     sr_mutation_allowed report \<and> sr_references_verified report \<and> sr_ledger_snapshot report = Some snapshot
     \<and> contains_run snapshot run_id"
  by (auto simp: recoverable_snapshot_def result_simps)

lemma commit_Inr:
  assumes "commit_existing_fixture_terminalization sha ps operation run_id reason expected snap w = (Inr (m, es), u)"
  shows "terminal_outcome (json_sha256 sha) run_id m es (st_db (rv_store u))
    \<and> (\<exists>roots. verified_roots (json_sha256 sha) (st_db (rv_store w)) = Inr roots
          \<and> verified_run_roots_sha256 (json_sha256 sha) roots = Inr snap)
    \<and> (\<exists>roots. verified_roots (json_sha256 sha) (st_db (rv_store u)) = Inr roots
          \<and> evidence_intact sha ps (sw_artifacts (rv_storage w)) roots)"
proof -
  let ?prepare = "sthen (require_storage_identity expected True)
       (sthen (ask (\<lambda>w n. rv_opens w n))
       (sthen (require_storage_identity expected False) (on_store clock_stamp_op)))"
  from assms obtain a1 w1 a2 w2 a3 w3 st w4 where step:
      "require_storage_identity expected True w = (Inr a1, w1)" "ask (\<lambda>w n. rv_opens w n) w1 = (Inr a2, w2)"
      "require_storage_identity expected False w2 = (Inr a3, w3)" "on_store clock_stamp_op w3 = (Inr st, w4)"
    and c: "on_store (terminalize_store (json_sha256 sha) operation run_id (occurred_at st) reason snap
          (locked_guard sha ps expected w4)) w4 = (Inr (m, es), u)"
    unfolding commit_existing_fixture_terminalization_def reraise_Inr sthen_Inr sbind_Inr sget_Inr by blast
  have k: "same_recovery_world w w4"
    using observing.keepsD [OF require_identity_keeps step(1)] observing.keepsD [OF ask_keeps step(2)]
      observing.keepsD [OF require_identity_keeps step(3)] observing.keepsD [OF clock_keeps step(4)]
      observing.Q_trans by blast
  then have views: "sw_artifacts (rv_storage w4) = sw_artifacts (rv_storage w)"
    and db: "st_db (rv_store w4) = st_db (rv_store w)"
    by (auto simp: same_recovery_world_def only_ticks_def)
  from c obtain t where t: "terminalize_store (json_sha256 sha) operation run_id (occurred_at st) reason snap
        (locked_guard sha ps expected w4) (rv_store w4) = (Inr (m, es), t)" "u = w4\<lparr>rv_store := t\<rparr>"
    unfolding on_store_Inr by blast
  show ?thesis
    using terminalize_store_Inr [OF t(1)] locked_guard_Inr [of sha ps expected w4] t(2) db views by auto
qed

lemma under_lease_Inr:
  assumes "terminalize_under_shared_lease sha ps operation is_root run_id reason w = (Inr (m, es), u)"
  shows "recovery_certified sha ps run_id w u m es"
proof -
  from assms obtain expected w1 report w2 a w3 snapshot where step:
      "capture_storage_identity w = (Inr expected, w1)" "on_world (audit_storage sha ps) w1 = (Inr report, w2)"
      "require_storage_identity expected True w2 = (Inr a, w3)" "recoverable_snapshot run_id report = Inr snapshot"
    and c: "commit_existing_fixture_terminalization sha ps operation run_id reason expected
        (ls_snapshot_sha256 snapshot) w3 = (Inr (m, es), u)"
    unfolding terminalize_under_shared_lease_def sguard_Inr slift_Inr sbind_Inr sthen_Inr reraise_Inr by blast
  have k1: "same_recovery_world w w1" by (rule observing.keepsD [OF capture_keeps step(1)])
  have "same_recovery_world w1 w2" by (rule observing.keepsD [OF on_world_keeps step(2)]) simp
  with k1 observing.keepsD [OF require_identity_keeps step(3)] have k3: "same_recovery_world w w3"
    using observing.Q_trans by blast
  obtain x where x: "audit_storage sha ps (rv_storage w1) = (Inr report, x)" using step(2) by (auto simp: on_world_Inr)
  have views: "sw_artifacts (rv_storage w3) = sw_artifacts (rv_storage w)" "st_db (rv_store w3) = st_db (rv_store w)"
      "only_ticks (rv_storage w) (rv_storage w1)"
    using k1 k3 by (auto simp: same_recovery_world_def only_ticks_def)
  have "audit_allows sha ps run_id (rv_storage w) (ls_snapshot_sha256 snapshot)"
    unfolding audit_allows_frame [OF views(3), symmetric] audit_allows_def
    by (rule exI [of _ "sw_tick (rv_storage w1)"], rule exI [of _ report], rule exI [of _ x], rule exI [of _ snapshot])
      (use x recoverable_snapshot_Inr [OF step(4)] in simp)
  with commit_Inr [OF c] show ?thesis
    unfolding recovery_certified_def views by blast
qed

text \<open>C37: Whatever the storage, the lease and the clock answer, terminalizing an existing run either raises or
  returns a certified recovery: an audit allowed it, the ledger found by the write transaction is
  the audited one, the evidence of every run of the committed ledger was verified inside the
  transaction, and the run is terminal there. When it raises anything but the error of a lease
  that closed badly after the commit, the database is unchanged; of that error nothing is said.\<close>

theorem recovery_is_guarded:
  "case terminalize_existing_fixture_run sha ps operation is_root run_id reason w of
     (Inl e, u) \<Rightarrow>
       if e = RecoveryPostCommitMaintenanceError then True else st_db (rv_store u) = st_db (rv_store w)
   | (Inr (m, es), u) \<Rightarrow> recovery_certified sha ps run_id w u m es"
proof -
  let ?body = "terminalize_under_shared_lease sha ps operation is_root run_id reason"
  have lease: "same_recovery_world w v" if "acquire_shared_lease w = (r, v)" for r v
    using observing.keepsD [OF ask_keeps that [unfolded acquire_shared_lease_def]] .
  have release: "same_recovery_world v (snd (ask (\<lambda>w n. Inr (rv_release w n)) v))" for v
    using ask_keeps unfolding observing.keeps_def by blast
  obtain r v where l: "acquire_shared_lease w = (r, v)" by force
  show ?thesis
  proof (cases r)
    case (Inl e)
    then show ?thesis
      using l lease [OF l] by (simp add: terminalize_existing_fixture_run_def sthen_def sbind_def same_recovery_world_def)
  next
    case (Inr y)
    obtain q x where b: "?body v = (q, x)" by force
    have run: "terminalize_existing_fixture_run sha ps operation is_root run_id reason w =
        (case (q, x) of
          (Inl e, u) \<Rightarrow> (Inl e, snd (ask (\<lambda>w n. Inr (rv_release w n)) u))
        | (Inr result, u) \<Rightarrow>
            sbind (ask (\<lambda>w n. Inr (rv_release w n))) (\<lambda>released.
            if released then sreturn result else sraise RecoveryPostCommitMaintenanceError) u)"
      using l Inr b by (simp add: terminalize_existing_fixture_run_def sthen_def sbind_def)
    show ?thesis
    proof (cases q)
      case (Inl e)
      have "st_db (rv_store x) = st_db (rv_store v)"
        using under_lease_safe_failure b Inl by (auto simp: safe_failure_def)
      with run Inl lease [OF l] release [of x] show ?thesis by (simp add: same_recovery_world_def)
    next
      case q: (Inr result)
      obtain m es where result: "result = (m, es)" by force
      have c: "recovery_certified sha ps run_id v x m es" using under_lease_Inr b q result by blast
      have moved: "recovery_certified sha ps run_id w (snd (ask (\<lambda>w n. Inr (rv_release w n)) x)) m es"
        by (rule recovery_certified_frame [OF c lease [OF l] release])
      obtain ok z where z: "ask (\<lambda>w n. Inr (rv_release w n)) x = (Inr ok, z)"
        by (auto simp: ask_def answer_def on_world_def)
      show ?thesis
        using run q result moved z
        by (cases ok) (simp_all add: sbind_def sreturn_def sraise_def)
    qed
  qed
qed

end
