(* ===== verification/Runner_Properties.thy ===== *)
theory Runner_Properties
  imports Runner Recovery_Properties
begin

text \<open>
  Properties of a run: the provider is asked at most once and only after its maximum is reserved in a
  committed ledger that verifies; whatever the outcome, the ledger of every other run is untouched, events
  are only appended and what is committed verifies; and a run that returns is terminal in the ledger, with
  its evaluation published.
\<close>

section \<open>Admitting a model request\<close>

definition request_recorded :: "string \<Rightarrow> string \<Rightarrow> budget_usage \<Rightarrow> database \<Rightarrow> bool" where
  "request_recorded run_id request_id maximum db =
     (\<exists>v e. v \<in> set (events db) \<and> vr_run_id v = run_id \<and> vr_event_type v = ''model.request_started''
        \<and> vr_record_json v = Canonical e
        \<and> ev_payload e = [(''maximum'', usage_json maximum), (''request_id'', JStr request_id)])"

text \<open>A database in which the request may be sent: it verifies, records the request, and holds for the running
  run a reservation that includes the maximum and stays within its limits together with what was used.\<close>

definition request_admitted ::
    "(json \<Rightarrow> string) \<Rightarrow> string \<Rightarrow> string \<Rightarrow> budget_usage \<Rightarrow> database \<Rightarrow> bool" where
  "request_admitted H run_id request_id maximum db =
     ((\<exists>roots. verified_roots H db = Inr roots) \<and> request_recorded run_id request_id maximum db
      \<and> (\<exists>m used before held projected. load_manifest_locked H db run_id = Inr m \<and> rm_status m = RUNNING
           \<and> load_budget_locked H db run_id = Inr (used, held) \<and> add_usage before maximum = Inr held
           \<and> add_usage used held = Inr projected \<and> exceeded_limits projected (rm_budget_limits m) = []))"

lemma execute_db_Inr [result_simps]:
  "execute_db f s = (Inr x, t) \<longleftrightarrow> (\<exists>db. f (st_db s) = Inr db \<and> t = s\<lparr>st_db := db\<rparr>)"
  by (auto simp: execute_db_def split: sum.splits)

lemma append_locked_effect:
  assumes "append_locked H i t d s = (Inr e, u)"
  shows "st_db u = (st_db s)\<lparr>events := events (st_db s) @ [event_row_of H i e]\<rparr>"
    "ev_event_type e = strip_whitespace t" "ev_payload e = d"
  using assms
  by (auto simp: append_locked_def result_simps insert_event_def make_event_def next_event_def strip_event_def
      Let_def clock_stamp_op_def split: if_splits)

lemma load_manifest_tables:
  "runs db' = runs db \<Longrightarrow> run_manifests db' = run_manifests db \<Longrightarrow>
     load_manifest_locked H db' i = load_manifest_locked H db i"
  by (simp add: load_manifest_locked_def find_run_def)

lemma load_budget_Inr:
  assumes "load_budget_locked H db i = Inr (used, held)"
  shows "valid_usage used" "valid_usage held"
  using assms by (auto simp: load_budget_locked_def result_simps dest: load_column_valid)

lemma load_budget_updated:
  assumes "load_budget_locked H db i = Inr p" "runs db' = runs db" "run_manifests db' = run_manifests db"
    and "budget_state db' = budget_state (update_budget i used held db)" "valid_usage used" "valid_usage held"
  shows "load_budget_locked H db' i = Inr (used, held)"
proof -
  let ?f = "\<lambda>q :: budget_row. if br_run_id q = i then q\<lparr>br_used_json := Canonical used, br_reserved_json := Canonical held\<rparr> else q"
  have found: "find (\<lambda>q. br_run_id q = i) (map ?f rows) = map_option ?f (find (\<lambda>q. br_run_id q = i) rows)" for rows
    by (induction rows) auto
  obtain row where row: "find (\<lambda>q. br_run_id q = i) (budget_state db) = Some row"
    using assms(1) by (auto simp: load_budget_locked_def result_simps)
  then have "br_run_id row = i" by (auto simp: find_Some_iff)
  with row found have "find (\<lambda>q. br_run_id q = i) (budget_state db')
      = Some (row\<lparr>br_used_json := Canonical used, br_reserved_json := Canonical held\<rparr>)"
    by (simp add: assms(4) update_budget_def)
  then show ?thesis
    using assms(1,5,6) row
    by (auto simp: load_budget_locked_def result_simps load_manifest_tables [OF assms(2,3)] load_column_def [of valid_usage]
        is_canonical_def)
qed

lemma start_model_request_admits:
  assumes "start_model_request H i q maximum used held s = (Inr x, t)"
  shows "request_admitted H i q maximum (st_db t)"
proof -
  from assms obtain u v roots' where body: "st_db u = st_db s" "st_db t = st_db v" "verified_roots H (st_db t) = Inr roots'"
      "(sbind (read_db (\<lambda>db. load_manifest_locked H db i)) (\<lambda>manifest.
       sthen (sguard (rm_status manifest = RUNNING) StoreIntegrityError)
      (sbind (read_db (\<lambda>db. load_budget_locked H db i)) (\<lambda>(used_before, reserved_before).
       sthen (sguard (used = used_before) StoreIntegrityError)
      (sbind (slift (add_usage reserved_before maximum)) (\<lambda>expected_reserved.
       sthen (sguard (held = expected_reserved) StoreIntegrityError)
      (sbind (slift (add_usage used held)) (\<lambda>projected.
       sthen (sguard (exceeded_limits projected (rm_budget_limits manifest) = []) StoreIntegrityError)
      (sbind (append_locked H i ''model.request_started''
          [(''maximum'', usage_json maximum), (''request_id'', JStr q)]) (\<lambda>request_event.
       sbind (append_budget_snapshot_locked H i used held) (\<lambda>budget_event.
       sthen (update_budget_locked i used held)
      (sreturn (request_event, budget_event))))))))))))) u = (Inr x, v)"
    unfolding start_model_request_def by (auto simp: result_simps elim!: transaction_Inr)
  then obtain m before projected e1 u1 e2 u2 where s: "load_manifest_locked H (st_db u) i = Inr m" "rm_status m = RUNNING"
      "load_budget_locked H (st_db u) i = Inr (used, before)" "add_usage before maximum = Inr held"
      "add_usage used held = Inr projected" "exceeded_limits projected (rm_budget_limits m) = []"
      "append_locked H i ''model.request_started'' [(''maximum'', usage_json maximum), (''request_id'', JStr q)] u = (Inr e1, u1)"
      "append_budget_snapshot_locked H i used held u1 = (Inr e2, u2)"
      "st_db v = update_budget i used held (st_db u2)"
    by (auto simp: result_simps update_budget_locked_def)
  note e1 = append_locked_effect [OF s(7)] and e2 = append_locked_effect [OF s(8) [unfolded append_budget_snapshot_locked_def]]
  have tables: "runs (st_db v) = runs (st_db u)" "run_manifests (st_db v) = run_manifests (st_db u)"
      "budget_state (st_db v) = budget_state (update_budget i used held (st_db u))"
      "event_row_of H i e1 \<in> set (events (st_db v))"
    by (simp_all add: s(9) e1(1) e2(1) update_budget_def)
  have "request_recorded i q maximum (st_db v)"
    unfolding request_recorded_def
    by (rule exI [of _ "event_row_of H i e1"], rule exI [of _ e1])
      (use tables(4) e1(2,3) in \<open>simp add: event_row_of_def event_type_strip\<close>)
  moreover have "load_budget_locked H (st_db v) i = Inr (used, held)"
    by (rule load_budget_updated [OF s(3) tables(1-3)]) (use load_budget_Inr [OF s(3)] add_usage_valid [OF s(4)] in auto)
  moreover have "load_manifest_locked H (st_db v) i = Inr m"
    using load_manifest_tables [OF tables(1,2)] s(1) by simp
  ultimately show ?thesis
    unfolding request_admitted_def body(2) using body(2,3) s(2,4,5,6) by auto
qed

section \<open>The provider's log\<close>

interpretation quiet: state_preorder "\<lambda>s t. rn_calls t = rn_calls s"
  by unfold_locales auto

lemma quiet_lift [intro, simp]:
  "quiet.keeps (on_recovery m)" "quiet.keeps (on_artifacts n)" "quiet.keeps (on_authority k)"
  by (auto simp: quiet.keeps_def on_recovery_def on_artifacts_def on_authority_def split: prod.splits)

lemma quiet_now [intro, simp]: "quiet.keeps now"
  unfolding now_def by (intro quiet.keeps_bind) auto

lemma quiet_modify [intro]: "(\<And>w. rn_calls (f w) = rn_calls w) \<Longrightarrow> quiet.keeps (smodify f)"
  by (simp add: quiet.keeps_def smodify_def)

lemma quiet_reserve [intro, simp]: "quiet.keeps (reserve_request m)"
proof (rule quiet.keepsI)
  fix w
  have "rn_calls (snd (on_authority (reserve reservation_id m) w)) = rn_calls w"
    using quiet_lift(3) [of "reserve reservation_id m"] by (simp add: quiet.keeps_def)
  then show "rn_calls (snd (reserve_request m w)) = rn_calls w"
    by (auto simp: reserve_request_def split: prod.splits sum.splits exn.splits)
qed

lemma quiet_begin [intro, simp]: "quiet.keeps (begin_run H p i m a)"
  unfolding begin_run_def by (intro quiet.keeps_then quiet.keeps_bind quiet_modify) auto

lemma quiet_transcript [intro, simp]: "quiet.keeps (put_transcript sha n d acc)"
  unfolding put_transcript_def by (auto split: option.split intro!: quiet.keeps_bind)

lemma quiet_finish [intro, simp]: "quiet.keeps (finish_run sha ev i task spec p)"
  unfolding finish_run_def evaluate_patch_def store_evidence_def Let_def
  by (auto split: prod.split intro!: quiet.keeps_then quiet.keeps_bind)

text \<open>At most one request, sent in a state of the database that satisfies \<open>P\<close>.\<close>

definition once :: "(database \<Rightarrow> bool) \<Rightarrow> (runner_world, 'a) op \<Rightarrow> bool" where
  "once P m = (\<forall>w. rn_calls (snd (m w)) = rn_calls w \<or> (\<exists>db. rn_calls (snd (m w)) = rn_calls w @ [db] \<and> P db))"

lemma once_after: "quiet.keeps m \<Longrightarrow> (\<And>x. once P (f x)) \<Longrightarrow> once P (sbind m f)"
  unfolding once_def quiet.keeps_def sbind_def
  by (auto split: prod.splits sum.splits) (metis snd_conv)+

lemma once_then: "quiet.keeps m \<Longrightarrow> once P n \<Longrightarrow> once P (sthen m n)"
  unfolding sthen_def by (rule once_after)

lemma once_before: "once P m \<Longrightarrow> (\<And>x. quiet.keeps (f x)) \<Longrightarrow> once P (sbind m f)"
  unfolding once_def quiet.keeps_def sbind_def
  by (auto split: prod.splits sum.splits) (metis snd_conv)+

lemma once_handled:
  assumes "once P m" and "\<And>e u. rn_calls (h e u) = rn_calls u"
  shows "once P (\<lambda>w. case m w of (Inl e, u) \<Rightarrow> (Inl e, h e u) | r \<Rightarrow> r)"
  using assms unfolding once_def
  by (auto split: prod.splits sum.splits) (metis snd_conv)+

lemma once_dispatch:
  assumes "\<And>x. quiet.keeps (f x)"
  shows "once (request_admitted H i q maximum)
    (sthen (on_events (start_model_request H i q maximum used held)) (sbind (propose_patch model s) f))"
  unfolding once_def
proof
  fix w
  let ?m = "on_events (start_model_request H i q maximum used held)"
  obtain r u where m: "?m w = (r, u)" by force
  have calls: "rn_calls u = rn_calls w"
    using quiet.keepsD [OF quiet_lift(1) m] .
  show "rn_calls (snd (sthen ?m (sbind (propose_patch model s) f) w)) = rn_calls w
    \<or> (\<exists>db. rn_calls (snd (sthen ?m (sbind (propose_patch model s) f) w)) = rn_calls w @ [db]
          \<and> request_admitted H i q maximum db)"
  proof (cases r)
    case (Inl e)
    then show ?thesis using m calls by (simp add: sthen_def sbind_def)
  next
    case (Inr x)
    have "request_admitted H i q maximum (current_database u)"
      using m Inr start_model_request_admits [of H i q maximum used held "rv_store (rn_recovery w)" x]
      by (auto simp: on_recovery_def on_store_def current_database_def split: prod.splits)
    moreover have "rn_calls (snd (sbind (propose_patch model s) f u)) = rn_calls u @ [current_database u]"
      using assms by (auto simp: sbind_def propose_patch_def quiet.keeps_def split: sum.splits)
    ultimately show ?thesis using m Inr calls by (simp add: sthen_def [of ?m] sbind_def [of ?m])
  qed
qed

lemma once_request_patch:
  "once (request_admitted (json_sha256 sha) i reservation_id (mc_maximum_usage model)) (request_patch sha i model s)"
  unfolding request_patch_def Let_def
  by (intro once_then once_after once_dispatch) (auto intro!: quiet.keeps_then quiet.keeps_bind)

lemma once_run_in_store:
  "once (request_admitted (json_sha256 sha) i reservation_id (mc_maximum_usage model))
     (run_in_store sha model ev p i task spec s a)"
  unfolding run_in_store_def by (intro once_then once_before once_request_patch) auto

lemma after_exception_quiet: "rn_calls (after_exception sha ps b i e w) = rn_calls w"
  using quiet_lift(1) [of "terminalize_existing_fixture_budget_refusal sha ps b i ''model_reservation_refused''"]
    quiet_lift(1) [of "recover_existing_fixture_run sha ps b i ''runner_exception''"]
  by (auto simp: after_exception_def quiet.keeps_def)

lemma once_guarded_run:
  assumes "\<And>x. quiet.keeps (f x)"
  shows "once (request_admitted (json_sha256 sha) i reservation_id (mc_maximum_usage model))
    (sbind (\<lambda>w. case run_in_store sha model ev p i task spec s a w of
        (Inl e, u) \<Rightarrow> (Inl e, after_exception sha ps b i e u) | r \<Rightarrow> r) f)"
  using assms by (intro once_before once_handled once_run_in_store after_exception_quiet)

lemma once_run_with_shared_lease:
  "once (request_admitted (json_sha256 sha) (rq_run_id rq) reservation_id (mc_maximum_usage model))
     (run_with_shared_lease sha ps ru model ev rq)"
  unfolding run_with_shared_lease_def Let_def
  by (auto split: prod.split intro!: once_then once_after once_guarded_run quiet.keeps_bind quiet_modify)

lemma once_released:
  assumes "once P m" and "\<And>u. rn_calls (snd (shut u)) = rn_calls u" and "\<And>x. quiet.keeps (k x)"
  shows "once P (\<lambda>w. case m w of (Inl e, u) \<Rightarrow> (Inl e, snd (shut u)) | (Inr x, u) \<Rightarrow> k x u)"
  unfolding once_def
proof
  fix w
  obtain r u where m: "m w = (r, u)" by force
  have "rn_calls u = rn_calls w \<or> (\<exists>db. rn_calls u = rn_calls w @ [db] \<and> P db)"
    using assms(1) m by (auto simp: once_def dest: spec [of _ w])
  moreover have "rn_calls (snd (k x u)) = rn_calls u" for x
    using assms(3) by (simp add: quiet.keeps_def)
  ultimately show "rn_calls (snd (case m w of (Inl e, u) \<Rightarrow> (Inl e, snd (shut u)) | (Inr x, u) \<Rightarrow> k x u)) = rn_calls w
      \<or> (\<exists>db. rn_calls (snd (case m w of (Inl e, u) \<Rightarrow> (Inl e, snd (shut u)) | (Inr x, u) \<Rightarrow> k x u))
            = rn_calls w @ [db] \<and> P db)"
    using m assms(2) by (cases r) simp_all
qed

lemma once_run_fixture:
  "once (request_admitted (json_sha256 sha) (rq_run_id rq) reservation_id (mc_maximum_usage model))
     (run_fixture sha ps ru model ev rq)"
proof -
  have "rn_calls (snd (on_recovery m u)) = rn_calls u" for m :: "(recovery_world, bool) op" and u
    using quiet_lift(1) [of m] by (simp add: quiet.keeps_def)
  then show ?thesis
    unfolding run_fixture_def
    by (intro once_then once_released once_run_with_shared_lease) (auto intro!: quiet.keeps_bind)
qed

section \<open>What a run may do to the ledger\<close>

text \<open>The database is as it was or verifies, its history is only extended, and the rows of other runs are the same;
  a run is created under its stripped identifier.\<close>

definition ledger_kept :: "(json \<Rightarrow> string) \<Rightarrow> string \<Rightarrow> database \<Rightarrow> database \<Rightarrow> bool" where
  "ledger_kept H i db db' =
     ((db' = db \<or> (\<exists>roots. verified_roots H db' = Inr roots)) \<and> history_extends db db'
      \<and> (\<forall>j. j \<noteq> i \<and> j \<noteq> strip_whitespace i \<longrightarrow> same_rows j db db'))"

lemma ledger_kept_refl [simp]: "ledger_kept H i db db"
  by (simp add: ledger_kept_def history.Q_refl)

lemma ledger_kept_trans: "ledger_kept H i a b \<Longrightarrow> ledger_kept H i b c \<Longrightarrow> ledger_kept H i a c"
  unfolding ledger_kept_def by (meson history.Q_trans other_run.Q_trans)

definition store_kept :: "(json \<Rightarrow> string) \<Rightarrow> string \<Rightarrow> (store, 'a) op \<Rightarrow> bool" where
  "store_kept H i m = (\<forall>s. ledger_kept H i (st_db s) (st_db (snd (m s))))"

lemma store_keptI:
  assumes "atomic m" "commits H m" "history.keeps m"
    and "\<And>j. i \<noteq> j \<Longrightarrow> strip_whitespace i \<noteq> j \<Longrightarrow> other_run.keeps j m"
  shows "store_kept H i m"
  unfolding store_kept_def
proof
  fix s
  obtain r t where m: "m s = (r, t)" by force
  have "st_db t = st_db s \<or> (\<exists>roots. verified_roots H (st_db t) = Inr roots)"
    using assms(1,2) m by (cases r) (auto simp: atomic_def commits_def)
  moreover have "history_extends (st_db s) (st_db t)"
    using assms(3) m by (auto simp: history.keeps_def dest: spec [of _ s])
  moreover have "same_rows j (st_db s) (st_db t)" if "j \<noteq> i" "j \<noteq> strip_whitespace i" for j
    using assms(4) [of j] that m by (auto simp: other_run.keeps_def dest: spec [of _ s])
  ultimately show "ledger_kept H i (st_db s) (st_db (snd (m s)))" using m by (simp add: ledger_kept_def)
qed

lemma store_kept_operations:
  "rm_run_id p = strip_whitespace i \<Longrightarrow> store_kept H i (create_run H p)"
  "store_kept H i (start_run H i f m)"
  "store_kept H i (record_artifact H i n a)"
  "store_kept H i (start_model_request H i q mx u r)"
  "store_kept H i (complete_model_response H i q rm ac pa u r)"
  "store_kept H i (complete_evaluation_with_events H i as ep st f tr u r)"
  "store_kept H i (terminalize_store H operation i f reason snap g)"
proof -
  show "rm_run_id p = strip_whitespace i \<Longrightarrow> store_kept H i (create_run H p)"
    by (rule store_keptI)
      (simp_all add: history.keeps_create_run other_run.keeps_create_run,
        simp_all add: create_run_def Let_def atomic_guard atomic_transaction commits_guard commits_transaction)
  show "store_kept H i (start_run H i f m)"
    by (rule store_keptI)
      (simp_all add: history.keeps_start_run other_run.keeps_start_run,
        simp_all add: start_run_def atomic_transaction commits_transaction)
  show "store_kept H i (record_artifact H i n a)"
    by (rule store_keptI)
      (simp_all add: history.keeps_record_artifact other_run.keeps_record_artifact,
        simp_all add: record_artifact_def atomic_guard atomic_transaction commits_guard commits_transaction)
  show "store_kept H i (start_model_request H i q mx u r)"
    by (rule store_keptI)
      (simp_all add: history.keeps_start_model_request other_run.keeps_start_model_request,
        simp_all add: start_model_request_def atomic_guard atomic_transaction commits_guard commits_transaction)
  show "store_kept H i (complete_model_response H i q rm ac pa u r)"
    by (rule store_keptI)
      (simp_all add: history.keeps_complete_model_response other_run.keeps_complete_model_response,
        simp_all add: complete_model_response_def atomic_transaction commits_transaction)
  show "store_kept H i (complete_evaluation_with_events H i as ep st f tr u r)"
    by (rule store_keptI)
      (simp_all add: history.keeps_complete_evaluation other_run.keeps_complete_evaluation,
        simp_all add: complete_evaluation_with_events_def atomic_guard atomic_transaction commits_guard commits_transaction)
  show "store_kept H i (terminalize_store H operation i f reason snap g)"
    by (cases operation; rule store_keptI)
      (simp_all add: terminalize_store_def history.keeps_recover_run other_run.keeps_recover_run
        history.keeps_budget_exhaustion other_run.keeps_budget_exhaustion,
        simp_all add: recover_run_with_events_def complete_budget_exhaustion_with_events_def atomic_guard
          atomic_transaction commits_guard commits_transaction)
qed

lemma store_kept_clock [simp]: "store_kept H i clock_stamp_op"
  by (simp add: store_kept_def clock_stamp_op_def)

interpretation recovering: state_preorder "\<lambda>s t. ledger_kept H i (st_db (rv_store s)) (st_db (rv_store t))" for H i
  by unfold_locales (auto intro: ledger_kept_trans)

lemma recovering_observing: "observing.keeps m \<Longrightarrow> recovering.keeps H i m"
  by (auto simp: recovering.keeps_def observing.keeps_def same_recovery_world_def)

lemma recovering_store: "store_kept H i m \<Longrightarrow> recovering.keeps H i (on_store m)"
  by (auto simp: recovering.keeps_def store_kept_def on_store_def split: prod.splits) (metis snd_conv)

lemma recovering_reraise: "recovering.keeps H i m \<Longrightarrow> recovering.keeps H i (reraise p e m)"
  by (auto simp: recovering.keeps_def reraise_def split: prod.splits sum.splits) (metis snd_conv)+

lemma recovering_terminalize:
  "recovering.keeps (json_sha256 sha) i (terminalize_existing_fixture_run sha ps operation b i reason)"
proof -
  let ?k = "recovering.keeps (json_sha256 sha) i"
  have "?k (commit_existing_fixture_terminalization sha ps operation i reason expected snap)" for expected snap
    unfolding commit_existing_fixture_terminalization_def
    by (intro recovering_reraise recovering.keeps_then recovering.keeps_bind recovering_store store_kept_operations
        recovering_observing) auto
  then have body: "?k (terminalize_under_shared_lease sha ps operation b i reason)"
    unfolding terminalize_under_shared_lease_def
    by (intro recovering.keeps_then recovering.keeps_bind) (auto intro: recovering_observing)
  have shut: "?k (ask f)" for f :: "recovery_world \<Rightarrow> nat \<Rightarrow> 'a result"
    by (auto intro: recovering_observing)
  have "?k (\<lambda>w. case terminalize_under_shared_lease sha ps operation b i reason w of
        (Inl e, u) \<Rightarrow> (Inl e, snd (ask (\<lambda>w n. Inr (rv_release w n)) u))
      | (Inr result, u) \<Rightarrow>
          sbind (ask (\<lambda>w n. Inr (rv_release w n))) (\<lambda>released.
          if released then sreturn result else sraise RecoveryPostCommitMaintenanceError) u)"
  proof (rule recovering.keepsI)
    fix w
    obtain r u where m: "terminalize_under_shared_lease sha ps operation b i reason w = (r, u)" by force
    note u = recovering.keepsD [OF body m]
    have "?k (ask (\<lambda>w n. Inr (rv_release w n)))" by (auto intro: recovering_observing)
    then have "ledger_kept (json_sha256 sha) i (st_db (rv_store u)) (st_db (rv_store (snd (ask (\<lambda>w n. Inr (rv_release w n)) u))))"
      by (simp add: recovering.keeps_def)
    moreover have "ledger_kept (json_sha256 sha) i (st_db (rv_store u)) (st_db (rv_store (snd (
        sbind (ask (\<lambda>w n. Inr (rv_release w n))) (\<lambda>released.
          if released then sreturn x else sraise RecoveryPostCommitMaintenanceError) u))))" for x :: terminal_result
    proof -
      have "?k (sbind (ask (\<lambda>w n. Inr (rv_release w n))) (\<lambda>released.
          if released then sreturn x else sraise RecoveryPostCommitMaintenanceError))"
        by (auto intro!: recovering.keeps_bind recovering_observing)
      then show ?thesis by (simp add: recovering.keeps_def)
    qed
    ultimately show "ledger_kept (json_sha256 sha) i (st_db (rv_store w)) (st_db (rv_store (snd (
        case terminalize_under_shared_lease sha ps operation b i reason w of
        (Inl e, u) \<Rightarrow> (Inl e, snd (ask (\<lambda>w n. Inr (rv_release w n)) u))
      | (Inr result, u) \<Rightarrow>
          sbind (ask (\<lambda>w n. Inr (rv_release w n))) (\<lambda>released.
          if released then sreturn result else sraise RecoveryPostCommitMaintenanceError) u))))"
      using m u by (cases r) (simp_all, (meson ledger_kept_trans)+)
  qed
  then show ?thesis
    unfolding terminalize_existing_fixture_run_def acquire_shared_lease_def
    by (intro recovering.keeps_then) (auto intro: recovering_observing)
qed

interpretation running: state_preorder "\<lambda>s t. ledger_kept H i (current_database s) (current_database t)" for H i
  by unfold_locales (auto intro: ledger_kept_trans)

lemma running_recovery: "recovering.keeps H i m \<Longrightarrow> running.keeps H i (on_recovery m)"
  by (rule running.keepsI)
    (auto simp: on_recovery_def current_database_def dest: recovering.keepsD split: prod.splits)

lemma running_lift [intro, simp]:
  "running.keeps H i (on_artifacts n)" "running.keeps H i (on_authority k)" "running.keeps H i (propose_patch model s)"
  by (rule running.keepsI, simp add: on_artifacts_def on_authority_def propose_patch_def current_database_def split: prod.split)+

lemma running_events [intro]: "store_kept H i m \<Longrightarrow> running.keeps H i (on_events m)"
  by (intro running_recovery recovering_store)

lemma running_ask [intro, simp]: "running.keeps H i (on_recovery (ask f))"
  by (intro running_recovery recovering_observing ask_keeps)

lemma running_now [intro, simp]: "running.keeps H i now"
  unfolding now_def by (intro running.keeps_bind running_events) auto

lemma running_modify [intro]:
  "(\<And>w. rn_recovery (f w) = rn_recovery w) \<Longrightarrow> running.keeps H i (smodify f)"
  by (rule running.keepsI) (simp add: smodify_def current_database_def)

lemma running_reserve [intro, simp]: "running.keeps H i (reserve_request m)"
proof (rule running.keepsI)
  fix w
  have "current_database (snd (on_authority (reserve reservation_id m) w)) = current_database w"
    by (auto simp: on_authority_def current_database_def split: prod.splits)
  then have "current_database (snd (reserve_request m w)) = current_database w"
    by (auto simp: reserve_request_def current_database_def split: prod.splits sum.splits exn.splits)
  then show "ledger_kept H i (current_database w) (current_database (snd (reserve_request m w)))" by simp
qed

lemma running_begin:
  "rm_run_id p = strip_whitespace i \<Longrightarrow> running.keeps H i (begin_run H p i m a)"
  unfolding begin_run_def
  by (intro running.keeps_then running.keeps_bind running_modify running_events store_kept_operations) auto

lemma running_request: "running.keeps (json_sha256 sha) i (request_patch sha i model s)"
  unfolding request_patch_def Let_def
  by (intro running.keeps_then running.keeps_bind running_events store_kept_operations) auto

lemma running_transcript [intro, simp]: "running.keeps H i (put_transcript sha n d acc)"
  unfolding put_transcript_def by (auto split: option.split intro!: running.keeps_bind)

lemma running_finish: "running.keeps (json_sha256 sha) i (finish_run sha ev i task spec p)"
  unfolding finish_run_def evaluate_patch_def store_evidence_def Let_def
  by (auto split: prod.split intro!: running.keeps_then running.keeps_bind running_events store_kept_operations)

lemma running_after_exception:
  "ledger_kept (json_sha256 sha) i (current_database u) (current_database (after_exception sha ps b i e u))"
  using running_recovery [OF recovering_terminalize [of sha i ps]]
  by (auto simp: after_exception_def recover_existing_fixture_run_def
      terminalize_existing_fixture_budget_refusal_def running.keeps_def)

lemma running_guarded:
  assumes "running.keeps (json_sha256 sha) i m"
  shows "running.keeps (json_sha256 sha) i (\<lambda>w. case m w of
      (Inl e, u) \<Rightarrow> (Inl e, after_exception sha ps b i e u) | r \<Rightarrow> r)"
proof (rule running.keepsI)
  fix w
  obtain r u where m: "m w = (r, u)" by force
  note kept = running.keepsD [OF assms m]
  show "ledger_kept (json_sha256 sha) i (current_database w) (current_database (snd (case m w of
      (Inl e, u) \<Rightarrow> (Inl e, after_exception sha ps b i e u) | r \<Rightarrow> r)))"
    using m kept ledger_kept_trans [OF kept running_after_exception] by (cases r) simp_all
qed

lemma pending_run_id:
  "validate_manifest (pending_manifest rq model task limits t) = Inr p \<Longrightarrow> rm_run_id p = strip_whitespace (rq_run_id rq)"
  by (auto dest!: validate_manifest_Inr simp: strip_manifest_def pending_manifest_def)

lemma running_slift: "(\<And>x. r = Inr x \<Longrightarrow> running.keeps H i (f x)) \<Longrightarrow> running.keeps H i (sbind (slift r) f)"
  by (cases r) (auto simp: running.keeps_def sbind_def slift_def)

lemma running_leased: "running.keeps (json_sha256 sha) (rq_run_id rq) (run_with_shared_lease sha ps ru model ev rq)"
  unfolding run_with_shared_lease_def Let_def require_state_identity_def run_in_store_def
  by (auto split: prod.split intro!: running.keeps_then running.keeps_bind running_modify running_guarded running_slift
      running_recovery recovering.keeps_bind recovering_observing running_begin running_request running_finish
      dest: pending_run_id)

lemma running_run: "running.keeps (json_sha256 sha) (rq_run_id rq) (run_fixture sha ps ru model ev rq)"
proof -
  let ?k = "running.keeps (json_sha256 sha) (rq_run_id rq)"
  have "?k (\<lambda>w. case run_with_shared_lease sha ps ru model ev rq w of
        (Inl e, u) \<Rightarrow> (Inl e, snd (on_recovery (ask (\<lambda>w n. Inr (rv_release w n))) u))
      | (Inr result, u) \<Rightarrow>
          sbind (on_recovery (ask (\<lambda>w n. Inr (rv_release w n)))) (\<lambda>released.
          if released then sreturn result else sraise FixtureRunPostCommitMaintenanceError) u)"
    (is "running.keeps _ _ ?body")
  proof (rule running.keepsI)
    fix w
    obtain r u where m: "run_with_shared_lease sha ps ru model ev rq w = (r, u)" by force
    note kept = running.keepsD [OF running_leased m]
    have "running.keeps (json_sha256 sha) (rq_run_id rq)
        (sbind (on_recovery (ask (\<lambda>w n. Inr (rv_release w n)))) (\<lambda>released.
          if released then sreturn x else sraise FixtureRunPostCommitMaintenanceError))" for x :: fixture_run_result
      by (auto intro!: running.keeps_bind)
    moreover have "running.keeps (json_sha256 sha) (rq_run_id rq) (on_recovery (ask (\<lambda>w n. Inr (rv_release w n))))" by simp
    ultimately show "ledger_kept (json_sha256 sha) (rq_run_id rq) (current_database w) (current_database (snd (?body w)))"
      using m ledger_kept_trans [OF kept] by (cases r) (simp_all add: running.keeps_def)
  qed
  then show ?thesis
    unfolding run_fixture_def require_state_identity_def acquire_run_lease_def
    by (intro running.keeps_then) (auto intro!: running_recovery recovering.keeps_bind recovering_observing)
qed

section \<open>A run that returns\<close>

lemma on_artifacts_Inr [result_simps]:
  "on_artifacts m w = (Inr x, u) \<longleftrightarrow> (\<exists>s. m (rn_artifacts w) = (Inr x, s) \<and> u = w\<lparr>rn_artifacts := s\<rparr>)"
  by (auto simp: on_artifacts_def split: prod.splits)

lemma on_authority_Inr [result_simps]:
  "on_authority m w = (Inr x, u) \<longleftrightarrow> (\<exists>s. m (rn_authority w) = (Inr x, s) \<and> u = w\<lparr>rn_authority := s\<rparr>)"
  by (auto simp: on_authority_def split: prod.splits)

lemma on_recovery_Inr:
  "on_recovery m w = (Inr x, u) \<longleftrightarrow> (\<exists>s. m (rn_recovery w) = (Inr x, s) \<and> u = w\<lparr>rn_recovery := s\<rparr>)"
  by (auto simp: on_recovery_def split: prod.splits)

lemma on_events_Inr:
  assumes "on_events m w = (Inr x, u)"
  obtains t where "m (rv_store (rn_recovery w)) = (Inr x, t)" "st_db t = current_database u"
    "rn_artifacts u = rn_artifacts w"
  using assms by (auto simp: on_recovery_Inr on_store_Inr current_database_def)

lemma now_Inr:
  assumes "now w = (Inr x, u)"
  shows "current_database u = current_database w" "rn_artifacts u = rn_artifacts w"
  using assms
  by (auto simp: now_def result_simps on_recovery_Inr on_store_Inr clock_stamp_op_def current_database_def)

lemma find_snoc: "find P xs = None \<Longrightarrow> P y \<Longrightarrow> find P (xs @ [y]) = Some y"
  by (induction xs) (auto split: if_splits)

lemma find_replaced:
  "find (\<lambda>q. k q = i) xs = Some y \<Longrightarrow> k r = i \<Longrightarrow> find (\<lambda>q. k q = i) (map (\<lambda>q. if k q = i then r else q) xs) = Some r"
  by (induction xs) (auto split: if_splits)

lemma save_manifest_effect:
  assumes "save_manifest_locked H i m s = (Inr x, t)" and "valid_manifest m"
  shows "load_manifest_locked H (st_db t) i = Inr m"
proof -
  obtain row db where row: "rm_run_id m = i" "find_run (st_db s) i = Some row"
      "insert_manifest \<lparr>mr_run_id = i, mr_revision = rr_manifest_revision row + 1,
        mr_manifest_json = Canonical m, mr_manifest_sha256 = H (manifest_json m)\<rparr> (st_db s) = Inr db"
      "st_db t = update_run \<lparr>rr_run_id = i, rr_status = status_value (rm_status m),
        rr_manifest_revision = rr_manifest_revision row + 1, rr_manifest_json = Canonical m,
        rr_manifest_sha256 = H (manifest_json m)\<rparr> db"
    using assms(1) by (auto simp: save_manifest_locked_def Let_def result_simps)
  have db: "db = (st_db s)\<lparr>run_manifests := run_manifests (st_db s) @ [\<lparr>mr_run_id = i,
        mr_revision = rr_manifest_revision row + 1, mr_manifest_json = Canonical m,
        mr_manifest_sha256 = H (manifest_json m)\<rparr>]\<rparr>"
    and new: "(i, rr_manifest_revision row + 1) \<notin> (\<lambda>q. (mr_run_id q, mr_revision q)) ` set (run_manifests (st_db s))"
    using row(3) by (auto simp: insert_manifest_def split: if_splits)
  have "find (\<lambda>q. mr_run_id q = i \<and> mr_revision q = rr_manifest_revision row + 1) (run_manifests (st_db s)) = None"
    using new by (auto simp: find_None_iff)
  from find_snoc [OF this]
  have "find (\<lambda>q. mr_run_id q = i \<and> mr_revision q = rr_manifest_revision row + 1) (run_manifests (st_db t))
      = Some \<lparr>mr_run_id = i, mr_revision = rr_manifest_revision row + 1, mr_manifest_json = Canonical m,
          mr_manifest_sha256 = H (manifest_json m)\<rparr>"
    by (simp add: row(4) update_run_def db)
  moreover have "find_run (st_db t) i = Some \<lparr>rr_run_id = i, rr_status = status_value (rm_status m),
        rr_manifest_revision = rr_manifest_revision row + 1, rr_manifest_json = Canonical m,
        rr_manifest_sha256 = H (manifest_json m)\<rparr>"
    using find_replaced [OF row(2) [unfolded find_run_def]] by (simp add: find_run_def row(4) update_run_def db)
  ultimately show ?thesis
    using assms(2) by (simp add: load_manifest_locked_def load_column_def of_option_def require_def rbind_def)
qed

lemma complete_model_response_effect:
  assumes "complete_model_response H i q returned actual patch used held s = (Inr x, t)"
  shows "\<exists>m. load_manifest_locked H (st_db t) i = Inr m \<and> map_of (rm_artifacts m) ''patch'' = Some patch"
proof -
  from assms obtain m current u1 u2 u3 where step:
      "transition_manifest (\<lambda>m. m\<lparr>rm_returned_model := Some returned,
          rm_artifacts := dict_set ''patch'' patch (rm_artifacts m)\<rparr>) current = Inr m"
      "save_manifest_locked H i m u1 = (Inr u2, u3)" "st_db t = update_budget i used held (st_db u3)"
  proof -
    obtain u v where "st_db t = st_db v" and body: "sbind (read_db (\<lambda>db. load_manifest_locked H db i)) (\<lambda>current.
       sbind (read_db (\<lambda>db. validated_state_locked H db i current)) (\<lambda>state.
       sthen (sguard (rs_model_request_state state = Started
         \<and> rs_model_request_id state = Some q) StoreIntegrityError)
      (sbind (slift (of_option StoreIntegrityError (rs_model_request_maximum state))) (\<lambda>maximum.
       sthen (sguard (usage_at_most actual maximum) StoreIntegrityError)
      (sthen (sguard (model_calls actual = 1) StoreIntegrityError)
      (sbind (read_db (\<lambda>db. load_budget_locked H db i)) (\<lambda>(used_before, reserved_before).
       sbind (slift (add_usage used_before actual)) (\<lambda>expected_used.
       sbind (slift (subtract_usage StoreIntegrityError reserved_before maximum)) (\<lambda>expected_reserved.
       sthen (sguard (used = expected_used \<and> held = expected_reserved) StoreIntegrityError)
      (sthen (sguard (''patch'' \<notin> keys (rm_artifacts current)) StoreIntegrityError)
      (sbind (slift (transition_manifest (\<lambda>m. m\<lparr>rm_returned_model := Some returned,
          rm_artifacts := dict_set ''patch'' patch (rm_artifacts m)\<rparr>) current)) (\<lambda>updated.
       sthen (append_locked H i ''model.response_completed''
          [(''actual'', usage_json actual), (''request_id'', JStr q), (''returned_model'', JStr returned)])
      (sthen (append_budget_snapshot_locked H i used held)
      (sthen (append_locked H i ''artifact.recorded'' (artifact_payload ''patch'' patch))
      (sthen (save_manifest_locked H i updated)
      (sthen (update_budget_locked i used held)
      (sreturn updated))))))))))))))))) u = (Inr x, v)"
      using assms unfolding complete_model_response_def by (elim transaction_Inr) blast
    then show thesis
      by (auto simp: result_simps update_budget_locked_def intro!: that)
  qed
  have m: "valid_manifest m" "map_of (rm_artifacts m) ''patch'' = Some patch"
    using validate_manifest_Inr [OF step(1) [unfolded transition_manifest_def]] by (auto simp: strip_manifest_def)
  have "load_manifest_locked H (st_db t) i = load_manifest_locked H (st_db u3) i"
    by (rule load_manifest_tables) (simp_all add: step(3) update_budget_def)
  with save_manifest_effect [OF step(2) m(1)] m(2) show ?thesis by auto
qed

lemma complete_evaluation_effect:
  assumes "complete_evaluation_with_events H i artifacts payload status f reason used held s = (Inr (m, es), t)"
    and "is_dict artifacts" and "load_manifest_locked H (st_db s) i = Inr current"
  shows "terminal_outcome H i m es (st_db t)" "rm_status m = status" "\<exists>roots. verified_roots H (st_db t) = Inr roots"
    "rm_artifacts m = dict_update (rm_artifacts current) artifacts"
    "map_of artifacts n = Some r \<Longrightarrow> map_of (rm_artifacts m) n = Some r"
    "map_of (rm_artifacts current) n = Some r \<Longrightarrow> map_of (rm_artifacts m) n = Some r"
proof -
  from assms(1) obtain roots' where b: "is_terminal status"
      "verified_roots H (st_db t) = Inr roots'"
      "list_all (\<lambda>n. n \<notin> keys (rm_artifacts current)) (map fst artifacts)"
      "transition_manifest (\<lambda>m. m\<lparr>rm_status := status, rm_finished_at := Some f,
          rm_terminal_reason := reason, rm_artifacts := dict_update (rm_artifacts m) artifacts\<rparr>) current = Inr m"
      "validate_terminal_state_locked H (st_db t) i m = Inr ()" "list_events_locked H (st_db t) i = Inr es"
    unfolding complete_evaluation_with_events_def sthen_Inr sguard_Inr slift_Inr
    using assms(3) by (elim exE conjE transaction_Inr) (auto simp: result_simps terminal_result_of_def)
  have m: "rm_status m = status" "rm_artifacts m = dict_update (rm_artifacts current) artifacts"
    using validate_manifest_Inr [OF b(4) [unfolded transition_manifest_def]] by (auto simp: strip_manifest_def)
  then show "rm_status m = status" "rm_artifacts m = dict_update (rm_artifacts current) artifacts" by simp_all
  show "terminal_outcome H i m es (st_db t)" using b m by (simp add: terminal_outcome_def)
  show "\<exists>roots. verified_roots H (st_db t) = Inr roots" using b(2) by blast
  show "map_of artifacts n = Some r \<Longrightarrow> map_of (rm_artifacts m) n = Some r"
    by (simp add: m(2) assms(2))
  assume n: "map_of (rm_artifacts current) n = Some r"
  have "map_of artifacts n = None"
    using b(3) n by (force simp: list_all_iff map_of_eq_None_iff dest: map_of_SomeD)
  with n show "map_of (rm_artifacts m) n = Some r" by (simp add: m(2) assms(2) map_add_def)
qed

lemma put_text_binds:
  assumes "put_text sha txt mt s = (Inr ref, t)"
  shows "ar_sha256 ref = sha (utf8_encode txt)"
    "\<exists>b. blob sha t (sha (utf8_encode txt)) = Some b \<and> sha b = sha (utf8_encode txt) \<and> length b = length (utf8_encode txt)"
  using file_store.put_law [OF assms [unfolded put_text_def]] by (auto simp: abstract_put_def)

text \<open>What a returned result, the database and the artifact store agree on.\<close>

definition result_recorded ::
    "(nat list \<Rightarrow> string) \<Rightarrow> string \<Rightarrow> evaluation_result \<Rightarrow> run_manifest \<Rightarrow> event_record list \<Rightarrow> database
      \<Rightarrow> (string \<Rightarrow> nat list option) \<Rightarrow> bool" where
  "result_recorded sha run_id evaluation m es db blobs =
     (let data = utf8_encode (dumps (evaluation_result_json evaluation)) in
      terminal_outcome (json_sha256 sha) run_id m es db \<and> (\<exists>roots. verified_roots (json_sha256 sha) db = Inr roots)
      \<and> rm_status m = er_run_status evaluation \<and> (rm_status m = SUCCEEDED \<longleftrightarrow> er_outcome evaluation = Passed)
      \<and> (\<exists>patch. map_of (rm_artifacts m) ''patch'' = Some patch \<and> er_patch_hash evaluation = Some (ar_sha256 patch))
      \<and> (\<exists>ref b. map_of (rm_artifacts m) ''evaluation'' = Some ref \<and> ar_sha256 ref = sha data
           \<and> blobs (sha data) = Some b \<and> sha b = sha data \<and> length b = length data))"

lemma to_domain_result_Inr:
  assumes "to_domain_result H r task i run_id status v p t = Inr e"
  shows "er_run_status e = status" "er_patch_hash e = Some p" "er_task_hash e = ts_task_content_hash task"
    "er_outcome e = fst (outcome_and_score (lr_status r))"
  using assms
  by (auto simp: to_domain_result_def make_evaluation_result_def Let_def result_simps split: prod.splits if_splits)

lemma make_evaluation_result_Inr:
  assumes "make_evaluation_result H e = Inr e'"
  shows "er_run_status e' = er_run_status e" "er_patch_hash e' = er_patch_hash e" "er_task_hash e' = er_task_hash e"
    "er_outcome e' = er_outcome e"
  using assms by (auto simp: make_evaluation_result_def Let_def split: if_splits)

lemma terminal_status_passed:
  "terminal_status s = SUCCEEDED \<longleftrightarrow> fst (outcome_and_score s) = Passed"
  by (cases s) (simp_all add: outcome_and_score_def)

lemma store_evidence_Inr:
  assumes "store_evidence sha r w = (Inr (evidence, artifacts), u)"
  shows "is_dict artifacts" "current_database u = current_database w"
proof -
  have tr: "is_dict (snd acc') \<and> current_database v' = current_database v"
    if "put_transcript sha n d acc v = (Inr acc', v')" "is_dict (snd acc)" for n d acc v acc' v'
    using that by (auto simp: put_transcript_def result_simps current_database_def split: option.splits)
  have base: "is_dict [(''evaluation_stderr'', a), (''evaluation_stdout'', b)]" for a b :: artifact_ref
    by code_simp
  from assms obtain a b acc v v' where "put_transcript sha ''evaluation_candidate_stdout'' (lr_raw_candidate_stdout r)
        ([a, b], [(''evaluation_stderr'', b), (''evaluation_stdout'', a)]) v = (Inr acc, v')"
      "put_transcript sha ''evaluation_scorer_stdout'' (lr_raw_scorer_stdout r) acc v' = (Inr (evidence, artifacts), u)"
      "current_database v = current_database w"
    by (auto simp: store_evidence_def result_simps current_database_def)
  then have second: "put_transcript sha ''evaluation_scorer_stdout'' (lr_raw_scorer_stdout r) acc v' = (Inr (evidence, artifacts), u)"
    and acc: "is_dict (snd acc)" "current_database v' = current_database w"
    using base tr by fastforce+
  from tr [OF second acc(1)] acc(2) show "is_dict artifacts" "current_database u = current_database w" by simp_all
qed

lemma evaluate_patch_Inr:
  "evaluate_patch sha ev spec p w = (Inr r, u) \<Longrightarrow> current_database u = current_database w"
  by (auto simp: evaluate_patch_def result_simps current_database_def)

lemma finish_run_Inr:
  assumes "finish_run sha ev i task spec p w = (Inr (e, (m, es)), u)"
    and "load_manifest_locked (json_sha256 sha) (current_database w) i = Inr current"
    and "map_of (rm_artifacts current) ''patch'' = Some p"
  shows "result_recorded sha i e m es (current_database u) (blob sha (rn_artifacts u))
    \<and> er_task_hash e = ts_task_content_hash task"
proof -
  let ?H = "json_sha256 sha"
  from assms(1) obtain r w1 t1 w2 e0 evidence artifacts w3 ref w4 f w5 held w6 used where step:
      "evaluate_patch sha ev spec p w = (Inr r, w1)" "now w1 = (Inr t1, w2)"
      "to_domain_result ?H r task (i @ '':evaluation:0001'') i (terminal_status (lr_status r))
        (ev_evaluator_version ev) (ar_sha256 p) t1 = Inr e0"
      "store_evidence sha r w2 = (Inr (evidence, artifacts), w3)"
      "make_evaluation_result ?H (e0\<lparr>er_evidence := evidence\<rparr>) = Inr e"
      "on_artifacts (put_text sha (dumps (evaluation_result_json e)) ''application/vnd.guildmind.evaluation+json'') w3
        = (Inr ref, w4)" "now w4 = (Inr f, w5)" "on_authority (sread reserved) w5 = (Inr held, w6)"
    and last_step: "on_events (complete_evaluation_with_events ?H i (dict_set ''evaluation'' ref artifacts)
        (evaluation_payload_of e r) (terminal_status (lr_status r)) f
        (if terminal_status (lr_status r) = SUCCEEDED then None else Some (evaluation_status_value (lr_status r)))
        used held) w6 = (Inr (m, es), u)"
    unfolding finish_run_def Let_def sbind_Inr slift_Inr sget_Inr sreturn_Inr prod.case_eq_if prod.collapse
    by (elim exE conjE) (metis fst_conv snd_conv prod.collapse)
  obtain s where put: "put_text sha (dumps (evaluation_result_json e)) ''application/vnd.guildmind.evaluation+json''
      (rn_artifacts w3) = (Inr ref, s)" "w4 = w3\<lparr>rn_artifacts := s\<rparr>"
    using step(6) by (auto simp: on_artifacts_Inr)
  have db: "current_database w6 = current_database w" and arts: "rn_artifacts w6 = s"
    using evaluate_patch_Inr [OF step(1)] now_Inr [OF step(2)] store_evidence_Inr [OF step(4)] now_Inr [OF step(7)]
      step(8) put(2) by (auto simp: on_authority_Inr current_database_def)
  obtain t where t: "complete_evaluation_with_events ?H i (dict_set ''evaluation'' ref artifacts)
        (evaluation_payload_of e r) (terminal_status (lr_status r)) f
        (if terminal_status (lr_status r) = SUCCEEDED then None else Some (evaluation_status_value (lr_status r)))
        used held (rv_store (rn_recovery w6)) = (Inr (m, es), t)"
      "st_db t = current_database u" "rn_artifacts u = rn_artifacts w6"
    using last_step by (rule on_events_Inr)
  have d: "is_dict (dict_set ''evaluation'' ref artifacts)"
    using store_evidence_Inr [OF step(4)] by simp
  have cur: "load_manifest_locked ?H (st_db (rv_store (rn_recovery w6))) i = Inr current"
    using assms(2) db by (simp add: current_database_def)
  note done_facts = complete_evaluation_effect [OF t(1) d cur]
  have e: "er_run_status e = terminal_status (lr_status r)" "er_patch_hash e = Some (ar_sha256 p)"
      "er_task_hash e = ts_task_content_hash task" "er_outcome e = fst (outcome_and_score (lr_status r))"
    using to_domain_result_Inr [OF step(3)] make_evaluation_result_Inr [OF step(5)] by simp_all
  have "map_of (rm_artifacts m) ''evaluation'' = Some ref" "map_of (rm_artifacts m) ''patch'' = Some p"
    using done_facts(5) [of "''evaluation''" ref] done_facts(6) [OF assms(3)] by simp_all
  then show ?thesis
    using done_facts(1-3) e put_text_binds [OF put(1)] t(2,3) arts terminal_status_passed [of "lr_status r"]
    unfolding result_recorded_def Let_def by auto
qed

lemma request_patch_Inr:
  assumes "request_patch sha i model s w = (Inr p, u)"
  shows "\<exists>m. load_manifest_locked (json_sha256 sha) (current_database u) i = Inr m
    \<and> map_of (rm_artifacts m) ''patch'' = Some p"
proof -
  have "\<exists>(response :: model_response) used held v x. on_events (complete_model_response (json_sha256 sha) i reservation_id
      (mre_returned_model response) (mre_usage response) p used held) v = (Inr x, u)"
    using assms unfolding request_patch_def Let_def sbind_Inr sthen_Inr sget_Inr sreturn_Inr
    by (elim exE conjE) (simp only:, intro exI, assumption)
  then obtain response :: model_response and used held v x where "on_events (complete_model_response (json_sha256 sha) i reservation_id
      (mre_returned_model response) (mre_usage response) p used held) v = (Inr x, u)" by blast
  then show ?thesis
    by (rule on_events_Inr) (use complete_model_response_effect in fastforce)
qed

lemma run_in_store_Inr:
  assumes "run_in_store sha model ev pending i task spec statement a w = (Inr (e, (m, es)), u)"
  shows "result_recorded sha i e m es (current_database u) (blob sha (rn_artifacts u))
    \<and> er_task_hash e = ts_task_content_hash task"
proof -
  from assms obtain p v v' where "request_patch sha i model statement v = (Inr p, v')"
      "finish_run sha ev i task spec p v' = (Inr (e, (m, es)), u)"
    unfolding run_in_store_def sbind_Inr sthen_Inr by blast
  with request_patch_Inr finish_run_Inr show ?thesis by blast
qed

text \<open>The result of a run: what is recorded, and the derived replay and digest.\<close>

definition result_certified ::
    "(nat list \<Rightarrow> string) \<Rightarrow> string \<Rightarrow> fixture_run_result \<Rightarrow> database \<Rightarrow> (string \<Rightarrow> nat list option) \<Rightarrow> bool" where
  "result_certified sha run_id result db blobs =
     (result_recorded sha run_id (fr_evaluation result) (fr_manifest result) (fr_events result) db blobs
      \<and> er_task_hash (fr_evaluation result) = ts_task_content_hash (fr_task result)
      \<and> replay_events (json_sha256 sha) True (fr_events result) = Inr (fr_replay result)
      \<and> semantic_digest (json_sha256 sha) (fr_events result) = Inr (fr_semantic_digest result))"

lemma run_with_shared_lease_Inr:
  assumes "run_with_shared_lease sha ps ru model ev rq w = (Inr result, u)"
  shows "result_certified sha (rq_run_id rq) result (current_database u) (blob sha (rn_artifacts u))"
proof -
  from assms obtain task spec statement a pending e m es v replay digest where step:
      "(case run_in_store sha model ev pending (rq_run_id rq) task spec statement a v of
          (Inl e, u) \<Rightarrow> (Inl e, after_exception sha ps (ru_is_root ru) (rq_run_id rq) e u)
        | r \<Rightarrow> r) = (Inr (e, (m, es)), u)"
      "replay_events (json_sha256 sha) True es = Inr replay" "semantic_digest (json_sha256 sha) es = Inr digest"
      "result = \<lparr>fr_task = task, fr_manifest = m, fr_evaluation = e, fr_events = es,
        fr_replay = replay, fr_semantic_digest = digest\<rparr>"
    unfolding run_with_shared_lease_def Let_def sbind_Inr sthen_Inr slift_Inr sreturn_Inr
    by (auto simp: sbind_Inr sthen_Inr slift_Inr sreturn_Inr)
  from step(1) have "run_in_store sha model ev pending (rq_run_id rq) task spec statement a v = (Inr (e, (m, es)), u)"
    by (auto split: prod.splits sum.splits)
  from run_in_store_Inr [OF this] step show ?thesis by (simp add: result_certified_def)
qed

lemma released_world:
  "on_recovery (ask f) w = (r, u) \<Longrightarrow> current_database u = current_database w \<and> rn_artifacts u = rn_artifacts w"
  by (auto simp: on_recovery_def ask_def on_world_def answer_def current_database_def split: prod.splits)

lemma run_fixture_Inr:
  assumes "run_fixture sha ps ru model ev rq w = (Inr result, u)"
  shows "result_certified sha (rq_run_id rq) result (current_database u) (blob sha (rn_artifacts u))"
proof -
  from assms obtain v where "(case run_with_shared_lease sha ps ru model ev rq v of
        (Inl e, u) \<Rightarrow> (Inl e, snd (on_recovery (ask (\<lambda>w n. Inr (rv_release w n))) u))
      | (Inr result, u) \<Rightarrow>
          sbind (on_recovery (ask (\<lambda>w n. Inr (rv_release w n)))) (\<lambda>released.
          if released then sreturn result else sraise FixtureRunPostCommitMaintenanceError) u) = (Inr result, u)"
    unfolding run_fixture_def sthen_Inr by blast
  then obtain x ok where "run_with_shared_lease sha ps ru model ev rq v = (Inr result, x)"
      "on_recovery (ask (\<lambda>w n. Inr (rv_release w n))) x = (Inr ok, u)"
    by (auto simp: result_simps split: prod.splits sum.splits if_splits)
  with run_with_shared_lease_Inr [of sha ps ru model ev rq v result x] released_world show ?thesis by metis
qed

section \<open>Properties\<close>

text \<open>C1: a run asks the provider at most once, and only after the request and its maximum are committed: at the time
  of the call the ledger verifies, records the request, and reserves the maximum for the running run within
  its limits. This holds whatever the provider, the evaluator, the file system and the clock answer.\<close>

theorem requests_are_reserved_first:
  "case run_fixture sha ps ru model ev rq w of (r, u) \<Rightarrow>
     rn_calls u = rn_calls w
     \<or> (\<exists>db. rn_calls u = rn_calls w @ [db]
          \<and> request_admitted (json_sha256 sha) (rq_run_id rq) reservation_id (mc_maximum_usage model) db)"
  using once_run_fixture [of sha rq model ps ru ev] by (auto simp: once_def split: prod.split) (metis snd_conv)+

text \<open>C3: whatever the provider, the evaluator, the file system and the lease answer and whether it raises or
  not, a run leaves the database as it was or one that verifies, only extends the event log, the
  manifest history and the list of runs, and does not touch the rows of any other run. The
  recoveries that the exception handlers attempt are included.\<close>

theorem runs_keep_the_ledger:
  "case run_fixture sha ps ru model ev rq w of (r, u) \<Rightarrow>
     ledger_kept (json_sha256 sha) (rq_run_id rq) (current_database w) (current_database u)"
  using running_run [of sha rq ps ru model ev] by (auto simp: running.keeps_def split: prod.split) (metis snd_conv)

text \<open>C2: a run that returns is certified by what it committed: its manifest is terminal in a ledger that
  verifies, with the events it returns; it succeeded exactly when the evaluation passed; the
  evaluation names the hash of the committed patch and of the task, is itself committed as an artifact and
  its bytes are published in the artifact store; and replay and digest are those of the events.\<close>

theorem returned_run_is_certified:
  "case run_fixture sha ps ru model ev rq w of
     (Inl e, u) \<Rightarrow> True
   | (Inr result, u) \<Rightarrow> result_certified sha (rq_run_id rq) result (current_database u) (blob sha (rn_artifacts u))"
  using run_fixture_Inr [of sha ps ru model ev rq w] by (auto split: prod.split sum.split)

end
