(* ===== verification/Patch.thy ===== *)
theory Patch
  imports Py_Path
begin

text \<open>
  Model of \<open>src/src/guildmind/sandbox/local.py\<close>: the patch policy, the parser of the narrow unified-diff
  format, the checks of the workspace and the application of a patch to a copy. A patch is text over all
  of Unicode, so it is the list of its code points (\<open>py_text\<close>); paths are \<open>py_text\<close> too. The parser walks
  the list of lines; a line index of the code is the length of what has been consumed. What \<open>lstat\<close>,
  \<open>open\<close>, \<open>read\<close>, \<open>copytree\<close> and \<open>git apply\<close> answer is data.
\<close>

type_synonym py_text = "nat list"

definition ascii :: "string \<Rightarrow> py_text" where
  "ascii s = map of_char s"

section \<open>Decoding and lines\<close>

text \<open>\<open>bytes.decode("utf-8")\<close>: no overlong forms, no surrogates, nothing above \<open>0x10FFFF\<close>.\<close>

definition continuation_byte :: "nat \<Rightarrow> bool" where
  "continuation_byte b = (128 \<le> b \<and> b < 192)"

fun utf8_decode :: "nat list \<Rightarrow> py_text option" where
  "utf8_decode [] = Some []"
| "utf8_decode (a # bs) =
     (if a < 128 then map_option (Cons a) (utf8_decode bs)
      else if a < 194 then None
      else if a < 224 then
        (case bs of
           b # rest \<Rightarrow>
             if continuation_byte b then map_option (Cons ((a - 192) * 64 + (b - 128))) (utf8_decode rest) else None
         | _ \<Rightarrow> None)
      else if a < 240 then
        (case bs of
           b # c # rest \<Rightarrow>
             let p = (a - 224) * 4096 + (b - 128) * 64 + (c - 128) in
             if continuation_byte b \<and> continuation_byte c \<and> 2048 \<le> p \<and> \<not> (55296 \<le> p \<and> p \<le> 57343)
             then map_option (Cons p) (utf8_decode rest) else None
         | _ \<Rightarrow> None)
      else if a < 245 then
        (case bs of
           b # c # d # rest \<Rightarrow>
             let p = (a - 240) * 262144 + (b - 128) * 4096 + (c - 128) * 64 + (d - 128) in
             if continuation_byte b \<and> continuation_byte c \<and> continuation_byte d \<and> 65536 \<le> p \<and> p \<le> 1114111
             then map_option (Cons p) (utf8_decode rest) else None
         | _ \<Rightarrow> None)
      else None)"

text \<open>\<open>str.splitlines\<close>: a carriage return and a line feed are one boundary, a final boundary starts no line.\<close>

definition line_boundary :: "nat \<Rightarrow> bool" where
  "line_boundary c = (c \<in> {10, 11, 12, 13, 28, 29, 30, 133, 8232, 8233})"

fun split_lines_from :: "py_text \<Rightarrow> py_text \<Rightarrow> py_text list" where
  "split_lines_from acc [] = (if acc = [] then [] else [rev acc])"
| "split_lines_from acc (c # cs) =
     (if \<not> line_boundary c then split_lines_from (c # acc) cs
      else if c = 13 then
        (case cs of
           d # ds \<Rightarrow> if d = 10 then rev acc # split_lines_from [] ds else rev acc # split_lines_from [] cs
         | [] \<Rightarrow> [rev acc])
      else rev acc # split_lines_from [] cs)"

definition splitlines :: "py_text \<Rightarrow> py_text list" where
  "splitlines txt = split_lines_from [] txt"

text \<open>The decimal digits of Unicode 15, which \<open>\d\<close> matches and \<open>int\<close> reads, come in runs of ten.\<close>

definition digit_zeros :: "nat list" where
  "digit_zeros = [48, 1632, 1776, 1984, 2406, 2534, 2662, 2790, 2918, 3046, 3174, 3302, 3430, 3558, 3664, 3792,
     3872, 4160, 4240, 6112, 6160, 6470, 6608, 6784, 6800, 6992, 7088, 7232, 7248, 42528, 43216, 43264, 43472,
     43504, 43600, 44016, 65296, 66720, 68912, 69734, 69872, 69942, 70096, 70384, 70736, 70864, 71248, 71360,
     71472, 71904, 72016, 72784, 73040, 73120, 73552, 92768, 92864, 93008, 120782, 120792, 120802, 120812, 120822,
     123200, 123632, 124144, 125264, 130032]"

definition digit_of :: "nat \<Rightarrow> nat option" where
  "digit_of c = map_option (\<lambda>z. c - z) (find (\<lambda>z. z \<le> c \<and> c < z + 10) digit_zeros)"

definition is_decimal :: "nat \<Rightarrow> bool" where
  "is_decimal c = (digit_of c \<noteq> None)"

definition read_int :: "py_text \<Rightarrow> nat" where
  "read_int ds = foldl (\<lambda>n c. n * 10 + (case digit_of c of None \<Rightarrow> 0 | Some d \<Rightarrow> d)) 0 ds"

fun strip_prefix :: "'a list \<Rightarrow> 'a list \<Rightarrow> 'a list option" where
  "strip_prefix [] s = Some s"
| "strip_prefix (p # ps) [] = None"
| "strip_prefix (p # ps) (x # xs) = (if p = x then strip_prefix ps xs else None)"

definition line_starts :: "string \<Rightarrow> py_text \<Rightarrow> bool" where
  "line_starts p line = (strip_prefix (ascii p) line \<noteq> None)"

section \<open>Paths and the policy\<close>

text \<open>\<open>_SAFE_PATH\<close> is \<open>[A-Za-z0-9._/-]+\<close>; a path that matches it is ASCII, so its \<open>casefold\<close> is its lower case.\<close>

definition safe_path_char :: "nat \<Rightarrow> bool" where
  "safe_path_char c =
     ((65 \<le> c \<and> c \<le> 90) \<or> (97 \<le> c \<and> c \<le> 122) \<or> (48 \<le> c \<and> c \<le> 57) \<or> c \<in> {46, 95, 47, 45})"

definition lower_char :: "char \<Rightarrow> char" where
  "lower_char c = (if CHR ''A'' \<le> c \<and> c \<le> CHR ''Z'' then char_of (of_char c + 32 :: nat) else c)"

fun double_slash :: "string \<Rightarrow> bool" where
  "double_slash (c # d # s) = ((c = CHR ''/'' \<and> d = CHR ''/'') \<or> double_slash (d # s))"
| "double_slash s = False"

definition validate_relative_path :: "py_text \<Rightarrow> unit result" where
  "validate_relative_path p =
     (let s = map char_of p; parts = split_on slash s in
      rbind (require (p \<noteq> [] \<and> list_all safe_path_char p) PatchValidationError) (\<lambda>_.
      rbind (require (\<not> (starts_with ''/'' s \<or> last s = CHR ''/'' \<or> double_slash s
        \<or> CHR 0x5C \<in> set s)) PatchValidationError) (\<lambda>_.
      rbind (require (\<not> list_ex (\<lambda>q. q \<in> {[], ''.'', ''..''}) parts) PatchValidationError) (\<lambda>_.
      require (\<not> list_ex (\<lambda>q. map lower_char q = ''.git'') parts) PatchValidationError))))"

record patch_policy =
  pp_allowed_paths :: "py_text list"
  pp_max_patch_bytes :: int
  pp_max_files :: int

definition PatchPolicy :: "patch_policy \<Rightarrow> patch_policy result" where
  "PatchPolicy policy =
     rbind (require (pp_allowed_paths policy \<noteq> []) ValueError) (\<lambda>_.
     rbind (require (0 < pp_max_patch_bytes policy) ValueError) (\<lambda>_.
     rbind (require (0 < pp_max_files policy) ValueError) (\<lambda>_.
     rbind (require (distinct (pp_allowed_paths policy)) ValueError) (\<lambda>_.
     rbind (rfold (\<lambda>p _. validate_relative_path p) (pp_allowed_paths policy) ()) (\<lambda>_.
     Inr policy)))))"

section \<open>Headers\<close>

text \<open>\<open>_DIFF_HEADER\<close>: neither path contains a space, so the first space ends the old path.\<close>

definition diff_header :: "py_text \<Rightarrow> (py_text \<times> py_text) option" where
  "diff_header line =
     (case strip_prefix (ascii ''diff --git a/'') line of
        None \<Rightarrow> None
      | Some rest \<Rightarrow>
          let old = takeWhile (\<lambda>c. c \<noteq> 32) rest in
          (case strip_prefix (ascii '' b/'') (drop (length old) rest) of
             None \<Rightarrow> None
           | Some new \<Rightarrow> if old \<noteq> [] \<and> new \<noteq> [] \<and> 32 \<notin> set new then Some (old, new) else None))"

definition is_hex_code :: "nat \<Rightarrow> bool" where
  "is_hex_code c = ((48 \<le> c \<and> c \<le> 57) \<or> (97 \<le> c \<and> c \<le> 102) \<or> (65 \<le> c \<and> c \<le> 70))"

text \<open>\<open>_INDEX_HEADER\<close> and its group \<open>mode\<close>.\<close>

definition index_header :: "py_text \<Rightarrow> py_text option option" where
  "index_header line =
     (case strip_prefix (ascii ''index '') line of
        None \<Rightarrow> None
      | Some rest \<Rightarrow>
          let old = takeWhile is_hex_code rest in
          (case strip_prefix (ascii ''..'') (drop (length old) rest) of
             None \<Rightarrow> None
           | Some rest' \<Rightarrow>
               let new = takeWhile is_hex_code rest'; tail = drop (length new) rest' in
               if \<not> (4 \<le> length old \<and> length old \<le> 64 \<and> 4 \<le> length new \<and> length new \<le> 64) then None
               else if tail = [] then Some None
               else if hd tail = 32 \<and> length tail = 7 \<and> list_all (\<lambda>c. 48 \<le> c \<and> c \<le> 55) (tl tail)
                 then Some (Some (tl tail))
               else None))"

text \<open>One range of \<open>_HUNK_HEADER\<close>: digits, and optionally a comma and more digits.\<close>

definition hunk_range :: "py_text \<Rightarrow> (py_text \<times> py_text option \<times> py_text) option" where
  "hunk_range s =
     (let start = takeWhile is_decimal s; rest = drop (length start) s in
      if start = [] then None
      else if rest \<noteq> [] \<and> hd rest = 44 then
        (let count = takeWhile is_decimal (tl rest) in
         if count = [] then None else Some (start, Some count, drop (length count) (tl rest)))
      else Some (start, None, rest))"

definition hunk_header :: "py_text \<Rightarrow> (py_text \<times> py_text option \<times> py_text \<times> py_text option) option" where
  "hunk_header line =
     (case strip_prefix (ascii ''@@ -'') line of
        None \<Rightarrow> None
      | Some r1 \<Rightarrow>
          (case hunk_range r1 of
             None \<Rightarrow> None
           | Some (old_start, old_count, r2) \<Rightarrow>
               (case strip_prefix (ascii '' +'') r2 of
                  None \<Rightarrow> None
                | Some r3 \<Rightarrow>
                    (case hunk_range r3 of
                       None \<Rightarrow> None
                     | Some (new_start, new_count, r4) \<Rightarrow>
                         (case strip_prefix (ascii '' @@'') r4 of
                            None \<Rightarrow> None
                          | Some r5 \<Rightarrow>
                              if r5 = [] \<or> hd r5 = 32 then Some (old_start, old_count, new_start, new_count)
                              else None)))))"

definition MAX_HUNK_NUMBER_DIGITS :: nat where "MAX_HUNK_NUMBER_DIGITS = 9"

text \<open>The declared line counts of a header, if it is one and its numbers are not too large.\<close>

definition hunk_counts :: "py_text \<Rightarrow> (nat \<times> nat) result" where
  "hunk_counts line =
     rbind (of_option PatchValidationError (hunk_header line)) (\<lambda>(old_start, old_count, new_start, new_count).
     rbind (require (list_all (\<lambda>v. case v of None \<Rightarrow> True | Some ds \<Rightarrow> length ds \<le> MAX_HUNK_NUMBER_DIGITS)
         [Some old_start, old_count, Some new_start, new_count]) PatchValidationError) (\<lambda>_.
     let count = (\<lambda>v. case v of None \<Rightarrow> 1 | Some ds \<Rightarrow> read_int ds) in
     Inr (count old_count, count new_count)))"

section \<open>Hunks and sections\<close>

definition no_newline_marker :: py_text where
  "no_newline_marker = 92 # ascii '' No newline at end of file''"

text \<open>The \<open>while\<close> loop over the lines of a hunk; \<open>first\<close> says that no line has been consumed. The result is the
  remaining lines and the number of changes.\<close>

fun hunk_lines :: "nat \<Rightarrow> nat \<Rightarrow> nat \<Rightarrow> nat \<Rightarrow> nat \<Rightarrow> bool \<Rightarrow> py_text list \<Rightarrow> (py_text list \<times> nat) result" where
  "hunk_lines old_count new_count old_seen new_seen changes first [] =
     (if old_seen < old_count \<or> new_seen < new_count then Inl PatchValidationError else Inr ([], changes))"
| "hunk_lines old_count new_count old_seen new_seen changes first (line # lines) =
     (if \<not> (old_seen < old_count \<or> new_seen < new_count) then Inr (line # lines, changes)
      else if line = no_newline_marker then
        (if first then Inl PatchValidationError
         else hunk_lines old_count new_count old_seen new_seen changes False lines)
      else
        (case (if take 1 line = [32] then Some (Suc old_seen, Suc new_seen, changes)
               else if take 1 line = [45] then Some (Suc old_seen, new_seen, Suc changes)
               else if take 1 line = [43] then Some (old_seen, Suc new_seen, Suc changes)
               else None) of
           None \<Rightarrow> Inl PatchValidationError
         | Some (old', new', changes') \<Rightarrow>
             if old_count < old' \<or> new_count < new' then Inl PatchValidationError
             else hunk_lines old_count new_count old' new' changes' False lines))"

definition parse_hunk :: "py_text \<Rightarrow> py_text list \<Rightarrow> (py_text list \<times> nat) result" where
  "parse_hunk header lines =
     rbind (hunk_counts header) (\<lambda>(old_count, new_count).
     rbind (hunk_lines old_count new_count 0 0 0 True lines) (\<lambda>(rest, changes).
     Inr (dropWhile (\<lambda>l. l = no_newline_marker) rest, changes)))"

lemma hunk_lines_shorter: "hunk_lines a b c d e f lines = Inr (rest, k) \<Longrightarrow> length rest \<le> length lines"
  by (induction a b c d e f lines rule: hunk_lines.induct) (fastforce split: if_splits option.splits)+

lemma parse_hunk_shorter: "parse_hunk header lines = Inr (rest, k) \<Longrightarrow> length rest \<le> length lines"
  using length_dropWhile_le order_trans
  by (auto simp: parse_hunk_def result_simps dest!: hunk_lines_shorter) blast

text \<open>The loop over the hunks of one file: the remaining lines, the number of hunks and of changes.\<close>

function parse_hunks :: "py_text list \<Rightarrow> nat \<Rightarrow> nat \<Rightarrow> (py_text list \<times> nat \<times> nat) result" where
  "parse_hunks [] hunks changes = Inr ([], hunks, changes)"
| "parse_hunks (line # lines) hunks changes =
     (if \<not> line_starts ''@@'' line then Inr (line # lines, hunks, changes)
      else
        (case parse_hunk line lines of
           Inl e \<Rightarrow> Inl e
         | Inr (rest, found) \<Rightarrow> parse_hunks rest (Suc hunks) (changes + found)))"
  by pat_completeness auto
termination
  by (relation "measure (\<lambda>(lines, _, _). length lines)") (auto dest: parse_hunk_shorter)

lemma parse_hunks_shorter: "parse_hunks lines h c = Inr (rest, k) \<Longrightarrow> length rest \<le> length lines"
proof (induction lines h c rule: parse_hunks.induct)
  case (2 line lines h c)
  show ?case
  proof (cases "line_starts ''@@'' line")
    case True
    then obtain r m where h: "parse_hunk line lines = Inr (r, m)" "parse_hunks r (Suc h) (c + m) = Inr (rest, k)"
      using 2(2) by (auto split: sum.splits)
    from 2(1) [OF _ h(1) refl h(2)] True parse_hunk_shorter [OF h(1)] show ?thesis by simp
  qed (use 2(2) in simp)
qed simp

definition index_line :: "py_text list \<Rightarrow> py_text list result" where
  "index_line lines =
     (case lines of
        line # rest \<Rightarrow>
          if line_starts ''index '' line then
            rbind (of_option PatchValidationError (index_header line)) (\<lambda>mode.
            rbind (require (case mode of None \<Rightarrow> True | Some m \<Rightarrow> m = ascii ''100644'') PatchValidationError) (\<lambda>_.
            Inr rest))
          else Inr lines
      | [] \<Rightarrow> Inr [])"

definition expect_line :: "py_text \<Rightarrow> py_text list \<Rightarrow> py_text list result" where
  "expect_line expected lines =
     (case lines of
        line # rest \<Rightarrow> if line = expected then Inr rest else Inl PatchValidationError
      | [] \<Rightarrow> Inl PatchValidationError)"

text \<open>One file of the patch: its path, the number of changes and the lines after it.\<close>

definition parse_section :: "patch_policy \<Rightarrow> py_text list \<Rightarrow> py_text \<Rightarrow> py_text list \<Rightarrow> (py_text \<times> nat \<times> py_text list) result" where
  "parse_section policy paths line lines =
     rbind (of_option PatchValidationError (diff_header line)) (\<lambda>(old_path, new_path).
     rbind (require (old_path = new_path) PatchValidationError) (\<lambda>_.
     rbind (validate_relative_path old_path) (\<lambda>_.
     rbind (require (old_path \<in> set (pp_allowed_paths policy)) PatchValidationError) (\<lambda>_.
     rbind (require (old_path \<notin> set paths) PatchValidationError) (\<lambda>_.
     rbind (require (\<not> pp_max_files policy < int (length (paths @ [old_path]))) PatchValidationError) (\<lambda>_.
     rbind (index_line lines) (\<lambda>lines1.
     rbind (expect_line (ascii ''--- a/'' @ old_path) lines1) (\<lambda>lines2.
     rbind (expect_line (ascii ''+++ b/'' @ new_path) lines2) (\<lambda>lines3.
     rbind (parse_hunks lines3 0 0) (\<lambda>(rest, hunks, changes).
     rbind (require (\<not> (hunks = 0 \<or> changes = 0)) PatchValidationError) (\<lambda>_.
     rbind (require (rest = [] \<or> line_starts ''diff --git '' (hd rest)) PatchValidationError) (\<lambda>_.
     Inr (old_path, changes, rest)))))))))))))"

lemma index_line_shorter: "index_line lines = Inr rest \<Longrightarrow> length rest \<le> length lines"
  by (auto simp: index_line_def result_simps split: list.splits if_splits)

lemma expect_line_Inr: "expect_line x lines = Inr rest \<longleftrightarrow> lines = x # rest"
  by (auto simp: expect_line_def split: list.splits if_splits)

lemma parse_section_shorter:
  "parse_section policy paths line lines = Inr (p, c, rest) \<Longrightarrow> length rest \<le> length lines"
  by (auto simp: parse_section_def result_simps expect_line_Inr dest!: index_line_shorter parse_hunks_shorter)

function parse_sections ::
    "patch_policy \<Rightarrow> py_text list \<Rightarrow> py_text list \<Rightarrow> nat \<Rightarrow> (py_text list \<times> nat) result" where
  "parse_sections policy [] paths total_changes = Inr (paths, total_changes)"
| "parse_sections policy (line # lines) paths total_changes =
     (case parse_section policy paths line lines of
        Inl e \<Rightarrow> Inl e
      | Inr (path, changes, rest) \<Rightarrow> parse_sections policy rest (paths @ [path]) (total_changes + changes))"
  by pat_completeness auto
termination
  by (relation "measure (\<lambda>(_, lines, _, _). length lines)") (auto dest: parse_section_shorter)

definition parse_unified_diff :: "py_text \<Rightarrow> patch_policy \<Rightarrow> py_text list result" where
  "parse_unified_diff txt policy =
     rbind (parse_sections policy (splitlines txt) [] 0) (\<lambda>(paths, total_changes).
     rbind (require (\<not> (paths = [] \<or> total_changes = 0)) PatchValidationError) (\<lambda>_.
     Inr paths))"

section \<open>Reading a patch\<close>

datatype stat_kind = StatRegular | StatLink | StatDirectory | StatSpecial

record file_stat =
  st_kind :: stat_kind
  st_dev :: int
  st_ino :: int
  st_size :: int
  st_mtime_ns :: int
  st_ctime_ns :: int

text \<open>The answers of the kernel while the patch is read; \<open>None\<close> is an \<open>OSError\<close>. \<open>pf_content\<close> is what there is to read.\<close>

record patch_file =
  pf_before :: "file_stat option"
  pf_opens :: bool
  pf_opened :: "file_stat option"
  pf_content :: "nat list option"
  pf_after :: "file_stat option"

definition read_regular_patch :: "patch_file \<Rightarrow> int \<Rightarrow> nat list result" where
  "read_regular_patch f max_bytes =
     rbind (of_option PatchValidationError (pf_before f)) (\<lambda>before.
     rbind (require (st_kind before \<noteq> StatLink) PatchValidationError) (\<lambda>_.
     rbind (require (st_kind before = StatRegular) PatchValidationError) (\<lambda>_.
     rbind (require (\<not> max_bytes < st_size before) PatchValidationError) (\<lambda>_.
     rbind (require (pf_opens f) PatchValidationError) (\<lambda>_.
     rbind (of_option PatchValidationError (pf_opened f)) (\<lambda>opened.
     rbind (require (st_kind opened = StatRegular \<and> st_dev opened = st_dev before \<and> st_ino opened = st_ino before)
       PatchValidationError) (\<lambda>_.
     rbind (of_option PatchValidationError (pf_content f)) (\<lambda>content.
     let data = take (nat (max_bytes + 1)) content in
     rbind (of_option PatchValidationError (pf_after f)) (\<lambda>after.
     rbind (require (\<not> max_bytes < int (length data)) PatchValidationError) (\<lambda>_.
     rbind (require (st_dev after = st_dev opened \<and> st_ino after = st_ino opened) PatchValidationError) (\<lambda>_.
     rbind (require (st_size after = st_size opened \<and> st_mtime_ns after = st_mtime_ns opened
         \<and> st_ctime_ns after = st_ctime_ns opened) PatchValidationError) (\<lambda>_.
     Inr data))))))))))))"

section \<open>The workspace\<close>

text \<open>A workspace as \<open>lstat\<close> and \<open>os.walk\<close> show it; \<open>None\<close> is a workspace that does not exist. Every entry of a plain
  tree raises the same error when it is not plain, so the order of the walk does not matter.\<close>

datatype workspace_node = NodeFile | NodeLink | NodeSpecial | NodeDirectory "(py_text \<times> workspace_node) list"

fun plain_node :: "workspace_node \<Rightarrow> bool" where
  "plain_node NodeFile = True"
| "plain_node NodeLink = False"
| "plain_node NodeSpecial = False"
| "plain_node (NodeDirectory entries) = list_all (\<lambda>e. plain_node (snd e)) entries"

definition ensure_workspace_is_plain_tree :: "workspace_node option \<Rightarrow> unit result" where
  "ensure_workspace_is_plain_tree workspace =
     (case workspace of
        None \<Rightarrow> Inl PatchValidationError
      | Some (NodeDirectory entries) \<Rightarrow>
          require (list_all (\<lambda>e. plain_node (snd e)) entries) PatchValidationError
      | Some _ \<Rightarrow> Inl PatchValidationError)"

fun walk_target :: "workspace_node \<Rightarrow> py_text list \<Rightarrow> workspace_node result" where
  "walk_target node [] = Inr node"
| "walk_target node (part # parts) =
     rbind (case node of
         NodeDirectory entries \<Rightarrow> of_option PatchValidationError (map_of entries part)
       | _ \<Rightarrow> Inl OSError) (\<lambda>child.
     rbind (require (child \<noteq> NodeLink) PatchValidationError) (\<lambda>_.
     walk_target child parts))"

text \<open>\<open>str.split("/")\<close> on code points.\<close>

fun split_text :: "nat \<Rightarrow> py_text \<Rightarrow> py_text list" where
  "split_text c [] = [[]]"
| "split_text c (x # xs) =
     (if x = c then [] # split_text c xs
      else (case split_text c xs of [] \<Rightarrow> [[x]] | p # ps \<Rightarrow> (x # p) # ps))"

definition ensure_workspace_target_is_regular :: "workspace_node \<Rightarrow> py_text \<Rightarrow> unit result" where
  "ensure_workspace_target_is_regular workspace path =
     rbind (walk_target workspace (split_text 47 path)) (\<lambda>target.
     require (target = NodeFile) PatchValidationError)"

record validated_patch =
  vp_data :: "nat list"
  vp_paths :: "py_text list"

definition validate_patch :: "patch_file \<Rightarrow> workspace_node option \<Rightarrow> patch_policy \<Rightarrow> validated_patch result" where
  "validate_patch f workspace policy =
     rbind (read_regular_patch f (pp_max_patch_bytes policy)) (\<lambda>data.
     rbind (require (0 \<notin> set data) PatchValidationError) (\<lambda>_.
     rbind (of_option PatchValidationError (utf8_decode data)) (\<lambda>txt.
     rbind (require (txt \<noteq> [] \<and> last txt = 10) PatchValidationError) (\<lambda>_.
     rbind (require (13 \<notin> set txt) PatchValidationError) (\<lambda>_.
     rbind (require (\<not> list_ex (\<lambda>c. c < 32 \<and> c \<notin> {10, 9}) txt) PatchValidationError) (\<lambda>_.
     rbind (parse_unified_diff txt policy) (\<lambda>paths.
     rbind (ensure_workspace_is_plain_tree workspace) (\<lambda>_.
     rbind (case workspace of
         None \<Rightarrow> Inl PatchValidationError
       | Some w \<Rightarrow> rfold (\<lambda>p _. ensure_workspace_target_is_regular w p) paths ()) (\<lambda>_.
     Inr \<lparr>vp_data = data, vp_paths = paths\<rparr>)))))))))"

section \<open>Applying a patch to a copy\<close>

text \<open>What \<open>git apply\<close> does to the copy is its business; the adapter sees its return code, or that it is missing or late.\<close>

datatype git_outcome = GitExit int | GitMissing | GitTimeout

record apply_world =
  aw_destination_exists :: bool
  aw_makes_parent :: "unit result"
  aw_copies :: "unit result"
  aw_copied :: "workspace_node option"
  aw_git :: "bool \<Rightarrow> nat list \<Rightarrow> git_outcome"

definition run_git_apply :: "apply_world \<Rightarrow> bool \<Rightarrow> nat list \<Rightarrow> int result" where
  "run_git_apply w check patch =
     (case aw_git w check patch of
        GitExit code \<Rightarrow> Inr code
      | GitMissing \<Rightarrow> Inl PatchApplyError
      | GitTimeout \<Rightarrow> Inl PatchApplyError)"

definition copy_and_apply_patch ::
    "apply_world \<Rightarrow> workspace_node option \<Rightarrow> patch_file \<Rightarrow> patch_policy \<Rightarrow> validated_patch result" where
  "copy_and_apply_patch w source_workspace f policy =
     rbind (require (\<not> aw_destination_exists w) PatchApplyError) (\<lambda>_.
     rbind (validate_patch f source_workspace policy) (\<lambda>validated.
     rbind (aw_makes_parent w) (\<lambda>_.
     rbind (aw_copies w) (\<lambda>_.
     rbind (ensure_workspace_is_plain_tree (aw_copied w)) (\<lambda>_.
     rbind (run_git_apply w True (vp_data validated)) (\<lambda>checked.
     rbind (require (checked = 0) PatchApplyError) (\<lambda>_.
     rbind (run_git_apply w False (vp_data validated)) (\<lambda>applied.
     rbind (require (applied = 0) PatchApplyError) (\<lambda>_.
     Inr validated)))))))))"

end
