(* ===== verification/Patch_Properties.thy ===== *)
theory Patch_Properties
  imports Patch
begin

text \<open>
  The parser of patches accepts exactly a grammar, stated here without its loops: a patch is a list of file
  sections, a section is headers and hunks, and a hunk has the line counts its header declares. It follows
  what a validated patch can name.
\<close>

section \<open>The grammar\<close>

definition content_line :: "py_text \<Rightarrow> bool" where
  "content_line l = (take 1 l \<in> {[32], [45], [43]})"

definition old_lines :: "py_text list \<Rightarrow> nat" where
  "old_lines body = length (filter (\<lambda>l. take 1 l \<in> {[32], [45]}) body)"

definition new_lines :: "py_text list \<Rightarrow> nat" where
  "new_lines body = length (filter (\<lambda>l. take 1 l \<in> {[32], [43]}) body)"

definition changed_lines :: "py_text list \<Rightarrow> nat" where
  "changed_lines body = length (filter (\<lambda>l. take 1 l \<in> {[45], [43]}) body)"

definition body_line :: "py_text \<Rightarrow> bool" where
  "body_line l = (l = no_newline_marker \<or> content_line l)"

type_synonym hunk = "py_text \<times> py_text list"

definition valid_hunk :: "hunk \<Rightarrow> bool" where
  "valid_hunk h =
     (case h of (header, body) \<Rightarrow>
        (case hunk_counts header of
           Inl e \<Rightarrow> False
         | Inr (old_count, new_count) \<Rightarrow>
             list_all body_line body \<and> old_lines body = old_count \<and> new_lines body = new_count
             \<and> (if 0 < old_count \<or> 0 < new_count then hd body \<noteq> no_newline_marker else True)))"

record patch_section =
  ps_path :: py_text
  ps_index :: "py_text option"
  ps_hunks :: "hunk list"

definition section_lines :: "patch_section \<Rightarrow> py_text list" where
  "section_lines s =
     (ascii ''diff --git a/'' @ ps_path s @ ascii '' b/'' @ ps_path s)
     # (case ps_index s of None \<Rightarrow> [] | Some l \<Rightarrow> [l])
     @ [ascii ''--- a/'' @ ps_path s, ascii ''+++ b/'' @ ps_path s]
     @ concat (map (\<lambda>(header, body). header # body) (ps_hunks s))"

definition valid_index :: "py_text \<Rightarrow> bool" where
  "valid_index l = (line_starts ''index '' l \<and> index_header l \<in> {Some None, Some (Some (ascii ''100644''))})"

definition section_changes :: "patch_section \<Rightarrow> nat" where
  "section_changes s = sum_list (map (changed_lines \<circ> snd) (ps_hunks s))"

definition valid_section :: "patch_policy \<Rightarrow> patch_section \<Rightarrow> bool" where
  "valid_section policy s =
     (validate_relative_path (ps_path s) = Inr () \<and> ps_path s \<in> set (pp_allowed_paths policy)
      \<and> (case ps_index s of None \<Rightarrow> True | Some l \<Rightarrow> valid_index l)
      \<and> list_all valid_hunk (ps_hunks s) \<and> 0 < section_changes s)"

section \<open>Prefixes and headers\<close>

lemma strip_prefix_Some: "strip_prefix p s = Some r \<longleftrightarrow> s = p @ r"
  by (induction p s rule: strip_prefix.induct) auto

lemma strip_prefix_append [simp]: "strip_prefix p (p @ r) = Some r"
  by (simp add: strip_prefix_Some)

lemma line_starts_iff: "line_starts p l \<longleftrightarrow> (\<exists>r. l = ascii p @ r)"
  by (auto simp: line_starts_def strip_prefix_Some)

lemma hunk_counts_starts: "hunk_counts l = Inr c \<Longrightarrow> line_starts ''@@'' l"
  by (auto simp: hunk_counts_def hunk_header_def result_simps line_starts_iff strip_prefix_Some ascii_def
      split: option.splits)

lemma starts_exclusive:
  "line_starts ''@@'' l \<Longrightarrow> l \<noteq> no_newline_marker"
  "line_starts ''diff --git '' l \<Longrightarrow> l \<noteq> no_newline_marker"
  "line_starts ''diff --git '' l \<Longrightarrow> \<not> line_starts ''@@'' l"
  by (auto simp: line_starts_iff no_newline_marker_def ascii_def)

lemma diff_header_Some:
  "diff_header line = Some (old, new) \<longleftrightarrow> old \<noteq> [] \<and> new \<noteq> [] \<and> 32 \<notin> set old \<and> 32 \<notin> set new
     \<and> line = ascii ''diff --git a/'' @ old @ ascii '' b/'' @ new"
proof
  assume l: "diff_header line = Some (old, new)"
  then obtain rest where r: "line = ascii ''diff --git a/'' @ rest" "old = takeWhile (\<lambda>c. c \<noteq> 32) rest"
      "drop (length old) rest = ascii '' b/'' @ new" "old \<noteq> []" "new \<noteq> []" "32 \<notin> set new"
    by (auto simp: diff_header_def Let_def strip_prefix_Some split: option.splits if_splits)
  moreover have "rest = old @ drop (length old) rest"
    using r(2) by (metis append_take_drop_id takeWhile_eq_take)
  moreover have "32 \<notin> set old" using r(2) by (auto dest: set_takeWhileD)
  ultimately show "old \<noteq> [] \<and> new \<noteq> [] \<and> 32 \<notin> set old \<and> 32 \<notin> set new
     \<and> line = ascii ''diff --git a/'' @ old @ ascii '' b/'' @ new" by simp
next
  assume a: "old \<noteq> [] \<and> new \<noteq> [] \<and> 32 \<notin> set old \<and> 32 \<notin> set new
     \<and> line = ascii ''diff --git a/'' @ old @ ascii '' b/'' @ new"
  have "takeWhile (\<lambda>c. c \<noteq> 32) (old @ ascii '' b/'' @ new) = old"
    using a by (subst takeWhile_append2) (auto simp: ascii_def)
  then show "diff_header line = Some (old, new)"
    using a by (simp add: diff_header_def Let_def)
qed

lemma relative_path_text: "validate_relative_path p = Inr () \<Longrightarrow> p \<noteq> [] \<and> 32 \<notin> set p"
  by (auto simp: validate_relative_path_def Let_def result_simps list_all_iff safe_path_char_def)

section \<open>Hunks\<close>

lemma line_counts [simp]:
  "old_lines [] = 0" "new_lines [] = 0" "changed_lines [] = 0"
  "old_lines (l # b) = (if take 1 l \<in> {[32], [45]} then Suc (old_lines b) else old_lines b)"
  "new_lines (l # b) = (if take 1 l \<in> {[32], [43]} then Suc (new_lines b) else new_lines b)"
  "changed_lines (l # b) = (if take 1 l \<in> {[45], [43]} then Suc (changed_lines b) else changed_lines b)"
  "old_lines (b @ c) = old_lines b + old_lines c" "new_lines (b @ c) = new_lines b + new_lines c"
  "changed_lines (b @ c) = changed_lines b + changed_lines c"
  by (simp_all add: old_lines_def new_lines_def changed_lines_def)

lemma take_marker [simp]: "take (Suc 0) no_newline_marker = [92]"
  by (simp add: no_newline_marker_def)

lemma marker_counts:
  "list_all (\<lambda>l. l = no_newline_marker) b \<Longrightarrow> old_lines b = 0 \<and> new_lines b = 0 \<and> changed_lines b = 0"
  by (induction b) auto

lemma only_markers:
  "list_all body_line b \<Longrightarrow> old_lines b = 0 \<Longrightarrow> new_lines b = 0 \<Longrightarrow> list_all (\<lambda>l. l = no_newline_marker) b"
  by (induction b) (auto simp: body_line_def content_line_def split: if_splits)

definition no_marker_next :: "py_text list \<Rightarrow> bool" where
  "no_marker_next rest = (rest = [] \<or> hd rest \<noteq> no_newline_marker)"

lemma dropWhile_no_marker: "no_marker_next rest \<Longrightarrow> dropWhile (\<lambda>l. l = no_newline_marker) rest = rest"
  by (cases rest) (auto simp: no_marker_next_def)

lemma no_marker_dropWhile: "no_marker_next (dropWhile (\<lambda>l. l = no_newline_marker) rest)"
  by (induction rest) (auto simp: no_marker_next_def)

lemma hunk_lines_complete:
  assumes "list_all body_line body" "no_marker_next rest" "os + old_lines body = oc" "ns + new_lines body = nc"
    and "first \<and> (os < oc \<or> ns < nc) \<longrightarrow> hd body \<noteq> no_newline_marker"
  shows "\<exists>r. hunk_lines oc nc os ns ch first (body @ rest) = Inr (r, ch + changed_lines body)
    \<and> dropWhile (\<lambda>l. l = no_newline_marker) r = rest"
  using assms
proof (induction body arbitrary: os ns ch first)
  case Nil
  then show ?case using dropWhile_no_marker [of rest] by (cases rest) auto
next
  case (Cons l body)
  show ?case
  proof (cases "os < oc \<or> ns < nc")
    case False
    then have "list_all (\<lambda>l. l = no_newline_marker) (l # body)"
      using only_markers [OF Cons.prems(1)] Cons.prems(3,4) by linarith
    then have "changed_lines (l # body) = 0" "dropWhile (\<lambda>l. l = no_newline_marker) ((l # body) @ rest) = rest"
      using marker_counts [of "l # body"] dropWhile_no_marker [OF Cons.prems(2)]
      by (auto simp: list_all_iff dropWhile_append2)
    then show ?thesis using False by simp
  next
    case True
    show ?thesis
    proof (cases "l = no_newline_marker")
      case True
      then have "\<not> first" using Cons.prems(5) \<open>os < oc \<or> ns < nc\<close> by auto
      with True Cons.IH [of os ns False ch] Cons.prems \<open>os < oc \<or> ns < nc\<close> show ?thesis by auto
    next
      case False
      then have "content_line l" using Cons.prems(1) by (simp add: body_line_def)
      then consider "take 1 l = [32]" | "take 1 l = [45]" | "take 1 l = [43]"
        by (auto simp: content_line_def)
      then show ?thesis
      proof cases
        case 1
        with True False Cons.prems Cons.IH [of "Suc os" "Suc ns" False ch] show ?thesis by simp
      next
        case 2
        with True False Cons.prems Cons.IH [of "Suc os" ns False "Suc ch"] show ?thesis by simp
      next
        case 3
        with True False Cons.prems Cons.IH [of os "Suc ns" False "Suc ch"] show ?thesis by simp
      qed
    qed
  qed
qed

lemma hunk_lines_sound:
  assumes "hunk_lines oc nc os ns ch first lines = Inr (rest, ch')" "os \<le> oc" "ns \<le> nc"
  shows "\<exists>body. lines = body @ rest \<and> list_all body_line body \<and> os + old_lines body = oc \<and> ns + new_lines body = nc
    \<and> ch' = ch + changed_lines body \<and> (first \<and> body \<noteq> [] \<longrightarrow> hd body \<noteq> no_newline_marker)"
  using assms
proof (induction oc nc os ns ch first lines rule: hunk_lines.induct)
  case (2 oc nc os ns ch first line lines)
  show ?case
  proof (cases "os < oc \<or> ns < nc")
    case False
    then show ?thesis using 2 by (intro exI [of _ "[]"]) auto
  next
    case True
    have extend: "\<exists>body. line # lines = body @ rest \<and> list_all body_line body \<and> os + old_lines body = oc
        \<and> ns + new_lines body = nc \<and> ch' = ch + changed_lines body \<and> (first \<and> body \<noteq> [] \<longrightarrow> hd body \<noteq> no_newline_marker)"
      if "lines = body @ rest" "list_all body_line body" "body_line line" "os + old_lines (line # body) = oc"
        "ns + new_lines (line # body) = nc" "ch' = ch + changed_lines (line # body)" "first \<longrightarrow> line \<noteq> no_newline_marker" for body
      using that by (intro exI [of _ "line # body"]) simp
    show ?thesis
    proof (cases "line = no_newline_marker")
      case True
      with \<open>os < oc \<or> ns < nc\<close> 2(3) have f: "\<not> first" "hunk_lines oc nc os ns ch False lines = Inr (rest, ch')"
        by (auto split: if_splits)
      from 2(1) [OF _ True f(1) f(2) 2(4,5)] \<open>os < oc \<or> ns < nc\<close> obtain body where
        "lines = body @ rest" "list_all body_line body" "os + old_lines body = oc" "ns + new_lines body = nc"
        "ch' = ch + changed_lines body" by auto
      with True f(1) show ?thesis by (intro extend [of body]) (auto simp: body_line_def)
    next
      case False
      from \<open>os < oc \<or> ns < nc\<close> False 2(3) obtain o' n' c' where step:
          "(if take 1 line = [32] then Some (Suc os, Suc ns, ch)
               else if take 1 line = [45] then Some (Suc os, ns, Suc ch)
               else if take 1 line = [43] then Some (os, Suc ns, Suc ch)
               else None) = Some (o', n', c')" "\<not> (oc < o' \<or> nc < n')"
          "hunk_lines oc nc o' n' c' False lines = Inr (rest, ch')"
        by (auto split: option.splits if_splits)
      from 2(2) [OF _ False step(1) refl refl step(2,3)] step(2) \<open>os < oc \<or> ns < nc\<close> obtain body where body:
        "lines = body @ rest" "list_all body_line body" "o' + old_lines body = oc" "n' + new_lines body = nc"
        "ch' = c' + changed_lines body" by auto
      have "content_line line" using step(1) by (auto simp: content_line_def split: if_splits)
      with body step(1) False show ?thesis
        by (intro extend [of body]) (auto simp: body_line_def split: if_splits)
    qed
  qed
qed (auto intro: exI [of _ "[]"] split: if_splits)

lemma parse_hunk_sound:
  assumes "parse_hunk header lines = Inr (rest, ch)"
  shows "\<exists>body. lines = body @ rest \<and> valid_hunk (header, body) \<and> ch = changed_lines body \<and> no_marker_next rest"
proof -
  from assms obtain oc nc r where h: "hunk_counts header = Inr (oc, nc)" "hunk_lines oc nc 0 0 0 True lines = Inr (r, ch)"
      "rest = dropWhile (\<lambda>l. l = no_newline_marker) r"
    by (auto simp: parse_hunk_def result_simps)
  from hunk_lines_sound [OF h(2)] obtain body where body: "lines = body @ r" "list_all body_line body"
      "old_lines body = oc" "new_lines body = nc" "ch = changed_lines body" "body \<noteq> [] \<longrightarrow> hd body \<noteq> no_newline_marker"
    by auto
  let ?m = "takeWhile (\<lambda>l. l = no_newline_marker) r"
  have m: "list_all (\<lambda>l. l = no_newline_marker) ?m" by (auto simp: list_all_iff dest: set_takeWhileD)
  have "valid_hunk (header, body @ ?m)"
  proof -
    have "list_all body_line (body @ ?m)" using body(2) m by (auto simp: list_all_iff body_line_def)
    moreover have "old_lines (body @ ?m) = oc" "new_lines (body @ ?m) = nc"
      using body(3,4) marker_counts [OF m] by simp_all
    moreover have "hd (body @ ?m) \<noteq> no_newline_marker" if "0 < oc \<or> 0 < nc"
    proof -
      have "body \<noteq> []" using that body(3,4) by auto
      with body(6) show ?thesis by simp
    qed
    ultimately show ?thesis using h(1) by (simp add: valid_hunk_def)
  qed
  then show ?thesis
    using body(1,5) h(3) marker_counts [OF m] no_marker_dropWhile
    by (intro exI [of _ "body @ ?m"]) simp
qed

lemma parse_hunk_complete:
  assumes "valid_hunk (header, body)" "no_marker_next rest"
  shows "parse_hunk header (body @ rest) = Inr (rest, changed_lines body)"
proof -
  obtain oc nc where h: "hunk_counts header = Inr (oc, nc)" "list_all body_line body" "old_lines body = oc"
      "new_lines body = nc" "0 < oc \<or> 0 < nc \<longrightarrow> hd body \<noteq> no_newline_marker"
    using assms(1) by (auto simp: valid_hunk_def split: sum.splits if_splits)
  from hunk_lines_complete [OF h(2) assms(2), of 0 oc 0 nc True 0] h(3-5)
  obtain r where "hunk_lines oc nc 0 0 0 True (body @ rest) = Inr (r, changed_lines body)"
      "dropWhile (\<lambda>l. l = no_newline_marker) r = rest" by auto
  with h(1) show ?thesis by (simp add: parse_hunk_def)
qed

definition hunks_end :: "py_text list \<Rightarrow> bool" where
  "hunks_end rest = (rest = [] \<or> \<not> line_starts ''@@'' (hd rest))"

lemma parse_hunks_sound:
  assumes "parse_hunks lines k c = Inr (rest, k', c')"
  shows "\<exists>hs. lines = concat (map (\<lambda>(header, body). header # body) hs) @ rest \<and> list_all valid_hunk hs
    \<and> k' = k + length hs \<and> c' = c + sum_list (map (changed_lines \<circ> snd) hs) \<and> hunks_end rest"
  using assms
proof (induction lines k c rule: parse_hunks.induct)
  case (2 line lines k c)
  show ?case
  proof (cases "line_starts ''@@'' line")
    case False
    then show ?thesis using 2(2) by (intro exI [of _ "[]"]) (auto simp: hunks_end_def)
  next
    case True
    then obtain r m where h: "parse_hunk line lines = Inr (r, m)" "parse_hunks r (Suc k) (c + m) = Inr (rest, k', c')"
      using 2(2) by (auto split: sum.splits)
    from parse_hunk_sound [OF h(1)] obtain body where b: "lines = body @ r" "valid_hunk (line, body)" "m = changed_lines body"
      by blast
    from True have "\<not> \<not> line_starts ''@@'' line" by simp
    from 2(1) [OF this h(1) refl h(2)] obtain hs where "r = concat (map (\<lambda>(header, body). header # body) hs) @ rest"
        "list_all valid_hunk hs" "k' = Suc k + length hs" "c' = c + m + sum_list (map (changed_lines \<circ> snd) hs)" "hunks_end rest"
      by blast
    with b show ?thesis by (intro exI [of _ "(line, body) # hs"]) (simp add: comp_def)
  qed
qed (auto simp: hunks_end_def intro: exI [of _ "[]"])

lemma parse_hunks_complete:
  assumes "list_all valid_hunk hs" "hunks_end rest" "no_marker_next rest"
  shows "parse_hunks (concat (map (\<lambda>(header, body). header # body) hs) @ rest) k c
    = Inr (rest, k + length hs, c + sum_list (map (changed_lines \<circ> snd) hs))"
  using assms(1)
proof (induction hs arbitrary: k c)
  case Nil
  then show ?case using assms(2) by (cases rest) (simp_all add: hunks_end_def)
next
  case (Cons h hs)
  obtain header body where h: "h = (header, body)" by force
  let ?next = "concat (map (\<lambda>(header, body). header # body) hs) @ rest"
  have starts: "line_starts ''@@'' (fst g)" if "valid_hunk g" for g
    using that by (cases g) (auto simp: valid_hunk_def intro: hunk_counts_starts split: sum.splits)
  have "no_marker_next ?next"
  proof (cases hs)
    case (Cons g gs)
    then have "line_starts ''@@'' (fst g)" using starts Cons.prems by simp
    with Cons show ?thesis using starts_exclusive(1) by (cases g) (auto simp: no_marker_next_def)
  qed (use assms(3) in simp)
  then have "parse_hunk header (body @ ?next) = Inr (?next, changed_lines body)"
    using parse_hunk_complete Cons.prems h by simp
  with Cons h starts [of h] show ?case by (simp add: add.assoc)
qed

section \<open>Sections\<close>

lemma index_line_Inr:
  "index_line lines = Inr rest \<longleftrightarrow>
     (\<exists>l. lines = l # rest \<and> valid_index l) \<or> (lines = rest \<and> (rest = [] \<or> \<not> line_starts ''index '' (hd rest)))"
  by (cases lines) (auto simp: index_line_def valid_index_def result_simps split: option.splits)

definition section_end :: "py_text list \<Rightarrow> bool" where
  "section_end rest = (rest = [] \<or> line_starts ''diff --git '' (hd rest))"

lemma section_end_hunks: "section_end rest \<Longrightarrow> hunks_end rest \<and> no_marker_next rest"
  using starts_exclusive by (auto simp: section_end_def hunks_end_def no_marker_next_def)

lemma parse_section_sound:
  assumes "parse_section policy paths line lines = Inr (p, c, rest)"
  shows "\<exists>s. line # lines = section_lines s @ rest \<and> ps_path s = p \<and> valid_section policy s \<and> c = section_changes s
    \<and> p \<notin> set paths \<and> int (Suc (length paths)) \<le> pp_max_files policy \<and> section_end rest"
proof -
  from assms obtain lines1 lines3 hunks where s: "diff_header line = Some (p, p)" "validate_relative_path p = Inr ()"
      "p \<in> set (pp_allowed_paths policy)" "p \<notin> set paths" "\<not> pp_max_files policy < int (length (paths @ [p]))"
      "index_line lines = Inr lines1" "lines1 = (ascii ''--- a/'' @ p) # (ascii ''+++ b/'' @ p) # lines3"
      "parse_hunks lines3 0 0 = Inr (rest, hunks, c)" "c \<noteq> 0" "section_end rest"
    by (auto simp: parse_section_def result_simps expect_line_Inr section_end_def)
  from parse_hunks_sound [OF s(8)] obtain hs where hs: "lines3 = concat (map (\<lambda>(header, body). header # body) hs) @ rest"
      "list_all valid_hunk hs" "c = sum_list (map (changed_lines \<circ> snd) hs)" by auto
  from s(6) obtain index where index: "lines = (case index of None \<Rightarrow> [] | Some l \<Rightarrow> [l]) @ lines1"
      "case index of None \<Rightarrow> True | Some l \<Rightarrow> valid_index l"
    unfolding index_line_Inr by (metis append_Cons append_Nil option.case(1,2))
  let ?s = "\<lparr>ps_path = p, ps_index = index, ps_hunks = hs\<rparr>"
  have c: "section_changes ?s = c" using hs(3) by (simp add: section_changes_def)
  have "valid_section policy ?s" using s(2,3,9) hs(2) index(2) c by (simp add: valid_section_def)
  moreover have "line # lines = section_lines ?s @ rest"
    using s(1,7) hs(1) index(1) by (simp add: section_lines_def diff_header_Some)
  ultimately show ?thesis
    by (intro exI [of _ ?s]) (use s(4,5,10) c in simp)
qed

lemma index_absent: "\<not> line_starts ''index '' (ascii ''--- a/'' @ p)"
  by (auto simp: line_starts_iff ascii_def)

lemma parse_section_complete:
  assumes "valid_section policy s" "ps_path s \<notin> set paths" "int (Suc (length paths)) \<le> pp_max_files policy"
    and "section_end rest" "section_lines s @ rest = line # lines"
  shows "parse_section policy paths line lines = Inr (ps_path s, section_changes s, rest)"
proof -
  let ?p = "ps_path s"
  have p: "?p \<noteq> []" "32 \<notin> set ?p" "validate_relative_path ?p = Inr ()" "?p \<in> set (pp_allowed_paths policy)"
    using assms(1) relative_path_text [of ?p] by (auto simp: valid_section_def)
  let ?body = "(ascii ''--- a/'' @ ?p) # (ascii ''+++ b/'' @ ?p)
      # concat (map (\<lambda>(header, body). header # body) (ps_hunks s)) @ rest"
  have line: "line = ascii ''diff --git a/'' @ ?p @ ascii '' b/'' @ ?p"
    and lines: "lines = (case ps_index s of None \<Rightarrow> [] | Some l \<Rightarrow> [l]) @ ?body"
    using assms(5) by (auto simp: section_lines_def)
  have "diff_header line = Some (?p, ?p)" using p line by (simp add: diff_header_Some)
  moreover have "index_line lines = Inr ?body"
    unfolding index_line_Inr lines using assms(1) index_absent [of ?p]
    by (cases "ps_index s") (auto simp: valid_section_def)
  moreover have "parse_hunks (concat (map (\<lambda>(header, body). header # body) (ps_hunks s)) @ rest) 0 0
      = Inr (rest, length (ps_hunks s), section_changes s)"
    using parse_hunks_complete [of "ps_hunks s" rest 0 0] assms(1) section_end_hunks [OF assms(4)]
    by (simp add: valid_section_def section_changes_def)
  moreover have "ps_hunks s \<noteq> []" "0 < section_changes s"
    using assms(1) by (auto simp: valid_section_def section_changes_def)
  ultimately show ?thesis
    using p assms(2-4) by (simp add: parse_section_def expect_line_def section_end_def)
qed

lemma section_lines_starts: "section_lines s \<noteq> [] \<and> line_starts ''diff --git '' (hd (section_lines s))"
  by (auto simp: section_lines_def line_starts_iff ascii_def)

lemma parse_sections_sound:
  assumes "parse_sections policy lines paths n = Inr (out, n')" "distinct paths"
  shows "\<exists>ss. lines = concat (map section_lines ss) \<and> out = paths @ map ps_path ss \<and> list_all (valid_section policy) ss
    \<and> distinct out \<and> n' = n + sum_list (map section_changes ss)
    \<and> (ss \<noteq> [] \<longrightarrow> int (length out) \<le> pp_max_files policy)"
  using assms
proof (induction policy lines paths n rule: parse_sections.induct)
  case (2 policy line lines paths n)
  then obtain p c rest where s: "parse_section policy paths line lines = Inr (p, c, rest)"
      "parse_sections policy rest (paths @ [p]) (n + c) = Inr (out, n')"
    by (auto split: sum.splits)
  from parse_section_sound [OF s(1)] obtain s where sec: "line # lines = section_lines s @ rest" "ps_path s = p"
      "valid_section policy s" "c = section_changes s" "p \<notin> set paths" "int (Suc (length paths)) \<le> pp_max_files policy"
    by blast
  have "distinct (paths @ [p])" using 2(3) sec(5) by simp
  from 2(1) [OF s(1) refl refl s(2) this] obtain ss where ss: "rest = concat (map section_lines ss)"
      "out = (paths @ [p]) @ map ps_path ss" "list_all (valid_section policy) ss" "distinct out"
      "n' = n + c + sum_list (map section_changes ss)" "ss \<noteq> [] \<longrightarrow> int (length out) \<le> pp_max_files policy" by blast
  show ?case
    by (rule exI [of _ "s # ss"]) (use sec ss in \<open>cases ss; auto\<close>)
qed (auto intro: exI [of _ "[]"])

lemma parse_sections_complete:
  assumes "list_all (valid_section policy) ss" "distinct (paths @ map ps_path ss)"
    and "ss \<noteq> [] \<longrightarrow> int (length paths + length ss) \<le> pp_max_files policy"
  shows "parse_sections policy (concat (map section_lines ss)) paths n
    = Inr (paths @ map ps_path ss, n + sum_list (map section_changes ss))"
  using assms
proof (induction ss arbitrary: paths n)
  case (Cons s ss)
  let ?rest = "concat (map section_lines ss)"
  have e: "section_end ?rest"
    using section_lines_starts by (cases ss) (auto simp: section_end_def hd_append)
  obtain line lines where l: "section_lines s @ ?rest = line # lines"
    using section_lines_starts [of s] by (cases "section_lines s") auto
  have "parse_section policy paths line lines = Inr (ps_path s, section_changes s, ?rest)"
    by (rule parse_section_complete [OF _ _ _ e l]) (use Cons.prems in auto)
  moreover have "parse_sections policy ?rest (paths @ [ps_path s]) (n + section_changes s)
      = Inr ((paths @ [ps_path s]) @ map ps_path ss, n + section_changes s + sum_list (map section_changes ss))"
    by (rule Cons.IH) (use Cons.prems in auto)
  ultimately show ?case using l by (simp add: add.assoc)
qed simp

section \<open>Targets\<close>

lemma char_of_slash:
  assumes "x < 256"
  shows "char_of x = slash \<longleftrightarrow> x = (47 :: nat)"
proof -
  have "slash = char_of (47 :: nat)" unfolding slash_def by code_simp
  then have "char_of x = slash \<longleftrightarrow> x mod 256 = 47 mod 256"
    using char_of_quasi_inj [of x "47 :: nat"] by (rule ssubst)
  with assms show ?thesis by (simp add: mod_less)
qed

lemma split_text_chars:
  "list_all (\<lambda>x. x < 256) p \<Longrightarrow> split_on slash (map char_of p) = map (map char_of) (split_text 47 p)"
proof (induction p)
  case (Cons x p)
  then show ?case using char_of_slash [of x] by (cases "split_text 47 p") auto
qed simp

lemma split_text_parts: "q \<in> set (split_text c p) \<Longrightarrow> set q \<subseteq> set p"
proof (induction p arbitrary: q)
  case (Cons x p)
  then show ?case by (cases "split_text c p") (force split: if_splits)+
qed simp

lemma map_char_of_ascii: "list_all (\<lambda>x. x < 256) q \<Longrightarrow> map char_of q = s \<Longrightarrow> q = ascii s"
  by (auto simp: ascii_def comp_def list_all_iff intro!: map_idI [symmetric])

text \<open>The components of a path, none of which climbs, is empty or names Git metadata.\<close>

definition plain_component :: "py_text \<Rightarrow> bool" where
  "plain_component q = (q \<notin> {[], ascii ''.'', ascii ''..''} \<and> map lower_char (map char_of q) \<noteq> ''.git'')"

text \<open>A path that names a regular file of the workspace, reached through real directories only.\<close>

definition regular_target :: "workspace_node option \<Rightarrow> py_text \<Rightarrow> bool" where
  "regular_target workspace p =
     (\<exists>tree. workspace = Some tree \<and> plain_node tree \<and> list_all plain_component (split_text 47 p)
        \<and> walk_target tree (split_text 47 p) = Inr NodeFile)"

lemma relative_path_components:
  assumes "validate_relative_path p = Inr ()"
  shows "list_all plain_component (split_text 47 p)"
  unfolding list_all_iff
proof
  fix q assume q: "q \<in> set (split_text 47 p)"
  have small: "list_all (\<lambda>x. x < 256) p"
    using assms by (auto simp: validate_relative_path_def Let_def result_simps list_all_iff safe_path_char_def)
  have parts: "map char_of q \<in> set (split_on slash (map char_of p))"
    using q split_text_chars [OF small] by simp
  then have "map char_of q \<notin> {[], ''.'', ''..''}" "map lower_char (map char_of q) \<noteq> ''.git''"
    using assms by (auto simp: validate_relative_path_def Let_def result_simps list_ex_iff)
  moreover have "map char_of (ascii s) = s" for s by (simp add: ascii_def comp_def)
  ultimately show "plain_component q" unfolding plain_component_def by auto
qed

lemma validate_patch_Inr:
  assumes "validate_patch f workspace policy = Inr v"
  obtains data t tree where "read_regular_patch f (pp_max_patch_bytes policy) = Inr data" "utf8_decode data = Some t"
    "parse_unified_diff t policy = Inr (vp_paths v)" "vp_data v = data" "workspace = Some tree" "plain_node tree"
    "\<forall>p \<in> set (vp_paths v). ensure_workspace_target_is_regular tree p = Inr ()"
proof -
  have targets: "\<forall>p \<in> set ps. g p = Inr ()" if "rfold (\<lambda>p _. g p) ps () = Inr ()" for g :: "py_text \<Rightarrow> unit result" and ps
    using that by (induction ps) (auto simp: result_simps)
  from assms show thesis
    by (auto simp: validate_patch_def result_simps ensure_workspace_is_plain_tree_def
        split: option.splits workspace_node.splits intro!: that dest: targets)
qed

lemma read_regular_patch_bound:
  assumes "read_regular_patch f n = Inr data"
  shows "int (length data) \<le> n"
  using assms by (auto simp: read_regular_patch_def result_simps Let_def)

section \<open>Properties\<close>

text \<open>C28: the parser of patches accepts exactly the grammar. It returns paths for a text exactly when the lines of the
  text are those of file sections with these paths in this order, every section has matching headers, an allowed plain
  relative path, hunks with exactly the line counts they declare and at least one changed line, and
  the paths are distinct and not too many.\<close>

theorem patch_grammar_is_exact:
  "parse_unified_diff txt policy = Inr paths \<longleftrightarrow>
     (\<exists>sections. sections \<noteq> [] \<and> splitlines txt = concat (map section_lines sections)
        \<and> paths = map ps_path sections \<and> list_all (valid_section policy) sections
        \<and> distinct paths \<and> int (length paths) \<le> pp_max_files policy)"
proof
  assume "parse_unified_diff txt policy = Inr paths"
  then obtain n where p: "parse_sections policy (splitlines txt) [] 0 = Inr (paths, n)" "paths \<noteq> []"
    by (auto simp: parse_unified_diff_def result_simps)
  from parse_sections_sound [OF p(1)] p(2) show "\<exists>sections. sections \<noteq> [] \<and> splitlines txt = concat (map section_lines sections)
      \<and> paths = map ps_path sections \<and> list_all (valid_section policy) sections
      \<and> distinct paths \<and> int (length paths) \<le> pp_max_files policy"
    by auto
next
  assume "\<exists>sections. sections \<noteq> [] \<and> splitlines txt = concat (map section_lines sections)
      \<and> paths = map ps_path sections \<and> list_all (valid_section policy) sections
      \<and> distinct paths \<and> int (length paths) \<le> pp_max_files policy"
  then obtain ss where ss: "ss \<noteq> []" "splitlines txt = concat (map section_lines ss)" "paths = map ps_path ss"
      "list_all (valid_section policy) ss" "distinct paths" "int (length paths) \<le> pp_max_files policy" by blast
  have "parse_sections policy (concat (map section_lines ss)) [] 0 = Inr (map ps_path ss, sum_list (map section_changes ss))"
    using parse_sections_complete [OF ss(4), of "[]" 0] ss(3,5,6) by simp
  moreover have "0 < sum_list (map section_changes ss)"
    using ss(1,4) by (cases ss) (simp_all add: valid_section_def)
  ultimately show "parse_unified_diff txt policy = Inr paths"
    using ss(1-3) by (simp add: parse_unified_diff_def)
qed

text \<open>C29: an applied patch stays within the workspace and the policy: it has at most the allowed bytes, both calls of \<open>git\<close>
  were given exactly these bytes and returned zero, and every path it names is allowed, without a climbing component or Git
  metadata, and names a regular file that real directories of a workspace without links lead to.\<close>

theorem applied_patch_is_confined:
  "case copy_and_apply_patch w source_workspace f policy of
     Inl e \<Rightarrow> True
   | Inr v \<Rightarrow> vp_paths v \<noteq> [] \<and> set (vp_paths v) \<subseteq> set (pp_allowed_paths policy) \<and> distinct (vp_paths v)
       \<and> int (length (vp_paths v)) \<le> pp_max_files policy \<and> int (length (vp_data v)) \<le> pp_max_patch_bytes policy
       \<and> list_all (regular_target source_workspace) (vp_paths v)
       \<and> aw_git w True (vp_data v) = GitExit 0 \<and> aw_git w False (vp_data v) = GitExit 0"
proof (cases "copy_and_apply_patch w source_workspace f policy")
  case (Inr v)
  then have v: "validate_patch f source_workspace policy = Inr v" "aw_git w True (vp_data v) = GitExit 0"
      "aw_git w False (vp_data v) = GitExit 0"
    by (auto simp: copy_and_apply_patch_def run_git_apply_def result_simps split: git_outcome.splits)
  from v(1) obtain data t tree where p: "read_regular_patch f (pp_max_patch_bytes policy) = Inr data"
      "parse_unified_diff t policy = Inr (vp_paths v)" "vp_data v = data" "source_workspace = Some tree" "plain_node tree"
      "\<forall>p \<in> set (vp_paths v). ensure_workspace_target_is_regular tree p = Inr ()"
    by (rule validate_patch_Inr)
  from p(2) [unfolded parse_unified_diff_def] obtain n where q: "parse_sections policy (splitlines t) [] 0 = Inr (vp_paths v, n)"
      "vp_paths v \<noteq> []" by (auto simp: result_simps)
  from parse_sections_sound [OF q(1)] q(2) obtain ss where ss: "vp_paths v = map ps_path ss"
      "list_all (valid_section policy) ss" "distinct (vp_paths v)" "int (length (vp_paths v)) \<le> pp_max_files policy" by auto
  have "list_all (regular_target source_workspace) (vp_paths v)"
    using ss(1,2) p(4-6) relative_path_components
    by (auto simp: list_all_iff regular_target_def valid_section_def ensure_workspace_target_is_regular_def result_simps)
  moreover have "set (vp_paths v) \<subseteq> set (pp_allowed_paths policy)"
    using ss(1,2) by (auto simp: list_all_iff valid_section_def)
  ultimately show ?thesis using Inr v(2,3) q(2) ss(3,4) read_regular_patch_bound [OF p(1)] p(3) by simp
qed simp

end
