(* ===== verification/Lease_Kernel.thy ===== *)
theory Lease_Kernel
  imports Frames
begin

text \<open>
  The state the maintenance lease of \<open>src/src/guildmind/storage/maintenance.py\<close> works on: one process with its
  registry of leases, on a kernel with descriptors, open file descriptions and \<open>flock\<close> locks.

  Every system call first lets the other processes act: \<open>kn_env n\<close> are the actions before the \<open>n\<close>-th call. They may
  change every path, directory and link count, open, close and lock their own files, and share the files of this
  process by forking it; what they do not do is lock or unlock a file they share with this process, which the
  module never does either: see \<open>reset_registry_in_child\<close> and the checks of the owner. \<open>kn_fault n\<close> and
  \<open>kn_close_fault n\<close> say that the \<open>n\<close>-th call fails; a failing \<open>close\<close> has closed the descriptor, as on Linux.

  The threads of the process are serialised by \<open>_registry_lock\<close>, so a method is one operation of the model. A state
  directory is given by the components of its absolute path (\<open>os.path.abspath\<close>), the root by no component.
\<close>

section \<open>The kernel\<close>

datatype lease_mode = SHARED | EXCLUSIVE

datatype inode_type = S_IFREG | S_IFDIR | S_IFLNK | S_IFOTHER

type_synonym file_object = "int \<times> int"

type_synonym absolute_path = "string list"

text \<open>What the name space shows. A lookup may succeed for a name that the listing spells differently.\<close>

record name_space =
  ns_type :: "file_object \<Rightarrow> inode_type"
  ns_links :: "file_object \<Rightarrow> int"
  ns_lookup :: "file_object \<Rightarrow> string \<Rightarrow> file_object option"
  ns_listing :: "file_object \<Rightarrow> string list"
  ns_path :: "absolute_path \<Rightarrow> file_object option"
  ns_resolve :: "absolute_path \<Rightarrow> absolute_path option"
  ns_fresh :: file_object

datatype interference =
    Names name_space
  | Opens int file_object
  | Duplicates int nat
  | Closes int nat
  | Locks int nat lease_mode
  | Unlocks int nat
  | Forks int int

record kernel =
  kn_fds :: "((int \<times> nat) \<times> nat) list"
  kn_files :: "nat \<Rightarrow> file_object"
  kn_locks :: "nat \<Rightarrow> lease_mode option"
  kn_next :: nat
  kn_names :: name_space
  kn_tick :: nat
  kn_fault :: "nat \<Rightarrow> bool"
  kn_close_fault :: "nat \<Rightarrow> bool"
  kn_env :: "nat \<Rightarrow> interference list"

definition lowest_unused :: "nat list \<Rightarrow> nat" where
  "lowest_unused used = hd (filter (\<lambda>n. n \<notin> set used) [0..<Suc (length used)])"

definition descriptors_of :: "int \<Rightarrow> kernel \<Rightarrow> nat list" where
  "descriptors_of p k = map (\<lambda>e. snd (fst e)) (filter (\<lambda>e. fst (fst e) = p) (kn_fds k))"

definition description_of :: "kernel \<Rightarrow> int \<Rightarrow> nat \<Rightarrow> nat option" where
  "description_of k p d = map_of (kn_fds k) (p, d)"

definition open_object :: "int \<Rightarrow> file_object \<Rightarrow> kernel \<Rightarrow> kernel" where
  "open_object p object k = k\<lparr>
     kn_fds := ((p, lowest_unused (descriptors_of p k)), kn_next k) # kn_fds k,
     kn_files := (kn_files k)(kn_next k := object),
     kn_next := Suc (kn_next k)\<rparr>"

definition share_description :: "int \<Rightarrow> nat \<Rightarrow> kernel \<Rightarrow> kernel" where
  "share_description p description k =
     k\<lparr>kn_fds := ((p, lowest_unused (descriptors_of p k)), description) # kn_fds k\<rparr>"

text \<open>The lock of an open file description goes with its last descriptor.\<close>

definition close_descriptor :: "int \<Rightarrow> nat \<Rightarrow> kernel \<Rightarrow> kernel" where
  "close_descriptor p d k =
     (let fds = filter (\<lambda>e. fst e \<noteq> (p, d)) (kn_fds k) in
      k\<lparr>kn_fds := fds,
        kn_locks := (\<lambda>description. if description \<in> set (map snd fds) then kn_locks k description else None)\<rparr>)"

definition lock_conflicts :: "nat \<Rightarrow> lease_mode \<Rightarrow> kernel \<Rightarrow> bool" where
  "lock_conflicts description mode k =
     list_ex (\<lambda>e. snd e \<noteq> description \<and> kn_files k (snd e) = kn_files k description
       \<and> (case kn_locks k (snd e) of None \<Rightarrow> False | Some held \<Rightarrow> mode = EXCLUSIVE \<or> held = EXCLUSIVE)) (kn_fds k)"

definition set_lock :: "nat \<Rightarrow> lease_mode option \<Rightarrow> kernel \<Rightarrow> kernel" where
  "set_lock description lock k = k\<lparr>kn_locks := (kn_locks k)(description := lock)\<rparr>"

text \<open>A nonblocking conversion that fails has given up the lock that was held.\<close>

definition flock_description :: "nat \<Rightarrow> lease_mode \<Rightarrow> kernel \<Rightarrow> kernel" where
  "flock_description description mode k =
     set_lock description (if lock_conflicts description mode k then None else Some mode) k"

definition shared_with :: "int \<Rightarrow> nat \<Rightarrow> kernel \<Rightarrow> bool" where
  "shared_with p description k = list_ex (\<lambda>e. fst (fst e) = p \<and> snd e = description) (kn_fds k)"

definition fork_descriptors :: "int \<Rightarrow> int \<Rightarrow> kernel \<Rightarrow> kernel" where
  "fork_descriptors parent child k =
     (if descriptors_of child k = []
      then k\<lparr>kn_fds := kn_fds k @ map (\<lambda>e. ((child, snd (fst e)), snd e)) (filter (\<lambda>e. fst (fst e) = parent) (kn_fds k))\<rparr>
      else k)"

fun interfere :: "int \<Rightarrow> interference \<Rightarrow> kernel \<Rightarrow> kernel" where
  "interfere me (Names names) k = k\<lparr>kn_names := names\<rparr>"
| "interfere me (Opens p object) k = (if p = me then k else open_object p object k)"
| "interfere me (Duplicates p d) k =
     (case description_of k p d of Some description \<Rightarrow> if p = me then k else share_description p description k | None \<Rightarrow> k)"
| "interfere me (Closes p d) k = (if p = me then k else close_descriptor p d k)"
| "interfere me (Locks p d mode) k =
     (case description_of k p d of
        Some description \<Rightarrow> if shared_with me description k then k else flock_description description mode k
      | None \<Rightarrow> k)"
| "interfere me (Unlocks p d) k =
     (case description_of k p d of
        Some description \<Rightarrow> if shared_with me description k then k else set_lock description None k
      | None \<Rightarrow> k)"
| "interfere me (Forks parent child) k = (if child = me then k else fork_descriptors parent child k)"

section \<open>The process\<close>

record inode_identity =
  fi_type :: inode_type
  fi_device :: int
  fi_inode :: int
  fi_links :: int

record held_lease =
  hl_owner_pid :: int
  hl_state_directory :: absolute_path
  hl_state_descriptor :: nat
  hl_state_identity :: inode_identity
  hl_lock_descriptor :: nat
  hl_lock_identity :: inode_identity
  hl_mode :: lease_mode
  hl_references :: int

record maintenance_lease =
  ml_held :: nat
  ml_released :: bool
  ml_entered :: bool
  ml_descriptor_borrows :: int

text \<open>The globals of the module, the \<open>_HeldLease\<close> objects the registry and the leases share, and the leases.\<close>

record lease_process =
  lp_pid :: int
  lp_registry_pid :: int
  lp_registry :: "(absolute_path \<times> nat) list"
  lp_borrowed :: "nat list"
  lp_held :: "nat \<Rightarrow> held_lease option"
  lp_leases :: "nat \<Rightarrow> maintenance_lease option"
  lp_next :: nat

record lease_world =
  lw_process :: lease_process
  lw_kernel :: kernel

type_synonym 'a lease_op = "(lease_world, 'a) op"

definition on_process :: "(lease_process \<Rightarrow> lease_process) \<Rightarrow> lease_world \<Rightarrow> lease_world" where
  "on_process f w = w\<lparr>lw_process := f (lw_process w)\<rparr>"

definition on_kernel :: "(kernel \<Rightarrow> kernel) \<Rightarrow> lease_world \<Rightarrow> lease_world" where
  "on_kernel f w = w\<lparr>lw_kernel := f (lw_kernel w)\<rparr>"

abbreviation my_pid :: "lease_world \<Rightarrow> int" where
  "my_pid w \<equiv> lp_pid (lw_process w)"

text \<open>\<open>except ... as error\<close>, \<open>finally\<close>, and a handler that turns an \<open>OSError\<close> into an integrity error.\<close>

definition sexcept :: "('s, 'a) op \<Rightarrow> (exn \<Rightarrow> ('s, 'a) op) \<Rightarrow> ('s, 'a) op" where
  "sexcept m h s = (case m s of (Inl e, t) \<Rightarrow> h e t | (Inr x, t) \<Rightarrow> (Inr x, t))"

definition sfinally :: "('s, 'a) op \<Rightarrow> ('s, unit) op \<Rightarrow> ('s, 'a) op" where
  "sfinally m f s = (case m s of (r, t) \<Rightarrow> (case f t of (Inl e, u) \<Rightarrow> (Inl e, u) | (Inr _, u) \<Rightarrow> (r, u)))"

definition os_error_as :: "maintenance_integrity_reason \<Rightarrow> exn \<Rightarrow> exn" where
  "os_error_as reason e = (if e = OSError then MaintenanceIntegrityError reason else e)"

definition translating :: "maintenance_integrity_reason \<Rightarrow> ('s, 'a) op \<Rightarrow> ('s, 'a) op" where
  "translating reason m s = (case m s of (r, t) \<Rightarrow> (map_error (os_error_as reason) r, t))"

definition suppressing :: "('s, unit) op \<Rightarrow> ('s, unit) op" where
  "suppressing m = scatch ((=) OSError) m (sreturn ())"

section \<open>System calls\<close>

definition let_others_act :: "lease_world \<Rightarrow> lease_world" where
  "let_others_act w =
     on_kernel (\<lambda>k. (fold (interfere (my_pid w)) (kn_env k (kn_tick k)) k)\<lparr>kn_tick := Suc (kn_tick k)\<rparr>) w"

definition system_call :: "unit lease_op" where
  "system_call w =
     (require (\<not> kn_fault (lw_kernel w) (kn_tick (lw_kernel w))) OSError, let_others_act w)"

definition identity_of :: "name_space \<Rightarrow> file_object \<Rightarrow> inode_identity" where
  "identity_of names object = \<lparr>fi_type = ns_type names object, fi_device = fst object, fi_inode = snd object,
     fi_links = ns_links names object\<rparr>"

definition object_of :: "lease_world \<Rightarrow> nat \<Rightarrow> file_object option" where
  "object_of w d = map_option (kn_files (lw_kernel w)) (description_of (lw_kernel w) (my_pid w) d)"

text \<open>No identity is a \<open>FileNotFoundError\<close>.\<close>

definition sys_lstat :: "absolute_path \<Rightarrow> inode_identity option lease_op" where
  "sys_lstat p =
     sthen system_call
     (sget (\<lambda>w. let names = kn_names (lw_kernel w) in map_option (identity_of names) (ns_path names p)))"

definition sys_fstat :: "nat \<Rightarrow> inode_identity lease_op" where
  "sys_fstat d =
     sthen system_call
     (sread (\<lambda>w. of_option OSError (map_option (identity_of (kn_names (lw_kernel w))) (object_of w d))))"

definition directory_of :: "nat \<Rightarrow> file_object lease_op" where
  "directory_of d =
     sbind (sread (\<lambda>w. of_option OSError (object_of w d))) (\<lambda>object.
     sbind (sget (\<lambda>w. ns_type (kn_names (lw_kernel w)) object)) (\<lambda>type.
     sthen (sguard (type = S_IFDIR) OSError) (sreturn object)))"

definition sys_stat_at :: "nat \<Rightarrow> string \<Rightarrow> inode_identity option lease_op" where
  "sys_stat_at d name =
     sthen system_call
     (sbind (directory_of d) (\<lambda>directory.
      sget (\<lambda>w. let names = kn_names (lw_kernel w) in
        map_option (identity_of names) (ns_lookup names directory name))))"

definition sys_scandir :: "nat \<Rightarrow> string list lease_op" where
  "sys_scandir d =
     sthen system_call
     (sbind (directory_of d) (\<lambda>directory. sget (\<lambda>w. ns_listing (kn_names (lw_kernel w)) directory)))"

definition open_here :: "file_object \<Rightarrow> nat lease_op" where
  "open_here object w =
     (Inr (lowest_unused (descriptors_of (my_pid w) (lw_kernel w))), on_kernel (open_object (my_pid w) object) w)"

text \<open>Opening without following links, a directory or a file.\<close>

definition sys_open_directory :: "absolute_path \<Rightarrow> nat lease_op" where
  "sys_open_directory p =
     sthen system_call
     (sbind (sread (\<lambda>w. of_option OSError (ns_path (kn_names (lw_kernel w)) p))) (\<lambda>object.
      sbind (sget (\<lambda>w. ns_type (kn_names (lw_kernel w)) object)) (\<lambda>type.
      sthen (sguard (type = S_IFDIR) OSError) (open_here object))))"

definition sys_open_at :: "nat \<Rightarrow> string \<Rightarrow> bool \<Rightarrow> nat lease_op" where
  "sys_open_at d name directory_only =
     sthen system_call
     (sbind (directory_of d) (\<lambda>directory.
      sbind (sread (\<lambda>w. of_option OSError (ns_lookup (kn_names (lw_kernel w)) directory name))) (\<lambda>object.
      sbind (sget (\<lambda>w. ns_type (kn_names (lw_kernel w)) object)) (\<lambda>type.
      sthen (sguard (type \<noteq> S_IFLNK \<and> (directory_only \<longrightarrow> type = S_IFDIR)) OSError) (open_here object)))))"

text \<open>\<open>O_CREAT | O_EXCL\<close>: no descriptor is a \<open>FileExistsError\<close>.\<close>

definition create_name :: "file_object \<Rightarrow> string \<Rightarrow> name_space \<Rightarrow> name_space" where
  "create_name directory name names =
     (let object = ns_fresh names in
      names\<lparr>ns_type := (ns_type names)(object := S_IFREG),
        ns_links := (ns_links names)(object := 1),
        ns_lookup := (ns_lookup names)(directory := (ns_lookup names directory)(name \<mapsto> object)),
        ns_listing := (ns_listing names)(directory := ns_listing names directory @ [name])\<rparr>)"

definition sys_create_at :: "nat \<Rightarrow> string \<Rightarrow> nat option lease_op" where
  "sys_create_at d name =
     sthen system_call
     (sbind (directory_of d) (\<lambda>directory.
      sbind (sget (\<lambda>w. kn_names (lw_kernel w))) (\<lambda>names.
      if ns_lookup names directory name \<noteq> None then sreturn None
      else
        sthen (smodify (on_kernel (\<lambda>k. k\<lparr>kn_names := create_name directory name names\<rparr>)))
        (sbind (open_here (ns_fresh names)) (\<lambda>descriptor. sreturn (Some descriptor))))))"

definition sys_dup :: "nat \<Rightarrow> nat lease_op" where
  "sys_dup d =
     sthen system_call
     (sbind (sread (\<lambda>w. of_option OSError (description_of (lw_kernel w) (my_pid w) d))) (\<lambda>description w.
      (Inr (lowest_unused (descriptors_of (my_pid w) (lw_kernel w))),
       on_kernel (share_description (my_pid w) description) w)))"

definition sys_close :: "nat \<Rightarrow> unit lease_op" where
  "sys_close d w =
     (require (object_of w d \<noteq> None \<and> \<not> kn_close_fault (lw_kernel w) (kn_tick (lw_kernel w))) OSError,
      on_kernel (close_descriptor (my_pid w) d) (let_others_act w))"

text \<open>\<open>flock(d, operation | LOCK_NB)\<close>: a lock that is not granted is \<open>EAGAIN\<close>.\<close>

definition sys_flock :: "nat \<Rightarrow> lease_mode \<Rightarrow> bool lease_op" where
  "sys_flock d mode =
     sthen system_call
     (sbind (sread (\<lambda>w. of_option OSError (description_of (lw_kernel w) (my_pid w) d))) (\<lambda>description.
      sbind (sget (\<lambda>w. \<not> lock_conflicts description mode (lw_kernel w))) (\<lambda>granted.
      sthen (smodify (on_kernel (flock_description description mode))) (sreturn granted))))"

definition sys_unlock :: "nat \<Rightarrow> unit lease_op" where
  "sys_unlock d =
     sthen system_call
     (sbind (sread (\<lambda>w. of_option OSError (description_of (lw_kernel w) (my_pid w) d))) (\<lambda>description.
      smodify (on_kernel (set_lock description None))))"

end
