(* ===== verification/Maintenance.thy ===== *)
theory Maintenance
  imports Lease_Kernel
begin

text \<open>
  The operations of \<open>src/src/guildmind/storage/maintenance.py\<close> on the state of \<open>Lease_Kernel\<close>: checks of identities, the
  fence of an active quarantine, opening the state directory and the lock file, acquiring, entering,
  lending and closing a lease, and the reset of the registry in a forked child.
\<close>

definition MAINTENANCE_LOCK_FILENAME :: string where
  "MAINTENANCE_LOCK_FILENAME = ''.guildmind-maintenance.lock''"

definition QUARANTINE_FENCE_DIRECTORIES :: "string list" where
  "QUARANTINE_FENCE_DIRECTORIES = [''quarantine'', ''v1'']"

definition ACTIVE_MARKER_NAME :: string where
  "ACTIVE_MARKER_NAME = ''ACTIVE''"

definition MAX_FENCE_DIRECTORY_ENTRIES :: nat where
  "MAX_FENCE_DIRECTORY_ENTRIES = 65536"

abbreviation integrity :: "maintenance_integrity_reason \<Rightarrow> exn" where
  "integrity \<equiv> MaintenanceIntegrityError"

section \<open>Identities\<close>

definition same_object :: "inode_identity \<Rightarrow> inode_identity \<Rightarrow> bool" where
  "same_object a b = (fi_type a = fi_type b \<and> fi_device a = fi_device b \<and> fi_inode a = fi_inode b)"

definition is_regular_single_link :: "inode_identity \<Rightarrow> bool" where
  "is_regular_single_link i = (fi_type i = S_IFREG \<and> fi_links i = 1)"

definition require_state_path_identity :: "absolute_path \<Rightarrow> inode_identity \<Rightarrow> unit lease_op" where
  "require_state_path_identity state expected =
     sbind (translating LEASE_STATE_CHANGED (sys_lstat state)) (\<lambda>observed.
     sguard (case observed of None \<Rightarrow> False | Some i \<Rightarrow> same_object i expected) (integrity LEASE_STATE_CHANGED))"

definition require_lock_path_identity :: "nat \<Rightarrow> inode_identity \<Rightarrow> unit lease_op" where
  "require_lock_path_identity state_descriptor expected =
     sbind (translating LOCK_CHANGED (sys_stat_at state_descriptor MAINTENANCE_LOCK_FILENAME)) (\<lambda>observed.
     sguard (observed = Some expected) (integrity LOCK_CHANGED))"

definition held_at :: "nat \<Rightarrow> held_lease lease_op" where
  "held_at address = sread (\<lambda>w. of_option KeyError (lp_held (lw_process w) address))"

definition verify_held_lease :: "nat \<Rightarrow> unit lease_op" where
  "verify_held_lease address =
     sbind (held_at address) (\<lambda>held.
     sbind (sget (\<lambda>w. my_pid w)) (\<lambda>me.
     sthen (sguard (hl_owner_pid held = me) (integrity PROCESS_CHANGED))
     (sbind (sys_fstat (hl_state_descriptor held)) (\<lambda>state_identity.
     sthen (sguard (same_object state_identity (hl_state_identity held)) (integrity LEASE_STATE_CHANGED))
     (sthen (require_state_path_identity (hl_state_directory held) (hl_state_identity held))
     (sbind (sys_fstat (hl_lock_descriptor held)) (\<lambda>lock_identity.
     sthen (sguard (lock_identity = hl_lock_identity held) (integrity LOCK_CHANGED))
     (require_lock_path_identity (hl_state_descriptor held) (hl_lock_identity held)))))))))"

section \<open>The fence of an active quarantine\<close>

text \<open>The scan stops at the name; without it, it fails at the end or at the first entry over the limit.\<close>

definition require_exact_fence_entry_name :: "nat \<Rightarrow> string \<Rightarrow> unit lease_op" where
  "require_exact_fence_entry_name directory expected_name =
     sbind (translating QUARANTINE_FENCE_INVALID (sys_scandir directory)) (\<lambda>names.
     sguard (expected_name \<in> set (take MAX_FENCE_DIRECTORY_ENTRIES names)) (integrity QUARANTINE_FENCE_INVALID))"

text \<open>One step of the walk: the descriptor of the next directory, or nothing if the name is missing.\<close>

definition open_fence_directory :: "nat \<Rightarrow> string \<Rightarrow> nat option lease_op" where
  "open_fence_directory current component =
     sbind (translating QUARANTINE_FENCE_INVALID (sys_stat_at current component)) (\<lambda>metadata.
     case metadata of
       None \<Rightarrow> sreturn None
     | Some path_identity \<Rightarrow>
         sthen (require_exact_fence_entry_name current component)
         (sthen (sguard (fi_type path_identity = S_IFDIR) (integrity QUARANTINE_FENCE_INVALID))
         (sbind (translating QUARANTINE_FENCE_INVALID (sys_open_at current component True)) (\<lambda>next_descriptor.
          sexcept
            (sbind (sys_fstat next_descriptor) (\<lambda>opened.
             sthen (sguard (same_object opened path_identity) (integrity QUARANTINE_FENCE_INVALID))
             (sbind (sys_stat_at current component) (\<lambda>final.
              sbind (slift (of_option OSError final)) (\<lambda>final_path_identity.
              sthen (sguard (same_object final_path_identity path_identity) (integrity QUARANTINE_FENCE_INVALID))
              (sthen (require_exact_fence_entry_name current component)
              (sreturn (Some next_descriptor))))))))
            (\<lambda>e. sthen (sys_close next_descriptor) (sraise e))))))"

definition inspect_marker :: "nat \<Rightarrow> bool lease_op" where
  "inspect_marker current =
     sbind (translating QUARANTINE_FENCE_INVALID (sys_stat_at current ACTIVE_MARKER_NAME)) (\<lambda>metadata.
     case metadata of
       None \<Rightarrow> sreturn False
     | Some marker_identity \<Rightarrow>
         sthen (require_exact_fence_entry_name current ACTIVE_MARKER_NAME)
         (sthen (sguard (is_regular_single_link marker_identity) (integrity QUARANTINE_FENCE_INVALID))
         (sbind (translating QUARANTINE_FENCE_INVALID (sys_open_at current ACTIVE_MARKER_NAME False)) (\<lambda>marker_descriptor.
          sthen
            (sfinally
              (sbind (sys_fstat marker_descriptor) (\<lambda>opened.
               sthen (sguard (opened = marker_identity) (integrity QUARANTINE_FENCE_INVALID))
               (sbind (sys_stat_at current ACTIVE_MARKER_NAME) (\<lambda>final.
                sbind (slift (of_option OSError final)) (\<lambda>final_identity.
                sthen (sguard (final_identity = marker_identity) (integrity QUARANTINE_FENCE_INVALID))
                (require_exact_fence_entry_name current ACTIVE_MARKER_NAME))))))
              (sys_close marker_descriptor))
            (sreturn True)))))"

text \<open>The walk owns its current descriptor; every way out closes the one that is current then.\<close>

fun walk_fence :: "string list \<Rightarrow> nat \<Rightarrow> bool lease_op" where
  "walk_fence [] current = sfinally (inspect_marker current) (sys_close current)"
| "walk_fence (component # components) current =
     sbind
       (sexcept
         (sbind (open_fence_directory current component) (\<lambda>next_descriptor.
          if next_descriptor = None then sreturn None
          else sthen (sys_close current) (sreturn next_descriptor)))
         (\<lambda>e. sthen (sys_close current) (sraise e)))
       (\<lambda>next_descriptor.
         case next_descriptor of
           None \<Rightarrow> sthen (sys_close current) (sreturn False)
         | Some d \<Rightarrow> walk_fence components d)"

definition quarantine_marker_present :: "nat \<Rightarrow> bool lease_op" where
  "quarantine_marker_present address =
     sbind (held_at address) (\<lambda>held.
     sbind (sys_dup (hl_state_descriptor held)) (walk_fence QUARANTINE_FENCE_DIRECTORIES))"

section \<open>The state directory and the lock file\<close>

definition open_state_directory :: "absolute_path \<Rightarrow> (absolute_path \<times> nat \<times> inode_identity) lease_op" where
  "open_state_directory lexical =
     sthen (sguard (lexical \<noteq> []) (integrity LEASE_STATE_INVALID))
     (sthen (translating LEASE_STATE_INVALID system_call)
     (sbind (sread (\<lambda>w. of_option (integrity LEASE_STATE_INVALID)
         (ns_resolve (kn_names (lw_kernel w)) (butlast lexical)))) (\<lambda>parent.
      let state = parent @ [last lexical] in
      sbind (translating LEASE_STATE_INVALID (sys_lstat state)) (\<lambda>metadata.
      sbind (slift (of_option (integrity LEASE_STATE_INVALID) metadata)) (\<lambda>path_identity.
      sthen (sguard (fi_type path_identity = S_IFDIR) (integrity LEASE_STATE_INVALID))
      (sbind (translating LEASE_STATE_INVALID (sys_open_directory state)) (\<lambda>descriptor.
       sexcept
         (sbind (translating LEASE_STATE_CHANGED (sys_fstat descriptor)) (\<lambda>descriptor_identity.
          sthen (sguard (same_object descriptor_identity path_identity) (integrity LEASE_STATE_CHANGED))
          (sthen (require_state_path_identity state path_identity)
          (sreturn (state, descriptor, path_identity)))))
         (\<lambda>e. sthen (sys_close descriptor) (sraise e)))))))))"

text \<open>What follows once the lock file is open.\<close>

definition check_opened_lock :: "nat \<Rightarrow> inode_identity option \<Rightarrow> nat \<Rightarrow> (nat \<times> inode_identity) lease_op" where
  "check_opened_lock state_descriptor observed_identity descriptor =
     sexcept
       (sbind (sys_fstat descriptor) (\<lambda>descriptor_identity.
        sthen (sguard (is_regular_single_link descriptor_identity) (integrity LOCK_INVALID))
        (sthen (sguard (case observed_identity of None \<Rightarrow> True | Some i \<Rightarrow> descriptor_identity = i) (integrity LOCK_CHANGED))
        (sthen (require_lock_path_identity state_descriptor descriptor_identity)
        (sthen system_call
        (sthen system_call
        (sbind (sys_fstat descriptor) (\<lambda>final_identity.
         sthen (sguard (final_identity = descriptor_identity) (integrity LOCK_CHANGED))
        (sthen (require_lock_path_identity state_descriptor descriptor_identity)
        (sreturn (descriptor, descriptor_identity)))))))))))
       (\<lambda>e. sthen (sys_close descriptor) (sraise e))"

text \<open>The loop starts again when another process creates the file between the look and the exclusive creation. It may
  run for as long as others keep creating and removing it, so its rounds are given as fuel; \<open>None\<close> is a loop still running.\<close>

fun open_or_create_lock :: "nat \<Rightarrow> nat \<Rightarrow> (nat \<times> inode_identity) option lease_op" where
  "open_or_create_lock 0 state_descriptor = sreturn None"
| "open_or_create_lock (Suc rounds) state_descriptor =
     sbind (translating LOCK_INVALID (sys_stat_at state_descriptor MAINTENANCE_LOCK_FILENAME)) (\<lambda>metadata.
     case metadata of
       None \<Rightarrow>
         sbind (translating LOCK_OPERATION_FAILED (sys_create_at state_descriptor MAINTENANCE_LOCK_FILENAME)) (\<lambda>created.
         case created of
           None \<Rightarrow> open_or_create_lock rounds state_descriptor
         | Some descriptor \<Rightarrow> sbind (check_opened_lock state_descriptor None descriptor) (\<lambda>r. sreturn (Some r)))
     | Some identity \<Rightarrow>
         sthen (sguard (is_regular_single_link identity) (integrity LOCK_INVALID))
         (sbind (translating LOCK_INVALID (sys_open_at state_descriptor MAINTENANCE_LOCK_FILENAME False)) (\<lambda>descriptor.
          sbind (check_opened_lock state_descriptor (Some identity) descriptor) (\<lambda>r. sreturn (Some r)))))"

section \<open>The registry in a forked child\<close>

text \<open>The child forgets the leases it inherited and closes its copies of their descriptors; it never unlocks them.\<close>

definition reset_registry_in_child :: "unit lease_op" where
  "reset_registry_in_child =
     sbind (sget (\<lambda>w. lp_borrowed (lw_process w))) (\<lambda>inherited_borrows.
     sbind (sget (\<lambda>w. List.map_filter (\<lambda>e. lp_held (lw_process w) (snd e)) (lp_registry (lw_process w)))) (\<lambda>inherited.
     sthen (smodify (on_process (\<lambda>p. p\<lparr>lp_registry := [], lp_borrowed := [], lp_registry_pid := lp_pid p\<rparr>)))
     (sthen (sfor inherited_borrows (\<lambda>d. suppressing (sys_close d)))
     (sfor inherited (\<lambda>held.
        sthen (suppressing (sys_close (hl_lock_descriptor held)))
        (suppressing (sys_close (hl_state_descriptor held))))))))"

definition reset_registry_after_fork :: "unit lease_op" where
  "reset_registry_after_fork =
     sbind (sget (\<lambda>w. my_pid w = lp_registry_pid (lw_process w))) (\<lambda>same.
     if same then sreturn () else reset_registry_in_child)"

section \<open>Acquiring\<close>

definition registered_at :: "absolute_path \<Rightarrow> nat option lease_op" where
  "registered_at state = sget (\<lambda>w. map_of (lp_registry (lw_process w)) state)"

definition lease_at :: "nat \<Rightarrow> maintenance_lease lease_op" where
  "lease_at self = sread (\<lambda>w. of_option KeyError (lp_leases (lw_process w) self))"

definition update_lease :: "nat \<Rightarrow> (maintenance_lease \<Rightarrow> maintenance_lease) \<Rightarrow> unit lease_op" where
  "update_lease self f =
     smodify (on_process (\<lambda>p. p\<lparr>lp_leases := (lp_leases p)(self := map_option f (lp_leases p self))\<rparr>))"

definition update_held :: "nat \<Rightarrow> (held_lease \<Rightarrow> held_lease) \<Rightarrow> unit lease_op" where
  "update_held address f =
     smodify (on_process (\<lambda>p. p\<lparr>lp_held := (lp_held p)(address := map_option f (lp_held p address))\<rparr>))"

definition new_held :: "held_lease \<Rightarrow> nat lease_op" where
  "new_held held w =
     (let address = lp_next (lw_process w) in
      (Inr address, on_process (\<lambda>p. p\<lparr>lp_held := (lp_held p)(address \<mapsto> held), lp_next := Suc address\<rparr>) w))"

text \<open>A new lease object is inactive until the registry has been updated.\<close>

definition new_lease :: "nat \<Rightarrow> nat lease_op" where
  "new_lease address w =
     (let self = lp_next (lw_process w);
          lease = \<lparr>ml_held = address, ml_released = True, ml_entered = False, ml_descriptor_borrows = 0\<rparr> in
      (Inr self, on_process (\<lambda>p. p\<lparr>lp_leases := (lp_leases p)(self \<mapsto> lease), lp_next := Suc self\<rparr>) w))"

definition activate :: "nat \<Rightarrow> unit lease_op" where
  "activate self = update_lease self (\<lambda>l. l\<lparr>ml_released := False\<rparr>)"

text \<open>\<open>_close_descriptors\<close>: whether one of them could not be closed.\<close>

fun close_descriptors :: "nat list \<Rightarrow> bool lease_op" where
  "close_descriptors [] = sreturn False"
| "close_descriptors (d # ds) =
     sbind (sexcept (sthen (sys_close d) (sreturn False)) (\<lambda>e. sreturn True)) (\<lambda>failed.
     sbind (close_descriptors ds) (\<lambda>failed_later. sreturn (failed \<or> failed_later)))"

definition nested_acquire :: "lease_mode \<Rightarrow> nat \<Rightarrow> nat \<Rightarrow> nat lease_op" where
  "nested_acquire mode existing state_descriptor =
     sbind
       (sfinally
         (translating LOCK_OPERATION_FAILED (sthen (verify_held_lease existing) (quarantine_marker_present existing)))
         (sys_close state_descriptor)) (\<lambda>marker_present.
     sbind (held_at existing) (\<lambda>held.
     if hl_mode held = mode \<and> mode = SHARED then
       (if marker_present then sraise (MaintenanceBusyError QUARANTINE_ACTIVE)
        else
          sbind (new_lease existing) (\<lambda>nested_lease.
          sthen (update_held existing (\<lambda>h. h\<lparr>hl_references := hl_references h + 1\<rparr>))
          (sthen (activate nested_lease) (sreturn nested_lease))))
     else sraise (MaintenanceBusyError LEASE_HELD)))"

text \<open>The handler of a failed acquisition: unlock and close what was opened, then raise.\<close>

definition abandon :: "nat option \<Rightarrow> bool \<Rightarrow> nat \<Rightarrow> exn \<Rightarrow> 'a lease_op" where
  "abandon lock_descriptor locked state_descriptor error =
     sthen (case lock_descriptor of Some d \<Rightarrow> if locked then suppressing (sys_unlock d) else sreturn () | None \<Rightarrow> sreturn ())
     (sbind (close_descriptors ((case lock_descriptor of Some d \<Rightarrow> [d] | None \<Rightarrow> []) @ [state_descriptor])) (\<lambda>failed.
      sraise (if failed then integrity LOCK_OPERATION_FAILED else os_error_as LOCK_OPERATION_FAILED error)))"

definition lock_or_busy :: "nat \<Rightarrow> lease_mode \<Rightarrow> unit lease_op" where
  "lock_or_busy lock_descriptor mode =
     sbind (translating LOCK_OPERATION_FAILED (sys_flock lock_descriptor mode)) (\<lambda>granted.
     sguard granted (MaintenanceBusyError LEASE_HELD))"

text \<open>The lease still stands, and a shared one is not fenced off by an active quarantine, which is the error \<open>fenced\<close>.\<close>

definition verify_unfenced :: "nat \<Rightarrow> lease_mode \<Rightarrow> exn \<Rightarrow> unit lease_op" where
  "verify_unfenced address mode fenced =
     sthen (verify_held_lease address)
     (sbind (quarantine_marker_present address) (\<lambda>marker_present.
      sguard (\<not> (mode = SHARED \<and> marker_present)) fenced))"

text \<open>What follows once the kernel has granted the lock.\<close>

definition register_lease :: "absolute_path \<Rightarrow> held_lease \<Rightarrow> nat lease_op" where
  "register_lease state new =
     sbind (new_held new) (\<lambda>held.
     sthen (verify_unfenced held (hl_mode new) (MaintenanceBusyError QUARANTINE_ACTIVE))
     (sbind (new_lease held) (\<lambda>fresh_lease.
      sthen (smodify (on_process (\<lambda>p. p\<lparr>lp_registry := lp_registry p @ [(state, held)]\<rparr>)))
     (sthen (activate fresh_lease) (sreturn fresh_lease)))))"

definition fresh_acquire ::
    "nat \<Rightarrow> lease_mode \<Rightarrow> absolute_path \<Rightarrow> nat \<Rightarrow> inode_identity \<Rightarrow> nat option lease_op" where
  "fresh_acquire rounds mode state state_descriptor state_identity =
     sbind (sexcept (open_or_create_lock rounds state_descriptor) (abandon None False state_descriptor)) (\<lambda>lock.
     case lock of
       None \<Rightarrow> sreturn None
     | Some (lock_descriptor, lock_identity) \<Rightarrow>
         sthen (sexcept (lock_or_busy lock_descriptor mode) (abandon (Some lock_descriptor) False state_descriptor))
         (sbind (sget (\<lambda>w. my_pid w)) (\<lambda>me.
          sbind
            (sexcept
              (register_lease state \<lparr>hl_owner_pid = me, hl_state_directory = state,
                 hl_state_descriptor = state_descriptor, hl_state_identity = state_identity,
                 hl_lock_descriptor = lock_descriptor, hl_lock_identity = lock_identity, hl_mode = mode,
                 hl_references = 1\<rparr>)
              (abandon (Some lock_descriptor) True state_descriptor)) (\<lambda>lease.
          sreturn (Some lease)))))"

definition acquire :: "nat \<Rightarrow> lease_mode \<Rightarrow> absolute_path \<Rightarrow> nat option lease_op" where
  "acquire rounds mode configured_state =
     sthen reset_registry_after_fork
     (sthen reset_registry_after_fork
     (sbind (open_state_directory configured_state) (\<lambda>(state, state_descriptor, state_identity).
      sbind (registered_at state) (\<lambda>existing.
      case existing of
        Some address \<Rightarrow> sbind (nested_acquire mode address state_descriptor) (\<lambda>lease. sreturn (Some lease))
      | None \<Rightarrow> fresh_acquire rounds mode state state_descriptor state_identity))))"

section \<open>Closing\<close>

text \<open>The checks of a release keep their error: the lease is released whatever they find.\<close>

definition captured :: "('s, unit) op \<Rightarrow> ('s, exn option) op" where
  "captured m = sexcept (sthen m (sreturn None)) (\<lambda>e. sreturn (Some e))"

definition check_before_release :: "nat \<Rightarrow> held_lease \<Rightarrow> unit lease_op" where
  "check_before_release address held =
     translating LOCK_OPERATION_FAILED
       (sthen (verify_held_lease address)
       (if hl_mode held = SHARED then
          sbind (quarantine_marker_present address) (\<lambda>present. sguard (\<not> present) (integrity LEASE_STATE_CHANGED))
        else sreturn ()))"

text \<open>Once no reference is left: forget the lease, unlock, and close its descriptors, each even if another fails.\<close>

definition release_kernel_lease :: "held_lease \<Rightarrow> exn option \<Rightarrow> exn option lease_op" where
  "release_kernel_lease held release_error =
     sthen (smodify (on_process (\<lambda>p. p\<lparr>lp_registry := filter (\<lambda>e. fst e \<noteq> hl_state_directory held) (lp_registry p)\<rparr>)))
     (sbind (captured (sys_unlock (hl_lock_descriptor held))) (\<lambda>unlock_error.
      sbind (close_descriptors [hl_lock_descriptor held, hl_state_descriptor held]) (\<lambda>close_failed.
      sreturn (if release_error \<noteq> None then release_error
               else if unlock_error \<noteq> None \<or> close_failed then Some (integrity LOCK_OPERATION_FAILED)
               else None))))"

text \<open>\<open>close\<close> from where it holds the lock of the registry.\<close>

definition close_locked :: "nat \<Rightarrow> unit lease_op" where
  "close_locked self =
     sthen reset_registry_after_fork
     (sbind (lease_at self) (\<lambda>lease.
      sbind (held_at (ml_held lease)) (\<lambda>held.
      sbind (sget (\<lambda>w. my_pid w)) (\<lambda>me.
      sthen (sguard (\<not> (hl_owner_pid held = me \<and> ml_descriptor_borrows lease \<noteq> 0)) (integrity LEASE_DESCRIPTOR_BORROWED))
     (sthen (update_lease self (\<lambda>l. l\<lparr>ml_released := True\<rparr>))
     (sthen (sguard (hl_owner_pid held = me) (integrity PROCESS_CHANGED))
     (sbind (registered_at (hl_state_directory held)) (\<lambda>registered.
      sthen (sguard (registered = Some (ml_held lease)) (integrity LEASE_STATE_CHANGED))
     (sbind (captured (check_before_release (ml_held lease) held)) (\<lambda>check_error.
      sthen (update_held (ml_held lease) (\<lambda>h. h\<lparr>hl_references := hl_references h - 1\<rparr>))
     (sbind (if hl_references held - 1 = 0 then release_kernel_lease held check_error else sreturn check_error) (\<lambda>release_error.
      case release_error of None \<Rightarrow> sreturn () | Some e \<Rightarrow> sraise e))))))))))))"

definition close_lease :: "nat \<Rightarrow> unit lease_op" where
  "close_lease self =
     sbind (lease_at self) (\<lambda>lease.
     if ml_released lease then sreturn ()
     else sthen reset_registry_after_fork (close_locked self))"

section \<open>Using a lease\<close>

text \<open>The checks \<open>__enter__\<close> and \<open>verified_state_descriptor\<close> share: the lease is active, of this process and registered.\<close>

definition usable_lease :: "nat \<Rightarrow> (maintenance_lease \<times> held_lease) lease_op" where
  "usable_lease self =
     sthen reset_registry_after_fork
     (sthen reset_registry_after_fork
     (sbind (lease_at self) (\<lambda>lease.
      sbind (held_at (ml_held lease)) (\<lambda>held.
      sbind (sget (\<lambda>w. my_pid w)) (\<lambda>me.
      sthen (sguard (\<not> ml_released lease) (integrity LEASE_RELEASED))
     (sthen (sguard (hl_owner_pid held = me) (integrity PROCESS_CHANGED))
     (sbind (registered_at (hl_state_directory held)) (\<lambda>registered.
      sthen (sguard (registered = Some (ml_held lease)) (integrity LEASE_STATE_CHANGED))
      (sreturn (lease, held))))))))))"

text \<open>\<open>_release_after_failed_entry\<close>: the lease is closed and the error of the entry is raised.\<close>

definition fail_entry :: "nat \<Rightarrow> exn \<Rightarrow> 'a lease_op" where
  "fail_entry self error = sthen (sexcept (close_lease self) (\<lambda>_. sreturn ())) (sraise error)"

definition enter_lease :: "nat \<Rightarrow> unit lease_op" where
  "enter_lease self =
     sbind (usable_lease self) (\<lambda>(lease, held).
     sthen (sguard (\<not> ml_entered lease) (integrity LEASE_ALREADY_ENTERED))
     (sbind
       (sexcept
         (translating LOCK_OPERATION_FAILED
           (sthen (verify_held_lease (ml_held lease)) (quarantine_marker_present (ml_held lease))))
         (fail_entry self)) (\<lambda>marker_present.
      if hl_mode held = SHARED \<and> marker_present then fail_entry self (integrity LEASE_STATE_CHANGED)
      else update_lease self (\<lambda>l. l\<lparr>ml_entered := True\<rparr>))))"

text \<open>\<open>__exit__\<close>: the error of the block wins over that of the release.\<close>

definition exit_lease :: "nat \<Rightarrow> exn option \<Rightarrow> unit lease_op" where
  "exit_lease self error =
     (case error of
        None \<Rightarrow> close_lease self
      | Some e \<Rightarrow> sthen (sexcept (close_lease self) (\<lambda>_. sreturn ())) (sraise e))"

section \<open>Lending the state directory\<close>

text \<open>\<open>verified_state_descriptor\<close> up to its \<open>yield\<close>, and from there on with the error of the block.\<close>

definition duplicate_state_descriptor :: "nat \<Rightarrow> nat \<Rightarrow> held_lease \<Rightarrow> nat lease_op" where
  "duplicate_state_descriptor self address held =
     sthen (verify_unfenced address (hl_mode held) (integrity LEASE_STATE_CHANGED))
     (sbind (sys_dup (hl_state_descriptor held)) (\<lambda>duplicate.
      sexcept
        (sbind (sys_fstat duplicate) (\<lambda>duplicate_identity.
         sthen (sguard (fi_type duplicate_identity = S_IFDIR \<and> same_object duplicate_identity (hl_state_identity held))
           (integrity LEASE_STATE_CHANGED))
         (sthen (require_state_path_identity (hl_state_directory held) (hl_state_identity held))
         (sthen (smodify (on_process (\<lambda>p. p\<lparr>lp_borrowed := duplicate # lp_borrowed p\<rparr>)))
         (sthen (update_lease self (\<lambda>l. l\<lparr>ml_descriptor_borrows := ml_descriptor_borrows l + 1\<rparr>))
         (sreturn duplicate))))))
        (\<lambda>e. sbind (close_descriptors [duplicate]) (\<lambda>failed.
             sraise (if failed then integrity LOCK_OPERATION_FAILED else e)))))"

definition lend_state_descriptor :: "nat \<Rightarrow> bool \<Rightarrow> nat lease_op" where
  "lend_state_descriptor self require_exclusive =
     sbind (usable_lease self) (\<lambda>(lease, held).
     sthen (sguard (require_exclusive \<longrightarrow> hl_mode held = EXCLUSIVE) (integrity LEASE_MODE_REQUIRED))
     (translating LOCK_OPERATION_FAILED (duplicate_state_descriptor self (ml_held lease) held)))"

definition close_borrowed :: "nat \<Rightarrow> held_lease \<Rightarrow> unit lease_op" where
  "close_borrowed duplicate held =
     sbind (translating LEASE_STATE_CHANGED (sys_fstat duplicate)) (\<lambda>duplicate_identity.
     sthen (sguard (fi_type duplicate_identity = S_IFDIR \<and> same_object duplicate_identity (hl_state_identity held))
       (integrity LEASE_STATE_CHANGED))
     (translating LOCK_OPERATION_FAILED (sys_close duplicate)))"

definition return_state_descriptor :: "nat \<Rightarrow> nat \<Rightarrow> exn option \<Rightarrow> unit lease_op" where
  "return_state_descriptor self duplicate operation_error =
     sbind (lease_at self) (\<lambda>lease.
     sbind (held_at (ml_held lease)) (\<lambda>held.
     sthen reset_registry_after_fork
     (sbind (sget (\<lambda>w. duplicate \<in> set (lp_borrowed (lw_process w)))) (\<lambda>borrowed.
      sbind (if borrowed then captured (close_borrowed duplicate held) else sreturn None) (\<lambda>release_failure.
      sthen (smodify (on_process (\<lambda>p. p\<lparr>lp_borrowed := removeAll duplicate (lp_borrowed p)\<rparr>)))
     (sthen (update_lease self (\<lambda>l. l\<lparr>ml_descriptor_borrows := ml_descriptor_borrows l - 1\<rparr>))
     (case (operation_error, release_failure) of
        (Some e, _) \<Rightarrow> sraise e
      | (None, Some e) \<Rightarrow> sraise e
      | (None, None) \<Rightarrow> sreturn ())))))))"

end
