(* ===== verification/Lease_Views.thy ===== *)
theory Lease_Views
  imports Maintenance
begin

text \<open>
  What the operations of the maintenance lease do to the descriptors of their process. \<open>fd_view\<close> is what this process
  sees through its descriptors: the open file description, the file and the lock. An operation is described
  by what it does to this view: it leaves it alone (\<open>quiet\<close>), opens a descriptor (\<open>opens_by\<close>) or closes one
  (\<open>closes_fd\<close>), whatever the other processes do. After a failing \<open>close\<close> a descriptor may be left over.
\<close>

section \<open>The kernel\<close>

type_synonym fd_map = "nat \<Rightarrow> (nat \<times> file_object \<times> lease_mode option) option"

definition kernel_ok :: "kernel \<Rightarrow> bool" where
  "kernel_ok k =
     ((\<forall>description. kn_locks k description \<noteq> None \<longrightarrow> description \<in> snd ` set (kn_fds k))
      \<and> (\<forall>description \<in> snd ` set (kn_fds k). description < kn_next k)
      \<and> (\<forall>a b m m'. a \<noteq> b \<longrightarrow> kn_files k a = kn_files k b \<longrightarrow> kn_locks k a = Some m \<longrightarrow> kn_locks k b = Some m'
           \<longrightarrow> m = SHARED \<and> m' = SHARED))"

definition view_of :: "kernel \<Rightarrow> int \<Rightarrow> fd_map" where
  "view_of k p d = map_option (\<lambda>x. (x, kn_files k x, kn_locks k x)) (description_of k p d)"

abbreviation fd_view :: "lease_world \<Rightarrow> fd_map" where
  "fd_view w \<equiv> view_of (lw_kernel w) (my_pid w)"

lemma locked_used: "kernel_ok k \<Longrightarrow> kn_locks k a = Some m \<Longrightarrow> a \<in> snd ` set (kn_fds k)"
  unfolding kernel_ok_def by (drule conjunct1) (simp only: option.distinct simp_thms)

lemma lowest_unused: "lowest_unused used \<notin> set used"
proof -
  have "\<not> {0..<Suc (length used)} \<subseteq> set used"
    using card_mono [of "set used" "{0..<Suc (length used)}"] card_length [of used]
    by (metis List.finite_set card_atLeastLessThan diff_zero not_less_eq_eq order_trans)
  then have "filter (\<lambda>n. n \<notin> set used) [0..<Suc (length used)] \<noteq> []"
    by (simp only: filter_empty_conv) (auto simp del: upt_Suc)
  then have "lowest_unused used \<in> set (filter (\<lambda>n. n \<notin> set used) [0..<Suc (length used)])"
    unfolding lowest_unused_def by (rule hd_in_set)
  then show ?thesis by (simp del: upt_Suc)
qed

lemma description_of_used: "description_of k p d = Some x \<Longrightarrow> x \<in> snd ` set (kn_fds k)"
  by (force simp: description_of_def dest: map_of_SomeD)

lemma view_of_Some: "view_of k p d = Some x \<Longrightarrow> fst x \<in> snd ` set (kn_fds k)"
  by (auto simp: view_of_def dest: description_of_used)

lemma description_unused: "description_of k p (lowest_unused (descriptors_of p k)) = None"
proof (rule ccontr)
  assume "description_of k p (lowest_unused (descriptors_of p k)) \<noteq> None"
  then obtain x where "((p, lowest_unused (descriptors_of p k)), x) \<in> set (kn_fds k)"
    by (auto simp: description_of_def dest: map_of_SomeD)
  then have "lowest_unused (descriptors_of p k) \<in> set (descriptors_of p k)"
    unfolding descriptors_of_def by force
  then show False using lowest_unused by blast
qed

lemma description_of_Cons [simp]:
  "map_of (((p, d), x) # fds) (q, d') = (if p = q \<and> d = d' then Some x else map_of fds (q, d'))"
  by auto

lemma map_of_removed: "map_of (filter (\<lambda>e. fst e \<noteq> x) xs) = (map_of xs)(x := None)"
  by (induction xs) (auto simp: fun_eq_iff)

lemma opened_kernel:
  assumes "kernel_ok k"
  shows "kernel_ok (open_object p object k)"
    and "view_of (open_object p object k) q =
      (if q = p then (view_of k p)(lowest_unused (descriptors_of p k) \<mapsto> (kn_next k, object, None)) else view_of k q)"
proof -
  have n: "kn_locks k (kn_next k) = None" and fresh: "\<And>d x. description_of k q d = Some x \<Longrightarrow> x \<noteq> kn_next k"
    using assms by (force simp: kernel_ok_def description_of_def dest: map_of_SomeD)+
  show "kernel_ok (open_object p object k)"
    using assms n unfolding kernel_ok_def open_object_def by (auto simp: less_Suc_eq)
  show "view_of (open_object p object k) q =
      (if q = p then (view_of k p)(lowest_unused (descriptors_of p k) \<mapsto> (kn_next k, object, None)) else view_of k q)"
    using n fresh by (auto simp: fun_eq_iff view_of_def open_object_def description_of_def option.map_comp comp_def
        split: option.splits intro!: option.map_cong)
qed

lemma shared_kernel:
  assumes "kernel_ok k" and "x \<in> snd ` set (kn_fds k)"
  shows "kernel_ok (share_description p x k)"
    and "view_of (share_description p x k) q =
      (if q = p then (view_of k p)(lowest_unused (descriptors_of p k) \<mapsto> (x, kn_files k x, kn_locks k x)) else view_of k q)"
proof -
  show "kernel_ok (share_description p x k)"
    using assms unfolding kernel_ok_def share_description_def by (auto simp: insert_absorb)
  show "view_of (share_description p x k) q =
      (if q = p then (view_of k p)(lowest_unused (descriptors_of p k) \<mapsto> (x, kn_files k x, kn_locks k x)) else view_of k q)"
    by (auto simp: fun_eq_iff view_of_def share_description_def description_of_def)
qed

lemma closed_kernel:
  shows "kernel_ok k \<Longrightarrow> kernel_ok (close_descriptor p d k)"
    and "view_of (close_descriptor p d k) q = (if q = p then (view_of k p)(d := None) else view_of k q)"
proof -
  show "kernel_ok k \<Longrightarrow> kernel_ok (close_descriptor p d k)"
    unfolding kernel_ok_def close_descriptor_def Let_def by (auto split: if_splits)
  have "\<And>d' x. map_of (filter (\<lambda>e. fst e \<noteq> (p, d)) (kn_fds k)) (q, d') = Some x \<Longrightarrow>
      x \<in> snd ` set (filter (\<lambda>e. fst e \<noteq> (p, d)) (kn_fds k))"
    by (drule map_of_SomeD) force
  then show "view_of (close_descriptor p d k) q = (if q = p then (view_of k p)(d := None) else view_of k q)"
    by (fastforce simp: fun_eq_iff view_of_def close_descriptor_def Let_def description_of_def map_of_removed
        split: option.splits intro!: option.map_cong)
qed

definition with_lock :: "nat \<Rightarrow> lease_mode option \<Rightarrow> fd_map \<Rightarrow> fd_map" where
  "with_lock description lock v d =
     (case v d of None \<Rightarrow> None | Some (x, object, old) \<Rightarrow> Some (x, object, if x = description then lock else old))"

lemma set_lock_view: "view_of (set_lock x lock k) q = with_lock x lock (view_of k q)"
  by (auto simp: fun_eq_iff view_of_def set_lock_def description_of_def with_lock_def split: option.splits)

lemma unlocked_kernel: "kernel_ok k \<Longrightarrow> kernel_ok (set_lock x None k)"
  unfolding kernel_ok_def set_lock_def by (auto split: if_splits)

lemma locked_kernel:
  assumes ok: "kernel_ok k" and x: "x \<in> snd ` set (kn_fds k)" and free: "\<not> lock_conflicts x mode k"
  shows "kernel_ok (set_lock x (Some mode) k)"
proof -
  have "m = SHARED \<and> mode = SHARED" if "a \<noteq> x" "kn_files k a = kn_files k x" "kn_locks k a = Some m" for a m
  proof -
    from ok that(3) have "a \<in> snd ` set (kn_fds k)" by (rule locked_used)
    then obtain e where "e \<in> set (kn_fds k)" "snd e = a" by auto
    with free that have "mode \<noteq> EXCLUSIVE \<and> m \<noteq> EXCLUSIVE"
      unfolding lock_conflicts_def list_ex_iff by auto
    then show ?thesis by (meson lease_mode.exhaust)
  qed
  note other = this
  have "m = SHARED \<and> m' = SHARED"
    if ab: "a \<noteq> b" "kn_files k a = kn_files k b" "((kn_locks k)(x \<mapsto> mode)) a = Some m"
      "((kn_locks k)(x \<mapsto> mode)) b = Some m'" for a b m m'
  proof (cases "a = x \<or> b = x")
    case True
    with ab other [of a m] other [of b m'] show ?thesis by (auto split: if_splits)
  next
    case False
    with ab ok show ?thesis by (auto simp: kernel_ok_def)
  qed
  note compatible = this
  have "kn_locks (set_lock x (Some mode) k) a \<noteq> None \<Longrightarrow> a \<in> snd ` set (kn_fds k)" for a
    using ok x by (cases "a = x") (auto simp: kernel_ok_def set_lock_def)
  moreover have "\<forall>description \<in> snd ` set (kn_fds k). description < kn_next k"
    using ok by (simp add: kernel_ok_def)
  ultimately show ?thesis
    unfolding kernel_ok_def using compatible by (simp add: set_lock_def)
qed

lemma flocked_kernel: "kernel_ok k \<Longrightarrow> x \<in> snd ` set (kn_fds k) \<Longrightarrow> kernel_ok (flock_description x mode k)"
  by (simp add: flock_description_def locked_kernel unlocked_kernel)

lemma with_lock_unshared:
  assumes "\<not> shared_with p x k"
  shows "with_lock x lock (view_of k p) = view_of k p"
proof -
  have "description_of k p d \<noteq> Some x" for d
    using assms by (force simp: description_of_def shared_with_def list_ex_iff dest: map_of_SomeD)
  then show ?thesis
    by (auto simp: fun_eq_iff with_lock_def view_of_def split: option.splits)
qed

lemma forked_view:
  assumes "q \<noteq> child"
  shows "view_of (fork_descriptors parent child k) q = view_of k q"
proof -
  have "map_of (map (\<lambda>e. ((child, snd (fst e)), snd e)) es) (q, d) = None" for es d
    using assms by (induction es) auto
  then show ?thesis
    by (auto simp: fun_eq_iff view_of_def fork_descriptors_def description_of_def map_add_def split: option.splits)
qed

lemma forked_kernel:
  assumes "kernel_ok k"
  shows "kernel_ok (fork_descriptors parent child k)"
proof -
  have "snd ` set (kn_fds (fork_descriptors parent child k)) = snd ` set (kn_fds k)"
    by (force simp: fork_descriptors_def)
  with assms show ?thesis
    unfolding kernel_ok_def by (simp add: fork_descriptors_def)
qed

lemma flocked_view:
  "view_of (flock_description x mode k) q = with_lock x (if lock_conflicts x mode k then None else Some mode) (view_of k q)"
  by (simp add: flock_description_def set_lock_view)

text \<open>Nothing the others do is seen through the descriptors of this process.\<close>

lemma interfered_kernel:
  assumes "kernel_ok k"
  shows "kernel_ok (interfere me a k) \<and> view_of (interfere me a k) me = view_of k me"
proof (cases a)
  case (Names names)
  with assms show ?thesis by (simp add: kernel_ok_def view_of_def fun_eq_iff description_of_def)
next
  case (Opens p object)
  with assms show ?thesis by (simp add: opened_kernel)
next
  case (Duplicates p d)
  with assms show ?thesis by (auto simp: shared_kernel [OF _ description_of_used] split: option.splits)
next
  case (Closes p d)
  with assms show ?thesis by (simp add: closed_kernel)
next
  case (Locks p d mode)
  with assms show ?thesis
    by (auto simp: flocked_kernel [OF _ description_of_used] flocked_view with_lock_unshared split: option.splits)
next
  case (Unlocks p d)
  with assms show ?thesis
    by (auto simp: set_lock_view with_lock_unshared unlocked_kernel split: option.splits)
next
  case (Forks parent child)
  with assms show ?thesis by (auto simp: forked_kernel forked_view)
qed

section \<open>What an operation does to the view\<close>

definition calm :: "lease_process \<Rightarrow> lease_process \<Rightarrow> bool" where
  "calm p q =
     (lp_pid q = lp_pid p \<and> lp_registry_pid q = lp_registry_pid p \<and> lp_registry q = lp_registry p
      \<and> lp_borrowed q = lp_borrowed p \<and> lp_leases q = lp_leases p \<and> lp_next p \<le> lp_next q
      \<and> (\<forall>a < lp_next p. lp_held q a = lp_held p a))"

lemma calm_refl [simp]: "calm p p"
  by (simp add: calm_def)

lemma calm_trans: "calm p q \<Longrightarrow> calm q r \<Longrightarrow> calm p r"
  by (auto simp: calm_def)

lemma calm_pid: "calm p q \<Longrightarrow> lp_pid q = lp_pid p"
  by (simp add: calm_def)

abbreviation world_ok :: "lease_world \<Rightarrow> bool" where
  "world_ok w \<equiv> kernel_ok (lw_kernel w)"

definition closes_well :: "lease_world \<Rightarrow> bool" where
  "closes_well w = (\<forall>n. \<not> kn_close_fault (lw_kernel w) n)"

text \<open>The view after an operation is \<open>v\<close>, unless a descriptor could not be closed and is left over.\<close>

definition moved :: "lease_world \<Rightarrow> fd_map \<Rightarrow> lease_world \<Rightarrow> bool" where
  "moved s v t =
     (world_ok t \<and> calm (lw_process s) (lw_process t) \<and> closes_well t = closes_well s
      \<and> v \<subseteq>\<^sub>m fd_view t \<and> (closes_well s \<longrightarrow> fd_view t = v))"

lemma moved_trans:
  assumes "moved s v t" and "moved t (f (fd_view t)) u" and "\<And>a b. a \<subseteq>\<^sub>m b \<Longrightarrow> f a \<subseteq>\<^sub>m f b"
  shows "moved s (f v) u"
  using assms unfolding moved_def by (metis calm_trans map_le_trans)

lemma moved_quiet: "moved s v t \<Longrightarrow> moved t (fd_view t) u \<Longrightarrow> moved s v u"
  using moved_trans [of s v t "\<lambda>x. x"] by simp

lemma moved_ok: "moved s v t \<Longrightarrow> world_ok t"
  by (simp add: moved_def)

definition quiet :: "lease_world \<Rightarrow> lease_world \<Rightarrow> bool" where
  "quiet s t = (world_ok s \<longrightarrow> moved s (fd_view s) t)"

text \<open>The handlers of \<open>Lease_Kernel\<close> do what their parts do.\<close>

context state_preorder
begin

lemma keeps_translating [intro]: "keeps m \<Longrightarrow> keeps (translating reason m)"
  unfolding keeps_def translating_def by (auto split: prod.splits) (metis snd_conv)

lemma keeps_except [intro]: "keeps m \<Longrightarrow> (\<And>e. keeps (h e)) \<Longrightarrow> keeps (sexcept m h)"
  unfolding keeps_def sexcept_def
  by (auto split: prod.splits sum.splits) (metis Q_trans snd_conv)+

lemma keeps_finally [intro]: "keeps m \<Longrightarrow> keeps f \<Longrightarrow> keeps (sfinally m f)"
  unfolding keeps_def sfinally_def
  by (auto split: prod.splits sum.splits) (metis Q_trans snd_conv)+

lemma keeps_let [intro]: "keeps (f x) \<Longrightarrow> keeps (let y = x in f y)"
  by simp

lemma keeps_option [intro]: "keeps m \<Longrightarrow> (\<And>x. keeps (f x)) \<Longrightarrow> keeps (case x of None \<Rightarrow> m | Some y \<Rightarrow> f y)"
  by (cases x) auto

lemma keeps_suppressing [intro]: "keeps m \<Longrightarrow> keeps (suppressing m)"
  unfolding suppressing_def by (intro keeps_catch) auto

end

interpretation quiet: state_preorder quiet
proof
  show "quiet s s" for s by (simp add: quiet_def moved_def)
  show "quiet s t \<Longrightarrow> quiet t u \<Longrightarrow> quiet s u" for s t u
    using moved_quiet moved_ok unfolding quiet_def by blast
qed

lemma quiet_moved: "moved s v t \<Longrightarrow> quiet t u \<Longrightarrow> moved s v u"
  using moved_quiet moved_ok unfolding quiet_def by blast

lemma quietD: "quiet.keeps m \<Longrightarrow> m s = (r, t) \<Longrightarrow> world_ok s \<Longrightarrow> moved s (fd_view s) t"
  using quiet.keepsD unfolding quiet_def by blast

section \<open>System calls\<close>

lemma others_fold:
  assumes "kernel_ok k"
  shows "kernel_ok (fold (interfere me) as k) \<and> view_of (fold (interfere me) as k) me = view_of k me"
  using assms by (induction as arbitrary: k) (use interfered_kernel in auto)

lemma close_fault_constant:
  "kn_close_fault (interfere me a k) = kn_close_fault k"
  by (cases a) (auto simp: open_object_def share_description_def close_descriptor_def flock_description_def set_lock_def
      fork_descriptors_def Let_def split: option.splits)

lemma close_fault_fold: "kn_close_fault (fold (interfere me) as k) = kn_close_fault k"
  by (induction as arbitrary: k) (simp_all add: close_fault_constant)

lemma ticked: "kernel_ok (k\<lparr>kn_tick := n\<rparr>) = kernel_ok k" "view_of (k\<lparr>kn_tick := n\<rparr>) p = view_of k p"
  by (simp_all add: kernel_ok_def view_of_def description_of_def fun_eq_iff)

lemma let_others_act_quiet: "quiet w (let_others_act w)"
  using others_fold [of "lw_kernel w"]
  by (auto simp: quiet_def moved_def let_others_act_def on_kernel_def ticked closes_well_def close_fault_fold)

lemma keeps_system_call [intro, simp]: "quiet.keeps system_call"
  by (rule quiet.keepsI) (simp add: system_call_def let_others_act_quiet)

lemma keeps_calls [intro, simp]:
  "quiet.keeps (sys_lstat p)" "quiet.keeps (sys_fstat d)" "quiet.keeps (directory_of d)"
  "quiet.keeps (sys_stat_at d name)" "quiet.keeps (sys_scandir d)" "quiet.keeps (held_at address)"
  "quiet.keeps (lease_at self)" "quiet.keeps (registered_at state)"
  unfolding sys_lstat_def sys_fstat_def directory_of_def sys_stat_at_def sys_scandir_def held_at_def lease_at_def
    registered_at_def by (auto intro!: quiet.keeps_then quiet.keeps_bind)

lemma keeps_checks [intro, simp]:
  "quiet.keeps (require_state_path_identity state i)" "quiet.keeps (require_lock_path_identity d i)"
  "quiet.keeps (require_exact_fence_entry_name d name)" "quiet.keeps (verify_held_lease address)"
  unfolding require_state_path_identity_def require_lock_path_identity_def require_exact_fence_entry_name_def
    verify_held_lease_def by (auto intro!: quiet.keeps_then quiet.keeps_bind quiet.keeps_translating)

text \<open>An operation whose result names a descriptor it has opened, which was not open before. A \<open>fresh\<close> one has an open
  file description of its own, without a lock.\<close>

definition fresh_entry :: "bool \<Rightarrow> fd_map \<Rightarrow> (nat \<times> file_object \<times> lease_mode option) \<Rightarrow> bool" where
  "fresh_entry own v x = (own \<longrightarrow> fst x \<notin> fst ` ran v \<and> snd (snd x) = None)"

definition opens_by :: "bool \<Rightarrow> ('a \<Rightarrow> nat option) \<Rightarrow> 'a lease_op \<Rightarrow> bool" where
  "opens_by own descriptor m =
     (\<forall>s. world_ok s \<longrightarrow> (case m s of
        (Inl e, t) \<Rightarrow> moved s (fd_view s) t
      | (Inr r, t) \<Rightarrow>
          (case descriptor r of
             None \<Rightarrow> moved s (fd_view s) t
           | Some d \<Rightarrow> fd_view s d = None \<and> (\<exists>x. fresh_entry own (fd_view s) x \<and> moved s ((fd_view s)(d \<mapsto> x)) t))))"

definition closes_fd :: "nat \<Rightarrow> 'a lease_op \<Rightarrow> bool" where
  "closes_fd d m = (\<forall>s. world_ok s \<longrightarrow> fd_view s d \<noteq> None \<longrightarrow> moved s ((fd_view s)(d := None)) (snd (m s)))"

lemma opens_by_Inl: "opens_by own f m \<Longrightarrow> m s = (Inl e, t) \<Longrightarrow> world_ok s \<Longrightarrow> moved s (fd_view s) t"
  unfolding opens_by_def by fastforce

lemma opens_by_None: "opens_by own f m \<Longrightarrow> m s = (Inr r, t) \<Longrightarrow> f r = None \<Longrightarrow> world_ok s \<Longrightarrow> moved s (fd_view s) t"
  unfolding opens_by_def by fastforce

lemma opens_by_Some:
  assumes "opens_by own f m" and "m s = (Inr r, t)" and "f r = Some d" and "world_ok s"
  obtains x where "fd_view s d = None" "fresh_entry own (fd_view s) x" "moved s ((fd_view s)(d \<mapsto> x)) t"
proof -
  from assms(1) [unfolded opens_by_def, rule_format, OF assms(4)] assms(2,3)
  have "fd_view s d = None \<and> (\<exists>x. fresh_entry own (fd_view s) x \<and> moved s ((fd_view s)(d \<mapsto> x)) t)" by simp
  then show thesis by (elim conjE exE) (rule that)
qed

lemma opens_byI:
  assumes "\<And>s e t. m s = (Inl e, t) \<Longrightarrow> world_ok s \<Longrightarrow> moved s (fd_view s) t"
    and "\<And>s r t. m s = (Inr r, t) \<Longrightarrow> f r = None \<Longrightarrow> world_ok s \<Longrightarrow> moved s (fd_view s) t"
    and "\<And>s r t d. m s = (Inr r, t) \<Longrightarrow> f r = Some d \<Longrightarrow> world_ok s \<Longrightarrow>
      fd_view s d = None \<and> (\<exists>x. fresh_entry own (fd_view s) x \<and> moved s ((fd_view s)(d \<mapsto> x)) t)"
  shows "opens_by own f m"
  unfolding opens_by_def
proof (intro allI impI)
  fix s assume ok: "world_ok s"
  obtain r t where m: "m s = (r, t)" by (cases "m s")
  show "case m s of (Inl e, t) \<Rightarrow> moved s (fd_view s) t
      | (Inr r, t) \<Rightarrow> (case f r of None \<Rightarrow> moved s (fd_view s) t
          | Some d \<Rightarrow> fd_view s d = None \<and> (\<exists>x. fresh_entry own (fd_view s) x \<and> moved s ((fd_view s)(d \<mapsto> x)) t))"
  proof (cases r)
    case (Inl e)
    from assms(1) [OF m [unfolded Inl] ok] show ?thesis unfolding m Inl by simp
  next
    case (Inr a)
    show ?thesis
    proof (cases "f a")
      case None
      from assms(2) [OF m [unfolded Inr] None ok] show ?thesis unfolding m Inr by (simp add: None)
    next
      case (Some d)
      from assms(3) [OF m [unfolded Inr] Some ok] show ?thesis unfolding m Inr by (simp add: Some)
    qed
  qed
qed


lemma moved_le: "moved s v t \<Longrightarrow> v \<subseteq>\<^sub>m fd_view t"
  by (simp add: moved_def)

lemma le_None: "u \<subseteq>\<^sub>m v \<Longrightarrow> v d = None \<Longrightarrow> u d = None"
  by (metis domIff map_le_def)

lemma le_Some: "u \<subseteq>\<^sub>m v \<Longrightarrow> u d = Some x \<Longrightarrow> v d = Some x"
  by (metis domI map_le_def)

lemma fresh_entry_mono:
  assumes "fresh_entry own v x" and "u \<subseteq>\<^sub>m v"
  shows "fresh_entry own u x"
proof -
  have "ran u \<subseteq> ran v" using le_Some [OF assms(2)] unfolding ran_def by blast
  with assms(1) show ?thesis unfolding fresh_entry_def by blast
qed

lemma moved_open:
  assumes "moved s v t" and "fd_view t d = None" and "fresh_entry own (fd_view t) x" and "moved t ((fd_view t)(d \<mapsto> x)) u"
  shows "v d = None \<and> fresh_entry own v x \<and> moved s (v(d \<mapsto> x)) u"
  using moved_le [OF assms(1)] assms moved_trans [of s v t "\<lambda>v. v(d \<mapsto> x)" u]
  by (auto simp: le_None fresh_entry_mono map_le_upd)

lemma opens_after [intro]:
  assumes "quiet.keeps m" and "\<And>x. opens_by own f (n x)"
  shows "opens_by own f (sbind m n)"
proof (rule opens_byI)
  show "moved s (fd_view s) t" if "sbind m n s = (Inl e, t)" "world_ok s" for s e t
    using that quietD [OF assms(1)] opens_by_Inl [OF assms(2)] moved_quiet moved_ok
    by (fastforce simp: sbind_Inl)
  show "moved s (fd_view s) t" if "sbind m n s = (Inr r, t)" "f r = None" "world_ok s" for s r t
    using that quietD [OF assms(1)] opens_by_None [OF assms(2)] moved_quiet moved_ok
    by (fastforce simp: sbind_Inr)
  show "fd_view s d = None \<and> (\<exists>x. fresh_entry own (fd_view s) x \<and> moved s ((fd_view s)(d \<mapsto> x)) t)"
    if r: "sbind m n s = (Inr r, t)" "f r = Some d" "world_ok s" for s r t d
  proof -
    from r(1) obtain y u where u: "m s = (Inr y, u)" "n y u = (Inr r, t)" by (auto simp: sbind_Inr)
    note q = quietD [OF assms(1) u(1) r(3)]
    from opens_by_Some [OF assms(2) u(2) r(2) moved_ok [OF q]] moved_open [OF q] show ?thesis by metis
  qed
qed

lemma opens_after_then [intro]: "quiet.keeps m \<Longrightarrow> opens_by own f n \<Longrightarrow> opens_by own f (sthen m n)"
  unfolding sthen_def by (rule opens_after)

lemma opens_raise [intro, simp]: "opens_by own f (sraise e)"
  by (auto simp: opens_by_def sraise_def quiet.Q_refl [unfolded quiet_def])

text \<open>The result is checked, and closed when a check fails.\<close>

lemma closed_view: "world_ok s \<Longrightarrow> moved s ((fd_view s)(d := None)) (snd (sys_close d s))"
  using let_others_act_quiet [of s]
  by (auto simp: quiet_def moved_def sys_close_def on_kernel_def closed_kernel let_others_act_def closes_well_def
      close_descriptor_def [THEN arg_cong, of kn_close_fault] Let_def map_le_upd)

lemma closes_fd_close [intro, simp]: "closes_fd d (sys_close d)"
  by (simp add: closes_fd_def closed_view)

lemma closesD: "closes_fd d m \<Longrightarrow> m s = (r, t) \<Longrightarrow> world_ok s \<Longrightarrow> fd_view s d \<noteq> None \<Longrightarrow> moved s ((fd_view s)(d := None)) t"
  unfolding closes_fd_def by (metis snd_conv)

lemma moved_close: "moved s v t \<Longrightarrow> moved t ((fd_view t)(d := None)) u \<Longrightarrow> moved s (v(d := None)) u"
  using moved_trans [of s v t "\<lambda>v. v(d := None)" u] by (simp add: map_le_upd)

lemma view_kept: "moved s v t \<Longrightarrow> v d \<noteq> None \<Longrightarrow> fd_view t d \<noteq> None"
  by (cases "v d") (simp_all add: le_Some [OF moved_le])

lemma closes_then [intro]:
  assumes "closes_fd d m" and "quiet.keeps n"
  shows "closes_fd d (sthen m n)"
proof -
  have "moved s ((fd_view s)(d := None)) (snd (sthen m n s))" if ok: "world_ok s" "fd_view s d \<noteq> None" for s
  proof -
    obtain r t where m: "m s = (r, t)" by (cases "m s")
    note q = closesD [OF assms(1) m ok]
    obtain r' u where n: "n t = (r', u)" by (cases "n t")
    from q moved_quiet [OF q quietD [OF assms(2) n moved_ok [OF q]]] m n show ?thesis
      by (auto simp: sthen_def sbind_def split: sum.splits)
  qed
  then show ?thesis by (simp add: closes_fd_def)
qed

lemma closes_finally [intro]:
  assumes "quiet.keeps m" and "closes_fd d f"
  shows "closes_fd d (sfinally m f)"
proof -
  have "moved s ((fd_view s)(d := None)) (snd (sfinally m f s))" if ok: "world_ok s" "fd_view s d \<noteq> None" for s
  proof -
    obtain r t where m: "m s = (r, t)" by (cases "m s")
    note q = quietD [OF assms(1) m ok(1)]
    obtain r' u where f: "f t = (r', u)" by (cases "f t")
    from moved_close [OF q closesD [OF assms(2) f moved_ok [OF q] view_kept [OF q ok(2)]]] m f show ?thesis
      by (auto simp: sfinally_def split: sum.splits)
  qed
  then show ?thesis by (simp add: closes_fd_def)
qed

text \<open>What is opened and closed again is not seen afterwards.\<close>

lemma keeps_bracket [intro]:
  assumes "opens_by own Some m" and "\<And>d. closes_fd d (n d)"
  shows "quiet.keeps (sbind m n)"
proof (rule quiet.keepsI)
  fix s
  obtain r t where m: "m s = (r, t)" by (cases "m s")
  show "quiet s (snd (sbind m n s))"
  proof (cases r)
    case (Inl e)
    with m opens_by_Inl [OF assms(1)] show ?thesis by (simp add: sbind_def quiet_def)
  next
    case (Inr d)
    obtain r' u where n: "n d t = (r', u)" by (cases "n d t")
    have "moved s (fd_view s) u" if ok: "world_ok s"
    proof -
      from opens_by_Some [OF assms(1) m [unfolded Inr] refl ok] obtain x where x: "fd_view s d = None"
          "moved s ((fd_view s)(d \<mapsto> x)) t" by blast
      from view_kept [OF x(2), of d] have "fd_view t d \<noteq> None" by simp
      from moved_close [OF x(2) closesD [OF assms(2) n moved_ok [OF x(2)] this]] x(1) show ?thesis
        by (simp add: fun_upd_idem)
    qed
    with m n Inr show ?thesis by (simp add: sbind_def quiet_def)
  qed
qed

lemma opens_map:
  assumes "opens_by own f m" and "\<And>r. g (h r) = f r"
  shows "opens_by own g (sbind m (\<lambda>r. sreturn (h r)))"
  using assms unfolding opens_by_def sbind_def sreturn_def by (fastforce split: prod.splits sum.splits)

lemma opens_translating [intro]: "opens_by own f m \<Longrightarrow> opens_by own f (translating reason m)"
  unfolding opens_by_def translating_def by (fastforce split: prod.splits sum.splits)

lemma opens_checked:
  assumes opens: "opens_by own Some m" and body: "\<And>d. quiet.keeps (body d)"
    and result: "\<And>d s r t. body d s = (Inr r, t) \<Longrightarrow> f r = Some d"
  shows "opens_by own f (sbind m (\<lambda>d. sexcept (body d) (\<lambda>e. sthen (sys_close d) (sraise e))))"
    (is "opens_by own f ?m")
proof (rule opens_byI)
  fix s e t assume r: "?m s = (Inl e, t)" and ok: "world_ok s"
  then consider "m s = (Inl e, t)" | d u e' v where "m s = (Inr d, u)" "body d u = (Inl e', v)"
      "t = snd (sys_close d v)"
    by (auto simp: sbind_Inl sexcept_def sthen_def sraise_def sbind_def split: prod.splits sum.splits)
  then show "moved s (fd_view s) t"
  proof cases
    case 2
    from opens_by_Some [OF opens 2(1) refl ok] obtain x where x: "fd_view s d = None"
        "moved s ((fd_view s)(d \<mapsto> x)) u" by blast
    note q = moved_quiet [OF x(2) quietD [OF body 2(2) moved_ok [OF x(2)]]]
    obtain r w where c: "sys_close d v = (r, w)" by (cases "sys_close d v")
    from view_kept [OF q, of d] have "fd_view v d \<noteq> None" by simp
    from moved_close [OF q closesD [OF closes_fd_close c moved_ok [OF q] this]] x(1) 2(3) c show ?thesis
      by (simp add: fun_upd_idem)
  qed (use opens_by_Inl [OF opens] ok in blast)
next
  fix s r t assume "?m s = (Inr r, t)" "f r = None"
  then show "moved s (fd_view s) t"
    by (auto simp: sbind_Inr sexcept_def sthen_def sraise_def sbind_def split: prod.splits sum.splits dest!: result)
next
  fix s r t d assume r: "?m s = (Inr r, t)" "f r = Some d" and ok: "world_ok s"
  then obtain d' u where m: "m s = (Inr d', u)" "body d' u = (Inr r, t)"
    by (auto simp: sbind_Inr sexcept_def sthen_def sraise_def sbind_def split: prod.splits sum.splits)
  from result [OF m(2)] r(2) have d: "d' = d" by simp
  from opens_by_Some [OF opens m(1) [unfolded d] refl ok] obtain x where x: "fd_view s d = None"
      "fresh_entry own (fd_view s) x" "moved s ((fd_view s)(d \<mapsto> x)) u" by blast
  from moved_quiet [OF x(3) quietD [OF body m(2) moved_ok [OF x(3)]]] x(1,2)
  show "fd_view s d = None \<and> (\<exists>x. fresh_entry own (fd_view s) x \<and> moved s ((fd_view s)(d \<mapsto> x)) t)" by metis
qed

lemma view_unused: "fd_view w (lowest_unused (descriptors_of (my_pid w) (lw_kernel w))) = None"
  by (simp add: view_of_def description_unused)

lemma view_below_next:
  assumes "kernel_ok k" and "(x, y) \<in> ran (view_of k p)"
  shows "x < kn_next k"
proof -
  from assms(2) obtain d where "description_of k p d = Some x" by (auto simp: ran_def view_of_def)
  from description_of_used [OF this] assms(1) show ?thesis unfolding kernel_ok_def by blast
qed

lemma open_here_opens [intro, simp]: "opens_by own Some (open_here object)"
proof -
  have "moved s ((fd_view s)(lowest_unused (descriptors_of (my_pid s) (lw_kernel s)) \<mapsto> (kn_next (lw_kernel s), object, None)))
      (on_kernel (open_object (my_pid s) object) s)" if "world_ok s" for s
    using that by (simp add: moved_def on_kernel_def opened_kernel closes_well_def open_object_def [THEN arg_cong, of kn_close_fault])
  moreover have "fresh_entry own (fd_view s) (kn_next (lw_kernel s), object, None)" if "world_ok s" for s
    using view_below_next [OF that] by (fastforce simp: fresh_entry_def)
  ultimately show ?thesis
    unfolding opens_by_def open_here_def using view_unused by (auto intro!: exI [of _ "kn_next (lw_kernel _)"] exI [of _ object] exI [of _ None] simp del: split_paired_Ex)
qed

lemma opens_calls [intro, simp]:
  "opens_by own Some (sys_open_directory p)" "opens_by own Some (sys_open_at d name only)"
  unfolding sys_open_directory_def sys_open_at_def by (auto intro!: opens_after_then opens_after)

lemma renamed: "kernel_ok (k\<lparr>kn_names := names\<rparr>) = kernel_ok k" "view_of (k\<lparr>kn_names := names\<rparr>) p = view_of k p"
  by (simp_all add: kernel_ok_def view_of_def description_of_def fun_eq_iff)

lemma keeps_names [intro, simp]: "quiet.keeps (smodify (on_kernel (\<lambda>k. k\<lparr>kn_names := names\<rparr>)))"
  by (rule quiet.keepsI) (simp add: quiet_def moved_def smodify_def on_kernel_def renamed closes_well_def)

lemma opens_create [intro, simp]: "opens_by own (\<lambda>r. r) (sys_create_at d name)"
  unfolding sys_create_at_def
proof (intro opens_after_then opens_after)
  fix directory :: file_object and names :: name_space
  have "opens_by own (\<lambda>r. r) (sreturn None)"
    by (auto simp: opens_by_def sreturn_def quiet.Q_refl [unfolded quiet_def])
  moreover have "opens_by own (\<lambda>r. r) (sbind (open_here (ns_fresh names)) (\<lambda>descriptor. sreturn (Some descriptor)))"
    by (rule opens_map [OF open_here_opens]) simp
  ultimately show "opens_by own (\<lambda>r. r) (if ns_lookup names directory name \<noteq> None then sreturn None
      else sthen (smodify (on_kernel (\<lambda>k. k\<lparr>kn_names := create_name directory name names\<rparr>)))
        (sbind (open_here (ns_fresh names)) (\<lambda>descriptor. sreturn (Some descriptor))))"
    by auto
qed auto

lemma opens_dup [intro, simp]: "opens_by False Some (sys_dup d)"
  unfolding sys_dup_def
proof (intro opens_after_then opens_byI)
  let ?m = "sbind (sread (\<lambda>w. of_option OSError (description_of (lw_kernel w) (my_pid w) d))) (\<lambda>description w.
      (Inr (lowest_unused (descriptors_of (my_pid w) (lw_kernel w))),
       on_kernel (share_description (my_pid w) description) w))"
  show "moved s (fd_view s) t" if "?m s = (Inl e, t)" "world_ok s" for s e t
    using that by (auto simp: sbind_def sread_def quiet.Q_refl [unfolded quiet_def] split: sum.splits)
  fix s r t d' assume r: "?m s = (Inr r, t)" "Some r = Some d'" "world_ok s"
  then obtain x where x: "description_of (lw_kernel s) (my_pid s) d = Some x"
      and t: "t = on_kernel (share_description (my_pid s) x) s"
      and d': "d' = lowest_unused (descriptors_of (my_pid s) (lw_kernel s))"
    by (auto simp: sbind_def sread_def of_option_eq_Inr split: sum.splits)
  have "moved s ((fd_view s)(d' \<mapsto> (x, kn_files (lw_kernel s) x, kn_locks (lw_kernel s) x))) t"
    using shared_kernel [OF r(3) description_of_used [OF x]]
    by (simp add: moved_def t d' on_kernel_def closes_well_def share_description_def [THEN arg_cong, of kn_close_fault])
  then show "fd_view s d' = None \<and> (\<exists>x. fresh_entry False (fd_view s) x \<and> moved s ((fd_view s)(d' \<mapsto> x)) t)"
    using view_unused [of s] d' by (auto simp: fresh_entry_def simp del: split_paired_Ex)
qed auto

section \<open>The checks of a lease\<close>

lemma opens_fence_directory: "opens_by own (\<lambda>r. r) (open_fence_directory d name)"
  unfolding open_fence_directory_def
proof (rule opens_after)
  fix metadata
  show "opens_by own (\<lambda>r. r) (case metadata of None \<Rightarrow> sreturn None
      | Some path_identity \<Rightarrow>
         sthen (require_exact_fence_entry_name d name)
         (sthen (sguard (fi_type path_identity = S_IFDIR) (integrity QUARANTINE_FENCE_INVALID))
         (sbind (translating QUARANTINE_FENCE_INVALID (sys_open_at d name True)) (\<lambda>next_descriptor.
          sexcept
            (sbind (sys_fstat next_descriptor) (\<lambda>opened.
             sthen (sguard (same_object opened path_identity) (integrity QUARANTINE_FENCE_INVALID))
             (sbind (sys_stat_at d name) (\<lambda>final.
              sbind (slift (of_option OSError final)) (\<lambda>final_path_identity.
              sthen (sguard (same_object final_path_identity path_identity) (integrity QUARANTINE_FENCE_INVALID))
              (sthen (require_exact_fence_entry_name d name)
              (sreturn (Some next_descriptor))))))))
            (\<lambda>e. sthen (sys_close next_descriptor) (sraise e))))))"
  proof (cases metadata)
    case None
    then show ?thesis by (auto simp: opens_by_def sreturn_def quiet.Q_refl [unfolded quiet_def])
  next
    case (Some i)
    show ?thesis unfolding Some option.case
      by (intro opens_after_then opens_checked) (auto simp: result_simps intro!: quiet.keeps_bind quiet.keeps_then)
  qed
qed auto

lemma keeps_inspect_marker [intro, simp]: "quiet.keeps (inspect_marker d)"
proof -
  have "quiet.keeps (sbind (translating QUARANTINE_FENCE_INVALID (sys_open_at d ACTIVE_MARKER_NAME False)) (\<lambda>marker_descriptor.
          sthen
            (sfinally
              (sbind (sys_fstat marker_descriptor) (\<lambda>opened.
               sthen (sguard (opened = i) (integrity QUARANTINE_FENCE_INVALID))
               (sbind (sys_stat_at d ACTIVE_MARKER_NAME) (\<lambda>final.
                sbind (slift (of_option OSError final)) (\<lambda>final_identity.
                sthen (sguard (final_identity = i) (integrity QUARANTINE_FENCE_INVALID))
                (require_exact_fence_entry_name d ACTIVE_MARKER_NAME))))))
              (sys_close marker_descriptor))
            (sreturn True)))" for i
    by (rule keeps_bracket [of True])
      (auto intro!: closes_then closes_finally quiet.keeps_bind quiet.keeps_then)
  note marker = this
  show ?thesis
    unfolding inspect_marker_def
    by (rule quiet.keeps_bind, rule quiet.keeps_translating, simp, rule quiet.keeps_option, simp, rule quiet.keeps_then, simp,
        rule quiet.keeps_then, simp, rule marker)
qed

lemma walk_fence_closes: "closes_fd d (walk_fence components d)"
proof (induction components arbitrary: d)
  case Nil
  show ?case by (simp add: closes_finally)
next
  case (Cons component components)
  let ?step = "sbind (open_fence_directory d component) (\<lambda>next_descriptor.
          if next_descriptor = None then sreturn None
          else sthen (sys_close d) (sreturn next_descriptor))"
  have "moved s ((fd_view s)(d := None)) (snd (walk_fence (component # components) d s))"
    if ok: "world_ok s" "fd_view s d \<noteq> None" for s
  proof -
    obtain r t where m: "open_fence_directory d component s = (r, t)" by (cases "open_fence_directory d component s")
    obtain r' u where c: "sys_close d t = (r', u)" by (cases "sys_close d t")
    consider e where "r = Inl e" | "r = Inr None" | n where "r = Inr (Some n)" by (metis old.sum.exhaust option.exhaust)
    then show ?thesis
    proof cases
      case 1
      note q = opens_by_Inl [OF opens_fence_directory m [unfolded 1] ok(1)]
      from moved_close [OF q closesD [OF closes_fd_close c moved_ok [OF q] view_kept [OF q ok(2)]]] m 1 c
      show ?thesis by (auto simp: sbind_def sexcept_def sthen_def sraise_def split: sum.splits)
    next
      case 2
      note q = opens_by_None [OF opens_fence_directory m [unfolded 2] refl ok(1)]
      from moved_close [OF q closesD [OF closes_fd_close c moved_ok [OF q] view_kept [OF q ok(2)]]] m 2 c
      show ?thesis by (auto simp: sbind_def sexcept_def sthen_def sreturn_def split: sum.splits)
    next
      case (3 n)
      from opens_by_Some [OF opens_fence_directory m [unfolded 3] refl ok(1), of True] obtain x
        where x: "fd_view s n = None" "moved s ((fd_view s)(n \<mapsto> x)) t" by blast
      have nd: "n \<noteq> d" using x(1) ok(2) by auto
      with ok(2) have "((fd_view s)(n \<mapsto> x)) d \<noteq> None" by simp
      from moved_close [OF x(2) closesD [OF closes_fd_close c moved_ok [OF x(2)] view_kept [OF x(2) this]]]
      have q: "moved s ((fd_view s)(n \<mapsto> x, d := None)) u" .
      show ?thesis
      proof (cases r')
        case (Inr y)
        obtain r'' v where w: "walk_fence components n u = (r'', v)" by (cases "walk_fence components n u")
        from view_kept [OF q, of n] nd have "fd_view u n \<noteq> None" by simp
        from moved_close [OF q closesD [OF Cons.IH w moved_ok [OF q] this]]
        have "moved s ((fd_view s)(n \<mapsto> x, d := None, n := None)) v" .
        moreover have "(fd_view s)(n \<mapsto> x, d := None, n := None) = (fd_view s)(d := None)"
          using nd x(1) by (simp add: fun_eq_iff)
        ultimately show ?thesis
          using m 3 c Inr w by (simp add: sbind_def sexcept_def sthen_def sreturn_def)
      next
        case (Inl e)
        obtain r'' v where w: "sys_close d u = (r'', v)" by (cases "sys_close d u")
        have "fd_view t d \<noteq> None" using view_kept [OF x(2), of d] nd ok(2) by simp
        with c Inl have bad: "\<not> closes_well t"
          by (auto simp: sys_close_def require_def object_of_def view_of_def closes_well_def split: if_splits)
        from x(2) bad have bad: "\<not> closes_well s" by (simp add: moved_def)
        from closed_view [OF moved_ok [OF q], of d] w have "moved u ((fd_view u)(d := None)) v" by simp
        from moved_close [OF q this] have "moved s ((fd_view s)(n \<mapsto> x, d := None)) v" by simp
        moreover have "(fd_view s)(d := None) \<subseteq>\<^sub>m (fd_view s)(n \<mapsto> x, d := None)"
          using x(1) nd by (auto simp: map_le_def)
        ultimately have "moved s ((fd_view s)(d := None)) v"
          using bad by (auto simp: moved_def intro: map_le_trans)
        then show ?thesis
          using m 3 c Inl w by (auto simp: sbind_def sexcept_def sthen_def sraise_def split: sum.splits)
      qed
    qed
  qed
  then show ?case unfolding closes_fd_def by blast
qed

lemma keeps_marker_present [intro, simp]: "quiet.keeps (quarantine_marker_present address)"
  unfolding quarantine_marker_present_def
  by (rule quiet.keeps_bind) (auto intro!: keeps_bracket walk_fence_closes)

section \<open>Opening the state directory and the lock\<close>

lemma bind_assoc: "sbind (sbind m f) g = sbind m (\<lambda>x. sbind (f x) g)"
  by (auto simp: fun_eq_iff sbind_def split: prod.splits sum.splits)

lemma opens_state_directory: "opens_by own (\<lambda>r. Some (fst (snd r))) (open_state_directory p)"
  unfolding open_state_directory_def Let_def
  by (intro opens_after_then opens_after opens_checked)
    (auto simp: result_simps intro!: quiet.keeps_bind quiet.keeps_then)

lemma opens_checked_lock:
  assumes "opens_by own Some m"
  shows "opens_by own (\<lambda>r. Some (fst r)) (sbind m (\<lambda>d. check_opened_lock sd observed d))"
  unfolding check_opened_lock_def
  by (intro opens_checked [OF assms]) (auto simp: result_simps intro!: quiet.keeps_bind quiet.keeps_then)

lemma opens_some_lock:
  assumes "opens_by own Some m"
  shows "opens_by own (map_option fst) (sbind m (\<lambda>d. sbind (check_opened_lock sd observed d) (\<lambda>r. sreturn (Some r))))"
proof -
  have "opens_by own (map_option fst) (sbind (sbind m (\<lambda>d. check_opened_lock sd observed d)) (\<lambda>r. sreturn (Some r)))"
    by (rule opens_map [OF opens_checked_lock [OF assms]]) simp
  then show ?thesis by (simp add: bind_assoc)
qed

lemma opens_return_None: "f r = None \<Longrightarrow> opens_by own f (sreturn r)"
  by (auto simp: opens_by_def sreturn_def quiet.Q_refl [unfolded quiet_def])

lemma opens_created:
  assumes m: "opens_by own (\<lambda>r. r) m" and none: "opens_by own f n"
    and some: "\<And>m'. opens_by own Some m' \<Longrightarrow> opens_by own f (sbind m' g)"
  shows "opens_by own f (sbind m (\<lambda>r. case r of None \<Rightarrow> n | Some d \<Rightarrow> g d))"
proof -
  let ?m' = "\<lambda>s. case m s of (Inr (Some d), t) \<Rightarrow> (Inr d, t) | (Inr None, t) \<Rightarrow> (Inl OSError, t) | (Inl e, t) \<Rightarrow> (Inl e, t)"
  let ?m'' = "\<lambda>s. case m s of (Inr None, t) \<Rightarrow> (Inr (), t) | (Inr (Some d), t) \<Rightarrow> (Inl OSError, s) | (Inl e, t) \<Rightarrow> (Inl e, t)"
  have "opens_by own Some ?m'"
    unfolding opens_by_def
  proof (intro allI impI)
    fix w assume ok: "world_ok w"
    note h = m [unfolded opens_by_def, rule_format, OF ok]
    obtain r t where w: "m w = (r, t)" by (cases "m w")
    consider e where "r = Inl e" | "r = Inr None" | d where "r = Inr (Some d)" by (metis old.sum.exhaust option.exhaust)
    then show "case ?m' w of (Inl e, t) \<Rightarrow> moved w (fd_view w) t
      | (Inr r, t) \<Rightarrow> (case Some r of None \<Rightarrow> moved w (fd_view w) t
          | Some d \<Rightarrow> fd_view w d = None \<and> (\<exists>x. fresh_entry own (fd_view w) x \<and> moved w ((fd_view w)(d \<mapsto> x)) t))"
      using h w by cases simp_all
  qed
  note s = some [OF this]
  have "quiet.keeps ?m''"
  proof (rule quiet.keepsI)
    fix w
    obtain r t where w: "m w = (r, t)" by (cases "m w")
    consider e where "r = Inl e" | "r = Inr None" | d where "r = Inr (Some d)" by (metis old.sum.exhaust option.exhaust)
    then show "quiet w (snd (?m'' w))"
      using opens_by_Inl [OF m, of w] opens_by_None [OF m, of w] quiet.Q_refl [of w] w
      by cases (simp_all add: quiet_def)
  qed
  then have n: "opens_by own f (sbind ?m'' (\<lambda>_. n))" by (rule opens_after) (rule none)
  show ?thesis
    unfolding opens_by_def
  proof (intro allI impI)
    fix w assume ok: "world_ok w"
    show "case sbind m (\<lambda>r. case r of None \<Rightarrow> n | Some d \<Rightarrow> g d) w of (Inl e, t) \<Rightarrow> moved w (fd_view w) t
      | (Inr r, t) \<Rightarrow> (case f r of None \<Rightarrow> moved w (fd_view w) t
          | Some d \<Rightarrow> fd_view w d = None \<and> (\<exists>x. fresh_entry own (fd_view w) x \<and> moved w ((fd_view w)(d \<mapsto> x)) t))"
    proof (cases "m w")
      case (Pair r t)
      consider e where "r = Inl e" | "r = Inr None" | d where "r = Inr (Some d)" by (metis old.sum.exhaust option.exhaust)
      then show ?thesis
        using s [unfolded opens_by_def, rule_format, OF ok] n [unfolded opens_by_def, rule_format, OF ok] Pair
        by cases (simp_all add: sbind_def)
    qed
  qed
qed

lemma opens_lock: "opens_by own (map_option fst) (open_or_create_lock rounds sd)"
proof (induction rounds)
  case (Suc rounds)
  have "opens_by own (map_option fst) (case metadata of
       None \<Rightarrow>
         sbind (translating LOCK_OPERATION_FAILED (sys_create_at sd MAINTENANCE_LOCK_FILENAME)) (\<lambda>created.
         case created of
           None \<Rightarrow> open_or_create_lock rounds sd
         | Some descriptor \<Rightarrow> sbind (check_opened_lock sd None descriptor) (\<lambda>r. sreturn (Some r)))
     | Some identity \<Rightarrow>
         sthen (sguard (is_regular_single_link identity) (integrity LOCK_INVALID))
         (sbind (translating LOCK_INVALID (sys_open_at sd MAINTENANCE_LOCK_FILENAME False)) (\<lambda>descriptor.
          sbind (check_opened_lock sd (Some identity) descriptor) (\<lambda>r. sreturn (Some r)))))" for metadata
  proof (cases metadata)
    case None
    show ?thesis unfolding None option.case
      by (intro opens_created opens_translating opens_create Suc opens_some_lock)
  next
    case (Some i)
    show ?thesis unfolding Some option.case
      by (intro opens_after_then quiet.keeps_pure opens_some_lock opens_translating opens_calls)
  qed
  then show ?case
    by (simp only: open_or_create_lock.simps) (intro opens_after quiet.keeps_translating keeps_calls)
qed (simp add: opens_return_None)

text \<open>The identity of the lock is that of the file behind its descriptor.\<close>

definition names_object :: "fd_map \<Rightarrow> nat \<Rightarrow> inode_identity \<Rightarrow> bool" where
  "names_object v d i = (\<exists>x l. v d = Some (x, (fi_device i, fi_inode i), l))"

lemma fstat_object:
  assumes "sys_fstat d s = (Inr i, t)" and "world_ok s"
  shows "names_object (fd_view t) d i"
  using assms by (auto simp: sys_fstat_def names_object_def result_simps identity_of_def object_of_def view_of_def)

lemma checked_lock_object:
  assumes "check_opened_lock sd observed d s = (Inr r, t)" and ok: "world_ok s"
  shows "names_object (fd_view t) (fst r) (snd r)"
proof -
  from assms(1) obtain i u where u: "sys_fstat d s = (Inr i, u)" "r = (d, i)"
      and rest: "(sthen (sguard (is_regular_single_link i) (integrity LOCK_INVALID))
        (sthen (sguard (case observed of None \<Rightarrow> True | Some j \<Rightarrow> i = j) (integrity LOCK_CHANGED))
        (sthen (require_lock_path_identity sd i)
        (sthen system_call
        (sthen system_call
        (sbind (sys_fstat d) (\<lambda>final_identity.
         sthen (sguard (final_identity = i) (integrity LOCK_CHANGED))
        (sthen (require_lock_path_identity sd i)
        (sreturn (d, i)))))))))) u = (Inr r, t)"
    by (auto simp: check_opened_lock_def sexcept_def sthen_def sraise_def sbind_def sreturn_def split: prod.splits sum.splits)
  have q: "moved s (fd_view s) u" using quietD [OF keeps_calls(2) u(1) ok] .
  have "quiet.keeps (sthen (sguard (is_regular_single_link i) (integrity LOCK_INVALID))
        (sthen (sguard (case observed of None \<Rightarrow> True | Some j \<Rightarrow> i = j) (integrity LOCK_CHANGED))
        (sthen (require_lock_path_identity sd i)
        (sthen system_call
        (sthen system_call
        (sbind (sys_fstat d) (\<lambda>final_identity.
         sthen (sguard (final_identity = i) (integrity LOCK_CHANGED))
        (sthen (require_lock_path_identity sd i)
        (sreturn (d, i))))))))))"
    by (auto intro!: quiet.keeps_bind quiet.keeps_then)
  note quietD [OF this rest moved_ok [OF q]]
  from moved_le [OF this] fstat_object [OF u(1) ok] u(2) show ?thesis
    by (auto simp: names_object_def dest: le_Some)
qed

lemma opened_lock_object:
  assumes "open_or_create_lock rounds sd s = (Inr (Some r), t)" and ok: "world_ok s"
  shows "names_object (fd_view t) (fst r) (snd r)"
  using assms
proof (induction rounds arbitrary: s)
  case (Suc rounds)
  have create: "opens_by True (\<lambda>r. r) (translating LOCK_OPERATION_FAILED (sys_create_at sd MAINTENANCE_LOCK_FILENAME))"
    by (intro opens_translating opens_create)
  have open_existing: "opens_by True Some (translating LOCK_INVALID (sys_open_at sd MAINTENANCE_LOCK_FILENAME False))"
    by (intro opens_translating opens_calls)
  from Suc.prems(1) obtain metadata u where m: "translating LOCK_INVALID (sys_stat_at sd MAINTENANCE_LOCK_FILENAME) s = (Inr metadata, u)"
    by (auto simp: result_simps)
  note u = moved_ok [OF quietD [OF quiet.keeps_translating [OF keeps_calls(4)] m Suc.prems(2)]]
  show ?case
  proof (cases metadata)
    case None
    with Suc.prems(1) m obtain c v where c: "translating LOCK_OPERATION_FAILED (sys_create_at sd MAINTENANCE_LOCK_FILENAME) u = (Inr c, v)"
        "(case c of None \<Rightarrow> open_or_create_lock rounds sd
         | Some descriptor \<Rightarrow> sbind (check_opened_lock sd None descriptor) (\<lambda>r. sreturn (Some r))) v = (Inr (Some r), t)"
      by (auto simp: result_simps)
    show ?thesis
    proof (cases c)
      case None
      from opens_by_None [OF create c(1) None u] have "world_ok v" by (rule moved_ok)
      with Suc.IH c(2) None show ?thesis by simp
    next
      case (Some d)
      from opens_by_Some [OF create c(1) Some u] have "world_ok v" by (blast dest: moved_ok)
      with c(2) Some checked_lock_object show ?thesis by (auto simp: result_simps)
    qed
  next
    case (Some i)
    with Suc.prems(1) m obtain d v where d: "translating LOCK_INVALID (sys_open_at sd MAINTENANCE_LOCK_FILENAME False) u = (Inr d, v)"
        "check_opened_lock sd (Some i) d v = (Inr r, t)"
      by (auto simp: result_simps)
    from opens_by_Some [OF open_existing d(1) refl u] have "world_ok v" by (blast dest: moved_ok)
    with d(2) checked_lock_object show ?thesis by blast
  qed
qed (simp add: result_simps)

end
