(* ===== verification/Lease_Calls.thy ===== *)
theory Lease_Calls
  imports Lease_Views
begin

text \<open>
  What the acquisition of a maintenance lease does to the descriptors and to the registry of its process, on
  every way out: \<open>acquire_moved\<close> is the summary.
\<close>

section \<open>Locking, unlocking and giving up\<close>

lemma with_lock_mono: "u \<subseteq>\<^sub>m v \<Longrightarrow> with_lock x l u \<subseteq>\<^sub>m with_lock x l v"
  by (auto simp: map_le_def with_lock_def dom_def split: option.splits)

lemma moved_lock: "moved s v t \<Longrightarrow> moved t (with_lock x l (fd_view t)) u \<Longrightarrow> moved s (with_lock x l v) u"
  by (rule moved_trans [of s v t "with_lock x l"]) (auto intro: with_lock_mono)

lemma set_lock_moved:
  assumes "kernel_ok (set_lock x l (lw_kernel s))" 
  shows "moved s (with_lock x l (fd_view s)) (on_kernel (set_lock x l) s)"
  using assms by (simp add: moved_def on_kernel_def set_lock_view closes_well_def set_lock_def [THEN arg_cong, of kn_close_fault])

lemma view_description: "fd_view s d = Some (x, y) \<Longrightarrow> description_of (lw_kernel s) (my_pid s) d = Some x"
  by (auto simp: view_of_def)

lemma unlock_moved:
  assumes "sys_unlock d s = (r, t)" and ok: "world_ok s" and d: "fd_view s d = Some (x, y)"
  shows "moved s (fd_view s) t \<or> moved s (with_lock x None (fd_view s)) t"
proof -
  obtain r' u where u: "system_call s = (r', u)" by (cases "system_call s")
  note q = quietD [OF keeps_system_call u ok]
  from view_description [OF le_Some [OF moved_le [OF q] d]]
  have x: "description_of (lw_kernel u) (my_pid u) d = Some x" .
  show ?thesis
  proof (cases r')
    case (Inr z)
    with assms(1) u x have "t = on_kernel (set_lock x None) u"
      by (simp add: sys_unlock_def sthen_def sbind_def sread_def smodify_def)
    with moved_lock [OF q set_lock_moved] unlocked_kernel [OF moved_ok [OF q]] show ?thesis by blast
  next
    case (Inl e)
    with assms(1) u q show ?thesis by (auto simp: sys_unlock_def sthen_def sbind_def)
  qed
qed

lemma lock_moved:
  assumes "sys_flock d mode s = (r, t)" and ok: "world_ok s" and d: "fd_view s d = Some (x, object, None)"
  shows "(if r = Inr True then moved s (with_lock x (Some mode) (fd_view s)) t
     else moved s (fd_view s) t \<or> moved s (with_lock x None (fd_view s)) t)"
proof -
  obtain r' u where u: "system_call s = (r', u)" by (cases "system_call s")
  note q = quietD [OF keeps_system_call u ok]
  from view_description [OF le_Some [OF moved_le [OF q] d]]
  have x: "description_of (lw_kernel u) (my_pid u) d = Some x" .
  show ?thesis
  proof (cases r')
    case (Inr z)
    with assms(1) u x have "t = on_kernel (flock_description x mode) u" "r = Inr (\<not> lock_conflicts x mode (lw_kernel u))"
      by (simp_all add: sys_flock_def sthen_def sbind_def sread_def smodify_def sget_def sreturn_def)
    moreover have "kernel_ok (flock_description x mode (lw_kernel u))"
      by (rule flocked_kernel [OF moved_ok [OF q] description_of_used [OF x]])
    ultimately show ?thesis
      using moved_lock [OF q set_lock_moved]
      by (auto simp: flock_description_def on_kernel_def)
  next
    case (Inl e)
    with assms(1) u q show ?thesis by (auto simp: sys_flock_def sthen_def sbind_def)
  qed
qed

lemma close_descriptors_moved:
  assumes "world_ok s"
  shows "\<exists>b t. close_descriptors ds s = (Inr b, t) \<and> moved s (fd_view s |` (- set ds)) t"
  using assms
proof (induction ds arbitrary: s)
  case Nil
  with quiet.Q_refl [unfolded quiet_def] show ?case by (auto simp: sreturn_def)
next
  case (Cons d ds)
  note q = closed_view [OF Cons.prems, of d]
  from Cons.IH [OF moved_ok [OF q]] obtain b t where
    t: "close_descriptors ds (snd (sys_close d s)) = (Inr b, t)"
      "moved (snd (sys_close d s)) (fd_view (snd (sys_close d s)) |` (- set ds)) t" by blast
  have "moved s (((fd_view s)(d := None)) |` (- set ds)) t"
    by (rule moved_trans [OF q, of "\<lambda>v. v |` (- set ds)"]) (use t(2) in \<open>auto simp: map_le_def restrict_map_def\<close>)
  moreover have "((fd_view s)(d := None)) |` (- set ds) = fd_view s |` (- set (d # ds))"
    by (auto simp: fun_eq_iff restrict_map_def)
  ultimately show ?case
    using t(1) by (auto simp: sbind_def sthen_def sexcept_def sreturn_def split: prod.splits sum.splits)
qed

lemma with_lock_other: "x \<notin> fst ` ran v \<Longrightarrow> with_lock x l v = v"
  by (force simp: fun_eq_iff with_lock_def ran_def split: option.splits)

lemma with_lock_upd: "with_lock x l (v(d \<mapsto> (x, object, l'))) = (with_lock x l v)(d \<mapsto> (x, object, l))"
  by (auto simp: fun_eq_iff with_lock_def)

lemma moved_restrict:
  "moved s v t \<Longrightarrow> moved t (fd_view t |` A) u \<Longrightarrow> moved s (v |` A) u"
  by (rule moved_trans [of s v t "\<lambda>v. v |` A"]) (auto simp: map_le_def restrict_map_def)

text \<open>Giving up an acquisition closes exactly what it had opened.\<close>

lemma abandon_moved:
  assumes m: "moved s (v(sd \<mapsto> y, ld \<mapsto> (x, object, l))) t" and v: "v sd = None" "v ld = None" "sd \<noteq> ld"
    and x: "x \<notin> fst ` ran (v(sd \<mapsto> y))" and r: "abandon (Some ld) locked sd e t = (r, u)"
  shows "(\<exists>e'. r = Inl e') \<and> moved s v u"
proof -
  let ?unlock = "if locked then suppressing (sys_unlock ld) else sreturn ()"
  let ?v = "\<lambda>l. v(sd \<mapsto> y, ld \<mapsto> (x, object, l))"
  have lock: "with_lock x l' (?v l) = ?v l'" for l'
    using with_lock_other [OF x, of l'] by (simp add: with_lock_upd)
  obtain r1 t1 where t1: "?unlock t = (r1, t1)" by (cases "?unlock t")
  have "r1 = Inr () \<and> (\<exists>l. moved s (?v l) t1)"
  proof (cases locked)
    case True
    obtain r2 t2 where t2: "sys_unlock ld t = (r2, t2)" by (cases "sys_unlock ld t")
    have e: "r2 = Inl e \<Longrightarrow> e = OSError" for e
      using t2 by (auto simp: sys_unlock_def system_call_def sthen_def sbind_def sread_def smodify_def require_def
          of_option_def split: prod.splits sum.splits if_splits option.splits)
    have "fd_view t ld = Some (x, object, l)" using le_Some [OF moved_le [OF m], of ld] by simp
    from unlock_moved [OF t2 moved_ok [OF m] this]
    have "moved s (?v l) t2 \<or> moved s (?v None) t2"
      using moved_quiet [OF m] moved_lock [OF m, of x None t2] lock [of None] by metis
    moreover have "r1 = Inr () \<and> t1 = t2"
      using t1 t2 True e by (cases r2) (auto simp: suppressing_def scatch_def sreturn_def)
    ultimately show ?thesis by blast
  next
    case False
    with t1 m show ?thesis by (auto simp: sreturn_def)
  qed
  then obtain l' where l': "r1 = Inr ()" "moved s (?v l') t1" by blast
  from close_descriptors_moved [OF moved_ok [OF l'(2)], of "[ld, sd]"] obtain b t2 where
    t2: "close_descriptors [ld, sd] t1 = (Inr b, t2)" "moved t1 (fd_view t1 |` (- {ld, sd})) t2" by auto
  have "moved s (?v l' |` (- {ld, sd})) t2" by (rule moved_restrict [OF l'(2) t2(2)])
  moreover have "?v l' |` (- {ld, sd}) = v"
    using v by (auto simp: fun_eq_iff restrict_map_def)
  moreover have "u = t2 \<and> (\<exists>e'. r = Inl e')"
    using r t1 l'(1) t2(1) by (auto simp: abandon_def sthen_def sbind_def sraise_def)
  ultimately show ?thesis by simp
qed

lemma abandon_early_moved:
  assumes m: "moved s (v(sd \<mapsto> y)) t" and v: "v sd = None" and r: "abandon None locked sd e t = (r, u)"
  shows "(\<exists>e'. r = Inl e') \<and> moved s v u"
proof -
  from close_descriptors_moved [OF moved_ok [OF m], of "[sd]"] obtain b t2 where
    t2: "close_descriptors [sd] t = (Inr b, t2)" "moved t (fd_view t |` (- {sd})) t2" by auto
  have "moved s ((v(sd \<mapsto> y)) |` (- {sd})) t2" by (rule moved_restrict [OF m t2(2)])
  moreover have "(v(sd \<mapsto> y)) |` (- {sd}) = v"
    using v by (auto simp: fun_eq_iff restrict_map_def)
  moreover have "u = t2 \<and> (\<exists>e'. r = Inl e')"
    using r t2(1) by (auto simp: abandon_def sthen_def sbind_def sraise_def sreturn_def)
  ultimately show ?thesis by simp
qed

text \<open>A registered lease: its lease objects and its entry, on top of a quiet step.\<close>

definition fresh_lease :: "nat \<Rightarrow> maintenance_lease" where
  "fresh_lease address = \<lparr>ml_held = address, ml_released = False, ml_entered = False, ml_descriptor_borrows = 0\<rparr>"

definition with_new_lease :: "nat \<Rightarrow> lease_process \<Rightarrow> lease_process" where
  "with_new_lease address p =
     p\<lparr>lp_leases := (lp_leases p)(lp_next p \<mapsto> fresh_lease address), lp_next := Suc (lp_next p)\<rparr>"

lemma calm_new_held: "calm p (p\<lparr>lp_held := (lp_held p)(lp_next p \<mapsto> h), lp_next := Suc (lp_next p)\<rparr>)"
  by (simp add: calm_def)

lemma moved_new_held:
  assumes "moved s v t"
  shows "moved s v (on_process (\<lambda>p. p\<lparr>lp_held := (lp_held p)(lp_next p \<mapsto> h), lp_next := Suc (lp_next p)\<rparr>) t)"
  using assms calm_trans [OF _ calm_new_held] by (simp add: moved_def on_process_def closes_well_def)

lemma keeps_unfenced [intro, simp]: "quiet.keeps (verify_unfenced address mode e)"
  unfolding verify_unfenced_def by (auto intro!: quiet.keeps_then quiet.keeps_bind)

definition registered :: "absolute_path \<Rightarrow> nat \<Rightarrow> lease_process \<Rightarrow> lease_process" where
  "registered state address p =
     (with_new_lease address p)\<lparr>lp_registry := lp_registry p @ [(state, address)]\<rparr>"

lemma register_lease_moved:
  assumes m: "moved s v t" and r: "register_lease state new t = (r, u)"
  shows "case r of Inl e \<Rightarrow> moved s v u
    | Inr l \<Rightarrow> (\<exists>t'. moved s v t' \<and> lp_held (lw_process t') (lp_next (lw_process t)) = Some new
        \<and> lp_next (lw_process t) < lp_next (lw_process t')
        \<and> l = lp_next (lw_process t') \<and> u = on_process (registered state (lp_next (lw_process t))) t')"
proof -
  let ?a = "lp_next (lw_process t)"
  let ?t = "on_process (\<lambda>p. p\<lparr>lp_held := (lp_held p)(lp_next p \<mapsto> new), lp_next := Suc (lp_next p)\<rparr>) t"
  have a: "new_held new t = (Inr ?a, ?t)" by (simp add: new_held_def Let_def on_process_def)
  note m1 = moved_new_held [OF m, of new]
  obtain r' t2 where c: "verify_unfenced ?a (hl_mode new) (MaintenanceBusyError QUARANTINE_ACTIVE) ?t = (r', t2)"
    by (cases "verify_unfenced ?a (hl_mode new) (MaintenanceBusyError QUARANTINE_ACTIVE) ?t")
  note q = quietD [OF keeps_unfenced c moved_ok [OF m1]]
  note m2 = moved_quiet [OF m1 q]
  from q have held: "lp_held (lw_process t2) ?a = Some new" "?a < lp_next (lw_process t2)"
    by (auto simp: moved_def calm_def on_process_def)
  show ?thesis
  proof (cases r')
    case (Inl e)
    with r a c m2 show ?thesis by (auto simp: register_lease_def sbind_def sthen_def)
  next
    case (Inr x)
    with r a c have "r = Inr (lp_next (lw_process t2)) \<and> u = on_process (registered state ?a) t2"
      by (auto simp: register_lease_def sbind_def sthen_def new_lease_def Let_def smodify_def activate_def update_lease_def
          sreturn_def on_process_def registered_def with_new_lease_def fresh_lease_def)
    with m2 held show ?thesis by auto
  qed
qed

section \<open>What an acquisition does\<close>

definition new_entry :: "int \<Rightarrow> absolute_path \<Rightarrow> nat \<Rightarrow> inode_identity \<Rightarrow> nat \<Rightarrow> inode_identity \<Rightarrow> lease_mode \<Rightarrow> held_lease" where
  "new_entry me state sd si ld li mode =
     \<lparr>hl_owner_pid = me, hl_state_directory = state, hl_state_descriptor = sd, hl_state_identity = si,
      hl_lock_descriptor = ld, hl_lock_identity = li, hl_mode = mode, hl_references = 1\<rparr>"

text \<open>A new lease in \<open>u\<close>, granted in state \<open>s\<close> where the descriptors looked like \<open>v\<close>.\<close>

definition granted_from ::
    "lease_world \<Rightarrow> lease_mode \<Rightarrow> absolute_path \<Rightarrow> nat \<Rightarrow> inode_identity \<Rightarrow> nat \<Rightarrow> lease_world \<Rightarrow> bool" where
  "granted_from s mode state sd si lease u =
     (\<exists>t ld y x i a. ld \<noteq> sd \<and> fd_view s sd = None \<and> fd_view s ld = None \<and> x \<notin> fst ` ran ((fd_view s)(sd \<mapsto> y))
        \<and> moved s ((fd_view s)(sd \<mapsto> y, ld \<mapsto> (x, (fi_device i, fi_inode i), Some mode))) t
        \<and> lp_held (lw_process t) a = Some (new_entry (my_pid s) state sd si ld i mode)
        \<and> lp_next (lw_process s) \<le> a \<and> a < lp_next (lw_process t)
        \<and> lease = lp_next (lw_process t) \<and> u = on_process (registered state a) t)"

lemma lock_or_busy_moved:
  assumes m: "moved s v t" and d: "v ld = Some (x, object, None)" and r: "lock_or_busy ld mode t = (r, u)"
  shows "case r of Inl e \<Rightarrow> moved s v u \<or> moved s (with_lock x None v) u | Inr _ \<Rightarrow> moved s (with_lock x (Some mode) v) u"
proof -
  obtain r1 t1 where f: "sys_flock ld mode t = (r1, t1)" by (cases "sys_flock ld mode t")
  note l = lock_moved [OF f moved_ok [OF m] le_Some [OF moved_le [OF m] d]]
  show ?thesis
  proof (cases r1)
    case (Inl e)
    with r f l moved_quiet [OF m] moved_lock [OF m] show ?thesis
      by (auto simp: lock_or_busy_def sbind_def translating_def)
  next
    case (Inr b)
    with r f l moved_quiet [OF m] moved_lock [OF m] show ?thesis
      by (cases b) (auto simp: lock_or_busy_def sbind_def translating_def sguard_def slift_def)
  qed
qed

lemma fresh_acquire_moved:
  assumes m: "moved s ((fd_view s)(sd \<mapsto> y)) t" and sd: "fd_view s sd = None"
    and r: "fresh_acquire rounds mode state sd si t = (r, u)"
  shows "case r of Inl e \<Rightarrow> moved s (fd_view s) u
    | Inr None \<Rightarrow> moved s ((fd_view s)(sd \<mapsto> y)) u
    | Inr (Some lease) \<Rightarrow> granted_from s mode state sd si lease u"
proof -
  let ?v = "(fd_view s)(sd \<mapsto> y)"
  obtain r1 t1 where o: "open_or_create_lock rounds sd t = (r1, t1)" by (cases "open_or_create_lock rounds sd t")
  consider e where "r1 = Inl e" | "r1 = Inr None" | ld i where "r1 = Inr (Some (ld, i))"
    by (metis old.sum.exhaust option.exhaust surj_pair)
  then show ?thesis
  proof cases
    case (1 e)
    note q = moved_quiet [OF m opens_by_Inl [OF opens_lock o [unfolded 1] moved_ok [OF m]]]
    obtain r2 t2 where a: "(abandon None False sd e :: (nat \<times> inode_identity) option lease_op) t1 = (r2, t2)"
      by (cases "(abandon None False sd e :: (nat \<times> inode_identity) option lease_op) t1")
    from abandon_early_moved [OF q sd a] r o 1 a show ?thesis
      by (auto simp: fresh_acquire_def sbind_def sexcept_def)
  next
    case 2
    note q = moved_quiet [OF m opens_by_None [OF opens_lock o [unfolded 2] _ moved_ok [OF m], simplified]]
    with r o 2 show ?thesis by (auto simp: fresh_acquire_def sbind_def sexcept_def sreturn_def)
  next
    case (3 ld i)
    have "map_option fst (Some (ld, i)) = Some ld" by simp
    from opens_by_Some [OF opens_lock o [unfolded 3] this moved_ok [OF m], of True] obtain x0 where
      "fd_view t ld = None" "fresh_entry True (fd_view t) x0" "moved t ((fd_view t)(ld \<mapsto> x0)) t1" .
    from moved_open [OF m this] obtain x object where
      fresh: "?v ld = None" "x \<notin> fst ` ran ?v" "moved s (?v(ld \<mapsto> (x, object, None))) t1"
      by (cases x0) (auto simp: fresh_entry_def)
    from opened_lock_object [OF o [unfolded 3] moved_ok [OF m]] le_Some [OF moved_le [OF fresh(3)], of ld]
    have object: "object = (fi_device i, fi_inode i)" by (auto simp: names_object_def)
    from fresh(1) have ld: "ld \<noteq> sd" "fd_view s ld = None" by (auto split: if_splits)
    have lock: "with_lock x l' (?v(ld \<mapsto> (x, object, l))) = ?v(ld \<mapsto> (x, object, l'))" for l l'
      using with_lock_other [OF fresh(2)] by (simp add: with_lock_upd)
    obtain r2 t2 where k: "lock_or_busy ld mode t1 = (r2, t2)" by (cases "lock_or_busy ld mode t1")
    from lock_or_busy_moved [OF fresh(3) _ k, of x object]
    have l: "case r2 of Inl e \<Rightarrow> moved s (?v(ld \<mapsto> (x, object, None))) t2 | Inr _ \<Rightarrow> moved s (?v(ld \<mapsto> (x, object, Some mode))) t2"
      by (cases r2) (simp_all add: lock)
    show ?thesis
    proof (cases r2)
      case (Inl e)
      obtain r3 t3 where a: "(abandon (Some ld) False sd e :: unit lease_op) t2 = (r3, t3)"
        by (cases "(abandon (Some ld) False sd e :: unit lease_op) t2")
      from l Inl have "moved s (?v(ld \<mapsto> (x, object, None))) t2" by simp
      from abandon_moved [OF this sd ld(2) ld(1) [symmetric] fresh(2) a] r o 3 k Inl a show ?thesis
        by (auto simp: fresh_acquire_def sbind_def sthen_def sexcept_def)
    next
      case (Inr z)
      with l have m2: "moved s (?v(ld \<mapsto> (x, object, Some mode))) t2" by simp
      let ?new = "new_entry (my_pid s) state sd si ld i mode"
      obtain r3 t3 where g: "register_lease state ?new t2 = (r3, t3)" by (cases "register_lease state ?new t2")
      have pid: "my_pid t2 = my_pid s" using m2 by (simp add: moved_def calm_def)
      note w = register_lease_moved [OF m2 g]
      show ?thesis
      proof (cases r3)
        case (Inl e)
        obtain r4 t4 where a: "(abandon (Some ld) True sd e :: nat lease_op) t3 = (r4, t4)"
          by (cases "(abandon (Some ld) True sd e :: nat lease_op) t3")
        from w Inl have "moved s (?v(ld \<mapsto> (x, object, Some mode))) t3" by simp
        from abandon_moved [OF this sd ld(2) ld(1) [symmetric] fresh(2) a] r o 3 k Inr g Inl a pid show ?thesis
          by (auto simp: fresh_acquire_def sbind_def sthen_def sexcept_def sget_def new_entry_def)
      next
        case (Inr lease)
        with w obtain t' where t': "moved s (?v(ld \<mapsto> (x, object, Some mode))) t'"
            "lp_held (lw_process t') (lp_next (lw_process t2)) = Some ?new"
            "lp_next (lw_process t2) < lp_next (lw_process t')" "lease = lp_next (lw_process t')"
            "t3 = on_process (registered state (lp_next (lw_process t2))) t'" by auto
        have "lp_next (lw_process s) \<le> lp_next (lw_process t2)" using m2 by (simp add: moved_def calm_def)
        with t' ld sd fresh(2) object have "granted_from s mode state sd si lease t3"
          unfolding granted_from_def by blast
        with r o 3 k \<open>r2 = Inr z\<close> g Inr pid show ?thesis
          by (auto simp: fresh_acquire_def sbind_def sthen_def sexcept_def sget_def new_entry_def sreturn_def)
      qed
    qed
  qed
qed

definition nested :: "nat \<Rightarrow> lease_process \<Rightarrow> lease_process" where
  "nested address p =
     (with_new_lease address p)\<lparr>lp_held := (lp_held p)(address :=
        map_option (\<lambda>h. h\<lparr>hl_references := hl_references h + 1\<rparr>) (lp_held p address))\<rparr>"

lemma nested_acquire_moved:
  assumes m: "moved s ((fd_view s)(sd \<mapsto> y)) t" and sd: "fd_view s sd = None"
    and r: "nested_acquire mode address sd t = (r, u)"
  shows "case r of Inl e \<Rightarrow> moved s (fd_view s) u
    | Inr lease \<Rightarrow> (\<exists>t' h. moved s (fd_view s) t' \<and> lp_held (lw_process t') address = Some h \<and> hl_mode h = SHARED
        \<and> lease = lp_next (lw_process t') \<and> u = on_process (nested address) t')"
proof -
  let ?m = "sfinally (translating LOCK_OPERATION_FAILED (sthen (verify_held_lease address) (quarantine_marker_present address)))
         (sys_close sd)"
  have c: "closes_fd sd ?m" by (intro closes_finally quiet.keeps_translating quiet.keeps_then) auto
  obtain r1 t1 where t1: "?m t = (r1, t1)" by (cases "?m t")
  have "fd_view t sd \<noteq> None" using view_kept [OF m, of sd] by simp
  from moved_close [OF m closesD [OF c t1 moved_ok [OF m] this]] sd
  have m1: "moved s (fd_view s) t1" by (simp add: fun_upd_idem)
  show ?thesis
  proof (cases r1)
    case (Inl e)
    with r t1 m1 show ?thesis by (auto simp: nested_acquire_def sbind_def)
  next
    case (Inr marker)
    show ?thesis
    proof (cases "lp_held (lw_process t1) address")
      case None
      with r t1 Inr m1 show ?thesis by (auto simp: nested_acquire_def sbind_def held_at_def sread_def)
    next
      case (Some h)
      show ?thesis
      proof (cases "hl_mode h = mode \<and> mode = SHARED \<and> \<not> marker")
        case True
        with r t1 Inr Some have "r = Inr (lp_next (lw_process t1)) \<and> u = on_process (nested address) t1"
          by (auto simp: nested_acquire_def sbind_def sthen_def held_at_def sread_def new_lease_def Let_def activate_def
              update_lease_def update_held_def smodify_def sreturn_def on_process_def nested_def with_new_lease_def fresh_lease_def)
        with True m1 Some show ?thesis by auto
      next
        case False
        with r t1 Inr Some m1 show ?thesis
          by (auto simp: nested_acquire_def sbind_def held_at_def sread_def sraise_def split: if_splits)
      qed
    qed
  qed
qed

lemma reset_same:
  assumes "lp_registry_pid (lw_process s) = my_pid s"
  shows "sthen reset_registry_after_fork m s = m s"
  using assms by (simp add: reset_registry_after_fork_def sthen_def sbind_def sget_def sreturn_def)

lemma acquire_moved:
  assumes ok: "world_ok s" and same: "lp_registry_pid (lw_process s) = my_pid s"
    and r: "acquire rounds mode p s = (r, u)"
  obtains (raised) e where "r = Inl e" "moved s (fd_view s) u"
  | (running) sd y where "r = Inr None" "fd_view s sd = None" "moved s ((fd_view s)(sd \<mapsto> y)) u"
  | (nesting) t address h lease state where "r = Inr (Some lease)" "moved s (fd_view s) t" "(state, address) \<in> set (lp_registry (lw_process s))"
      "lp_held (lw_process t) address = Some h" "hl_mode h = SHARED" "lease = lp_next (lw_process t)" "u = on_process (nested address) t"
  | (granted) lease state sd si where "r = Inr (Some lease)" "map_of (lp_registry (lw_process s)) state = None"
      "granted_from s mode state sd si lease u"
proof -
  let ?rest = "\<lambda>(state, state_descriptor, state_identity). sbind (registered_at state) (\<lambda>existing.
      case existing of
        Some address \<Rightarrow> sbind (nested_acquire mode address state_descriptor) (\<lambda>lease. sreturn (Some lease))
      | None \<Rightarrow> fresh_acquire rounds mode state state_descriptor state_identity)"
  obtain r1 t where o: "open_state_directory p s = (r1, t)" by (cases "open_state_directory p s")
  have r': "sbind (open_state_directory p) ?rest s = (r, u)"
    using r by (simp add: acquire_def reset_same [OF same])
  show thesis
  proof (cases r1)
    case (Inl e)
    from opens_by_Inl [OF opens_state_directory o [unfolded Inl] ok] r' o Inl show ?thesis
      by (intro raised [of e]) (auto simp: sbind_def)
  next
    case (Inr z)
    obtain state sd si where z: "z = (state, sd, si)" by (cases z)
    have "(\<lambda>r. Some (fst (snd r))) (state, sd, si) = Some sd" by simp
    from opens_by_Some [OF opens_state_directory o [unfolded Inr z] this ok, of True] obtain y where
      sd: "fd_view s sd = None" and m: "moved s ((fd_view s)(sd \<mapsto> y)) t" by blast
    have reg: "lp_registry (lw_process t) = lp_registry (lw_process s)" using m by (simp add: moved_def calm_def)
    show ?thesis
    proof (cases "map_of (lp_registry (lw_process s)) state")
      case None
      with r' o Inr z reg have f: "fresh_acquire rounds mode state sd si t = (r, u)"
        by (simp add: sbind_def registered_at_def sget_def)
      note w = fresh_acquire_moved [OF m sd f]
      consider e where "r = Inl e" | "r = Inr None" | l where "r = Inr (Some l)" by (metis old.sum.exhaust option.exhaust)
      then show ?thesis
      proof cases
        case 1 with w show ?thesis by (auto intro: raised)
      next
        case 2 with w sd show ?thesis by (auto intro: running)
      next
        case 3 with w None show ?thesis by (auto intro: granted)
      qed
    next
      case (Some address)
      obtain r2 t2 where n: "nested_acquire mode address sd t = (r2, t2)" by (cases "nested_acquire mode address sd t")
      from r' o Inr z reg Some n have r2: "r = (case r2 of Inl e \<Rightarrow> Inl e | Inr l \<Rightarrow> Inr (Some l)) \<and> u = t2"
        by (auto simp: sbind_def registered_at_def sget_def sreturn_def split: sum.splits)
      from nested_acquire_moved [OF m sd n] r2 map_of_SomeD [OF Some] show ?thesis
        by (cases r2) (auto intro: raised nesting)
    qed
  qed
qed

end
