(* ===== verification/Maintenance_Properties.thy ===== *)
theory Maintenance_Properties
  imports Lease_Calls
begin

text \<open>
  What the maintenance lease guarantees: the invariant of the registry and of the locks it stands for over
  every sequence of calls, that a failed acquisition leaves nothing behind, and that a forked child cannot release
  the lease of its parent.
\<close>

section \<open>The table of leases\<close>

definition active :: "lease_process \<Rightarrow> nat \<Rightarrow> nat set" where
  "active p a = {l. l < lp_next p \<and> (case lp_leases p l of Some L \<Rightarrow> \<not> ml_released L \<and> ml_held L = a | None \<Rightarrow> False)}"

definition entry_fds :: "lease_process \<Rightarrow> nat \<Rightarrow> nat list" where
  "entry_fds p a = (case lp_held p a of Some h \<Rightarrow> [hl_lock_descriptor h, hl_state_descriptor h] | None \<Rightarrow> [])"

definition owned_fds :: "lease_process \<Rightarrow> nat list" where
  "owned_fds p = concat (map (\<lambda>e. entry_fds p (snd e)) (lp_registry p)) @ lp_borrowed p"

abbreviation lock_object :: "held_lease \<Rightarrow> file_object" where
  "lock_object h \<equiv> (fi_device (hl_lock_identity h), fi_inode (hl_lock_identity h))"

text \<open>An entry of the registry stands for a lock of the kernel and for its active leases.\<close>

definition entry_ok :: "lease_process \<Rightarrow> fd_map \<Rightarrow> absolute_path \<Rightarrow> nat \<Rightarrow> bool" where
  "entry_ok p v state a =
     (a < lp_next p \<and> (\<exists>h x. lp_held p a = Some h \<and> hl_owner_pid h = lp_pid p \<and> hl_state_directory h = state
        \<and> v (hl_lock_descriptor h) = Some (x, lock_object h, Some (hl_mode h))
        \<and> hl_references h = int (card (active p a)) \<and> 0 < hl_references h))"

definition lease_ok :: "lease_process \<Rightarrow> bool" where
  "lease_ok p = (\<forall>l L. lp_leases p l = Some L \<longrightarrow> l < lp_next p \<and> ml_held L < lp_next p
     \<and> (\<not> ml_released L \<longrightarrow> ml_held L \<in> snd ` set (lp_registry p)))"

definition locks_apart :: "lease_process \<Rightarrow> fd_map \<Rightarrow> bool" where
  "locks_apart p v = (\<forall>a b h h' x y y'. a \<in> snd ` set (lp_registry p) \<longrightarrow> b \<in> snd ` set (lp_registry p) \<longrightarrow>
     lp_held p a = Some h \<longrightarrow> lp_held p b = Some h' \<longrightarrow> v (hl_lock_descriptor h) = Some (x, y) \<longrightarrow>
     v (hl_lock_descriptor h') = Some (x, y') \<longrightarrow> a = b)"

definition table_ok :: "lease_process \<Rightarrow> fd_map \<Rightarrow> bool" where
  "table_ok p v =
     (lp_registry_pid p = lp_pid p \<and> distinct (map fst (lp_registry p)) \<and> distinct (map snd (lp_registry p))
      \<and> (\<forall>e \<in> set (lp_registry p). entry_ok p v (fst e) (snd e))
      \<and> distinct (owned_fds p) \<and> (\<forall>d \<in> set (owned_fds p). v d \<noteq> None) \<and> locks_apart p v \<and> lease_ok p)"

definition lease_inv :: "lease_world \<Rightarrow> bool" where
  "lease_inv w = (world_ok w \<and> table_ok (lw_process w) (fd_view w))"

lemma table_entry:
  assumes "table_ok p v" and "(state, a) \<in> set (lp_registry p)"
  obtains h x where "lp_held p a = Some h" "hl_owner_pid h = lp_pid p" "hl_state_directory h = state"
    "v (hl_lock_descriptor h) = Some (x, lock_object h, Some (hl_mode h))"
    "hl_references h = int (card (active p a))" "0 < hl_references h" "a < lp_next p"
  using assms unfolding table_ok_def entry_ok_def by fastforce

lemma locks_apartD:
  assumes "table_ok p v" and "a \<in> snd ` set (lp_registry p)" and "b \<in> snd ` set (lp_registry p)"
    and "lp_held p a = Some h" and "lp_held p b = Some h'"
    and "v (hl_lock_descriptor h) = Some (x, y)" and "v (hl_lock_descriptor h') = Some (x, y')"
  shows "a = b"
  using assms unfolding table_ok_def locks_apart_def by blast

lemma lock_fd_owned:
  assumes "table_ok p v" and "a \<in> snd ` set (lp_registry p)" and "lp_held p a = Some h"
  shows "v (hl_lock_descriptor h) \<noteq> None"
  using assms unfolding table_ok_def owned_fds_def entry_fds_def by force

lemma table_mono:
  assumes t: "table_ok p v" and le: "v \<subseteq>\<^sub>m v'"
  shows "table_ok p v'"
proof -
  have e: "entry_ok p v' state a" if "entry_ok p v state a" for state a
    using that le_Some [OF le] unfolding entry_ok_def by blast
  have "v' (hl_lock_descriptor h) = v (hl_lock_descriptor h)" if "a \<in> snd ` set (lp_registry p)" "lp_held p a = Some h" for a h
    using lock_fd_owned [OF t that] le_Some [OF le] by fastforce
  with t have "locks_apart p v'" unfolding table_ok_def locks_apart_def by metis
  moreover have "v' d \<noteq> None" if "d \<in> set (owned_fds p)" for d
    using t that le_Some [OF le] unfolding table_ok_def by fastforce
  ultimately show ?thesis using t e unfolding table_ok_def by blast
qed

lemma calm_held: "calm p q \<Longrightarrow> a < lp_next p \<Longrightarrow> lp_held q a = lp_held p a"
  by (simp add: calm_def)

lemma table_calm:
  assumes t: "table_ok p v" and c: "calm p q"
  shows "table_ok q v"
proof -
  from c have eq: "lp_pid q = lp_pid p" "lp_registry_pid q = lp_registry_pid p" "lp_registry q = lp_registry p"
    "lp_borrowed q = lp_borrowed p" "lp_leases q = lp_leases p" and le: "lp_next p \<le> lp_next q"
    by (simp_all add: calm_def)
  from t have below: "a < lp_next p" if "a \<in> snd ` set (lp_registry p)" for a
    using that unfolding table_ok_def entry_ok_def by blast
  have held: "lp_held q a = lp_held p a" if "a \<in> snd ` set (lp_registry p)" for a
    using calm_held [OF c below [OF that]] .
  have active: "active q a = active p a" for a
    using t le unfolding active_def eq table_ok_def lease_ok_def by (fastforce split: option.splits)
  have "entry_fds q (snd e) = entry_fds p (snd e)" if "e \<in> set (lp_registry p)" for e
    using held [of "snd e"] that unfolding entry_fds_def by simp
  then have "owned_fds q = owned_fds p"
    unfolding owned_fds_def eq by (metis (no_types, lifting) map_cong)
  moreover have "entry_ok q v (fst e) (snd e)" if "e \<in> set (lp_registry p)" for e
  proof -
    from t that have "entry_ok p v (fst e) (snd e)" by (auto simp: table_ok_def)
    moreover have "snd e < lp_next q" using below [of "snd e"] that le by fastforce
    ultimately show ?thesis using held [of "snd e"] that by (auto simp: entry_ok_def eq active)
  qed
  moreover have "locks_apart q v"
    using t held unfolding table_ok_def locks_apart_def eq by metis
  moreover have "lease_ok q"
    using t le unfolding table_ok_def lease_ok_def eq by (meson less_le_trans)
  ultimately show ?thesis using t unfolding table_ok_def eq by simp
qed

lemma inv_moved:
  assumes "lease_inv s" and "moved s v t" and "fd_view s \<subseteq>\<^sub>m v"
  shows "lease_inv t"
  using assms table_calm table_mono unfolding lease_inv_def moved_def by (meson map_le_trans)

lemma inv_quiet: "quiet.keeps m \<Longrightarrow> lease_inv s \<Longrightarrow> m s = (r, t) \<Longrightarrow> lease_inv t"
  using inv_moved [of s "fd_view s" t] quietD [of m s r t] by (simp add: lease_inv_def)

section \<open>Granting\<close>

lemma active_new_lease:
  "active (with_new_lease a p) b = (if b = a then insert (lp_next p) (active p b) else active p b)"
  by (auto simp: active_def with_new_lease_def fresh_lease_def less_Suc_eq)

lemma active_fresh: "lp_next p \<notin> active p a" and active_finite [simp]: "finite (active p a)"
  by (simp_all add: active_def)

lemma active_cong: "lp_leases p = lp_leases q \<Longrightarrow> lp_next p = lp_next q \<Longrightarrow> active p a = active q a"
  by (simp add: active_def)

lemma active_unregistered: "lease_ok p \<Longrightarrow> a \<notin> snd ` set (lp_registry p) \<Longrightarrow> active p a = {}"
  by (auto simp: active_def lease_ok_def split: option.splits)

lemma table_registered:
  assumes t: "table_ok p v" and new: "lp_held p a = Some (new_entry (lp_pid p) state sd si ld i mode)" "a < lp_next p"
    and fresh: "a \<notin> snd ` set (lp_registry p)" "state \<notin> fst ` set (lp_registry p)"
    and v: "v sd = None" "v ld = None" "ld \<noteq> sd" "x \<notin> fst ` ran v"
  shows "table_ok (registered state a p) (v(sd \<mapsto> y, ld \<mapsto> (x, (fi_device i, fi_inode i), Some mode)))"
    (is "table_ok ?p ?v")
proof -
  have eq: "lp_pid ?p = lp_pid p" "lp_registry_pid ?p = lp_registry_pid p" "lp_registry ?p = lp_registry p @ [(state, a)]"
    "lp_borrowed ?p = lp_borrowed p" "lp_held ?p = lp_held p" "lp_next ?p = Suc (lp_next p)"
    "lp_leases ?p = (lp_leases p)(lp_next p \<mapsto> fresh_lease a)"
    by (simp_all add: registered_def with_new_lease_def)
  have active: "active ?p b = (if b = a then insert (lp_next p) (active p b) else active p b)" for b
    using active_new_lease [of a p b] by (simp add: active_def registered_def with_new_lease_def)
  have old: "?v d = v d" if "v d \<noteq> None" for d using that v by auto
  have owned: "owned_fds ?p = concat (map (\<lambda>e. entry_fds p (snd e)) (lp_registry p)) @ [ld, sd] @ lp_borrowed p"
    by (simp add: owned_fds_def eq entry_fds_def new new_entry_def)
  have notowned: "ld \<notin> set (owned_fds p)" "sd \<notin> set (owned_fds p)" using t v unfolding table_ok_def by blast+
  have "distinct (owned_fds ?p)"
    using t notowned v(3) unfolding owned by (auto simp: table_ok_def owned_fds_def)
  moreover have "?v d \<noteq> None" if "d \<in> set (owned_fds ?p)" for d
  proof -
    have "d = ld \<or> d = sd \<or> d \<in> set (owned_fds p)" using that unfolding owned by (auto simp: owned_fds_def)
    moreover have "d \<in> set (owned_fds p) \<Longrightarrow> v d \<noteq> None" using t by (auto simp: table_ok_def)
    ultimately show ?thesis using v by (cases y) auto
  qed
  moreover have "entry_ok ?p ?v (fst e) (snd e)" if e: "e \<in> set (lp_registry ?p)" for e
  proof (cases "e = (state, a)")
    case True
    have "active p a = {}" using t fresh active_unregistered by (simp add: table_ok_def)
    then have "card (active ?p a) = 1" by (simp add: active)
    then show ?thesis using True new by (simp add: entry_ok_def eq new_entry_def)
  next
    case False
    with e have e: "e \<in> set (lp_registry p)" by (simp add: eq)
    with fresh have "snd e \<noteq> a" by blast
    moreover from e t obtain h x' where h: "lp_held p (snd e) = Some h" "hl_owner_pid h = lp_pid p" "hl_state_directory h = fst e"
        "v (hl_lock_descriptor h) = Some (x', lock_object h, Some (hl_mode h))"
        "hl_references h = int (card (active p (snd e)))" "0 < hl_references h" "snd e < lp_next p"
      by (metis prod.collapse table_entry)
    moreover have "?v (hl_lock_descriptor h) = v (hl_lock_descriptor h)" using h(4) old by simp
    ultimately show ?thesis by (simp add: entry_ok_def eq active)
  qed
  moreover have "locks_apart ?p ?v"
  proof -
    have apart: "fst (the (v (hl_lock_descriptor h))) \<noteq> x \<and> ?v (hl_lock_descriptor h) = v (hl_lock_descriptor h)"
      if "b \<in> snd ` set (lp_registry p)" "lp_held p b = Some h" for b h
      using lock_fd_owned [OF t that] old v(4) by (force simp: ran_def)
    show ?thesis
      unfolding locks_apart_def eq
    proof (intro allI impI)
      fix b c h h' z w w'
      assume bc: "b \<in> snd ` set (lp_registry p @ [(state, a)])" "c \<in> snd ` set (lp_registry p @ [(state, a)])"
        and h: "lp_held p b = Some h" "lp_held p c = Some h'"
        and w: "?v (hl_lock_descriptor h) = Some (z, w)" "?v (hl_lock_descriptor h') = Some (z, w')"
      consider "b = a" "c = a" | "b = a" "c \<in> snd ` set (lp_registry p)" | "c = a" "b \<in> snd ` set (lp_registry p)"
        | "b \<in> snd ` set (lp_registry p)" "c \<in> snd ` set (lp_registry p)" using bc by auto
      then show "b = c"
      proof cases
        case 2 with apart [OF 2(2) h(2)] h new w show ?thesis by (auto simp: new_entry_def)
      next
        case 3 with apart [OF 3(2) h(1)] h new w show ?thesis by (auto simp: new_entry_def)
      next
        case 4
        with apart [OF 4(1) h(1)] apart [OF 4(2) h(2)] w t h show ?thesis
          unfolding table_ok_def locks_apart_def by metis
      qed simp
    qed
  qed
  moreover have "lease_ok ?p"
    using t new(2) unfolding table_ok_def lease_ok_def eq by (auto simp: fresh_lease_def less_Suc_eq)
  ultimately show ?thesis
    using t fresh unfolding table_ok_def by (simp add: eq)
qed

lemma table_nested:
  assumes t: "table_ok p v" and a: "a \<in> snd ` set (lp_registry p)"
  shows "table_ok (nested a p) v" (is "table_ok ?p v")
proof -
  have eq: "lp_pid ?p = lp_pid p" "lp_registry_pid ?p = lp_registry_pid p" "lp_registry ?p = lp_registry p"
    "lp_borrowed ?p = lp_borrowed p" "lp_next ?p = Suc (lp_next p)"
    "lp_leases ?p = (lp_leases p)(lp_next p \<mapsto> fresh_lease a)"
    "lp_held ?p = (lp_held p)(a := map_option (\<lambda>h. h\<lparr>hl_references := hl_references h + 1\<rparr>) (lp_held p a))"
    by (simp_all add: nested_def with_new_lease_def)
  have active: "active ?p b = (if b = a then insert (lp_next p) (active p b) else active p b)" for b
    using active_new_lease [of a p b] by (simp add: active_def nested_def with_new_lease_def)
  have "entry_fds ?p b = entry_fds p b" for b by (cases "lp_held p a") (auto simp: entry_fds_def eq)
  then have owned: "owned_fds ?p = owned_fds p" by (simp add: owned_fds_def eq)
  have "entry_ok ?p v (fst e) (snd e)" if "e \<in> set (lp_registry p)" for e
  proof -
    from that t have "entry_ok p v (fst e) (snd e)" by (simp add: table_ok_def)
    then show ?thesis
      using active_fresh [of p] by (cases "snd e = a") (auto simp: entry_ok_def eq active)
  qed
  moreover have "locks_apart ?p v"
  proof -
    have "\<exists>h0. lp_held p b = Some h0 \<and> hl_lock_descriptor h0 = hl_lock_descriptor h" if "lp_held ?p b = Some h" for b h
      using that by (auto simp: eq split: if_splits)
    note old = this
    show ?thesis
      unfolding locks_apart_def eq(3)
    proof (intro allI impI)
      fix b c h h' z w w'
      assume bc: "b \<in> snd ` set (lp_registry p)" "c \<in> snd ` set (lp_registry p)"
        and h: "lp_held ?p b = Some h" "lp_held ?p c = Some h'"
        and w: "v (hl_lock_descriptor h) = Some (z, w)" "v (hl_lock_descriptor h') = Some (z, w')"
      from old [OF h(1)] old [OF h(2)] w locks_apartD [OF t bc] show "b = c" by metis
    qed
  qed
  moreover have "lease_ok ?p"
    using t a unfolding table_ok_def lease_ok_def eq by (auto simp: fresh_lease_def less_Suc_eq entry_ok_def)
  ultimately show ?thesis using t unfolding table_ok_def by (simp add: eq owned)
qed

section \<open>Releasing\<close>

definition released :: "nat \<Rightarrow> nat \<Rightarrow> lease_process \<Rightarrow> lease_process" where
  "released self a p = p\<lparr>lp_leases := (lp_leases p)(self := map_option (\<lambda>l. l\<lparr>ml_released := True\<rparr>) (lp_leases p self)),
     lp_held := (lp_held p)(a := map_option (\<lambda>h. h\<lparr>hl_references := hl_references h - 1\<rparr>) (lp_held p a))\<rparr>"

definition unregistered :: "absolute_path \<Rightarrow> lease_process \<Rightarrow> lease_process" where
  "unregistered state p = p\<lparr>lp_registry := filter (\<lambda>e. fst e \<noteq> state) (lp_registry p)\<rparr>"

lemma table_released:
  assumes t: "table_ok p v" and self: "lp_leases p self = Some L" "\<not> ml_released L"
    and h: "lp_held p (ml_held L) = Some h"
  shows "hl_references h - 1 \<noteq> 0 \<Longrightarrow> table_ok (released self (ml_held L) p) v"
    and "hl_references h - 1 = 0 \<Longrightarrow>
      table_ok (unregistered (hl_state_directory h) (released self (ml_held L) p))
        ((with_lock (fst (the (v (hl_lock_descriptor h)))) l v) |` (- {hl_lock_descriptor h, hl_state_descriptor h}))"
proof -
  let ?a = "ml_held L" and ?p = "released self (ml_held L) p"
  have eq: "lp_pid ?p = lp_pid p" "lp_registry_pid ?p = lp_registry_pid p" "lp_registry ?p = lp_registry p"
    "lp_borrowed ?p = lp_borrowed p" "lp_next ?p = lp_next p"
    "lp_leases ?p = (lp_leases p)(self \<mapsto> L\<lparr>ml_released := True\<rparr>)"
    "lp_held ?p = (lp_held p)(?a \<mapsto> h\<lparr>hl_references := hl_references h - 1\<rparr>)"
    by (simp_all add: released_def self h)
  have lease: "self < lp_next p" "?a \<in> snd ` set (lp_registry p)"
    using t self unfolding table_ok_def lease_ok_def by blast+
  then obtain state where reg: "(state, ?a) \<in> set (lp_registry p)" by auto
  from table_entry [OF t reg] h obtain x where entry: "hl_state_directory h = state"
      "v (hl_lock_descriptor h) = Some (x, lock_object h, Some (hl_mode h))"
      "hl_references h = int (card (active p ?a))" by (metis option.inject)
  have active: "active ?p b = active p b - {self}" for b
    by (auto simp: active_def eq split: if_splits)
  have self_active: "self \<in> active p ?a" and other: "b \<noteq> ?a \<Longrightarrow> self \<notin> active p b" for b
    using lease self by (auto simp: active_def)
  have fds: "entry_fds ?p b = entry_fds p b" for b
    by (auto simp: entry_fds_def eq h)
  then have owned: "owned_fds ?p = owned_fds p" by (simp add: owned_fds_def eq)
  have held: "\<exists>h0. lp_held p b = Some h0 \<and> hl_lock_descriptor h0 = hl_lock_descriptor h'" if "lp_held ?p b = Some h'" for b h'
    using that h by (auto simp: eq split: if_splits)
  have apart: "locks_apart ?p v"
    unfolding locks_apart_def eq(3)
  proof (intro allI impI)
    fix b c h h' z w w'
    assume bc: "b \<in> snd ` set (lp_registry p)" "c \<in> snd ` set (lp_registry p)"
      and h: "lp_held ?p b = Some h" "lp_held ?p c = Some h'"
      and w: "v (hl_lock_descriptor h) = Some (z, w)" "v (hl_lock_descriptor h') = Some (z, w')"
    from held [OF h(1)] held [OF h(2)] w locks_apartD [OF t bc] show "b = c" by metis
  qed
  have lease_ok: "lease_ok ?p"
    using t self unfolding table_ok_def lease_ok_def eq by auto
  have others: "entry_ok ?p v (fst e) (snd e)" if "e \<in> set (lp_registry p)" "snd e \<noteq> ?a" for e
  proof -
    from that t have "entry_ok p v (fst e) (snd e)" by (simp add: table_ok_def)
    with that(2) show ?thesis using other [OF that(2)] by (auto simp: entry_ok_def eq active)
  qed
  {
    assume more: "hl_references h - 1 \<noteq> 0"
    have "entry_ok ?p v (fst e) (snd e)" if "e \<in> set (lp_registry p)" for e
    proof (cases "snd e = ?a")
      case True
      from that t have "entry_ok p v (fst e) (snd e)" by (simp add: table_ok_def)
      with True h more self_active show ?thesis
        by (auto simp: entry_ok_def eq active card_Diff_singleton)
    qed (use others that in blast)
    then show "table_ok ?p v"
      using t apart lease_ok unfolding table_ok_def by (simp add: eq owned)
  }
  {
    assume last: "hl_references h - 1 = 0"
    let ?u = "unregistered (hl_state_directory h) ?p"
    let ?w = "(with_lock (fst (the (v (hl_lock_descriptor h)))) l v) |` (- {hl_lock_descriptor h, hl_state_descriptor h})"
    have one: "active ?p ?a = {}"
      using last entry(3) self_active by (simp add: active card_1_singleton_iff) auto
    have "e \<in> set (lp_registry p) \<and> fst e \<noteq> state \<longleftrightarrow> e \<in> set (lp_registry p) \<and> snd e \<noteq> ?a" for e
      using t reg unfolding table_ok_def by (metis distinct_map inj_on_contraD prod.collapse fst_conv snd_conv)
    then have keep: "e \<in> set (lp_registry ?u) \<longleftrightarrow> e \<in> set (lp_registry p) \<and> snd e \<noteq> ?a" for e
      by (simp add: unregistered_def eq entry(1))
    from reg obtain xs ys where split: "lp_registry p = xs @ (state, ?a) # ys" by (meson split_list)
    with t have "state \<notin> fst ` set (xs @ ys)" by (auto simp: table_ok_def)
    have apart_a: "?a \<notin> snd ` set (xs @ ys)" using t split by (auto simp: table_ok_def)
    from \<open>state \<notin> fst ` set (xs @ ys)\<close> have "filter (\<lambda>e. fst e \<noteq> state) (xs @ ys) = xs @ ys" by (intro filter_True) auto
    then have ureg: "lp_registry ?u = xs @ ys" by (simp add: unregistered_def eq entry(1) split)
    have uheld: "lp_held ?u = lp_held ?p" "lp_pid ?u = lp_pid p" "lp_registry_pid ?u = lp_registry_pid p"
        "lp_next ?u = lp_next p" "lp_leases ?u = lp_leases ?p" "lp_borrowed ?u = lp_borrowed p"
      by (simp_all add: unregistered_def eq)
    let ?fds = "\<lambda>es. concat (map (\<lambda>e. entry_fds p (snd e)) es)"
    have "entry_fds ?u b = entry_fds p b" for b
      using fds [of b] by (simp add: entry_fds_def uheld)
    then have uowned: "owned_fds ?u = ?fds xs @ ?fds ys @ lp_borrowed p"
      by (simp add: owned_fds_def ureg uheld(6))
    have powned: "owned_fds p = ?fds xs @ [hl_lock_descriptor h, hl_state_descriptor h] @ ?fds ys @ lp_borrowed p"
      by (simp add: owned_fds_def split entry_fds_def h)
    from t have "distinct (owned_fds p)" by (simp add: table_ok_def)
    then have d: "distinct (owned_fds ?u)" "hl_lock_descriptor h \<notin> set (owned_fds ?u)" "hl_state_descriptor h \<notin> set (owned_fds ?u)"
      unfolding uowned powned by auto
    have open_fds: "?w d \<noteq> None" if "d \<in> set (owned_fds ?u)" for d
    proof -
      from that have "d \<in> set (owned_fds p)" unfolding uowned powned by auto
      with t have "v d \<noteq> None" by (simp add: table_ok_def)
      with that d show ?thesis by (auto simp: with_lock_def restrict_map_def split: option.splits)
    qed
    have same: "?w (hl_lock_descriptor h') = v (hl_lock_descriptor h')"
      if b: "b \<in> snd ` set (xs @ ys)" "lp_held ?p b = Some h'" for b h'
    proof -
      have neq: "b \<noteq> ?a" using apart_a b(1) by blast
      with b(2) have held: "lp_held p b = Some h'" by (simp add: eq)
      have reg: "b \<in> snd ` set (lp_registry p)" using b(1) split by auto
      from b(1) held have "hl_lock_descriptor h' \<in> set (owned_fds ?u)" by (force simp: uowned entry_fds_def)
      with d have nd: "hl_lock_descriptor h' \<notin> {hl_lock_descriptor h, hl_state_descriptor h}" by auto
      from lock_fd_owned [OF t reg held] obtain z y where z: "v (hl_lock_descriptor h') = Some (z, y)" by auto
      from locks_apartD [OF t reg lease(2) held h z] neq entry(2) have "z \<noteq> x" by auto
      with nd z entry(2) show ?thesis by (auto simp: with_lock_def)
    qed
    have uactive: "active ?u b = active ?p b" for b by (rule active_cong) (simp_all add: uheld eq)
    have "entry_ok ?u ?w (fst e) (snd e)" if e: "e \<in> set (xs @ ys)" for e
    proof -
      have "snd e \<noteq> ?a" using apart_a e by (metis image_eqI)
      from others [OF _ this] e split have "entry_ok ?p v (fst e) (snd e)" by auto
      then show ?thesis
        using same [of "snd e"] e by (auto simp: entry_ok_def uheld uactive eq)
    qed
    moreover have "locks_apart ?u ?w"
      unfolding locks_apart_def ureg uheld(1)
    proof (intro allI impI)
      fix b c h h' z w w'
      assume bc: "b \<in> snd ` set (xs @ ys)" "c \<in> snd ` set (xs @ ys)"
        and h: "lp_held ?p b = Some h" "lp_held ?p c = Some h'"
        and w: "?w (hl_lock_descriptor h) = Some (z, w)" "?w (hl_lock_descriptor h') = Some (z, w')"
      have "b \<in> snd ` set (lp_registry ?p)" "c \<in> snd ` set (lp_registry ?p)" using bc split eq(3) by auto
      with apart h w same [OF bc(1) h(1)] same [OF bc(2) h(2)] show "b = c" unfolding locks_apart_def by metis
    qed
    moreover have "lease_ok ?u"
    proof -
      have "\<not> ml_released M \<Longrightarrow> ml_held M \<noteq> ?a" if "lp_leases ?p l = Some M" for l M
        using one that lease_ok unfolding lease_ok_def active_def by fastforce
      with lease_ok show ?thesis
        unfolding lease_ok_def ureg uheld eq(3) split eq(5) by (auto; blast)
    qed
    ultimately show "table_ok ?u ?w"
      using t d(1) open_fds unfolding table_ok_def ureg by (auto simp: uheld split)
  }
qed

lemma captured_eq: "captured m s = (case m s of (Inl e, t) \<Rightarrow> (Inr (Some e), t) | (Inr _, t) \<Rightarrow> (Inr None, t))"
  by (simp add: captured_def sexcept_def sthen_def sbind_def sreturn_def split: prod.splits sum.splits)

lemma keeps_captured [intro]: "quiet.keeps m \<Longrightarrow> quiet.keeps (captured m)"
  unfolding captured_def by (intro quiet.keeps_except quiet.keeps_then) auto

lemma keeps_release_check [intro, simp]: "quiet.keeps (check_before_release a h)"
  unfolding check_before_release_def
  by (intro quiet.keeps_translating quiet.keeps_then) (auto intro!: quiet.keeps_bind)

lemma on_process_simps [simp]:
  "lw_kernel (on_process f w) = lw_kernel w" "lw_process (on_process f w) = f (lw_process w)"
  by (simp_all add: on_process_def)

text \<open>A change of the process under the same kernel, followed by quiet steps.\<close>

definition reached :: "lease_world \<Rightarrow> lease_process \<Rightarrow> fd_map \<Rightarrow> lease_world \<Rightarrow> bool" where
  "reached s p v t = (world_ok t \<and> calm p (lw_process t) \<and> closes_well t = closes_well s \<and> v \<subseteq>\<^sub>m fd_view t)"

lemma reached_moved: "reached s p v t \<Longrightarrow> moved t (fd_view t) u \<Longrightarrow> reached s p v u"
  unfolding reached_def moved_def by (meson calm_trans map_le_trans)

lemma reached_step:
  assumes "reached s p v t" and "moved t (f (fd_view t)) u" and "\<And>a b. a \<subseteq>\<^sub>m b \<Longrightarrow> f a \<subseteq>\<^sub>m f b"
  shows "reached s p (f v) u"
  using assms unfolding reached_def moved_def by (meson calm_trans map_le_trans)

lemma reached_inv: "reached s p v t \<Longrightarrow> table_ok p v \<Longrightarrow> lease_inv t"
  unfolding reached_def lease_inv_def using table_calm table_mono by blast

lemma with_lock_same:
  assumes le: "v \<subseteq>\<^sub>m view_of k p" and d: "v d = Some (x, object, l)"
  shows "with_lock x l v = v"
proof
  fix d'
  have "l = kn_locks k x" using le_Some [OF le d] by (auto simp: view_of_def)
  moreover have "l' = kn_locks k x" if "v d' = Some (x, object', l')" for object' l'
    using le_Some [OF le that] by (auto simp: view_of_def)
  ultimately show "with_lock x l v d' = v d'" by (cases "v d'") (auto simp: with_lock_def)
qed

lemma release_kernel_reached:
  assumes t: "reached s p v t" and ld: "v (hl_lock_descriptor h) = Some (x, y)"
    and r: "release_kernel_lease h e t = (r, u)"
  shows "\<exists>l. reached s (unregistered (hl_state_directory h) p)
      (with_lock x l v |` (- {hl_lock_descriptor h, hl_state_descriptor h})) u"
proof -
  let ?t1 = "on_process (unregistered (hl_state_directory h)) t"
  let ?p = "unregistered (hl_state_directory h) p"
  have t1: "reached s ?p v ?t1"
    using t by (auto simp: reached_def calm_def unregistered_def closes_well_def)
  obtain r2 t2 where t2: "sys_unlock (hl_lock_descriptor h) ?t1 = (r2, t2)" by (cases "sys_unlock (hl_lock_descriptor h) ?t1")
  have ok: "world_ok ?t1" and le: "v \<subseteq>\<^sub>m fd_view ?t1" using t1 unfolding reached_def by blast+
  have "\<exists>l. reached s ?p (with_lock x l v) t2"
  proof -
    obtain o' l where y: "y = (o', l)" by (cases y)
    from unlock_moved [OF t2 ok le_Some [OF le ld]]
    consider "moved ?t1 (fd_view ?t1) t2" | "moved ?t1 (with_lock x None (fd_view ?t1)) t2" by blast
    then show ?thesis
    proof cases
      case 1
      have "reached s ?p v t2" by (rule reached_moved [OF t1 1])
      with with_lock_same [OF le, of _ x o' l] ld y show ?thesis by metis
    next
      case 2
      have "reached s ?p (with_lock x None v) t2" by (rule reached_step [where f = "with_lock x None", OF t1 2]) (rule with_lock_mono)
      then show ?thesis by blast
    qed
  qed
  then obtain l where l: "reached s ?p (with_lock x l v) t2" by blast
  have ok2: "world_ok t2" using l by (simp add: reached_def)
  from close_descriptors_moved [OF ok2, of "[hl_lock_descriptor h, hl_state_descriptor h]"] obtain b t3 where
    c: "close_descriptors [hl_lock_descriptor h, hl_state_descriptor h] t2 = (Inr b, t3)"
       "moved t2 (fd_view t2 |` (- {hl_lock_descriptor h, hl_state_descriptor h})) t3" by auto
  have "reached s ?p (with_lock x l v |` (- {hl_lock_descriptor h, hl_state_descriptor h})) t3"
    by (rule reached_step [where f = "\<lambda>v. v |` (- {hl_lock_descriptor h, hl_state_descriptor h})", OF l c(2)])
      (auto simp: map_le_def restrict_map_def)
  moreover have "u = t3"
    using r t2 c(1) unfolding release_kernel_lease_def sthen_def sbind_def smodify_def
    by (auto simp: captured_eq sreturn_def unregistered_def [abs_def] simp del: close_descriptors.simps split: sum.splits)
  ultimately show ?thesis by blast
qed

lemma reset_pure: "lp_registry_pid (lw_process s) = my_pid s \<Longrightarrow> reset_registry_after_fork s = (Inr (), s)"
  by (simp add: reset_registry_after_fork_def sbind_def sget_def sreturn_def)

lemma close_locked_inv:
  assumes inv: "lease_inv s" and self: "lp_leases (lw_process s) self = Some L" "\<not> ml_released L"
    and r: "close_locked self s = (r, u)"
  shows "lease_inv u"
proof -
  let ?p = "lw_process s" and ?a = "ml_held L" and ?v = "fd_view s"
  from inv have ok: "world_ok s" and t: "table_ok ?p ?v" by (simp_all add: lease_inv_def)
  from t self have "?a \<in> snd ` set (lp_registry ?p)" unfolding table_ok_def lease_ok_def by blast
  then obtain state where reg: "(state, ?a) \<in> set (lp_registry ?p)" by auto
  from table_entry [OF t reg] obtain h x where h: "lp_held ?p ?a = Some h" "hl_owner_pid h = lp_pid ?p"
      "hl_state_directory h = state" "?v (hl_lock_descriptor h) = Some (x, lock_object h, Some (hl_mode h))" "?a < lp_next ?p"
    by metis
  have find: "map_of (lp_registry ?p) state = Some ?a"
    using t reg by (simp add: table_ok_def map_of_eq_Some_iff)
  have same: "lp_registry_pid ?p = lp_pid ?p" using t by (simp add: table_ok_def)
  let ?s1 = "on_process (\<lambda>p. p\<lparr>lp_leases := (lp_leases p)(self := map_option (\<lambda>l. l\<lparr>ml_released := True\<rparr>) (lp_leases p self))\<rparr>) s"
  let ?dec = "\<lambda>h. h\<lparr>hl_references := hl_references h - 1\<rparr>"
  show ?thesis
  proof (cases "ml_descriptor_borrows L = 0")
    case False
    with r self h same have "u = s"
      by (simp add: close_locked_def reset_pure sbind_def sthen_def lease_at_def held_at_def sread_def sget_def sguard_def slift_def)
    with inv show ?thesis by simp
  next
    case True
    obtain r0 s2 where c0: "check_before_release ?a h ?s1 = (r0, s2)" by (cases "check_before_release ?a h ?s1")
    obtain check where c: "captured (check_before_release ?a h) ?s1 = (Inr check, s2)"
      using c0 by (cases r0) (simp_all add: captured_eq)
    have ok1: "world_ok ?s1" using ok by simp
    from quietD [OF keeps_captured [OF keeps_release_check] c ok1] have q: "moved ?s1 (fd_view ?s1) s2" .
    let ?s3 = "on_process (\<lambda>p. p\<lparr>lp_held := (lp_held p)(?a := map_option ?dec (lp_held p ?a))\<rparr>) s2"
    let ?q = "released self ?a ?p"
    have s3: "reached s ?q ?v ?s3"
      using q h(1,5) by (auto simp: reached_def moved_def calm_def released_def closes_well_def on_process_def)
    note table = table_released [OF t self h(1)]
    show ?thesis
    proof (cases "hl_references h - 1 = 0")
      case False
      with r self h same True find c have "u = ?s3"
        by (auto simp: close_locked_def reset_pure sbind_def sthen_def lease_at_def held_at_def sread_def sget_def sguard_def
            slift_def update_lease_def update_held_def smodify_def registered_at_def sreturn_def sraise_def split: option.splits)
      with reached_inv [OF s3 table(1) [OF False]] show ?thesis by simp
    next
      case True': True
      obtain r4 s4 where k: "release_kernel_lease h check ?s3 = (r4, s4)" by (cases "release_kernel_lease h check ?s3")
      have "u = s4"
        using r self h same True True' find c k
        by (cases r4) (auto simp: close_locked_def reset_pure sbind_def sthen_def lease_at_def held_at_def sread_def sget_def sguard_def
            slift_def update_lease_def update_held_def smodify_def registered_at_def sreturn_def sraise_def split: option.splits)
      moreover from release_kernel_reached [OF s3 h(4) k] obtain l where
        "reached s (unregistered state ?q) (with_lock x l ?v |` (- {hl_lock_descriptor h, hl_state_descriptor h})) s4"
        using h(3) by blast
      from reached_inv [OF this] table(2) [OF True', of l] h(3,4) have "lease_inv s4" by simp
      ultimately show ?thesis by simp
    qed
  qed
qed

lemma close_lease_inv:
  assumes inv: "lease_inv s" and r: "close_lease self s = (r, t)"
  shows "lease_inv t"
proof (cases "lp_leases (lw_process s) self")
  case None
  with r inv show ?thesis by (simp add: close_lease_def sbind_def lease_at_def sread_def)
next
  case (Some L)
  have same: "lp_registry_pid (lw_process s) = my_pid s" using inv by (simp add: lease_inv_def table_ok_def)
  show ?thesis
  proof (cases "ml_released L")
    case True
    with r inv Some show ?thesis by (simp add: close_lease_def sbind_def lease_at_def sread_def sreturn_def)
  next
    case False
    with r Some have "close_locked self s = (r, t)"
      by (simp add: close_lease_def sbind_def lease_at_def sread_def reset_same [OF same])
    with close_locked_inv [OF inv Some False] show ?thesis .
  qed
qed

lemma acquire_inv:
  assumes inv: "lease_inv s" and r: "acquire rounds mode p s = (r, u)"
  shows "lease_inv u"
proof -
  from inv have ok: "world_ok s" and t: "table_ok (lw_process s) (fd_view s)"
    and same: "lp_registry_pid (lw_process s) = my_pid s" by (simp_all add: lease_inv_def table_ok_def)
  show ?thesis
  proof (cases rule: acquire_moved [OF ok same r, case_names raised running nesting granted])
    case raised
    with inv_moved [OF inv] show ?thesis by simp
  next
    case (running sd y)
    then have "fd_view s \<subseteq>\<^sub>m (fd_view s)(sd \<mapsto> y)" by (auto simp: map_le_def)
    with inv_moved [OF inv running(3)] show ?thesis .
  next
    case (nesting t' address h lease state)
    from inv_moved [OF inv nesting(2)] have t': "lease_inv t'" by simp
    have "lp_registry (lw_process t') = lp_registry (lw_process s)" using nesting(2) by (simp add: moved_def calm_def)
    with nesting(3) have "address \<in> snd ` set (lp_registry (lw_process t'))" by force
    from table_nested [OF _ this] t' nesting(7) show ?thesis by (simp add: lease_inv_def nested_def with_new_lease_def)
  next
    case (granted lease state sd si)
    then obtain t' ld y x i a where g: "ld \<noteq> sd" "fd_view s sd = None" "fd_view s ld = None" "x \<notin> fst ` ran ((fd_view s)(sd \<mapsto> y))"
        "moved s ((fd_view s)(sd \<mapsto> y, ld \<mapsto> (x, (fi_device i, fi_inode i), Some mode))) t'"
        "lp_held (lw_process t') a = Some (new_entry (my_pid s) state sd si ld i mode)"
        "lp_next (lw_process s) \<le> a" "a < lp_next (lw_process t')"
        "u = on_process (registered state a) t'"
      unfolding granted_from_def by blast
    have calm: "calm (lw_process s) (lw_process t')" using g(5) by (simp add: moved_def)
    then have reg: "lp_registry (lw_process t') = lp_registry (lw_process s)" and pid: "my_pid t' = my_pid s"
      by (simp_all add: calm_def)
    have "a \<notin> snd ` set (lp_registry (lw_process t'))"
      using t g(7) unfolding reg table_ok_def entry_ok_def by fastforce
    moreover have "state \<notin> fst ` set (lp_registry (lw_process t'))"
      using granted(2) by (simp add: reg map_of_eq_None_iff)
    moreover have "table_ok (lw_process t') (fd_view s)" by (rule table_calm [OF t calm])
    moreover have "x \<notin> fst ` ran (fd_view s)" using g(2,4) by (simp add: ran_map_upd)
    ultimately have "table_ok (registered state a (lw_process t'))
        ((fd_view s)(sd \<mapsto> y, ld \<mapsto> (x, (fi_device i, fi_inode i), Some mode)))"
      using table_registered [of "lw_process t'" "fd_view s" a state sd si ld i mode x y] g pid by simp
    from table_mono [OF this moved_le [OF g(5)]] moved_ok [OF g(5)] g(9) show ?thesis
      by (simp add: lease_inv_def registered_def with_new_lease_def)
  qed
qed

section \<open>Entering and lending\<close>

lemma usable_same: "lp_registry_pid (lw_process s) = my_pid s \<Longrightarrow> usable_lease self s = (r, t) \<Longrightarrow> t = s"
  unfolding usable_lease_def sthen_def sbind_def lease_at_def held_at_def sread_def sget_def sguard_def slift_def
    registered_at_def sreturn_def
  by (auto simp: reset_pure split: prod.splits sum.splits if_splits option.splits)

definition update_lease_of :: "nat \<Rightarrow> (maintenance_lease \<Rightarrow> maintenance_lease) \<Rightarrow> lease_process \<Rightarrow> lease_process" where
  "update_lease_of self f p = p\<lparr>lp_leases := (lp_leases p)(self := map_option f (lp_leases p self))\<rparr>"

lemma table_same:
  assumes t: "table_ok p v" and lease: "lease_ok q"
    and eq: "lp_pid q = lp_pid p" "lp_registry_pid q = lp_registry_pid p" "lp_registry q = lp_registry p"
      "lp_held q = lp_held p" "lp_next q = lp_next p" "active q = active p"
    and owned: "distinct (owned_fds q)" "\<And>d. d \<in> set (owned_fds q) \<Longrightarrow> v d \<noteq> None"
  shows "table_ok q v"
proof -
  have "entry_ok q v = entry_ok p v" by (simp add: fun_eq_iff entry_ok_def eq)
  moreover have "locks_apart q v = locks_apart p v" by (simp add: locks_apart_def eq)
  ultimately show ?thesis using t lease owned by (simp add: table_ok_def eq)
qed

lemma table_lease_update:
  assumes t: "table_ok p v" and f: "\<And>l. ml_held (f l) = ml_held l \<and> ml_released (f l) = ml_released l"
  shows "table_ok (update_lease_of self f p) v" (is "table_ok ?p v")
proof -
  have eq: "lp_pid ?p = lp_pid p" "lp_registry_pid ?p = lp_registry_pid p" "lp_registry ?p = lp_registry p"
    "lp_borrowed ?p = lp_borrowed p" "lp_next ?p = lp_next p" "lp_held ?p = lp_held p"
    by (simp_all add: update_lease_of_def)
  have "x \<in> active ?p a \<longleftrightarrow> x \<in> active p a" for x a
    by (cases "x = self"; cases "lp_leases p self") (simp_all add: active_def update_lease_of_def f)
  then have active: "active ?p = active p" by (intro ext set_eqI)
  have "owned_fds ?p = owned_fds p" by (simp add: owned_fds_def entry_fds_def eq)
  moreover have "lease_ok ?p" using t f by (auto simp: table_ok_def lease_ok_def update_lease_of_def)
  ultimately show ?thesis
    by (intro table_same [OF t]) (use t active eq in \<open>auto simp: table_ok_def\<close>)
qed

lemma inv_lease_update:
  assumes "lease_inv s" and "\<And>l. ml_held (f l) = ml_held l \<and> ml_released (f l) = ml_released l"
  shows "lease_inv (snd (update_lease self f s))"
  using assms table_lease_update [of "lw_process s" "fd_view s" f self]
  by (simp add: lease_inv_def update_lease_def smodify_def update_lease_of_def)

lemma table_borrowed:
  assumes t: "table_ok p v" and d: "v d = None"
  shows "table_ok (p\<lparr>lp_borrowed := d # lp_borrowed p\<rparr>) (v(d \<mapsto> y))" (is "table_ok ?p ?v")
proof -
  have "v \<subseteq>\<^sub>m ?v" using d by (auto simp: map_le_def)
  from table_mono [OF t this] have t': "table_ok p ?v" .
  have "d \<notin> set (owned_fds p)" using t d unfolding table_ok_def by blast
  moreover have "entry_fds ?p = entry_fds p" by (simp add: entry_fds_def fun_eq_iff)
  ultimately have "distinct (owned_fds ?p) \<and> (\<forall>d' \<in> set (owned_fds ?p). ?v d' \<noteq> None)"
    using t' by (cases y) (auto simp: table_ok_def owned_fds_def)
  moreover have "lease_ok ?p" using t by (simp add: table_ok_def lease_ok_def)
  ultimately show ?thesis
    by (intro table_same [OF t']) (simp_all add: active_def fun_eq_iff)
qed

lemma table_returned:
  assumes t: "table_ok p v" and d: "d \<in> set (lp_borrowed p)"
  shows "table_ok (p\<lparr>lp_borrowed := removeAll d (lp_borrowed p)\<rparr>) (v(d := None))"
proof -
  let ?p = "p\<lparr>lp_borrowed := removeAll d (lp_borrowed p)\<rparr>" and ?v = "v(d := None)"
  have eq: "entry_fds ?p = entry_fds p" "active ?p = active p" by (simp_all add: entry_fds_def active_def fun_eq_iff)
  have dist: "distinct (owned_fds p)" using t by (simp add: table_ok_def)
  have same: "?v (hl_lock_descriptor h) = v (hl_lock_descriptor h)"
    if "a \<in> snd ` set (lp_registry p)" "lp_held p a = Some h" for a h
  proof -
    have "hl_lock_descriptor h \<in> set (concat (map (\<lambda>e. entry_fds p (snd e)) (lp_registry p)))"
      using that by (force simp: entry_fds_def)
    with dist d have "hl_lock_descriptor h \<noteq> d" by (auto simp: owned_fds_def)
    then show ?thesis by simp
  qed
  have "entry_ok ?p ?v (fst e) (snd e)" if "e \<in> set (lp_registry p)" for e
  proof -
    from t that have "entry_ok p v (fst e) (snd e)" by (simp add: table_ok_def)
    then obtain h x where h: "lp_held p (snd e) = Some h" "v (hl_lock_descriptor h) = Some (x, lock_object h, Some (hl_mode h))"
        "snd e < lp_next p" "hl_owner_pid h = lp_pid p" "hl_state_directory h = fst e"
        "hl_references h = int (card (active p (snd e)))" "0 < hl_references h" by (auto simp: entry_ok_def)
    moreover have "?v (hl_lock_descriptor h) = v (hl_lock_descriptor h)" by (rule same [OF _ h(1)]) (use that in simp)
    ultimately show ?thesis unfolding entry_ok_def eq by simp
  qed
  moreover have "locks_apart ?p ?v"
    unfolding locks_apart_def
  proof (intro allI impI)
    fix a b h h' x y y'
    assume ab: "a \<in> snd ` set (lp_registry ?p)" "b \<in> snd ` set (lp_registry ?p)" "lp_held ?p a = Some h" "lp_held ?p b = Some h'"
      and v: "?v (hl_lock_descriptor h) = Some (x, y)" "?v (hl_lock_descriptor h') = Some (x, y')"
    from ab have ab': "a \<in> snd ` set (lp_registry p)" "b \<in> snd ` set (lp_registry p)" "lp_held p a = Some h" "lp_held p b = Some h'"
      by simp_all
    from locks_apartD [OF t ab'] v same [OF ab'(1,3)] same [OF ab'(2,4)] show "a = b" by metis
  qed
  moreover have "distinct (owned_fds ?p)"
    using dist by (auto simp: owned_fds_def eq distinct_removeAll)
  moreover have "?v d' \<noteq> None" if "d' \<in> set (owned_fds ?p)" for d'
  proof -
    from that dist d have "d' \<noteq> d \<and> d' \<in> set (owned_fds p)" by (auto simp: owned_fds_def eq)
    with t show ?thesis by (simp add: table_ok_def)
  qed
  moreover have "lease_ok ?p" using t by (simp add: table_ok_def lease_ok_def)
  ultimately show ?thesis using t unfolding table_ok_def by simp
qed

lemma removeAll_absent: "d \<notin> set (lp_borrowed p) \<Longrightarrow> p\<lparr>lp_borrowed := removeAll d (lp_borrowed p)\<rparr> = p"
  by simp

lemma fail_entry_inv:
  assumes "lease_inv w"
  shows "\<exists>w'. fail_entry self e w = (Inl e, w') \<and> lease_inv w'"
  using close_lease_inv [OF assms, of self]
  by (auto simp: fail_entry_def sthen_def sbind_def sexcept_def sraise_def sreturn_def split: prod.splits sum.splits)

lemma enter_inv:
  assumes inv: "lease_inv s" and r: "enter_lease self s = (r, t)"
  shows "lease_inv t"
proof -
  have same: "lp_registry_pid (lw_process s) = my_pid s" using inv by (simp add: lease_inv_def table_ok_def)
  obtain r1 s1 where u: "usable_lease self s = (r1, s1)" by (cases "usable_lease self s")
  from usable_same [OF same u] have s1: "s1 = s" .
  show ?thesis
  proof (cases r1)
    case (Inl e)
    with r u s1 inv show ?thesis by (simp add: enter_lease_def sbind_def)
  next
    case (Inr z)
    obtain lease held where z: "z = (lease, held)" by (cases z)
    let ?check = "translating LOCK_OPERATION_FAILED
           (sthen (verify_held_lease (ml_held lease)) (quarantine_marker_present (ml_held lease)))"
    obtain r2 s2 where c: "?check s = (r2, s2)" by (cases "?check s")
    have "quiet.keeps ?check" by (intro quiet.keeps_translating quiet.keeps_then) auto
    from inv_quiet [OF this inv c] have i2: "lease_inv s2" .
    note r = r [unfolded enter_lease_def sthen_def [of "sguard _ _"] sbind_def]
    show ?thesis
    proof (cases "ml_entered lease")
      case True
      with r u s1 Inr z inv show ?thesis by (simp add: sguard_def slift_def)
    next
      case False
      show ?thesis
      proof (cases r2)
        case (Inl e)
        from fail_entry_inv [OF i2, of self e] obtain s3 where
          f: "(fail_entry self e :: bool lease_op) s2 = (Inl e, s3)" "lease_inv s3" by blast
        with r u s1 \<open>r1 = Inr z\<close> z False c Inl show ?thesis by (simp add: sguard_def slift_def sexcept_def)
      next
        case (Inr m)
        from fail_entry_inv [OF i2, of self "integrity LEASE_STATE_CHANGED"] obtain s3 where
          f: "(fail_entry self (integrity LEASE_STATE_CHANGED) :: unit lease_op) s2 = (Inl (integrity LEASE_STATE_CHANGED), s3)"
            "lease_inv s3" by blast
        have "lease_inv (snd (update_lease self (\<lambda>l. l\<lparr>ml_entered := True\<rparr>) s2))" by (rule inv_lease_update [OF i2]) simp
        with r u s1 \<open>r1 = Inr z\<close> z False c Inr f show ?thesis
          by (auto simp: sguard_def slift_def sexcept_def split: if_splits)
      qed
    qed
  qed
qed

lemma exit_inv: "lease_inv s \<Longrightarrow> exit_lease self e s = (r, t) \<Longrightarrow> lease_inv t"
  using close_lease_inv [of s self]
  by (auto simp: exit_lease_def sthen_def sbind_def sexcept_def sraise_def sreturn_def
      split: prod.splits sum.splits option.splits)

lemma duplicate_inv:
  assumes inv: "lease_inv s" and r: "duplicate_state_descriptor self a h s = (r, t)"
  shows "lease_inv t"
proof -
  obtain r1 s1 where v: "verify_unfenced a (hl_mode h) (integrity LEASE_STATE_CHANGED) s = (r1, s1)"
    by (cases "verify_unfenced a (hl_mode h) (integrity LEASE_STATE_CHANGED) s")
  from inv_quiet [OF keeps_unfenced inv v] have i1: "lease_inv s1" .
  then have ok1: "world_ok s1" by (simp add: lease_inv_def)
  obtain r2 s2 where d: "sys_dup (hl_state_descriptor h) s1 = (r2, s2)" by (cases "sys_dup (hl_state_descriptor h) s1")
  show ?thesis
  proof (cases "\<exists>e. r1 = Inl e \<or> r2 = Inl e")
    case True
    from True have "\<exists>e. r1 = Inl e \<Longrightarrow> t = s1" "\<nexists>e. r1 = Inl e \<Longrightarrow> t = s2"
      using r v d by (auto simp: duplicate_state_descriptor_def sthen_def sbind_def split: sum.splits)
    moreover have "lease_inv s2" if "r2 = Inl e" for e
      using inv_moved [OF i1 opens_by_Inl [OF opens_dup d [unfolded that] ok1]] by simp
    ultimately show ?thesis using i1 True by blast
  next
    case False
    then obtain z dup where r12: "r1 = Inr z" "r2 = Inr dup" by (metis old.sum.exhaust)
    from opens_by_Some [OF opens_dup d [unfolded r12] refl ok1] obtain x where
      x: "fd_view s1 dup = None" "moved s1 ((fd_view s1)(dup \<mapsto> x)) s2" by blast
    let ?check = "sbind (sys_fstat dup) (\<lambda>i.
         sthen (sguard (fi_type i = S_IFDIR \<and> same_object i (hl_state_identity h)) (integrity LEASE_STATE_CHANGED))
         (require_state_path_identity (hl_state_directory h) (hl_state_identity h)))"
    let ?rest = "sthen (smodify (on_process (\<lambda>p. p\<lparr>lp_borrowed := dup # lp_borrowed p\<rparr>)))
         (sthen (update_lease self (\<lambda>l. l\<lparr>ml_descriptor_borrows := ml_descriptor_borrows l + 1\<rparr>))
         (sreturn dup))"
    have body: "sexcept (sthen ?check ?rest) (\<lambda>e. sbind (close_descriptors [dup]) (\<lambda>failed.
             sraise (if failed then integrity LOCK_OPERATION_FAILED else e))) s2 = (r, t)"
      using r v d r12 by (simp add: duplicate_state_descriptor_def sthen_def sbind_def [of _ _ s] sbind_def [of _ _ s1] bind_assoc)
    obtain r3 s3 where c: "?check s2 = (r3, s3)" by (cases "?check s2")
    have "quiet.keeps ?check" by (auto intro!: quiet.keeps_bind quiet.keeps_then)
    from moved_quiet [OF x(2) quietD [OF this c moved_ok [OF x(2)]]]
    have m: "moved s1 ((fd_view s1)(dup \<mapsto> x)) s3" .
    show ?thesis
    proof (cases r3)
      case (Inl e)
      from close_descriptors_moved [OF moved_ok [OF m], of "[dup]"] obtain b s4 where
        s4: "close_descriptors [dup] s3 = (Inr b, s4)" "moved s3 (fd_view s3 |` (- {dup})) s4" by auto
      with body c Inl have "t = s4"
        by (auto simp: sexcept_def sthen_def sbind_def sraise_def simp del: close_descriptors.simps)
      moreover have "((fd_view s1)(dup \<mapsto> x)) |` (- {dup}) = fd_view s1"
        using x(1) by (auto simp: restrict_map_def fun_eq_iff)
      with moved_restrict [OF m s4(2)] have "moved s1 (fd_view s1) s4" by simp
      ultimately show ?thesis using inv_moved [OF i1] by simp
    next
      case (Inr u)
      let ?f = "\<lambda>l. l\<lparr>ml_descriptor_borrows := ml_descriptor_borrows l + 1\<rparr>"
      from i1 have "table_ok (lw_process s1) (fd_view s1)" by (simp add: lease_inv_def)
      from table_calm [OF this] m have "table_ok (lw_process s3) (fd_view s1)" by (simp add: moved_def)
      from table_lease_update [OF table_borrowed [OF this x(1), of x], of ?f self]
      have "table_ok (update_lease_of self ?f ((lw_process s3)\<lparr>lp_borrowed := dup # lp_borrowed (lw_process s3)\<rparr>))
        ((fd_view s1)(dup \<mapsto> x))" by simp
      moreover have "t = on_process (\<lambda>p. update_lease_of self ?f (p\<lparr>lp_borrowed := dup # lp_borrowed p\<rparr>)) s3"
        using body c Inr by (simp add: sexcept_def sthen_def sbind_def smodify_def update_lease_def sreturn_def on_process_def
            update_lease_of_def)
      ultimately show ?thesis
        using table_mono [OF _ moved_le [OF m]] moved_ok [OF m] by (simp add: lease_inv_def update_lease_of_def)
    qed
  qed
qed

lemma lend_inv:
  assumes inv: "lease_inv s" and r: "lend_state_descriptor self exclusive s = (r, t)"
  shows "lease_inv t"
proof -
  have same: "lp_registry_pid (lw_process s) = my_pid s" using inv by (simp add: lease_inv_def table_ok_def)
  obtain r1 s1 where u: "usable_lease self s = (r1, s1)" by (cases "usable_lease self s")
  from usable_same [OF same u] have s1: "s1 = s" .
  have "t = s \<or> (\<exists>a h r'. duplicate_state_descriptor self a h s = (r', t))"
    using r u s1 by (cases r1) (auto simp: lend_state_descriptor_def sthen_def sbind_def sguard_def slift_def require_def
        translating_def split: prod.splits sum.splits if_splits)
  then show ?thesis using inv duplicate_inv [OF inv, of self] by blast
qed

lemma close_borrowed_moved:
  assumes r: "close_borrowed d h s = (r, t)" and ok: "world_ok s"
  shows "moved s (fd_view s) t \<or> moved s ((fd_view s)(d := None)) t"
proof -
  let ?f = "translating LEASE_STATE_CHANGED (sys_fstat d)"
  obtain r1 s1 where f: "?f s = (r1, s1)" by (cases "?f s")
  note q = quietD [OF quiet.keeps_translating [OF keeps_calls(2)] f ok]
  note c = moved_close [OF q closed_view [OF moved_ok [OF q], of d]]
  have "t = s1 \<or> t = snd (sys_close d s1)"
    using r f by (cases r1) (auto simp: close_borrowed_def sthen_def sbind_def sguard_def slift_def require_def translating_def
        split: prod.splits sum.splits if_splits)
  with q c show ?thesis by blast
qed

lemma return_inv:
  assumes inv: "lease_inv s" and r: "return_state_descriptor self d e s = (r, t)"
  shows "lease_inv t"
proof -
  let ?p = "lw_process s"
  from inv have ok: "world_ok s" and tab: "table_ok ?p (fd_view s)" and same: "lp_registry_pid ?p = my_pid s"
    by (simp_all add: lease_inv_def table_ok_def)
  show ?thesis
  proof (cases "\<exists>L h. lp_leases ?p self = Some L \<and> lp_held ?p (ml_held L) = Some h")
    case False
    with r inv show ?thesis
      by (auto simp: return_state_descriptor_def sbind_def lease_at_def held_at_def sread_def of_option_def
          split: prod.splits sum.splits option.splits)
  next
    case True
    then obtain L h where L: "lp_leases ?p self = Some L" "lp_held ?p (ml_held L) = Some h" by blast
    let ?m = "if d \<in> set (lp_borrowed ?p) then captured (close_borrowed d h) else sreturn None"
    obtain r1 s1 where m: "?m s = (r1, s1)" by (cases "?m s")
    let ?f = "\<lambda>l. l\<lparr>ml_descriptor_borrows := ml_descriptor_borrows l - 1\<rparr>"
    let ?q = "\<lambda>p. p\<lparr>lp_borrowed := removeAll d (lp_borrowed p)\<rparr>"
    have r1: "\<exists>x. r1 = Inr x"
      using m by (auto simp: captured_eq sreturn_def split: prod.splits sum.splits if_splits)
    have "\<exists>v. moved s v s1 \<and> table_ok (?q ?p) v"
    proof (cases "d \<in> set (lp_borrowed ?p)")
      case True
      with m obtain r2 where "close_borrowed d h s = (r2, s1)"
        by (auto simp: captured_eq split: prod.splits sum.splits)
      from close_borrowed_moved [OF this ok] table_returned [OF tab True] table_mono [OF table_returned [OF tab True], of "fd_view s"]
      show ?thesis by (auto simp: map_le_def)
    next
      case False
      with m have "s1 = s" by (simp add: sreturn_def)
      with quiet.Q_refl [of s] ok tab False show ?thesis by (auto simp: quiet_def)
    qed
    then obtain v where v: "moved s v s1" "table_ok (?q ?p) v" by blast
    have "calm (?q ?p) (?q (lw_process s1))" using v(1) by (auto simp: moved_def calm_def)
    from table_lease_update [OF table_calm [OF v(2) this], of ?f self]
    have tab1: "table_ok (update_lease_of self ?f (?q (lw_process s1))) v" by simp
    have "t = on_process (\<lambda>p. update_lease_of self ?f (?q p)) s1"
      using r L same r1 m
      by (auto simp: return_state_descriptor_def sthen_def sbind_def lease_at_def held_at_def sread_def sget_def reset_pure
          smodify_def update_lease_def on_process_def update_lease_of_def sraise_def sreturn_def simp del: split_paired_Ex
          split: option.splits sum.splits)
    then show ?thesis
      using table_mono [OF tab1 moved_le [OF v(1)]] moved_ok [OF v(1)] by (simp add: lease_inv_def update_lease_of_def)
  qed
qed

section \<open>Every sequence of calls\<close>

datatype lease_call =
    Acquire nat lease_mode absolute_path
  | Enter nat
  | Exit nat "exn option"
  | Close nat
  | Lend nat bool
  | Return nat nat "exn option"

fun run_lease_call :: "lease_call \<Rightarrow> lease_world \<Rightarrow> lease_world" where
  "run_lease_call (Acquire rounds mode p) w = snd (acquire rounds mode p w)"
| "run_lease_call (Enter self) w = snd (enter_lease self w)"
| "run_lease_call (Exit self error) w = snd (exit_lease self error w)"
| "run_lease_call (Close self) w = snd (close_lease self w)"
| "run_lease_call (Lend self exclusive) w = snd (lend_state_descriptor self exclusive w)"
| "run_lease_call (Return self d error) w = snd (return_state_descriptor self d error w)"

text \<open>A process that has just imported the module; the rest of the world is up to \<open>env\<close>.\<close>

definition start_lease_world ::
    "int \<Rightarrow> name_space \<Rightarrow> (nat \<Rightarrow> interference list) \<Rightarrow> (nat \<Rightarrow> bool) \<Rightarrow> (nat \<Rightarrow> bool) \<Rightarrow> lease_world" where
  "start_lease_world pid names env fault close_fault =
     \<lparr>lw_process = \<lparr>lp_pid = pid, lp_registry_pid = pid, lp_registry = [], lp_borrowed = [], lp_held = (\<lambda>_. None),
        lp_leases = (\<lambda>_. None), lp_next = 0\<rparr>,
      lw_kernel = \<lparr>kn_fds = [], kn_files = (\<lambda>_. (0, 0)), kn_locks = (\<lambda>_. None), kn_next = 0, kn_names = names,
        kn_tick = 0, kn_fault = fault, kn_close_fault = close_fault, kn_env = env\<rparr>\<rparr>"

definition active_leases :: "lease_process \<Rightarrow> nat \<Rightarrow> nat list" where
  "active_leases p a = filter (\<lambda>l. case lp_leases p l of Some L \<Rightarrow> \<not> ml_released L \<and> ml_held L = a | None \<Rightarrow> False)
     [0..<lp_next p]"

text \<open>The entry at \<open>a\<close> counts its active leases, of which there is one, and its kernel lock of its mode excludes every
  incompatible lock of any process on the same file.\<close>

definition entry_sound :: "lease_world \<Rightarrow> nat \<Rightarrow> bool" where
  "entry_sound w a =
     (let p = lw_process w; k = lw_kernel w in
      case lp_held p a of
        None \<Rightarrow> False
      | Some h \<Rightarrow>
          (case description_of k (lp_pid p) (hl_lock_descriptor h) of
             None \<Rightarrow> False
           | Some x \<Rightarrow>
               hl_owner_pid h = lp_pid p \<and> active_leases p a \<noteq> [] \<and> hl_references h = int (length (active_leases p a))
               \<and> kn_files k x = (fi_device (hl_lock_identity h), fi_inode (hl_lock_identity h))
               \<and> kn_locks k x = Some (hl_mode h)
               \<and> list_all (\<lambda>(_, y). y = x \<or> kn_files k y \<noteq> kn_files k x \<or> kn_locks k y = None
                   \<or> (hl_mode h = SHARED \<and> kn_locks k y = Some SHARED)) (kn_fds k)))"

definition leases_sound :: "lease_world \<Rightarrow> bool" where
  "leases_sound w =
     (let p = lw_process w in
      distinct (map fst (lp_registry p)) \<and> list_all (\<lambda>(_, a). entry_sound w a) (lp_registry p)
      \<and> list_all (\<lambda>l. case lp_leases p l of None \<Rightarrow> True | Some L \<Rightarrow> ml_released L \<or> ml_held L \<in> snd ` set (lp_registry p))
          [0..<lp_next p])"

lemma start_inv: "lease_inv (start_lease_world pid names env fault close_fault)"
  by (simp add: lease_inv_def start_lease_world_def kernel_ok_def table_ok_def owned_fds_def locks_apart_def lease_ok_def)

lemma call_inv: "lease_inv w \<Longrightarrow> lease_inv (run_lease_call c w)"
  by (cases c) (auto intro: acquire_inv enter_inv exit_inv close_lease_inv lend_inv return_inv simp: prod_eq_iff)

lemma calls_inv: "lease_inv w \<Longrightarrow> lease_inv (fold run_lease_call calls w)"
  by (induction calls arbitrary: w) (auto intro: call_inv)

lemma entry_sound_inv:
  assumes inv: "lease_inv w" and e: "(state, a) \<in> set (lp_registry (lw_process w))"
  shows "entry_sound w a"
proof -
  from inv have t: "table_ok (lw_process w) (fd_view w)" and ok: "world_ok w" by (simp_all add: lease_inv_def)
  from table_entry [OF t e] obtain h x where h: "lp_held (lw_process w) a = Some h" "hl_owner_pid h = my_pid w"
      "fd_view w (hl_lock_descriptor h) = Some (x, lock_object h, Some (hl_mode h))"
      "hl_references h = int (card (active (lw_process w) a))" "0 < hl_references h" by metis
  from h(3) have x: "description_of (lw_kernel w) (my_pid w) (hl_lock_descriptor h) = Some x"
      "kn_files (lw_kernel w) x = lock_object h" "kn_locks (lw_kernel w) x = Some (hl_mode h)"
    by (auto simp: view_of_def)
  have count: "card (active (lw_process w) a) = length (active_leases (lw_process w) a)"
  proof -
    have "set (active_leases (lw_process w) a) = active (lw_process w) a" by (auto simp: active_leases_def active_def)
    moreover have "distinct (active_leases (lw_process w) a)" by (simp add: active_leases_def)
    ultimately show ?thesis by (metis distinct_card)
  qed
  have "y = x \<or> kn_files (lw_kernel w) y \<noteq> kn_files (lw_kernel w) x \<or> kn_locks (lw_kernel w) y = None
      \<or> (hl_mode h = SHARED \<and> kn_locks (lw_kernel w) y = Some SHARED)" for y
    using ok x(3) unfolding kernel_ok_def by (cases "kn_locks (lw_kernel w) y") metis+
  then show ?thesis
    using h x count by (auto simp: entry_sound_def Let_def list_all_iff)
qed

lemma leases_sound_inv: "lease_inv w \<Longrightarrow> leases_sound w"
  using entry_sound_inv [of w]
  by (auto simp: leases_sound_def Let_def list_all_iff lease_inv_def table_ok_def lease_ok_def split: option.splits)

section \<open>The failures of \<open>close\<close> are given\<close>

definition same_faults :: "lease_world \<Rightarrow> lease_world \<Rightarrow> bool" where
  "same_faults s t = (kn_close_fault (lw_kernel t) = kn_close_fault (lw_kernel s))"

interpretation faults: state_preorder same_faults
  by unfold_locales (simp_all add: same_faults_def)

lemma faults_others: "same_faults s (let_others_act s)"
  by (simp add: same_faults_def let_others_act_def on_kernel_def close_fault_fold)

lemma faults_system_call [intro, simp]: "faults.keeps system_call"
  by (rule faults.keepsI) (simp add: system_call_def faults_others)

lemma faults_process [intro, simp]: "faults.keeps (smodify (on_process f))"
  by (rule faults.keepsI) (simp add: smodify_def same_faults_def)

lemma faults_kernel [intro, simp]:
  "faults.keeps (smodify (on_kernel (\<lambda>k. k\<lparr>kn_names := names\<rparr>)))" "faults.keeps (smodify (on_kernel (set_lock x l)))"
  "faults.keeps (smodify (on_kernel (flock_description x mode)))" "faults.keeps (open_here object)"
  "faults.keeps (\<lambda>w. (Inr (f w), on_kernel (share_description (my_pid w) x) w))" "faults.keeps (sys_close d)"
proof -
  show "faults.keeps (sys_close d)"
    using faults_others by (intro faults.keepsI)
      (simp add: sys_close_def same_faults_def on_kernel_def close_descriptor_def Let_def)
qed (rule faults.keepsI, simp add: smodify_def same_faults_def on_kernel_def set_lock_def flock_description_def open_here_def
    open_object_def share_description_def)+

lemma faults_calls [intro, simp]:
  "faults.keeps (sys_lstat p)" "faults.keeps (sys_fstat d)" "faults.keeps (directory_of d)"
  "faults.keeps (sys_stat_at d name)" "faults.keeps (sys_scandir d)" "faults.keeps (sys_open_directory p)"
  "faults.keeps (sys_open_at d name only)" "faults.keeps (sys_create_at d name)" "faults.keeps (sys_dup d)"
  "faults.keeps (sys_flock d mode)" "faults.keeps (sys_unlock d)" "faults.keeps (held_at a)" "faults.keeps (lease_at self)"
  "faults.keeps (registered_at state)"
  unfolding sys_lstat_def sys_fstat_def directory_of_def sys_stat_at_def sys_scandir_def sys_open_directory_def
    sys_open_at_def sys_create_at_def sys_dup_def sys_flock_def sys_unlock_def held_at_def lease_at_def registered_at_def
  by (auto intro!: faults.keeps_then faults.keeps_bind)

lemma faults_fence [intro, simp]:
  "faults.keeps (require_state_path_identity state i)" "faults.keeps (require_lock_path_identity d i)"
  "faults.keeps (require_exact_fence_entry_name d name)" "faults.keeps (verify_held_lease a)"
  "faults.keeps (open_fence_directory d name)" "faults.keeps (inspect_marker d)"
  unfolding require_state_path_identity_def require_lock_path_identity_def require_exact_fence_entry_name_def
    verify_held_lease_def open_fence_directory_def inspect_marker_def
  by (auto intro!: faults.keeps_then faults.keeps_bind faults.keeps_translating faults.keeps_option faults.keeps_except
      faults.keeps_finally)

lemma faults_walk: "faults.keeps (walk_fence components d)"
  by (induction components arbitrary: d)
    (auto intro!: faults.keeps_then faults.keeps_bind faults.keeps_except faults.keeps_finally faults.keeps_option)

lemma faults_marker [intro, simp]: "faults.keeps (quarantine_marker_present a)"
  unfolding quarantine_marker_present_def by (auto intro!: faults.keeps_bind faults_walk)

lemma faults_open [intro, simp]:
  "faults.keeps (open_state_directory p)" "faults.keeps (check_opened_lock sd observed d)"
  unfolding open_state_directory_def check_opened_lock_def Let_def
  by (auto intro!: faults.keeps_then faults.keeps_bind faults.keeps_translating faults.keeps_except)

lemma faults_lock [intro, simp]: "faults.keeps (open_or_create_lock rounds sd)"
  by (induction rounds)
    (auto intro!: faults.keeps_then faults.keeps_bind faults.keeps_translating faults.keeps_option)

lemma faults_reset [intro, simp]: "faults.keeps reset_registry_after_fork"
  unfolding reset_registry_after_fork_def reset_registry_in_child_def
  by (auto intro!: faults.keeps_then faults.keeps_bind faults.keeps_suppressing faults.keeps_for)

lemma faults_close_descriptors [intro, simp]: "faults.keeps (close_descriptors ds)"
  by (induction ds) (auto intro!: faults.keeps_then faults.keeps_bind faults.keeps_except)

lemma faults_objects [intro, simp]:
  "faults.keeps (new_held h)" "faults.keeps (new_lease a)" "faults.keeps (update_lease self f)" "faults.keeps (update_held a g)"
  "faults.keeps (activate self)"
  unfolding activate_def update_lease_def update_held_def
  by (auto intro!: faults.keepsI simp: new_held_def new_lease_def Let_def same_faults_def)

lemma faults_acquire [intro, simp]: "faults.keeps (acquire rounds mode p)"
proof -
  have abandon: "faults.keeps (abandon d locked sd e)" for d locked sd e
    unfolding abandon_def by (auto intro!: faults.keeps_then faults.keeps_bind faults.keeps_option faults.keeps_suppressing)
  have unfenced: "faults.keeps (verify_unfenced a mode e)" for a mode e
    unfolding verify_unfenced_def by (auto intro!: faults.keeps_then faults.keeps_bind)
  have nested: "faults.keeps (nested_acquire mode a sd)" for a sd
    unfolding nested_acquire_def
    by (auto intro!: faults.keeps_then faults.keeps_bind faults.keeps_finally faults.keeps_translating)
  have fresh: "faults.keeps (fresh_acquire rounds mode state sd si)" for state sd si
    unfolding fresh_acquire_def lock_or_busy_def register_lease_def
    by (auto intro!: faults.keeps_then faults.keeps_bind faults.keeps_except faults.keeps_translating faults.keeps_option
        abandon unfenced split: prod.splits)
  show ?thesis
    unfolding acquire_def
    by (auto intro!: faults.keeps_then faults.keeps_bind faults.keeps_option nested fresh split: prod.splits)
qed

lemma faults_close [intro, simp]: "faults.keeps (close_lease self)"
  unfolding close_lease_def close_locked_def captured_def check_before_release_def release_kernel_lease_def
  by (auto intro!: faults.keeps_then faults.keeps_bind faults.keeps_except faults.keeps_translating faults.keeps_option)

lemma faults_use [intro, simp]:
  "faults.keeps (enter_lease self)" "faults.keeps (exit_lease self e)" "faults.keeps (lend_state_descriptor self exclusive)"
  "faults.keeps (return_state_descriptor self d e)"
  unfolding enter_lease_def exit_lease_def lend_state_descriptor_def duplicate_state_descriptor_def usable_lease_def
    fail_entry_def return_state_descriptor_def captured_def close_borrowed_def verify_unfenced_def
  by (auto intro!: faults.keeps_then faults.keeps_bind faults.keeps_except faults.keeps_translating faults.keeps_option
      split: prod.splits option.splits)

lemma faults_snd: "faults.keeps m \<Longrightarrow> same_faults w (snd (m w))"
  by (simp add: faults.keeps_def)

lemma faults_run: "same_faults w (run_lease_call c w)"
  by (cases c) (auto intro: faults_snd)

lemma faults_fold: "same_faults w (fold run_lease_call calls w)"
  by (induction calls arbitrary: w) (use faults_run in \<open>auto simp: same_faults_def\<close>)

section \<open>A forked child\<close>

text \<open>The child has a copy of the memory and of the descriptors; nobody else acts while it runs.\<close>

definition fork_child :: "int \<Rightarrow> lease_world \<Rightarrow> lease_world" where
  "fork_child child w =
     w\<lparr>lw_process := (lw_process w)\<lparr>lp_pid := child\<rparr>,
       lw_kernel := (fork_descriptors (my_pid w) child (lw_kernel w))\<lparr>kn_env := (\<lambda>_. [])\<rparr>\<rparr>"

definition parent_keeps :: "int \<Rightarrow> lease_world \<Rightarrow> lease_world \<Rightarrow> bool" where
  "parent_keeps parent s t =
     (my_pid s \<noteq> parent \<longrightarrow> kn_env (lw_kernel s) = (\<lambda>_. []) \<longrightarrow>
        my_pid t = my_pid s \<and> kn_env (lw_kernel t) = (\<lambda>_. []) \<and> view_of (lw_kernel t) parent = view_of (lw_kernel s) parent)"

interpretation fork: state_preorder "parent_keeps parent" for parent
  by unfold_locales (auto simp: parent_keeps_def)

lemma fork_close [intro, simp]: "fork.keeps parent (sys_close d)"
  by (rule fork.keepsI)
    (auto simp: parent_keeps_def sys_close_def let_others_act_def on_kernel_def closed_kernel ticked
      close_descriptor_def [THEN arg_cong, of kn_env] Let_def)

lemma fork_process [intro]: "(\<And>p. lp_pid (f p) = lp_pid p) \<Longrightarrow> fork.keeps parent (smodify (on_process f))"
  by (rule fork.keepsI) (simp add: smodify_def parent_keeps_def)

lemma fork_reset [intro, simp]: "fork.keeps parent reset_registry_after_fork"
  unfolding reset_registry_after_fork_def reset_registry_in_child_def
  by (auto intro!: fork.keeps_then fork.keeps_bind fork.keeps_suppressing fork.keeps_for fork_process)

text \<open>Every active lease object of the child belongs to another process, and once it has noticed it lends no descriptor.\<close>

definition in_child :: "lease_world \<Rightarrow> bool" where
  "in_child w =
     ((\<forall>l L h. lp_leases (lw_process w) l = Some L \<longrightarrow> \<not> ml_released L \<longrightarrow> lp_held (lw_process w) (ml_held L) = Some h
         \<longrightarrow> hl_owner_pid h \<noteq> my_pid w)
      \<and> (lp_registry_pid (lw_process w) = my_pid w \<longrightarrow> lp_borrowed (lw_process w) = []))"

lemma suppressed_close: "\<exists>t. suppressing (sys_close d) w = (Inr (), t) \<and> lw_process t = lw_process w"
  by (auto simp: suppressing_def scatch_def sys_close_def require_def sreturn_def let_others_act_def on_kernel_def)

lemma suppressed_closes:
  assumes "\<And>x w. x \<in> set xs \<Longrightarrow> \<exists>t. f x w = (Inr (), t) \<and> lw_process t = lw_process w"
  shows "\<exists>t. sfor xs f w = (Inr (), t) \<and> lw_process t = lw_process w"
  using assms
proof (induction xs arbitrary: w)
  case (Cons x xs)
  from Cons.prems [of x w] obtain t where t: "f x w = (Inr (), t)" "lw_process t = lw_process w" by auto
  from Cons.IH [of t] Cons.prems obtain u where "sfor xs f t = (Inr (), u)" "lw_process u = lw_process t" by auto
  with t show ?case by (auto simp: sthen_def sbind_def)
qed (simp add: sreturn_def)

lemma child_reset:
  assumes "in_child w"
  shows "\<exists>t. reset_registry_after_fork w = (Inr (), t) \<and> in_child t \<and> lp_registry_pid (lw_process t) = my_pid t
    \<and> my_pid t = my_pid w \<and> lp_leases (lw_process t) = lp_leases (lw_process w) \<and> lp_held (lw_process t) = lp_held (lw_process w)
    \<and> lp_borrowed (lw_process t) = []"
proof (cases "lp_registry_pid (lw_process w) = my_pid w")
  case True
  with assms show ?thesis by (simp add: reset_pure in_child_def)
next
  case False
  let ?bs = "lp_borrowed (lw_process w)"
    and ?hs = "List.map_filter (\<lambda>e. lp_held (lw_process w) (snd e)) (lp_registry (lw_process w))"
  let ?w1 = "on_process (\<lambda>p. p\<lparr>lp_registry := [], lp_borrowed := [], lp_registry_pid := lp_pid p\<rparr>) w"
  from suppressed_closes [of ?bs "\<lambda>d. suppressing (sys_close d)" ?w1] suppressed_close obtain w2 where
    w2: "sfor ?bs (\<lambda>d. suppressing (sys_close d)) ?w1 = (Inr (), w2)" "lw_process w2 = lw_process ?w1" by blast
  let ?f = "\<lambda>held. sthen (suppressing (sys_close (hl_lock_descriptor held))) (suppressing (sys_close (hl_state_descriptor held)))"
  have "\<exists>t. ?f h v = (Inr (), t) \<and> lw_process t = lw_process v" for h v
    using suppressed_close [of "hl_lock_descriptor h" v] suppressed_close [of "hl_state_descriptor h"]
    by (auto simp: sthen_def sbind_def) metis
  with suppressed_closes [of ?hs ?f w2] obtain w3 where
    w3: "sfor ?hs ?f w2 = (Inr (), w3)" "lw_process w3 = lw_process w2" by blast
  have "reset_registry_after_fork w = (Inr (), w3)"
    using False w2(1) w3(1) by (simp add: reset_registry_after_fork_def reset_registry_in_child_def sthen_def sbind_def sget_def
        smodify_def)
  with w2(2) w3(2) assms show ?thesis by (auto simp: in_child_def)
qed

lemma in_child_process:
  assumes "in_child w" and "lp_pid (f (lw_process w)) = my_pid w" and "lp_held (f (lw_process w)) = lp_held (lw_process w)"
    and "\<And>l L. lp_leases (f (lw_process w)) l = Some L \<Longrightarrow> \<not> ml_released L \<Longrightarrow>
      \<exists>L'. lp_leases (lw_process w) l = Some L' \<and> \<not> ml_released L' \<and> ml_held L' = ml_held L"
    and "lp_registry_pid (f (lw_process w)) = lp_registry_pid (lw_process w)" and "set (lp_borrowed (f (lw_process w))) \<subseteq> set (lp_borrowed (lw_process w))"
  shows "in_child (on_process f w)"
proof -
  have "hl_owner_pid h \<noteq> my_pid w"
    if L: "lp_leases (f (lw_process w)) l = Some L" "\<not> ml_released L" "lp_held (lw_process w) (ml_held L) = Some h" for l L h
    using assms(1) assms(4) [OF L(1,2)] L(3) unfolding in_child_def by metis
  with assms show ?thesis unfolding in_child_def by auto
qed

definition only_resets :: "lease_world \<Rightarrow> lease_world \<Rightarrow> bool" where
  "only_resets w t = (in_child t \<and> my_pid t = my_pid w \<and> (lw_kernel t = lw_kernel w \<or> lw_kernel t = lw_kernel (snd (reset_registry_after_fork w))))"

lemma child_close:
  assumes c: "in_child w" and r: "close_lease self w = (r, t)"
  shows "only_resets w t"
proof -
  from child_reset [OF c] obtain u where u: "reset_registry_after_fork w = (Inr (), u)" "in_child u"
      "lp_registry_pid (lw_process u) = my_pid u" "my_pid u = my_pid w" "lp_leases (lw_process u) = lp_leases (lw_process w)"
      "lp_held (lw_process u) = lp_held (lw_process w)" by blast
  let ?f = "\<lambda>p. p\<lparr>lp_leases := (lp_leases p)(self := map_option (\<lambda>l. l\<lparr>ml_released := True\<rparr>) (lp_leases p self))\<rparr>"
  have "t = w \<or> t = u \<or> t = on_process ?f u"
  proof (cases "lp_leases (lw_process w) self")
    case None
    with r show ?thesis by (simp add: close_lease_def sbind_def lease_at_def sread_def)
  next
    case (Some L)
    show ?thesis
    proof (cases "ml_released L")
      case True
      with r Some show ?thesis by (simp add: close_lease_def sbind_def lease_at_def sread_def sreturn_def)
    next
      case False
      have "\<And>h. lp_held (lw_process u) (ml_held L) = Some h \<Longrightarrow> hl_owner_pid h \<noteq> my_pid u"
        using u(2,5) Some False unfolding in_child_def by auto
      with r Some False u(1,3,5) show ?thesis
        by (cases "lp_held (lw_process u) (ml_held L)")
          (auto simp: close_lease_def close_locked_def sthen_def sbind_def lease_at_def held_at_def sread_def sget_def reset_pure
            sguard_def slift_def update_lease_def smodify_def)
    qed
  qed
  moreover have "in_child (on_process ?f u)" by (rule in_child_process [OF u(2)]) (auto split: if_splits)
  ultimately show ?thesis using c u(1,2,4) by (auto simp: only_resets_def)
qed

lemma child_usable:
  assumes c: "in_child w" and r: "usable_lease self w = (r, t)"
  shows "(\<exists>e. r = Inl e) \<and> only_resets w t"
proof -
  from child_reset [OF c] obtain u where u: "reset_registry_after_fork w = (Inr (), u)" "in_child u"
      "lp_registry_pid (lw_process u) = my_pid u" "my_pid u = my_pid w" by blast
  have "\<And>L h. lp_leases (lw_process u) self = Some L \<Longrightarrow> \<not> ml_released L \<Longrightarrow> lp_held (lw_process u) (ml_held L) = Some h \<Longrightarrow>
      hl_owner_pid h \<noteq> my_pid u"
    using u(2) unfolding in_child_def by blast
  with r u(1,3) have "(\<exists>e. r = Inl e) \<and> t = u"
    by (cases "lp_leases (lw_process u) self"; cases "lp_held (lw_process u) (ml_held (the (lp_leases (lw_process u) self)))")
      (auto simp: usable_lease_def sthen_def sbind_def lease_at_def held_at_def sread_def sget_def reset_pure
        sguard_def slift_def require_def split: if_splits)
  with u(1,2,4) show ?thesis by (auto simp: only_resets_def)
qed

lemma child_return:
  assumes c: "in_child w" and r: "return_state_descriptor self d e w = (r, t)"
  shows "only_resets w t"
proof -
  from child_reset [OF c] obtain u where u: "reset_registry_after_fork w = (Inr (), u)" "in_child u"
      "lp_registry_pid (lw_process u) = my_pid u" "lp_borrowed (lw_process u) = []" "my_pid u = my_pid w" by blast
  let ?f = "\<lambda>p. update_lease_of self (\<lambda>l. l\<lparr>ml_descriptor_borrows := ml_descriptor_borrows l - 1\<rparr>)
      (p\<lparr>lp_borrowed := removeAll d (lp_borrowed p)\<rparr>)"
  have "t = w \<or> t = on_process ?f u"
    using r u(1,4)
    by (cases "lp_leases (lw_process w) self"; cases "lp_held (lw_process w) (ml_held (the (lp_leases (lw_process w) self)))")
      (auto simp: return_state_descriptor_def sthen_def sbind_def lease_at_def held_at_def sread_def sget_def smodify_def
        update_lease_def on_process_def update_lease_of_def sraise_def sreturn_def split: option.splits)
  moreover have "in_child (on_process ?f u)"
    by (rule in_child_process [OF u(2)]) (auto simp: update_lease_of_def split: if_splits)
  ultimately show ?thesis using c u(1,5) by (auto simp: only_resets_def update_lease_of_def)
qed

fun uses_a_lease :: "lease_call \<Rightarrow> bool" where
  "uses_a_lease (Acquire rounds mode p) = False"
| "uses_a_lease c = True"

lemma child_call:
  assumes c: "in_child w" and use: "uses_a_lease call"
  shows "only_resets w (run_lease_call call w)"
proof (cases call)
  case (Enter self)
  obtain r t where u: "usable_lease self w = (r, t)" by (cases "usable_lease self w")
  from child_usable [OF c u] u Enter show ?thesis by (auto simp: enter_lease_def sbind_def)
next
  case (Lend self exclusive)
  obtain r t where u: "usable_lease self w = (r, t)" by (cases "usable_lease self w")
  from child_usable [OF c u] u Lend show ?thesis by (auto simp: lend_state_descriptor_def sbind_def)
next
  case (Close self)
  with child_close [OF c surjective_pairing] show ?thesis by simp
next
  case (Exit self error)
  obtain r t where u: "close_lease self w = (r, t)" by (cases "close_lease self w")
  from child_close [OF c u] u Exit show ?thesis
    by (auto simp: exit_lease_def sexcept_def sthen_def sbind_def sraise_def sreturn_def split: option.splits sum.splits)
next
  case (Return self d error)
  with child_return [OF c surjective_pairing] show ?thesis by simp
qed (use use in simp)

lemma child_calls:
  assumes "in_child w" and "list_all uses_a_lease calls"
  shows "parent_keeps parent w (fold run_lease_call calls w)"
  using assms
proof (induction calls arbitrary: w)
  case Nil
  then show ?case by (simp add: parent_keeps_def)
next
  case (Cons c calls)
  let ?t = "run_lease_call c w"
  from child_call [of w c] Cons.prems have t: "only_resets w ?t" by simp
  have "parent_keeps parent w (snd (reset_registry_after_fork w))"
    using fork_reset unfolding fork.keeps_def by blast
  then have "parent_keeps parent w ?t"
    using t by (auto simp: only_resets_def parent_keeps_def)
  with Cons t show ?case using fork.Q_trans by (fastforce simp: only_resets_def)
qed

lemma fork_in_child:
  assumes inv: "lease_inv w" and child: "child \<noteq> my_pid w"
  shows "in_child (fork_child child w)"
proof -
  from inv have t: "table_ok (lw_process w) (fd_view w)" by (simp add: lease_inv_def)
  have "hl_owner_pid h = my_pid w"
    if L: "lp_leases (lw_process w) l = Some L" "\<not> ml_released L" "lp_held (lw_process w) (ml_held L) = Some h" for l L h
  proof -
    from t L(1,2) have "ml_held L \<in> snd ` set (lp_registry (lw_process w))" unfolding table_ok_def lease_ok_def by blast
    then obtain state where "(state, ml_held L) \<in> set (lp_registry (lw_process w))" by auto
    from table_entry [OF t this] L(3) show ?thesis by (metis option.inject)
  qed
  moreover have "lp_registry_pid (lw_process w) = my_pid w" using t by (simp add: table_ok_def)
  ultimately show ?thesis using child by (auto simp: in_child_def fork_child_def)
qed

section \<open>The acquisition ends\<close>

text \<open>The others no longer act from tick \<open>n\<close> on.\<close>

definition settled :: "nat \<Rightarrow> lease_world \<Rightarrow> bool" where
  "settled n w = (\<forall>m \<ge> n. kn_env (lw_kernel w) m = [])"

definition later :: "lease_world \<Rightarrow> lease_world \<Rightarrow> bool" where
  "later s t = (kn_env (lw_kernel t) = kn_env (lw_kernel s) \<and> kn_tick (lw_kernel s) \<le> kn_tick (lw_kernel t))"

interpretation clock: state_preorder later
  by unfold_locales (auto simp: later_def)

lemma env_constant: "kn_env (fold (interfere me) as k) = kn_env k \<and> kn_tick (fold (interfere me) as k) = kn_tick k"
proof (induction as arbitrary: k)
  case (Cons a as)
  have "kn_env (interfere me a k) = kn_env k \<and> kn_tick (interfere me a k) = kn_tick k"
    by (cases a) (auto simp: open_object_def share_description_def close_descriptor_def flock_description_def set_lock_def
        fork_descriptors_def Let_def split: option.splits)
  with Cons [of "interfere me a k"] show ?case by simp
qed simp

lemma clock_system_call: "later s (snd (system_call s)) \<and> kn_tick (lw_kernel (snd (system_call s))) = Suc (kn_tick (lw_kernel s))"
  by (simp add: later_def system_call_def let_others_act_def on_kernel_def env_constant)

lemma keeps_clock [intro, simp]: "clock.keeps system_call"
  using clock_system_call by (simp add: clock.keeps_def)

lemma clock_stat_at:
  assumes "translating reason (sys_stat_at d name) s = (Inr r, t)"
  shows "later s t \<and> kn_tick (lw_kernel t) = Suc (kn_tick (lw_kernel s))"
  using assms clock_system_call [of s]
  by (auto simp: translating_def sys_stat_at_def directory_of_def result_simps split: prod.splits)

text \<open>Once nobody else acts, a name that was missing is created.\<close>

lemma created_when_settled:
  assumes missing: "translating r1 (sys_stat_at d name) s = (Inr None, t)" and settled: "settled n s" "n \<le> kn_tick (lw_kernel s)"
  shows "fst (translating r2 (sys_create_at d name) t) \<noteq> Inr None"
proof -
  have t: "later s t" "kn_tick (lw_kernel t) = Suc (kn_tick (lw_kernel s))" using clock_stat_at [OF missing] by blast+
  from missing obtain x where x: "system_call s = (Inr (), t)" "object_of t d = Some x" "ns_type (kn_names (lw_kernel t)) x = S_IFDIR"
      "ns_lookup (kn_names (lw_kernel t)) x name = None"
    by (auto simp: translating_def sys_stat_at_def directory_of_def result_simps Let_def split: prod.splits)
  have "kn_env (lw_kernel t) (kn_tick (lw_kernel t)) = []"
    using t settled by (simp add: later_def settled_def)
  then have act: "let_others_act t = on_kernel (\<lambda>k. k\<lparr>kn_tick := Suc (kn_tick k)\<rparr>) t"
    by (simp add: let_others_act_def on_kernel_def)
  then have same: "object_of (let_others_act t) d = Some x" "kn_names (lw_kernel (let_others_act t)) = kn_names (lw_kernel t)"
    using x(2) by (simp_all add: on_kernel_def object_of_def description_of_def)
  have "fst (sys_create_at d name t) \<noteq> Inr None"
    using x(3,4) same
    by (auto simp: sys_create_at_def sthen_def sbind_def system_call_def directory_of_def sread_def sget_def sguard_def slift_def
        sreturn_def require_def smodify_def open_here_def split: prod.splits sum.splits)
  then show ?thesis
    by (auto simp: translating_def map_error_def split: prod.splits sum.splits)
qed

lemma lock_loop_ends:
  assumes "settled n s" and "n < rounds + kn_tick (lw_kernel s)" and "0 < rounds"
  shows "fst (open_or_create_lock rounds d s) \<noteq> Inr None"
  using assms
proof (induction rounds arbitrary: s)
  case (Suc rounds)
  let ?stat = "translating LOCK_INVALID (sys_stat_at d MAINTENANCE_LOCK_FILENAME)"
  let ?create = "translating LOCK_OPERATION_FAILED (sys_create_at d MAINTENANCE_LOCK_FILENAME)"
  obtain r1 t where m: "?stat s = (r1, t)" by (cases "?stat s")
  show ?case
  proof (cases "r1 = Inr None")
    case False
    with m show ?thesis
      by (auto simp: sbind_def sthen_def sreturn_def split: prod.splits sum.splits option.splits)
  next
    case True
    with m have m: "?stat s = (Inr None, t)" by simp
    obtain r2 u where c: "?create t = (r2, u)" by (cases "?create t")
    show ?thesis
    proof (cases "r2 = Inr None")
      case False
      with m c show ?thesis
        by (auto simp: sbind_def sthen_def sreturn_def split: prod.splits sum.splits option.splits)
    next
      case True
      with created_when_settled [OF m Suc.prems(1)] c have early: "kn_tick (lw_kernel s) < n"
        by (metis fst_conv not_le)
      from clock_stat_at [OF m] have t: "later s t" "kn_tick (lw_kernel t) = Suc (kn_tick (lw_kernel s))" by blast+
      have "later t u"
      proof -
        from c True have "sys_create_at d MAINTENANCE_LOCK_FILENAME t = (Inr None, u)"
          by (auto simp: translating_def map_error_eq_Inr split: prod.splits)
        then have "u = snd (system_call t)"
          by (auto simp: sys_create_at_def directory_of_def result_simps split: if_splits)
        then show ?thesis using clock_system_call [of t] by simp
      qed
      with t Suc.prems early have "settled n u" "n < rounds + kn_tick (lw_kernel u)"
        by (auto simp: later_def settled_def)
      moreover have "0 < rounds" using Suc.prems(2) early by auto
      ultimately have "fst (open_or_create_lock rounds d u) \<noteq> Inr None" by (rule Suc.IH)
      with m c True show ?thesis by (simp add: sbind_def)
    qed
  qed
qed simp

lemma clock_close [intro, simp]: "clock.keeps (sys_close d)"
  by (rule clock.keepsI)
    (simp add: later_def sys_close_def let_others_act_def on_kernel_def env_constant close_descriptor_def Let_def)

lemma clock_process [intro, simp]: "clock.keeps (smodify (on_process f))"
  by (rule clock.keepsI) (simp add: smodify_def later_def)

lemma clock_before_lock [intro, simp]:
  "clock.keeps (sys_lstat p)" "clock.keeps (sys_fstat d)" "clock.keeps (sys_open_directory p)"
  "clock.keeps (require_state_path_identity p i)" "clock.keeps reset_registry_after_fork" "clock.keeps (open_state_directory p)"
proof -
  have open_here: "clock.keeps (open_here object)" for object
    by (rule clock.keepsI) (simp add: open_here_def later_def on_kernel_def open_object_def)
  show calls: "clock.keeps (sys_lstat p)" "clock.keeps (sys_fstat d)" "clock.keeps (sys_open_directory p)" for p d
    unfolding sys_lstat_def sys_fstat_def sys_open_directory_def
    by (auto intro!: clock.keeps_then clock.keeps_bind open_here)
  show path: "clock.keeps (require_state_path_identity p i)" for p i
    unfolding require_state_path_identity_def by (auto intro!: clock.keeps_bind clock.keeps_translating calls)
  show "clock.keeps reset_registry_after_fork"
    unfolding reset_registry_after_fork_def reset_registry_in_child_def
    by (auto intro!: clock.keeps_then clock.keeps_bind clock.keeps_suppressing clock.keeps_for)
  show "clock.keeps (open_state_directory p)"
    unfolding open_state_directory_def Let_def
    by (auto intro!: clock.keeps_then clock.keeps_bind clock.keeps_translating clock.keeps_except calls path)
qed

section \<open>Properties\<close>

text \<open>C4: leases exclude each other. After any sequence of calls on the module, made one at a time, whatever other
  processes do and whichever system call fails, every registered lease has at least one active lease object and counts them exactly, the kernel holds
  its lock in its mode on the recorded lock file, and no process holds an incompatible lock on that file; every active lease object
  belongs to a registered lease.\<close>

theorem leases_exclude_each_other:
  "leases_sound (fold run_lease_call calls (start_lease_world pid names env fault close_fault))"
  by (intro leases_sound_inv calls_inv start_inv)

definition same_leases :: "lease_world \<Rightarrow> lease_world \<Rightarrow> bool" where
  "same_leases w u =
     (lp_registry (lw_process u) = lp_registry (lw_process w) \<and> lp_leases (lw_process u) = lp_leases (lw_process w)
      \<and> lp_borrowed (lw_process u) = lp_borrowed (lw_process w) \<and> fd_view u = fd_view w)"

text \<open>C5: a failed acquisition leaves nothing behind. When closing a descriptor does not fail, an acquisition that raises has
  neither changed the registry, a lease object nor the set of descriptors of the process with their files and locks.\<close>

theorem failed_acquisition_leaves_nothing:
  "let w = fold run_lease_call calls (start_lease_world pid names env fault (\<lambda>_. False)) in
   case acquire rounds mode p w of (Inl e, u) \<Rightarrow> same_leases w u | _ \<Rightarrow> True"
proof -
  let ?w = "fold run_lease_call calls (start_lease_world pid names env fault (\<lambda>_. False))"
  have inv: "lease_inv ?w" by (intro calls_inv start_inv)
  then have ok: "world_ok ?w" and same: "lp_registry_pid (lw_process ?w) = my_pid ?w"
    by (simp_all add: lease_inv_def table_ok_def)
  have "closes_well ?w"
    using faults_fold [of "start_lease_world pid names env fault (\<lambda>_. False)" calls]
    by (simp add: same_faults_def closes_well_def start_lease_world_def)
  then have "case acquire rounds mode p ?w of (Inl e, u) \<Rightarrow> same_leases ?w u | _ \<Rightarrow> True"
    by (cases rule: acquire_moved [OF ok same surjective_pairing [of "acquire rounds mode p ?w"]])
      (auto simp: case_prod_unfold moved_def calm_def same_leases_def)
  then show ?thesis by (simp add: Let_def)
qed

text \<open>C6: a forked child cannot disturb the lease of its parent. Whatever lease objects a child of a process uses, enters, closes or
  lends from, in any order and whichever call fails, every descriptor of the parent still has its file and its lock.\<close>

theorem forked_child_keeps_the_lease:
  "let w = fold run_lease_call calls (start_lease_world pid names env fault close_fault);
       c = fold run_lease_call (filter uses_a_lease child_calls) (fork_child child w) in
   child = my_pid w \<or> view_of (lw_kernel c) (my_pid w) = fd_view w"
proof -
  let ?w = "fold run_lease_call calls (start_lease_world pid names env fault close_fault)"
  let ?c = "fold run_lease_call (filter uses_a_lease child_calls) (fork_child child ?w)"
  have inv: "lease_inv ?w" by (intro calls_inv start_inv)
  have "view_of (lw_kernel ?c) (my_pid ?w) = fd_view ?w" if child: "child \<noteq> my_pid ?w"
  proof -
    have "parent_keeps (my_pid ?w) (fork_child child ?w) ?c"
      by (rule child_calls [OF fork_in_child [OF inv child]]) (simp add: list_all_iff)
    moreover have "view_of (lw_kernel (fork_child child ?w)) (my_pid ?w) = fd_view ?w"
      using forked_view [of "my_pid ?w" child "my_pid ?w" "lw_kernel ?w"] child
      by (simp add: fork_child_def view_of_def description_of_def fun_eq_iff)
    ultimately show ?thesis using child by (simp add: parent_keeps_def fork_child_def)
  qed
  then show ?thesis by (auto simp: Let_def)
qed

lemma abandon_raises: "abandon d locked sd e v \<noteq> (Inr y, u)"
  by (auto simp: abandon_def sthen_def sbind_def sraise_def split: prod.splits sum.splits)

text \<open>C38: an acquisition returns. Other processes may create and remove the lock file for as long as they act; once they have
  stopped, at tick \<open>n\<close> at the latest, one more round than that suffices for the loop that opens it to end, in every world.\<close>

theorem acquisition_returns:
  "fst (acquire (Suc n) mode p (on_kernel (\<lambda>k. k\<lparr>kn_env := (\<lambda>m. if m < n then kn_env k m else [])\<rparr>) w)) \<noteq> Inr None"
proof -
  let ?w = "on_kernel (\<lambda>k. k\<lparr>kn_env := (\<lambda>m. if m < n then kn_env k m else [])\<rparr>) w"
  have start: "settled n ?w" by (simp add: settled_def on_kernel_def)
  obtain r1 w1 where 1: "reset_registry_after_fork ?w = (r1, w1)" by (cases "reset_registry_after_fork ?w")
  obtain r2 w2 where 2: "reset_registry_after_fork w1 = (r2, w2)" by (cases "reset_registry_after_fork w1")
  obtain r3 w3 where 3: "open_state_directory p w2 = (r3, w3)" by (cases "open_state_directory p w2")
  from clock.keepsD [OF clock_before_lock(5) 1] clock.keepsD [OF clock_before_lock(5) 2] clock.keepsD [OF clock_before_lock(6) 3]
  have w3: "settled n w3" using start by (simp add: later_def settled_def)
  have loop: "fst (open_or_create_lock (Suc n) d w3) \<noteq> Inr None" for d
    by (rule lock_loop_ends [OF w3]) simp_all
  have "fst (fresh_acquire (Suc n) mode state sd si w3) \<noteq> Inr None" for state sd si
  proof -
    obtain r4 w4 where 4: "open_or_create_lock (Suc n) sd w3 = (r4, w4)" by (cases "open_or_create_lock (Suc n) sd w3")
    show ?thesis
      using loop [of sd] 4
      by (auto simp: fresh_acquire_def sbind_def sthen_def sexcept_def sreturn_def sget_def abandon_raises
          simp del: open_or_create_lock.simps split: prod.splits sum.splits option.splits)
  qed
  then show ?thesis
    using 1 2 3
    by (auto simp: acquire_def sthen_def sbind_def registered_at_def sget_def sreturn_def split: prod.splits sum.splits option.splits)
qed

end
