(* ===== verification/Spec2Isabelle.thy ===== *)
theory Spec2Isabelle
  imports Budget_Records Budget Clock Store_Properties Campaign_Properties Call_Protocol Sandbox_Contract Storage_Properties Artifact_Store_Properties
    Campaign_File_Properties Campaign_Runtime_Properties Runner_Properties Patch_Properties Maintenance_Properties
begin

text \<open>
  \<^bold>\<open>GuildMind's measurement substrate.\<close> GuildMind runs candidate agents on benchmark tasks and keeps
  evidence of what they did. This development models the part that makes the evidence
  trustworthy, the Python package under \<open>src/src/guildmind\<close>, by a shallow embedding. All paths below are
  relative to that package.

  \<^bold>\<open>What Python and the kernel provide.\<close>
  \<^item> \<open>Guild_Prelude\<close>: exceptions and results (\<open>exn\<close>, \<open>result\<close>), state-and-exception operations
    (\<open>op\<close>), strings, numerals, dictionaries as strictly sorted association lists.
  \<^item> \<open>Frames\<close>: \<open>try\<close> and \<open>except\<close>, and the locale \<open>state_preorder\<close> that lifts what a primitive may do to its
    state to every composition of primitives. It is interpreted on each kind of world below.
  \<^item> \<open>Py_Float\<close>, \<open>Float_Repr\<close>, \<open>Py_Datetime\<close>, \<open>Py_Path\<close>, \<open>Py_Regex\<close>: what the code uses of Python itself: binary64
    rounding, \<open>float.__repr__\<close>, UTC datetimes with \<open>isoformat\<close>, lexical paths, regular expressions with a matcher.

  \<^bold>\<open>Records and the ledger.\<close>
  \<^item> \<open>Serialization\<close> (\<open>domain/serialization.py\<close>): canonical JSON and its SHA-256; canonical texts
    are injective.
  \<^item> \<open>Domain\<close> (\<open>domain/models.py\<close>): the evidence records, their validators and dumps. \<open>Budget_Records\<close>: which JSON objects
    validate as a budget record. \<open>Usage\<close>: sums, differences and the order of budget usages, shared by three modules.
  \<^item> \<open>Clock\<close> (\<open>runtime/clock.py\<close>) and \<open>Budget\<close> (\<open>runtime/budget.py\<close>): the deterministic clock
    behind the locale \<open>ordered_clock\<close>, the budget authority behind \<open>capped_dimension\<close>.
  \<^item> \<open>Replay\<close>, \<open>Replay_Properties\<close> (\<open>runtime/replay.py\<close>): the hash chain and the replay of one run
    as a state machine, one handler per event type.
  \<^item> \<open>Ledger\<close>, \<open>Event_Store\<close>, \<open>Store_Frames\<close>, \<open>Store_Properties\<close> (\<open>storage/events.py\<close>): the tables,
    the loading and cross-checking of a run, the transactions and lifecycle operations; the
    locale \<open>ledger_order\<close> says what the operations may change.

  \<^bold>\<open>Artifacts, audits and maintenance.\<close>
  \<^item> \<open>Artifact_Store\<close>, \<open>Artifact_Store_Properties\<close> (\<open>storage/artifacts.py\<close>): publishing and verified reads of the
    content-addressed store on a file system whose calls may fail.
  \<^item> \<open>Artifact_Audit\<close>, \<open>Audit_Properties\<close> (\<open>storage/integrity.py\<close>): the audit that follows the references of the runs
    through the store and inventories what nobody refers to.
  \<^item> \<open>Storage_Report\<close>, \<open>Storage_Properties\<close> (\<open>storage/coordinator.py\<close>): one audit of ledger and store, and its report.
  \<^item> \<open>Lease_Kernel\<close>, \<open>Maintenance\<close> (\<open>storage/maintenance.py\<close>): the shared and exclusive leases of a state directory on
    a kernel with descriptors, \<open>flock\<close> locks, forks and other processes. \<open>Lease_Views\<close>, \<open>Lease_Calls\<close> and
    \<open>Maintenance_Properties\<close> prove what they guarantee.

  \<^bold>\<open>Running and reporting.\<close>
  \<^item> \<open>Call_Protocol\<close> (\<open>evaluation/protocol.py\<close>): loading a python-call fixture. \<open>Sandbox_Contract\<close> (\<open>sandbox/base.py\<close>):
    requests and results of a sandbox. \<open>Patch\<close>, \<open>Patch_Properties\<close> (\<open>sandbox/local.py\<close>): the patch parser and the
    application of a patch to a copy of a workspace.
  \<^item> \<open>Fixture\<close> (\<open>runtime/fixture.py\<close>, the results of \<open>evaluation/local.py\<close>): tasks of fixtures and domain results.
  \<^item> \<open>Recovery\<close>, \<open>Recovery_Properties\<close> (\<open>runtime/recovery.py\<close>): terminalizing an interrupted run behind an audit.
  \<^item> \<open>Runner\<close>, \<open>Runner_Properties\<close> (\<open>runtime/runner.py\<close>, \<open>models/\<close>): one run, from its lease to its terminal event.
  \<^item> \<open>Campaign\<close>, \<open>Campaign_Properties\<close> (\<open>domain/campaign.py\<close>): campaigns, attempts, the report and its derived claims.
    \<open>Campaign_Files\<close>, \<open>Campaign_Runtime\<close> and their properties (\<open>runtime/campaign.py\<close>): bounded reads, the publication
    of evidence files, source identities and the reconciliation of attempts with storage.

  \<^bold>\<open>How they interact.\<close> An operation of the store runs in a transaction: it verifies the whole
  ledger, loads the run it is about, appends events (each one accepted by \<open>replay_events\<close> on the
  stream it extends and stamped by the clock), saves a new manifest revision, updates the budget
  row, and verifies the whole ledger again before it commits. The runner drives these operations: the budget authority
  decides before dispatch whether a request may be reserved, the store checks the same sums again, the provider is asked, the
  evaluator judges the patch, and the evidence is published to the artifact store and recorded. Recovery and the
  reconciliation of a campaign read the same ledger and store through the coordinated audit. All of them hold
  the shared maintenance lease; the recovery and the runner use it through its answers, and its own theories prove them.

  \<^bold>\<open>Parameters.\<close> SHA-256 is the function \<open>sha\<close> on bytes, or \<open>H\<close> on JSON values (\<open>H\<close> is \<open>json_sha256 sha\<close>
  in the code); no property of it is assumed, the theorems on hashes exhibit the collision
  instead. JSON parsers, the provider and the evaluator are arguments. What system calls answer, the readings of the
  clock, and what other processes do are components of the worlds, arbitrary functions of a tick that every call advances.

  \<^bold>\<open>What the properties show.\<close> A run asks its provider at most once, after a durable reservation, and a run that returns is
  certified by its ledger. Transactions are atomic and commit only ledgers that verify; event
  logs are append-only; a command touches one run. The head hash
  commits to the stream, down to the bytes that are hashed. Replay is total, ends at a terminal event, accounts
  for the budget and demands evidence for success.
  Integer budgets hold under every interleaving, float budgets while reservations do not overlap. The store of artifacts refines
  a map from digests to contents; an audit that allows mutation has followed every reference; recovery commits only behind
  such an audit, and a report passes only with certified attempts. Leases exclude each other whatever other
  processes do and whichever call fails. The patch parser accepts exactly its grammar and an applied patch stays
  within its policy.

  \<^bold>\<open>Bounds.\<close> Loops are recursion with a termination proof (reading in chunks, parsing hunks and sections, walking
  directories) or folds over lists. The one loop that need not end, opening the lock file while others create and remove it,
  takes its rounds as an argument; \<open>acquisition_returns\<close> shows how many suffice. Strings cover the code points 0 to
  255, except in patches, which are lists of code points. Text columns are modelled by what they load as (see \<open>Ledger\<close>).

  \<^bold>\<open>Not modelled.\<close> Opening the database file and its path, header and sidecar checks, which only
  decide whether a store may be used; a failing \<open>COMMIT\<close>; threads inside one call of the lease module; short reads of an artifact
  and a failing close of a file that was read; what the errors after a commit carry; the quarantine of orphans; the command line; the container and
  subprocess back ends, their probes and the evaluators that drive them; loading fixture directories and campaign manifests, which
  rests on a JSON parser; the libc call behind the no-replace rename; schema export.
\<close>

section \<open>Properties of the serialization\<close>

text \<open>C17: canonical JSON is injective: two well-formed JSON values with the same canonical text are equal,
  and so are their UTF-8 bytes. Content hashes therefore identify values up to collisions of the
  hash function on different bytes.\<close>

theorem canonical_json_injective:
  assumes "wf_json a" and "wf_json b"
  shows "utf8_encode (dumps a) = utf8_encode (dumps b) \<longleftrightarrow> a = b"
  using dumps_inject_iff [OF assms] utf8_encode_inject by auto

theorem canonical_json_injective_witness:
  "utf8_encode (dumps (JArr [JInt 1])) \<noteq> utf8_encode (dumps (JArr [JFloat 1]))"
proof -
  have "wf_json (JArr [JInt 1])" "wf_json (JArr [JFloat 1])" by code_simp+
  from canonical_json_injective [OF this] show ?thesis by simp
qed

section \<open>Properties that span components\<close>

text \<open>C11: with the hash the code uses, two verified streams of valid events with the same head hash are
  equal, or SHA-256 maps two different byte strings, the canonical records of two of their
  events, to the same digest.\<close>

theorem head_hash_commits_to_bytes:
  assumes "verify_event_chain (json_sha256 sha) xs = Inr ()" and "verify_event_chain (json_sha256 sha) ys = Inr ()"
    and "xs \<noteq> []" and "ys \<noteq> []"
    and "list_all (valid_event (json_sha256 sha)) xs" and "list_all (valid_event (json_sha256 sha)) ys"
    and "content_hash (json_sha256 sha) (last xs) = content_hash (json_sha256 sha) (last ys)"
  shows "xs = ys \<or> (\<exists>a \<in> set xs. \<exists>b \<in> set ys.
    utf8_encode (dumps (event_json a)) \<noteq> utf8_encode (dumps (event_json b))
    \<and> sha (utf8_encode (dumps (event_json a))) = sha (utf8_encode (dumps (event_json b))))"
proof (rule disjCI)
  let ?H = "json_sha256 sha"
  assume no: "\<not> (\<exists>a \<in> set xs. \<exists>b \<in> set ys.
    utf8_encode (dumps (event_json a)) \<noteq> utf8_encode (dumps (event_json b))
    \<and> sha (utf8_encode (dumps (event_json a))) = sha (utf8_encode (dumps (event_json b))))"
  show "xs = ys"
  proof (rule chain_head_determines [OF assms(1-4,7)])
    fix a b assume ab: "a \<in> set xs" "b \<in> set ys" "content_hash ?H a = content_hash ?H b"
    then have v: "valid_event ?H a" "valid_event ?H b" using assms(5,6) by (auto simp: list_all_iff)
    from ab no have "utf8_encode (dumps (event_json a)) = utf8_encode (dumps (event_json b))"
      by (auto simp: content_hash_def json_sha256_def sha256_bytes_def)
    then have "dumps (event_json a) = dumps (event_json b)" by (rule utf8_encode_inject)
    then have "event_json a = event_json b"
      using dumps_inject_iff wf_event_json v by blast
    with v show "a = b" by (rule event_json_inject)
  qed
qed

text \<open>A constant digest of the right shape, under which every pair of events collides.\<close>

definition demo_sha :: "nat list \<Rightarrow> string" where
  "demo_sha bytes = replicate 64 (CHR ''0'')"

theorem head_hash_commits_to_bytes_witness:
  "\<exists>a \<in> set demo_stream. \<exists>b \<in> set renamed_stream.
    utf8_encode (dumps (event_json a)) \<noteq> utf8_encode (dumps (event_json b))
    \<and> demo_sha (utf8_encode (dumps (event_json a))) = demo_sha (utf8_encode (dumps (event_json b)))"
proof -
  have H: "json_sha256 demo_sha = zero_hash"
    by (simp add: fun_eq_iff json_sha256_def sha256_bytes_def demo_sha_def zero_hash_def)
  have h: "verify_event_chain zero_hash demo_stream = Inr ()" "verify_event_chain zero_hash renamed_stream = Inr ()"
    using demo_stream_replays renamed_stream_replays by (simp_all add: replay_events_Inr)
  have ne: "demo_stream \<noteq> []" "renamed_stream \<noteq> []" "demo_stream \<noteq> renamed_stream"
    by (simp_all add: renamed_stream_def demo_stream_def demo_bodies_def demo_event_def)
  have c: "content_hash zero_hash (last demo_stream) = content_hash zero_hash (last renamed_stream)"
    by (simp add: content_hash_def zero_hash_def)
  from head_hash_commits_to_bytes [of demo_sha demo_stream renamed_stream] h ne c demo_streams_valid
  show ?thesis by (simp add: H)
qed

end
